(* ===== verification/Prelude.thy ===== *)
theory Prelude
  imports Main "HOL-Library.Word" "HOL-Library.Multiset"
begin

text \<open>
  What the components of the indexer share: the names of the machine types, the result type of
  fallible code, loops whose body may fail (a Rust \<open>for\<close> loop with \<open>?\<close> in its body), association
  lists for the ordered maps of the source, and the generic lemmas about them.

  A \<open>Felt\<close> (an element of the Starknet field) is only compared, printed and copied by the code that is
  modelled here, so it is represented by its canonical representative, a natural number.
\<close>

section \<open>Machine types\<close>

type_synonym felt = nat
type_synonym u64 = "64 word"
type_synonym u256 = "256 word"

named_theorems record_defs "definitions of one-line state updates"
named_theorems alist_simps "evaluation of association-list operations"
named_theorems inv_intros "preservation of the components' invariants"

section \<open>Fallible code with state\<close>

text \<open>
  A method with \<open>&mut self\<close> that returns \<open>Result\<close> is a function from the state to a result and the
  state it leaves behind: the state after an error is observable, because callers may log the error
  and go on.
\<close>

type_synonym ('s, 'e, 'a) stateful = "'s \<Rightarrow> ('e + 'a) \<times> 's"

definition ret :: "'a \<Rightarrow> ('s, 'e, 'a) stateful" where
  "ret a s = (Inr a, s)"

definition fail :: "'e \<Rightarrow> ('s, 'e, 'a) stateful" where
  "fail e s = (Inl e, s)"

text \<open>The operator \<open>?\<close>: stop at an error, go on with the value otherwise.\<close>

definition and_then ::
  "('s, 'e, 'a) stateful \<Rightarrow> ('a \<Rightarrow> ('s, 'e, 'b) stateful) \<Rightarrow> ('s, 'e, 'b) stateful" where
  "and_then m f s = (case m s of (Inl e, s') \<Rightarrow> (Inl e, s') | (Inr a, s') \<Rightarrow> f a s')"

fun for_each :: "('a \<Rightarrow> ('s, 'e, unit) stateful) \<Rightarrow> 'a list \<Rightarrow> ('s, 'e, unit) stateful" where
  "for_each body [] s = (Inr (), s)"
| "for_each body (x # xs) s =
     (case body x s of (Inl e, s') \<Rightarrow> (Inl e, s') | (Inr _, s') \<Rightarrow> for_each body xs s')"

definition is_ok :: "'e + 'a \<Rightarrow> bool" where
  "is_ok r = (case r of Inl _ \<Rightarrow> False | Inr _ \<Rightarrow> True)"

lemma is_ok_simps [simp]: "is_ok (Inr a)" "\<not> is_ok (Inl e)"
  by (simp_all add: is_ok_def)

lemma is_ok_iff: "is_ok r \<longleftrightarrow> (\<exists>a. r = Inr a)"
  by (cases r) auto

lemma for_each_append:
  "for_each body (xs @ ys) s =
     (case for_each body xs s of (Inl e, s') \<Rightarrow> (Inl e, s') | (Inr _, s') \<Rightarrow> for_each body ys s')"
  by (induction xs arbitrary: s) (auto split: sum.splits prod.splits)

text \<open>
  The contract of a loop: a predicate that every run of the body keeps, whether it succeeds or
  fails, is kept by the loop.
\<close>

locale loop_invariant =
  fixes body :: "'a \<Rightarrow> ('s, 'e, unit) stateful"
    and inv :: "'s \<Rightarrow> bool"
  assumes body_inv: "inv s \<Longrightarrow> inv (snd (body x s))"
begin

lemma for_each_inv: "inv s \<Longrightarrow> inv (snd (for_each body xs s))"
proof (induction xs arbitrary: s)
  case (Cons x xs)
  then have "inv (snd (body x s))" by (intro body_inv)
  with Cons.IH show ?case by (auto split: prod.splits sum.splits)
qed simp

end

text \<open>
  A loop whose body establishes something about the element it has just seen, and never takes back
  what it established about earlier ones: after a successful run it holds of every element.
\<close>

locale loop_progress = loop_invariant body inv
  for body :: "'a \<Rightarrow> ('s, 'e, unit) stateful" and inv :: "'s \<Rightarrow> bool" +
  fixes post :: "'a \<Rightarrow> 's \<Rightarrow> bool"
  assumes body_post: "inv s \<Longrightarrow> body x s = (Inr (), s') \<Longrightarrow> post x s'"
    and body_keeps: "inv s \<Longrightarrow> post y s \<Longrightarrow> post y (snd (body x s))"
begin

lemma for_each_keeps: "inv s \<Longrightarrow> post y s \<Longrightarrow> post y (snd (for_each body xs s))"
proof (induction xs arbitrary: s)
  case (Cons x xs)
  then have "inv (snd (body x s))" "post y (snd (body x s))"
    by (auto intro: body_inv body_keeps)
  with Cons.IH show ?case by (auto split: prod.splits sum.splits)
qed simp

lemma for_each_post:
  "inv s \<Longrightarrow> for_each body xs s = (Inr (), s') \<Longrightarrow> x \<in> set xs \<Longrightarrow> post x s'"
proof (induction xs arbitrary: s)
  case (Cons y ys)
  obtain t where t: "body y s = (Inr (), t)" "for_each body ys t = (Inr (), s')"
    using Cons.prems(2) by (auto split: prod.splits sum.splits)
  have invt: "inv t" using body_inv[OF Cons.prems(1), of y] t(1) by simp
  show ?case
  proof (cases "x \<in> set ys")
    case True
    then show ?thesis using Cons.IH[OF invt t(2)] by blast
  next
    case False
    then have "x = y" using Cons.prems(3) by simp
    then have "post x t" using body_post[OF Cons.prems(1) t(1)] by simp
    then show ?thesis using for_each_keeps[OF invt, of x ys] t(2) by simp
  qed
qed simp

end

section \<open>Association lists\<close>

text \<open>
  Ordered maps (\<open>BTreeMap\<close>, \<open>IndexMap\<close>, \<open>LinkedHashMap\<close>) and hash maps that the code iterates over are
  association lists in iteration order. A \<open>HashMap\<close> iterates in an order the language does not fix, so
  no theorem assumes anything about the order of such a list.
\<close>

definition al_keys :: "('k \<times> 'v) list \<Rightarrow> 'k list" where
  "al_keys m = map fst m"

definition al_ok :: "('k \<times> 'v) list \<Rightarrow> bool" where
  "al_ok m \<longleftrightarrow> distinct (map fst m)"

text \<open>\<open>get_mut\<close> followed by an update of the value found.\<close>

definition al_modify :: "'k \<Rightarrow> ('v \<Rightarrow> 'v) \<Rightarrow> ('k \<times> 'v) list \<Rightarrow> ('k \<times> 'v) list" where
  "al_modify k f m = map (\<lambda>(k', v). (k', if k' = k then f v else v)) m"

text \<open>\<open>entry(k).and_modify(f).or_insert(d)\<close>, and \<open>insert\<close>, which keeps the position of a key it replaces.\<close>

fun al_upsert :: "'k \<Rightarrow> ('v \<Rightarrow> 'v) \<Rightarrow> 'v \<Rightarrow> ('k \<times> 'v) list \<Rightarrow> ('k \<times> 'v) list" where
  "al_upsert k f d [] = [(k, d)]"
| "al_upsert k f d ((k', v) # m) = (if k' = k then (k', f v) # m else (k', v) # al_upsert k f d m)"

definition al_insert :: "'k \<Rightarrow> 'v \<Rightarrow> ('k \<times> 'v) list \<Rightarrow> ('k \<times> 'v) list" where
  "al_insert k v m = al_upsert k (\<lambda>_. v) v m"

definition al_remove :: "'k \<Rightarrow> ('k \<times> 'v) list \<Rightarrow> ('k \<times> 'v) list" where
  "al_remove k m = filter (\<lambda>(k', _). k' \<noteq> k) m"

definition al_values :: "('k \<times> 'v) list \<Rightarrow> 'v list" where
  "al_values m = map snd m"

lemma map_of_al_modify [simp]:
  "map_of (al_modify k f m) k' = (if k' = k then map_option f (map_of m k) else map_of m k')"
  by (induction m) (auto simp: al_modify_def)

lemma fst_al_modify [simp]: "map fst (al_modify k f m) = map fst m"
  by (induction m) (auto simp: al_modify_def)

lemma al_ok_modify [simp]: "al_ok (al_modify k f m) = al_ok m"
  by (simp add: al_ok_def)

lemma map_of_al_upsert [simp]:
  "map_of (al_upsert k f d m) =
     (map_of m)(k \<mapsto> (case map_of m k of None \<Rightarrow> d | Some v \<Rightarrow> f v))"
  by (induction m) (auto simp: fun_eq_iff)

lemma fst_al_upsert [simp]: "fst ` set (al_upsert k f d m) = insert k (fst ` set m)"
proof (induction m)
  case (Cons p m)
  then show ?case by (cases p) (simp add: insert_commute)
qed simp

lemma al_ok_upsert [simp]: "al_ok (al_upsert k f d m) = al_ok m"
proof (induction m)
  case (Cons p m)
  have "fst ` set (al_upsert k f d m) = insert k (fst ` set m)" by simp
  with Cons show ?case by (cases p) (auto simp: al_ok_def)
qed (simp add: al_ok_def)

lemma map_of_al_insert [simp]: "map_of (al_insert k v m) = (map_of m)(k \<mapsto> v)"
  by (auto simp: al_insert_def split: option.split)

lemma al_ok_insert [simp]: "al_ok (al_insert k v m) = al_ok m"
  by (simp add: al_insert_def)

lemma map_of_al_remove [simp]: "map_of (al_remove k m) = (map_of m)(k := None)"
  by (induction m) (auto simp: al_remove_def fun_eq_iff)

lemma al_ok_remove [simp]: "al_ok m \<Longrightarrow> al_ok (al_remove k m)"
  by (auto simp: al_ok_def al_remove_def distinct_map_filter)

lemma al_ok_Nil [simp]: "al_ok []"
  by (simp add: al_ok_def)

lemma al_ok_in_set: "al_ok m \<Longrightarrow> (k, v) \<in> set m \<longleftrightarrow> map_of m k = Some v"
  by (simp add: al_ok_def)

lemma map_of_map_values: "map_of (map (\<lambda>(k, v). (k, f k v)) m) k = map_option (f k) (map_of m k)"
  by (induction m) auto

lemma map_of_map_constkeys: "map_of (map (\<lambda>k. (k, f k)) ks) k = (if k \<in> set ks then Some (f k) else None)"
  by (induction ks) auto

lemma map_filter_total: "(\<And>x. x \<in> set xs \<Longrightarrow> f x = Some (h x)) \<Longrightarrow> List.map_filter f xs = map h xs"
  by (induction xs) auto

lemma length_filter_update:
  "i < length xs \<Longrightarrow>
   length (filter P (xs[i := x])) + (if P (xs ! i) then 1 else 0) = length (filter P xs) + (if P x then 1 else 0)"
proof (induction xs arbitrary: i)
  case (Cons y ys)
  then show ?case using Cons.IH[of "i - 1"] by (cases i) (auto split: if_splits)
qed simp

text \<open>The order in which a hash map or hash set iterates: some permutation.\<close>

definition hash_order :: "('a list \<Rightarrow> 'a list) \<Rightarrow> bool" where
  "hash_order ho \<longleftrightarrow> (\<forall>xs. mset (ho xs) = mset xs)"

lemma hash_order_id [simp]: "hash_order (\<lambda>xs. xs)" "hash_order rev"
  by (simp_all add: hash_order_def)

lemma hash_order_set: "hash_order ho \<Longrightarrow> set (ho xs) = set xs"
  by (metis hash_order_def set_mset_mset)

lemmas al_defs = al_ok_def al_keys_def al_modify_def al_insert_def al_remove_def al_values_def

end
