(* ===== verification/Proto.thy ===== *)
theory Proto
  imports Prelude
begin

text \<open>
  The data types the components exchange, from \<open>crates/proto/src/lib.rs\<close>: token and balance identifiers,
  contract types, the per-contract cursor, contracts and models, and the Starknet event
  (address, keys, data) that every processor receives. The layout and the schema of a model are
  types of the Dojo packages and stay type parameters.
\<close>

section \<open>Tokens and balances\<close>

datatype token_id = Contract felt | Nft felt u256

fun is_nft :: "token_id \<Rightarrow> bool" where
  "is_nft (Nft _ _) = True"
| "is_nft (Contract _) = False"

fun token_contract_address :: "token_id \<Rightarrow> felt" where
  "token_contract_address (Contract addr) = addr"
| "token_contract_address (Nft addr _) = addr"

fun token_token_id :: "token_id \<Rightarrow> u256 option" where
  "token_token_id (Contract _) = None"
| "token_token_id (Nft _ i) = Some i"

record balance_id =
  b_account :: felt
  b_token :: token_id

lemma token_id_determined:
  "token_contract_address s = token_contract_address t \<Longrightarrow> token_token_id s = token_token_id t \<Longrightarrow> s = t"
  by (cases s; cases t) auto

section \<open>Contracts and cursors\<close>

datatype contract_type = WORLD | ERC20 | ERC721 | ERC1155 | UDC | OTHER

record contract_cursor =
  c_address :: felt
  c_head :: "u64 option"
  c_last_block_timestamp :: "u64 option"
  c_last_pending_block_tx :: "felt option"

record contract =
  k_address :: felt
  k_type :: contract_type
  k_head :: "u64 option"
  k_tps :: "u64 option"
  k_last_block_timestamp :: "u64 option"
  k_last_pending_block_tx :: "felt option"

definition cursor_of_contract :: "contract \<Rightarrow> contract_cursor" where
  "cursor_of_contract k = \<lparr>c_address = k_address k, c_head = k_head k,
     c_last_block_timestamp = k_last_block_timestamp k,
     c_last_pending_block_tx = k_last_pending_block_tx k\<rparr>"

section \<open>Models and events\<close>

record ('layout, 'ty) model =
  m_world_address :: felt
  m_namespace :: string
  m_name :: string
  m_selector :: felt
  m_class_hash :: felt
  m_contract_address :: felt
  m_packed_size :: "32 word"
  m_unpacked_size :: "32 word"
  m_layout :: 'layout
  m_schema :: 'ty
  m_use_legacy_store :: bool

record event =
  e_from_address :: felt
  e_keys :: "felt list"
  e_data :: "felt list"

end
