(* ===== verification/I256.thy ===== *)
theory I256
  imports Prelude
begin

text \<open>
  The signed 256-bit integers of \<open>crates/math/src/lib.rs\<close>: a magnitude and a sign flag, with addition and
  subtraction by cases on the signs. The magnitude is a \<open>starknet::core::types::U256\<close>; its \<open>+\<close> and \<open>-\<close>
  are operators of that package and enter as the parameter \<open>U\<close>. What the code relies on is
  \<open>u256_exact\<close>: they return the exact result whenever it is in range.
\<close>

section \<open>The U256 operators\<close>

record u256_ops =
  u256_add :: "u256 \<Rightarrow> u256 \<Rightarrow> u256"
  u256_sub :: "u256 \<Rightarrow> u256 \<Rightarrow> u256"

definition u256_exact :: "u256_ops \<Rightarrow> bool" where
  "u256_exact U \<longleftrightarrow>
     (\<forall>a b. uint a + uint b < 2 ^ 256 \<longrightarrow> u256_add U a b = a + b) \<and>
     (\<forall>a b. b \<le> a \<longrightarrow> u256_sub U a b = a - b)"

text \<open>One instance, with wrap-around outside the range.\<close>

definition wrapping_u256 :: u256_ops where
  "wrapping_u256 = \<lparr>u256_add = (+), u256_sub = (-)\<rparr>"

lemma wrapping_u256_exact [simp]: "u256_exact wrapping_u256"
  by (simp add: u256_exact_def wrapping_u256_def)

section \<open>The type and its operations\<close>

record i256 =
  i_value :: u256
  is_negative :: bool

definition i256_default :: i256 where
  "i256_default = \<lparr>i_value = 0, is_negative = False\<rparr>"

definition i256_from_u256 :: "u256 \<Rightarrow> i256" where
  "i256_from_u256 v = \<lparr>i_value = v, is_negative = False\<rparr>"

definition i256_from_u8 :: "8 word \<Rightarrow> i256" where
  "i256_from_u8 v = \<lparr>i_value = ucast v, is_negative = False\<rparr>"

definition i256_add :: "u256_ops \<Rightarrow> i256 \<Rightarrow> i256 \<Rightarrow> i256" where
  "i256_add U a b =
     (if i_value a = 0 \<and> i_value b = 0 \<and> is_negative a \<and> is_negative b
      then \<lparr>i_value = 0, is_negative = False\<rparr>
      else if is_negative a = is_negative b
      then \<lparr>i_value = u256_add U (i_value a) (i_value b), is_negative = is_negative a\<rparr>
      else if i_value a > i_value b
      then \<lparr>i_value = u256_sub U (i_value a) (i_value b), is_negative = is_negative a\<rparr>
      else if i_value a < i_value b
      then \<lparr>i_value = u256_sub U (i_value b) (i_value a), is_negative = is_negative b\<rparr>
      else \<lparr>i_value = 0, is_negative = False\<rparr>)"

definition i256_sub :: "u256_ops \<Rightarrow> i256 \<Rightarrow> i256 \<Rightarrow> i256" where
  "i256_sub U a b =
     (let new_sign = (if i_value b = 0 then False else \<not> is_negative b)
      in i256_add U a \<lparr>i_value = i_value b, is_negative = new_sign\<rparr>)"

definition i256_add_assign :: "u256_ops \<Rightarrow> i256 \<Rightarrow> i256 \<Rightarrow> i256" where
  "i256_add_assign U a b = i256_add U a b"

definition i256_sub_assign :: "u256_ops \<Rightarrow> i256 \<Rightarrow> i256 \<Rightarrow> i256" where
  "i256_sub_assign U a b = i256_sub U a b"

section \<open>What the operations compute\<close>

text \<open>The integer a value stands for; the zero with its sign flag set also stands for 0.\<close>

definition i256_val :: "i256 \<Rightarrow> int" where
  "i256_val a = (if is_negative a then - uint (i_value a) else uint (i_value a))"

definition i256_canonical :: "i256 \<Rightarrow> bool" where
  "i256_canonical a \<longleftrightarrow> (i_value a = 0 \<longrightarrow> \<not> is_negative a)"

lemma u256_add_uint:
  "u256_exact U \<Longrightarrow> uint a + uint b < 2 ^ 256 \<Longrightarrow> uint (u256_add U a b) = uint a + uint b"
  by (simp add: u256_exact_def uint_plus_if_size word_size)

lemma u256_sub_uint:
  assumes "u256_exact U" and "uint b \<le> uint a"
  shows "uint (u256_sub U a b) = uint a - uint b"
proof -
  from assms(2) have "b \<le> a" by (simp add: word_le_def)
  with assms(1) show ?thesis by (simp add: u256_exact_def uint_minus_simple_alt)
qed

lemma i256_val_default [simp]: "i256_val i256_default = 0"
  by (simp add: i256_val_def i256_default_def)

lemma i256_val_from_u256 [simp]: "i256_val (i256_from_u256 v) = uint v"
  by (simp add: i256_val_def i256_from_u256_def)

lemma i256_val_bound: "\<bar>i256_val a\<bar> < 2 ^ 256"
  using unsigned_less[of "i_value a", where ?'a = int] by (simp add: i256_val_def)

lemma i256_val_negated:
  "i256_val \<lparr>i_value = i_value b, is_negative = (if i_value b = 0 then False else \<not> is_negative b)\<rparr>
     = - i256_val b"
  by (simp add: i256_val_def)

lemma i256_add_val:
  assumes "u256_exact U" and "\<bar>i256_val a + i256_val b\<bar> < 2 ^ 256"
  shows "i256_val (i256_add U a b) = i256_val a + i256_val b"
proof (cases "is_negative a = is_negative b")
  case True
  with assms(2) have "uint (i_value a) + uint (i_value b) < 2 ^ 256"
    by (auto simp: i256_val_def split: if_splits)
  with True assms(1) show ?thesis
    by (auto simp: i256_add_def i256_val_def u256_add_uint)
next
  case False
  with assms(1) show ?thesis
    by (auto simp: i256_add_def i256_val_def u256_sub_uint word_less_def)
qed

lemma i256_sub_val:
  assumes "u256_exact U" and "\<bar>i256_val a - i256_val b\<bar> < 2 ^ 256"
  shows "i256_val (i256_sub U a b) = i256_val a - i256_val b"
  using assms i256_add_val[of U a] i256_val_negated[of b]
  by (simp add: i256_sub_def Let_def)

lemma i256_add_canonical:
  assumes "u256_exact U" and "\<bar>i256_val a + i256_val b\<bar> < 2 ^ 256"
  shows "i256_canonical (i256_add U a b)"
proof (cases "is_negative a = is_negative b")
  case True
  with assms(2) have r: "uint (i_value a) + uint (i_value b) < 2 ^ 256"
    by (auto simp: i256_val_def split: if_splits)
  have "uint (u256_add U (i_value a) (i_value b)) = uint (i_value a) + uint (i_value b)"
    by (rule u256_add_uint[OF assms(1) r])
  then have "u256_add U (i_value a) (i_value b) = 0 \<longrightarrow> i_value a = 0 \<and> i_value b = 0"
    using uint_ge_0[of "i_value a"] uint_ge_0[of "i_value b"]
    by (auto simp: unsigned_eq_0_iff add_nonneg_eq_0_iff)
  with True show ?thesis by (auto simp: i256_add_def i256_canonical_def)
next
  case False
  have "u256_sub U x y \<noteq> 0" if "x > y" for x y
    using u256_sub_uint[OF assms(1), of y x] that by (auto simp: word_less_def)
  with False show ?thesis by (auto simp: i256_add_def i256_canonical_def)
qed

lemma i256_sub_canonical:
  assumes "u256_exact U" and "\<bar>i256_val a - i256_val b\<bar> < 2 ^ 256"
  shows "i256_canonical (i256_sub U a b)"
  using assms i256_add_canonical[of U a] i256_val_negated[of b]
  by (simp add: i256_sub_def Let_def)

text \<open>Adding or subtracting an unsigned amount, with a bound that is easy to carry through a run.\<close>

lemma i256_add_u256:
  assumes "u256_exact U" and "\<bar>i256_val a\<bar> + uint v < 2 ^ 256"
  shows "i256_val (i256_add U a (i256_from_u256 v)) = i256_val a + uint v"
proof -
  have "\<bar>i256_val a + uint v\<bar> < 2 ^ 256" using assms(2) uint_ge_0[of v] by linarith
  with assms(1) show ?thesis using i256_add_val[of U a "i256_from_u256 v"] by simp
qed

lemma i256_sub_u256:
  assumes "u256_exact U" and "\<bar>i256_val a\<bar> + uint v < 2 ^ 256"
  shows "i256_val (i256_sub U a (i256_from_u256 v)) = i256_val a - uint v"
proof -
  have "\<bar>i256_val a - uint v\<bar> < 2 ^ 256" using assms(2) uint_ge_0[of v] by linarith
  with assms(1) show ?thesis using i256_sub_val[of U a "i256_from_u256 v"] by simp
qed

end
