(* ===== verification/ErcCache.thy ===== *)
theory ErcCache
  imports Proto I256
begin

text \<open>
  The token half of the cache, \<open>ErcCache\<close> of \<open>crates/cache/src/lib.rs\<close>: net balance and supply changes of a chunk
  of transfers, and the registry that decides who registers a token. A \<open>DashMap\<close> is an association list with
  distinct keys. \<open>Arc::new(Mutex::new(()))\<close> allocates a mutex with an identity of its own: the identity is the
  number of mutexes allocated before it, kept in \<open>mutexes\<close>.
\<close>

section \<open>State\<close>

datatype token_state = Registered | Registering nat | NotRegistered

record erc_cache =
  balances_diff :: "(balance_id \<times> i256) list"
  total_supply_diff :: "(token_id \<times> i256) list"
  token_id_registry :: "(token_id \<times> token_state) list"
  mutexes :: nat

definition load_token_registry :: "'e + token_id list \<Rightarrow> 'e + (token_id \<times> token_state) list" where
  "load_token_registry storage_token_ids =
     (case storage_token_ids of
        Inl e \<Rightarrow> Inl e
      | Inr ids \<Rightarrow> Inr (map (\<lambda>i. (i, Registered)) ids))"

definition erc_cache_new :: "'e + token_id list \<Rightarrow> 'e + erc_cache" where
  "erc_cache_new storage_token_ids =
     (case load_token_registry storage_token_ids of
        Inl e \<Rightarrow> Inl e
      | Inr reg \<Rightarrow> Inr \<lparr>balances_diff = [], total_supply_diff = [], token_id_registry = reg, mutexes = 0\<rparr>)"

section \<open>The registry\<close>

definition reset_token_registry :: "'e + token_id list \<Rightarrow> (erc_cache, 'e, unit) stateful" where
  "reset_token_registry storage_token_ids c =
     (case load_token_registry storage_token_ids of
        Inl e \<Rightarrow> (Inl e, c)
      | Inr rebuilt \<Rightarrow>
          (Inr (), c\<lparr>token_id_registry := foldl (\<lambda>m (t, s). al_insert t s m) [] rebuilt\<rparr>))"

definition get_token_registration_lock :: "token_id \<Rightarrow> erc_cache \<Rightarrow> nat option \<times> erc_cache" where
  "get_token_registration_lock t c =
     (case map_of (token_id_registry c) t of
        Some (Registering m) \<Rightarrow> (Some m, c)
      | Some Registered \<Rightarrow> (None, c)
      | Some NotRegistered \<Rightarrow>
          (let m = mutexes c
           in (Some m, c\<lparr>token_id_registry := al_insert t (Registering m) (token_id_registry c),
                         mutexes := Suc m\<rparr>))
      | None \<Rightarrow>
          (let m = mutexes c
           in (Some m, c\<lparr>token_id_registry := al_insert t (Registering m) (token_id_registry c),
                         mutexes := Suc m\<rparr>)))"

definition mark_token_registered :: "token_id \<Rightarrow> erc_cache \<Rightarrow> erc_cache" where
  "mark_token_registered t c = c\<lparr>token_id_registry := al_insert t Registered (token_id_registry c)\<rparr>"

definition is_token_registered :: "erc_cache \<Rightarrow> token_id \<Rightarrow> bool" where
  "is_token_registered c t =
     (case map_of (token_id_registry c) t of Some Registered \<Rightarrow> True | _ \<Rightarrow> False)"

section \<open>Balance and supply changes\<close>

definition update_balance_diff ::
  "u256_ops \<Rightarrow> token_id \<Rightarrow> felt \<Rightarrow> felt \<Rightarrow> u256 \<Rightarrow> erc_cache \<Rightarrow> erc_cache" where
  "update_balance_diff U t from to v c =
     (let v_i = i256_from_u256 v;
          neg_v = \<lparr>i_value = v, is_negative = True\<rparr>;
          c1 = (if from \<noteq> 0
                then c\<lparr>balances_diff := al_upsert \<lparr>b_account = from, b_token = t\<rparr>
                         (\<lambda>b. i256_sub_assign U b v_i) neg_v (balances_diff c)\<rparr>
                else c);
          c2 = (if to \<noteq> 0
                then c1\<lparr>balances_diff := al_upsert \<lparr>b_account = to, b_token = t\<rparr>
                          (\<lambda>b. i256_add_assign U b v_i) v_i (balances_diff c1)\<rparr>
                else c1)
      in if is_nft t
         then (if from = 0 \<and> to \<noteq> 0
               then c2\<lparr>total_supply_diff := al_upsert t (\<lambda>s. i256_add_assign U s v_i) v_i (total_supply_diff c2)\<rparr>
               else if from \<noteq> 0 \<and> to = 0
               then c2\<lparr>total_supply_diff := al_upsert t (\<lambda>s. i256_sub_assign U s v_i) neg_v (total_supply_diff c2)\<rparr>
               else c2)
         else (if from = 0 \<and> to \<noteq> 0
               then c2\<lparr>total_supply_diff := al_upsert t (\<lambda>s. i256_add_assign U s v_i) v_i (total_supply_diff c2)\<rparr>
               else if from \<noteq> 0 \<and> to = 0
               then c2\<lparr>total_supply_diff := al_upsert t (\<lambda>s. i256_sub_assign U s v_i) neg_v (total_supply_diff c2)\<rparr>
               else c2))"

definition clear_balances_diff :: "erc_cache \<Rightarrow> erc_cache" where
  "clear_balances_diff c = c\<lparr>balances_diff := [], total_supply_diff := []\<rparr>"

section \<open>Net changes as integers\<close>

definition diff_val :: "('k \<times> i256) list \<Rightarrow> 'k \<Rightarrow> int" where
  "diff_val m k = (case map_of m k of None \<Rightarrow> 0 | Some d \<Rightarrow> i256_val d)"

record transfer =
  t_token :: token_id
  t_from :: felt
  t_to :: felt
  t_value :: u256

definition apply_transfer :: "u256_ops \<Rightarrow> transfer \<Rightarrow> erc_cache \<Rightarrow> erc_cache" where
  "apply_transfer U tr = update_balance_diff U (t_token tr) (t_from tr) (t_to tr) (t_value tr)"

definition balance_delta :: "transfer \<Rightarrow> balance_id \<Rightarrow> int" where
  "balance_delta tr b =
     (if b_token b = t_token tr \<and> b_account b = t_to tr \<and> t_to tr \<noteq> 0 then uint (t_value tr) else 0)
   - (if b_token b = t_token tr \<and> b_account b = t_from tr \<and> t_from tr \<noteq> 0 then uint (t_value tr) else 0)"

definition supply_delta :: "transfer \<Rightarrow> token_id \<Rightarrow> int" where
  "supply_delta tr t =
     (if t = t_token tr
      then (if t_to tr \<noteq> 0 then uint (t_value tr) else 0) - (if t_from tr \<noteq> 0 then uint (t_value tr) else 0)
      else 0)"

definition volume :: "transfer list \<Rightarrow> int" where
  "volume trs = (\<Sum>tr\<leftarrow>trs. uint (t_value tr))"

text \<open>One transfer changes exactly the entries of its accounts, by its value.\<close>

lemma diff_val_upsert:
  "diff_val (al_upsert k f d m) k' =
     (if k' = k then (case map_of m k of None \<Rightarrow> i256_val d | Some x \<Rightarrow> i256_val (f x)) else diff_val m k')"
  by (auto simp: diff_val_def split: option.splits)

lemma diff_val_add:
  assumes "u256_exact U" and "\<bar>diff_val m k\<bar> + uint v < 2 ^ 256"
  shows "diff_val (al_upsert k (\<lambda>b. i256_add_assign U b (i256_from_u256 v)) (i256_from_u256 v) m) k'
       = diff_val m k' + (if k' = k then uint v else 0)"
  using assms
  by (auto simp: diff_val_upsert i256_add_assign_def diff_val_def i256_add_u256 split: option.splits)

lemma diff_val_sub:
  assumes "u256_exact U" and "\<bar>diff_val m k\<bar> + uint v < 2 ^ 256"
  shows "diff_val (al_upsert k (\<lambda>b. i256_sub_assign U b (i256_from_u256 v))
           \<lparr>i_value = v, is_negative = True\<rparr> m) k'
       = diff_val m k' - (if k' = k then uint v else 0)"
  using assms
  by (auto simp: diff_val_upsert i256_sub_assign_def diff_val_def i256_sub_u256
      i256_val_def[of "\<lparr>i_value = v, is_negative = True\<rparr>"] split: option.splits)

lemma apply_transfer_balance:
  assumes "u256_exact U" and "\<And>b. \<bar>diff_val (balances_diff c) b\<bar> + 2 * uint (t_value tr) < 2 ^ 256"
  shows "diff_val (balances_diff (apply_transfer U tr c)) b = diff_val (balances_diff c) b + balance_delta tr b"
proof -
  let ?v = "t_value tr" and ?f = "\<lparr>b_account = t_from tr, b_token = t_token tr\<rparr>"
    and ?t = "\<lparr>b_account = t_to tr, b_token = t_token tr\<rparr>"
  define m1 where "m1 = (if t_from tr \<noteq> 0
    then al_upsert ?f (\<lambda>b. i256_sub_assign U b (i256_from_u256 ?v)) \<lparr>i_value = ?v, is_negative = True\<rparr> (balances_diff c)
    else balances_diff c)"
  have bd: "balances_diff (apply_transfer U tr c) =
      (if t_to tr \<noteq> 0 then al_upsert ?t (\<lambda>b. i256_add_assign U b (i256_from_u256 ?v)) (i256_from_u256 ?v) m1 else m1)"
    by (simp add: apply_transfer_def update_balance_diff_def Let_def m1_def)
  have v0: "0 \<le> uint ?v" by simp
  have b0: "\<bar>diff_val (balances_diff c) k\<bar> + uint ?v < 2 ^ 256" for k
    using assms(2)[of k] v0 by linarith
  have d1: "diff_val m1 k = diff_val (balances_diff c) k
      - (if k = ?f \<and> t_from tr \<noteq> 0 then uint ?v else 0)" for k
    using diff_val_sub[OF assms(1) b0] by (simp add: m1_def)
  have b1: "\<bar>diff_val m1 k\<bar> + uint ?v < 2 ^ 256" for k
  proof (cases "k = ?f \<and> t_from tr \<noteq> 0")
    case True
    then have "diff_val m1 k = diff_val (balances_diff c) k - uint ?v" by (simp add: d1)
    with assms(2)[of k] v0 show ?thesis by linarith
  next
    case False
    then have "diff_val m1 k = diff_val (balances_diff c) k" by (auto simp: d1)
    with b0[of k] show ?thesis by simp
  qed
  have d2: "diff_val (balances_diff (apply_transfer U tr c)) b = diff_val m1 b
      + (if b = ?t \<and> t_to tr \<noteq> 0 then uint ?v else 0)"
    using diff_val_add[OF assms(1) b1] by (simp add: bd)
  have "b = ?f \<longleftrightarrow> b_account b = t_from tr \<and> b_token b = t_token tr"
    "b = ?t \<longleftrightarrow> b_account b = t_to tr \<and> b_token b = t_token tr" by (cases b; simp)+
  then show ?thesis by (auto simp: d2 d1 balance_delta_def)
qed

lemma apply_transfer_supply:
  assumes "u256_exact U" and "\<And>t. \<bar>diff_val (total_supply_diff c) t\<bar> + uint (t_value tr) < 2 ^ 256"
  shows "diff_val (total_supply_diff (apply_transfer U tr c)) t =
           diff_val (total_supply_diff c) t + supply_delta tr t"
  using diff_val_add[OF assms] diff_val_sub[OF assms]
  by (simp add: apply_transfer_def update_balance_diff_def Let_def supply_delta_def)

lemma balance_delta_bound: "\<bar>balance_delta tr b\<bar> \<le> uint (t_value tr)"
  by (simp add: balance_delta_def)

lemma supply_delta_bound: "\<bar>supply_delta tr t\<bar> \<le> uint (t_value tr)"
  by (simp add: supply_delta_def)

lemma volume_nonneg: "0 \<le> volume trs"
  by (induction trs) (auto simp: volume_def)

lemma volume_Cons [simp]: "volume (tr # trs) = uint (t_value tr) + volume trs" "volume [] = 0"
  by (simp_all add: volume_def)

text \<open>A run of transfers accumulates the sum of their effects, for every account and token.\<close>

lemma fold_apply_transfer:
  assumes "u256_exact U"
    and "\<And>b. \<bar>diff_val (balances_diff c) b\<bar> + 2 * volume trs < 2 ^ 256"
    and "\<And>t. \<bar>diff_val (total_supply_diff c) t\<bar> + 2 * volume trs < 2 ^ 256"
  shows "diff_val (balances_diff (fold (apply_transfer U) trs c)) b =
           diff_val (balances_diff c) b + (\<Sum>tr\<leftarrow>trs. balance_delta tr b)
       \<and> diff_val (total_supply_diff (fold (apply_transfer U) trs c)) t =
           diff_val (total_supply_diff c) t + (\<Sum>tr\<leftarrow>trs. supply_delta tr t)"
  using assms(2,3)
proof (induction trs arbitrary: c)
  case (Cons tr trs)
  note vb = volume_nonneg[of trs] uint_ge_0[of "t_value tr"]
  have p1: "\<bar>diff_val (balances_diff c) k\<bar> + 2 * uint (t_value tr) < 2 ^ 256" for k
    using Cons.prems(1)[of k] vb unfolding volume_Cons distrib_left by linarith
  have p2: "\<bar>diff_val (total_supply_diff c) k\<bar> + uint (t_value tr) < 2 ^ 256" for k
    using Cons.prems(2)[of k] vb unfolding volume_Cons distrib_left by linarith
  note step = apply_transfer_balance[OF assms(1) p1] apply_transfer_supply[OF assms(1) p2]
  have q1: "\<bar>diff_val (balances_diff (apply_transfer U tr c)) k\<bar> + 2 * volume trs < 2 ^ 256" for k
    using Cons.prems(1)[of k] balance_delta_bound[of tr k] by (simp add: step)
  have q2: "\<bar>diff_val (total_supply_diff (apply_transfer U tr c)) k\<bar> + 2 * volume trs < 2 ^ 256" for k
    using Cons.prems(2)[of k] supply_delta_bound[of tr k] by (simp add: step)
  show ?case using Cons.IH[OF q1 q2] by (simp add: step add.assoc)
qed simp

text \<open>The accounts a run of transfers moves tokens between, and the sum of their changes.\<close>

definition touched :: "transfer list \<Rightarrow> felt set" where
  "touched trs = (\<Union>tr\<in>set trs. {t_from tr, t_to tr}) - {0}"

lemma sum_balance_delta:
  assumes "finite A" and "{t_from tr, t_to tr} - {0} \<subseteq> A" and "0 \<notin> A"
  shows "(\<Sum>a\<in>A. balance_delta tr \<lparr>b_account = a, b_token = t\<rparr>) = supply_delta tr t"
  using assms
  by (auto simp: balance_delta_def supply_delta_def sum_subtractf sum.delta)

lemma sum_balance_deltas:
  assumes "finite A" and "touched trs \<subseteq> A" and "0 \<notin> A"
  shows "(\<Sum>a\<in>A. \<Sum>tr\<leftarrow>trs. balance_delta tr \<lparr>b_account = a, b_token = t\<rparr>) = (\<Sum>tr\<leftarrow>trs. supply_delta tr t)"
  using assms(2)
proof (induction trs)
  case (Cons tr trs)
  then have "touched trs \<subseteq> A" "{t_from tr, t_to tr} - {0} \<subseteq> A" by (auto simp: touched_def)
  with Cons.IH sum_balance_delta[OF assms(1) _ assms(3)] show ?case by (simp add: sum.distrib)
qed simp

section \<open>Runs of cache operations\<close>

text \<open>Everything the engine and the processors do to the token half of the cache.\<close>

datatype 'e erc_op =
    OpLock token_id
  | OpMark token_id
  | OpReset "'e + token_id list"
  | OpTransfer transfer
  | OpClear

fun erc_exec :: "u256_ops \<Rightarrow> 'e erc_op \<Rightarrow> erc_cache \<Rightarrow> erc_cache" where
  "erc_exec U (OpLock t) c = snd (get_token_registration_lock t c)"
| "erc_exec U (OpMark t) c = mark_token_registered t c"
| "erc_exec U (OpReset ids) c = snd (reset_token_registry ids c)"
| "erc_exec U (OpTransfer tr) c = apply_transfer U tr c"
| "erc_exec U OpClear c = clear_balances_diff c"

text \<open>Mutex identities are below the allocation counter, and no two tokens share one.\<close>

definition registry_inv :: "erc_cache \<Rightarrow> bool" where
  "registry_inv c \<longleftrightarrow>
     (\<forall>t m. map_of (token_id_registry c) t = Some (Registering m) \<longrightarrow> m < mutexes c) \<and>
     (\<forall>s t m. map_of (token_id_registry c) s = Some (Registering m) \<longrightarrow>
              map_of (token_id_registry c) t = Some (Registering m) \<longrightarrow> s = t)"

lemma map_of_foldl_insert:
  "map_of (foldl (\<lambda>m (t, s). al_insert t s m) m0 xs) t =
     (case map_of (rev xs) t of None \<Rightarrow> map_of m0 t | Some s \<Rightarrow> Some s)"
  by (induction xs arbitrary: m0) (auto simp: map_add_def split: option.splits)

lemma rebuilt_registry:
  "map_of (foldl (\<lambda>m (t, s). al_insert t s m) [] (map (\<lambda>i. (i, Registered)) ids)) t =
     (if t \<in> set ids then Some Registered else None)"
proof -
  have "rev (map (\<lambda>i. (i, Registered)) ids) = map (\<lambda>i. (i, Registered)) (rev ids)"
    by (simp add: rev_map)
  then show ?thesis by (simp add: map_of_foldl_insert map_of_map_constkeys)
qed

lemma reset_token_registry_lookup:
  "map_of (token_id_registry (snd (reset_token_registry ids c))) t =
     (case ids of Inl _ \<Rightarrow> map_of (token_id_registry c) t
      | Inr is \<Rightarrow> if t \<in> set is then Some Registered else None)"
  by (cases ids) (simp_all add: reset_token_registry_def load_token_registry_def rebuilt_registry)

lemma transfer_frame [simp]:
  "token_id_registry (apply_transfer U tr c) = token_id_registry c"
  "mutexes (apply_transfer U tr c) = mutexes c"
  by (simp_all add: apply_transfer_def update_balance_diff_def Let_def)

lemma clear_balances_frame [simp]:
  "token_id_registry (clear_balances_diff c) = token_id_registry c"
  "mutexes (clear_balances_diff c) = mutexes c"
  by (simp_all add: clear_balances_diff_def)

lemma registry_inv_lock [inv_intros]:
  "registry_inv c \<Longrightarrow> registry_inv (snd (get_token_registration_lock t c))"
  by (auto simp: registry_inv_def get_token_registration_lock_def Let_def
      split: option.splits token_state.splits; fastforce)

lemma registry_inv_mark [inv_intros]: "registry_inv c \<Longrightarrow> registry_inv (mark_token_registered t c)"
  by (auto simp: registry_inv_def mark_token_registered_def)

lemma registry_inv_reset [inv_intros]:
  "registry_inv c \<Longrightarrow> registry_inv (snd (reset_token_registry ids c))"
proof -
  have "mutexes (snd (reset_token_registry ids c)) = mutexes c"
    by (simp add: reset_token_registry_def split: sum.split)
  then show "registry_inv c \<Longrightarrow> registry_inv (snd (reset_token_registry ids c))"
    by (simp add: registry_inv_def reset_token_registry_lookup split: sum.split)
qed

lemma registry_inv_exec: "registry_inv c \<Longrightarrow> registry_inv (erc_exec U op c)"
  by (cases op) (auto intro: inv_intros, auto simp: registry_inv_def)

lemma registry_inv_run: "registry_inv c \<Longrightarrow> registry_inv (fold (erc_exec U) ops c)"
  by (induction ops arbitrary: c) (auto intro: registry_inv_exec)

lemma registry_inv_new: "erc_cache_new ids = Inr c \<Longrightarrow> registry_inv c"
  by (auto simp: erc_cache_new_def load_token_registry_def registry_inv_def map_of_map_constkeys
      split: sum.splits if_splits)

fun keeps_registration :: "token_id \<Rightarrow> 'e erc_op \<Rightarrow> bool" where
  "keeps_registration t (OpMark s) = (s \<noteq> t)"
| "keeps_registration t (OpReset ids) = False"
| "keeps_registration t op = True"

lemma registering_kept:
  "map_of (token_id_registry c) t = Some (Registering m) \<Longrightarrow> keeps_registration t op \<Longrightarrow>
   map_of (token_id_registry (erc_exec U op c)) t = Some (Registering m)"
  by (cases op) (auto simp: get_token_registration_lock_def mark_token_registered_def Let_def
      split: option.splits token_state.splits)

lemma registering_kept_run:
  "map_of (token_id_registry c) t = Some (Registering m) \<Longrightarrow> list_all (keeps_registration t) ops \<Longrightarrow>
   map_of (token_id_registry (fold (erc_exec U) ops c)) t = Some (Registering m)"
  by (induction ops arbitrary: c) (auto intro: registering_kept)

lemma lock_registers:
  "get_token_registration_lock t c = (Some m, c') \<Longrightarrow>
   map_of (token_id_registry c') t = Some (Registering m)"
  by (auto simp: get_token_registration_lock_def Let_def split: option.splits token_state.splits)

lemma lock_of_registering:
  "map_of (token_id_registry c) t = Some (Registering m) \<Longrightarrow>
   get_token_registration_lock t c = (Some m, c)"
  by (simp add: get_token_registration_lock_def)

lemma lock_unique:
  assumes "registry_inv c" and "map_of (token_id_registry c) t = Some (Registering m)" and "s \<noteq> t"
  shows "fst (get_token_registration_lock s c) \<noteq> Some m"
  using assms
  by (auto simp: registry_inv_def get_token_registration_lock_def Let_def
      split: option.splits token_state.splits; blast)

section \<open>Properties\<close>

text \<open>
  C2. A chunk of transfers leaves in the balance cache, for every account and token, exactly the sum of what each
  transfer moved in and out of that account, and in the supply cache exactly what was minted minus what
  was burned (transfers from and to the zero address). The bound on the total volume keeps every
  intermediate sum inside 256 bits.
\<close>

theorem transfers_net_effect:
  assumes "u256_exact U" and "volume trs < 2 ^ 255"
    and "balances_diff c = []" and "total_supply_diff c = []"
  shows "diff_val (balances_diff (fold (apply_transfer U) trs c)) b = (\<Sum>tr\<leftarrow>trs. balance_delta tr b) \<and>
         diff_val (total_supply_diff (fold (apply_transfer U) trs c)) t = (\<Sum>tr\<leftarrow>trs. supply_delta tr t)"
  using fold_apply_transfer[OF assms(1), of c trs b t] assms(2-4) by (simp add: diff_val_def)

theorem transfers_net_effect_witness:
  "diff_val (balances_diff (fold (apply_transfer wrapping_u256)
     [\<lparr>t_token = Contract 7, t_from = 0, t_to = 1, t_value = 5\<rparr>,
      \<lparr>t_token = Contract 7, t_from = 1, t_to = 2, t_value = 8\<rparr>]
     \<lparr>balances_diff = [], total_supply_diff = [], token_id_registry = [], mutexes = 0\<rparr>))
     \<lparr>b_account = 1, b_token = Contract 7\<rparr> = -3"
proof -
  let ?trs = "[\<lparr>t_token = Contract 7, t_from = 0, t_to = 1, t_value = 5\<rparr>,
      \<lparr>t_token = Contract 7, t_from = 1, t_to = 2, t_value = 8\<rparr>]"
  have "volume ?trs < 2 ^ 255" by simp
  from transfers_net_effect[OF wrapping_u256_exact this, of "\<lparr>balances_diff = [], total_supply_diff = [],
      token_id_registry = [], mutexes = 0\<rparr>" "\<lparr>b_account = 1, b_token = Contract 7\<rparr>"]
  show ?thesis by (simp add: balance_delta_def)
qed

text \<open>
  C3. Conservation: over any finite set of accounts that contains every non-zero party of the transfers, the
  balance changes of a token sum up to its supply change. Tokens are neither created nor lost by
  the accounting of a chunk.
\<close>

theorem supply_conservation:
  assumes "u256_exact U" and "volume trs < 2 ^ 255"
    and "balances_diff c = []" and "total_supply_diff c = []"
    and "finite A" and "touched trs \<subseteq> A" and "0 \<notin> A"
  shows "(\<Sum>a\<in>A. diff_val (balances_diff (fold (apply_transfer U) trs c)) \<lparr>b_account = a, b_token = t\<rparr>) =
         diff_val (total_supply_diff (fold (apply_transfer U) trs c)) t"
  using fold_apply_transfer[OF assms(1), of c trs _ t] sum_balance_deltas[OF assms(5-7), of t] assms(2-4)
  by (simp add: diff_val_def)

theorem supply_conservation_witness:
  "(\<Sum>a\<in>{1, 2}. diff_val (balances_diff (fold (apply_transfer wrapping_u256)
     [\<lparr>t_token = Nft 7 3, t_from = 0, t_to = 1, t_value = 1\<rparr>,
      \<lparr>t_token = Nft 7 3, t_from = 1, t_to = 2, t_value = 1\<rparr>]
     \<lparr>balances_diff = [], total_supply_diff = [], token_id_registry = [], mutexes = 0\<rparr>))
     \<lparr>b_account = a, b_token = Nft 7 3\<rparr>) =
   diff_val (total_supply_diff (fold (apply_transfer wrapping_u256)
     [\<lparr>t_token = Nft 7 3, t_from = 0, t_to = 1, t_value = 1\<rparr>,
      \<lparr>t_token = Nft 7 3, t_from = 1, t_to = 2, t_value = 1\<rparr>]
     \<lparr>balances_diff = [], total_supply_diff = [], token_id_registry = [], mutexes = 0\<rparr>)) (Nft 7 3)"
  by (rule supply_conservation) (auto simp: touched_def)

text \<open>
  Registration of a token is exclusive: from the moment a caller obtains the lock of a token until the
  token is marked registered (or the registry is rebuilt), every caller that asks for that token
  obtains the same mutex, and no other token has it.
\<close>

theorem registration_lock_exclusive:
  assumes "registry_inv c" and "get_token_registration_lock t c = (Some m, c1)"
    and "list_all (keeps_registration t) ops" and "c2 = fold (erc_exec U) ops c1"
  shows "fst (get_token_registration_lock t c2) = Some m \<and>
         (\<forall>s. s \<noteq> t \<longrightarrow> fst (get_token_registration_lock s c2) \<noteq> Some m)"
proof -
  have inv: "registry_inv c2"
    using registry_inv_run[of c1 U ops] registry_inv_lock[OF assms(1), of t] assms(2,4) by simp
  have "map_of (token_id_registry c2) t = Some (Registering m)"
    using registering_kept_run[OF lock_registers[OF assms(2)] assms(3)] assms(4) by simp
  with inv show ?thesis by (simp add: lock_of_registering lock_unique)
qed

theorem registration_lock_exclusive_witness:
  "fst (get_token_registration_lock (Contract 1) (fold (erc_exec wrapping_u256)
     [OpLock (Contract 2) :: unit erc_op, OpMark (Contract 2), OpLock (Contract 3)]
     (snd (get_token_registration_lock (Contract 1)
       \<lparr>balances_diff = [], total_supply_diff = [], token_id_registry = [], mutexes = 0\<rparr>)))) = Some 0"
proof -
  let ?c = "\<lparr>balances_diff = [], total_supply_diff = [], token_id_registry = [], mutexes = 0\<rparr>"
  have inv: "registry_inv ?c" by (simp add: registry_inv_def)
  have lock: "get_token_registration_lock (Contract 1) ?c =
      (Some 0, snd (get_token_registration_lock (Contract 1) ?c))"
    by (simp add: get_token_registration_lock_def)
  show ?thesis
    by (rule conjunct1, rule registration_lock_exclusive[OF inv lock _ refl]) simp
qed

end
