(* ===== verification/Cache.thy ===== *)
theory Cache
  imports ErcCache
begin

text \<open>
  The rest of \<open>crates/cache/src/lib.rs\<close>: the model cache, a two-level map from world address and selector to model;
  \<open>InMemoryCache\<close>, which puts it beside the token cache and implements the cache traits; the contract class cache
  and the lookup of an entrypoint's name in a class. Storage and the RPC provider are parameters: the results of
  the calls the code makes. A panic (\<open>unwrap\<close> on an error) is \<open>None\<close>.
\<close>

datatype ('s, 'p) cache_error = CStorage 's | CProvider 'p | ModelNotFound felt

section \<open>Model cache\<close>

type_synonym ('l, 't) model_map = "(felt \<times> (felt \<times> ('l, 't) model) list) list"

definition model_cache_set ::
  "felt \<Rightarrow> felt \<Rightarrow> ('l, 't) model \<Rightarrow> ('l, 't) model_map \<Rightarrow> ('l, 't) model_map" where
  "model_cache_set world selector m cache =
     al_upsert world (al_insert selector m) [(selector, m)] cache"

definition model_cache_new :: "'s + ('l, 't) model list \<Rightarrow> ('s, 'p) cache_error + ('l, 't) model_map" where
  "model_cache_new storage_models =
     (case storage_models of
        Inl e \<Rightarrow> Inl (CStorage e)
      | Inr ms \<Rightarrow> Inr (foldl (\<lambda>c m. al_upsert (m_world_address m) (al_insert (m_selector m) m)
                                 [(m_selector m, m)] c) [] ms))"

definition select_models :: "felt list \<Rightarrow> (felt \<times> ('l, 't) model) list \<Rightarrow> ('l, 't) model list" where
  "select_models selectors world_models =
     (if selectors = [] then al_values world_models
      else List.map_filter (\<lambda>s. map_of world_models s) selectors)"

definition model_cache_models ::
  "('l, 't) model_map \<Rightarrow> felt list \<Rightarrow> felt list \<Rightarrow> ('l, 't) model list" where
  "model_cache_models cache worlds selectors =
     (if worlds = [] then concat (map (select_models selectors) (al_values cache))
      else concat (map (\<lambda>w. case map_of cache w of None \<Rightarrow> [] | Some wm \<Rightarrow> select_models selectors wm) worlds))"

definition model_cache_model ::
  "('l, 't) model_map \<Rightarrow> felt \<Rightarrow> felt \<Rightarrow> ('s, 'p) cache_error + ('l, 't) model" where
  "model_cache_model cache world selector =
     (case (case map_of cache world of None \<Rightarrow> None | Some wm \<Rightarrow> map_of wm selector) of
        None \<Rightarrow> Inl (ModelNotFound selector)
      | Some m \<Rightarrow> Inr m)"

definition model_cache_clear :: "('l, 't) model_map \<Rightarrow> ('l, 't) model_map" where
  "model_cache_clear cache = []"

section \<open>The in-memory cache\<close>

record ('l, 't) in_memory_cache =
  model_cache :: "('l, 't) model_map"
  erc :: erc_cache

definition in_memory_cache_new ::
  "'s + ('l, 't) model list \<Rightarrow> 's + token_id list \<Rightarrow> ('s, 'p) cache_error + ('l, 't) in_memory_cache" where
  "in_memory_cache_new storage_models storage_token_ids =
     (case model_cache_new storage_models of
        Inl e \<Rightarrow> Inl e
      | Inr mc \<Rightarrow>
          (case erc_cache_new storage_token_ids of
             Inl e \<Rightarrow> Inl (CStorage e)
           | Inr ec \<Rightarrow> Inr \<lparr>model_cache = mc, erc = ec\<rparr>))"

definition register_model ::
  "felt \<Rightarrow> felt \<Rightarrow> ('l, 't) model \<Rightarrow> ('l, 't) in_memory_cache \<Rightarrow> ('l, 't) in_memory_cache" where
  "register_model world selector m c = c\<lparr>model_cache := model_cache_set world selector m (model_cache c)\<rparr>"

definition clear_models :: "('l, 't) in_memory_cache \<Rightarrow> ('l, 't) in_memory_cache" where
  "clear_models c = c\<lparr>model_cache := model_cache_clear (model_cache c)\<rparr>"

definition cache_clear_balances_diff :: "('l, 't) in_memory_cache \<Rightarrow> ('l, 't) in_memory_cache" where
  "cache_clear_balances_diff c = c\<lparr>erc := clear_balances_diff (erc c)\<rparr>"

definition cache_reset_token_registry ::
  "'s + token_id list \<Rightarrow> (('l, 't) in_memory_cache, 's, unit) stateful" where
  "cache_reset_token_registry storage_token_ids c =
     (case reset_token_registry storage_token_ids (erc c) of (r, e) \<Rightarrow> (r, c\<lparr>erc := e\<rparr>))"

definition reset_to_committed_storage ::
  "'s + token_id list \<Rightarrow> (('l, 't) in_memory_cache, 's, unit) stateful" where
  "reset_to_committed_storage storage_token_ids c =
     cache_reset_token_registry storage_token_ids (clear_models (cache_clear_balances_diff c))"

definition cache_update_balance_diff ::
  "u256_ops \<Rightarrow> token_id \<Rightarrow> felt \<Rightarrow> felt \<Rightarrow> u256 \<Rightarrow> ('l, 't) in_memory_cache \<Rightarrow> ('l, 't) in_memory_cache" where
  "cache_update_balance_diff U t from to v c = c\<lparr>erc := update_balance_diff U t from to v (erc c)\<rparr>"

definition cache_mark_token_registered :: "token_id \<Rightarrow> ('l, 't) in_memory_cache \<Rightarrow> ('l, 't) in_memory_cache" where
  "cache_mark_token_registered t c = c\<lparr>erc := mark_token_registered t (erc c)\<rparr>"

definition cache_get_token_registration_lock ::
  "token_id \<Rightarrow> ('l, 't) in_memory_cache \<Rightarrow> nat option \<times> ('l, 't) in_memory_cache" where
  "cache_get_token_registration_lock t c =
     (case get_token_registration_lock t (erc c) of (m, e) \<Rightarrow> (m, c\<lparr>erc := e\<rparr>))"

definition cache_balances_diff :: "('l, 't) in_memory_cache \<Rightarrow> (balance_id \<times> i256) list" where
  "cache_balances_diff c = balances_diff (erc c)"

definition cache_total_supply_diff :: "('l, 't) in_memory_cache \<Rightarrow> (token_id \<times> i256) list" where
  "cache_total_supply_diff c = total_supply_diff (erc c)"

section \<open>Contract classes\<close>

text \<open>The ABI types of the \<open>starknet\<close> package, with the names the code reads from them.\<close>

datatype abi_entry =
    AFunction string
  | AL1Handler string
  | AConstructor string
  | AInterface string "abi_entry list"
  | AEvent string
  | AStruct string
  | AEnum string
  | AImpl string

datatype legacy_abi_entry = LFunction string | LConstructor string | LL1Handler string | LEvent string | LStruct string

record entry_point =
  ep_selector :: felt
  ep_function_idx :: u64

record entry_points_by_type =
  ep_constructor :: "entry_point list"
  ep_external :: "entry_point list"
  ep_l1_handler :: "entry_point list"

datatype class_abi = Sierra entry_points_by_type "abi_entry list" | Legacy "legacy_abi_entry list"

text \<open>What \<open>get_class_at\<close> of the provider returns; the Sierra ABI is still JSON text.\<close>

datatype contract_class =
    SierraClass entry_points_by_type string
  | LegacyClass "legacy_abi_entry list option"

fun flatten_abi_funcs_recursive :: "abi_entry list \<Rightarrow> abi_entry list" where
  "flatten_abi_funcs_recursive [] = []"
| "flatten_abi_funcs_recursive (AFunction n # es) = AFunction n # flatten_abi_funcs_recursive es"
| "flatten_abi_funcs_recursive (AL1Handler n # es) = AL1Handler n # flatten_abi_funcs_recursive es"
| "flatten_abi_funcs_recursive (AConstructor n # es) = AConstructor n # flatten_abi_funcs_recursive es"
| "flatten_abi_funcs_recursive (AInterface n items # es) =
     flatten_abi_funcs_recursive items @ flatten_abi_funcs_recursive es"
| "flatten_abi_funcs_recursive (_ # es) = flatten_abi_funcs_recursive es"

datatype block_id = BlockNumber u64 | BlockHash felt | PreConfirmed

datatype 'p provider_error = BlockNotFound | OtherProviderError 'p

type_synonym class_cache = "(felt \<times> (felt \<times> class_abi)) list"

text \<open>
  \<open>ContractClassCache::get\<close>. The two provider calls are \<open>hash_at\<close> and \<open>class_at\<close>; \<open>parse_abi\<close> is \<open>serde_json::from_str\<close>,
  \<open>None\<close> where it fails and the code panics.
\<close>

definition class_of ::
  "(string \<Rightarrow> abi_entry list option) \<Rightarrow> contract_class \<Rightarrow> class_abi option" where
  "class_of parse_abi cls =
     (case cls of
        SierraClass eps abi \<Rightarrow>
          map_option (\<lambda>es. Sierra eps (flatten_abi_funcs_recursive es)) (parse_abi abi)
      | LegacyClass abi \<Rightarrow> Some (Legacy (case abi of None \<Rightarrow> [] | Some es \<Rightarrow> es)))"

definition class_cache_get ::
  "(string \<Rightarrow> abi_entry list option) \<Rightarrow> (block_id \<Rightarrow> felt \<Rightarrow> 'p provider_error + felt) \<Rightarrow>
   (block_id \<Rightarrow> felt \<Rightarrow> 'p provider_error + contract_class) \<Rightarrow> felt \<Rightarrow> block_id \<Rightarrow> class_cache \<Rightarrow>
   (('p provider_error + class_abi) \<times> class_cache) option" where
  "class_cache_get parse_abi hash_at class_at addr bid cache =
     (case map_of cache addr of
        Some (_, cls) \<Rightarrow> Some (Inr cls, cache)
      | None \<Rightarrow>
          (case (case hash_at bid addr of
                   Inr h \<Rightarrow> Inr (h, bid)
                 | Inl BlockNotFound \<Rightarrow>
                     (case hash_at PreConfirmed addr of Inl e \<Rightarrow> Inl e | Inr h \<Rightarrow> Inr (h, PreConfirmed))
                 | Inl e \<Rightarrow> Inl e) of
             Inl e \<Rightarrow> Some (Inl e, cache)
           | Inr (h, bid') \<Rightarrow>
               (case class_at bid' addr of
                  Inl e \<Rightarrow> Some (Inl e, cache)
                | Inr c \<Rightarrow>
                    map_option (\<lambda>cls. (Inr cls, al_insert addr (h, cls) cache)) (class_of parse_abi c))))"

fun abi_entry_name :: "abi_entry \<Rightarrow> string option" where
  "abi_entry_name (AFunction n) = Some n"
| "abi_entry_name (AL1Handler n) = Some n"
| "abi_entry_name (AConstructor n) = Some n"
| "abi_entry_name _ = None"

fun find_legacy_name ::
  "(string \<Rightarrow> felt option) \<Rightarrow> felt \<Rightarrow> legacy_abi_entry list \<Rightarrow> string option option" where
  "find_legacy_name selector_of selector [] = Some None"
| "find_legacy_name selector_of selector (LFunction n # es) =
     (case selector_of n of
        None \<Rightarrow> None
      | Some s \<Rightarrow> if s = selector then Some (Some n) else find_legacy_name selector_of selector es)"
| "find_legacy_name selector_of selector (_ # es) = find_legacy_name selector_of selector es"

text \<open>The outer option is the panic of \<open>get_selector_from_name(..).unwrap()\<close>.\<close>

definition get_entrypoint_name_from_class ::
  "(string \<Rightarrow> felt option) \<Rightarrow> class_abi \<Rightarrow> felt \<Rightarrow> string option option" where
  "get_entrypoint_name_from_class selector_of cls selector =
     (case cls of
        Sierra eps abi \<Rightarrow>
          (case List.find (\<lambda>ep. ep_selector ep = selector)
                  (ep_external eps @ ep_l1_handler eps @ ep_constructor eps) of
             None \<Rightarrow> Some None
           | Some ep \<Rightarrow>
               (let i = unat (ep_function_idx ep)
                in if i < length abi then Some (abi_entry_name (abi ! i)) else Some None))
      | Legacy abi \<Rightarrow> find_legacy_name selector_of selector abi)"

section \<open>Lemmas\<close>

definition model_lookup :: "('l, 't) model_map \<Rightarrow> felt \<Rightarrow> felt \<Rightarrow> ('l, 't) model option" where
  "model_lookup cache w s = (case map_of cache w of None \<Rightarrow> None | Some wm \<Rightarrow> map_of wm s)"

definition model_map_ok :: "('l, 't) model_map \<Rightarrow> bool" where
  "model_map_ok cache \<longleftrightarrow> al_ok cache \<and> (\<forall>(w, wm) \<in> set cache. al_ok wm)"

lemma model_cache_model_Inr: "model_cache_model cache w s = Inr m \<longleftrightarrow> model_lookup cache w s = Some m"
  by (simp add: model_cache_model_def model_lookup_def split: option.split)

lemma model_lookup_set:
  "model_lookup (model_cache_set w s m cache) w' s' =
     (if w' = w \<and> s' = s then Some m else model_lookup cache w' s')"
  by (auto simp: model_lookup_def model_cache_set_def split: option.splits)

lemma in_set_al_upsert:
  "p \<in> set (al_upsert k f d m) \<Longrightarrow> p \<in> set m \<or> p = (k, d) \<or> (\<exists>v. (k, v) \<in> set m \<and> p = (k, f v))"
  by (induction m) (auto split: if_splits)

lemma model_map_ok_set [inv_intros]:
  "model_map_ok cache \<Longrightarrow> model_map_ok (model_cache_set w s m cache)"
  by (auto simp: model_map_ok_def model_cache_set_def al_ok_def[of "[_]"] dest!: in_set_al_upsert)

lemma set_select_models:
  "al_ok wm \<Longrightarrow> m \<in> set (select_models ss wm) \<longleftrightarrow> (\<exists>s. map_of wm s = Some m \<and> (ss = [] \<or> s \<in> set ss))"
proof (cases "ss = []")
  case True
  moreover assume "al_ok wm"
  ultimately show ?thesis
    by (auto simp: select_models_def al_values_def al_ok_in_set[symmetric] image_iff) force
next
  case False
  then show ?thesis by (force simp: select_models_def map_filter_def)
qed

lemma set_model_cache_models:
  assumes "model_map_ok cache"
  shows "m \<in> set (model_cache_models cache worlds selectors) \<longleftrightarrow>
    (\<exists>w s. model_lookup cache w s = Some m \<and> (worlds = [] \<or> w \<in> set worlds) \<and>
           (selectors = [] \<or> s \<in> set selectors))"
proof -
  have ok: "al_ok wm" if "map_of cache w = Some wm" for w wm
    using assms map_of_SomeD[OF that] by (auto simp: model_map_ok_def)
  have one: "m \<in> set (case map_of cache w of None \<Rightarrow> [] | Some wm \<Rightarrow> select_models selectors wm) \<longleftrightarrow>
      (\<exists>s. model_lookup cache w s = Some m \<and> (selectors = [] \<or> s \<in> set selectors))" for w
    by (cases "map_of cache w") (auto simp: model_lookup_def set_select_models[OF ok])
  show ?thesis
  proof (cases "worlds = []")
    case True
    have "set (al_values cache) = {wm. \<exists>w. map_of cache w = Some wm}"
      using assms by (force simp: al_values_def model_map_ok_def al_ok_in_set[symmetric] image_iff)
    then have "m \<in> set (model_cache_models cache worlds selectors) \<longleftrightarrow>
        (\<exists>w. m \<in> set (case map_of cache w of None \<Rightarrow> [] | Some wm \<Rightarrow> select_models selectors wm))"
      using True by (auto simp: model_cache_models_def split: option.splits) (metis)+
    with True one show ?thesis by blast
  next
    case False
    then have "m \<in> set (model_cache_models cache worlds selectors) \<longleftrightarrow>
        (\<exists>w\<in>set worlds. m \<in> set (case map_of cache w of None \<Rightarrow> [] | Some wm \<Rightarrow> select_models selectors wm))"
      by (simp add: model_cache_models_def)
    with False one show ?thesis by blast
  qed
qed

lemma flatten_named: "e \<in> set (flatten_abi_funcs_recursive es) \<Longrightarrow> abi_entry_name e \<noteq> None"
  by (induction es rule: flatten_abi_funcs_recursive.induct) auto

lemma class_cache_hit:
  "map_of cache addr = Some (h, cls) \<Longrightarrow>
   class_cache_get parse_abi hash_at class_at addr bid cache = Some (Inr cls, cache)"
  by (simp add: class_cache_get_def)

lemma class_cache_filled:
  "class_cache_get parse_abi hash_at class_at addr bid cache = Some (Inr cls, cache') \<Longrightarrow>
   \<exists>h. map_of cache' addr = Some (h, cls)"
  by (auto simp: class_cache_get_def split: option.splits sum.splits prod.splits)

section \<open>Properties\<close>

text \<open>
  After a rollback the cache is what committed storage says: the pending balance and supply changes and all cached
  models are gone, and a token counts as registered exactly if storage has it. Where reading the token ids fails, the
  error is returned and the registry stays as it was.
\<close>

theorem reset_restores_committed_view:
  fixes ids :: "'s + token_id list"
  assumes "reset_to_committed_storage ids c = (r, c')"
  shows "cache_balances_diff c' = [] \<and> cache_total_supply_diff c' = [] \<and>
         (model_cache_model (model_cache c') w s :: ('s, 'p) cache_error + ('l, 't) model) = Inl (ModelNotFound s) \<and>
         (case ids of
            Inr ts \<Rightarrow> r = Inr () \<and> is_token_registered (erc c') t = (t \<in> set ts)
          | Inl e \<Rightarrow> r = Inl e \<and> is_token_registered (erc c') t = is_token_registered (erc c) t)"
proof -
  let ?e = "clear_balances_diff (erc c)"
  have c': "erc c' = snd (reset_token_registry ids ?e)" "r = fst (reset_token_registry ids ?e)"
      "model_cache c' = []"
    using assms by (auto simp: reset_to_committed_storage_def cache_reset_token_registry_def
        clear_models_def cache_clear_balances_diff_def model_cache_clear_def split: prod.splits)
  have diffs: "balances_diff (erc c') = []" "total_supply_diff (erc c') = []"
    by (simp_all add: c' reset_token_registry_def clear_balances_diff_def split: sum.split)
  have "map_of (token_id_registry (erc c')) t = (case ids of Inl _ \<Rightarrow> map_of (token_id_registry (erc c)) t
      | Inr is \<Rightarrow> if t \<in> set is then Some Registered else None)"
    by (cases ids) (simp_all add: c' reset_token_registry_lookup)
  with diffs show ?thesis
    by (auto simp: cache_balances_diff_def cache_total_supply_diff_def model_cache_model_def c'(2,3)
        is_token_registered_def reset_token_registry_def load_token_registry_def split: sum.splits)
qed

theorem reset_restores_committed_view_witness:
  "is_token_registered (erc (snd (reset_to_committed_storage (Inr [Contract 1] :: unit + token_id list)
     \<lparr>model_cache = [] :: (unit, unit) model_map,
      erc = mark_token_registered (Contract 2)
        \<lparr>balances_diff = [], total_supply_diff = [], token_id_registry = [], mutexes = 0\<rparr>\<rparr>))) (Contract 2) = False"
proof -
  let ?c = "\<lparr>model_cache = [] :: (unit, unit) model_map,
      erc = mark_token_registered (Contract 2)
        \<lparr>balances_diff = [], total_supply_diff = [], token_id_registry = [], mutexes = 0\<rparr>\<rparr>"
  obtain r c' where run: "reset_to_committed_storage (Inr [Contract 1] :: unit + token_id list) ?c = (r, c')"
    by fastforce
  from reset_restores_committed_view[OF run, where ?'p = unit and t = "Contract 2"]
  have "\<not> is_token_registered (erc c') (Contract 2)"
    by simp
  then show ?thesis by (simp only: run) simp
qed

text \<open>
  The model query returns exactly the models registered under one of the given worlds (all worlds if none is
  given) and one of the given selectors (all selectors if none is given).
\<close>

theorem models_query_exact:
  assumes "model_map_ok cache"
  shows "m \<in> set (model_cache_models cache worlds selectors) \<longleftrightarrow>
    (\<exists>w s. (model_cache_model cache w s :: (unit, unit) cache_error + ('l, 't) model) = Inr m \<and>
           (worlds = [] \<or> w \<in> set worlds) \<and> (selectors = [] \<or> s \<in> set selectors))"
  using set_model_cache_models[OF assms] by (simp add: model_cache_model_Inr)

definition sample_model :: "felt \<Rightarrow> felt \<Rightarrow> (unit, unit) model" where
  "sample_model w s = \<lparr>m_world_address = w, m_namespace = ''ns'', m_name = ''M'', m_selector = s,
     m_class_hash = 0, m_contract_address = 0, m_packed_size = 0, m_unpacked_size = 0,
     m_layout = (), m_schema = (), m_use_legacy_store = True\<rparr>"

theorem models_query_exact_witness:
  "sample_model 1 2 \<in> set (model_cache_models (model_cache_set 1 2 (sample_model 1 2) []) [] [2])"
proof -
  have "model_map_ok (model_cache_set 1 2 (sample_model 1 2) [])"
    by (intro inv_intros) (simp add: model_map_ok_def)
  from models_query_exact[OF this, of "sample_model 1 2" "[]" "[2]"] show ?thesis
    by (auto simp: model_cache_model_def model_cache_set_def)
qed

text \<open>
  The class of a contract is fetched once: after \<open>ContractClassCache::get\<close> has returned a class, every later call for the
  same address returns that class and changes nothing, whatever block it names and whatever the provider would answer.
\<close>

theorem class_fetched_once:
  assumes "class_cache_get parse_abi hash_at class_at addr bid cache = Some (Inr cls, cache')"
  shows "class_cache_get parse_abi' hash_at' class_at' addr bid' cache' = Some (Inr cls, cache')"
  using class_cache_filled[OF assms] class_cache_hit by blast

theorem class_fetched_once_witness:
  "class_cache_get (\<lambda>_. None) (\<lambda>_ _. Inl (OtherProviderError ())) (\<lambda>_ _. Inl BlockNotFound) 5 PreConfirmed
     [(5, (9, Legacy [LFunction ''f'']))] = Some (Inr (Legacy [LFunction ''f'']), [(5, (9, Legacy [LFunction ''f'']))])"
proof -
  have "class_cache_get (\<lambda>_. None) (\<lambda>b _. if b = PreConfirmed then Inr 9 else Inl BlockNotFound)
      (\<lambda>b _. if b = PreConfirmed then Inr (LegacyClass (Some [LFunction ''f''])) else Inl (OtherProviderError ()))
      5 (BlockNumber 3) [] = Some (Inr (Legacy [LFunction ''f'']), [(5, (9, Legacy [LFunction ''f'']))])"
    by (simp add: class_cache_get_def class_of_def al_insert_def)
  then show ?thesis by (rule class_fetched_once)
qed

end
