(* ===== verification/Digraph.thy ===== *)
theory Digraph
  imports Prelude
begin

text \<open>
  \<open>AcyclicDigraphMap\<close> of \<open>crates/adigraphmap/src/lib.rs\<close>: a directed graph whose nodes are found by key, which refuses an
  edge that would close a cycle and lists its nodes by topological level.

  The state is the data a \<open>petgraph::DiGraph<V, ()>\<close> holds when nodes are never removed one by one (node weights by index,
  edges in order of insertion) and the map from keys to indices. The algorithms of \<open>petgraph\<close> are parameters
  (\<open>petgraph\<close>): path search, topological sort and the two neighbour iterators, whose documented behaviour is the locale
  \<open>petgraph_spec\<close>. The iteration order of a \<open>HashMap\<close> is the parameter \<open>ho\<close>, an arbitrary permutation.
\<close>

section \<open>The petgraph interface\<close>

type_synonym edge_list = "(nat \<times> nat) list"

record petgraph =
  has_path_connecting :: "edge_list \<Rightarrow> nat \<Rightarrow> nat \<Rightarrow> bool"
  neighbors_out :: "edge_list \<Rightarrow> nat \<Rightarrow> nat list"
  neighbors_in :: "edge_list \<Rightarrow> nat \<Rightarrow> nat list"
  toposort :: "nat \<Rightarrow> edge_list \<Rightarrow> nat list option"

definition topo_order :: "edge_list \<Rightarrow> nat list \<Rightarrow> bool" where
  "topo_order es xs \<longleftrightarrow> (\<forall>i j. i < length xs \<longrightarrow> j < length xs \<longrightarrow> (xs ! i, xs ! j) \<in> set es \<longrightarrow> i < j)"

locale petgraph_spec =
  fixes PG :: petgraph
  assumes has_path: "has_path_connecting PG es a b \<longleftrightarrow> (a, b) \<in> (set es)\<^sup>*"
    and out_neighbors: "mset (neighbors_out PG es n) = mset (map snd (filter (\<lambda>(a, _). a = n) es))"
    and in_neighbors: "mset (neighbors_in PG es n) = mset (map fst (filter (\<lambda>(_, b). b = n) es))"
    and toposort_acyclic: "acyclic (set es) \<Longrightarrow>
      \<exists>xs. toposort PG n es = Some xs \<and> mset xs = mset [0..<n] \<and> topo_order es xs"

section \<open>State and operations\<close>

datatype 'k adigraph_error = NodeNotFound 'k | CycleDetected | DuplicateKey 'k

record ('k, 'v) adigraph =
  nodes :: "'v list"
  edges :: edge_list
  node_indices :: "('k \<times> nat) list"

definition adigraph_new :: "('k, 'v) adigraph" where
  "adigraph_new = \<lparr>nodes = [], edges = [], node_indices = []\<rparr>"

definition contains_key :: "('k, 'v) adigraph \<Rightarrow> 'k \<Rightarrow> bool" where
  "contains_key g k = (map_of (node_indices g) k \<noteq> None)"

definition add_node :: "'k \<Rightarrow> 'v \<Rightarrow> (('k, 'v) adigraph, 'k adigraph_error, nat) stateful" where
  "add_node k v g =
     (if contains_key g k then (Inl (DuplicateKey k), g)
      else (let idx = length (nodes g)
            in (Inr idx, g\<lparr>nodes := nodes g @ [v], node_indices := al_insert k idx (node_indices g)\<rparr>)))"

definition get_node_index :: "('k, 'v) adigraph \<Rightarrow> 'k \<Rightarrow> 'k adigraph_error + nat" where
  "get_node_index g k =
     (case map_of (node_indices g) k of None \<Rightarrow> Inl (NodeNotFound k) | Some i \<Rightarrow> Inr i)"

definition would_create_cycle :: "petgraph \<Rightarrow> ('k, 'v) adigraph \<Rightarrow> nat \<Rightarrow> nat \<Rightarrow> bool" where
  "would_create_cycle PG g from_idx to_idx = has_path_connecting PG (edges g) to_idx from_idx"

definition add_dependency ::
  "petgraph \<Rightarrow> 'k \<Rightarrow> 'k \<Rightarrow> (('k, 'v) adigraph, 'k adigraph_error, unit) stateful" where
  "add_dependency PG from_key to_key g =
     (case get_node_index g from_key of
        Inl e \<Rightarrow> (Inl e, g)
      | Inr from_idx \<Rightarrow>
          (case get_node_index g to_key of
             Inl e \<Rightarrow> (Inl e, g)
           | Inr to_idx \<Rightarrow>
               if would_create_cycle PG g from_idx to_idx then (Inl CycleDetected, g)
               else (Inr (), g\<lparr>edges := edges g @ [(from_idx, to_idx)]\<rparr>)))"

definition add_node_with_dependencies ::
  "petgraph \<Rightarrow> 'k \<Rightarrow> 'v \<Rightarrow> 'k list \<Rightarrow> (('k, 'v) adigraph, 'k adigraph_error, nat) stateful" where
  "add_node_with_dependencies PG k v deps =
     and_then (add_node k v)
       (\<lambda>idx. and_then (for_each (\<lambda>d. add_dependency PG d k) deps) (\<lambda>_. ret idx))"

definition adigraph_get :: "('k, 'v) adigraph \<Rightarrow> 'k \<Rightarrow> 'v option" where
  "adigraph_get g k = map_option (\<lambda>i. nodes g ! i) (map_of (node_indices g) k)"

text \<open>\<open>get_mut\<close> hands out a reference; what the caller writes through it is \<open>f\<close>.\<close>

definition adigraph_modify :: "'k \<Rightarrow> ('v \<Rightarrow> 'v) \<Rightarrow> ('k, 'v) adigraph \<Rightarrow> ('k, 'v) adigraph" where
  "adigraph_modify k f g =
     (case map_of (node_indices g) k of
        None \<Rightarrow> g
      | Some i \<Rightarrow> g\<lparr>nodes := (nodes g)[i := f (nodes g ! i)]\<rparr>)"

definition adigraph_is_empty :: "('k, 'v) adigraph \<Rightarrow> bool" where
  "adigraph_is_empty g = (length (nodes g) = 0)"

definition adigraph_len :: "('k, 'v) adigraph \<Rightarrow> nat" where
  "adigraph_len g = length (nodes g)"

definition adigraph_clear :: "('k, 'v) adigraph \<Rightarrow> ('k, 'v) adigraph" where
  "adigraph_clear g = g\<lparr>nodes := [], edges := [], node_indices := []\<rparr>"

text \<open>\<open>node_indices.iter().find(|&(_, &v)| v == idx)\<close>, the key of a node.\<close>

definition key_of :: "('k, 'v) adigraph \<Rightarrow> nat \<Rightarrow> 'k option" where
  "key_of g i = map_option fst (List.find (\<lambda>(_, v). v = i) (node_indices g))"

definition topo_sort :: "petgraph \<Rightarrow> ('k, 'v) adigraph \<Rightarrow> ('k \<times> 'v) list option" where
  "topo_sort PG g =
     (case toposort PG (length (nodes g)) (edges g) of
        None \<Rightarrow> None
      | Some indices \<Rightarrow>
          Some (List.map_filter (\<lambda>i. map_option (\<lambda>k. (k, nodes g ! i)) (key_of g i)) indices))"

section \<open>Levels\<close>

text \<open>
  The inner loop over the successors of a node: decrement the count of open dependencies, and put a node on the next
  level when its count reaches 0. \<open>None\<close> is a panic: a successor without a count, or a count that is already 0.
\<close>

fun dec_neighbors :: "nat list \<Rightarrow> (nat \<times> nat) list \<Rightarrow> nat list \<Rightarrow> ((nat \<times> nat) list \<times> nat list) option" where
  "dec_neighbors [] inc nxt = Some (inc, nxt)"
| "dec_neighbors (b # bs) inc nxt =
     (case map_of inc b of
        None \<Rightarrow> None
      | Some 0 \<Rightarrow> None
      | Some (Suc c) \<Rightarrow> dec_neighbors bs (al_modify b (\<lambda>_. c) inc) (if c = 0 then nxt @ [b] else nxt))"

fun process_level ::
  "petgraph \<Rightarrow> ('k, 'v) adigraph \<Rightarrow> nat list \<Rightarrow> nat list \<Rightarrow> (nat \<times> nat) list \<Rightarrow> nat list \<Rightarrow> ('k \<times> 'v) list \<Rightarrow>
   (nat list \<times> (nat \<times> nat) list \<times> nat list \<times> ('k \<times> 'v) list) option" where
  "process_level PG g [] remaining inc nxt lvl = Some (remaining, inc, nxt, lvl)"
| "process_level PG g (n # ns) remaining inc nxt lvl =
     (if n \<in> set remaining
      then (let lvl' = (case key_of g n of None \<Rightarrow> lvl | Some k \<Rightarrow> lvl @ [(k, nodes g ! n)])
            in case dec_neighbors (neighbors_out PG (edges g) n) inc nxt of
                 None \<Rightarrow> None
               | Some (inc', nxt') \<Rightarrow> process_level PG g ns (removeAll n remaining) inc' nxt' lvl')
      else process_level PG g ns remaining inc nxt lvl)"

lemma process_level_progress:
  "process_level PG g ns remaining inc nxt lvl = Some (remaining', inc', nxt', lvl') \<Longrightarrow>
   length remaining' < length remaining \<or> (remaining' = remaining \<and> nxt' = nxt)"
proof (induction ns arbitrary: remaining inc nxt lvl)
  case (Cons n ns)
  show ?case
  proof (cases "n \<in> set remaining")
    case True
    then have "length (removeAll n remaining) < length remaining"
      by (simp add: length_removeAll_less)
    moreover obtain i x where "process_level PG g ns (removeAll n remaining) i x
        (case key_of g n of None \<Rightarrow> lvl | Some k \<Rightarrow> lvl @ [(k, nodes g ! n)]) = Some (remaining', inc', nxt', lvl')"
      using Cons.prems True by (auto simp: Let_def split: option.splits)
    ultimately show ?thesis using Cons.IH by fastforce
  next
    case False
    then show ?thesis using Cons by auto
  qed
qed simp

function levels_loop ::
  "petgraph \<Rightarrow> ('k, 'v) adigraph \<Rightarrow> nat list \<Rightarrow> nat list \<Rightarrow> (nat \<times> nat) list \<Rightarrow> ('k \<times> 'v) list list option" where
  "levels_loop PG g current remaining inc =
     (if current = [] then Some []
      else case process_level PG g current remaining inc [] [] of
             None \<Rightarrow> None
           | Some (remaining', inc', nxt, lvl) \<Rightarrow>
               map_option (\<lambda>ls. if lvl = [] then ls else lvl # ls) (levels_loop PG g nxt remaining' inc'))"
  by pat_completeness auto
termination
  by (relation "measure (\<lambda>(PG, g, current, remaining, inc). 2 * length remaining + (if current = [] then 0 else 1))")
    (auto dest!: process_level_progress)

declare levels_loop.simps [simp del]

definition incoming_counts :: "petgraph \<Rightarrow> ('k, 'v) adigraph \<Rightarrow> (nat \<times> nat) list" where
  "incoming_counts PG g = map (\<lambda>n. (n, length (neighbors_in PG (edges g) n))) [0..<length (nodes g)]"

definition topo_sort_by_level ::
  "petgraph \<Rightarrow> (nat list \<Rightarrow> nat list) \<Rightarrow> ('k, 'v) adigraph \<Rightarrow> ('k \<times> 'v) list list option" where
  "topo_sort_by_level PG ho g =
     (let remaining = al_values (node_indices g);
          inc = incoming_counts PG g;
          roots = ho (map fst (filter (\<lambda>(_, c). c = 0) inc))
      in levels_loop PG g roots remaining inc)"

section \<open>The invariant\<close>

definition adigraph_inv :: "('k, 'v) adigraph \<Rightarrow> bool" where
  "adigraph_inv g \<longleftrightarrow>
     al_ok (node_indices g) \<and> distinct (map snd (node_indices g)) \<and>
     set (map snd (node_indices g)) = {0..<length (nodes g)} \<and>
     set (edges g) \<subseteq> {0..<length (nodes g)} \<times> {0..<length (nodes g)} \<and>
     acyclic (set (edges g))"

text \<open>The dependencies between keys that the edges stand for.\<close>

definition key_deps :: "('k, 'v) adigraph \<Rightarrow> ('k \<times> 'k) set" where
  "key_deps g = {(a, b). \<exists>i j. map_of (node_indices g) a = Some i \<and> map_of (node_indices g) b = Some j \<and>
                          (i, j) \<in> set (edges g)}"

lemma adigraph_invD:
  assumes "adigraph_inv g"
  shows "al_ok (node_indices g)" "distinct (map snd (node_indices g))"
    "set (map snd (node_indices g)) = {0..<length (nodes g)}"
    "set (edges g) \<subseteq> {0..<length (nodes g)} \<times> {0..<length (nodes g)}" "acyclic (set (edges g))"
  using assms by (simp_all add: adigraph_inv_def)

lemma index_in_range: "adigraph_inv g \<Longrightarrow> map_of (node_indices g) k = Some i \<Longrightarrow> i < length (nodes g)"
  using adigraph_invD(3)[of g] map_of_SomeD[of "node_indices g" k i] by force

lemma contains_key_iff: "contains_key g k \<longleftrightarrow> (\<exists>i. map_of (node_indices g) k = Some i)"
  by (auto simp: contains_key_def)

lemma contains_key_get: "contains_key g k \<longleftrightarrow> adigraph_get g k \<noteq> None"
  by (simp add: contains_key_def adigraph_get_def)

lemma al_insert_fresh: "map_of m k = None \<Longrightarrow> al_insert k v m = m @ [(k, v)]"
  by (induction m) (auto simp: al_insert_def split: if_splits)

lemma adigraph_inv_new [simp, inv_intros]: "adigraph_inv adigraph_new"
  by (simp add: adigraph_inv_def adigraph_new_def acyclic_def)

lemma adigraph_inv_clear [simp, inv_intros]: "adigraph_inv (adigraph_clear g)"
  by (simp add: adigraph_inv_def adigraph_clear_def acyclic_def)

lemma adigraph_inv_add_node [inv_intros]:
  assumes "adigraph_inv g"
  shows "adigraph_inv (snd (add_node k v g))"
proof (cases "contains_key g k")
  case False
  then have ins: "al_insert k (length (nodes g)) (node_indices g) = node_indices g @ [(k, length (nodes g))]"
      "k \<notin> fst ` set (node_indices g)"
    by (simp_all add: contains_key_def al_insert_fresh map_of_eq_None_iff)
  have "set (edges g) \<subseteq> {0..<Suc (length (nodes g))} \<times> {0..<Suc (length (nodes g))}"
    using adigraph_invD(4)[OF assms] by fastforce
  with False ins adigraph_invD[OF assms] show ?thesis
    by (auto simp: adigraph_inv_def add_node_def Let_def al_ok_def)
qed (use assms in \<open>simp add: add_node_def\<close>)

lemma adigraph_inv_modify [inv_intros]: "adigraph_inv g \<Longrightarrow> adigraph_inv (adigraph_modify k f g)"
  by (auto simp: adigraph_inv_def adigraph_modify_def split: option.splits)

context petgraph_spec
begin

lemma add_dependency_ok:
  "add_dependency PG a b g = (Inr (), g') \<longleftrightarrow>
     (\<exists>i j. map_of (node_indices g) a = Some i \<and> map_of (node_indices g) b = Some j \<and>
            (j, i) \<notin> (set (edges g))\<^sup>* \<and> g' = g\<lparr>edges := edges g @ [(i, j)]\<rparr>)"
  by (auto simp: add_dependency_def get_node_index_def would_create_cycle_def has_path split: option.splits)

lemma add_dependency_error:
  "add_dependency PG a b g = (Inl e, g') \<Longrightarrow> g' = g"
  by (auto simp: add_dependency_def split: sum.splits if_splits)

lemma add_dependency_snd:
  "snd (add_dependency PG a b g) = g \<or> add_dependency PG a b g = (Inr (), snd (add_dependency PG a b g))"
  by (auto simp: add_dependency_def split: sum.splits)

lemma adigraph_inv_add_dependency:
  assumes "adigraph_inv g"
  shows "adigraph_inv (snd (add_dependency PG a b g))"
proof (cases "snd (add_dependency PG a b g) = g")
  case False
  then have "add_dependency PG a b g = (Inr (), snd (add_dependency PG a b g))"
    using add_dependency_snd[of a b g] by blast
  then obtain i j where ij: "map_of (node_indices g) a = Some i" "map_of (node_indices g) b = Some j"
      "(j, i) \<notin> (set (edges g))\<^sup>*" "snd (add_dependency PG a b g) = g\<lparr>edges := edges g @ [(i, j)]\<rparr>"
    unfolding add_dependency_ok by blast
  with index_in_range[OF assms] adigraph_invD[OF assms] show ?thesis
    by (simp add: adigraph_inv_def acyclic_insert)
qed (use assms in simp)

lemma add_dependency_frame:
  "nodes (snd (add_dependency PG a b g)) = nodes g"
  "node_indices (snd (add_dependency PG a b g)) = node_indices g"
  by (auto simp: add_dependency_def split: sum.splits)

lemma add_dependency_keeps_deps: "key_deps g \<subseteq> key_deps (snd (add_dependency PG a b g))"
  by (auto simp: key_deps_def add_dependency_def split: sum.splits)

lemma add_dependency_key_deps:
  "add_dependency PG a b g = (Inr (), g') \<Longrightarrow> (a, b) \<in> key_deps g'"
  by (auto simp: add_dependency_ok key_deps_def)

end

section \<open>Counting open dependencies\<close>

definition edge_count :: "edge_list \<Rightarrow> nat set \<Rightarrow> nat \<Rightarrow> nat" where
  "edge_count es R v = length (filter (\<lambda>(a, b). b = v \<and> a \<in> R) es)"

lemma edge_count_zero: "edge_count es R v = 0 \<longleftrightarrow> (\<forall>a\<in>R. (a, v) \<notin> set es)"
  by (auto simp: edge_count_def filter_empty_conv)

lemma edge_count_remove:
  "n \<in> R \<Longrightarrow> edge_count es R v = edge_count es (R - {n}) v + edge_count es {n} v"
  by (induction es) (auto simp: edge_count_def)

lemma edge_count_mono: "R' \<subseteq> R \<Longrightarrow> edge_count es R' v \<le> edge_count es R v"
  by (induction es) (auto simp: edge_count_def)

lemma count_list_mset: "count_list xs v = count (mset xs) v"
  by (induction xs) auto

text \<open>What the inner loop computes: every count drops by the number of edges into its node, and the nodes whose count
  reaches 0 come up once each.\<close>

lemma dec_neighbors_spec:
  assumes "\<And>v. v \<in> set bs \<Longrightarrow> \<exists>c. map_of inc v = Some c \<and> count_list bs v \<le> c"
  shows "\<exists>inc' new. dec_neighbors bs inc nxt = Some (inc', nxt @ new) \<and>
           (\<forall>v. map_of inc' v = map_option (\<lambda>c. c - count_list bs v) (map_of inc v)) \<and>
           distinct new \<and> set new = {v \<in> set bs. map_of inc v = Some (count_list bs v)}"
  using assms
proof (induction bs arbitrary: inc nxt)
  case Nil
  then show ?case by (auto simp: option.map_ident)
next
  case (Cons b bs)
  from Cons.prems[of b] obtain c0 where c0: "map_of inc b = Some c0" "count_list bs b < c0"
    by (auto simp: Suc_le_eq)
  then obtain c where c: "map_of inc b = Some (Suc c)" "count_list bs b \<le> c"
    by (cases c0) auto
  let ?inc = "al_modify b (\<lambda>_. c) inc" and ?nxt = "if c = 0 then nxt @ [b] else nxt"
  have pre: "\<exists>d. map_of ?inc v = Some d \<and> count_list bs v \<le> d" if "v \<in> set bs" for v
    using Cons.prems[of v] that c by (auto split: if_splits)
  from Cons.IH[OF pre, of ?nxt] obtain inc' new where
      step: "dec_neighbors bs ?inc ?nxt = Some (inc', ?nxt @ new)"
      and counts: "\<And>v. map_of inc' v = map_option (\<lambda>c. c - count_list bs v) (map_of ?inc v)"
      and new: "distinct new" "set new = {v \<in> set bs. map_of ?inc v = Some (count_list bs v)}"
    by blast
  let ?new = "if c = 0 then b # new else new"
  have "b \<notin> set new" if "c = 0" using that new(2) c by (auto simp: count_list_0_iff)
  then have d: "distinct ?new" using new(1) by simp
  have sn: "set ?new = {v \<in> set (b # bs). map_of inc v = Some (count_list (b # bs) v)}"
  proof (rule set_eqI)
    fix v
    have "b \<in> set bs \<longleftrightarrow> count_list bs b \<noteq> 0" by (simp add: count_list_0_iff)
    then show "v \<in> set ?new \<longleftrightarrow> v \<in> {v \<in> set (b # bs). map_of inc v = Some (count_list (b # bs) v)}"
      using c by (cases "v = b"; cases "c = 0") (simp_all add: new(2), auto)
  qed
  have eq: "dec_neighbors (b # bs) inc nxt = Some (inc', nxt @ ?new)"
    by (simp add: c(1) step)
  have cs: "map_of inc' v = map_option (\<lambda>c. c - count_list (b # bs) v) (map_of inc v)" for v
    using c by (simp add: counts)
  show ?case by (intro exI[of _ inc'] exI[of _ ?new] conjI eq d sn allI cs)
qed

section \<open>Levels respect the dependencies\<close>

fun levels_ok :: "(nat \<times> nat) set \<Rightarrow> nat set \<Rightarrow> nat list list \<Rightarrow> bool" where
  "levels_ok E D [] = True"
| "levels_ok E D (l # ls) = ((\<forall>v\<in>set l. \<forall>u. (u, v) \<in> E \<longrightarrow> u \<in> D) \<and> levels_ok E (D \<union> set l) ls)"

lemma levels_ok_nth:
  "levels_ok E D ls \<Longrightarrow> i < length ls \<Longrightarrow> v \<in> set (ls ! i) \<Longrightarrow> (u, v) \<in> E \<Longrightarrow>
   u \<in> D \<or> (\<exists>j<i. u \<in> set (ls ! j))"
proof (induction ls arbitrary: D i)
  case (Cons l ls)
  show ?case
  proof (cases i)
    case 0
    with Cons.prems show ?thesis by auto
  next
    case (Suc i')
    with Cons.prems Cons.IH[of "D \<union> set l" i'] have "u \<in> D \<union> set l \<or> (\<exists>j<i'. u \<in> set (ls ! j))"
      by simp
    then show ?thesis
    proof
      assume "u \<in> D \<union> set l"
      then show ?thesis using Suc by (auto intro: exI[of _ 0])
    next
      assume "\<exists>j<i'. u \<in> set (ls ! j)"
      then obtain j where "j < i'" "u \<in> set (ls ! j)" by blast
      then show ?thesis using Suc by (intro disjI2 exI[of _ "Suc j"]) simp
    qed
  qed
qed simp

text \<open>The entry of a level that an index stands for.\<close>

definition entry_of :: "('k, 'v) adigraph \<Rightarrow> nat \<Rightarrow> 'k \<times> 'v" where
  "entry_of g i = (the (key_of g i), nodes g ! i)"

lemma find_snd:
  "distinct (map snd m) \<Longrightarrow> (k, i) \<in> set m \<Longrightarrow> List.find (\<lambda>(_, v). v = i) m = Some (k, i)"
  by (induction m) (auto simp: rev_image_eqI)

lemma key_of_index: "adigraph_inv g \<Longrightarrow> map_of (node_indices g) k = Some i \<Longrightarrow> key_of g i = Some k"
  by (simp add: key_of_def find_snd[OF adigraph_invD(2) map_of_SomeD])

lemma index_has_key:
  assumes "adigraph_inv g" and "i < length (nodes g)"
  shows "\<exists>k. map_of (node_indices g) k = Some i \<and> key_of g i = Some k"
proof -
  have "i \<in> set (map snd (node_indices g))" using assms adigraph_invD(3) by fastforce
  then obtain k where "(k, i) \<in> set (node_indices g)" by auto
  then have "map_of (node_indices g) k = Some i" using al_ok_in_set[OF adigraph_invD(1)[OF assms(1)]] by simp
  with key_of_index[OF assms(1)] show ?thesis by blast
qed

context petgraph_spec
begin

lemma out_count: "count_list (neighbors_out PG es n) v = edge_count es {n} v"
proof -
  have "count_list (neighbors_out PG es n) v = count (mset (map snd (filter (\<lambda>(a, _). a = n) es))) v"
    by (simp only: count_list_mset out_neighbors)
  also have "\<dots> = edge_count es {n} v" by (induction es) (auto simp: edge_count_def)
  finally show ?thesis .
qed

lemma in_length:
  assumes "set es \<subseteq> N \<times> N"
  shows "length (neighbors_in PG es v) = edge_count es N v"
proof -
  have "length (neighbors_in PG es v) = size (mset (neighbors_in PG es v))" by simp
  also have "\<dots> = length (filter (\<lambda>(_, b). b = v) es)" by (simp only: in_neighbors size_mset length_map)
  also have "\<dots> = edge_count es N v"
    unfolding edge_count_def using assms by (intro arg_cong[of _ _ length] filter_cong) auto
  finally show ?thesis .
qed

lemma process_level_spec:
  assumes "adigraph_inv g"
  shows "distinct ns \<Longrightarrow> set ns \<subseteq> set rem \<Longrightarrow> set rem \<subseteq> {0..<length (nodes g)} \<Longrightarrow>
    (\<And>v. v < length (nodes g) \<Longrightarrow> map_of inc v = Some (edge_count (edges g) (set rem) v)) \<Longrightarrow>
    \<exists>inc' new. process_level PG g ns rem inc nxt lvl =
        Some (filter (\<lambda>i. i \<notin> set ns) rem, inc', nxt @ new, lvl @ map (entry_of g) ns) \<and>
      (\<forall>v < length (nodes g). map_of inc' v = Some (edge_count (edges g) (set rem - set ns) v)) \<and>
      distinct new \<and>
      set new = {v. v < length (nodes g) \<and> edge_count (edges g) (set rem) v > 0 \<and>
                    edge_count (edges g) (set rem - set ns) v = 0}"
proof (induction ns arbitrary: rem inc nxt lvl)
  case Nil
  then show ?case by auto
next
  case (Cons n ns)
  let ?es = "edges g" and ?bs = "neighbors_out PG (edges g) n" and ?rem = "removeAll n rem"
  have n: "n \<in> set rem" "n < length (nodes g)" using Cons.prems by auto
  have split: "edge_count ?es (set rem) v = edge_count ?es (set ?rem) v + count_list ?bs v" for v
    using edge_count_remove[OF n(1), of ?es v] by (simp add: out_count)
  have bs_range: "v < length (nodes g)" if "v \<in> set ?bs" for v
  proof -
    have "count_list ?bs v \<noteq> 0" using that by (simp add: count_list_0_iff)
    then show ?thesis using adigraph_invD(4)[OF assms] by (auto simp: out_count edge_count_zero)
  qed
  have "\<exists>c. map_of inc v = Some c \<and> count_list ?bs v \<le> c" if "v \<in> set ?bs" for v
    using Cons.prems(4)[OF bs_range[OF that]] by (simp add: split)
  from dec_neighbors_spec[OF this, where nxt = nxt] obtain inc1 new1 where
      dec: "dec_neighbors ?bs inc nxt = Some (inc1, nxt @ new1)"
      and inc1: "\<And>v. map_of inc1 v = map_option (\<lambda>c. c - count_list ?bs v) (map_of inc v)"
      and new1: "distinct new1" "set new1 = {v \<in> set ?bs. map_of inc v = Some (count_list ?bs v)}" by blast
  have inc1_eq: "map_of inc1 v = Some (edge_count ?es (set ?rem) v)" if "v < length (nodes g)" for v
    using Cons.prems(4)[OF that] by (simp add: inc1 split)
  have new1_eq: "set new1 = {v. v < length (nodes g) \<and> edge_count ?es (set rem) v > 0 \<and> edge_count ?es (set ?rem) v = 0}"
  proof (intro set_eqI iffI)
    fix v assume "v \<in> set new1"
    then have v: "v \<in> set ?bs" "map_of inc v = Some (count_list ?bs v)" using new1(2) by auto
    then have "count_list ?bs v \<noteq> 0" by (simp add: count_list_0_iff)
    with v Cons.prems(4)[OF bs_range[OF v(1)]] bs_range[OF v(1)]
    show "v \<in> {v. v < length (nodes g) \<and> edge_count ?es (set rem) v > 0 \<and> edge_count ?es (set ?rem) v = 0}"
      by (simp add: split)
  next
    fix v assume v: "v \<in> {v. v < length (nodes g) \<and> edge_count ?es (set rem) v > 0 \<and> edge_count ?es (set ?rem) v = 0}"
    then have "count_list ?bs v \<noteq> 0" by (auto simp: split)
    then have "v \<in> set ?bs" by (meson count_notin)
    with v Cons.prems(4)[of v] show "v \<in> set new1" by (simp add: new1(2) split)
  qed
  have pre: "distinct ns" "set ns \<subseteq> set ?rem" "set ?rem \<subseteq> {0..<length (nodes g)}" using Cons.prems by auto
  from Cons.IH[OF pre inc1_eq, where nxt = "nxt @ new1" and lvl = "lvl @ [entry_of g n]"] obtain inc2 new2 where
      rest: "process_level PG g ns ?rem inc1 (nxt @ new1) (lvl @ [entry_of g n]) =
        Some (filter (\<lambda>i. i \<notin> set ns) ?rem, inc2, (nxt @ new1) @ new2, (lvl @ [entry_of g n]) @ map (entry_of g) ns)"
      and inc2: "\<And>v. v < length (nodes g) \<Longrightarrow> map_of inc2 v = Some (edge_count ?es (set ?rem - set ns) v)"
      and new2: "distinct new2" "set new2 = {v. v < length (nodes g) \<and> edge_count ?es (set ?rem) v > 0 \<and>
                    edge_count ?es (set ?rem - set ns) v = 0}" by blast
  have sets: "set ?rem - set ns = set rem - set (n # ns)"
      "filter (\<lambda>i. i \<notin> set ns) ?rem = filter (\<lambda>i. i \<notin> set (n # ns)) rem"
    by (auto simp: removeAll_filter_not_eq intro!: filter_cong)
  have lvl: "(case key_of g n of None \<Rightarrow> lvl | Some k \<Rightarrow> lvl @ [(k, nodes g ! n)]) = lvl @ [entry_of g n]"
    using index_has_key[OF assms n(2)] by (auto simp: entry_of_def)
  have eq: "process_level PG g (n # ns) rem inc nxt lvl =
      Some (filter (\<lambda>i. i \<notin> set (n # ns)) rem, inc2, nxt @ (new1 @ new2), lvl @ map (entry_of g) (n # ns))"
    using n(1) rest sets(2) by (simp add: dec lvl Let_def)
  have "edge_count ?es (set rem - set (n # ns)) v \<le> edge_count ?es (set ?rem) v" for v
    by (intro edge_count_mono) auto
  then have sn: "set (new1 @ new2) = {v. v < length (nodes g) \<and> edge_count ?es (set rem) v > 0 \<and>
      edge_count ?es (set rem - set (n # ns)) v = 0}"
  proof (intro set_eqI)
    fix v
    assume le: "\<And>v. edge_count ?es (set rem - set (n # ns)) v \<le> edge_count ?es (set ?rem) v"
    show "v \<in> set (new1 @ new2) \<longleftrightarrow> v \<in> {v. v < length (nodes g) \<and> edge_count ?es (set rem) v > 0 \<and>
        edge_count ?es (set rem - set (n # ns)) v = 0}"
      unfolding set_append Un_iff new1_eq new2(2) sets(1) mem_Collect_eq
      using le[of v] split[of v] by linarith
  qed
  have dn: "distinct (new1 @ new2)" using new1(1) new2(1) by (auto simp: new1_eq new2(2))
  have i2: "\<forall>v < length (nodes g). map_of inc2 v = Some (edge_count ?es (set rem - set (n # ns)) v)"
    using inc2 unfolding sets(1) by blast
  show ?case by (intro exI[of _ inc2] exI[of _ "new1 @ new2"] conjI eq i2 dn sn)
qed

lemma no_open_roots:
  assumes "adigraph_inv g" and "\<And>v. v \<in> R \<Longrightarrow> edge_count (edges g) R v \<noteq> 0"
  shows "R = {}"
proof (rule ccontr)
  assume "R \<noteq> {}"
  have "wf (set (edges g))"
    using adigraph_invD(5)[OF assms(1)] by (intro finite_acyclic_wf) auto
  from wfE_min'[OF this \<open>R \<noteq> {}\<close>] obtain v where "v \<in> R" "\<And>u. (u, v) \<in> set (edges g) \<Longrightarrow> u \<notin> R"
    by blast
  with assms(2)[of v] show False by (auto simp: edge_count_zero)
qed

lemma levels_loop_spec:
  assumes "adigraph_inv g"
  shows "set rem \<subseteq> {0..<length (nodes g)} \<Longrightarrow>
    (\<And>v. v < length (nodes g) \<Longrightarrow> map_of inc v = Some (edge_count (edges g) (set rem) v)) \<Longrightarrow>
    (\<And>v. v < length (nodes g) \<Longrightarrow> v \<notin> set rem \<Longrightarrow> edge_count (edges g) (set rem) v = 0) \<Longrightarrow>
    distinct cur \<Longrightarrow> set cur = {v \<in> set rem. edge_count (edges g) (set rem) v = 0} \<Longrightarrow>
    \<exists>ls. levels_loop PG g cur rem inc = Some (map (map (entry_of g)) ls) \<and> distinct (concat ls) \<and>
      set (concat ls) = set rem \<and> levels_ok (set (edges g)) ({0..<length (nodes g)} - set rem) ls"
proof (induction "length rem" arbitrary: cur rem inc rule: less_induct)
  case less
  let ?n = "length (nodes g)" and ?es = "edges g"
  show ?case
  proof (cases "cur = []")
    case True
    then have "set rem = {}" using less.prems(5) by (intro no_open_roots[OF assms]) auto
    with True show ?thesis by (intro exI[of _ "[]"]) (simp add: levels_loop.simps)
  next
    case False
    let ?rem = "filter (\<lambda>i. i \<notin> set cur) rem"
    have sub: "set cur \<subseteq> set rem" using less.prems(5) by auto
    from process_level_spec[OF assms less.prems(4) sub less.prems(1,2), where nxt = "[]" and lvl = "[]"]
    obtain inc' new where
        lvl: "process_level PG g cur rem inc [] [] = Some (?rem, inc', new, map (entry_of g) cur)"
        and inc': "\<And>v. v < ?n \<Longrightarrow> map_of inc' v = Some (edge_count ?es (set rem - set cur) v)"
        and new: "distinct new" "set new = {v. v < ?n \<and> edge_count ?es (set rem) v > 0 \<and>
                    edge_count ?es (set rem - set cur) v = 0}" by auto
    have srem: "set ?rem = set rem - set cur" by auto
    have mono: "edge_count ?es (set ?rem) v \<le> edge_count ?es (set rem) v" for v
      by (intro edge_count_mono) auto
    obtain x where "x \<in> set cur" using False by (cases cur) auto
    then have len: "length ?rem < length rem" using sub by (intro length_filter_less[of x]) auto
    have closed: "edge_count ?es (set ?rem) v = 0" if "v < ?n" "v \<notin> set ?rem" for v
      using that mono[of v] less.prems(3)[of v] less.prems(5) by (cases "v \<in> set rem") auto
    have open_new: "set new = {v \<in> set ?rem. edge_count ?es (set ?rem) v = 0}"
    proof (intro set_eqI)
      fix v
      have range: "v \<in> set rem \<Longrightarrow> v < ?n" using less.prems(1) by auto
      have "v < ?n \<and> edge_count ?es (set rem) v > 0 \<longleftrightarrow> v \<in> set rem \<and> v \<notin> set cur"
        using range less.prems(3)[of v] less.prems(5) by auto
      then show "v \<in> set new \<longleftrightarrow> v \<in> {v \<in> set ?rem. edge_count ?es (set ?rem) v = 0}"
        unfolding new(2) srem by auto
    qed
    have "set ?rem \<subseteq> {0..<?n}" using less.prems(1) by auto
    from less.hyps[OF len this _ closed new(1) open_new, of inc'] inc' obtain ls where
        ls: "levels_loop PG g new ?rem inc' = Some (map (map (entry_of g)) ls)" "distinct (concat ls)"
          "set (concat ls) = set ?rem" "levels_ok (set ?es) ({0..<?n} - set ?rem) ls"
      unfolding srem by blast
    have first: "u \<in> {0..<?n} - set rem" if "v \<in> set cur" "(u, v) \<in> set ?es" for u v
    proof -
      from that(1) have "edge_count ?es (set rem) v = 0" using less.prems(5) by simp
      with that(2) adigraph_invD(4)[OF assms] show ?thesis by (auto simp: edge_count_zero)
    qed
    have "{0..<?n} - set ?rem = ({0..<?n} - set rem) \<union> set cur" using sub less.prems(1) by auto
    with ls(4) first have ok: "levels_ok (set ?es) ({0..<?n} - set rem) (cur # ls)" by simp
    have eq: "levels_loop PG g cur rem inc = Some (map (map (entry_of g)) (cur # ls))"
      using False by (simp add: levels_loop.simps[of PG g cur] lvl ls(1))
    show ?thesis
      using eq ok less.prems(4) ls(2,3) sub by (intro exI[of _ "cur # ls"]) auto
  qed
qed

lemma topo_sort_by_level_indices:
  assumes "adigraph_inv g" and "hash_order ho"
  shows "\<exists>ls. topo_sort_by_level PG ho g = Some (map (map (entry_of g)) ls) \<and> distinct (concat ls) \<and>
    set (concat ls) = {0..<length (nodes g)} \<and> levels_ok (set (edges g)) {} ls"
proof -
  let ?n = "length (nodes g)" and ?es = "edges g" and ?rem = "al_values (node_indices g)"
  let ?roots = "map fst (filter (\<lambda>(_, c). c = 0) (incoming_counts PG g))"
  have rem: "set ?rem = {0..<?n}" using adigraph_invD(3)[OF assms(1)] by (simp add: al_values_def)
  have cnt: "length (neighbors_in PG ?es v) = edge_count ?es (set ?rem) v" for v
    unfolding rem by (rule in_length[OF adigraph_invD(4)[OF assms(1)]])
  have inc: "map_of (incoming_counts PG g) v = Some (edge_count ?es (set ?rem) v)" if "v < ?n" for v
    using that by (simp add: incoming_counts_def map_of_map_constkeys cnt)
  have roots_eq: "?roots = filter (\<lambda>v. edge_count ?es (set ?rem) v = 0) [0..<?n]"
    by (simp add: incoming_counts_def filter_map o_def cnt)
  have ho: "mset (ho ?roots) = mset ?roots" using assms(2) by (simp add: hash_order_def)
  have "distinct (ho ?roots)"
    by (rule mset_eq_imp_distinct_iff[OF ho, THEN iffD2]) (simp only: roots_eq distinct_filter distinct_upt)
  moreover have "set (ho ?roots) = {v \<in> set ?rem. edge_count ?es (set ?rem) v = 0}"
    unfolding mset_eq_setD[OF ho] unfolding roots_eq rem by auto
  ultimately obtain ls where "levels_loop PG g (ho ?roots) ?rem (incoming_counts PG g) = Some (map (map (entry_of g)) ls)"
      "distinct (concat ls)" "set (concat ls) = set ?rem" "levels_ok (set ?es) ({0..<?n} - set ?rem) ls"
    using levels_loop_spec[OF assms(1), of ?rem "incoming_counts PG g" "ho ?roots"] inc rem by auto
  then show ?thesis by (auto simp: topo_sort_by_level_def Let_def rem)
qed

end

section \<open>In terms of keys\<close>

lemma entry_of_index:
  "adigraph_inv g \<Longrightarrow> map_of (node_indices g) k = Some i \<Longrightarrow> entry_of g i = (k, nodes g ! i)"
  by (simp add: entry_of_def key_of_index)

lemma entry_of_get:
  assumes "adigraph_inv g" and "set xs = {0..<length (nodes g)}"
  shows "(k, v) \<in> entry_of g ` set xs \<longleftrightarrow> adigraph_get g k = Some v"
proof
  assume "(k, v) \<in> entry_of g ` set xs"
  then obtain i where i: "i < length (nodes g)" "entry_of g i = (k, v)" using assms(2) by force
  from index_has_key[OF assms(1) i(1)] obtain k' where "map_of (node_indices g) k' = Some i" by blast
  with i entry_of_index[OF assms(1) this] show "adigraph_get g k = Some v" by (simp add: adigraph_get_def)
next
  assume "adigraph_get g k = Some v"
  then obtain i where i: "map_of (node_indices g) k = Some i" "v = nodes g ! i"
    by (auto simp: adigraph_get_def)
  with index_in_range[OF assms(1) i(1)] entry_of_index[OF assms(1) i(1)] assms(2)
  show "(k, v) \<in> entry_of g ` set xs" by (metis atLeastLessThan_iff image_eqI le0)
qed

lemma inj_entry_key: "adigraph_inv g \<Longrightarrow> inj_on (\<lambda>i. fst (entry_of g i)) {0..<length (nodes g)}"
proof (rule inj_onI)
  fix i j assume a: "adigraph_inv g" "i \<in> {0..<length (nodes g)}" "j \<in> {0..<length (nodes g)}"
    "fst (entry_of g i) = fst (entry_of g j)"
  from a index_has_key[of g i] index_has_key[of g j] show "i = j"
    by (auto simp: entry_of_def)
qed

lemma distinct_entry_keys:
  "adigraph_inv g \<Longrightarrow> distinct xs \<Longrightarrow> set xs \<subseteq> {0..<length (nodes g)} \<Longrightarrow>
   distinct (map fst (map (entry_of g) xs))"
  using inj_on_subset[OF inj_entry_key] by (auto simp: distinct_map o_def)

lemma key_deps_path:
  assumes "adigraph_inv g" and "map_of (node_indices g) a = Some i" and "map_of (node_indices g) b = Some j"
  shows "(i, j) \<in> (set (edges g))\<^sup>* \<longleftrightarrow> (a, b) \<in> (key_deps g)\<^sup>*"
proof
  assume "(i, j) \<in> (set (edges g))\<^sup>*"
  then show "(a, b) \<in> (key_deps g)\<^sup>*" using assms(3)
  proof (induction arbitrary: b)
    case base
    with assms(2) have "b = a" using key_of_index[OF assms(1)] by (metis option.inject)
    then show ?case by simp
  next
    case (step y z)
    from step.hyps(2) adigraph_invD(4)[OF assms(1)] have "y < length (nodes g)" by auto
    from index_has_key[OF assms(1) this] obtain c where c: "map_of (node_indices g) c = Some y" by blast
    with step have "(a, c) \<in> (key_deps g)\<^sup>*" "(c, b) \<in> key_deps g" by (auto simp: key_deps_def)
    then show ?case by simp
  qed
next
  assume "(a, b) \<in> (key_deps g)\<^sup>*"
  then show "(i, j) \<in> (set (edges g))\<^sup>*" using assms(3)
  proof (induction arbitrary: j)
    case base
    with assms(2) show ?case by simp
  next
    case (step y z)
    from step.hyps(2) obtain u where u: "map_of (node_indices g) y = Some u" "(u, j) \<in> set (edges g)"
      using step.prems by (auto simp: key_deps_def)
    with step.IH show ?case by (meson rtrancl.rtrancl_into_rtrancl)
  qed
qed

context petgraph_spec
begin

lemma levels_by_key:
  assumes "adigraph_inv g" and "hash_order ho"
  shows "\<exists>ls. topo_sort_by_level PG ho g = Some ls \<and> distinct (map fst (concat ls)) \<and>
    (\<forall>k v. (k, v) \<in> set (concat ls) \<longleftrightarrow> adigraph_get g k = Some v) \<and>
    (\<forall>i < length ls. \<forall>k \<in> fst ` set (ls ! i). \<forall>d. (d, k) \<in> key_deps g \<longrightarrow> (\<exists>j < i. d \<in> fst ` set (ls ! j)))"
proof -
  from topo_sort_by_level_indices[OF assms] obtain ls where
      ls: "topo_sort_by_level PG ho g = Some (map (map (entry_of g)) ls)" "distinct (concat ls)"
        "set (concat ls) = {0..<length (nodes g)}" "levels_ok (set (edges g)) {} ls" by blast
  have conc: "concat (map (map (entry_of g)) ls) = map (entry_of g) (concat ls)" by (simp add: map_concat)
  have before: "\<exists>j < i. d \<in> fst ` set (map (map (entry_of g)) ls ! j)"
    if i: "i < length ls" and k: "k \<in> fst ` set (map (map (entry_of g)) ls ! i)" and dk: "(d, k) \<in> key_deps g" for i k d
  proof -
    from i k obtain x where x: "x \<in> set (ls ! i)" "fst (entry_of g x) = k" by auto
    have "x < length (nodes g)" using x(1) i ls(3) nth_mem by fastforce
    with x(2) index_has_key[OF assms(1), of x] have kx: "map_of (node_indices g) k = Some x"
      by (auto simp: entry_of_def)
    with dk obtain y where y: "map_of (node_indices g) d = Some y" "(y, x) \<in> set (edges g)"
      by (auto simp: key_deps_def)
    from levels_ok_nth[OF ls(4) i x(1) y(2)] obtain j where j: "j < i" "y \<in> set (ls ! j)" by auto
    moreover have "fst (entry_of g y) = d" using entry_of_index[OF assms(1) y(1)] by simp
    ultimately show ?thesis using i by (intro exI[of _ j]) force
  qed
  show ?thesis
    using ls(1,2,3) before distinct_entry_keys[OF assms(1) ls(2)] entry_of_get[OF assms(1) ls(3)]
    by (intro exI[of _ "map (map (entry_of g)) ls"]) (simp add: conc)
qed

lemma topo_sort_by_key:
  assumes "adigraph_inv g"
  shows "\<exists>xs. topo_sort PG g = Some xs \<and> distinct (map fst xs) \<and>
    (\<forall>k v. (k, v) \<in> set xs \<longleftrightarrow> adigraph_get g k = Some v) \<and>
    (\<forall>i j. i < length xs \<longrightarrow> j < length xs \<longrightarrow> (fst (xs ! i), fst (xs ! j)) \<in> key_deps g \<longrightarrow> i < j)"
proof -
  let ?n = "length (nodes g)"
  from toposort_acyclic[OF adigraph_invD(5)[OF assms]] obtain xs where
      xs: "toposort PG ?n (edges g) = Some xs" "mset xs = mset [0..<?n]" "topo_order (edges g) xs" by blast
  have sx: "set xs = {0..<?n}" "distinct xs"
    using mset_eq_setD[OF xs(2)] mset_eq_imp_distinct_iff[OF xs(2)] by auto
  have "map_option (\<lambda>k. (k, nodes g ! i)) (key_of g i) = Some (entry_of g i)" if "i \<in> set xs" for i
    using that sx index_has_key[OF assms, of i] by (auto simp: entry_of_def)
  then have "List.map_filter (\<lambda>i. map_option (\<lambda>k. (k, nodes g ! i)) (key_of g i)) xs = map (entry_of g) xs"
    by (rule map_filter_total)
  then have eq: "topo_sort PG g = Some (map (entry_of g) xs)" by (simp add: topo_sort_def xs(1))
  have order: "i < j" if ij: "i < length xs" "j < length xs"
      "(fst (entry_of g (xs ! i)), fst (entry_of g (xs ! j))) \<in> key_deps g" for i j
  proof -
    have idx: "map_of (node_indices g) (fst (entry_of g (xs ! l))) = Some (xs ! l)" if "l < length xs" for l
      using nth_mem[OF that] sx(1) index_has_key[OF assms, of "xs ! l"] by (auto simp: entry_of_def)
    from ij(3) have "(xs ! i, xs ! j) \<in> set (edges g)"
      using idx[OF ij(1)] idx[OF ij(2)] by (auto simp: key_deps_def)
    with xs(3) ij show ?thesis by (auto simp: topo_order_def)
  qed
  show ?thesis
    using order distinct_entry_keys[OF assms sx(2)] entry_of_get[OF assms sx(1)] sx(1)
    by (intro exI[of _ "map (entry_of g) xs"]) (simp add: eq)
qed

end

end
