(* ===== verification/DigraphSpec.thy ===== *)
theory DigraphSpec
  imports Digraph
begin

text \<open>
  The contract of \<open>AcyclicDigraphMap\<close> as its clients see it, in terms of keys, and an instance of the petgraph interface on
  edge lists, which shows that the interface can be satisfied and evaluates in the witnesses.
\<close>

section \<open>An executable instance of the petgraph interface\<close>

fun list_path :: "edge_list \<Rightarrow> nat \<Rightarrow> nat \<Rightarrow> bool" where
  "list_path [] a b = (a = b)"
| "list_path ((x, y) # es) a b = (list_path es a b \<or> (list_path es a x \<and> list_path es y b))"

lemma list_path_rtrancl: "list_path es a b \<longleftrightarrow> (a, b) \<in> (set es)\<^sup>*"
  by (induction es a b rule: list_path.induct) (auto simp: rtrancl_insert)

definition no_open_pred :: "edge_list \<Rightarrow> nat list \<Rightarrow> nat \<Rightarrow> bool" where
  "no_open_pred es open_nodes v = list_all (\<lambda>(a, b). b = v \<longrightarrow> a \<notin> set open_nodes) es"

fun list_toposort :: "nat \<Rightarrow> nat list \<Rightarrow> edge_list \<Rightarrow> nat list option" where
  "list_toposort 0 open_nodes es = (if open_nodes = [] then Some [] else None)"
| "list_toposort (Suc f) open_nodes es =
     (if open_nodes = [] then Some []
      else case List.find (no_open_pred es open_nodes) open_nodes of
             None \<Rightarrow> None
           | Some v \<Rightarrow> map_option ((#) v) (list_toposort f (remove1 v open_nodes) es))"

lemma open_pred_exists:
  assumes "acyclic (set es)" and "xs \<noteq> []"
  shows "\<exists>v. List.find (no_open_pred es xs) xs = Some v \<and> v \<in> set xs \<and> no_open_pred es xs v"
proof -
  have "wf (set es)" using assms(1) by (intro finite_acyclic_wf) auto
  from wfE_min'[OF this, of "set xs"] assms(2) obtain v where "v \<in> set xs" "\<And>u. (u, v) \<in> set es \<Longrightarrow> u \<notin> set xs"
    by auto
  then have "v \<in> set xs \<and> no_open_pred es xs v" by (auto simp: no_open_pred_def list_all_iff)
  then have "List.find (no_open_pred es xs) xs \<noteq> None" by (auto simp: find_None_iff)
  then show ?thesis by (auto simp: find_Some_iff)
qed

lemma topo_order_Cons:
  assumes "topo_order es xs" and "no_open_pred es (v # xs) v"
  shows "topo_order es (v # xs)"
proof -
  have "(u, v) \<notin> set es" if "u \<in> set (v # xs)" for u
    using assms(2) that by (auto simp: no_open_pred_def list_all_iff)
  then have "(v, v) \<notin> set es" "\<And>i. i < length xs \<Longrightarrow> (xs ! i, v) \<notin> set es" by auto
  with assms(1) show ?thesis
    by (auto simp: topo_order_def nth_Cons split: nat.splits)
qed

lemma list_toposort_correct:
  "acyclic (set es) \<Longrightarrow> length xs \<le> f \<Longrightarrow>
   \<exists>ys. list_toposort f xs es = Some ys \<and> mset ys = mset xs \<and> topo_order es ys"
proof (induction f arbitrary: xs)
  case 0
  then show ?case by (simp add: topo_order_def)
next
  case (Suc f)
  show ?case
  proof (cases "xs = []")
    case True
    then show ?thesis by (simp add: topo_order_def)
  next
    case False
    from open_pred_exists[OF Suc.prems(1) False] obtain v where
        v: "List.find (no_open_pred es xs) xs = Some v" "v \<in> set xs" "no_open_pred es xs v" by blast
    have "length (remove1 v xs) \<le> f" using Suc.prems(2) v(2) by (simp add: length_remove1)
    from Suc.IH[OF Suc.prems(1) this] obtain ys where
        ys: "list_toposort f (remove1 v xs) es = Some ys" "mset ys = mset (remove1 v xs)" "topo_order es ys"
      by blast
    have ms: "mset (v # ys) = mset xs" using ys(2) v(2) by simp
    then have "no_open_pred es (v # ys) v"
      using v(3) mset_eq_setD[OF ms] by (simp add: no_open_pred_def)
    with ys ms v False show ?thesis by (simp add: topo_order_Cons)
  qed
qed

definition list_petgraph :: petgraph where
  "list_petgraph = \<lparr>has_path_connecting = list_path,
     neighbors_out = (\<lambda>es n. map snd (filter (\<lambda>(a, _). a = n) es)),
     neighbors_in = (\<lambda>es n. map fst (filter (\<lambda>(_, b). b = n) es)),
     toposort = (\<lambda>n es. list_toposort n [0..<n] es)\<rparr>"

interpretation list_pg: petgraph_spec list_petgraph
proof unfold_locales
  fix es :: edge_list and n :: nat
  assume "acyclic (set es)"
  then show "\<exists>xs. toposort list_petgraph n es = Some xs \<and> mset xs = mset [0..<n] \<and> topo_order es xs"
    using list_toposort_correct[of es "[0..<n]" n] by (simp add: list_petgraph_def)
qed (simp_all add: list_petgraph_def list_path_rtrancl)

lemma list_petgraph_spec [simp]: "petgraph_spec list_petgraph"
  by (rule list_pg.petgraph_spec_axioms)

section \<open>Adding dependencies\<close>

lemma add_dependency_cases:
  assumes "petgraph_spec PG" and "adigraph_inv g"
  shows "add_dependency PG a b g =
     (if \<not> contains_key g a then (Inl (NodeNotFound a), g)
      else if \<not> contains_key g b then (Inl (NodeNotFound b), g)
      else if (b, a) \<in> (key_deps g)\<^sup>* then (Inl CycleDetected, g)
      else (Inr (), snd (add_dependency PG a b g)))"
proof -
  note has_path = petgraph_spec.has_path[OF assms(1)]
  show ?thesis
  proof (cases "contains_key g a \<and> contains_key g b")
    case True
    then obtain i j where ij: "map_of (node_indices g) a = Some i" "map_of (node_indices g) b = Some j"
      by (auto simp: contains_key_iff)
    then show ?thesis
      using True key_deps_path[OF assms(2) ij(2,1)]
      by (simp add: add_dependency_def get_node_index_def would_create_cycle_def has_path)
  next
    case False
    then show ?thesis
      by (auto simp: add_dependency_def get_node_index_def contains_key_def split: option.splits)
  qed
qed

lemma add_dependency_adds:
  assumes "petgraph_spec PG" and "adigraph_inv g" and "add_dependency PG a b g = (Inr (), g')"
  shows "key_deps g' = insert (a, b) (key_deps g)"
proof -
  from assms(3) obtain i j where ij: "map_of (node_indices g) a = Some i" "map_of (node_indices g) b = Some j"
      "g' = g\<lparr>edges := edges g @ [(i, j)]\<rparr>"
    unfolding petgraph_spec.add_dependency_ok[OF assms(1)] by blast
  have ia: "map_of (node_indices g) x = Some i \<longleftrightarrow> x = a" for x
    using key_of_index[OF assms(2)] ij(1) by (metis option.inject)
  have jb: "map_of (node_indices g) x = Some j \<longleftrightarrow> x = b" for x
    using key_of_index[OF assms(2)] ij(2) by (metis option.inject)
  show ?thesis by (auto simp: key_deps_def ij(3) ia jb) (simp add: ij(1,2))
qed

lemma key_deps_acyclic: "adigraph_inv g \<Longrightarrow> acyclic (key_deps g)"
proof (rule acyclicI, safe)
  fix x assume inv: "adigraph_inv g" and "(x, x) \<in> (key_deps g)\<^sup>+"
  then obtain y where y: "(x, y) \<in> key_deps g" "(y, x) \<in> (key_deps g)\<^sup>*" by (meson tranclD)
  then obtain i j where "map_of (node_indices g) x = Some i" "map_of (node_indices g) y = Some j" "(i, j) \<in> set (edges g)"
    by (auto simp: key_deps_def)
  with y(2) key_deps_path[OF inv] have "(i, i) \<in> (set (edges g))\<^sup>+" by (meson rtrancl_into_trancl2)
  with adigraph_invD(5)[OF inv] show False by (simp add: acyclic_def)
qed

section \<open>Properties\<close>

text \<open>
  C18. \<open>add_dependency\<close> on every branch: a key that is not in the graph is reported, the edge is refused exactly if the
  dependent already (transitively, or being the same node) precedes the prerequisite, the graph is unchanged on an error,
  and otherwise exactly the new dependency is added; the graph stays acyclic and well-formed in all cases.
\<close>

theorem add_dependency_correct:
  assumes "petgraph_spec PG" and "adigraph_inv g"
  shows "(case add_dependency PG a b g of
            (Inr _, g') \<Rightarrow> contains_key g a \<and> contains_key g b \<and> (b, a) \<notin> (key_deps g)\<^sup>* \<and>
                         key_deps g' = insert (a, b) (key_deps g) \<and> acyclic (key_deps g') \<and> adigraph_inv g'
          | (Inl (NodeNotFound k), g') \<Rightarrow> \<not> contains_key g k \<and> k \<in> {a, b} \<and> g' = g
          | (Inl CycleDetected, g') \<Rightarrow> contains_key g a \<and> contains_key g b \<and> (b, a) \<in> (key_deps g)\<^sup>* \<and> g' = g
          | (Inl (DuplicateKey _), _) \<Rightarrow> False)"
proof -
  have inv: "adigraph_inv (snd (add_dependency PG a b g))"
    by (rule petgraph_spec.adigraph_inv_add_dependency[OF assms])
  show ?thesis
    using add_dependency_cases[OF assms, of a b] inv key_deps_acyclic[OF inv]
      add_dependency_adds[OF assms, of a b "snd (add_dependency PG a b g)"]
    by (auto split: if_splits prod.splits sum.splits)
qed

definition two_nodes :: "(nat, nat) adigraph" where
  "two_nodes = snd (add_node 2 20 (snd (add_node 1 10 adigraph_new)))"

lemma two_nodes_inv: "adigraph_inv two_nodes"
  unfolding two_nodes_def by (intro inv_intros)

theorem add_dependency_correct_witness:
  "(case add_dependency list_petgraph 1 2 two_nodes of
      (Inr _, g') \<Rightarrow> key_deps g' = insert (1, 2) (key_deps two_nodes) \<and> acyclic (key_deps g')
    | _ \<Rightarrow> False)"
proof -
  have eq: "add_dependency list_petgraph 1 2 two_nodes = (Inr (), two_nodes\<lparr>edges := [(0, 1)]\<rparr>)"
    by (simp add: two_nodes_def add_node_def adigraph_new_def contains_key_def al_insert_def Let_def
        add_dependency_def get_node_index_def would_create_cycle_def list_petgraph_def)
  show ?thesis
    using add_dependency_correct[OF list_petgraph_spec two_nodes_inv, of 1 2]
    unfolding eq prod.case sum.case by blast
qed

text \<open>
  C19. \<open>topo_sort_by_level\<close> never panics on a well-formed graph, whatever order its hash maps iterate in: the levels together hold
  every key exactly once, with its value, and every prerequisite of a key of level \<open>i\<close> is on a level before \<open>i\<close>.
\<close>

theorem levels_respect_dependencies:
  assumes "petgraph_spec PG" and "adigraph_inv g" and "hash_order ho"
  shows "\<exists>ls. topo_sort_by_level PG ho g = Some ls \<and> distinct (map fst (concat ls)) \<and>
    (\<forall>k v. (k, v) \<in> set (concat ls) \<longleftrightarrow> adigraph_get g k = Some v) \<and>
    (\<forall>i < length ls. \<forall>k \<in> fst ` set (ls ! i). \<forall>d. (d, k) \<in> key_deps g \<longrightarrow> (\<exists>j < i. d \<in> fst ` set (ls ! j)))"
  by (rule petgraph_spec.levels_by_key[OF assms])

theorem levels_respect_dependencies_witness:
  "\<exists>ls. topo_sort_by_level list_petgraph rev two_nodes = Some ls \<and> (1, 10) \<in> set (concat ls)"
proof -
  have "adigraph_get two_nodes 1 = Some 10"
    by (simp add: two_nodes_def add_node_def adigraph_new_def contains_key_def al_insert_def Let_def adigraph_get_def)
  with levels_respect_dependencies[OF list_petgraph_spec two_nodes_inv hash_order_id(2)] show ?thesis by blast
qed

text \<open>
  \<open>topo_sort\<close> never panics on a well-formed graph and lists every key once, with its value, each prerequisite before its
  dependents.
\<close>

theorem topo_sort_correct:
  assumes "petgraph_spec PG" and "adigraph_inv g"
  shows "\<exists>xs. topo_sort PG g = Some xs \<and> distinct (map fst xs) \<and>
    (\<forall>k v. (k, v) \<in> set xs \<longleftrightarrow> adigraph_get g k = Some v) \<and>
    (\<forall>i j. i < length xs \<longrightarrow> j < length xs \<longrightarrow> (fst (xs ! i), fst (xs ! j)) \<in> key_deps g \<longrightarrow> i < j)"
  by (rule petgraph_spec.topo_sort_by_key[OF assms])

theorem topo_sort_correct_witness:
  "\<exists>xs. topo_sort list_petgraph two_nodes = Some xs \<and> distinct (map fst xs)"
  using topo_sort_correct[OF list_petgraph_spec two_nodes_inv] by blast

end
