(* ===== verification/TaskNetwork.thy ===== *)
theory TaskNetwork
  imports DigraphSpec
begin

text \<open>
  \<open>TaskNetwork\<close> of \<open>crates/task-network/src/lib.rs\<close>: tasks with dependencies between them, run level by level with a bound on
  the tasks that run at once.

  The state is the digraph of the tasks, the dependencies that wait for a prerequisite task which has not been added yet
  (\<open>pending_dependents\<close>), and the number of permits of the semaphore. A \<open>HashSet\<close> is a list without duplicates whose iteration
  order is the parameter \<open>ho\<close>.
\<close>

section \<open>State and operations\<close>

text \<open>A \<open>Box<dyn Error>\<close> can only be printed: it is the message it displays.\<close>

type_synonym boxed_error = string

datatype 'k task_network_error =
  GraphError "'k adigraph_error"
| SemaphoreError
| JoinError
| TaskError boxed_error

record ('k, 't) task_network =
  tasks :: "('k, 't) adigraph"
  pending_dependents :: "('k \<times> 'k list) list"
  max_concurrent_tasks :: nat

definition network_new :: "nat \<Rightarrow> ('k, 't) task_network" where
  "network_new n = \<lparr>tasks = adigraph_new, pending_dependents = [], max_concurrent_tasks = n\<rparr>"

text \<open>An operation of the graph, its error wrapped by \<open>map_err(TaskNetworkError::GraphError)\<close>.\<close>

definition on_tasks ::
  "(('k, 't) adigraph, 'k adigraph_error, 'a) stateful \<Rightarrow>
   (('k, 't) task_network, 'k task_network_error, 'a) stateful" where
  "on_tasks m n =
     (case m (tasks n) of
        (Inl e, g) \<Rightarrow> (Inl (GraphError e), n\<lparr>tasks := g\<rparr>)
      | (Inr a, g) \<Rightarrow> (Inr a, n\<lparr>tasks := g\<rparr>))"

definition network_add_dependency ::
  "petgraph \<Rightarrow> 'k \<Rightarrow> 'k \<Rightarrow> (('k, 't) task_network, 'k task_network_error, unit) stateful" where
  "network_add_dependency PG f t = on_tasks (add_dependency PG f t)"

definition hash_set_insert :: "'a \<Rightarrow> 'a list \<Rightarrow> 'a list" where
  "hash_set_insert x xs = (if x \<in> set xs then xs else xs @ [x])"

definition add_dependency_or_defer ::
  "petgraph \<Rightarrow> 'k \<Rightarrow> 'k \<Rightarrow> (('k, 't) task_network, 'k task_network_error, unit) stateful" where
  "add_dependency_or_defer PG f t n =
     (if contains_key (tasks n) f then network_add_dependency PG f t n
      else (Inr (), n\<lparr>pending_dependents := al_upsert f (hash_set_insert t) [t] (pending_dependents n)\<rparr>))"

definition add_dependencies ::
  "petgraph \<Rightarrow> 'k \<Rightarrow> 'k list \<Rightarrow> (('k, 't) task_network, 'k task_network_error, unit) stateful" where
  "add_dependencies PG task_id deps = for_each (\<lambda>d. add_dependency_or_defer PG d task_id) deps"

definition resolve_body ::
  "petgraph \<Rightarrow> 'k \<Rightarrow> 'k \<Rightarrow> (('k, 't) task_network, 'k task_network_error, unit) stateful" where
  "resolve_body PG task_id dependent n =
     (if contains_key (tasks n) dependent then network_add_dependency PG task_id dependent n else (Inr (), n))"

definition resolve_pending_dependents ::
  "petgraph \<Rightarrow> ('k list \<Rightarrow> 'k list) \<Rightarrow> 'k \<Rightarrow>
   (('k, 't) task_network, 'k task_network_error, unit) stateful" where
  "resolve_pending_dependents PG ho task_id n =
     (case map_of (pending_dependents n) task_id of
        None \<Rightarrow> (Inr (), n)
      | Some dependents \<Rightarrow>
          for_each (resolve_body PG task_id) (ho dependents)
            (n\<lparr>pending_dependents := al_remove task_id (pending_dependents n)\<rparr>))"

definition add_task_with_dependencies ::
  "petgraph \<Rightarrow> ('k list \<Rightarrow> 'k list) \<Rightarrow> 'k \<Rightarrow> 't \<Rightarrow> 'k list \<Rightarrow>
   (('k, 't) task_network, 'k task_network_error, unit) stateful" where
  "add_task_with_dependencies PG ho task_id task deps =
     and_then (on_tasks (add_node task_id task))
       (\<lambda>_. and_then (resolve_pending_dependents PG ho task_id)
         (\<lambda>_. add_dependencies PG task_id deps))"

definition add_task ::
  "petgraph \<Rightarrow> ('k list \<Rightarrow> 'k list) \<Rightarrow> 'k \<Rightarrow> 't \<Rightarrow>
   (('k, 't) task_network, 'k task_network_error, unit) stateful" where
  "add_task PG ho task_id task = add_task_with_dependencies PG ho task_id task []"

definition network_is_empty :: "('k, 't) task_network \<Rightarrow> bool" where
  "network_is_empty n = adigraph_is_empty (tasks n)"

definition network_len :: "('k, 't) task_network \<Rightarrow> nat" where
  "network_len n = adigraph_len (tasks n)"

definition network_modify :: "'k \<Rightarrow> ('t \<Rightarrow> 't) \<Rightarrow> ('k, 't) task_network \<Rightarrow> ('k, 't) task_network" where
  "network_modify k f n = n\<lparr>tasks := adigraph_modify k f (tasks n)\<rparr>"

definition network_clear :: "('k, 't) task_network \<Rightarrow> ('k, 't) task_network" where
  "network_clear n = n\<lparr>tasks := adigraph_clear (tasks n), pending_dependents := []\<rparr>"

section \<open>Well-formed networks\<close>

text \<open>A deferred dependency waits for a task that is not in the network.\<close>

definition pending_ok :: "('k, 't) task_network \<Rightarrow> bool" where
  "pending_ok n \<longleftrightarrow> al_ok (pending_dependents n) \<and>
     (\<forall>k. contains_key (tasks n) k \<longrightarrow> map_of (pending_dependents n) k = None)"

definition network_inv :: "('k, 't) task_network \<Rightarrow> bool" where
  "network_inv n \<longleftrightarrow> adigraph_inv (tasks n) \<and> pending_ok n"

text \<open>The dependency of \<open>t\<close> on \<open>d\<close> is known to the network: as an edge, or waiting for \<open>d\<close>.\<close>

definition declared :: "('k, 't) task_network \<Rightarrow> 'k \<Rightarrow> 'k \<Rightarrow> bool" where
  "declared n d t \<longleftrightarrow> (d, t) \<in> key_deps (tasks n) \<or>
     (\<exists>ts. map_of (pending_dependents n) d = Some ts \<and> t \<in> set ts)"

lemma hash_set_insert_set [simp]: "set (hash_set_insert x xs) = insert x (set xs)"
  by (auto simp: hash_set_insert_def)

lemma add_dependency_indices [simp]: "node_indices (snd (add_dependency PG a b g)) = node_indices g"
  by (auto simp: add_dependency_def split: sum.splits)

lemma add_dependency_nodes: "nodes (snd (add_dependency PG a b g)) = nodes g"
  by (auto simp: add_dependency_def split: sum.splits)

lemma add_dependency_mono: "key_deps g \<subseteq> key_deps (snd (add_dependency PG a b g))"
  by (auto simp: key_deps_def add_dependency_def split: sum.splits)

lemma add_dependency_edge: "add_dependency PG a b g = (Inr (), g') \<Longrightarrow> (a, b) \<in> key_deps g'"
  by (auto simp: key_deps_def add_dependency_def get_node_index_def split: sum.splits option.splits if_splits)

lemma network_add_dependency_state [simp]:
  "snd (network_add_dependency PG a b n) = n\<lparr>tasks := snd (add_dependency PG a b (tasks n))\<rparr>"
  by (auto simp: network_add_dependency_def on_tasks_def split: prod.splits sum.splits)

lemma network_add_dependency_ok:
  "network_add_dependency PG a b n = (Inr (), n') \<Longrightarrow> (a, b) \<in> key_deps (tasks n')"
  by (auto simp: network_add_dependency_def on_tasks_def add_dependency_edge split: prod.splits sum.splits)

lemma contains_key_add_dependency [simp]:
  "contains_key (snd (add_dependency PG a b g)) k = contains_key g k"
  by (simp add: contains_key_def)

lemma resolve_body_state:
  "snd (resolve_body PG k t n) =
     (if contains_key (tasks n) t then n\<lparr>tasks := snd (add_dependency PG k t (tasks n))\<rparr> else n)"
  by (simp add: resolve_body_def)

lemma defer_body_state:
  "snd (add_dependency_or_defer PG d t n) =
     (if contains_key (tasks n) d then n\<lparr>tasks := snd (add_dependency PG d t (tasks n))\<rparr>
      else n\<lparr>pending_dependents := al_upsert d (hash_set_insert t) [t] (pending_dependents n)\<rparr>)"
  by (simp add: add_dependency_or_defer_def)

text \<open>The two loops of the component, as instances of the loop contracts.\<close>

interpretation defer_loop: loop_progress
  "\<lambda>d. add_dependency_or_defer PG d t" "\<lambda>n. pending_ok n" "\<lambda>d n. declared n d t" for PG t
proof unfold_locales
  fix s :: "('a, 'b) task_network" and x y and s' :: "('a, 'b) task_network"
  assume inv: "pending_ok s"
  then show "pending_ok (snd (add_dependency_or_defer PG x t s))"
    by (auto simp: defer_body_state pending_ok_def)
  show "declared s' x t" if "add_dependency_or_defer PG x t s = (Inr (), s')"
    using that by (auto simp: add_dependency_or_defer_def declared_def network_add_dependency_ok
        split: if_splits option.splits)
  show "declared (snd (add_dependency_or_defer PG x t s)) y t" if "declared s y t"
    using that add_dependency_mono by (fastforce simp: defer_body_state declared_def split: option.splits)
qed

interpretation resolve_loop: loop_progress
  "resolve_body PG k" "\<lambda>n. pending_ok n" "\<lambda>t n. contains_key (tasks n) t \<longrightarrow> (k, t) \<in> key_deps (tasks n)" for PG k
proof unfold_locales
  fix s :: "('a, 'b) task_network" and x y and s' :: "('a, 'b) task_network"
  assume inv: "pending_ok s"
  show "pending_ok (snd (resolve_body PG k x s))"
    using inv by (auto simp: resolve_body_state pending_ok_def)
  show "contains_key (tasks s') x \<longrightarrow> (k, x) \<in> key_deps (tasks s')" if "resolve_body PG k x s = (Inr (), s')"
    using that by (auto simp: resolve_body_def network_add_dependency_ok split: if_splits)
  show "contains_key (tasks (snd (resolve_body PG k x s))) y \<longrightarrow> (k, y) \<in> key_deps (tasks (snd (resolve_body PG k x s)))"
    if "contains_key (tasks s) y \<longrightarrow> (k, y) \<in> key_deps (tasks s)"
    using that add_dependency_mono[of "tasks s" PG k x] by (auto simp: resolve_body_state)
qed


text \<open>Neither loop touches the tasks themselves, and neither forgets a dependency.\<close>

interpretation defer_frame: loop_invariant
  "\<lambda>d. add_dependency_or_defer PG d t"
  "\<lambda>n. nodes (tasks n) = vs \<and> node_indices (tasks n) = ix \<and> max_concurrent_tasks n = m" for PG t vs ix m
  by unfold_locales (auto simp: defer_body_state add_dependency_nodes)

interpretation resolve_frame: loop_invariant
  "resolve_body PG k"
  "\<lambda>n. nodes (tasks n) = vs \<and> node_indices (tasks n) = ix \<and> max_concurrent_tasks n = m" for PG k vs ix m
  by unfold_locales (auto simp: resolve_body_state add_dependency_nodes)

interpretation defer_declared: loop_invariant
  "\<lambda>d. add_dependency_or_defer PG d t" "\<lambda>n. declared n d' t'" for PG t d' t'
proof unfold_locales
  fix s :: "('a, 'b) task_network" and x
  assume "declared s d' t'"
  then show "declared (snd (add_dependency_or_defer PG x t s)) d' t'"
    using add_dependency_mono by (fastforce simp: defer_body_state declared_def split: option.splits)
qed

interpretation resolve_declared: loop_invariant
  "resolve_body PG k" "\<lambda>n. declared n d' t'" for PG k d' t'
proof unfold_locales
  fix s :: "('a, 'b) task_network" and x
  assume "declared s d' t'"
  then show "declared (snd (resolve_body PG k x s)) d' t'"
    using add_dependency_mono by (fastforce simp: resolve_body_state declared_def)
qed

sublocale petgraph_spec \<subseteq> defer_inv: loop_invariant "\<lambda>d. add_dependency_or_defer PG d t" network_inv for t
proof unfold_locales
  fix s :: "('a, 'b) task_network" and x
  assume inv: "network_inv s"
  then have "pending_ok (snd (add_dependency_or_defer PG x t s))"
    by (intro defer_loop.body_inv) (simp add: network_inv_def)
  with inv show "network_inv (snd (add_dependency_or_defer PG x t s))"
    by (auto simp: network_inv_def defer_body_state adigraph_inv_add_dependency)
qed

sublocale petgraph_spec \<subseteq> resolve_inv: loop_invariant "resolve_body PG k" network_inv for k
proof unfold_locales
  fix s :: "('a, 'b) task_network" and x
  assume inv: "network_inv s"
  then have "pending_ok (snd (resolve_body PG k x s))"
    by (intro resolve_loop.body_inv) (simp add: network_inv_def)
  with inv show "network_inv (snd (resolve_body PG k x s))"
    by (auto simp: network_inv_def resolve_body_state adigraph_inv_add_dependency)
qed

section \<open>Adding a task\<close>

text \<open>The network between \<open>add_node\<close> and the loop over the dependents that waited for the new task.\<close>

definition inserted :: "'k \<Rightarrow> 't \<Rightarrow> ('k, 't) task_network \<Rightarrow> ('k, 't) task_network" where
  "inserted k v n = n\<lparr>tasks := snd (add_node k v (tasks n)),
     pending_dependents := al_remove k (pending_dependents n)\<rparr>"

definition waiting_for :: "('k, 't) task_network \<Rightarrow> 'k \<Rightarrow> 'k list" where
  "waiting_for n k = (case map_of (pending_dependents n) k of None \<Rightarrow> [] | Some ts \<Rightarrow> ts)"

lemma al_remove_absent: "map_of m k = None \<Longrightarrow> al_remove k m = m"
  by (induction m) (auto simp: al_remove_def split: if_splits)

lemma add_task_unfold:
  assumes "hash_order ho"
  shows "add_task_with_dependencies PG ho k v deps n =
    (if contains_key (tasks n) k then (Inl (GraphError (DuplicateKey k)), n)
     else and_then (for_each (resolve_body PG k) (ho (waiting_for n k)))
            (\<lambda>_. add_dependencies PG k deps) (inserted k v n))"
proof -
  have "mset (ho []) = {#}" using assms by (simp only: hash_order_def mset.simps)
  then have "ho [] = []" by simp
  then show ?thesis
    by (auto simp: add_task_with_dependencies_def and_then_def on_tasks_def add_node_def Let_def
        resolve_pending_dependents_def inserted_def waiting_for_def al_remove_absent split: option.split)
qed

lemma and_then_ok: "and_then m f s = (Inr b, s'') \<longleftrightarrow> (\<exists>a s'. m s = (Inr a, s') \<and> f a s' = (Inr b, s''))"
  by (auto simp: and_then_def split: prod.splits sum.splits)

lemma snd_and_then:
  "snd (and_then m f s) = snd (m s) \<or> (\<exists>a s'. m s = (Inr a, s') \<and> snd (and_then m f s) = snd (f a s'))"
  by (auto simp: and_then_def split: prod.splits sum.splits)

lemma contains_key_add_node: "contains_key (snd (add_node k v g)) k' \<longleftrightarrow> k' = k \<or> contains_key g k'"
  by (auto simp: add_node_def contains_key_def Let_def)

lemma inserted_inv: "network_inv n \<Longrightarrow> network_inv (inserted k v n)"
  by (auto simp: network_inv_def inserted_def pending_ok_def adigraph_inv_add_node contains_key_add_node)

lemma add_node_key_deps: "\<not> contains_key g k \<Longrightarrow> key_deps g \<subseteq> key_deps (snd (add_node k v g))"
  by (auto simp: key_deps_def add_node_def Let_def contains_key_def)

lemma inserted_declared:
  "\<not> contains_key (tasks n) k \<Longrightarrow> declared n d t \<Longrightarrow> d \<noteq> k \<Longrightarrow> declared (inserted k v n) d t"
  using add_node_key_deps by (fastforce simp: declared_def inserted_def)

lemma adigraph_get_add_node:
  assumes "adigraph_inv g" and "\<not> contains_key g k"
  shows "adigraph_get (snd (add_node k v g)) k' = (if k' = k then Some v else adigraph_get g k')"
  using assms index_in_range[OF assms(1), of k']
  by (cases "map_of (node_indices g) k'") (auto simp: adigraph_get_def add_node_def Let_def nth_append)

lemma adigraph_get_cong:
  "nodes g = nodes g' \<Longrightarrow> node_indices g = node_indices g' \<Longrightarrow> adigraph_get g = adigraph_get g'"
  by (simp add: adigraph_get_def fun_eq_iff)


text \<open>The tasks after \<open>add_task_with_dependencies\<close>, whether it succeeds or not: the new task is there with its data, and no
  other task has changed.\<close>

lemma add_dependencies_tasks:
  "nodes (tasks (snd (add_dependencies PG k deps n))) = nodes (tasks n)" (is ?A)
  "node_indices (tasks (snd (add_dependencies PG k deps n))) = node_indices (tasks n)" (is ?B)
  "max_concurrent_tasks (snd (add_dependencies PG k deps n)) = max_concurrent_tasks n" (is ?C)
proof -
  have "?A \<and> ?B \<and> ?C"
    unfolding add_dependencies_def by (rule defer_frame.for_each_inv) simp
  then show ?A ?B ?C by blast+
qed

lemma resolve_tasks:
  "nodes (tasks (snd (for_each (resolve_body PG k) ts n))) = nodes (tasks n)" (is ?A)
  "node_indices (tasks (snd (for_each (resolve_body PG k) ts n))) = node_indices (tasks n)" (is ?B)
  "max_concurrent_tasks (snd (for_each (resolve_body PG k) ts n)) = max_concurrent_tasks n" (is ?C)
proof -
  have "?A \<and> ?B \<and> ?C" by (rule resolve_frame.for_each_inv) simp
  then show ?A ?B ?C by blast+
qed

lemma add_task_tasks:
  assumes "hash_order ho" and "\<not> contains_key (tasks n) k"
  shows "nodes (tasks (snd (add_task_with_dependencies PG ho k v deps n))) = nodes (tasks (inserted k v n)) \<and>
    node_indices (tasks (snd (add_task_with_dependencies PG ho k v deps n))) = node_indices (tasks (inserted k v n)) \<and>
    max_concurrent_tasks (snd (add_task_with_dependencies PG ho k v deps n)) = max_concurrent_tasks n"
proof -
  obtain r m where m: "for_each (resolve_body PG k) (ho (waiting_for n k)) (inserted k v n) = (r, m)"
    by fastforce
  have "nodes (tasks m) = nodes (tasks (inserted k v n))" "node_indices (tasks m) = node_indices (tasks (inserted k v n))"
    "max_concurrent_tasks m = max_concurrent_tasks n"
    using resolve_tasks[of PG k "ho (waiting_for n k)" "inserted k v n", unfolded m snd_conv] by (simp_all add: inserted_def)
  then show ?thesis
    using assms(2) m by (simp add: add_task_unfold[OF assms(1)] and_then_def add_dependencies_tasks split: sum.split)
qed

lemma add_task_get:
  assumes "hash_order ho" and "network_inv n" and "\<not> contains_key (tasks n) k"
  shows "adigraph_get (tasks (snd (add_task_with_dependencies PG ho k v deps n))) k' =
    (if k' = k then Some v else adigraph_get (tasks n) k')"
proof -
  have "adigraph_get (tasks (snd (add_task_with_dependencies PG ho k v deps n))) = adigraph_get (tasks (inserted k v n))"
    by (rule adigraph_get_cong) (simp_all add: add_task_tasks[OF assms(1,3)])
  with assms(2,3) show ?thesis by (simp add: inserted_def adigraph_get_add_node network_inv_def)
qed

context petgraph_spec
begin

lemma network_inv_add_task:
  assumes "network_inv n" and "hash_order ho"
  shows "network_inv (snd (add_task_with_dependencies PG ho k v deps n))"
proof -
  have 1: "network_inv (snd (for_each (resolve_body PG k) ts (inserted k v n)))" for ts
    by (rule resolve_inv.for_each_inv[OF inserted_inv[OF assms(1)]])
  have 2: "network_inv m \<Longrightarrow> network_inv (snd (add_dependencies PG k deps m))" for m
    unfolding add_dependencies_def by (rule defer_inv.for_each_inv)
  show ?thesis
    using assms(1) 1[of "ho (waiting_for n k)"]
    by (auto simp: add_task_unfold[OF assms(2)] and_then_def 2 split: prod.splits sum.splits)
qed

lemma network_inv_add_dependencies: "network_inv n \<Longrightarrow> network_inv (snd (add_dependencies PG k deps n))"
  unfolding add_dependencies_def by (rule defer_inv.for_each_inv)

end

lemma declared_edge: "network_inv n \<Longrightarrow> contains_key (tasks n) d \<Longrightarrow> declared n d t \<longleftrightarrow> (d, t) \<in> key_deps (tasks n)"
  by (auto simp: declared_def network_inv_def pending_ok_def)

lemma add_task_effect:
  assumes "petgraph_spec PG" and "hash_order ho" and "network_inv n"
    and "add_task_with_dependencies PG ho k v deps n = (Inr (), n')"
  shows "network_inv n' \<and> acyclic (key_deps (tasks n')) \<and> adigraph_get (tasks n') k = Some v \<and>
    (\<forall>d \<in> set deps. if contains_key (tasks n') d then (d, k) \<in> key_deps (tasks n') else declared n' d k) \<and>
    (\<forall>t. declared n k t \<longrightarrow> contains_key (tasks n) t \<longrightarrow> (k, t) \<in> key_deps (tasks n')) \<and>
    (\<forall>d t. declared n d t \<longrightarrow> d \<noteq> k \<longrightarrow> declared n' d t)"
proof -
  let ?m = "inserted k v n"
  have fresh: "\<not> contains_key (tasks n) k"
    using assms(4) by (auto simp: add_task_unfold[OF assms(2)] split: if_splits)
  from assms(4) fresh obtain m where m: "for_each (resolve_body PG k) (ho (waiting_for n k)) ?m = (Inr (), m)"
      "for_each (\<lambda>d. add_dependency_or_defer PG d k) deps m = (Inr (), n')"
    by (auto simp: add_task_unfold[OF assms(2)] and_then_ok add_dependencies_def)
  have pm: "pending_ok ?m" "pending_ok m"
    using inserted_inv[OF assms(3), of k v] resolve_loop.for_each_inv[of ?m PG k "ho (waiting_for n k)"] m(1)
    by (simp_all add: network_inv_def)
  have inv: "network_inv n'"
    using petgraph_spec.network_inv_add_task[OF assms(1,3,2), of k v deps] assms(4) by simp
  have later: "declared m d t \<Longrightarrow> declared n' d t" for d t
    using defer_declared.for_each_inv[of m d t PG k deps] m(2) by simp
  have new: "\<forall>d \<in> set deps. declared n' d k" using defer_loop.for_each_post[OF pm(2) m(2)] by blast
  have old: "declared n d t \<longrightarrow> d \<noteq> k \<longrightarrow> declared n' d t" for d t
    using inserted_declared[OF fresh, of d t v] resolve_declared.for_each_inv[of ?m d t PG k "ho (waiting_for n k)"] m(1) later
    by simp
  have keys: "contains_key (tasks n') = contains_key (tasks ?m)" "contains_key (tasks m) = contains_key (tasks ?m)"
    using add_dependencies_tasks(2)[of PG k deps m] resolve_tasks(2)[of PG k "ho (waiting_for n k)" ?m] m
    by (simp_all add: fun_eq_iff contains_key_def add_dependencies_def)
  have kin: "contains_key (tasks n') k" by (simp add: keys inserted_def contains_key_add_node)
  have woken: "declared n k t \<longrightarrow> contains_key (tasks n) t \<longrightarrow> (k, t) \<in> key_deps (tasks n')" for t
  proof (intro impI)
    assume d: "declared n k t" and c: "contains_key (tasks n) t"
    have "(k, t) \<notin> key_deps (tasks n)" using fresh by (auto simp: key_deps_def contains_key_def)
    with d have "t \<in> set (waiting_for n k)" by (auto simp: declared_def waiting_for_def)
    moreover have "set (ho (waiting_for n k)) = set (waiting_for n k)"
      using assms(2) by (metis hash_order_def set_mset_mset)
    ultimately have "contains_key (tasks m) t \<longrightarrow> (k, t) \<in> key_deps (tasks m)"
      using resolve_loop.for_each_post[OF pm(1) m(1)] by blast
    with c have "declared m k t" by (simp add: keys inserted_def contains_key_add_node declared_def)
    then show "(k, t) \<in> key_deps (tasks n')" using later declared_edge[OF inv kin] by blast
  qed
  have get: "adigraph_get (tasks n') k = Some v"
    using add_task_get[OF assms(2,3) fresh, of PG v deps k] assms(4) by simp
  have acyc: "acyclic (key_deps (tasks n'))" using inv by (simp add: network_inv_def key_deps_acyclic)
  from inv acyc get new old woken show ?thesis using declared_edge[OF inv] by auto
qed

text \<open>
  C20. A successful \<open>add_task_with_dependencies\<close> keeps the network well-formed and acyclic and forgets no dependency: those of the
  new task are edges, or wait for a task that is still missing; every dependency that waited for the new task, of a task that
  is in the network, has become an edge; all others are kept.
\<close>

theorem add_task_declares:
  assumes "petgraph_spec PG" and "hash_order ho" and "network_inv n"
    and "add_task_with_dependencies PG ho k v deps n = (Inr (), n')"
  shows "network_inv n' \<and> acyclic (key_deps (tasks n')) \<and> adigraph_get (tasks n') k = Some v \<and>
    (\<forall>d \<in> set deps. if contains_key (tasks n') d then (d, k) \<in> key_deps (tasks n') else declared n' d k) \<and>
    (\<forall>t. declared n k t \<longrightarrow> contains_key (tasks n) t \<longrightarrow> (k, t) \<in> key_deps (tasks n')) \<and>
    (\<forall>d t. declared n d t \<longrightarrow> d \<noteq> k \<longrightarrow> declared n' d t)"
  using assms by (rule add_task_effect)

definition late_network :: "(nat, nat) task_network" where
  "late_network = snd (add_task_with_dependencies list_petgraph (\<lambda>xs. xs) 1 10 [9] (network_new 4))"

lemma network_inv_new [simp]: "network_inv (network_new m)"
  by (simp add: network_inv_def network_new_def pending_ok_def)

lemma late_network_inv: "network_inv late_network"
  unfolding late_network_def by (rule petgraph_spec.network_inv_add_task) simp_all

lemma late_network_eq:
  "late_network = \<lparr>tasks = \<lparr>nodes = [10], edges = [], node_indices = [(1, 0)]\<rparr>,
     pending_dependents = [(9, [1])], max_concurrent_tasks = 4\<rparr>"
  by (simp add: late_network_def add_task_unfold network_new_def adigraph_new_def contains_key_def waiting_for_def
      inserted_def add_node_def Let_def al_insert_def al_remove_def and_then_def add_dependencies_def
      add_dependency_or_defer_def)

text \<open>Task 1 waits for task 9, which is added later (the test \<open>test_late_dependency_becomes_active\<close>).\<close>

theorem add_task_declares_witness:
  "\<exists>n'. add_task_with_dependencies list_petgraph (\<lambda>xs. xs) 9 90 [] late_network = (Inr (), n') \<and>
     (9, 1) \<in> key_deps (tasks n')"
proof -
  have "\<exists>n'. add_task_with_dependencies list_petgraph (\<lambda>xs. xs) 9 90 [] late_network = (Inr (), n')"
    by (simp add: add_task_unfold late_network_eq contains_key_def waiting_for_def inserted_def add_node_def Let_def
        al_insert_def al_remove_def and_then_def add_dependencies_def resolve_body_def network_add_dependency_def
        on_tasks_def add_dependency_def get_node_index_def would_create_cycle_def list_petgraph_def)
  moreover have "declared late_network 9 1" "contains_key (tasks late_network) 1"
    by (simp_all add: declared_def late_network_eq contains_key_def)
  ultimately show ?thesis
    using add_task_declares[OF list_petgraph_spec hash_order_id(1) late_network_inv, of 9 90 "[]"] by blast
qed

end
