(* ===== verification/TaskRun.thy ===== *)
theory TaskRun
  imports TaskNetwork
begin

text \<open>
  \<open>TaskNetwork::process_tasks\<close> of \<open>crates/task-network/src/lib.rs\<close>: the levels of the network run one after another, and the tasks
  of a level run concurrently, each holding a permit of the semaphore while its handler runs.

  A handler is a state machine over a state that all tasks share (storage, caches, the network): \<open>h_step\<close> is what it does
  between two points where it may be suspended. The step relation \<open>run_step\<close> has every interleaving the runtime may choose. A
  panic of one handle makes \<open>try_join_all\<close> return at once, while the other handles go on detached.
\<close>

section \<open>Executions\<close>

datatype outcome = Done | Failed boxed_error | Panicked

record ('k, 't, 'l, 's) handler =
  h_init :: "'k \<Rightarrow> 't \<Rightarrow> 'l"
  h_step :: "'k \<Rightarrow> 't \<Rightarrow> 'l \<Rightarrow> 's \<Rightarrow> ('l + outcome) \<times> 's"

datatype 'l handle = Waiting | Running 'l | Finished outcome

datatype 'k log_entry = Started 'k | Ended 'k outcome

record ('k, 't, 'l, 's) run =
  handles :: "('k \<times> 't \<times> 'l handle) list"
  next_levels :: "('k \<times> 't) list list"
  free_permits :: nat
  shared :: 's
  run_log :: "'k log_entry list"
  returned :: "('k task_network_error + unit) option"

definition spawn :: "('k \<times> 't) list \<Rightarrow> ('k \<times> 't \<times> 'l handle) list" where
  "spawn l = map (\<lambda>(k, t). (k, t, Waiting)) l"

text \<open>The loop \<open>for result in results { result?; }\<close>: the first failed task in the order of the level.\<close>

fun first_error :: "('k \<times> 't \<times> 'l handle) list \<Rightarrow> boxed_error option" where
  "first_error [] = None"
| "first_error ((_, _, Finished (Failed e)) # hs) = Some e"
| "first_error (_ # hs) = first_error hs"

definition joined :: "('k \<times> 't \<times> 'l handle) list \<Rightarrow> bool" where
  "joined hs = list_all (\<lambda>(_, _, h). case h of Finished r \<Rightarrow> r \<noteq> Panicked | _ \<Rightarrow> False) hs"

definition run_start :: "('k \<times> 't) list list \<Rightarrow> nat \<Rightarrow> 's \<Rightarrow> ('k, 't, 'l, 's) run" where
  "run_start levels permits s = \<lparr>handles = [], next_levels = levels, free_permits = permits, shared = s,
     run_log = [], returned = None\<rparr>"

inductive run_step :: "('k, 't, 'l, 's) handler \<Rightarrow> ('k, 't, 'l, 's) run \<Rightarrow> ('k, 't, 'l, 's) run \<Rightarrow> bool"
  for H :: "('k, 't, 'l, 's) handler"
where
  acquire: "i < length (handles c) \<Longrightarrow> handles c ! i = (k, t, Waiting) \<Longrightarrow> 0 < free_permits c \<Longrightarrow>
    run_step H c (c\<lparr>handles := (handles c)[i := (k, t, Running (h_init H k t))],
                    free_permits := free_permits c - 1, run_log := run_log c @ [Started k]\<rparr>)"
| act: "i < length (handles c) \<Longrightarrow> handles c ! i = (k, t, Running l) \<Longrightarrow>
    h_step H k t l (shared c) = (Inl l', s') \<Longrightarrow>
    run_step H c (c\<lparr>handles := (handles c)[i := (k, t, Running l')], shared := s'\<rparr>)"
| finish: "i < length (handles c) \<Longrightarrow> handles c ! i = (k, t, Running l) \<Longrightarrow>
    h_step H k t l (shared c) = (Inr r, s') \<Longrightarrow>
    run_step H c (c\<lparr>handles := (handles c)[i := (k, t, Finished r)], shared := s',
                    free_permits := free_permits c + 1, run_log := run_log c @ [Ended k r]\<rparr>)"
| join_error: "returned c = None \<Longrightarrow> (k, t, Finished Panicked) \<in> set (handles c) \<Longrightarrow>
    run_step H c (c\<lparr>returned := Some (Inl JoinError)\<rparr>)"
| task_error: "returned c = None \<Longrightarrow> joined (handles c) \<Longrightarrow> first_error (handles c) = Some e \<Longrightarrow>
    run_step H c (c\<lparr>returned := Some (Inl (TaskError e))\<rparr>)"
| next_level: "returned c = None \<Longrightarrow> joined (handles c) \<Longrightarrow> first_error (handles c) = None \<Longrightarrow>
    next_levels c = l # ls \<Longrightarrow>
    run_step H c (c\<lparr>handles := spawn l, next_levels := ls\<rparr>)"
| return_ok: "returned c = None \<Longrightarrow> joined (handles c) \<Longrightarrow> first_error (handles c) = None \<Longrightarrow>
    next_levels c = [] \<Longrightarrow>
    run_step H c (c\<lparr>returned := Some (Inr ())\<rparr>)"

text \<open>The whole method: an empty network returns at once; the network is cleared only after every level has succeeded.\<close>

definition process_tasks ::
  "petgraph \<Rightarrow> (nat list \<Rightarrow> nat list) \<Rightarrow> ('k, 't, 'l, 's) handler \<Rightarrow> ('k, 't) task_network \<Rightarrow> 's \<Rightarrow>
   ('k, 't, 'l, 's) run \<Rightarrow> ('k task_network_error + unit) \<Rightarrow> ('k, 't) task_network \<Rightarrow> bool" where
  "process_tasks PG ho H n s c r n' \<longleftrightarrow>
     (if network_is_empty n then c = run_start [] (max_concurrent_tasks n) s \<and> r = Inr () \<and> n' = n
      else (\<exists>levels. topo_sort_by_level PG ho (tasks n) = Some levels \<and>
              (run_step H)\<^sup>*\<^sup>* (run_start levels (max_concurrent_tasks n) s) c \<and> returned c = Some r \<and>
              n' = (case r of Inr _ \<Rightarrow> network_clear n | Inl _ \<Rightarrow> n)))"

section \<open>The invariant of a run\<close>

definition forget :: "'k \<times> 't \<times> 'l handle \<Rightarrow> 'k \<times> 't" where
  "forget h = (fst h, fst (snd h))"

definition run_keys :: "('k \<times> 't) list list \<Rightarrow> 'k list" where
  "run_keys ls = map fst (concat ls)"

fun handle_logged :: "'k log_entry set \<Rightarrow> 'k \<times> 't \<times> 'l handle \<Rightarrow> bool" where
  "handle_logged lg (k, t, Waiting) = (Started k \<notin> lg \<and> (\<forall>r. Ended k r \<notin> lg))"
| "handle_logged lg (k, t, Running _) = (Started k \<in> lg \<and> (\<forall>r. Ended k r \<notin> lg))"
| "handle_logged lg (k, t, Finished r) = (Started k \<in> lg \<and> (\<forall>r'. Ended k r' \<in> lg \<longleftrightarrow> r' = r))"

definition order_ok :: "('k \<times> 'k) set \<Rightarrow> 'k log_entry list \<Rightarrow> bool" where
  "order_ok D lg \<longleftrightarrow> (\<forall>i k d. i < length lg \<longrightarrow> lg ! i = Started k \<longrightarrow> (d, k) \<in> D \<longrightarrow>
      Ended d Done \<in> set (take i lg))"

definition is_running :: "'k \<times> 't \<times> 'l handle \<Rightarrow> bool" where
  "is_running h = (case snd (snd h) of Running _ \<Rightarrow> True | _ \<Rightarrow> False)"

definition levels_respect :: "('k \<times> 'k) set \<Rightarrow> ('k \<times> 't) list list \<Rightarrow> bool" where
  "levels_respect D L \<longleftrightarrow> (\<forall>i < length L. \<forall>k \<in> fst ` set (L ! i). \<forall>d. (d, k) \<in> D \<longrightarrow> (\<exists>j < i. d \<in> fst ` set (L ! j)))"

definition run_inv ::
  "('k \<times> 'k) set \<Rightarrow> ('k \<times> 't) list list \<Rightarrow> nat \<Rightarrow> ('k, 't, 'l, 's) run \<Rightarrow> bool" where
  "run_inv D L P c \<longleftrightarrow>
     (\<exists>past. past @ map forget (handles c) # next_levels c = [] # L \<and>
        (\<forall>k \<in> set (run_keys past). Started k \<in> set (run_log c) \<and> (\<forall>r. Ended k r \<in> set (run_log c) \<longleftrightarrow> r = Done))) \<and>
     (\<forall>h \<in> set (handles c). handle_logged (set (run_log c)) h) \<and>
     (\<forall>k \<in> set (run_keys (next_levels c)). Started k \<notin> set (run_log c) \<and> (\<forall>r. Ended k r \<notin> set (run_log c))) \<and>
     free_permits c + length (filter is_running (handles c)) = P \<and>
     order_ok D (run_log c) \<and> distinct (run_log c) \<and>
     (case returned c of
        None \<Rightarrow> True
      | Some (Inr _) \<Rightarrow> next_levels c = [] \<and> joined (handles c) \<and> first_error (handles c) = None
      | Some (Inl e) \<Rightarrow> (e = JoinError \<and> (\<exists>k. Ended k Panicked \<in> set (run_log c))) \<or>
                       (\<exists>k b. e = TaskError b \<and> Ended k (Failed b) \<in> set (run_log c) \<and> joined (handles c)))"


lemma forget_update: "hs ! i = (k, t, h) \<Longrightarrow> map forget (hs[i := (k, t, h')]) = map forget hs"
  by (metis forget_def fst_conv list_update_id map_update snd_conv)

lemma run_keys_append [simp]: "run_keys (a @ b) = run_keys a @ run_keys b"
  by (simp add: run_keys_def)

lemma run_keys_Cons [simp]: "run_keys (l # ls) = map fst l @ run_keys ls"
  by (simp add: run_keys_def)

lemma run_keys_Nil [simp]: "run_keys [] = []"
  by (simp add: run_keys_def)

lemma fst_forget [simp]: "fst \<circ> forget = fst" "fst (forget h) = fst h"
  by (simp_all add: forget_def fun_eq_iff)

lemma order_ok_snoc:
  "order_ok D (lg @ [x]) \<longleftrightarrow> order_ok D lg \<and> (\<forall>k d. x = Started k \<longrightarrow> (d, k) \<in> D \<longrightarrow> Ended d Done \<in> set lg)"
proof -
  have "order_ok D (lg @ [x]) \<longleftrightarrow> (\<forall>i k d. i \<le> length lg \<longrightarrow> (lg @ [x]) ! i = Started k \<longrightarrow> (d, k) \<in> D \<longrightarrow>
      Ended d Done \<in> set (take i lg))"
    by (auto simp: order_ok_def less_Suc_eq_le)
  also have "\<dots> \<longleftrightarrow> order_ok D lg \<and> (\<forall>k d. x = Started k \<longrightarrow> (d, k) \<in> D \<longrightarrow> Ended d Done \<in> set lg)"
    unfolding order_ok_def le_less by (auto simp: nth_append)
  finally show ?thesis .
qed

text \<open>A log entry about one task does not concern the others.\<close>

definition same_but :: "'k \<Rightarrow> 'k log_entry set \<Rightarrow> 'k log_entry set \<Rightarrow> bool" where
  "same_but k lg lg' \<longleftrightarrow> (\<forall>k'. k' \<noteq> k \<longrightarrow> (Started k' \<in> lg' \<longleftrightarrow> Started k' \<in> lg) \<and> (\<forall>r. Ended k' r \<in> lg' \<longleftrightarrow> Ended k' r \<in> lg))"

lemma same_but_simps [simp]:
  "same_but k lg lg" "same_but k lg (insert (Started k) lg)" "same_but k lg (insert (Ended k r) lg)"
  by (auto simp: same_but_def)

lemma handle_logged_other:
  assumes "same_but k lg lg'" and "fst h \<noteq> k"
  shows "handle_logged lg' h = handle_logged lg h"
proof (cases h)
  case (fields k' t h')
  then show ?thesis using assms by (cases h') (auto simp: same_but_def)
qed

lemma handles_update:
  assumes "distinct (map fst hs)" and "i < length hs" and "hs ! i = (k, t, hold)"
    and "\<forall>h \<in> set hs. handle_logged lg h" and "handle_logged lg' (k, t, hnew)" and "same_but k lg lg'"
  shows "\<forall>h \<in> set (hs[i := (k, t, hnew)]). handle_logged lg' h"
proof
  fix h assume "h \<in> set (hs[i := (k, t, hnew)])"
  then obtain j where j: "j < length hs" "h = hs[i := (k, t, hnew)] ! j" by (auto simp: in_set_conv_nth)
  show "handle_logged lg' h"
  proof (cases "j = i")
    case True
    then show ?thesis using j assms(2,5) by simp
  next
    case False
    then have "fst (hs ! j) \<noteq> fst (hs ! i)"
      using nth_eq_iff_index_eq[OF assms(1)] j(1) assms(2) by simp
    then show ?thesis
      using False j assms(3,4) handle_logged_other[OF assms(6), of "hs ! j"] by simp
  qed
qed

lemma run_start_inv: "run_inv D L P (run_start L P s)"
  by (auto simp: run_inv_def run_start_def order_ok_def)

text \<open>The keys of the levels that are done, of the current level and of the levels to come are apart.\<close>

lemma run_keys_apart:
  assumes "past @ map forget hs # nl = [] # L" and "distinct (run_keys L)"
  shows "distinct (map fst hs)" "set (map fst hs) \<inter> set (run_keys past) = {}"
    "set (map fst hs) \<inter> set (run_keys nl) = {}" "set (run_keys past) \<inter> set (run_keys nl) = {}"
proof -
  have "run_keys past @ map fst hs @ run_keys nl = run_keys L"
    using arg_cong[OF assms(1), of run_keys] by simp
  with assms(2) have "distinct (run_keys past @ map fst hs @ run_keys nl)" by simp
  then show "distinct (map fst hs)" "set (map fst hs) \<inter> set (run_keys past) = {}"
    "set (map fst hs) \<inter> set (run_keys nl) = {}" "set (run_keys past) \<inter> set (run_keys nl) = {}"
    by (simp_all only: distinct_append set_append) blast+
qed

lemma levels_respect_past:
  assumes "levels_respect D L" and "past @ cur # nl = [] # L" and "k \<in> fst ` set cur" and "(d, k) \<in> D"
  shows "d \<in> set (run_keys past)"
proof (cases past)
  case Nil
  with assms(2,3) show ?thesis by simp
next
  case (Cons p ps)
  with assms(2) have L: "L = ps @ cur # nl" "p = []" by auto
  have "k \<in> fst ` set (L ! length ps)" using assms(3) by (simp add: L nth_append)
  then obtain j where "j < length ps" "d \<in> fst ` set (L ! j)"
    using assms(1)[unfolded levels_respect_def, rule_format, of "length ps" k d] assms(4) by (auto simp: L)
  then have "ps ! j \<in> set ps" "d \<in> fst ` set (ps ! j)" by (simp_all add: L nth_append)
  then show ?thesis by (force simp: Cons run_keys_def)
qed


lemma not_joined: "i < length hs \<Longrightarrow> hs ! i = (k, t, h) \<Longrightarrow> (\<And>r. h \<noteq> Finished r) \<Longrightarrow> \<not> joined hs"
  by (cases h) (force simp: joined_def list_all_length)+

lemma joined_done: "joined hs \<Longrightarrow> first_error hs = None \<Longrightarrow> h \<in> set hs \<Longrightarrow> \<exists>k t. h = (k, t, Finished Done)"
  by (induction hs rule: first_error.induct) (auto simp: joined_def split: handle.splits outcome.splits)

lemma first_error_in: "first_error hs = Some e \<Longrightarrow> \<exists>k t. (k, t, Finished (Failed e)) \<in> set hs"
  by (induction hs rule: first_error.induct) auto

lemma run_invE:
  assumes "run_inv D L P c" and "distinct (run_keys L)"
  obtains past where "past @ map forget (handles c) # next_levels c = [] # L"
    "\<forall>k \<in> set (run_keys past). Started k \<in> set (run_log c) \<and> (\<forall>r. Ended k r \<in> set (run_log c) \<longleftrightarrow> r = Done)"
    "distinct (map fst (handles c))" "set (map fst (handles c)) \<inter> set (run_keys past) = {}"
    "set (map fst (handles c)) \<inter> set (run_keys (next_levels c)) = {}"
    "set (run_keys past) \<inter> set (run_keys (next_levels c)) = {}"
  using assms(1) run_keys_apart[OF _ assms(2)] unfolding run_inv_def by meson

text \<open>The steps of one task: its handle and the log change, nothing else does.\<close>

lemma run_inv_update:
  assumes inv: "run_inv D L P c" and dist: "distinct (run_keys L)"
    and i: "i < length (handles c)" "handles c ! i = (k, t, hold)" "\<And>r. hold \<noteq> Finished r"
    and c': "handles c' = (handles c)[i := (k, t, hnew)]" "next_levels c' = next_levels c" "returned c' = returned c"
    and lg: "handle_logged (set (run_log c')) (k, t, hnew)" "same_but k (set (run_log c)) (set (run_log c'))"
      "set (run_log c) \<subseteq> set (run_log c')" "order_ok D (run_log c')" "distinct (run_log c')"
    and perm: "free_permits c' + (if is_running (k, t, hnew) then 1 else 0) =
      free_permits c + (if is_running (k, t, hold) then 1 else 0)"
  shows "run_inv D L P c'"
proof -
  obtain past where past: "past @ map forget (handles c) # next_levels c = [] # L"
    "\<forall>k \<in> set (run_keys past). Started k \<in> set (run_log c) \<and> (\<forall>r. Ended k r \<in> set (run_log c) \<longleftrightarrow> r = Done)"
    "distinct (map fst (handles c))" "set (map fst (handles c)) \<inter> set (run_keys past) = {}"
    "set (map fst (handles c)) \<inter> set (run_keys (next_levels c)) = {}"
    by (rule run_invE[OF inv dist])
  have kin: "k \<in> set (map fst (handles c))" using i(1) arg_cong[OF i(2), of fst] nth_mem[OF i(1)] by (metis fst_conv image_eqI list.set_map)
  have "past @ map forget (handles c') # next_levels c' = [] # L"
    using past(1) by (simp add: c' forget_update[OF i(2)])
  moreover have "\<forall>k \<in> set (run_keys past). Started k \<in> set (run_log c') \<and> (\<forall>r. Ended k r \<in> set (run_log c') \<longleftrightarrow> r = Done)"
  proof -
    have "\<forall>k' \<in> set (run_keys past). k' \<noteq> k" using past(4) kin by blast
    then show ?thesis using past(2) lg(2) by (simp add: same_but_def)
  qed
  moreover have "\<forall>h \<in> set (handles c'). handle_logged (set (run_log c')) h"
    unfolding c' by (rule handles_update[OF past(3) i(1,2) _ lg(1,2)]) (use inv in \<open>simp add: run_inv_def\<close>)
  moreover have "\<forall>k \<in> set (run_keys (next_levels c')). Started k \<notin> set (run_log c') \<and> (\<forall>r. Ended k r \<notin> set (run_log c'))"
  proof -
    have "\<forall>k' \<in> set (run_keys (next_levels c)). k' \<noteq> k" using past(5) kin by blast
    then show ?thesis using inv lg(2) by (simp add: c'(2) run_inv_def same_but_def)
  qed
  moreover have "free_permits c' + length (filter is_running (handles c')) = P"
    using length_filter_update[OF i(1), of is_running "(k, t, hnew)"] inv perm by (simp add: c' i(2) run_inv_def)
  moreover have "\<not> joined (handles c)" using not_joined[OF i] .
  then have "case returned c' of None \<Rightarrow> True
      | Some (Inr _) \<Rightarrow> next_levels c' = [] \<and> joined (handles c') \<and> first_error (handles c') = None
      | Some (Inl e) \<Rightarrow> (e = JoinError \<and> (\<exists>k. Ended k Panicked \<in> set (run_log c'))) \<or>
                       (\<exists>k b. e = TaskError b \<and> Ended k (Failed b) \<in> set (run_log c') \<and> joined (handles c'))"
    using inv lg(3) by (auto simp: run_inv_def c'(3) split: option.splits sum.splits)
  ultimately show ?thesis using lg(4,5) unfolding run_inv_def by blast
qed

text \<open>The steps of the awaiting loop that return.\<close>

lemma run_inv_return:
  assumes "run_inv D L P c" and "returned c = None"
    and "case r of Inr _ \<Rightarrow> next_levels c = [] \<and> joined (handles c) \<and> first_error (handles c) = None
      | Inl e \<Rightarrow> (e = JoinError \<and> (\<exists>k. Ended k Panicked \<in> set (run_log c))) \<or>
               (\<exists>k b. e = TaskError b \<and> Ended k (Failed b) \<in> set (run_log c) \<and> joined (handles c))"
  shows "run_inv D L P (c\<lparr>returned := Some r\<rparr>)"
  using assms by (cases r) (simp_all add: run_inv_def)

lemma forget_spawn [simp]: "map forget (spawn l) = l"
  by (induction l) (auto simp: spawn_def forget_def)

lemma run_inv_next:
  assumes inv: "run_inv D L P c" and dist: "distinct (run_keys L)"
    and c: "returned c = None" "joined (handles c)" "first_error (handles c) = None" "next_levels c = l # ls"
  shows "run_inv D L P (c\<lparr>handles := spawn l, next_levels := ls\<rparr>)"
proof -
  obtain past where past: "past @ map forget (handles c) # next_levels c = [] # L"
    "\<forall>k \<in> set (run_keys past). Started k \<in> set (run_log c) \<and> (\<forall>r. Ended k r \<in> set (run_log c) \<longleftrightarrow> r = Done)"
    by (rule run_invE[OF inv dist])
  have dn: "\<exists>k t. h = (k, t, Finished Done)" if "h \<in> set (handles c)" for h
    by (rule joined_done[OF c(2,3) that])
  have logged: "\<forall>h \<in> set (handles c). handle_logged (set (run_log c)) h" using inv by (simp add: run_inv_def)
  have "\<forall>k \<in> set (map fst (handles c)). Started k \<in> set (run_log c) \<and> (\<forall>r. Ended k r \<in> set (run_log c) \<longleftrightarrow> r = Done)"
    using dn logged by fastforce
  with past(2) have "\<forall>k \<in> set (run_keys (past @ [map forget (handles c)])).
      Started k \<in> set (run_log c) \<and> (\<forall>r. Ended k r \<in> set (run_log c) \<longleftrightarrow> r = Done)"
    by auto
  moreover have "(past @ [map forget (handles c)]) @ map forget (spawn l) # ls = [] # L"
    using past(1) by (simp add: c(4))
  moreover have "filter is_running (spawn l) = []" "filter is_running (handles c) = []"
    using dn by (fastforce simp: spawn_def is_running_def filter_empty_conv)+
  moreover have nxt: "\<forall>k \<in> set (map fst l @ run_keys ls). Started k \<notin> set (run_log c) \<and> (\<forall>r. Ended k r \<notin> set (run_log c))"
    using inv by (simp add: run_inv_def c(4))
  then have "\<forall>h \<in> set (spawn l). handle_logged (set (run_log c)) h"
    unfolding spawn_def by (auto simp: ball_Un)
  moreover have "free_permits c + length (filter is_running (handles c)) = P" "order_ok D (run_log c)" "distinct (run_log c)"
    using inv by (simp_all add: run_inv_def)
  ultimately show ?thesis
    using nxt unfolding run_inv_def by (intro conjI exI[of _ "past @ [map forget (handles c)]"]) (simp_all add: c(1))
qed

lemma run_inv_step:
  assumes "run_step H c c'" and inv: "run_inv D L P c" and "levels_respect D L" and dist: "distinct (run_keys L)"
  shows "run_inv D L P c'"
proof -
  obtain past where past: "past @ map forget (handles c) # next_levels c = [] # L"
    "\<forall>k \<in> set (run_keys past). Started k \<in> set (run_log c) \<and> (\<forall>r. Ended k r \<in> set (run_log c) \<longleftrightarrow> r = Done)"
    by (rule run_invE[OF inv dist])
  have before: "Ended d Done \<in> set (run_log c)" if "k \<in> fst ` set (handles c)" "(d, k) \<in> D" for d k
  proof -
    have "k \<in> fst ` set (map forget (handles c))" using that(1) by force
    then show ?thesis using levels_respect_past[OF assms(3) past(1) _ that(2)] past(2) by blast
  qed
  have old: "order_ok D (run_log c)" "distinct (run_log c)" "\<forall>h \<in> set (handles c). handle_logged (set (run_log c)) h"
    using inv by (simp_all add: run_inv_def)
  from assms(1) show ?thesis
  proof cases
    case (acquire i k t)
    then have "(k, t, Waiting) \<in> set (handles c)" using nth_mem[OF acquire(2)] by simp
    then have "handle_logged (set (run_log c)) (k, t, Waiting)" "k \<in> fst ` set (handles c)"
      using old(3) by (auto intro: rev_image_eqI)
    then show ?thesis
      using acquire old before
      by (intro run_inv_update[OF inv dist acquire(2,3), where hnew = "Running (h_init H k t)"])
        (auto simp: order_ok_snoc is_running_def)
  next
    case (act i k t l l' s')
    then have "handle_logged (set (run_log c)) (k, t, Running l)" using old(3) by (metis nth_mem)
    then show ?thesis
      using act old by (intro run_inv_update[OF inv dist act(2,3), where hnew = "Running l'"]) (auto simp: is_running_def)
  next
    case (finish i k t l r s')
    then have "handle_logged (set (run_log c)) (k, t, Running l)" using old(3) by (metis nth_mem)
    then show ?thesis
      using finish old
      by (intro run_inv_update[OF inv dist finish(2,3), where hnew = "Finished r"]) (auto simp: order_ok_snoc is_running_def)
  next
    case (join_error k t)
    then have "Ended k Panicked \<in> set (run_log c)" using old(3) by fastforce
    then show ?thesis unfolding join_error(1) by (intro run_inv_return[OF inv join_error(2)]) auto
  next
    case (task_error e)
    then obtain k t where "(k, t, Finished (Failed e)) \<in> set (handles c)" using first_error_in by blast
    from bspec[OF old(3) this] have "\<exists>k. Ended k (Failed e) \<in> set (run_log c)" by auto
    then show ?thesis unfolding task_error(1) using task_error by (intro run_inv_return[OF inv task_error(2)]) auto
  next
    case (next_level l ls)
    then show ?thesis using run_inv_next[OF inv dist] by simp
  next
    case return_ok
    then show ?thesis by (simp add: run_inv_return[OF inv])
  qed
qed


lemma run_inv_reachable:
  assumes "(run_step H)\<^sup>*\<^sup>* (run_start L P s) c" and "levels_respect D L" and "distinct (run_keys L)"
  shows "run_inv D L P c"
  using assms(1)
proof (induction rule: rtranclp_induct)
  case base
  then show ?case by (rule run_start_inv)
next
  case (step c c')
  then show ?case using run_inv_step assms(2,3) by blast
qed

section \<open>Progress and termination\<close>

lemma run_progress:
  assumes inv: "run_inv D L P c" and "0 < P" and "returned c = None"
  shows "\<exists>c'. run_step H c c'"
proof (cases "\<exists>h \<in> set (handles c). is_running h")
  case True
  then obtain i k t l where i: "i < length (handles c)" "handles c ! i = (k, t, Running l)"
    by (force simp: in_set_conv_nth is_running_def split: handle.splits)
  obtain r s' where "h_step H k t l (shared c) = (r, s')" by fastforce
  then show ?thesis using run_step.act[OF i] run_step.finish[OF i] by (cases r) blast+
next
  case quiet: False
  then have permits: "0 < free_permits c" using inv assms(2) by (simp add: run_inv_def filter_False)
  show ?thesis
  proof (cases "\<exists>k t. (k, t, Waiting) \<in> set (handles c)")
    case True
    then show ?thesis using run_step.acquire[OF _ _ permits] by (metis in_set_conv_nth)
  next
    case False
    then have fin: "\<exists>k t r. h = (k, t, Finished r)" if "h \<in> set (handles c)" for h
      using quiet that by (cases h; cases "snd (snd h)") (auto simp: is_running_def)
    show ?thesis
    proof (cases "\<exists>k t. (k, t, Finished Panicked) \<in> set (handles c)")
      case True
      then show ?thesis using run_step.join_error[OF assms(3)] by blast
    next
      case False
      with fin have "joined (handles c)" by (fastforce simp: joined_def list_all_iff)
      then show ?thesis
        using run_step.task_error[OF assms(3)] run_step.next_level[OF assms(3)] run_step.return_ok[OF assms(3)]
        by (metis list.exhaust not_None_eq)
    qed
  qed
qed

text \<open>
  If every handler comes to an end, by a measure \<open>mu\<close> of its own on the states \<open>ok\<close> it can be in, so does the run.
\<close>

definition terminates_by ::
  "('k, 't, 'l, 's) handler \<Rightarrow> ('k \<Rightarrow> 't \<Rightarrow> 'l \<Rightarrow> bool) \<Rightarrow> ('k \<Rightarrow> 't \<Rightarrow> 'l \<Rightarrow> nat) \<Rightarrow> bool" where
  "terminates_by H ok mu \<longleftrightarrow>
     (\<forall>k t. ok k t (h_init H k t)) \<and>
     (\<forall>k t l s l' s'. ok k t l \<longrightarrow> h_step H k t l s = (Inl l', s') \<longrightarrow> ok k t l' \<and> mu k t l' < mu k t l)"

fun handle_ok :: "('k \<Rightarrow> 't \<Rightarrow> 'l \<Rightarrow> bool) \<Rightarrow> 'k \<times> 't \<times> 'l handle \<Rightarrow> bool" where
  "handle_ok ok (k, t, Running l) = ok k t l"
| "handle_ok ok _ = True"

fun handle_weight :: "('k, 't, 'l, 's) handler \<Rightarrow> ('k \<Rightarrow> 't \<Rightarrow> 'l \<Rightarrow> nat) \<Rightarrow> 'k \<times> 't \<times> 'l handle \<Rightarrow> nat" where
  "handle_weight H mu (k, t, Waiting) = mu k t (h_init H k t) + 2"
| "handle_weight H mu (k, t, Running l) = mu k t l + 1"
| "handle_weight H mu (k, t, Finished _) = 0"

definition run_weight :: "('k, 't, 'l, 's) handler \<Rightarrow> ('k \<Rightarrow> 't \<Rightarrow> 'l \<Rightarrow> nat) \<Rightarrow> ('k, 't, 'l, 's) run \<Rightarrow> nat" where
  "run_weight H mu c = (\<Sum>h\<leftarrow>handles c. handle_weight H mu h) +
     (\<Sum>l\<leftarrow>next_levels c. \<Sum>h\<leftarrow>spawn l. handle_weight H mu h) + length (next_levels c) +
     (if returned c = None then 1 else 0)"

lemma sum_update:
  fixes f :: "'a \<Rightarrow> nat"
  shows "i < length xs \<Longrightarrow> (\<Sum>x\<leftarrow>xs[i := y]. f x) + f (xs ! i) = (\<Sum>x\<leftarrow>xs. f x) + f y"
proof (induction xs arbitrary: i)
  case (Cons x xs)
  then show ?case using Cons.IH[of "i - 1"] by (cases i) auto
qed simp

lemma handles_ok_step:
  assumes "run_step H c c'" and "terminates_by H ok mu" and "\<forall>h \<in> set (handles c). handle_ok ok h"
  shows "\<forall>h \<in> set (handles c'). handle_ok ok h"
  using assms(1)
proof cases
  case (acquire i k t)
  then show ?thesis using assms(2,3) by (auto simp: terminates_by_def dest!: set_update_subset_insert[THEN subsetD])
next
  case (act i k t l l' s')
  then have "ok k t l" using assms(3) nth_mem[OF act(2)] by force
  then have "ok k t l'" using act assms(2) unfolding terminates_by_def by blast
  then show ?thesis using act assms(3) by (auto dest!: set_update_subset_insert[THEN subsetD])
next
  case (finish i k t l r s')
  then show ?thesis using assms(3) by (auto dest!: set_update_subset_insert[THEN subsetD])
qed (use assms(3) in \<open>auto simp: spawn_def\<close>)

lemma run_weight_step:
  assumes "run_step H c c'" and "terminates_by H ok mu" and "\<forall>h \<in> set (handles c). handle_ok ok h"
  shows "run_weight H mu c' < run_weight H mu c"
  using assms(1)
proof cases
  case (acquire i k t)
  then show ?thesis using sum_update[of i "handles c" "handle_weight H mu" "(k, t, Running (h_init H k t))"]
    by (simp add: run_weight_def)
next
  case (act i k t l l' s')
  then have "ok k t l" using assms(3) nth_mem[OF act(2)] by force
  then have "mu k t l' < mu k t l" using act assms(2) unfolding terminates_by_def by blast
  then show ?thesis using act sum_update[of i "handles c" "handle_weight H mu" "(k, t, Running l')"]
    by (simp add: run_weight_def)
next
  case (finish i k t l r s')
  then show ?thesis using sum_update[of i "handles c" "handle_weight H mu" "(k, t, Finished r)"]
    by (simp add: run_weight_def)
next
  case (next_level l ls)
  then show ?thesis by (simp add: run_weight_def)
qed (simp_all add: run_weight_def)

lemma run_weight_bound:
  assumes "terminates_by H ok mu"
  shows "(run_step H ^^ n) c c' \<Longrightarrow> \<forall>h \<in> set (handles c). handle_ok ok h \<Longrightarrow>
    n + run_weight H mu c' \<le> run_weight H mu c \<and> (\<forall>h \<in> set (handles c'). handle_ok ok h)"
proof (induction n arbitrary: c')
  case (Suc n)
  then obtain d where d: "(run_step H ^^ n) c d" "run_step H d c'" by auto
  then show ?case
    using Suc.IH[OF d(1) Suc.prems(2)] run_weight_step[OF d(2) assms] handles_ok_step[OF d(2) assms] by simp
qed simp

section \<open>One schedule\<close>

text \<open>The schedule that runs one task at a time, as far as it can go in \<open>fuel\<close> steps: an executable instance of the step relation.\<close>

fun first_index :: "('a \<Rightarrow> bool) \<Rightarrow> 'a list \<Rightarrow> nat option" where
  "first_index P [] = None"
| "first_index P (x # xs) = (if P x then Some 0 else map_option Suc (first_index P xs))"

lemma first_index_Some: "first_index P xs = Some i \<Longrightarrow> i < length xs \<and> P (xs ! i)"
  by (induction xs arbitrary: i) (auto split: if_splits)

definition is_waiting :: "'k \<times> 't \<times> 'l handle \<Rightarrow> bool" where
  "is_waiting h = (case snd (snd h) of Waiting \<Rightarrow> True | _ \<Rightarrow> False)"

definition task_step :: "('k, 't, 'l, 's) handler \<Rightarrow> ('k, 't, 'l, 's) run \<Rightarrow> nat \<Rightarrow> ('k, 't, 'l, 's) run option" where
  "task_step H c i =
     (case handles c ! i of
        (k, t, Running l) \<Rightarrow>
          (case h_step H k t l (shared c) of
             (Inl l', s') \<Rightarrow> Some (c\<lparr>handles := (handles c)[i := (k, t, Running l')], shared := s'\<rparr>)
           | (Inr r, s') \<Rightarrow> Some (c\<lparr>handles := (handles c)[i := (k, t, Finished r)], shared := s',
                                 free_permits := free_permits c + 1, run_log := run_log c @ [Ended k r]\<rparr>))
      | (k, t, Waiting) \<Rightarrow>
          if 0 < free_permits c
          then Some (c\<lparr>handles := (handles c)[i := (k, t, Running (h_init H k t))],
                      free_permits := free_permits c - 1, run_log := run_log c @ [Started k]\<rparr>)
          else None
      | _ \<Rightarrow> None)"

definition await_step :: "('k, 't, 'l, 's) run \<Rightarrow> ('k, 't, 'l, 's) run option" where
  "await_step c =
     (if returned c \<noteq> None \<or> \<not> joined (handles c) then None
      else (case first_error (handles c) of
              Some e \<Rightarrow> Some (c\<lparr>returned := Some (Inl (TaskError e))\<rparr>)
            | None \<Rightarrow> (case next_levels c of
                         [] \<Rightarrow> Some (c\<lparr>returned := Some (Inr ())\<rparr>)
                       | l # ls \<Rightarrow> Some (c\<lparr>handles := spawn l, next_levels := ls\<rparr>))))"

definition sched_step :: "('k, 't, 'l, 's) handler \<Rightarrow> ('k, 't, 'l, 's) run \<Rightarrow> ('k, 't, 'l, 's) run option" where
  "sched_step H c =
     (case first_index is_running (handles c) of
        Some i \<Rightarrow> task_step H c i
      | None \<Rightarrow> (case first_index is_waiting (handles c) of Some i \<Rightarrow> task_step H c i | None \<Rightarrow> await_step c))"

fun sched_run :: "nat \<Rightarrow> ('k, 't, 'l, 's) handler \<Rightarrow> ('k, 't, 'l, 's) run \<Rightarrow> ('k, 't, 'l, 's) run" where
  "sched_run 0 H c = c"
| "sched_run (Suc fuel) H c = (case sched_step H c of None \<Rightarrow> c | Some c' \<Rightarrow> sched_run fuel H c')"

lemma task_step_sound: "i < length (handles c) \<Longrightarrow> task_step H c i = Some c' \<Longrightarrow> run_step H c c'"
  by (auto simp: task_step_def split: prod.splits handle.splits sum.splits if_splits
      intro: run_step.act run_step.finish[simplified] run_step.acquire[simplified])

lemma await_step_sound: "await_step c = Some c' \<Longrightarrow> run_step H c c'"
  by (auto simp: await_step_def split: if_splits option.splits list.splits
      intro: run_step.task_error run_step.next_level run_step.return_ok)

lemma sched_step_sound: "sched_step H c = Some c' \<Longrightarrow> run_step H c c'"
  by (auto simp: sched_step_def split: option.splits dest!: first_index_Some intro: task_step_sound await_step_sound)

lemma sched_run_sound: "(run_step H)\<^sup>*\<^sup>* c (sched_run fuel H c)"
proof (induction fuel arbitrary: c)
  case (Suc fuel)
  then show ?case
    by (auto split: option.split intro: converse_rtranclp_into_rtranclp dest: sched_step_sound)
qed simp

section \<open>An example\<close>

text \<open>A network of two tasks, the second depending on the first, with one permit; the handler appends its key to the shared list.\<close>

definition chain_network :: "(nat, nat) task_network" where
  "chain_network = snd (add_task_with_dependencies list_petgraph (\<lambda>xs. xs) 1 10 []
     (snd (add_task_with_dependencies list_petgraph (\<lambda>xs. xs) 2 20 [1] (network_new 1))))"

definition append_key :: "(nat, nat, unit, nat list) handler" where
  "append_key = \<lparr>h_init = (\<lambda>_ _. ()), h_step = (\<lambda>k _ _ s. (Inr Done, s @ [k]))\<rparr>"

lemma chain_network_inv: "network_inv chain_network"
  unfolding chain_network_def by (intro petgraph_spec.network_inv_add_task) simp_all


lemma chain_levels: "topo_sort_by_level list_petgraph (\<lambda>xs. xs) (tasks chain_network) = Some [[(1, 10)], [(2, 20)]]"
  by code_simp

lemma chain_permits [simp]: "max_concurrent_tasks chain_network = 1"
  by code_simp

definition chain_run :: "(nat, nat, unit, nat list) run" where
  "chain_run = sched_run 20 append_key (run_start [[(1, 10)], [(2, 20)]] 1 [])"

lemma chain_run_reached: "(run_step append_key)\<^sup>*\<^sup>* (run_start [[(1, 10)], [(2, 20)]] 1 []) chain_run"
  unfolding chain_run_def by (rule sched_run_sound)

lemma chain_run_result: "run_log chain_run = [Started 1, Ended 1 Done, Started 2, Ended 2 Done]"
    "returned chain_run = Some (Inr ())" "shared chain_run = [1, 2]"
  by code_simp+

lemma chain_dep: "(1, 2) \<in> key_deps (tasks chain_network)"
proof -
  have "map_of (node_indices (tasks chain_network)) 1 = Some 1" "map_of (node_indices (tasks chain_network)) 2 = Some 0"
    "(1, 0) \<in> set (edges (tasks chain_network))"
    by code_simp+
  then show ?thesis by (auto simp: key_deps_def)
qed

section \<open>Properties\<close>

lemma process_tasks_run_inv:
  assumes "petgraph_spec PG" and "hash_order ho" and "network_inv n"
    and "process_tasks PG ho H n s c r n'" and "\<not> network_is_empty n"
  obtains L where "topo_sort_by_level PG ho (tasks n) = Some L" "run_inv (key_deps (tasks n)) L (max_concurrent_tasks n) c"
    "returned c = Some r" "distinct (run_keys L)"
    "\<And>k t. (k, t) \<in> set (concat L) \<longleftrightarrow> adigraph_get (tasks n) k = Some t"
    "levels_respect (key_deps (tasks n)) L"
proof -
  obtain L where L: "topo_sort_by_level PG ho (tasks n) = Some L" "distinct (map fst (concat L))"
      "\<forall>k v. (k, v) \<in> set (concat L) \<longleftrightarrow> adigraph_get (tasks n) k = Some v" "levels_respect (key_deps (tasks n)) L"
    using petgraph_spec.levels_by_key[OF assms(1) _ assms(2), of "tasks n"] assms(3)
    unfolding levels_respect_def network_inv_def by blast
  have c: "(run_step H)\<^sup>*\<^sup>* (run_start L (max_concurrent_tasks n) s) c" "returned c = Some r"
    using assms(4,5) L(1) by (simp_all add: process_tasks_def)
  show thesis
    using that[of L] L c(2) run_inv_reachable[OF c(1) L(4)] by (simp add: run_keys_def)
qed

lemma process_tasks_order:
  assumes "petgraph_spec PG" and "hash_order ho" and "network_inv n"
    and "topo_sort_by_level PG ho (tasks n) = Some levels"
    and "(run_step H)\<^sup>*\<^sup>* (run_start levels (max_concurrent_tasks n) s) c"
  shows "(\<forall>i k d. i < length (run_log c) \<longrightarrow> run_log c ! i = Started k \<longrightarrow> (d, k) \<in> key_deps (tasks n) \<longrightarrow>
            Ended d Done \<in> set (take i (run_log c))) \<and>
         distinct (run_log c) \<and> length (filter is_running (handles c)) \<le> max_concurrent_tasks n"
proof -
  obtain L where "topo_sort_by_level PG ho (tasks n) = Some L" "distinct (map fst (concat L))"
      "levels_respect (key_deps (tasks n)) L"
    using petgraph_spec.levels_by_key[OF assms(1) _ assms(2), of "tasks n"] assms(3)
    unfolding levels_respect_def network_inv_def by blast
  then have "run_inv (key_deps (tasks n)) levels (max_concurrent_tasks n) c"
    using assms(4) by (intro run_inv_reachable[OF assms(5)]) (simp_all add: run_keys_def)
  then have "order_ok (key_deps (tasks n)) (run_log c)" "distinct (run_log c)"
      "free_permits c + length (filter is_running (handles c)) = max_concurrent_tasks n"
    by (simp_all add: run_inv_def)
  then show ?thesis by (simp add: order_ok_def)
qed

text \<open>
  C21. Whatever schedule the runtime chooses, \<open>process_tasks\<close> starts a task only after all tasks it depends on have ended
  successfully, starts no task twice, and never runs more tasks at once than the semaphore has permits.
\<close>

theorem process_tasks_ordered:
  assumes "petgraph_spec PG" and "hash_order ho" and "network_inv n"
    and "topo_sort_by_level PG ho (tasks n) = Some levels"
    and "(run_step H)\<^sup>*\<^sup>* (run_start levels (max_concurrent_tasks n) s) c"
  shows "(\<forall>i k d. i < length (run_log c) \<longrightarrow> run_log c ! i = Started k \<longrightarrow> (d, k) \<in> key_deps (tasks n) \<longrightarrow>
            Ended d Done \<in> set (take i (run_log c))) \<and>
         distinct (run_log c) \<and> length (filter is_running (handles c)) \<le> max_concurrent_tasks n"
  using assms by (rule process_tasks_order)

theorem process_tasks_ordered_witness:
  "Ended 1 Done \<in> set (take 2 (run_log chain_run)) \<and> length (filter is_running (handles chain_run)) \<le> 1"
  using process_tasks_ordered[OF list_petgraph_spec hash_order_id(1) chain_network_inv chain_levels, of append_key "[]" chain_run]
    chain_run_reached chain_dep chain_run_result(1)
  by force

text \<open>
  \<open>process_tasks\<close> returns \<open>Ok\<close> only if every task of the network has ended successfully, and then the network is empty; if it
  returns an error, a task has failed with that error, or has panicked, and the network keeps all its tasks.
\<close>

theorem process_tasks_result:
  assumes "petgraph_spec PG" and "hash_order ho" and "network_inv n" and "process_tasks PG ho H n s c r n'"
  shows "(case r of
            Inr _ \<Rightarrow> (\<forall>k t. adigraph_get (tasks n) k = Some t \<longrightarrow> Ended k Done \<in> set (run_log c)) \<and>
                    network_len n' = 0 \<and> (network_is_empty n \<or> pending_dependents n' = [])
          | Inl JoinError \<Rightarrow> n' = n \<and> (\<exists>k. Ended k Panicked \<in> set (run_log c))
          | Inl (TaskError e) \<Rightarrow> n' = n \<and> (\<exists>k. Ended k (Failed e) \<in> set (run_log c))
          | Inl _ \<Rightarrow> False)"
proof (cases "network_is_empty n")
  case True
  then have "adigraph_get (tasks n) k = None" for k
    using assms(3) index_in_range[of "tasks n" k]
    by (cases "map_of (node_indices (tasks n)) k")
      (auto simp: network_is_empty_def adigraph_is_empty_def network_inv_def adigraph_get_def)
  with True assms(4) show ?thesis by (simp add: process_tasks_def network_is_empty_def network_len_def
        adigraph_is_empty_def adigraph_len_def)
next
  case False
  obtain L where L: "topo_sort_by_level PG ho (tasks n) = Some L"
      "run_inv (key_deps (tasks n)) L (max_concurrent_tasks n) c" "returned c = Some r" "distinct (run_keys L)"
      "\<And>k t. (k, t) \<in> set (concat L) \<longleftrightarrow> adigraph_get (tasks n) k = Some t"
    using process_tasks_run_inv[OF assms False] by metis
  have n': "n' = (case r of Inr _ \<Rightarrow> network_clear n | Inl _ \<Rightarrow> n)" using assms(4) False by (auto simp: process_tasks_def)
  show ?thesis
  proof (cases r)
    case (Inl e)
    then have "n' = n" using n' by simp
    with Inl show ?thesis using L(2,3) by (auto simp: run_inv_def)
  next
    case (Inr u)
    have ended: "Ended k Done \<in> set (run_log c)" if "adigraph_get (tasks n) k = Some t" for k t
    proof -
      obtain past where past: "past @ map forget (handles c) # next_levels c = [] # L"
        "\<forall>k \<in> set (run_keys past). Started k \<in> set (run_log c) \<and> (\<forall>r. Ended k r \<in> set (run_log c) \<longleftrightarrow> r = Done)"
        by (rule run_invE[OF L(2,4)])
      have fin: "next_levels c = []" "joined (handles c)" "first_error (handles c) = None"
        using L(2,3) Inr by (simp_all add: run_inv_def)
      have "k \<in> set (run_keys ([] # L))" using that L(5)[of k t] by (force simp: run_keys_def)
      then have "k \<in> set (run_keys past) \<or> k \<in> fst ` set (handles c)" using fin(1) by (simp add: past(1)[symmetric])
      then show ?thesis
      proof
        assume "k \<in> fst ` set (handles c)"
        then obtain h where h: "h \<in> set (handles c)" "fst h = k" by blast
        from joined_done[OF fin(2,3) h(1)] h(2) obtain t' where "h = (k, t', Finished Done)" by auto
        moreover have "handle_logged (set (run_log c)) h" using L(2) h(1) by (simp add: run_inv_def)
        ultimately show ?thesis by simp
      qed (use past(2) in blast)
    qed
    moreover have "n' = network_clear n" using n' Inr by simp
    ultimately show ?thesis by (simp add: Inr network_clear_def network_len_def adigraph_len_def adigraph_clear_def)
  qed
qed

theorem process_tasks_result_witness:
  "process_tasks list_petgraph (\<lambda>xs. xs) append_key chain_network [] chain_run (Inr ()) (network_clear chain_network) \<and>
   network_len (network_clear chain_network) = 0"
proof -
  have "\<not> network_is_empty chain_network" by code_simp
  then have "process_tasks list_petgraph (\<lambda>xs. xs) append_key chain_network [] chain_run (Inr ()) (network_clear chain_network)"
    using chain_levels chain_run_reached chain_run_result(2) by (simp add: process_tasks_def)
  with process_tasks_result[OF list_petgraph_spec hash_order_id(1) chain_network_inv this] show ?thesis by simp
qed

lemma process_tasks_ends:
  assumes "petgraph_spec PG" and "hash_order ho" and "network_inv n" and "0 < max_concurrent_tasks n"
    and "terminates_by H ok mu"
  shows "\<exists>levels. topo_sort_by_level PG ho (tasks n) = Some levels \<and>
    (\<forall>m c. (run_step H ^^ m) (run_start levels (max_concurrent_tasks n) s) c \<longrightarrow>
       m \<le> run_weight H mu (run_start levels (max_concurrent_tasks n) s) \<and>
       (returned c = None \<longrightarrow> (\<exists>c'. run_step H c c')))"
proof -
  obtain L where L: "topo_sort_by_level PG ho (tasks n) = Some L" "distinct (map fst (concat L))"
      "levels_respect (key_deps (tasks n)) L"
    using petgraph_spec.levels_by_key[OF assms(1) _ assms(2), of "tasks n"] assms(3)
    unfolding levels_respect_def network_inv_def by blast
  have "m \<le> run_weight H mu (run_start L (max_concurrent_tasks n) s) \<and> (returned c = None \<longrightarrow> (\<exists>c'. run_step H c c'))"
    if m: "(run_step H ^^ m) (run_start L (max_concurrent_tasks n) s) c" for m c
  proof -
    have "(run_step H)\<^sup>*\<^sup>* (run_start L (max_concurrent_tasks n) s) c" using m by (rule relpowp_imp_rtranclp)
    then have "run_inv (key_deps (tasks n)) L (max_concurrent_tasks n) c"
      using L by (intro run_inv_reachable) (simp_all add: run_keys_def)
    moreover have "m + run_weight H mu c \<le> run_weight H mu (run_start L (max_concurrent_tasks n) s)"
      using run_weight_bound[OF assms(5) m] by (simp add: run_start_def)
    ultimately show ?thesis using run_progress[OF _ assms(4)] by auto
  qed
  with L(1) show ?thesis by blast
qed

text \<open>
  C22. With at least one permit and handlers that come to an end, \<open>process_tasks\<close> returns under every schedule: until it has
  returned some step is always possible, and no execution is longer than a bound that the tasks fix beforehand.
\<close>

theorem process_tasks_returns:
  assumes "petgraph_spec PG" and "hash_order ho" and "network_inv n" and "0 < max_concurrent_tasks n"
    and "terminates_by H ok mu"
  shows "\<exists>levels. topo_sort_by_level PG ho (tasks n) = Some levels \<and>
    (\<forall>m c. (run_step H ^^ m) (run_start levels (max_concurrent_tasks n) s) c \<longrightarrow>
       m \<le> run_weight H mu (run_start levels (max_concurrent_tasks n) s) \<and>
       (returned c = None \<longrightarrow> (\<exists>c'. run_step H c c')))"
  using assms by (rule process_tasks_ends)

theorem process_tasks_returns_witness:
  "\<exists>levels. topo_sort_by_level list_petgraph (\<lambda>xs. xs) (tasks chain_network) = Some levels \<and>
    (\<forall>m c. (run_step append_key ^^ m) (run_start levels 1 []) c \<longrightarrow> (returned c = None \<longrightarrow> (\<exists>c'. run_step append_key c c')))"
proof -
  have "terminates_by append_key (\<lambda>_ _ _. True) (\<lambda>_ _ _. 0)" by (simp add: terminates_by_def append_key_def)
  from process_tasks_returns[OF list_petgraph_spec hash_order_id(1) chain_network_inv _ this, of "[]"]
  show ?thesis by auto
qed

end
