(* ===== verification/TaskManager.thy ===== *)
theory TaskManager
  imports TaskRun Proto
begin

text \<open>
  The task manager of \<open>crates/processors/src/task_manager.rs\<close> with the processor interface and configuration of
  \<open>crates/processors/src/lib.rs\<close>: events are grouped into tasks, a task keeps its historical events in order and, of the events
  that are only indexed in their latest state, the last one per key; the task network then runs the tasks.

  An \<open>EventProcessor\<close> trait object is a record of its methods. Its \<open>process\<close> is a state machine over the shared state (storage,
  caches, provider), so that tasks interleave inside it. \<open>hashlink::LinkedHashMap::insert\<close> is a parameter with its documented
  behaviour, the locale \<open>linked_hash_map\<close>.
\<close>

section \<open>Configuration\<close>

type_synonym task_id = u64
type_synonym event_key = u64

record event_processor_config =
  namespaces :: "string set"
  strict_model_reader :: bool
  historical_models :: "felt set"
  max_metadata_tasks :: nat
  models :: "string set"
  external_contracts :: bool
  external_contract_whitelist :: "string set"
  metadata_updates :: bool
  metadata_update_whitelist :: "felt set"
  metadata_update_blacklist :: "felt set"
  metadata_updates_only_at_head :: bool
  async_metadata_updates :: bool

definition config_default :: event_processor_config where
  "config_default = \<lparr>namespaces = {}, strict_model_reader = False, historical_models = {}, max_metadata_tasks = 10,
     models = {}, external_contracts = True, external_contract_whitelist = {}, metadata_updates = True,
     metadata_update_whitelist = {}, metadata_update_blacklist = {}, metadata_updates_only_at_head = False,
     async_metadata_updates = False\<rparr>"

definition should_index :: "event_processor_config \<Rightarrow> string \<Rightarrow> string \<Rightarrow> bool" where
  "should_index cfg namespace name =
     ((namespaces cfg = {} \<or> namespace \<in> namespaces cfg) \<and>
      (models cfg = {} \<or> name \<in> models cfg \<or> (namespace @ ''-'' @ name) \<in> models cfg))"

definition is_historical :: "event_processor_config \<Rightarrow> felt \<Rightarrow> bool" where
  "is_historical cfg selector = (selector \<in> historical_models cfg)"

definition should_index_external_contract :: "event_processor_config \<Rightarrow> string \<Rightarrow> string \<Rightarrow> bool" where
  "should_index_external_contract cfg namespace instance_name =
     ((namespaces cfg = {} \<or> namespace \<in> namespaces cfg) \<and>
      (external_contracts cfg \<and>
       (external_contract_whitelist cfg = {} \<or> instance_name \<in> external_contract_whitelist cfg)))"

definition should_process_metadata_updates :: "event_processor_config \<Rightarrow> felt \<Rightarrow> bool" where
  "should_process_metadata_updates cfg contract_address =
     (if \<not> metadata_updates cfg then False
      else if contract_address \<in> metadata_update_blacklist cfg then False
      else if metadata_update_whitelist cfg = {} then True
      else contract_address \<in> metadata_update_whitelist cfg)"

datatype indexing_mode = Historical | Latest event_key

text \<open>Errors that wrap an error of another library carry its message.\<close>

datatype processor_error =
  PProviderError string
| PStorageError string
| PTaskNetworkError "task_id task_network_error"
| PModelError string
| PPrimitiveError string
| PModelNotFound felt
| PModelMemberNotFound string
| PUriMalformed
| PIpfsError string
| PParseError string
| PCairoSerdeError string
| PJoinError string
| PControllerProcessorError string
| PTokenMetadataError string
| PCacheError string

text \<open>\<open>EventProcessorContext\<close>, less the handles to storage, cache and provider, which are the shared state.\<close>

record event_processor_context =
  ctx_contract_address :: felt
  ctx_block_number :: u64
  ctx_block_timestamp :: u64
  ctx_event_id :: string
  ctx_event :: event
  ctx_config :: event_processor_config
  ctx_is_at_head :: bool

text \<open>The answers of \<open>Storage::model\<close> that \<open>resolve_model_or_skip\<close> tells apart.\<close>

datatype 'm storage_model_answer = FoundModel 'm | StorageModelNotFound | StorageFailure string

definition resolve_model_or_skip ::
  "(felt \<Rightarrow> felt \<Rightarrow> 'm storage_model_answer) \<Rightarrow> event_processor_context \<Rightarrow> felt \<Rightarrow> processor_error + 'm option" where
  "resolve_model_or_skip storage_model ctx selector =
     (case storage_model (ctx_contract_address ctx) selector of
        FoundModel m \<Rightarrow> Inr (Some m)
      | StorageModelNotFound \<Rightarrow>
          if namespaces (ctx_config ctx) \<noteq> {} then Inr None else Inl (PModelNotFound selector)
      | StorageFailure e \<Rightarrow> Inl (PStorageError e))"

section \<open>Processors\<close>

text \<open>How a call into a processor ends. Methods that may panic and return nothing else of interest return \<open>option\<close>.\<close>

datatype 'a completion = Ok 'a | Err processor_error | Panic

record ('l, 's) event_processor =
  p_event_key :: string
  p_validate :: "event \<Rightarrow> bool"
  p_should_process :: "event \<Rightarrow> event_processor_config \<Rightarrow> bool"
  p_task_identifier :: "event \<Rightarrow> task_id option"
  p_task_dependencies :: "event \<Rightarrow> task_id list option"
  p_indexing_mode :: "event \<Rightarrow> event_processor_config \<Rightarrow> indexing_mode option"
  p_begin :: "event_processor_context \<Rightarrow> 'l"
  p_process :: "'l \<Rightarrow> 's \<Rightarrow> ('l + unit completion) \<times> 's"

type_synonym ('l, 's) processor_map = "(contract_type \<times> (felt \<times> ('l, 's) event_processor list) list) list"

text \<open>\<open>entry(key).or_default().push(p)\<close> in the map of one contract type.\<close>

definition push_processor ::
  "(string \<Rightarrow> felt) \<Rightarrow> contract_type \<Rightarrow> ('l, 's) event_processor \<Rightarrow> ('l, 's) processor_map \<Rightarrow> ('l, 's) processor_map" where
  "push_processor selector ct p m =
     al_upsert ct (al_upsert (selector (p_event_key p)) (\<lambda>ps. ps @ [p]) [p]) [(selector (p_event_key p), [p])] m"

definition initialize_event_processors ::
  "(string \<Rightarrow> felt) \<Rightarrow> (contract_type \<times> ('l, 's) event_processor list) list \<Rightarrow> ('l, 's) processor_map" where
  "initialize_event_processors selector registry =
     fold (\<lambda>(ct, ps) m. fold (push_processor selector ct) ps (al_upsert ct (\<lambda>x. x) [] m)) registry []"

text \<open>\<open>unwrap\<close> on a contract type that is not in the map panics: \<open>None\<close>.\<close>

definition get_event_processors ::
  "('l, 's) processor_map \<Rightarrow> contract_type \<Rightarrow> (felt \<times> ('l, 's) event_processor list) list option" where
  "get_event_processors m ct = map_of m ct"

section \<open>Task data\<close>

record parallelized_event =
  pe_indexing_mode :: indexing_mode
  pe_contract_type :: contract_type
  pe_contract_address :: felt
  pe_block_number :: u64
  pe_block_timestamp :: u64
  pe_event_id :: string
  pe_event :: event
  pe_is_at_head :: bool

record task_data =
  events :: "parallelized_event list"
  latest_only_events :: "(event_key \<times> parallelized_event) list"

type_synonym lh_insert = "event_key \<Rightarrow> parallelized_event \<Rightarrow> (event_key \<times> parallelized_event) list \<Rightarrow>
  (event_key \<times> parallelized_event) list"

locale linked_hash_map =
  fixes ins :: "'k \<Rightarrow> 'v \<Rightarrow> ('k \<times> 'v) list \<Rightarrow> ('k \<times> 'v) list"
  assumes ins_lookup: "map_of (ins k v m) = (map_of m)(k \<mapsto> v)"
    and ins_ok: "al_ok m \<Longrightarrow> al_ok (ins k v m)"
    and ins_back: "ins k v m \<noteq> [] \<and> last (ins k v m) = (k, v)"
    and ins_order: "al_remove k (ins k v m) = al_remove k m"

definition task_data_default :: task_data where
  "task_data_default = \<lparr>events = [], latest_only_events = []\<rparr>"

definition push_event :: "lh_insert \<Rightarrow> parallelized_event \<Rightarrow> task_data \<Rightarrow> task_data" where
  "push_event ins pe td =
     (case pe_indexing_mode pe of
        Latest k \<Rightarrow> td\<lparr>latest_only_events := ins k pe (latest_only_events td)\<rparr>
      | Historical \<Rightarrow> td\<lparr>events := events td @ [pe]\<rparr>)"

definition new_task_data :: "lh_insert \<Rightarrow> parallelized_event \<Rightarrow> task_data" where
  "new_task_data ins pe =
     (case pe_indexing_mode pe of
        Latest k \<Rightarrow> task_data_default\<lparr>latest_only_events := ins k pe []\<rparr>
      | Historical \<Rightarrow> task_data_default\<lparr>events := [pe]\<rparr>)"

section \<open>The task manager\<close>

record task_manager =
  task_network :: "(task_id, task_data) task_network"
  tm_config :: event_processor_config

definition task_manager_new :: "nat \<Rightarrow> event_processor_config \<Rightarrow> task_manager" where
  "task_manager_new max_tasks cfg = \<lparr>task_network = network_new max_tasks, tm_config = cfg\<rparr>"

definition pending_tasks_count :: "task_manager \<Rightarrow> nat" where
  "pending_tasks_count tm = network_len (task_network tm)"

text \<open>Errors of the network are logged and dropped: what remains is the state the failed call has left.\<close>

definition add_parallelized_event_with_dependencies ::
  "petgraph \<Rightarrow> (task_id list \<Rightarrow> task_id list) \<Rightarrow> lh_insert \<Rightarrow> task_id \<Rightarrow> task_id list \<Rightarrow> parallelized_event \<Rightarrow>
   task_manager \<Rightarrow> task_manager" where
  "add_parallelized_event_with_dependencies PG ho ins task_identifier dependencies pe tm =
     (let n = task_network tm in
      if contains_key (tasks n) task_identifier
      then tm\<lparr>task_network :=
             snd (add_dependencies PG task_identifier dependencies (network_modify task_identifier (push_event ins pe) n))\<rparr>
      else tm\<lparr>task_network :=
             snd (add_task_with_dependencies PG ho task_identifier (new_task_data ins pe) dependencies n)\<rparr>)"

definition add_parallelized_event ::
  "petgraph \<Rightarrow> (task_id list \<Rightarrow> task_id list) \<Rightarrow> lh_insert \<Rightarrow> task_id \<Rightarrow> parallelized_event \<Rightarrow> task_manager \<Rightarrow> task_manager" where
  "add_parallelized_event PG ho ins task_identifier pe =
     add_parallelized_event_with_dependencies PG ho ins task_identifier [] pe"

definition clear_tasks :: "task_manager \<Rightarrow> task_manager" where
  "clear_tasks tm = tm\<lparr>task_network := network_clear (task_network tm)\<rparr>"

definition context_of :: "event_processor_config \<Rightarrow> parallelized_event \<Rightarrow> event_processor_context" where
  "context_of cfg pe = \<lparr>ctx_contract_address = pe_contract_address pe, ctx_block_number = pe_block_number pe,
     ctx_block_timestamp = pe_block_timestamp pe, ctx_event_id = pe_event_id pe, ctx_event = pe_event pe,
     ctx_config = cfg, ctx_is_at_head = pe_is_at_head pe\<rparr>"

text \<open>
  The handler of one task: the events that are left, and the processor that is at work with its own state. Indexing
  \<open>event.keys[0]\<close>, the \<open>unwrap\<close> of \<open>get_event_processors\<close> and the \<open>expect\<close> on the validating processor may panic.
\<close>

datatype ('l, 's) task_state =
  Idle "parallelized_event list"
| Busy "('l, 's) event_processor" 'l "parallelized_event list"

definition begin_event ::
  "('l, 's) processor_map \<Rightarrow> event_processor_config \<Rightarrow> parallelized_event \<Rightarrow> parallelized_event list \<Rightarrow>
   ('l, 's) task_state + outcome" where
  "begin_event procs cfg pe rest =
     (case get_event_processors procs (pe_contract_type pe) of
        None \<Rightarrow> Inr Panicked
      | Some contract_processors \<Rightarrow>
          (case e_keys (pe_event pe) of
             [] \<Rightarrow> Inr Panicked
           | key # _ \<Rightarrow>
               (case map_of contract_processors key of
                  None \<Rightarrow> Inl (Idle rest)
                | Some ps \<Rightarrow>
                    (case List.find (\<lambda>p. p_validate p (pe_event pe)) ps of
                       None \<Rightarrow> Inr Panicked
                     | Some p \<Rightarrow>
                         if \<not> p_should_process p (pe_event pe) cfg then Inl (Idle rest)
                         else Inl (Busy p (p_begin p (context_of cfg pe)) rest)))))"

definition task_handler_step ::
  "(processor_error \<Rightarrow> boxed_error) \<Rightarrow> ('l, 's) processor_map \<Rightarrow> event_processor_config \<Rightarrow>
   ('l, 's) task_state \<Rightarrow> 's \<Rightarrow> (('l, 's) task_state + outcome) \<times> 's" where
  "task_handler_step show_error procs cfg st s =
     (case st of
        Idle [] \<Rightarrow> (Inr Done, s)
      | Idle (pe # rest) \<Rightarrow> (begin_event procs cfg pe rest, s)
      | Busy p l rest \<Rightarrow>
          (case p_process p l s of
             (Inl l', s') \<Rightarrow> (Inl (Busy p l' rest), s')
           | (Inr (Err e), s') \<Rightarrow> (Inr (Failed (show_error e)), s')
           | (Inr Panic, s') \<Rightarrow> (Inr Panicked, s')
           | (Inr (Ok _), s') \<Rightarrow> (Inl (Idle rest), s')))"

definition task_handler ::
  "(processor_error \<Rightarrow> boxed_error) \<Rightarrow> ('l, 's) processor_map \<Rightarrow> event_processor_config \<Rightarrow>
   (task_id, task_data, ('l, 's) task_state, 's) handler" where
  "task_handler show_error procs cfg =
     \<lparr>h_init = (\<lambda>_ td. Idle (events td @ map snd (latest_only_events td))),
      h_step = (\<lambda>_ _. task_handler_step show_error procs cfg)\<rparr>"

definition manager_process_tasks ::
  "petgraph \<Rightarrow> (nat list \<Rightarrow> nat list) \<Rightarrow> (processor_error \<Rightarrow> boxed_error) \<Rightarrow> ('l, 's) processor_map \<Rightarrow> task_manager \<Rightarrow> 's \<Rightarrow>
   (task_id, task_data, ('l, 's) task_state, 's) run \<Rightarrow> processor_error + unit \<Rightarrow> task_manager \<Rightarrow> bool" where
  "manager_process_tasks PG ho show_error procs tm s c r tm' \<longleftrightarrow>
     (\<exists>r0 n'. process_tasks PG ho (task_handler show_error procs (tm_config tm)) (task_network tm) s c r0 n' \<and>
        tm' = tm\<lparr>task_network := n'\<rparr> \<and>
        r = (case r0 of Inl e \<Rightarrow> Inl (PTaskNetworkError e) | Inr u \<Rightarrow> Inr u))"


section \<open>What a task holds\<close>

definition back_insert :: lh_insert where
  "back_insert k v m = al_remove k m @ [(k, v)]"

interpretation lhm: linked_hash_map back_insert
proof (unfold_locales, unfold back_insert_def)
  fix k v m
  show "map_of (al_remove k m @ [(k, v)]) = (map_of m)(k \<mapsto> v)"
    by (auto simp: fun_eq_iff map_add_def split: option.split)
  show "al_ok m \<Longrightarrow> al_ok (al_remove k m @ [(k, v)])"
    using al_ok_remove[of m k] by (auto simp: al_ok_def al_remove_def)
qed (auto simp: al_remove_def)

lemma adigraph_get_modify:
  assumes "adigraph_inv g"
  shows "adigraph_get (adigraph_modify k f g) k' = (if k' = k then map_option f (adigraph_get g k) else adigraph_get g k')"
proof -
  have "i \<noteq> j" if "map_of (node_indices g) k = Some i" "map_of (node_indices g) k' = Some j" "k' \<noteq> k" for i j
    using that key_of_index[OF assms that(1)] key_of_index[OF assms that(2)] by auto
  then show ?thesis
    using index_in_range[OF assms]
    by (cases "map_of (node_indices g) k'") (auto simp: adigraph_get_def adigraph_modify_def split: option.splits)
qed

lemma adigraph_modify_key_deps [simp]: "key_deps (adigraph_modify k f g) = key_deps g"
  by (auto simp: key_deps_def adigraph_modify_def split: option.splits)

lemma adigraph_modify_contains [simp]: "contains_key (adigraph_modify k f g) = contains_key g"
  by (auto simp: fun_eq_iff contains_key_def adigraph_modify_def split: option.splits)

lemma network_inv_modify: "network_inv n \<Longrightarrow> network_inv (network_modify k f n)"
  by (simp add: network_inv_def pending_ok_def network_modify_def adigraph_inv_modify)

lemma adigraph_get_add_dependencies:
  "adigraph_get (tasks (snd (add_dependencies PG k deps n))) = adigraph_get (tasks n)"
  by (rule adigraph_get_cong) (simp_all add: add_dependencies_tasks)

lemma new_task_data_push: "new_task_data ins pe = push_event ins pe task_data_default"
  by (simp add: new_task_data_def push_event_def task_data_default_def split: indexing_mode.split)

definition tm_task :: "task_manager \<Rightarrow> task_id \<Rightarrow> task_data option" where
  "tm_task tm k = adigraph_get (tasks (task_network tm)) k"

definition tm_inv :: "task_manager \<Rightarrow> bool" where
  "tm_inv tm = network_inv (task_network tm)"

lemma add_event_task:
  assumes "petgraph_spec PG" and "hash_order ho" and "tm_inv tm"
  shows "tm_task (add_parallelized_event_with_dependencies PG ho ins k deps pe tm) k' =
    (if k' = k then Some (push_event ins pe (case tm_task tm k of None \<Rightarrow> task_data_default | Some td \<Rightarrow> td))
     else tm_task tm k')"
proof (cases "contains_key (tasks (task_network tm)) k")
  case True
  then obtain td where "adigraph_get (tasks (task_network tm)) k = Some td" by (auto simp: contains_key_get)
  with True assms(3) show ?thesis
    by (simp add: add_parallelized_event_with_dependencies_def tm_task_def adigraph_get_add_dependencies
        network_modify_def adigraph_get_modify tm_inv_def network_inv_def Let_def)
next
  case False
  then have "adigraph_get (tasks (task_network tm)) k = None" by (simp add: contains_key_get)
  with False assms show ?thesis
    by (simp add: add_parallelized_event_with_dependencies_def tm_task_def add_task_get tm_inv_def new_task_data_push Let_def)
qed

lemma add_event_inv:
  assumes "petgraph_spec PG" and "hash_order ho" and "tm_inv tm"
  shows "tm_inv (add_parallelized_event_with_dependencies PG ho ins k deps pe tm)"
  using assms(2,3)
  by (simp add: add_parallelized_event_with_dependencies_def tm_inv_def Let_def network_inv_modify
      petgraph_spec.network_inv_add_dependencies[OF assms(1)] petgraph_spec.network_inv_add_task[OF assms(1)])

text \<open>A batch of events, each with its task and dependencies, in the order in which the engine adds them.\<close>

definition add_all ::
  "petgraph \<Rightarrow> (task_id list \<Rightarrow> task_id list) \<Rightarrow> lh_insert \<Rightarrow>
   (task_id \<times> task_id list \<times> parallelized_event) list \<Rightarrow> task_manager \<Rightarrow> task_manager" where
  "add_all PG ho ins xs = fold (\<lambda>(k, deps, pe). add_parallelized_event_with_dependencies PG ho ins k deps pe) xs"

definition events_for :: "task_id \<Rightarrow> (task_id \<times> task_id list \<times> parallelized_event) list \<Rightarrow> parallelized_event list" where
  "events_for k xs = map (\<lambda>(_, _, pe). pe) (filter (\<lambda>(k', _, _). k' = k) xs)"

lemma add_all_task:
  assumes "petgraph_spec PG" and "hash_order ho"
  shows "tm_inv tm \<Longrightarrow> tm_task (add_all PG ho ins xs tm) k =
    (if events_for k xs = [] then tm_task tm k
     else Some (fold (push_event ins) (events_for k xs) (case tm_task tm k of None \<Rightarrow> task_data_default | Some td \<Rightarrow> td)))"
proof (induction xs arbitrary: tm)
  case (Cons x xs)
  obtain k' deps pe where x: "x = (k', deps, pe)" by (cases x)
  let ?tm = "add_parallelized_event_with_dependencies PG ho ins k' deps pe tm"
  have "add_all PG ho ins (x # xs) tm = add_all PG ho ins xs ?tm" by (simp add: add_all_def x)
  then show ?case
    using Cons.IH[OF add_event_inv[OF assms Cons.prems, of ins k' deps pe]] add_event_task[OF assms Cons.prems, of ins k' deps pe]
    by (simp add: x events_for_def)
qed (simp add: add_all_def events_for_def)

lemma add_all_inv: "petgraph_spec PG \<Longrightarrow> hash_order ho \<Longrightarrow> tm_inv tm \<Longrightarrow> tm_inv (add_all PG ho ins xs tm)"
  by (induction xs arbitrary: tm) (auto simp: add_all_def add_event_inv)

lemma add_event_permits:
  assumes "hash_order ho"
  shows "max_concurrent_tasks (task_network (add_parallelized_event_with_dependencies PG ho ins k deps pe tm)) =
    max_concurrent_tasks (task_network tm)"
  by (simp add: add_parallelized_event_with_dependencies_def Let_def add_dependencies_tasks add_task_tasks[OF assms]
      network_modify_def)

lemma add_all_permits:
  "hash_order ho \<Longrightarrow> max_concurrent_tasks (task_network (add_all PG ho ins xs tm)) = max_concurrent_tasks (task_network tm)"
  by (induction xs arbitrary: tm) (auto simp: add_all_def add_event_permits)

lemma push_events_historical:
  "events (fold (push_event ins) pes td) = events td @ filter (\<lambda>pe. pe_indexing_mode pe = Historical) pes"
  by (induction pes arbitrary: td) (auto simp: push_event_def split: indexing_mode.split)

context linked_hash_map
begin

lemma fold_ins_lookup:
  "map_of (fold (\<lambda>(k, v). ins k v) kvs m) k =
     (case map_of (rev kvs) k of None \<Rightarrow> map_of m k | Some v \<Rightarrow> Some v)"
proof (induction kvs arbitrary: m)
  case (Cons kv kvs)
  then show ?case by (cases kv) (auto simp: ins_lookup map_add_def split: option.split)
qed simp

end

lemma push_events_latest:
  assumes "linked_hash_map ins"
  shows "map_of (latest_only_events (fold (push_event ins) pes td)) k =
    (case List.find (\<lambda>pe. pe_indexing_mode pe = Latest k) (rev pes) of
       None \<Rightarrow> map_of (latest_only_events td) k | Some pe \<Rightarrow> Some pe)"
proof (induction pes rule: rev_induct)
  case (snoc pe pes)
  then show ?case
    by (auto simp: push_event_def linked_hash_map.ins_lookup[OF assms] split: indexing_mode.split option.split)
qed simp

section \<open>The handler ends\<close>

text \<open>If the processors end, by a measure of their own state, so does the handler of every task.\<close>

definition processors_end :: "('l, 's) processor_map \<Rightarrow> ('l \<Rightarrow> nat) \<Rightarrow> nat \<Rightarrow> bool" where
  "processors_end procs mu b \<longleftrightarrow>
     (\<forall>ct m k ps p. map_of procs ct = Some m \<longrightarrow> map_of m k = Some ps \<longrightarrow> p \<in> set ps \<longrightarrow>
        (\<forall>ctx. mu (p_begin p ctx) < b) \<and> (\<forall>l s l' s'. p_process p l s = (Inl l', s') \<longrightarrow> mu l' < mu l))"


fun task_measure :: "('l \<Rightarrow> nat) \<Rightarrow> nat \<Rightarrow> ('l, 's) task_state \<Rightarrow> nat" where
  "task_measure mu b (Idle rest) = length rest * (b + 1)"
| "task_measure mu b (Busy p l rest) = length rest * (b + 1) + mu l + 1"

lemma begin_event_busy:
  assumes "begin_event procs cfg pe rest = Inl (Busy p l rest')"
  shows "rest' = rest \<and> l = p_begin p (context_of cfg pe) \<and>
    (\<exists>ct m k ps. map_of procs ct = Some m \<and> map_of m k = Some ps \<and> p \<in> set ps)"
proof -
  have "p \<in> set ps" if "List.find Q ps = Some p" for Q ps
    using that by (auto simp: find_Some_iff)
  with assms show ?thesis
    by (fastforce simp: begin_event_def get_event_processors_def split: option.splits list.splits if_splits)
qed

lemma begin_event_idle: "begin_event procs cfg pe rest = Inl (Idle rest') \<Longrightarrow> rest' = rest"
  by (auto simp: begin_event_def split: option.splits list.splits if_splits)


text \<open>The states a handler can be in: a busy one works with a processor of the registry.\<close>

fun task_state_ok :: "('l, 's) processor_map \<Rightarrow> ('l, 's) task_state \<Rightarrow> bool" where
  "task_state_ok procs (Idle _) = True"
| "task_state_ok procs (Busy p _ _) = (\<exists>ct m k ps. map_of procs ct = Some m \<and> map_of m k = Some ps \<and> p \<in> set ps)"

lemma task_handler_step_ends:
  assumes "processors_end procs mu b" and "task_state_ok procs st"
    and "task_handler_step show_error procs cfg st s = (Inl st', s')"
  shows "task_state_ok procs st' \<and> task_measure mu b st' < task_measure mu b st"
proof (cases st)
  case (Idle rest)
  with assms(3) obtain pe rest' where r: "rest = pe # rest'" "begin_event procs cfg pe rest' = Inl st'"
    by (auto simp: task_handler_step_def split: list.splits)
  show ?thesis
  proof (cases st')
    case (Idle x)
    with r begin_event_idle[of procs cfg pe rest' x] show ?thesis by (simp add: \<open>st = Idle rest\<close>)
  next
    case (Busy p l x)
    note b = begin_event_busy[OF r(2)[unfolded Busy]]
    then have "mu l < b" using assms(1) unfolding processors_end_def by blast
    with b r(1) show ?thesis by (auto simp: Busy \<open>st = Idle rest\<close>)
  qed
next
  case (Busy p l rest)
  note st = this
  show ?thesis
  proof (cases "p_process p l s")
    case (Pair r s'')
    show ?thesis
    proof (cases r)
      case (Inl l')
      have "mu l' < mu l" using assms(1,2) Pair unfolding st Inl processors_end_def task_state_ok.simps by blast
      moreover have "st' = Busy p l' rest" using assms(3) Pair by (simp add: st Inl task_handler_step_def)
      ultimately show ?thesis using assms(2) by (simp add: st)
    next
      case (Inr x)
      then show ?thesis using assms(3) Pair by (cases x) (auto simp: st task_handler_step_def)
    qed
  qed
qed

lemma task_handler_terminates:
  assumes "processors_end procs mu b"
  shows "terminates_by (task_handler show_error procs cfg) (\<lambda>_ _. task_state_ok procs) (\<lambda>_ _. task_measure mu b)"
  using task_handler_step_ends[OF assms] by (auto simp: terminates_by_def task_handler_def)

section \<open>Properties\<close>

text \<open>
  C23. No event is lost or reordered on its way into the tasks, whatever errors the network reports for its dependencies: after any
  batch of events a task holds exactly the historical events added for it, in order, and for every key the last event
  added under that key; a task exists exactly if an event was added for it.
\<close>

theorem batch_reaches_tasks:
  assumes "petgraph_spec PG" and "hash_order ho" and "linked_hash_map ins"
  shows "case tm_task (add_all PG ho ins xs (task_manager_new m cfg)) k of
     None \<Rightarrow> events_for k xs = []
   | Some td \<Rightarrow> events_for k xs \<noteq> [] \<and>
       events td = filter (\<lambda>pe. pe_indexing_mode pe = Historical) (events_for k xs) \<and>
       (\<forall>key. map_of (latest_only_events td) key = List.find (\<lambda>pe. pe_indexing_mode pe = Latest key) (rev (events_for k xs)))"
proof -
  have inv: "tm_inv (task_manager_new m cfg)" by (simp add: tm_inv_def task_manager_new_def)
  have new: "tm_task (task_manager_new m cfg) k = None"
    by (simp add: tm_task_def task_manager_new_def network_new_def adigraph_new_def adigraph_get_def)
  show ?thesis
    using add_all_task[OF assms(1,2) inv, of ins xs k]
    by (auto simp: new push_events_historical push_events_latest[OF assms(3)] task_data_default_def split: option.split)
qed

definition sample_event :: "nat \<Rightarrow> indexing_mode \<Rightarrow> parallelized_event" where
  "sample_event i md = \<lparr>pe_indexing_mode = md, pe_contract_type = WORLD, pe_contract_address = 5, pe_block_number = of_nat i,
     pe_block_timestamp = 0, pe_event_id = [], pe_event = \<lparr>e_from_address = 5, e_keys = [7], e_data = []\<rparr>, pe_is_at_head = False\<rparr>"

theorem batch_reaches_tasks_witness:
  "case tm_task (add_all list_petgraph (\<lambda>xs. xs) back_insert
      [(1, [], sample_event 1 Historical), (1, [2], sample_event 2 (Latest 9)), (2, [1], sample_event 3 Historical),
       (1, [], sample_event 4 (Latest 9))] (task_manager_new 4 config_default)) 1 of
     None \<Rightarrow> False
   | Some td \<Rightarrow> events td = [sample_event 1 Historical] \<and> map_of (latest_only_events td) 9 = Some (sample_event 4 (Latest 9))"
proof -
  let ?xs = "[(1, [], sample_event 1 Historical), (1, [2], sample_event 2 (Latest 9)), (2, [1], sample_event 3 Historical),
       (1, [], sample_event 4 (Latest 9))] :: (task_id \<times> task_id list \<times> parallelized_event) list"
  have "events_for 1 ?xs = [sample_event 1 Historical, sample_event 2 (Latest 9), sample_event 4 (Latest 9)]"
    by (simp add: events_for_def)
  with batch_reaches_tasks[OF list_petgraph_spec hash_order_id(1) lhm.linked_hash_map_axioms,
      where xs = ?xs and m = 4 and cfg = config_default and k = 1]
  show ?thesis by (auto simp: sample_event_def split: option.splits)
qed

text \<open>
  C24. Once a task manager has been filled with any batch of events, \<open>process_tasks\<close> returns under every schedule, provided the
  processors end and there is at least one permit.
\<close>

theorem manager_returns:
  assumes "petgraph_spec PG" and "hash_order ho" and "hash_order ho'" and "processors_end procs mu b" and "0 < m"
  shows "\<exists>levels. topo_sort_by_level PG ho' (tasks (task_network (add_all PG ho ins xs (task_manager_new m cfg)))) = Some levels \<and>
    (\<exists>bound. \<forall>j c. (run_step (task_handler show_error procs cfg) ^^ j) (run_start levels m s) c \<longrightarrow>
       j \<le> bound \<and> (returned c = None \<longrightarrow> (\<exists>c'. run_step (task_handler show_error procs cfg) c c')))"
proof -
  let ?tm = "add_all PG ho ins xs (task_manager_new m cfg)"
  have inv: "network_inv (task_network ?tm)"
    using add_all_inv[OF assms(1,2), of "task_manager_new m cfg" ins xs] by (simp add: tm_inv_def task_manager_new_def)
  have "max_concurrent_tasks (task_network ?tm) = m"
    using add_all_permits[OF assms(2)] by (simp add: task_manager_new_def network_new_def)
  with process_tasks_ends[OF assms(1,3) inv _ task_handler_terminates[OF assms(4)], of show_error cfg s] assms(5)
  show ?thesis by auto
qed


definition sample_processor :: "(unit, nat list) event_processor" where
  "sample_processor = \<lparr>p_event_key = ''StoreSetRecord'', p_validate = (\<lambda>_. True), p_should_process = (\<lambda>_ _. True),
     p_task_identifier = (\<lambda>_. Some 1), p_task_dependencies = (\<lambda>_. Some []), p_indexing_mode = (\<lambda>_ _. Some Historical),
     p_begin = (\<lambda>_. ()), p_process = (\<lambda>_ s. (Inr (Ok ()), s @ [1]))\<rparr>"

definition sample_registry :: "(unit, nat list) processor_map" where
  "sample_registry = initialize_event_processors length [(WORLD, [sample_processor]), (OTHER, [])]"

lemma sample_registry_ends: "processors_end sample_registry (\<lambda>_. 0) 1"
  by (auto simp: processors_end_def sample_registry_def initialize_event_processors_def push_processor_def sample_processor_def
      split: if_splits)

theorem manager_returns_witness:
  "\<exists>levels. topo_sort_by_level list_petgraph rev
      (tasks (task_network (add_all list_petgraph rev back_insert
        [(1, [], sample_event 1 Historical), (2, [1], sample_event 2 Historical)] (task_manager_new 2 config_default)))) = Some levels \<and>
    (\<exists>bound. \<forall>j c. (run_step (task_handler (\<lambda>_. []) sample_registry config_default) ^^ j) (run_start levels 2 []) c \<longrightarrow> j \<le> bound)"
  using manager_returns[OF list_petgraph_spec hash_order_id(2) hash_order_id(2) sample_registry_ends, of 2 back_insert
      "[(1, [], sample_event 1 Historical), (2, [1], sample_event 2 Historical)]" config_default "\<lambda>_. []" "[]"]
  by simp blast

end
