(* ===== verification/BatchOrder.thy ===== *)
theory BatchOrder
  imports TaskManager
begin

text \<open>
  A batch of events whose declared dependencies have no cycle (\<open>task_manager.rs\<close> on top of the task network): no dependency is
  lost although the task manager drops every error of the network, and the run keeps to all of them.
\<close>

section \<open>Networks within a relation\<close>

text \<open>All dependencies the network knows are among \<open>D\<close>, and those that wait belong to tasks that are there.\<close>

definition within :: "('k \<times> 'k) set \<Rightarrow> ('k, 't) task_network \<Rightarrow> bool" where
  "within D n \<longleftrightarrow> network_inv n \<and> key_deps (tasks n) \<subseteq> D \<and>
     (\<forall>d ts. map_of (pending_dependents n) d = Some ts \<longrightarrow> (\<forall>t \<in> set ts. (d, t) \<in> D \<and> contains_key (tasks n) t))"

lemma within_declared: "within D n \<Longrightarrow> declared n d t \<Longrightarrow> (d, t) \<in> D \<and> contains_key (tasks n) t"
  by (auto simp: within_def declared_def key_deps_def contains_key_def)

lemma add_node_no_deps:
  assumes "adigraph_inv g" and "\<not> contains_key g k"
  shows "key_deps (snd (add_node k v g)) \<subseteq> key_deps g"
proof -
  have "(i, length (nodes g)) \<notin> set (edges g)" "(length (nodes g), i) \<notin> set (edges g)" for i
    using adigraph_invD(4)[OF assms(1)] by auto
  with assms(2) show ?thesis by (auto simp: key_deps_def add_node_def Let_def contains_key_def split: if_splits)
qed

context petgraph_spec
begin

lemma add_dependency_within:
  assumes "acyclic D" and "within D n" and "(d, t) \<in> D" and "contains_key (tasks n) d" and "contains_key (tasks n) t"
  shows "\<exists>n'. network_add_dependency PG d t n = (Inr (), n') \<and> within D n' \<and>
    contains_key (tasks n') = contains_key (tasks n)"
proof -
  have inv: "adigraph_inv (tasks n)" using assms(2) by (simp add: within_def network_inv_def)
  have "(t, d) \<notin> (key_deps (tasks n))\<^sup>*"
  proof
    assume "(t, d) \<in> (key_deps (tasks n))\<^sup>*"
    then have "(t, d) \<in> D\<^sup>*" using rtrancl_mono[of "key_deps (tasks n)" D] assms(2) by (auto simp: within_def)
    with assms(1,3) show False by (meson acyclic_def rtrancl_into_trancl2)
  qed
  then obtain g where g: "add_dependency PG d t (tasks n) = (Inr (), g)"
    using add_dependency_cases[OF petgraph_spec_axioms inv, of d t] assms(4,5) by auto
  have keys: "contains_key g = contains_key (tasks n)"
    using contains_key_add_dependency[of PG d t "tasks n"] by (simp add: g fun_eq_iff)
  have "adigraph_inv g" using adigraph_inv_add_dependency[OF inv, of d t] by (simp add: g)
  moreover have "key_deps g = insert (d, t) (key_deps (tasks n))"
    by (rule add_dependency_adds[OF petgraph_spec_axioms inv g])
  ultimately have "within D (n\<lparr>tasks := g\<rparr>)"
    using assms(2,3) by (auto simp: within_def network_inv_def pending_ok_def keys)
  with g keys show ?thesis by (simp add: network_add_dependency_def on_tasks_def)
qed

lemma defer_within:
  assumes "acyclic D" and "within D n" and "(d, t) \<in> D" and "contains_key (tasks n) t"
  shows "\<exists>n'. add_dependency_or_defer PG d t n = (Inr (), n') \<and> within D n' \<and> contains_key (tasks n') = contains_key (tasks n)"
proof (cases "contains_key (tasks n) d")
  case True
  with add_dependency_within[OF assms(1-3) True assms(4)] show ?thesis by (simp add: add_dependency_or_defer_def)
next
  case False
  have "network_inv (snd (add_dependency_or_defer PG d t n))" using assms(2) by (intro defer_inv.body_inv) (simp add: within_def)
  with False assms(2-4) show ?thesis
    by (auto simp: add_dependency_or_defer_def within_def split: option.splits)
qed

lemma add_dependencies_within:
  "acyclic D \<Longrightarrow> within D n \<Longrightarrow> (\<forall>d \<in> set deps. (d, t) \<in> D) \<Longrightarrow> contains_key (tasks n) t \<Longrightarrow>
   \<exists>n'. add_dependencies PG t deps n = (Inr (), n') \<and> within D n' \<and> contains_key (tasks n') = contains_key (tasks n)"
proof (induction deps arbitrary: n)
  case (Cons d deps)
  then obtain n1 where n1: "add_dependency_or_defer PG d t n = (Inr (), n1)" "within D n1"
      "contains_key (tasks n1) = contains_key (tasks n)"
    using defer_within[of D n d t] by auto
  with Cons.IH[of n1] Cons.prems show ?case by (auto simp: add_dependencies_def)
qed (simp add: add_dependencies_def)

lemma resolve_within:
  "acyclic D \<Longrightarrow> within D n \<Longrightarrow> (\<forall>t \<in> set ts. (k, t) \<in> D) \<Longrightarrow> contains_key (tasks n) k \<Longrightarrow>
   \<exists>n'. for_each (resolve_body PG k) ts n = (Inr (), n') \<and> within D n' \<and> contains_key (tasks n') = contains_key (tasks n)"
proof (induction ts arbitrary: n)
  case (Cons t ts)
  have "\<exists>n1. resolve_body PG k t n = (Inr (), n1) \<and> within D n1 \<and> contains_key (tasks n1) = contains_key (tasks n)"
    using add_dependency_within[OF Cons.prems(1,2) _ Cons.prems(4), of t] Cons.prems(2,3) by (simp add: resolve_body_def)
  then obtain n1 where n1: "resolve_body PG k t n = (Inr (), n1)" "within D n1"
      "contains_key (tasks n1) = contains_key (tasks n)" by blast
  with Cons.IH[of n1] Cons.prems show ?case by auto
qed simp

lemma inserted_within:
  assumes "within D n" and "\<not> contains_key (tasks n) k"
  shows "within D (inserted k v n)"
proof -
  have "key_deps (snd (add_node k v (tasks n))) \<subseteq> key_deps (tasks n)"
    using assms by (intro add_node_no_deps) (simp_all add: within_def network_inv_def)
  moreover have "network_inv (inserted k v n)" using assms(1) by (intro inserted_inv) (simp add: within_def)
  ultimately show ?thesis
    using assms(1) by (auto simp: within_def inserted_def contains_key_add_node split: if_splits)
qed

lemma add_task_within:
  assumes "acyclic D" and "hash_order ho" and "within D n" and "\<not> contains_key (tasks n) k" and "\<forall>d \<in> set deps. (d, k) \<in> D"
  shows "\<exists>n'. add_task_with_dependencies PG ho k v deps n = (Inr (), n') \<and> within D n'"
proof -
  let ?m = "inserted k v n"
  have "set (ho (waiting_for n k)) = set (waiting_for n k)" using assms(2) by (metis hash_order_def set_mset_mset)
  then have "\<forall>t \<in> set (ho (waiting_for n k)). (k, t) \<in> D"
    using assms(3) by (auto simp: waiting_for_def within_def split: option.splits)
  moreover have "contains_key (tasks ?m) k" by (simp add: inserted_def contains_key_add_node)
  ultimately obtain m where m: "for_each (resolve_body PG k) (ho (waiting_for n k)) ?m = (Inr (), m)" "within D m"
      "contains_key (tasks m) k"
    using resolve_within[OF assms(1) inserted_within[OF assms(3,4)], of "ho (waiting_for n k)" k v] by auto
  from add_dependencies_within[OF assms(1) m(2) assms(5) m(3)] m(1) assms(4) show ?thesis
    by (auto simp: add_task_unfold[OF assms(2)] and_then_def)
qed

end

section \<open>Batches\<close>

definition batch_deps :: "(task_id \<times> task_id list \<times> parallelized_event) list \<Rightarrow> (task_id \<times> task_id) set" where
  "batch_deps xs = {(d, t). \<exists>deps pe. (t, deps, pe) \<in> set xs \<and> d \<in> set deps}"

lemma add_event_within:
  assumes "petgraph_spec PG" and "hash_order ho" and "acyclic D" and "within D (task_network tm)" and "\<forall>d \<in> set deps. (d, k) \<in> D"
  shows "within D (task_network (add_parallelized_event_with_dependencies PG ho ins k deps pe tm)) \<and>
    (\<forall>d \<in> set deps. declared (task_network (add_parallelized_event_with_dependencies PG ho ins k deps pe tm)) d k) \<and>
    (\<forall>d t. declared (task_network tm) d t \<longrightarrow>
       declared (task_network (add_parallelized_event_with_dependencies PG ho ins k deps pe tm)) d t)"
proof (cases "contains_key (tasks (task_network tm)) k")
  case True
  let ?m = "network_modify k (push_event ins pe) (task_network tm)"
  have m: "within D ?m" "contains_key (tasks ?m) k" "pending_ok ?m"
    using assms(4) True network_inv_modify[of "task_network tm" k "push_event ins pe"]
    by (auto simp: within_def network_modify_def network_inv_def)
  obtain n' where n': "add_dependencies PG k deps ?m = (Inr (), n')" "within D n'"
    using petgraph_spec.add_dependencies_within[OF assms(1,3) m(1) assms(5) m(2)] by blast
  have "\<forall>d \<in> set deps. declared n' d k"
    using defer_loop.for_each_post[OF m(3), of PG k deps n'] n'(1) by (simp add: add_dependencies_def)
  moreover have "declared n' d t" if "declared (task_network tm) d t" for d t
    using defer_declared.for_each_inv[of ?m d t PG k deps] n'(1) that
    by (simp add: add_dependencies_def declared_def network_modify_def)
  ultimately show ?thesis
    using True n' by (simp add: add_parallelized_event_with_dependencies_def Let_def)
next
  case False
  obtain n' where n': "add_task_with_dependencies PG ho k (new_task_data ins pe) deps (task_network tm) = (Inr (), n')" "within D n'"
    using petgraph_spec.add_task_within[OF assms(1,3,2,4) False assms(5)] by blast
  have inv: "network_inv (task_network tm)" using assms(4) by (simp add: within_def)
  note e = add_task_effect[OF assms(1,2) inv n'(1)]
  have "declared n' d t" if "declared (task_network tm) d t" for d t
  proof (cases "d = k")
    case True
    then have "(d, t) \<in> key_deps (tasks n')" using e within_declared[OF assms(4) that] that by blast
    then show ?thesis by (simp add: declared_def)
  next
    case False
    then show ?thesis using e that by blast
  qed
  moreover have "\<forall>d \<in> set deps. declared n' d k"
  proof
    fix d assume "d \<in> set deps"
    with e have "if contains_key (tasks n') d then (d, k) \<in> key_deps (tasks n') else declared n' d k" by blast
    then show "declared n' d k" by (simp add: declared_def split: if_splits)
  qed
  ultimately show ?thesis
    using False n' by (simp add: add_parallelized_event_with_dependencies_def Let_def)
qed

lemma add_all_within:
  assumes "petgraph_spec PG" and "hash_order ho" and "acyclic D"
  shows "within D (task_network tm) \<Longrightarrow> batch_deps xs \<subseteq> D \<Longrightarrow>
    within D (task_network (add_all PG ho ins xs tm)) \<and>
    (\<forall>d t. declared (task_network tm) d t \<or> (d, t) \<in> batch_deps xs \<longrightarrow> declared (task_network (add_all PG ho ins xs tm)) d t)"
proof (induction xs arbitrary: tm)
  case (Cons x xs)
  obtain k deps pe where x: "x = (k, deps, pe)" by (cases x)
  let ?tm = "add_parallelized_event_with_dependencies PG ho ins k deps pe tm"
  have D: "\<forall>d \<in> set deps. (d, k) \<in> D" "batch_deps xs \<subseteq> D" using Cons.prems(2) by (auto simp: batch_deps_def x)
  note e = add_event_within[OF assms Cons.prems(1) D(1), of ins pe]
  have "add_all PG ho ins (x # xs) tm = add_all PG ho ins xs ?tm" by (simp add: add_all_def x)
  moreover have "(d, t) \<in> batch_deps (x # xs) \<longleftrightarrow> (d \<in> set deps \<and> t = k) \<or> (d, t) \<in> batch_deps xs" for d t
    by (auto simp: batch_deps_def x)
  ultimately show ?case using Cons.IH[of ?tm, OF _ D(2)] e by auto
qed (simp add: add_all_def batch_deps_def)

lemma add_all_contains:
  assumes "petgraph_spec PG" and "hash_order ho"
  shows "contains_key (tasks (task_network (add_all PG ho ins xs (task_manager_new m cfg)))) k \<longleftrightarrow> k \<in> fst ` set xs"
proof -
  have inv: "tm_inv (task_manager_new m cfg)" by (simp add: tm_inv_def task_manager_new_def)
  have "tm_task (task_manager_new m cfg) k = None"
    by (simp add: tm_task_def task_manager_new_def network_new_def adigraph_new_def adigraph_get_def)
  then have "tm_task (add_all PG ho ins xs (task_manager_new m cfg)) k \<noteq> None \<longleftrightarrow> events_for k xs \<noteq> []"
    by (simp add: add_all_task[OF assms inv])
  moreover have "events_for k xs \<noteq> [] \<longleftrightarrow> k \<in> fst ` set xs" by (force simp: events_for_def filter_empty_conv)
  moreover have "adigraph_inv (tasks (task_network (add_all PG ho ins xs (task_manager_new m cfg))))"
    using add_all_inv[OF assms inv] by (simp add: tm_inv_def network_inv_def)
  ultimately show ?thesis using index_in_range by (fastforce simp: tm_task_def adigraph_get_def contains_key_def split: option.splits)
qed

lemma batch_graph:
  assumes "petgraph_spec PG" and "hash_order ho" and "acyclic (batch_deps xs)"
  shows "key_deps (tasks (task_network (add_all PG ho ins xs (task_manager_new m cfg)))) =
    {(d, t) \<in> batch_deps xs. d \<in> fst ` set xs}"
proof -
  let ?n = "task_network (add_all PG ho ins xs (task_manager_new m cfg))"
  have "within (batch_deps xs) (task_network (task_manager_new m cfg))"
    by (simp add: within_def task_manager_new_def network_new_def adigraph_new_def key_deps_def pending_ok_def network_inv_new[unfolded network_new_def adigraph_new_def])
  from add_all_within[OF assms this subset_refl, of ins]
  have w: "within (batch_deps xs) ?n" "\<And>d t. (d, t) \<in> batch_deps xs \<Longrightarrow> declared ?n d t" by blast+
  have inv: "network_inv ?n" using w(1) by (simp add: within_def)
  have "(d, t) \<in> key_deps (tasks ?n) \<longleftrightarrow> (d, t) \<in> batch_deps xs \<and> d \<in> fst ` set xs" for d t
    unfolding add_all_contains[OF assms(1,2), of ins xs m cfg d, symmetric]
    using w declared_edge[OF inv, of d t] by (auto simp: within_def key_deps_def contains_key_def)
  then show ?thesis by auto
qed

section \<open>Properties\<close>

text \<open>
  C25. If the dependencies the events of a batch declare have no cycle, none is lost, in whatever order the events arrive: the
  graph of the tasks has exactly the declared dependencies on tasks of the batch as its edges, and under every schedule
  of the run a task only starts when all its prerequisites in the batch have ended successfully.
\<close>

theorem batch_runs_in_order:
  assumes "petgraph_spec PG" and "hash_order ho" and "hash_order ho'" and "acyclic (batch_deps xs)"
    and "n = task_network (add_all PG ho ins xs (task_manager_new m cfg))"
    and "topo_sort_by_level PG ho' (tasks n) = Some levels"
    and "(run_step (task_handler show_error procs cfg))\<^sup>*\<^sup>* (run_start levels m s) c"
  shows "key_deps (tasks n) = {(d, t) \<in> batch_deps xs. d \<in> fst ` set xs} \<and>
    (\<forall>i t d. i < length (run_log c) \<longrightarrow> run_log c ! i = Started t \<longrightarrow> (d, t) \<in> batch_deps xs \<longrightarrow> d \<in> fst ` set xs \<longrightarrow>
       Ended d Done \<in> set (take i (run_log c)))"
proof -
  have inv: "network_inv n"
    using add_all_inv[OF assms(1,2), of "task_manager_new m cfg" ins xs] by (simp add: tm_inv_def task_manager_new_def assms(5))
  have m: "max_concurrent_tasks n = m"
    by (simp add: assms(5) add_all_permits[OF assms(2)] task_manager_new_def network_new_def)
  have g: "key_deps (tasks n) = {(d, t) \<in> batch_deps xs. d \<in> fst ` set xs}"
    unfolding assms(5) by (rule batch_graph[OF assms(1,2,4)])
  show ?thesis
    using process_tasks_order[OF assms(1,3) inv assms(6), unfolded m, OF assms(7)] unfolding g by blast
qed

text \<open>The dependent task 2 is added first and waits for task 1; tasks 1 and 2 share one permit.\<close>

definition late_batch :: "(task_id \<times> task_id list \<times> parallelized_event) list" where
  "late_batch = [(2, [1], sample_event 1 Historical), (1, [], sample_event 2 Historical)]"

definition late_levels :: "(task_id \<times> task_data) list list" where
  "late_levels = [[(1, \<lparr>events = [sample_event 2 Historical], latest_only_events = []\<rparr>)],
     [(2, \<lparr>events = [sample_event 1 Historical], latest_only_events = []\<rparr>)]]"

definition late_run :: "(task_id, task_data, (unit, nat list) task_state, nat list) run" where
  "late_run = sched_run 20 (task_handler (\<lambda>_. []) sample_registry config_default) (run_start late_levels 1 [])"

lemma late_levels_sorted:
  "topo_sort_by_level list_petgraph (\<lambda>xs. xs)
     (tasks (task_network (add_all list_petgraph (\<lambda>xs. xs) back_insert late_batch (task_manager_new 1 config_default)))) =
   Some late_levels"
  by code_simp

lemma late_run_log: "run_log late_run = [Started 1, Ended 1 Done, Started 2, Ended 2 Done]"
  by code_simp

theorem batch_runs_in_order_witness:
  "(1, 2) \<in> batch_deps late_batch \<and> Ended 1 Done \<in> set (take 2 (run_log late_run))"
proof -
  have D: "batch_deps late_batch = {(1, 2)}" by (auto simp: batch_deps_def late_batch_def)
  have "acyclic (batch_deps late_batch)" unfolding D by (rule acyclicI_order[where f = "\<lambda>x. 2 - x"]) auto
  from batch_runs_in_order[OF list_petgraph_spec hash_order_id(1) hash_order_id(1) this refl late_levels_sorted
      sched_run_sound[of _ _ 20], of "\<lambda>_. []" sample_registry "[]", folded late_run_def]
  have "\<forall>i t d. i < length (run_log late_run) \<longrightarrow> run_log late_run ! i = Started t \<longrightarrow> (d, t) \<in> batch_deps late_batch \<longrightarrow>
      d \<in> fst ` set late_batch \<longrightarrow> Ended d Done \<in> set (take i (run_log late_run))"
    by blast
  moreover have "2 < length (run_log late_run)" "run_log late_run ! 2 = Started 2" "(1, 2) \<in> batch_deps late_batch"
      "1 \<in> fst ` set late_batch"
    by (simp_all only: late_run_log D) (simp_all add: late_batch_def)
  ultimately show ?thesis by blast
qed

end
