(* ===== verification/JsonSanitize.thy ===== *)
theory JsonSanitize
  imports Prelude
begin

text \<open>
  \<open>sanitize_json_string\<close> of \<open>crates/processors/src/erc.rs\<close>, which escapes the unescaped double quotes inside string values. The loop
  variables \<open>in_string\<close> and \<open>backslash_count\<close> are arguments; \<open>char::is_whitespace\<close> is the parameter \<open>ws\<close>.
\<close>

section \<open>The routine\<close>

abbreviation quote :: char where "quote \<equiv> CHR 0x22"
abbreviation backslash :: char where "backslash \<equiv> CHR 0x5C"

definition ends_string :: "(char \<Rightarrow> bool) \<Rightarrow> string \<Rightarrow> bool" where
  "ends_string ws rest =
     (case dropWhile ws rest of
        [] \<Rightarrow> True
      | c # _ \<Rightarrow> c = CHR '':'' \<or> c = CHR '','' \<or> c = CHR ''}'')"

fun sanitize_loop :: "(char \<Rightarrow> bool) \<Rightarrow> bool \<Rightarrow> nat \<Rightarrow> string \<Rightarrow> string" where
  "sanitize_loop ws in_string backslash_count [] = []"
| "sanitize_loop ws in_string backslash_count (c # cs) =
     (if \<not> in_string then
        if c = quote then quote # sanitize_loop ws True 0 cs
        else c # sanitize_loop ws False backslash_count cs
      else if c = backslash then backslash # sanitize_loop ws True (backslash_count + 1) cs
      else if c = quote then
        if backslash_count mod 2 = 0 then
          if ends_string ws cs then quote # sanitize_loop ws False 0 cs
          else backslash # quote # sanitize_loop ws True 0 cs
        else quote # sanitize_loop ws True 0 cs
      else c # sanitize_loop ws True 0 cs)"

definition sanitize_json_string :: "(char \<Rightarrow> bool) \<Rightarrow> string \<Rightarrow> string" where
  "sanitize_json_string ws s = sanitize_loop ws False 0 s"

text \<open>What the routine relies on: quotes and backslashes are no white space.\<close>

definition ws_ok :: "(char \<Rightarrow> bool) \<Rightarrow> bool" where
  "ws_ok ws \<longleftrightarrow> \<not> ws quote \<and> \<not> ws backslash"

definition ascii_space :: "char \<Rightarrow> bool" where
  "ascii_space c = (c = CHR '' '' \<or> c = CHR 0x0A \<or> c = CHR 0x09 \<or> c = CHR 0x0D)"

section \<open>Lemmas\<close>

text \<open>Outside strings characters are copied, so the character that decided the end of a string is still there.\<close>

lemma ends_string_sanitized:
  "ws_ok ws \<Longrightarrow> ends_string ws cs \<Longrightarrow> ends_string ws (sanitize_loop ws False b cs)"
proof (induction cs arbitrary: b)
  case (Cons c cs)
  show ?case
  proof (cases "ws c")
    case True
    then have "c \<noteq> quote" using Cons.prems(1) by (auto simp: ws_ok_def)
    with True Cons show ?thesis by (simp add: ends_string_def)
  qed (use Cons.prems(2) in \<open>auto simp: ends_string_def\<close>)
qed (simp add: ends_string_def)

lemma sanitize_loop_idempotent:
  assumes "ws_ok ws"
  shows "sanitize_loop ws i b (sanitize_loop ws i b s) = sanitize_loop ws i b s"
proof (induction s arbitrary: i b)
  case (Cons c cs)
  have "(b + 1) mod 2 \<noteq> 0" if "b mod 2 = 0" using that by presburger
  with Cons ends_string_sanitized[OF assms] show ?case by auto
qed simp

lemma sanitize_loop_content:
  "filter (\<lambda>c. c \<noteq> backslash) (sanitize_loop ws i b s) = filter (\<lambda>c. c \<noteq> backslash) s"
  by (induction s arbitrary: i b) auto

definition plain :: "string \<Rightarrow> bool" where
  "plain w = (quote \<notin> set w \<and> backslash \<notin> set w)"

lemma sanitize_plain: "plain w \<Longrightarrow> sanitize_loop ws True 0 (w @ s) = w @ sanitize_loop ws True 0 s"
  by (induction w) (auto simp: plain_def)

section \<open>Properties\<close>

text \<open>
  \<open>sanitize_json_string\<close> only ever inserts backslashes, and running it again changes nothing.
\<close>

theorem sanitize_idempotent:
  assumes "ws_ok ws"
  shows "sanitize_json_string ws (sanitize_json_string ws s) = sanitize_json_string ws s \<and>
    filter (\<lambda>c. c \<noteq> backslash) (sanitize_json_string ws s) = filter (\<lambda>c. c \<noteq> backslash) s"
  by (simp add: sanitize_json_string_def sanitize_loop_idempotent[OF assms] sanitize_loop_content)

theorem sanitize_idempotent_witness:
  "sanitize_json_string ascii_space (sanitize_json_string ascii_space
     [CHR ''{'', quote, CHR ''n'', quote, CHR '':'', quote, quote, CHR ''R'', quote, CHR '' '', CHR ''D'', quote, CHR ''}'']) =
   [CHR ''{'', quote, CHR ''n'', quote, CHR '':'', quote, backslash, quote, CHR ''R'', backslash, quote, CHR '' '', CHR ''D'', quote, CHR ''}'']"
proof -
  have "ws_ok ascii_space" by (simp add: ws_ok_def ascii_space_def)
  from sanitize_idempotent[OF this] show ?thesis
    by (simp add: sanitize_json_string_def ends_string_def ascii_space_def)
qed

text \<open>
  The routine does not know \<open>]\<close> as the end of a string value: the closing quote of the last string of an array is escaped, which
  turns the valid document \<open>["w"]\<close>, for every plain \<open>w\<close>, into the invalid \<open>["w\"]\<close>.
\<close>

theorem sanitize_corrupts_arrays:
  assumes "plain w" and "\<not> ws CHR '']''"
  shows "sanitize_json_string ws ([CHR ''['', quote] @ w @ [quote, CHR '']'']) =
    [CHR ''['', quote] @ w @ [backslash, quote, CHR '']'']"
  using assms by (simp add: sanitize_json_string_def sanitize_plain ends_string_def)

theorem sanitize_corrupts_arrays_witness:
  "sanitize_json_string ascii_space ([CHR ''['', quote] @ ''abc'' @ [quote, CHR '']'']) =
    [CHR ''['', quote] @ ''abc'' @ [backslash, quote, CHR '']'']"
  by (rule sanitize_corrupts_arrays) (simp_all add: plain_def ascii_space_def)

end
