(* ===== verification/MetadataFetch.thy ===== *)
theory MetadataFetch
  imports TaskManager JsonSanitize
begin

text \<open>
  How token metadata is fetched (\<open>crates/processors/src/erc.rs\<close>): calls into contracts with a bounded number of retries, the
  URI that comes back, and the document behind it.

  The provider is a parameter: \<open>call\<close> answers a call and may change the state of the world, so that a method can fail in one round
  and succeed in the next. The Cairo deserialisers, the HTTP and IPFS clients, the data-url parser and the JSON parser are
  parameters as well. The calls made and the delays slept are recorded.
\<close>

section \<open>Calls with retries\<close>

datatype call_error = EntrypointNotFound | ContractNotFound | OtherProviderFailure string

definition is_permanent_error :: "call_error \<Rightarrow> bool" where
  "is_permanent_error e = (case e of EntrypointNotFound \<Rightarrow> True | ContractNotFound \<Rightarrow> True | _ \<Rightarrow> False)"

type_synonym call_answer = "call_error + felt list"

record 'w fetch_state =
  world :: 'w
  call_log :: "(string \<times> call_answer) list"
  sleeps :: "nat list"

type_synonym 'w contract_call = "felt \<Rightarrow> string \<Rightarrow> felt list \<Rightarrow> 'w \<Rightarrow> call_answer \<times> 'w"

definition do_call :: "'w contract_call \<Rightarrow> felt \<Rightarrow> string \<Rightarrow> felt list \<Rightarrow> 'w fetch_state \<Rightarrow> call_answer \<times> 'w fetch_state" where
  "do_call call address method calldata st =
     (let (a, w') = call address method calldata (world st)
      in (a, st\<lparr>world := w', call_log := call_log st @ [(method, a)]\<rparr>))"

definition INITIAL_BACKOFF :: nat where "INITIAL_BACKOFF = 100"
definition PROVIDER_MAX_RETRIES :: nat where "PROVIDER_MAX_RETRIES = 5"

text \<open>One round over the methods: \<open>permanent_failures\<close> and \<open>has_transient_error\<close> are threaded through, a success ends it.\<close>

fun uri_round ::
  "'w contract_call \<Rightarrow> felt \<Rightarrow> felt list \<Rightarrow> string list \<Rightarrow> string list \<Rightarrow> bool \<Rightarrow> 'w fetch_state \<Rightarrow>
   (felt list + string list \<times> bool) \<times> 'w fetch_state" where
  "uri_round call address calldata [] perm transient st = (Inr (perm, transient), st)"
| "uri_round call address calldata (m # ms) perm transient st =
     (if m \<in> set perm then uri_round call address calldata ms perm transient st
      else (case do_call call address m calldata st of
              (Inr result, st') \<Rightarrow> (Inl result, st')
            | (Inl e, st') \<Rightarrow>
                if is_permanent_error e then uri_round call address calldata ms (m # perm) transient st'
                else uri_round call address calldata ms perm True st'))"

text \<open>The loop: \<open>left\<close> is \<open>PROVIDER_MAX_RETRIES - retries\<close>.\<close>

fun uri_loop ::
  "'w contract_call \<Rightarrow> felt \<Rightarrow> felt list \<Rightarrow> string list \<Rightarrow> nat \<Rightarrow> nat \<Rightarrow> string list \<Rightarrow> 'w fetch_state \<Rightarrow>
   felt list option \<times> 'w fetch_state" where
  "uri_loop call address calldata ms left backoff perm st =
     (case uri_round call address calldata ms perm False st of
        (Inl result, st') \<Rightarrow> (Some result, st')
      | (Inr (perm', transient), st') \<Rightarrow>
          if length perm' = 3 then (None, st')
          else if \<not> transient then (None, st')
          else (case left of
                  0 \<Rightarrow> (None, st')
                | Suc left' \<Rightarrow>
                    uri_loop call address calldata ms left' (backoff * 2) perm' (st'\<lparr>sleeps := sleeps st' @ [backoff]\<rparr>)))"

definition try_fetch_contract_uri_sequence ::
  "'w contract_call \<Rightarrow> felt \<Rightarrow> 'w fetch_state \<Rightarrow> felt list option \<times> 'w fetch_state" where
  "try_fetch_contract_uri_sequence call contract_address =
     uri_loop call contract_address [] [''contract_uri'', ''contractURI'', ''uri''] PROVIDER_MAX_RETRIES INITIAL_BACKOFF []"

text \<open>The calldata is the token id as two field elements, \<open>low\<close> and \<open>high\<close>.\<close>

definition u256_low :: "u256 \<Rightarrow> felt" where "u256_low v = unat v mod 2 ^ 128"
definition u256_high :: "u256 \<Rightarrow> felt" where "u256_high v = unat v div 2 ^ 128"

definition try_fetch_token_uri_sequence ::
  "'w contract_call \<Rightarrow> felt \<Rightarrow> u256 \<Rightarrow> 'w fetch_state \<Rightarrow> felt list option \<times> 'w fetch_state" where
  "try_fetch_token_uri_sequence call contract_address token_id =
     uri_loop call contract_address [u256_low token_id, u256_high token_id] [''token_uri'', ''tokenURI'', ''uri'']
       PROVIDER_MAX_RETRIES INITIAL_BACKOFF []"

section \<open>Name, symbol and decimals\<close>

text \<open>
  The batch of two or three calls; the answer is a list of responses, each the result of a call or something else. A list that is
  too short makes the indexing panic.
\<close>

record cairo_decoders =
  short_string :: "felt \<Rightarrow> string option"
  byte_array :: "felt list \<Rightarrow> (string + string) option"
  felt_array :: "felt list \<Rightarrow> felt list option"
  de_u8 :: "felt list \<Rightarrow> nat option"

type_synonym 'w batch_call = "felt \<Rightarrow> string list \<Rightarrow> 'w \<Rightarrow> (call_error + felt list option list) \<times> 'w"

definition unwrap_or_empty :: "string option \<Rightarrow> string" where
  "unwrap_or_empty s = (case s of None \<Rightarrow> [] | Some x \<Rightarrow> x)"

text \<open>\<open>ByteArray::cairo_deserialize(..).ok().and_then(|ba| ba.to_string().ok())\<close>: \<open>None\<close> if it is no byte array, \<open>Some (Inl _)\<close> if it is
  one that is no UTF-8.\<close>

definition parse_text :: "cairo_decoders \<Rightarrow> felt list option \<Rightarrow> string" where
  "parse_text D response =
     (case response of
        None \<Rightarrow> []
      | Some [f] \<Rightarrow> unwrap_or_empty (short_string D f)
      | Some fs \<Rightarrow> (case byte_array D fs of Some (Inr s) \<Rightarrow> s | _ \<Rightarrow> []))"

definition parse_contract_metadata ::
  "cairo_decoders \<Rightarrow> bool \<Rightarrow> felt list option list \<Rightarrow> (string \<times> string \<times> nat) completion" where
  "parse_contract_metadata D is_erc20 results =
     (if length results < (if is_erc20 then 3 else 2) then Panic
      else Ok (parse_text D (results ! 0), parse_text D (results ! 1),
               if is_erc20
               then (case results ! 2 of None \<Rightarrow> 0 | Some fs \<Rightarrow> (case de_u8 D fs of None \<Rightarrow> 0 | Some v \<Rightarrow> v))
               else 0))"

fun metadata_loop ::
  "cairo_decoders \<Rightarrow> 'w batch_call \<Rightarrow> felt \<Rightarrow> bool \<Rightarrow> nat \<Rightarrow> nat \<Rightarrow> 'w fetch_state \<Rightarrow>
   (string \<times> string \<times> nat) option completion \<times> 'w fetch_state" where
  "metadata_loop D batch address is_erc20 left backoff st =
     (case batch address ([''name'', ''symbol''] @ (if is_erc20 then [''decimals''] else [])) (world st) of
        (Inr results, w') \<Rightarrow>
          (case parse_contract_metadata D is_erc20 results of
             Ok x \<Rightarrow> (Ok (Some x), st\<lparr>world := w'\<rparr>)
           | Err e \<Rightarrow> (Err e, st\<lparr>world := w'\<rparr>)
           | Panic \<Rightarrow> (Panic, st\<lparr>world := w'\<rparr>))
      | (Inl e, w') \<Rightarrow>
          if is_permanent_error e then (Ok None, st\<lparr>world := w'\<rparr>)
          else (case left of
                  0 \<Rightarrow> (Ok None, st\<lparr>world := w'\<rparr>)
                | Suc left' \<Rightarrow>
                    metadata_loop D batch address is_erc20 left' (backoff * 2)
                      (st\<lparr>world := w', sleeps := sleeps st @ [backoff]\<rparr>)))"

definition try_fetch_contract_metadata_sequence ::
  "cairo_decoders \<Rightarrow> 'w batch_call \<Rightarrow> felt \<Rightarrow> bool \<Rightarrow> 'w fetch_state \<Rightarrow>
   (string \<times> string \<times> nat) option completion \<times> 'w fetch_state" where
  "try_fetch_contract_metadata_sequence D batch contract_address is_erc20 =
     metadata_loop D batch contract_address is_erc20 PROVIDER_MAX_RETRIES INITIAL_BACKOFF"

section \<open>Contract and token URIs\<close>

text \<open>All errors of this part are \<open>TokenMetadataError\<close>s, carried by their message.\<close>

definition token_error :: "string \<Rightarrow> processor_error" where
  "token_error e = PTokenMetadataError e"

fun short_strings :: "cairo_decoders \<Rightarrow> felt list \<Rightarrow> string option" where
  "short_strings D [] = Some []"
| "short_strings D (f # fs) =
     (case short_string D f of
        None \<Rightarrow> None
      | Some s \<Rightarrow> (case short_strings D fs of None \<Rightarrow> None | Some r \<Rightarrow> Some (s @ r)))"

text \<open>A URI is a \<open>ByteArray\<close> or an \<open>Array<felt>\<close> of short strings: \<open>Ok None\<close> if it is neither.\<close>

definition decode_uri :: "cairo_decoders \<Rightarrow> felt list \<Rightarrow> string option completion" where
  "decode_uri D uri =
     (case byte_array D uri of
        Some (Inr s) \<Rightarrow> Ok (Some s)
      | Some (Inl e) \<Rightarrow> Err (token_error e)
      | None \<Rightarrow>
          (case felt_array D uri of
             Some fs \<Rightarrow> (case short_strings D fs of
                          Some s \<Rightarrow> Ok (Some s)
                        | None \<Rightarrow> Err (token_error ''ParseCairoShortString''))
           | None \<Rightarrow> Ok None))"

definition fetch_contract_uri ::
  "cairo_decoders \<Rightarrow> 'w contract_call \<Rightarrow> felt \<Rightarrow> 'w fetch_state \<Rightarrow> string option completion \<times> 'w fetch_state" where
  "fetch_contract_uri D call contract_address st =
     (case try_fetch_contract_uri_sequence call contract_address st of
        (None, st') \<Rightarrow> (Ok None, st')
      | (Some uri, st') \<Rightarrow> (decode_uri D uri, st'))"

text \<open>\<open>str::replace\<close>: the non-overlapping matches from the left.\<close>

definition strip_prefix :: "string \<Rightarrow> string \<Rightarrow> string option" where
  "strip_prefix p s = (if take (length p) s = p then Some (drop (length p) s) else None)"

definition starts_with :: "string \<Rightarrow> string \<Rightarrow> bool" where
  "starts_with s p = (take (length p) s = p)"

function replace_all :: "string \<Rightarrow> string \<Rightarrow> string \<Rightarrow> string" where
  "replace_all pat rep s =
     (if s = [] \<or> pat = [] then s
      else if starts_with s pat then rep @ replace_all pat rep (drop (length pat) s)
      else hd s # replace_all pat rep (tl s))"
  by pat_completeness auto
termination by (relation "measure (\<lambda>(_, _, s). length s)") auto

declare replace_all.simps [simp del]

definition fetch_token_uri ::
  "cairo_decoders \<Rightarrow> (u256 \<Rightarrow> string) \<Rightarrow> 'w contract_call \<Rightarrow> felt \<Rightarrow> u256 \<Rightarrow> 'w fetch_state \<Rightarrow>
   string completion \<times> 'w fetch_state" where
  "fetch_token_uri D hex64 call contract_address token_id st =
     (case try_fetch_token_uri_sequence call contract_address token_id st of
        (None, st') \<Rightarrow> (Ok [], st')
      | (Some uri, st') \<Rightarrow>
          (case decode_uri D uri of
             Ok u \<Rightarrow> (Ok (replace_all ''{id}'' (hex64 token_id) (unwrap_or_empty u)), st')
           | Err e \<Rightarrow> (Err e, st')
           | Panic \<Rightarrow> (Panic, st')))"


section \<open>The metadata document\<close>

text \<open>
  The clients and parsers: \<open>http\<close> and \<open>ipfs\<close> fetch bytes, \<open>json_of_bytes\<close> and \<open>json_of_string\<close> parse, \<open>data_url\<close> gives the MIME
  type and the decoded text (lossy UTF-8) of a data URI. Every failure carries its message.
\<close>

record ('w, 'j) web =
  http :: "string \<Rightarrow> 'w \<Rightarrow> (string + string) \<times> 'w"
  ipfs :: "string \<Rightarrow> 'w \<Rightarrow> (string + string) \<times> 'w"
  json_of_bytes :: "string \<Rightarrow> string + 'j"
  json_of_string :: "string \<Rightarrow> string + 'j"
  json_to_string :: "'j \<Rightarrow> string + string"
  data_url :: "string \<Rightarrow> string + string \<times> (string + string)"
  is_space :: "char \<Rightarrow> bool"

definition is_ascii_control :: "char \<Rightarrow> bool" where
  "is_ascii_control c = (of_char c < (32 :: nat) \<or> of_char c = (127 :: nat))"

definition to_completion :: "string + 'a \<Rightarrow> 'a completion" where
  "to_completion r = (case r of Inl e \<Rightarrow> Err (token_error e) | Inr a \<Rightarrow> Ok a)"

definition fetch_json :: "('w, 'j) web \<Rightarrow> (string + string) \<times> 'w \<Rightarrow> 'j completion \<times> 'w" where
  "fetch_json W r = (case r of (Inl e, w') \<Rightarrow> (Err (token_error e), w') | (Inr bytes, w') \<Rightarrow> (to_completion (json_of_bytes W bytes), w'))"

definition fetch_data_uri :: "('w, 'j) web \<Rightarrow> string \<Rightarrow> 'j completion" where
  "fetch_data_uri W token_uri =
     (case data_url W (replace_all ''#'' ''%23'' token_uri) of
        Inl e \<Rightarrow> Err (token_error e)
      | Inr (mime, body) \<Rightarrow>
          if mime \<noteq> ''application/json'' then Err (token_error (''Invalid mime type: '' @ mime))
          else (case body of
                  Inl e \<Rightarrow> Err (token_error e)
                | Inr text \<Rightarrow>
                    to_completion (json_of_string W
                      (sanitize_json_string (is_space W) (filter (\<lambda>c. \<not> is_ascii_control c) text)))))"

definition fetch_metadata :: "('w, 'j) web \<Rightarrow> string \<Rightarrow> 'w \<Rightarrow> 'j completion \<times> 'w" where
  "fetch_metadata W token_uri w =
     (if starts_with token_uri ''http'' \<or> starts_with token_uri ''https'' then fetch_json W (http W token_uri w)
      else if starts_with token_uri ''ipfs'' then
        (case strip_prefix ''ipfs://'' token_uri of
           None \<Rightarrow> (Panic, w)
         | Some cid \<Rightarrow> fetch_json W (ipfs W cid w))
      else if starts_with token_uri ''data'' then (fetch_data_uri W token_uri, w)
      else (case json_of_string W token_uri of
              Inr json \<Rightarrow> (Ok json, w)
            | Inl _ \<Rightarrow> (Err (token_error (''Unsupported URI scheme: '' @ token_uri)), w)))"

definition on_world :: "('w \<Rightarrow> 'a \<times> 'w) \<Rightarrow> 'w fetch_state \<Rightarrow> 'a \<times> 'w fetch_state" where
  "on_world m st = (let (a, w') = m (world st) in (a, st\<lparr>world := w'\<rparr>))"

definition fetch_contract_metadata ::
  "cairo_decoders \<Rightarrow> ('w, 'j) web \<Rightarrow> 'w batch_call \<Rightarrow> 'w contract_call \<Rightarrow> felt \<Rightarrow> bool \<Rightarrow> 'w fetch_state \<Rightarrow>
   (string \<times> string \<times> nat \<times> string option) completion \<times> 'w fetch_state" where
  "fetch_contract_metadata D W batch call contract_address is_erc20 st =
     (case try_fetch_contract_metadata_sequence D batch contract_address is_erc20 st of
        (Panic, st1) \<Rightarrow> (Panic, st1)
      | (r, st1) \<Rightarrow>
          (let (name, symbol, decimals) = (case r of Ok (Some x) \<Rightarrow> x | _ \<Rightarrow> ([], [], 0)) in
           case fetch_contract_uri D call contract_address st1 of
             (Panic, st2) \<Rightarrow> (Panic, st2)
           | (Err e, st2) \<Rightarrow> (Err e, st2)
           | (Ok None, st2) \<Rightarrow> (Ok (name, symbol, decimals, None), st2)
           | (Ok (Some uri), st2) \<Rightarrow>
               (case on_world (fetch_metadata W uri) st2 of
                  (Panic, st3) \<Rightarrow> (Panic, st3)
                | (Err _, st3) \<Rightarrow> (Ok (name, symbol, decimals, None), st3)
                | (Ok json, st3) \<Rightarrow>
                    (Ok (name, symbol, decimals,
                         (case json_to_string W json of Inr s \<Rightarrow> Some s | Inl _ \<Rightarrow> None)), st3))))"

definition fetch_token_metadata ::
  "cairo_decoders \<Rightarrow> (u256 \<Rightarrow> string) \<Rightarrow> ('w, 'j) web \<Rightarrow> 'w contract_call \<Rightarrow> felt \<Rightarrow> u256 \<Rightarrow> 'w fetch_state \<Rightarrow>
   string completion \<times> 'w fetch_state" where
  "fetch_token_metadata D hex64 W call contract_address token_id st =
     (case fetch_token_uri D hex64 call contract_address token_id st of
        (Panic, st1) \<Rightarrow> (Panic, st1)
      | (Err e, st1) \<Rightarrow> (Err e, st1)
      | (Ok [], st1) \<Rightarrow> (Ok [], st1)
      | (Ok token_uri, st1) \<Rightarrow>
          (case on_world (fetch_metadata W token_uri) st1 of
             (Panic, st2) \<Rightarrow> (Panic, st2)
           | (Err _, st2) \<Rightarrow> (Ok [], st2)
           | (Ok json, st2) \<Rightarrow> (to_completion (json_to_string W json), st2)))"

section \<open>The retry loop\<close>

definition succeeded :: "string \<times> call_answer \<Rightarrow> bool" where
  "succeeded x = (case snd x of Inr _ \<Rightarrow> True | Inl _ \<Rightarrow> False)"

definition failed_permanently :: "string \<times> call_answer \<Rightarrow> bool" where
  "failed_permanently x = (case snd x of Inl e \<Rightarrow> is_permanent_error e | Inr _ \<Rightarrow> False)"

text \<open>No method is called again after it has failed permanently, and nothing is called after a success.\<close>

fun log_ok :: "(string \<times> call_answer) list \<Rightarrow> bool" where
  "log_ok [] = True"
| "log_ok (x # xs) = (log_ok xs \<and> (succeeded x \<longrightarrow> xs = []) \<and> (failed_permanently x \<longrightarrow> fst x \<notin> fst ` set xs))"

definition perm_of :: "(string \<times> call_answer) list \<Rightarrow> string set" where
  "perm_of log = fst ` {x \<in> set log. failed_permanently x}"

definition no_success :: "(string \<times> call_answer) list \<Rightarrow> bool" where
  "no_success log = list_all (\<lambda>x. \<not> succeeded x) log"

lemma perm_of_Cons: "perm_of (x # xs) = (if failed_permanently x then insert (fst x) (perm_of xs) else perm_of xs)"
  by (auto simp: perm_of_def)

lemma log_ok_snoc:
  "log_ok (xs @ [x]) \<longleftrightarrow> log_ok xs \<and> no_success xs \<and> fst x \<notin> perm_of xs"
proof (induction xs)
  case (Cons y ys)
  then show ?case by (auto simp: no_success_def perm_of_Cons)
qed (simp add: no_success_def perm_of_def)

lemma perm_of_snoc: "perm_of (xs @ [x]) = (if failed_permanently x then insert (fst x) (perm_of xs) else perm_of xs)"
  by (auto simp: perm_of_def)

lemma uri_round_spec:
  assumes "log_ok (call_log st)" and "no_success (call_log st)" and "set perm = perm_of (call_log st)"
    and "uri_round call address calldata ms perm transient st = (r, st')"
  shows "log_ok (call_log st') \<and> sleeps st' = sleeps st \<and> length (call_log st') \<le> length (call_log st) + length ms \<and>
    (case r of
       Inl res \<Rightarrow> \<exists>m log. call_log st' = log @ [(m, Inr res)]
     | Inr (perm', _) \<Rightarrow> no_success (call_log st') \<and> set perm' = perm_of (call_log st'))"
  using assms
proof (induction ms arbitrary: perm transient st)
  case (Cons m ms)
  show ?case
  proof (cases "m \<in> set perm")
    case True
    then have "uri_round call address calldata ms perm transient st = (r, st')" using Cons.prems(4) by simp
    from Cons.IH[OF Cons.prems(1-3) this] show ?thesis by auto
  next
    case False
    obtain a w' where a: "call address m calldata (world st) = (a, w')" by fastforce
    let ?st = "st\<lparr>world := w', call_log := call_log st @ [(m, a)]\<rparr>"
    have dc: "do_call call address m calldata st = (a, ?st)" by (simp add: do_call_def a)
    have lok: "log_ok (call_log ?st)"
      using Cons.prems(1,2,3) False by (simp add: log_ok_snoc)
    show ?thesis
    proof (cases a)
      case (Inr res)
      then have "r = Inl res" "st' = ?st" using Cons.prems(4) False dc by auto
      then show ?thesis using lok Inr by auto
    next
      case (Inl e)
      let ?perm = "if is_permanent_error e then m # perm else perm"
      let ?tr = "if is_permanent_error e then transient else True"
      have ns: "no_success (call_log ?st)" using Cons.prems(2) Inl by (simp add: no_success_def succeeded_def)
      have sp: "set ?perm = perm_of (call_log ?st)"
        using Cons.prems(3) Inl by (simp add: perm_of_snoc failed_permanently_def)
      have "uri_round call address calldata ms ?perm ?tr ?st = (r, st')"
        using Cons.prems(4) False dc Inl by (auto split: if_splits)
      from Cons.IH[OF lok ns sp this] show ?thesis by auto
    qed
  qed
qed auto

text \<open>The delays of \<open>k\<close> retries: doubling from the first.\<close>

fun delays :: "nat \<Rightarrow> nat \<Rightarrow> nat list" where
  "delays b 0 = []"
| "delays b (Suc k) = b # delays (2 * b) k"

lemma sum_delays: "sum_list (delays b k) = b * (2 ^ k - 1)"
  by (induction k arbitrary: b) (auto simp: algebra_simps)


lemma uri_loop_spec:
  assumes "log_ok (call_log st)" and "no_success (call_log st)" and "set perm = perm_of (call_log st)"
    and "uri_loop call address calldata ms left backoff perm st = (r, st')"
  shows "log_ok (call_log st') \<and> length (call_log st') \<le> length (call_log st) + (left + 1) * length ms \<and>
    (\<exists>k \<le> left. sleeps st' = sleeps st @ delays backoff k) \<and>
    (case r of
       Some res \<Rightarrow> \<exists>m log. call_log st' = log @ [(m, Inr res)]
     | None \<Rightarrow> no_success (call_log st'))"
  using assms
proof (induction left arbitrary: backoff perm st)
  case 0
  obtain q st1 where rd: "uri_round call address calldata ms perm False st = (q, st1)" by fastforce
  note sp = uri_round_spec[OF 0(1-3) rd]
  show ?case using sp 0(4) rd by (auto split: sum.splits if_splits intro: exI[of _ 0])
next
  case (Suc left)
  obtain q st1 where rd: "uri_round call address calldata ms perm False st = (q, st1)" by fastforce
  note sp = uri_round_spec[OF Suc.prems(1-3) rd]
  show ?case
  proof (cases "\<exists>perm'. q = Inr (perm', True) \<and> length perm' \<noteq> 3")
    case True
    then obtain perm' where q: "q = Inr (perm', True)" "length perm' \<noteq> 3" by blast
    let ?st = "st1\<lparr>sleeps := sleeps st1 @ [backoff]\<rparr>"
    have nx: "uri_loop call address calldata ms left (backoff * 2) perm' ?st = (r, st')"
      using Suc.prems(4) rd q by simp
    have pre: "log_ok (call_log ?st)" "no_success (call_log ?st)" "set perm' = perm_of (call_log ?st)"
      using sp q by auto
    from Suc.IH[OF pre nx] obtain k where k: "k \<le> left" "sleeps st' = sleeps ?st @ delays (backoff * 2) k" by blast
    then have "Suc k \<le> Suc left \<and> sleeps st' = sleeps st @ delays backoff (Suc k)" using sp by (simp add: mult.commute)
    with Suc.IH[OF pre nx] sp show ?thesis by (auto intro!: exI[of _ "Suc k"])
  next
    case False
    then have "(\<exists>res. q = Inl res \<and> r = Some res \<and> st' = st1) \<or> (\<exists>x. q = Inr x \<and> r = None \<and> st' = st1)"
      using Suc.prems(4) rd by (auto split: sum.splits if_splits)
    then show ?thesis using sp by (auto intro: exI[of _ 0])
  qed
qed

declare uri_loop.simps [simp del]

definition fresh_fetch :: "'w \<Rightarrow> 'w fetch_state" where
  "fresh_fetch w = \<lparr>world = w, call_log = [], sleeps = []\<rparr>"

definition fetch_ok :: "felt list option \<times> 'w fetch_state \<Rightarrow> bool" where
  "fetch_ok res \<longleftrightarrow> (let (r, st) = res in
     log_ok (call_log st) \<and> length (call_log st) \<le> 18 \<and> sum_list (sleeps st) \<le> 3100 \<and>
     (case r of
        Some x \<Rightarrow> \<exists>m log. call_log st = log @ [(m, Inr x)]
      | None \<Rightarrow> no_success (call_log st)))"

lemma uri_loop_ok:
  assumes "length ms = 3"
  shows "fetch_ok (uri_loop call address calldata ms PROVIDER_MAX_RETRIES INITIAL_BACKOFF [] (fresh_fetch w))"
proof -
  obtain r st' where l: "uri_loop call address calldata ms PROVIDER_MAX_RETRIES INITIAL_BACKOFF [] (fresh_fetch w) = (r, st')"
    by fastforce
  have "log_ok (call_log (fresh_fetch w))" "no_success (call_log (fresh_fetch w))"
    "set ([] :: string list) = perm_of (call_log (fresh_fetch w))"
    by (simp_all add: fresh_fetch_def no_success_def perm_of_def)
  note sp = uri_loop_spec[OF this l]
  then obtain k where k: "k \<le> 5" "sleeps st' = delays 100 k"
    by (auto simp: fresh_fetch_def PROVIDER_MAX_RETRIES_def INITIAL_BACKOFF_def)
  have "(2::nat) ^ k \<le> 2 ^ 5" using k(1) by (intro power_increasing) auto
  then have "sum_list (sleeps st') \<le> 3100" by (simp add: k(2) sum_delays)
  moreover have "length (call_log st') \<le> 18" using sp by (simp add: assms fresh_fetch_def PROVIDER_MAX_RETRIES_def)
  ultimately show ?thesis using sp unfolding l fetch_ok_def by simp
qed

section \<open>Panics\<close>

lemma to_completion_no_panic [simp]: "to_completion x \<noteq> Panic"
  by (simp add: to_completion_def split: sum.split)

lemma fetch_metadata_panic_iff:
  "fst (fetch_metadata W uri w) = Panic \<longleftrightarrow> starts_with uri ''ipfs'' \<and> \<not> starts_with uri ''ipfs://''"
proof -
  have nh: "\<not> (starts_with uri ''http'' \<or> starts_with uri ''https'')" if "starts_with uri ''ipfs''"
    using that by (cases uri) (auto simp: starts_with_def)
  have np: "fst (fetch_json W y) \<noteq> Panic" for y
    by (auto simp: fetch_json_def split: sum.splits prod.splits)
  have nd: "fetch_data_uri W uri \<noteq> Panic"
    by (auto simp: fetch_data_uri_def split: sum.splits prod.splits)
  show ?thesis
    using nh np nd
    by (auto simp: fetch_metadata_def strip_prefix_def starts_with_def split: sum.splits)
qed

section \<open>Properties\<close>

text \<open>
  The retries for a contract or token URI end, whatever the provider answers: at most 18 calls and 3.1 seconds of sleep; a method
  that failed permanently is never called again; the result is the answer of the first call that succeeded, and nothing
  exactly if none did.
\<close>

theorem uri_sequence_correct:
  "fetch_ok (try_fetch_contract_uri_sequence call contract_address (fresh_fetch w)) \<and>
   fetch_ok (try_fetch_token_uri_sequence call contract_address token_id (fresh_fetch w))"
  unfolding try_fetch_contract_uri_sequence_def try_fetch_token_uri_sequence_def by (intro conjI uri_loop_ok) simp_all

text \<open>
  \<open>fetch_metadata\<close> panics exactly on a URI that starts with \<open>ipfs\<close> but not with \<open>ipfs://\<close>; every other failure is an error value.
\<close>

theorem fetch_metadata_panics:
  "fst (fetch_metadata W uri w) = Panic \<longleftrightarrow> starts_with uri ''ipfs'' \<and> \<not> starts_with uri ''ipfs://''"
  by (rule fetch_metadata_panic_iff)

text \<open>
  \<open>fetch_token_metadata\<close> falls back to empty metadata on every failure of the provider or of the document; it fails only if the
  token's URI itself does not decode, or the document cannot be printed again.
\<close>

theorem token_metadata_failures:
  "case fetch_token_metadata D hex64 W call contract_address token_id st of
     (Ok _, _) \<Rightarrow> True
   | (Err e, _) \<Rightarrow> (\<exists>uri. decode_uri D uri = Err e) \<or> (\<exists>json m. json_to_string W json = Inl m \<and> e = token_error m)
   | (Panic, _) \<Rightarrow> (\<exists>uri. starts_with uri ''ipfs'' \<and> \<not> starts_with uri ''ipfs://'')"
proof -
  have d: "decode_uri D u \<noteq> Panic" for u
    by (auto simp: decode_uri_def split: option.splits sum.splits)
  have u: "case fetch_token_uri D hex64 call contract_address token_id st of
      (Ok _, _) \<Rightarrow> True | (Err e, _) \<Rightarrow> (\<exists>uri. decode_uri D uri = Err e) | (Panic, _) \<Rightarrow> False"
    using d by (auto simp: fetch_token_uri_def split: prod.splits option.splits completion.splits)
  have p: "\<exists>uri. starts_with uri ''ipfs'' \<and> \<not> starts_with uri ''ipfs://''" if "on_world (fetch_metadata W v) x = (Panic, y)" for v x y
    using that fetch_metadata_panic_iff[of W v "world x"] by (auto simp: on_world_def split: prod.splits)
  show ?thesis
    using u p
    by (auto simp: fetch_token_metadata_def to_completion_def split: prod.splits completion.splits list.splits sum.splits)
qed

end
