(* ===== verification/TokenRegistration.thy ===== *)
theory TokenRegistration
  imports ErcCache
begin

text \<open>
  Concurrent registration of tokens: \<open>try_register_token_contract\<close> and \<open>try_register_nft_token_metadata\<close> of
  \<open>crates/processors/src/erc.rs\<close>, run by any number of tasks at once over the shared cache.

  A task stands for one call; its phase is the point it has reached. Between two phases another task may run. Whether the fetch
  and the write to storage succeed is open. \<open>held\<close> is the set of locked mutexes, \<open>nft_permits\<close> the free permits of
  \<open>nft_metadata_semaphore\<close>, \<open>stored\<close> the successful calls of \<open>register_token_contract\<close> and \<open>register_nft_token\<close> in order.
\<close>

section \<open>Calls as state machines\<close>

datatype reg_phase =
  Begin
| Locking nat
| Locked nat
| AwaitPermit nat
| Fetching nat
| Storing nat
| Marking nat
| Counting nat
| Returned bool

record reg_state =
  reg_cache :: erc_cache
  held :: "nat set"
  nft_permits :: nat
  stored :: "token_id list"
  calls :: "(token_id \<times> reg_phase) list"

text \<open>\<open>TokenId::Contract(contract_address)\<close> of the contract a token belongs to; \<open>count_nft\<close> is the last effect of an NFT registration.\<close>

definition count_nft :: "u256_ops \<Rightarrow> token_id \<Rightarrow> erc_cache \<Rightarrow> erc_cache" where
  "count_nft U t c = update_balance_diff U (Contract (token_contract_address t)) 0 1 1 c"

definition release :: "token_id \<Rightarrow> nat \<Rightarrow> bool \<Rightarrow> reg_state \<Rightarrow> reg_state" where
  "release t m permit s = s\<lparr>held := held s - {m}, nft_permits := nft_permits s + (if permit \<and> is_nft t then 1 else 0)\<rparr>"

definition set_phase :: "nat \<Rightarrow> token_id \<Rightarrow> reg_phase \<Rightarrow> reg_state \<Rightarrow> reg_state" where
  "set_phase i t p s = s\<lparr>calls := (calls s)[i := (t, p)]\<rparr>"

inductive reg_step :: "u256_ops \<Rightarrow> reg_state \<Rightarrow> reg_state \<Rightarrow> bool" for U where
  already: "i < length (calls s) \<Longrightarrow> calls s ! i = (t, Begin) \<Longrightarrow>
    get_token_registration_lock t (reg_cache s) = (None, c) \<Longrightarrow>
    reg_step U s (set_phase i t (Returned True) (s\<lparr>reg_cache := c\<rparr>))"
| get_lock: "i < length (calls s) \<Longrightarrow> calls s ! i = (t, Begin) \<Longrightarrow>
    get_token_registration_lock t (reg_cache s) = (Some m, c) \<Longrightarrow>
    reg_step U s (set_phase i t (Locking m) (s\<lparr>reg_cache := c\<rparr>))"
| lock: "i < length (calls s) \<Longrightarrow> calls s ! i = (t, Locking m) \<Longrightarrow> m \<notin> held s \<Longrightarrow>
    reg_step U s (set_phase i t (Locked m) (s\<lparr>held := insert m (held s)\<rparr>))"
| check_registered: "i < length (calls s) \<Longrightarrow> calls s ! i = (t, Locked m) \<Longrightarrow> is_token_registered (reg_cache s) t \<Longrightarrow>
    reg_step U s (set_phase i t (Returned True) (release t m False s))"
| check_missing: "i < length (calls s) \<Longrightarrow> calls s ! i = (t, Locked m) \<Longrightarrow> \<not> is_token_registered (reg_cache s) t \<Longrightarrow>
    reg_step U s (set_phase i t (if is_nft t then AwaitPermit m else Fetching m) s)"
| permit: "i < length (calls s) \<Longrightarrow> calls s ! i = (t, AwaitPermit m) \<Longrightarrow> 0 < nft_permits s \<Longrightarrow>
    reg_step U s (set_phase i t (Fetching m) (s\<lparr>nft_permits := nft_permits s - 1\<rparr>))"
| fetch_ok: "i < length (calls s) \<Longrightarrow> calls s ! i = (t, Fetching m) \<Longrightarrow>
    reg_step U s (set_phase i t (Storing m) s)"
| fetch_error: "i < length (calls s) \<Longrightarrow> calls s ! i = (t, Fetching m) \<Longrightarrow>
    reg_step U s (set_phase i t (Returned False) (release t m True s))"
| store_ok: "i < length (calls s) \<Longrightarrow> calls s ! i = (t, Storing m) \<Longrightarrow>
    reg_step U s (set_phase i t (Marking m) (s\<lparr>stored := stored s @ [t]\<rparr>))"
| store_error: "i < length (calls s) \<Longrightarrow> calls s ! i = (t, Storing m) \<Longrightarrow>
    reg_step U s (set_phase i t (Returned False) (release t m True s))"
| mark: "i < length (calls s) \<Longrightarrow> calls s ! i = (t, Marking m) \<Longrightarrow>
    reg_step U s (set_phase i t (Counting m) (s\<lparr>reg_cache := mark_token_registered t (reg_cache s)\<rparr>))"
| count: "i < length (calls s) \<Longrightarrow> calls s ! i = (t, Counting m) \<Longrightarrow>
    reg_step U s (set_phase i t (Returned True)
      (release t m True (s\<lparr>reg_cache := (if is_nft t then count_nft U t (reg_cache s) else reg_cache s)\<rparr>)))"
| transfer: "reg_step U s (s\<lparr>reg_cache := apply_transfer U tr (reg_cache s)\<rparr>)"

definition reg_start :: "erc_cache \<Rightarrow> nat \<Rightarrow> token_id list \<Rightarrow> reg_state" where
  "reg_start c permits ts = \<lparr>reg_cache = c, held = {}, nft_permits = permits, stored = [], calls = map (\<lambda>t. (t, Begin)) ts\<rparr>"

section \<open>The invariant\<close>

text \<open>The mutex a call refers to, whether it holds it, whether it holds a permit.\<close>

fun mutex_of :: "reg_phase \<Rightarrow> nat option" where
  "mutex_of (Locking m) = Some m"
| "mutex_of (Locked m) = Some m"
| "mutex_of (AwaitPermit m) = Some m"
| "mutex_of (Fetching m) = Some m"
| "mutex_of (Storing m) = Some m"
| "mutex_of (Marking m) = Some m"
| "mutex_of (Counting m) = Some m"
| "mutex_of _ = None"

definition holding :: "reg_phase \<Rightarrow> bool" where
  "holding p = (mutex_of p \<noteq> None \<and> (\<forall>m. p \<noteq> Locking m))"

definition missing :: "reg_phase \<Rightarrow> bool" where
  "missing p = (case p of AwaitPermit _ \<Rightarrow> True | Fetching _ \<Rightarrow> True | Storing _ \<Rightarrow> True | Marking _ \<Rightarrow> True | _ \<Rightarrow> False)"

definition with_permit :: "token_id \<times> reg_phase \<Rightarrow> bool" where
  "with_permit x = (is_nft (fst x) \<and>
     (case snd x of Fetching _ \<Rightarrow> True | Storing _ \<Rightarrow> True | Marking _ \<Rightarrow> True | Counting _ \<Rightarrow> True | _ \<Rightarrow> False))"

definition tstate :: "reg_state \<Rightarrow> token_id \<Rightarrow> token_state option" where
  "tstate s t = map_of (token_id_registry (reg_cache s)) t"

definition call_inv :: "reg_state \<Rightarrow> token_id \<times> reg_phase \<Rightarrow> bool" where
  "call_inv s x = (let (t, p) = x in
     (\<forall>m. mutex_of p = Some m \<longrightarrow> tstate s t = Some (Registering m) \<or> tstate s t = Some Registered) \<and>
     (missing p \<longrightarrow> tstate s t \<noteq> Some Registered) \<and>
     ((\<exists>m. p = Counting m) \<or> p = Returned True \<longrightarrow> tstate s t = Some Registered) \<and>
     (holding p \<longrightarrow> the (mutex_of p) \<in> held s) \<and>
     (\<forall>m. p = AwaitPermit m \<longrightarrow> is_nft t))"

definition exclusive :: "(token_id \<times> reg_phase) list \<Rightarrow> bool" where
  "exclusive cs \<longleftrightarrow> (\<forall>i j. i < length cs \<longrightarrow> j < length cs \<longrightarrow> holding (snd (cs ! i)) \<longrightarrow> holding (snd (cs ! j)) \<longrightarrow>
      mutex_of (snd (cs ! i)) = mutex_of (snd (cs ! j)) \<longrightarrow> i = j)"

definition stored_ok :: "reg_state \<Rightarrow> bool" where
  "stored_ok s \<longleftrightarrow> distinct (stored s) \<and>
     (\<forall>t \<in> set (stored s). tstate s t = Some Registered \<or> (\<exists>m. (t, Marking m) \<in> set (calls s)))"

definition reg_inv :: "nat \<Rightarrow> reg_state \<Rightarrow> bool" where
  "reg_inv P s \<longleftrightarrow> registry_inv (reg_cache s) \<and> (\<forall>x \<in> set (calls s). call_inv s x) \<and> exclusive (calls s) \<and> stored_ok s \<and>
     (\<forall>m \<in> held s. \<exists>x \<in> set (calls s). holding (snd x) \<and> mutex_of (snd x) = Some m) \<and>
     nft_permits s + length (filter with_permit (calls s)) = P"


lemma phase_simps [simp]:
  "\<not> holding Begin" "\<not> holding (Locking m)" "holding (Locked m)" "holding (AwaitPermit m)" "holding (Fetching m)"
  "holding (Storing m)" "holding (Marking m)" "holding (Counting m)" "\<not> holding (Returned b)"
  by (simp_all add: holding_def)

lemma missing_simps [simp]:
  "\<not> missing Begin" "\<not> missing (Locking m)" "\<not> missing (Locked m)" "missing (AwaitPermit m)" "missing (Fetching m)"
  "missing (Storing m)" "missing (Marking m)" "\<not> missing (Counting m)" "\<not> missing (Returned b)"
  by (simp_all add: missing_def)

lemma permit_simps [simp]:
  "\<not> with_permit (t, Begin)" "\<not> with_permit (t, Locking m)" "\<not> with_permit (t, Locked m)" "\<not> with_permit (t, AwaitPermit m)"
  "with_permit (t, Fetching m) = is_nft t" "with_permit (t, Storing m) = is_nft t" "with_permit (t, Marking m) = is_nft t"
  "with_permit (t, Counting m) = is_nft t" "\<not> with_permit (t, Returned b)"
  by (simp_all add: with_permit_def)

lemma state_simps [simp]:
  "calls (set_phase i t p s) = (calls s)[i := (t, p)]" "reg_cache (set_phase i t p s) = reg_cache s"
  "held (set_phase i t p s) = held s" "nft_permits (set_phase i t p s) = nft_permits s" "stored (set_phase i t p s) = stored s"
  "calls (release t m b s) = calls s" "reg_cache (release t m b s) = reg_cache s" "held (release t m b s) = held s - {m}"
  "nft_permits (release t m b s) = nft_permits s + (if b \<and> is_nft t then 1 else 0)" "stored (release t m b s) = stored s"
  by (simp_all add: set_phase_def release_def)

lemma kept_update: "y \<in> set xs \<Longrightarrow> y \<noteq> xs ! i \<Longrightarrow> y \<in> set (xs[i := x])"
  by (metis in_set_conv_nth length_list_update nth_list_update_neq)

lemma call_inv_cong:
  "call_inv s x \<Longrightarrow> tstate s' (fst x) = tstate s (fst x) \<Longrightarrow>
   (holding (snd x) \<Longrightarrow> the (mutex_of (snd x)) \<in> held s \<Longrightarrow> the (mutex_of (snd x)) \<in> held s') \<Longrightarrow> call_inv s' x"
  by (cases x) (auto simp: call_inv_def)

lemma holding_mutex: "holding p \<Longrightarrow> \<exists>m. mutex_of p = Some m"
  by (auto simp: holding_def)

text \<open>The general step of call \<open>i\<close> from phase \<open>p\<close> to \<open>p'\<close>, and what has to be shown for each kind of step.\<close>

lemma reg_inv_call:
  assumes inv: "reg_inv P s" and i: "i < length (calls s)" "calls s ! i = (t, p)"
    and s': "calls s' = (calls s)[i := (t, p')]"
    and reg: "registry_inv (reg_cache s')"
    and mine: "call_inv s' (t, p')"
    and others: "\<And>j. j < length (calls s) \<Longrightarrow> j \<noteq> i \<Longrightarrow> call_inv s' (calls s ! j)"
    and excl: "\<And>j. j < length (calls s) \<Longrightarrow> j \<noteq> i \<Longrightarrow> holding p' \<Longrightarrow> holding (snd (calls s ! j)) \<Longrightarrow>
      mutex_of (snd (calls s ! j)) \<noteq> mutex_of p'"
    and st: "stored_ok s'"
    and hld: "held s' \<subseteq> (held s - (if holding p then {the (mutex_of p)} else {})) \<union>
      (if holding p' then {the (mutex_of p')} else {})"
    and perm: "nft_permits s' + (if with_permit (t, p') then 1 else 0) = nft_permits s + (if with_permit (t, p) then 1 else 0)"
  shows "reg_inv P s'"
proof -
  have "\<forall>x \<in> set (calls s'). call_inv s' x"
  proof
    fix x assume "x \<in> set (calls s')"
    then obtain j where "j < length (calls s)" "x = (calls s)[i := (t, p')] ! j" by (auto simp: s' in_set_conv_nth)
    then show "call_inv s' x" using mine others i(1) by (cases "j = i") auto
  qed
  moreover have "exclusive (calls s')"
  proof -
    have old: "exclusive (calls s)" using inv by (simp add: reg_inv_def)
    show ?thesis
      unfolding exclusive_def s'
    proof (intro allI impI)
      fix j k
      assume a: "j < length ((calls s)[i := (t, p')])" "k < length ((calls s)[i := (t, p')])"
        "holding (snd ((calls s)[i := (t, p')] ! j))" "holding (snd ((calls s)[i := (t, p')] ! k))"
        "mutex_of (snd ((calls s)[i := (t, p')] ! j)) = mutex_of (snd ((calls s)[i := (t, p')] ! k))"
      consider "j = i" | "k = i" | "j \<noteq> i" "k \<noteq> i" by blast
      then show "j = k"
      proof cases
        case 1
        then show ?thesis using a excl[of k] i(1) by (cases "k = i") auto
      next
        case 2
        then show ?thesis using a excl[of j] i(1) by (cases "j = i") auto
      next
        case 3
        then show ?thesis using a old by (simp add: exclusive_def)
      qed
    qed
  qed
  moreover have "\<exists>x \<in> set (calls s'). holding (snd x) \<and> mutex_of (snd x) = Some m" if m: "m \<in> held s'" for m
  proof (cases "holding p' \<and> mutex_of p' = Some m")
    case True
    then show ?thesis using i(1) by (auto simp: s' intro!: bexI[of _ "(t, p')"] set_update_memI)
  next
    case False
    then have nm: "m \<in> held s" "\<not> (holding p \<and> mutex_of p = Some m)"
      using m hld holding_mutex[of p'] by (auto split: if_splits)
    have "\<exists>x \<in> set (calls s). holding (snd x) \<and> mutex_of (snd x) = Some m" using inv nm(1) by (simp add: reg_inv_def)
    then obtain j where j: "j < length (calls s)" "holding (snd (calls s ! j))" "mutex_of (snd (calls s ! j)) = Some m"
      by (metis in_set_conv_nth)
    with nm(2) i(2) have "j \<noteq> i" by auto
    then have "calls s ! j = calls s' ! j" "j < length (calls s')" using j(1) by (simp_all add: s')
    then show ?thesis using j by (metis nth_mem)
  qed
  moreover have "nft_permits s' + length (filter with_permit (calls s')) = P"
    using length_filter_update[OF i(1), of with_permit "(t, p')"] inv perm by (simp add: s' i(2) reg_inv_def split: if_splits)
  ultimately show ?thesis using reg st by (simp add: reg_inv_def)
qed

lemma call_inv_nth: "reg_inv P s \<Longrightarrow> j < length (calls s) \<Longrightarrow> call_inv s (calls s ! j)"
  by (simp add: reg_inv_def)

lemma exclusive_nth:
  assumes "reg_inv P s" and "i < length (calls s)" and "j < length (calls s)" and "j \<noteq> i"
    and "holding (snd (calls s ! i))" and "holding (snd (calls s ! j))"
  shows "mutex_of (snd (calls s ! j)) \<noteq> mutex_of (snd (calls s ! i))"
  using assms unfolding reg_inv_def exclusive_def by metis

text \<open>Steps that leave the registry alone: the call gets on with, or gives up, what it holds.\<close>

lemma reg_inv_same_registry:
  assumes inv: "reg_inv P s" and i: "i < length (calls s)" "calls s ! i = (t, p)"
    and s': "calls s' = (calls s)[i := (t, p')]" "token_id_registry (reg_cache s') = token_id_registry (reg_cache s)"
      "mutexes (reg_cache s') = mutexes (reg_cache s)" "stored s' = stored s"
    and keep: "mutex_of p' = mutex_of p \<or> mutex_of p' = None" "holding p' \<Longrightarrow> holding p" "\<And>m. p \<noteq> Marking m"
    and mine: "call_inv s' (t, p')"
    and hld: "held s' = (if holding p \<and> \<not> holding p' then held s - {the (mutex_of p)} else held s)"
    and perm: "nft_permits s' + (if with_permit (t, p') then 1 else 0) = nft_permits s + (if with_permit (t, p) then 1 else 0)"
  shows "reg_inv P s'"
proof (rule reg_inv_call[OF inv i s'(1) _ mine])
  have ts: "tstate s' = tstate s" by (simp add: fun_eq_iff tstate_def s'(2))
  show "registry_inv (reg_cache s')" using inv by (simp add: s'(2,3) reg_inv_def registry_inv_def)
  show "call_inv s' (calls s ! j)" if j: "j < length (calls s)" "j \<noteq> i" for j
  proof (rule call_inv_cong[OF call_inv_nth[OF inv j(1)]])
    show "tstate s' (fst (calls s ! j)) = tstate s (fst (calls s ! j))" by (simp add: ts)
    assume h: "holding (snd (calls s ! j))" "the (mutex_of (snd (calls s ! j))) \<in> held s"
    have "the (mutex_of (snd (calls s ! j))) \<noteq> the (mutex_of p)" if "holding p"
      using exclusive_nth[OF inv i(1) j] h(1) that i(2) holding_mutex[OF h(1)] holding_mutex[OF that] by auto
    with h(2) show "the (mutex_of (snd (calls s ! j))) \<in> held s'" by (auto simp: hld)
  qed
  show "mutex_of (snd (calls s ! j)) \<noteq> mutex_of p'"
    if "j < length (calls s)" "j \<noteq> i" "holding p'" "holding (snd (calls s ! j))" for j
    using exclusive_nth[OF inv i(1) that(1,2)] that(3,4) keep(1,2) i(2) holding_mutex[OF that(3)] by auto
  show "stored_ok s'"
  proof -
    have "(t', Marking m) \<in> set (calls s')" if mem: "(t', Marking m) \<in> set (calls s)" for t' m
    using kept_update[OF mem, of i "(t, p')"] i(2) keep(3)[of m] by (auto simp: s'(1))
    then show ?thesis using inv by (fastforce simp: reg_inv_def stored_ok_def ts s'(4))
  qed
  show "held s' \<subseteq> (held s - (if holding p then {the (mutex_of p)} else {})) \<union> (if holding p' then {the (mutex_of p')} else {})"
    using keep holding_mutex[of p'] by (auto simp: hld)
  show "nft_permits s' + (if with_permit (t, p') then 1 else 0) = nft_permits s + (if with_permit (t, p) then 1 else 0)"
    by (rule perm)
qed


lemma lock_none: "get_token_registration_lock t c = (None, c') \<Longrightarrow> c' = c \<and> map_of (token_id_registry c) t = Some Registered"
  by (auto simp: get_token_registration_lock_def Let_def split: option.splits token_state.splits)

lemma lock_some:
  assumes "get_token_registration_lock t c = (Some m, c')"
  shows "map_of (token_id_registry c') t = Some (Registering m)"
    "\<And>t'. t' \<noteq> t \<or> (\<exists>m. map_of (token_id_registry c) t = Some (Registering m)) \<Longrightarrow>
       map_of (token_id_registry c') t' = map_of (token_id_registry c) t'"
    "map_of (token_id_registry c) t \<noteq> Some Registered"
  using assms by (auto simp: get_token_registration_lock_def Let_def split: option.splits token_state.splits)

lemma reg_inv_get_lock:
  assumes inv: "reg_inv P s" and i: "i < length (calls s)" "calls s ! i = (t, Begin)"
    and l: "get_token_registration_lock t (reg_cache s) = (Some m, c)"
  shows "reg_inv P (set_phase i t (Locking m) (s\<lparr>reg_cache := c\<rparr>))" (is "reg_inv P ?s")
proof (rule reg_inv_call[OF inv i])
  have reg: "registry_inv (reg_cache s)" using inv by (simp add: reg_inv_def)
  show "registry_inv (reg_cache ?s)" using registry_inv_lock[OF reg, of t] l by simp
  have new: "tstate ?s t = Some (Registering m)" using lock_some(1)[OF l] by (simp add: tstate_def)
  show "call_inv ?s (t, Locking m)" using new by (simp add: call_inv_def)
  have same: "tstate ?s t' = tstate s t'" if "t' \<noteq> t \<or> (\<exists>m. tstate s t = Some (Registering m))" for t'
    using lock_some(2)[OF l, of t'] that by (simp add: tstate_def)
  have nreg: "tstate s t \<noteq> Some Registered" using lock_some(3)[OF l] by (simp add: tstate_def)
  show "call_inv ?s (calls s ! j)" if j: "j < length (calls s)" "j \<noteq> i" for j
  proof -
    obtain t' p where x: "calls s ! j = (t', p)" by fastforce
    note ci = call_inv_nth[OF inv j(1), unfolded x]
    show ?thesis
    proof (cases "t' = t \<and> mutex_of p = None")
      case True
      then have "p \<noteq> Returned True" "\<not> holding p" "\<not> missing p" "\<And>m. p \<noteq> Counting m"
        using ci nreg by (auto simp: call_inv_def holding_def missing_def split: reg_phase.splits)
      then show ?thesis using True x by (auto simp: call_inv_def)
    next
      case False
      then have "t' \<noteq> t \<or> (\<exists>m. tstate s t = Some (Registering m))" using ci nreg by (auto simp: call_inv_def)
      then show ?thesis using call_inv_cong[OF ci, of ?s] x same by simp
    qed
  qed
  show "stored_ok ?s"
  proof -
    have "tstate ?s t' = tstate s t'" if "tstate s t' = Some Registered" for t' using that nreg by (intro same) auto
    moreover have "(t', Marking k) \<in> set (calls ?s)" if mem: "(t', Marking k) \<in> set (calls s)" for t' k
    using kept_update[OF mem, of i] i(2) by auto
    ultimately show ?thesis using inv unfolding reg_inv_def stored_ok_def by fastforce
  qed
qed simp_all

lemma reg_inv_lock:
  assumes inv: "reg_inv P s" and i: "i < length (calls s)" "calls s ! i = (t, Locking m)" and free: "m \<notin> held s"
  shows "reg_inv P (set_phase i t (Locked m) (s\<lparr>held := insert m (held s)\<rparr>))" (is "reg_inv P ?s")
proof (rule reg_inv_call[OF inv i])
  have ts: "tstate ?s = tstate s" by (simp add: fun_eq_iff tstate_def)
  note ci = call_inv_nth[OF inv i(1), unfolded i(2)]
  then show "call_inv ?s (t, Locked m)" by (simp add: call_inv_def ts)
  show "registry_inv (reg_cache ?s)" using inv by (simp add: reg_inv_def)
  show "call_inv ?s (calls s ! j)" if "j < length (calls s)" "j \<noteq> i" for j
    by (rule call_inv_cong[OF call_inv_nth[OF inv that(1)]]) (simp_all add: ts)
  show "mutex_of (snd (calls s ! j)) \<noteq> mutex_of (Locked m)"
    if "j < length (calls s)" "j \<noteq> i" "holding (Locked m)" "holding (snd (calls s ! j))" for j
    using call_inv_nth[OF inv that(1)] that(4) free by (cases "calls s ! j") (auto simp: call_inv_def)
  have "(t', Marking k) \<in> set (calls ?s)" if mem: "(t', Marking k) \<in> set (calls s)" for t' k
  using kept_update[OF mem, of i] i(2) by auto
  then show "stored_ok ?s" using inv unfolding reg_inv_def stored_ok_def by (fastforce simp: ts)
qed auto

text \<open>Among the calls for one token at most one is past the check: they all refer to the mutex in the registry.\<close>

lemma missing_unique:
  assumes inv: "reg_inv P s" and "i < length (calls s)" "calls s ! i = (t, p)" "missing p"
    and "j < length (calls s)" "calls s ! j = (t, q)" "holding q"
  shows "i = j"
proof -
  have "holding p" using assms(4) by (auto simp: missing_def split: reg_phase.splits)
  then obtain m k where mk: "mutex_of p = Some m" "mutex_of q = Some k" using holding_mutex assms(7) by metis
  have "tstate s t = Some (Registering m)" "tstate s t = Some (Registering k)"
    using call_inv_nth[OF inv assms(2)] call_inv_nth[OF inv assms(5)] assms(3,4,6) mk by (auto simp: call_inv_def)
  then have "m = k" by simp
  then show ?thesis
    using inv assms(2,3,5,6,7) \<open>holding p\<close> mk unfolding reg_inv_def exclusive_def by (metis snd_conv)
qed

lemma reg_inv_store_ok:
  assumes inv: "reg_inv P s" and i: "i < length (calls s)" "calls s ! i = (t, Storing m)"
  shows "reg_inv P (set_phase i t (Marking m) (s\<lparr>stored := stored s @ [t]\<rparr>))" (is "reg_inv P ?s")
proof (rule reg_inv_call[OF inv i])
  have ts: "tstate ?s = tstate s" by (simp add: fun_eq_iff tstate_def)
  note ci = call_inv_nth[OF inv i(1), unfolded i(2)]
  then show "call_inv ?s (t, Marking m)" by (auto simp: call_inv_def ts)
  show "registry_inv (reg_cache ?s)" using inv by (simp add: reg_inv_def)
  show "call_inv ?s (calls s ! j)" if "j < length (calls s)" "j \<noteq> i" for j
    by (rule call_inv_cong[OF call_inv_nth[OF inv that(1)]]) (simp_all add: ts)
  show "mutex_of (snd (calls s ! j)) \<noteq> mutex_of (Marking m)"
    if "j < length (calls s)" "j \<noteq> i" "holding (Marking m)" "holding (snd (calls s ! j))" for j
    using exclusive_nth[OF inv i(1) that(1,2)] that(4) i(2) by simp
  have so: "stored_ok s" using inv by (simp add: reg_inv_def)
  have keep: "(t', Marking k) \<in> set (calls ?s)" if mem: "(t', Marking k) \<in> set (calls s)" for t' k
  using kept_update[OF mem, of i] i(2) by auto
  have "t \<notin> set (stored s)"
  proof
    assume "t \<in> set (stored s)"
    moreover have "tstate s t \<noteq> Some Registered" using ci by (simp add: call_inv_def)
    ultimately obtain k where "(t, Marking k) \<in> set (calls s)" using so by (auto simp: stored_ok_def)
    then obtain j where j: "j < length (calls s)" "calls s ! j = (t, Marking k)" by (auto simp: in_set_conv_nth)
    then have "i = j" using missing_unique[OF inv i _ j] by simp
    then show False using i(2) j(2) by simp
  qed
  moreover have "(t, Marking m) \<in> set (calls ?s)" using i(1) by (simp add: set_update_memI)
  ultimately show "stored_ok ?s" using so keep unfolding stored_ok_def ts by fastforce
qed auto

lemma reg_inv_mark:
  assumes inv: "reg_inv P s" and i: "i < length (calls s)" "calls s ! i = (t, Marking m)"
  shows "reg_inv P (set_phase i t (Counting m) (s\<lparr>reg_cache := mark_token_registered t (reg_cache s)\<rparr>))" (is "reg_inv P ?s")
proof (rule reg_inv_call[OF inv i])
  have ts: "tstate ?s t' = (if t' = t then Some Registered else tstate s t')" for t'
    by (simp add: tstate_def mark_token_registered_def)
  note ci = call_inv_nth[OF inv i(1), unfolded i(2)]
  then show "call_inv ?s (t, Counting m)" by (auto simp: call_inv_def ts)
  show "registry_inv (reg_cache ?s)" using inv by (simp add: reg_inv_def registry_inv_mark)
  show "call_inv ?s (calls s ! j)" if j: "j < length (calls s)" "j \<noteq> i" for j
  proof -
    obtain t' q where x: "calls s ! j = (t', q)" by fastforce
    show ?thesis
    proof (cases "t' = t")
      case True
      then have "\<not> holding q" using missing_unique[OF inv i _ j(1), of q] x j(2) by auto
      moreover from this have "\<not> missing q" by (auto simp: holding_def missing_def split: reg_phase.splits)
      ultimately show ?thesis using x True by (auto simp: call_inv_def ts)
    next
      case False
      then show ?thesis using call_inv_cong[OF call_inv_nth[OF inv j(1)], of ?s] x by (simp add: ts)
    qed
  qed
  show "mutex_of (snd (calls s ! j)) \<noteq> mutex_of (Counting m)"
    if "j < length (calls s)" "j \<noteq> i" "holding (Counting m)" "holding (snd (calls s ! j))" for j
    using exclusive_nth[OF inv i(1) that(1,2)] that(4) i(2) by simp
  have "(t', Marking k) \<in> set (calls ?s)" if mem: "(t', Marking k) \<in> set (calls s)" "t' \<noteq> t" for t' k
  using kept_update[OF mem(1), of i] mem(2) i(2) by auto
  then show "stored_ok ?s" using inv unfolding reg_inv_def stored_ok_def ts by fastforce
qed auto


lemma is_registered_tstate: "is_token_registered (reg_cache s) t \<longleftrightarrow> tstate s t = Some Registered"
  by (auto simp: is_token_registered_def tstate_def split: option.splits token_state.splits)

lemma reg_inv_step:
  assumes "reg_step U s s'" and inv: "reg_inv P s"
  shows "reg_inv P s'"
  using assms(1)
proof cases
  case (already i t c)
  have "c = reg_cache s" "tstate s t = Some Registered" using lock_none[OF already(4)] by (simp_all add: tstate_def)
  then show ?thesis unfolding already(1)
    by (intro reg_inv_same_registry[OF inv already(2,3)]) (auto simp: call_inv_def tstate_def)
next
  case (get_lock i t m c)
  then show ?thesis using reg_inv_get_lock[OF inv] by simp
next
  case (lock i t m)
  then show ?thesis using reg_inv_lock[OF inv] by simp
next
  case (check_registered i t m)
  then show ?thesis unfolding check_registered(1)
    by (intro reg_inv_same_registry[OF inv check_registered(2,3)]) (auto simp: call_inv_def tstate_def is_registered_tstate)
next
  case (check_missing i t m)
  note ci = call_inv_nth[OF inv check_missing(2), unfolded check_missing(3)]
  show ?thesis unfolding check_missing(1)
    by (intro reg_inv_same_registry[OF inv check_missing(2,3)])
      (use ci check_missing(4) in \<open>auto simp: call_inv_def tstate_def is_registered_tstate split: if_splits\<close>)
next
  case (permit i t m)
  note ci = call_inv_nth[OF inv permit(2), unfolded permit(3)]
  have "is_nft t" using ci by (simp add: call_inv_def)
  then show ?thesis unfolding permit(1)
    by (intro reg_inv_same_registry[OF inv permit(2,3)]) (use ci permit(4) in \<open>auto simp: call_inv_def tstate_def\<close>)
next
  case (fetch_ok i t m)
  note ci = call_inv_nth[OF inv fetch_ok(2), unfolded fetch_ok(3)]
  show ?thesis unfolding fetch_ok(1)
    by (intro reg_inv_same_registry[OF inv fetch_ok(2,3)]) (use ci in \<open>auto simp: call_inv_def tstate_def\<close>)
next
  case (fetch_error i t m)
  show ?thesis unfolding fetch_error(1)
    by (intro reg_inv_same_registry[OF inv fetch_error(2,3)]) (auto simp: call_inv_def tstate_def)
next
  case (store_ok i t m)
  then show ?thesis using reg_inv_store_ok[OF inv] by simp
next
  case (store_error i t m)
  show ?thesis unfolding store_error(1)
    by (intro reg_inv_same_registry[OF inv store_error(2,3)]) (auto simp: call_inv_def tstate_def)
next
  case (mark i t m)
  then show ?thesis using reg_inv_mark[OF inv] by simp
next
  case (count i t m)
  note ci = call_inv_nth[OF inv count(2), unfolded count(3)]
  show ?thesis unfolding count(1)
    by (intro reg_inv_same_registry[OF inv count(2,3)])
      (use ci in \<open>auto simp: call_inv_def tstate_def count_nft_def update_balance_diff_def Let_def\<close>)
next
  case (transfer tr)
  then show ?thesis using inv
    by (auto simp: reg_inv_def stored_ok_def call_inv_def tstate_def registry_inv_def exclusive_def)
qed


lemma reg_start_inv: "registry_inv c \<Longrightarrow> reg_inv P (reg_start c P ts)"
  by (auto simp: reg_inv_def reg_start_def call_inv_def exclusive_def stored_ok_def filter_empty_conv)

lemma reg_reachable:
  assumes "(reg_step U)\<^sup>*\<^sup>* (reg_start c P ts) s" and "registry_inv c"
  shows "reg_inv P s"
  using assms(1) by (induction rule: rtranclp_induct) (use assms(2) reg_start_inv reg_inv_step in blast)+

text \<open>A token that is registered stays registered, so what was registered at the start is never stored again.\<close>

lemma registered_kept:
  assumes "reg_step U s s'" and "tstate s t = Some Registered"
  shows "tstate s' t = Some Registered"
  using assms
proof cases
  case (get_lock i t' m c)
  have "tstate s t' \<noteq> Some Registered" using lock_some(3)[OF get_lock(4)] by (simp add: tstate_def)
  then have "t \<noteq> t'" using assms(2) by auto
  then show ?thesis using get_lock(1) lock_some(2)[OF get_lock(4), of t] assms(2) by (simp add: tstate_def)
next
  case (already i t' c)
  then show ?thesis using assms(2) lock_none[OF already(4)] by (simp add: tstate_def)
qed (use assms(2) in \<open>auto simp: tstate_def mark_token_registered_def count_nft_def update_balance_diff_def Let_def\<close>)

lemma stored_fresh_step:
  assumes "reg_step U s s'" and inv: "reg_inv P s" and "tstate s t = Some Registered" and "t \<notin> set (stored s)"
  shows "t \<notin> set (stored s')"
  using assms(1)
proof cases
  case (store_ok i t' m)
  have "tstate s t' \<noteq> Some Registered" using call_inv_nth[OF inv store_ok(2)] store_ok(3) by (simp add: call_inv_def)
  then show ?thesis using store_ok(1) assms(3,4) by auto
qed (use assms(4) in auto)

section \<open>Progress\<close>

lemma call_can_step:
  assumes i: "i < length (calls s)" "calls s ! i = (t, p)" and "\<And>b. p \<noteq> Returned b"
    and "\<And>m. p = Locking m \<Longrightarrow> m \<notin> held s" and "\<And>m. p = AwaitPermit m \<Longrightarrow> 0 < nft_permits s"
  shows "\<exists>s'. reg_step U s s' \<and> calls s' ! i \<noteq> calls s ! i"
proof -
  have go: ?thesis if "reg_step U s s'" "calls s' = (calls s)[i := (t, p')]" "p' \<noteq> p" for s' p'
    using that i by (intro exI[of _ s']) auto
  show ?thesis
  proof (cases p)
    case Begin
    obtain l c where l: "get_token_registration_lock t (reg_cache s) = (l, c)" by fastforce
    show ?thesis
    proof (cases l)
      case None
      then show ?thesis using go[OF reg_step.already[OF i(1) i(2)[unfolded Begin]]] l Begin by simp
    next
      case (Some m)
      then show ?thesis using go[OF reg_step.get_lock[OF i(1) i(2)[unfolded Begin]]] l Begin by simp
    qed
  next
    case (Locked m)
    then show ?thesis
      using go[OF reg_step.check_registered[OF i(1) i(2)[unfolded Locked]]] go[OF reg_step.check_missing[OF i(1) i(2)[unfolded Locked]]]
      by (cases "is_token_registered (reg_cache s) t") (auto split: if_splits)
  next
    case (Locking m)
    then show ?thesis using go[OF reg_step.lock[OF i(1) i(2)[unfolded Locking]]] assms(4) by simp
  next
    case (AwaitPermit m)
    then show ?thesis using go[OF reg_step.permit[OF i(1) i(2)[unfolded AwaitPermit]]] assms(5) by simp
  next
    case (Fetching m)
    then show ?thesis using go[OF reg_step.fetch_ok[OF i(1) i(2)[unfolded Fetching]]] by simp
  next
    case (Storing m)
    then show ?thesis using go[OF reg_step.store_ok[OF i(1) i(2)[unfolded Storing]]] by simp
  next
    case (Marking m)
    then show ?thesis using go[OF reg_step.mark[OF i(1) i(2)[unfolded Marking]]] by simp
  next
    case (Counting m)
    then show ?thesis using go[OF reg_step.count[OF i(1) i(2)[unfolded Counting]]] by simp
  qed (use assms(3) in simp)
qed

text \<open>As long as a call has not returned, some call can make a step: a call that waits for a permit holds none, and one that
  waits for a mutex holds nothing.\<close>

lemma reg_progress:
  assumes inv: "reg_inv P s" and "0 < P" and "x \<in> set (calls s)" and "\<And>b. snd x \<noteq> Returned b"
  shows "\<exists>i s'. i < length (calls s) \<and> reg_step U s s' \<and> calls s' ! i \<noteq> calls s ! i"
proof -
  have pick: ?thesis if "(t, p) \<in> set (calls s)" "\<And>b. p \<noteq> Returned b" "\<And>m. p = Locking m \<Longrightarrow> m \<notin> held s"
      "\<And>m. p = AwaitPermit m \<Longrightarrow> 0 < nft_permits s" for t p
    using that call_can_step[of _ s t p U] by (metis in_set_conv_nth)
  obtain t p where x: "x = (t, p)" "(t, p) \<in> set (calls s)" using assms(3) by (metis surj_pair)
  show ?thesis
  proof (cases "\<exists>t p. (t, p) \<in> set (calls s) \<and> (\<forall>b. p \<noteq> Returned b) \<and> (\<forall>m. p \<noteq> Locking m) \<and> (\<forall>m. p \<noteq> AwaitPermit m)")
    case True
    then show ?thesis using pick by blast
  next
    case quiet: False
    then have "filter with_permit (calls s) = []"
      by (fastforce simp: filter_empty_conv with_permit_def split: reg_phase.splits)
    then have permits: "0 < nft_permits s" using inv assms(2) by (simp add: reg_inv_def)
    show ?thesis
    proof (cases "\<exists>t m. (t, AwaitPermit m) \<in> set (calls s)")
      case True
      then show ?thesis using pick permits by blast
    next
      case False
      then have "\<forall>x \<in> set (calls s). \<not> holding (snd x)" using quiet by (fastforce simp: holding_def)
      then have "held s = {}" using inv by (auto simp: reg_inv_def)
      then show ?thesis using pick[OF x(2)] assms(4) permits x(1) by simp
    qed
  qed
qed

section \<open>Properties\<close>

text \<open>
  C27. However the registrations of any number of tasks interleave, and whichever of their fetches and writes fail, no token is
  written to storage twice, none that was registered before is written again, and a call that returns successfully leaves its
  token registered.
\<close>

theorem registration_once:
  assumes "registry_inv c" and "(reg_step U)\<^sup>*\<^sup>* (reg_start c P ts) s"
  shows "distinct (stored s) \<and> (\<forall>t. is_token_registered c t \<longrightarrow> t \<notin> set (stored s)) \<and>
    (\<forall>t. (t, Returned True) \<in> set (calls s) \<longrightarrow> is_token_registered (reg_cache s) t)"
proof -
  have inv: "reg_inv P s" by (rule reg_reachable[OF assms(2,1)])
  have fresh: "tstate s t = Some Registered \<and> t \<notin> set (stored s)" if t: "is_token_registered c t" for t
    using assms(2)
  proof (induction rule: rtranclp_induct)
    case base
    then show ?case using t is_registered_tstate[of "reg_start c P ts" t] by (simp add: reg_start_def)
  next
    case (step s1 s2)
    then show ?case using registered_kept[OF step(2)] stored_fresh_step[OF step(2) reg_reachable[OF step(1) assms(1)]] by blast
  qed
  have "tstate s t = Some Registered" if "(t, Returned True) \<in> set (calls s)" for t
  proof -
    have "call_inv s (t, Returned True)" using inv that by (simp add: reg_inv_def)
    then show ?thesis by (simp add: call_inv_def)
  qed
  with inv fresh show ?thesis by (auto simp: reg_inv_def stored_ok_def is_registered_tstate)
qed

definition empty_cache :: erc_cache where
  "empty_cache = \<lparr>balances_diff = [], total_supply_diff = [], token_id_registry = [], mutexes = 0\<rparr>"

text \<open>Two calls for the same NFT: the first takes the lock, the second gets the same mutex and waits.\<close>

theorem registration_once_witness:
  "\<exists>s. (reg_step wrapping_u256)\<^sup>*\<^sup>* (reg_start empty_cache 1 [Nft 7 1, Nft 7 1]) s \<and>
       map snd (calls s) = [Locking 0, Locking 0] \<and> distinct (stored s)"
proof -
  let ?s0 = "reg_start empty_cache 1 [Nft 7 1, Nft 7 1]"
  let ?s1 = "set_phase 0 (Nft 7 1) (Locking 0) (?s0\<lparr>reg_cache := snd (get_token_registration_lock (Nft 7 1) empty_cache)\<rparr>)"
  let ?s2 = "set_phase 1 (Nft 7 1) (Locking 0) (?s1\<lparr>reg_cache := reg_cache ?s1\<rparr>)"
  have l: "get_token_registration_lock (Nft 7 1) empty_cache = (Some 0, snd (get_token_registration_lock (Nft 7 1) empty_cache))"
    "get_token_registration_lock (Nft 7 1) (reg_cache ?s1) = (Some 0, reg_cache ?s1)"
    by (simp_all add: get_token_registration_lock_def empty_cache_def al_insert_def)
  have "reg_step wrapping_u256 ?s0 ?s1"
    by (rule reg_step.get_lock) (use l(1) in \<open>simp_all add: reg_start_def\<close>)
  moreover have "reg_step wrapping_u256 ?s1 ?s2"
    by (rule reg_step.get_lock) (use l(2) in \<open>simp_all add: reg_start_def\<close>)
  ultimately have r: "(reg_step wrapping_u256)\<^sup>*\<^sup>* ?s0 ?s2" by simp
  have "registry_inv empty_cache" by (simp add: registry_inv_def empty_cache_def)
  from registration_once[OF this r] r show ?thesis by (intro exI[of _ ?s2]) (simp add: reg_start_def)
qed

text \<open>
  C28. Concurrent registrations cannot deadlock on the token mutexes and the metadata semaphore: with at least one permit, as long
  as some call has not returned, some call can take a step.
\<close>

theorem registration_no_deadlock:
  assumes "registry_inv c" and "0 < P" and "(reg_step U)\<^sup>*\<^sup>* (reg_start c P ts) s"
    and "x \<in> set (calls s)" and "\<forall>b. snd x \<noteq> Returned b"
  shows "\<exists>i s'. i < length (calls s) \<and> reg_step U s s' \<and> calls s' ! i \<noteq> calls s ! i"
  using reg_progress[OF reg_reachable[OF assms(3,1)] assms(2,4)] assms(5) by blast

theorem registration_no_deadlock_witness:
  "\<exists>i s'. i < 2 \<and> reg_step wrapping_u256 (reg_start empty_cache 1 [Nft 7 1, Contract 7]) s' \<and>
     calls s' ! i \<noteq> [(Nft 7 1, Begin), (Contract 7, Begin)] ! i"
  using registration_no_deadlock[of empty_cache 1 wrapping_u256 "[Nft 7 1, Contract 7]" "reg_start empty_cache 1 [Nft 7 1, Contract 7]"
      "(Nft 7 1, Begin)"]
  by (simp add: registry_inv_def empty_cache_def reg_start_def numeral_2_eq_2)

end
