(* ===== verification/ErcProcessors.thy ===== *)
theory ErcProcessors
  imports TaskManager
begin

text \<open>
  The processors of ERC20, ERC721 and ERC1155 transfer events (\<open>crates/processors/src/processors/erc20_*.rs\<close>,
  \<open>erc721_*.rs\<close>, \<open>erc1155_*.rs\<close>): which events they accept, which task an event belongs to, and what processing one does.

  \<open>erc_lib\<close> holds the library functions they call: the deserialiser of a \<open>u256\<close> from two field elements, the hasher, and the hexadecimal
  formatting of a field element. \<open>erc_services\<close> are the operations on the shared state: registration of contracts and tokens
  (\<open>erc.rs\<close>), the balance cache, and storage.
\<close>

section \<open>Fallible steps\<close>

type_synonym ('s, 'a) step = "'s \<Rightarrow> 'a completion \<times> 's"

definition step_ok :: "'a \<Rightarrow> ('s, 'a) step" where
  "step_ok a s = (Ok a, s)"

definition step_bind :: "('s, 'a) step \<Rightarrow> ('a \<Rightarrow> ('s, 'b) step) \<Rightarrow> ('s, 'b) step" where
  "step_bind m f s = (case m s of (Ok a, s') \<Rightarrow> f a s' | (Err e, s') \<Rightarrow> (Err e, s') | (Panic, s') \<Rightarrow> (Panic, s'))"

definition lift :: "'a completion \<Rightarrow> ('s, 'a) step" where
  "lift c s = (c, s)"

text \<open>\<open>xs[i]\<close>, which panics out of range.\<close>

definition index :: "'a list \<Rightarrow> nat \<Rightarrow> 'a completion" where
  "index xs i = (if i < length xs then Ok (xs ! i) else Panic)"

lemma step_bind_simps [simp]:
  "step_bind (lift (Ok a)) f = f a" "step_bind (lift Panic) f s = (Panic, s)" "step_bind (lift (Err e)) f s = (Err e, s)"
  "step_bind (step_ok a) f = f a"
  by (simp_all add: step_bind_def lift_def step_ok_def fun_eq_iff)

section \<open>Libraries and services\<close>

record erc_lib =
  de_u256 :: "felt list \<Rightarrow> nat \<Rightarrow> string + u256"
  hasher :: "felt list \<Rightarrow> u64"
  hex_felt :: "felt \<Rightarrow> string"

text \<open>\<open>cainome\<close> reads the low and the high half, each below \<open>2 ^ 128\<close>.\<close>

definition u256_of_words :: "nat \<Rightarrow> nat \<Rightarrow> u256" where
  "u256_of_words low high = of_nat (low + high * 2 ^ 128)"

definition de_u256_spec :: "erc_lib \<Rightarrow> bool" where
  "de_u256_spec L \<longleftrightarrow> (\<forall>xs i. i + 1 < length xs \<longrightarrow> xs ! i < 2 ^ 128 \<longrightarrow> xs ! (i + 1) < 2 ^ 128 \<longrightarrow>
     de_u256 L xs i = Inr (u256_of_words (xs ! i) (xs ! (i + 1))))"

record 's erc_services =
  register_token_contract :: "felt \<Rightarrow> bool \<Rightarrow> ('s, unit) step"
  register_nft_token :: "felt \<Rightarrow> u256 \<Rightarrow> ('s, unit) step"
  balance_diff :: "token_id \<Rightarrow> felt \<Rightarrow> felt \<Rightarrow> u256 \<Rightarrow> 's \<Rightarrow> 's"
  store_token_transfer :: "token_id \<Rightarrow> felt \<Rightarrow> felt \<Rightarrow> u256 \<Rightarrow> u64 \<Rightarrow> string \<Rightarrow> ('s, unit) step"

definition read_u256 :: "erc_lib \<Rightarrow> felt list \<Rightarrow> nat \<Rightarrow> u256 completion" where
  "read_u256 L xs i = (case de_u256 L xs i of Inl e \<Rightarrow> Err (PCairoSerdeError e) | Inr v \<Rightarrow> Ok v)"

text \<open>The tail every transfer ends in: first the diff in the cache, then the transfer in storage.\<close>

definition apply_and_store ::
  "'s erc_services \<Rightarrow> event_processor_context \<Rightarrow> token_id \<Rightarrow> felt \<Rightarrow> felt \<Rightarrow> u256 \<Rightarrow> ('s, unit) step" where
  "apply_and_store S ctx t from to v s =
     store_token_transfer S t from to v (ctx_block_timestamp ctx) (ctx_event_id ctx) (balance_diff S t from to v s)"

text \<open>\<open>format!("{:#x}", token_address)[2..10]\<close>, the label of a metric: slicing a shorter string panics.\<close>

definition contract_short :: "erc_lib \<Rightarrow> felt \<Rightarrow> string completion" where
  "contract_short L a = (if length (hex_felt L a) < 10 then Panic else Ok (take 8 (drop 2 (hex_felt L a))))"

section \<open>ERC20\<close>

definition erc20_transfer_validate :: "event \<Rightarrow> bool" where
  "erc20_transfer_validate ev = (length (e_keys ev) = 3 \<and> length (e_data ev) = 2)"

definition erc20_transfer_task_identifier :: "erc_lib \<Rightarrow> event \<Rightarrow> task_id option" where
  "erc20_transfer_task_identifier L ev =
     (if length (e_keys ev) < 3 then None
      else Some (hasher L [e_from_address ev, max (e_keys ev ! 1) (e_keys ev ! 2)]))"

definition erc20_transfer_process :: "erc_lib \<Rightarrow> 's erc_services \<Rightarrow> event_processor_context \<Rightarrow> ('s, unit) step" where
  "erc20_transfer_process L S ctx =
     (let ev = ctx_event ctx; token_address = e_from_address ev in
      step_bind (lift (index (e_keys ev) 1)) (\<lambda>from.
      step_bind (lift (index (e_keys ev) 2)) (\<lambda>to.
      step_bind (lift (read_u256 L (e_data ev) 0)) (\<lambda>v.
      step_bind (register_token_contract S token_address True) (\<lambda>_.
      step_bind (apply_and_store S ctx (Contract token_address) from to v) (\<lambda>_.
      step_bind (lift (contract_short L token_address)) (\<lambda>_. step_ok ())))))))"

definition erc20_legacy_validate :: "event \<Rightarrow> bool" where
  "erc20_legacy_validate ev = (length (e_keys ev) = 1 \<and> length (e_data ev) = 4)"

definition erc20_legacy_task_identifier :: "erc_lib \<Rightarrow> event \<Rightarrow> task_id option" where
  "erc20_legacy_task_identifier L ev =
     (if length (e_data ev) < 2 then None
      else Some (hasher L [e_from_address ev, max (e_data ev ! 0) (e_data ev ! 1)]))"

definition erc20_legacy_process :: "erc_lib \<Rightarrow> 's erc_services \<Rightarrow> event_processor_context \<Rightarrow> ('s, unit) step" where
  "erc20_legacy_process L S ctx =
     (let ev = ctx_event ctx; token_address = e_from_address ev in
      step_bind (lift (index (e_data ev) 0)) (\<lambda>from.
      step_bind (lift (index (e_data ev) 1)) (\<lambda>to.
      step_bind (lift (read_u256 L (e_data ev) 2)) (\<lambda>v.
      step_bind (register_token_contract S token_address True) (\<lambda>_.
      apply_and_store S ctx (Contract token_address) from to v)))))"

section \<open>ERC721\<close>

text \<open>Registration of the contract and of the token, then the transfer.\<close>

definition nft_transfer ::
  "'s erc_services \<Rightarrow> event_processor_context \<Rightarrow> felt \<Rightarrow> u256 \<Rightarrow> felt \<Rightarrow> felt \<Rightarrow> u256 \<Rightarrow> ('s, unit) step" where
  "nft_transfer S ctx token_address token from to v =
     step_bind (register_token_contract S token_address False) (\<lambda>_.
     step_bind (register_nft_token S token_address token) (\<lambda>_.
     apply_and_store S ctx (Nft token_address token) from to v))"

text \<open>\<open>token_id.hash\<close> feeds the two halves of the \<open>U256\<close> to the hasher.\<close>

definition hash_token :: "erc_lib \<Rightarrow> felt \<Rightarrow> u256 \<Rightarrow> task_id" where
  "hash_token L a v = hasher L [a, unat v mod 2 ^ 128, unat v div 2 ^ 128]"

definition token_task :: "erc_lib \<Rightarrow> felt \<Rightarrow> felt list \<Rightarrow> nat \<Rightarrow> task_id option" where
  "token_task L a xs i = (case de_u256 L xs i of Inl _ \<Rightarrow> None | Inr v \<Rightarrow> Some (hash_token L a v))"

definition erc721_transfer_validate :: "event \<Rightarrow> bool" where
  "erc721_transfer_validate ev = (length (e_keys ev) = 5 \<and> e_data ev = [])"

definition erc721_transfer_task_identifier :: "erc_lib \<Rightarrow> event \<Rightarrow> task_id option" where
  "erc721_transfer_task_identifier L ev = token_task L (e_from_address ev) (e_keys ev) 3"

definition erc721_transfer_process :: "erc_lib \<Rightarrow> 's erc_services \<Rightarrow> event_processor_context \<Rightarrow> ('s, unit) step" where
  "erc721_transfer_process L S ctx =
     (let ev = ctx_event ctx; token_address = e_from_address ev in
      step_bind (lift (index (e_keys ev) 1)) (\<lambda>from.
      step_bind (lift (index (e_keys ev) 2)) (\<lambda>to.
      step_bind (lift (read_u256 L (e_keys ev) 3)) (\<lambda>token.
      step_bind (nft_transfer S ctx token_address token from to 1) (\<lambda>_.
      step_bind (lift (contract_short L token_address)) (\<lambda>_. step_ok ()))))))"

definition erc721_legacy_validate :: "event \<Rightarrow> bool" where
  "erc721_legacy_validate ev = (length (e_keys ev) = 1 \<and> length (e_data ev) = 4)"

definition erc721_legacy_task_identifier :: "erc_lib \<Rightarrow> event \<Rightarrow> task_id option" where
  "erc721_legacy_task_identifier L ev = token_task L (e_from_address ev) (e_data ev) 2"

definition erc721_legacy_process :: "erc_lib \<Rightarrow> 's erc_services \<Rightarrow> event_processor_context \<Rightarrow> ('s, unit) step" where
  "erc721_legacy_process L S ctx =
     (let ev = ctx_event ctx; token_address = e_from_address ev in
      step_bind (lift (index (e_data ev) 0)) (\<lambda>from.
      step_bind (lift (index (e_data ev) 1)) (\<lambda>to.
      step_bind (lift (read_u256 L (e_data ev) 2)) (\<lambda>token.
      nft_transfer S ctx token_address token from to 1))))"

section \<open>ERC1155, single transfers\<close>

definition erc1155_single_validate :: "event \<Rightarrow> bool" where
  "erc1155_single_validate ev = (length (e_keys ev) = 4 \<and> length (e_data ev) = 4)"

definition erc1155_single_task_identifier :: "erc_lib \<Rightarrow> event \<Rightarrow> task_id option" where
  "erc1155_single_task_identifier L ev = Some (hasher L [e_from_address ev])"

definition erc1155_single_process :: "erc_lib \<Rightarrow> 's erc_services \<Rightarrow> event_processor_context \<Rightarrow> ('s, unit) step" where
  "erc1155_single_process L S ctx =
     (let ev = ctx_event ctx; token_address = e_from_address ev in
      step_bind (lift (index (e_keys ev) 2)) (\<lambda>from.
      step_bind (lift (index (e_keys ev) 3)) (\<lambda>to.
      step_bind (lift (read_u256 L (e_data ev) 0)) (\<lambda>token.
      step_bind (lift (read_u256 L (e_data ev) 2)) (\<lambda>amount.
      nft_transfer S ctx token_address token from to amount)))))"

definition erc1155_legacy_single_validate :: "event \<Rightarrow> bool" where
  "erc1155_legacy_single_validate ev = (length (e_keys ev) = 1 \<and> length (e_data ev) = 7)"

definition erc1155_legacy_single_task_identifier :: "erc_lib \<Rightarrow> event \<Rightarrow> task_id option" where
  "erc1155_legacy_single_task_identifier L ev = token_task L (e_from_address ev) (e_data ev) 3"

definition erc1155_legacy_single_process :: "erc_lib \<Rightarrow> 's erc_services \<Rightarrow> event_processor_context \<Rightarrow> ('s, unit) step" where
  "erc1155_legacy_single_process L S ctx =
     (let ev = ctx_event ctx; token_address = e_from_address ev in
      step_bind (lift (index (e_data ev) 0)) (\<lambda>_.
      step_bind (lift (index (e_data ev) 1)) (\<lambda>from.
      step_bind (lift (index (e_data ev) 2)) (\<lambda>to.
      step_bind (lift (read_u256 L (e_data ev) 3)) (\<lambda>token.
      step_bind (lift (read_u256 L (e_data ev) 5)) (\<lambda>value.
      nft_transfer S ctx token_address token from to value))))))"

section \<open>ERC1155, batch transfers\<close>

text \<open>\<open>felt.try_into().unwrap_or(0u64) as usize\<close>\<close>

definition felt_len :: "felt \<Rightarrow> nat" where
  "felt_len f = (if f < 2 ^ 64 then f else 0)"

text \<open>The first pass: up to \<open>ids_len\<close> ids from \<open>idx\<close> on, stopping where the data ends.\<close>

fun read_ids :: "erc_lib \<Rightarrow> felt list \<Rightarrow> nat \<Rightarrow> nat \<Rightarrow> (u256 list \<times> nat) completion" where
  "read_ids L data 0 idx = Ok ([], idx)"
| "read_ids L data (Suc n) idx =
     (if length data \<le> idx + 1 then Ok ([], idx)
      else (case read_u256 L data idx of
              Ok token \<Rightarrow> (case read_ids L data n (idx + 2) of
                            Ok (tokens, idx') \<Rightarrow> Ok (token # tokens, idx')
                          | Err e \<Rightarrow> Err e | Panic \<Rightarrow> Panic)
            | Err e \<Rightarrow> Err e | Panic \<Rightarrow> Panic))"

text \<open>The second pass: the ids that have a value, each with the index of its value.\<close>

definition batch_items :: "felt list \<Rightarrow> u256 list \<Rightarrow> nat \<Rightarrow> nat \<Rightarrow> (u256 \<times> nat) list" where
  "batch_items data tokens values_len idx =
     map (\<lambda>(i, token). (token, idx + i * 2))
       (takeWhile (\<lambda>(i, _). \<not> (values_len \<le> i \<or> length data \<le> idx + i * 2 + 1)) (enumerate 0 tokens))"

definition batch_item ::
  "erc_lib \<Rightarrow> 's erc_services \<Rightarrow> event_processor_context \<Rightarrow> felt \<Rightarrow> felt \<Rightarrow> felt \<Rightarrow> u256 \<times> nat \<Rightarrow> ('s, unit) step" where
  "batch_item L S ctx token_address from to = (\<lambda>(token, idx).
     step_bind (lift (read_u256 L (e_data (ctx_event ctx)) idx)) (\<lambda>amount.
     step_bind (register_nft_token S token_address token) (\<lambda>_.
     apply_and_store S ctx (Nft token_address token) from to amount)))"

text \<open>
  The items run as spawned tasks, in the order \<open>sched\<close> (a permutation): none is cancelled when another fails. A panic makes
  \<open>try_join_all\<close> fail; otherwise the first error in the order of the items is returned.
\<close>

fun run_all :: "('i \<Rightarrow> ('s, unit) step) \<Rightarrow> 'i list \<Rightarrow> 's \<Rightarrow> ('i \<times> unit completion) list \<times> 's" where
  "run_all body [] s = ([], s)"
| "run_all body (x # xs) s = (let (r, s1) = body x s; (rs, s2) = run_all body xs s1 in ((x, r) # rs, s2))"

definition join_results :: "'i list \<Rightarrow> ('i \<times> unit completion) list \<Rightarrow> unit completion" where
  "join_results items rs =
     (if Panic \<in> snd ` set rs then Err (PJoinError ''panic'')
      else (case List.find (\<lambda>x. case map_of rs x of Some (Err _) \<Rightarrow> True | _ \<Rightarrow> False) items of
              None \<Rightarrow> Ok ()
            | Some x \<Rightarrow> (case map_of rs x of Some c \<Rightarrow> c | None \<Rightarrow> Ok ())))"

definition run_batch ::
  "erc_lib \<Rightarrow> 's erc_services \<Rightarrow> ((u256 \<times> nat) list \<Rightarrow> (u256 \<times> nat) list) \<Rightarrow> event_processor_context \<Rightarrow> felt \<Rightarrow> felt \<Rightarrow> felt \<Rightarrow>
   (u256 \<times> nat) list \<Rightarrow> ('s, unit) step" where
  "run_batch L S sched ctx token_address from to items s =
     (let (rs, s') = run_all (batch_item L S ctx token_address from to) (sched items) s in (join_results items rs, s'))"

definition erc1155_batch_validate :: "event \<Rightarrow> bool" where
  "erc1155_batch_validate ev = (length (e_keys ev) = 4 \<and> e_data ev \<noteq> [])"

definition erc1155_batch_task_identifier :: "erc_lib \<Rightarrow> event \<Rightarrow> task_id option" where
  "erc1155_batch_task_identifier L ev = Some (hasher L [e_from_address ev])"

definition erc1155_batch_process ::
  "erc_lib \<Rightarrow> 's erc_services \<Rightarrow> ((u256 \<times> nat) list \<Rightarrow> (u256 \<times> nat) list) \<Rightarrow> event_processor_context \<Rightarrow> ('s, unit) step" where
  "erc1155_batch_process L S sched ctx =
     (let ev = ctx_event ctx; token_address = e_from_address ev; data = e_data ev in
      step_bind (lift (index (e_keys ev) 2)) (\<lambda>from.
      step_bind (lift (index (e_keys ev) 3)) (\<lambda>to.
      step_bind (lift (index data 0)) (\<lambda>ids_len.
      step_bind (lift (read_ids L data (felt_len ids_len) 1)) (\<lambda>(tokens, idx).
      step_bind (lift (index data idx)) (\<lambda>values_len.
      step_bind (register_token_contract S token_address False) (\<lambda>_.
      run_batch L S sched ctx token_address from to (batch_items data tokens (felt_len values_len) (idx + 1)))))))))"

definition erc1155_legacy_batch_validate :: "event \<Rightarrow> bool" where
  "erc1155_legacy_batch_validate ev = (length (e_keys ev) = 1 \<and> 4 \<le> length (e_data ev))"

definition erc1155_legacy_batch_task_identifier :: "erc_lib \<Rightarrow> event \<Rightarrow> task_id option" where
  "erc1155_legacy_batch_task_identifier L ev = Some (hasher L [e_from_address ev])"

definition erc1155_legacy_batch_process ::
  "erc_lib \<Rightarrow> 's erc_services \<Rightarrow> ((u256 \<times> nat) list \<Rightarrow> (u256 \<times> nat) list) \<Rightarrow> event_processor_context \<Rightarrow> ('s, unit) step" where
  "erc1155_legacy_batch_process L S sched ctx =
     (let ev = ctx_event ctx; token_address = e_from_address ev; data = e_data ev in
      step_bind (lift (index data 0)) (\<lambda>_.
      step_bind (lift (index data 1)) (\<lambda>from.
      step_bind (lift (index data 2)) (\<lambda>to.
      step_bind (lift (index data 3)) (\<lambda>ids_len.
      step_bind (lift (read_ids L data (felt_len ids_len) 4)) (\<lambda>(tokens, idx).
      if length data \<le> idx then step_ok ()
      else step_bind (lift (index data idx)) (\<lambda>values_len.
        step_bind (register_token_contract S token_address False) (\<lambda>_.
        run_batch L S sched ctx token_address from to (batch_items data tokens (felt_len values_len) (idx + 1))))))))))"


section \<open>Well-formed encodings\<close>

definition words :: "u256 \<Rightarrow> felt list" where
  "words v = [unat v mod 2 ^ 128, unat v div 2 ^ 128]"

definition flat :: "u256 list \<Rightarrow> felt list" where
  "flat vs = concat (map words vs)"

lemma length_words [simp]: "length (words v) = 2"
  by (simp add: words_def)

lemma words_bound: "unat (v :: u256) mod 2 ^ 128 < 2 ^ 128" "unat (v :: u256) div 2 ^ 128 < 2 ^ 128"
proof -
  have "unat v < 2 ^ 256" using unsigned_less[of v, where ?'a = nat] by simp
  then show "unat v div 2 ^ 128 < 2 ^ 128" by (intro less_mult_imp_div_less) (simp flip: power_add)
qed simp

lemma u256_of_words_id: "u256_of_words (unat v mod 2 ^ 128) (unat v div 2 ^ 128) = v"
  unfolding u256_of_words_def by (simp only: mod_div_mult_eq) simp

lemma read_words:
  assumes "de_u256_spec L" and "xs = a @ words v @ b"
  shows "read_u256 L xs (length a) = Ok v"
proof -
  have n: "xs ! length a = unat v mod 2 ^ 128" "xs ! (length a + 1) = unat v div 2 ^ 128" "length a + 1 < length xs"
    by (simp_all add: assms(2) words_def nth_append)
  have "de_u256 L xs (length a) = Inr (u256_of_words (unat v mod 2 ^ 128) (unat v div 2 ^ 128))"
    using assms(1) n words_bound[of v] unfolding de_u256_spec_def by metis
  then show ?thesis by (simp only: read_u256_def u256_of_words_id sum.case)
qed

lemma length_flat [simp]: "length (flat vs) = 2 * length vs"
  by (induction vs) (simp_all add: flat_def words_def)

lemma flat_simps [simp]: "flat [] = []" "flat (v # vs) = words v @ flat vs"
  by (simp_all add: flat_def)

lemma read_ids_flat:
  assumes "de_u256_spec L"
  shows "data = a @ flat ids @ b \<Longrightarrow> read_ids L data (length ids) (length a) = Ok (ids, length a + 2 * length ids)"
proof (induction ids arbitrary: a)
  case (Cons v vs)
  have "read_u256 L data (length a) = Ok v" by (rule read_words[OF assms]) (simp add: Cons.prems)
  moreover have "read_ids L data (length vs) (length (a @ words v)) = Ok (vs, length (a @ words v) + 2 * length vs)"
    by (rule Cons.IH) (simp add: Cons.prems)
  ultimately show ?case using Cons.prems by (simp add: words_def)
qed simp

lemma takeWhile_enumerate:
  "(\<And>i. i < length xs \<Longrightarrow> P (n + i)) \<Longrightarrow> takeWhile (\<lambda>(i, _). P i) (enumerate n xs) = enumerate n xs"
  by (rule takeWhile_eq_all_conv[THEN iffD2]) (auto simp: in_set_enumerate_eq le_iff_add)

lemma batch_items_all:
  assumes "length ids \<le> n" and "idx + 2 * length ids \<le> length data"
  shows "batch_items data ids n idx = map (\<lambda>j. (ids ! j, idx + j * 2)) [0..<length ids]"
proof -
  have "takeWhile (\<lambda>(i, _). \<not> (n \<le> i \<or> length data \<le> idx + i * 2 + 1)) (enumerate 0 ids) = enumerate 0 ids"
    by (rule takeWhile_enumerate) (use assms in auto)
  moreover have "enumerate 0 ids = map (\<lambda>j. (j, ids ! j)) [0..<length ids]"
    by (rule nth_equalityI) (simp_all add: nth_enumerate_eq)
  ultimately show ?thesis unfolding batch_items_def by (simp only: map_map comp_def prod.case)
qed

lemma batch_item_value:
  assumes "de_u256_spec L" and "e_data (ctx_event ctx) = a @ flat vals" and "j < length vals"
  shows "batch_item L S ctx token_address from to (token, length a + j * 2) =
    step_bind (register_nft_token S token_address token) (\<lambda>_.
      apply_and_store S ctx (Nft token_address token) from to (vals ! j))"
proof -
  have "vals = take j vals @ vals ! j # drop (Suc j) vals" using assms(3) by (rule id_take_nth_drop)
  then have "flat vals = flat (take j vals) @ words (vals ! j) @ flat (drop (Suc j) vals)"
    by (metis append_assoc concat_append flat_def flat_simps(2) map_append)
  then have "e_data (ctx_event ctx) = (a @ flat (take j vals)) @ words (vals ! j) @ flat (drop (Suc j) vals)"
    by (simp add: assms(2))
  from read_words[OF assms(1) this] have "read_u256 L (e_data (ctx_event ctx)) (length a + j * 2) = Ok (vals ! j)"
    using assms(3) by (simp add: mult.commute)
  then show ?thesis by (simp add: batch_item_def)
qed

lemma step_bind_unit: "step_bind m step_ok = m"
proof
  fix s show "step_bind m step_ok s = m s"
    by (cases "m s"; cases "fst (m s)") (auto simp: step_bind_def step_ok_def)
qed

lemma step_bind_assoc: "step_bind (step_bind m f) g = step_bind m (\<lambda>x. step_bind (f x) g)"
  by (rule ext) (simp add: step_bind_def split: prod.splits completion.splits)

section \<open>Properties\<close>

text \<open>
  C30. A batch transfer of \<open>n\<close> ids and \<open>n\<close> values that is encoded as the ERC1155 event prescribes is taken apart exactly into its
  transfers, by the current and by the legacy processor: item \<open>j\<close> registers token \<open>ids ! j\<close> and moves \<open>vals ! j\<close> of it.
\<close>

theorem batch_transfer_decodes:
  assumes "de_u256_spec L" and "length vals = length ids" and "length ids < 2 ^ 64"
    and "e_keys ev = [k, operator, from, to]" and "e_data ev = length ids # flat ids @ length ids # flat vals"
    and "e_keys lev = [k]" and "e_data lev = operator # from # to # length ids # flat ids @ length ids # flat vals"
    and "e_from_address lev = e_from_address ev"
  shows "\<exists>items litems. length items = length ids \<and> length litems = length ids \<and>
    erc1155_batch_process L S sched (ctx\<lparr>ctx_event := ev\<rparr>) =
      step_bind (register_token_contract S (e_from_address ev) False)
        (\<lambda>_. run_batch L S sched (ctx\<lparr>ctx_event := ev\<rparr>) (e_from_address ev) from to items) \<and>
    erc1155_legacy_batch_process L S sched (ctx\<lparr>ctx_event := lev\<rparr>) =
      step_bind (register_token_contract S (e_from_address ev) False)
        (\<lambda>_. run_batch L S sched (ctx\<lparr>ctx_event := lev\<rparr>) (e_from_address ev) from to litems) \<and>
    (\<forall>j < length ids. \<forall>x \<in> {batch_item L S (ctx\<lparr>ctx_event := ev\<rparr>) (e_from_address ev) from to (items ! j),
                             batch_item L S (ctx\<lparr>ctx_event := lev\<rparr>) (e_from_address ev) from to (litems ! j)}.
       x = step_bind (register_nft_token S (e_from_address ev) (ids ! j)) (\<lambda>_.
             apply_and_store S ctx (Nft (e_from_address ev) (ids ! j)) from to (vals ! j)))"
proof -
  let ?n = "length ids"
  have len: "felt_len ?n = ?n" using assms(3) by (simp add: felt_len_def)
  have ids: "read_ids L (e_data ev) ?n 1 = Ok (ids, 1 + 2 * ?n)"
    using read_ids_flat[OF assms(1), of "e_data ev" "[?n]" ids "?n # flat vals"] assms(5) by simp
  have lids: "read_ids L (e_data lev) ?n 4 = Ok (ids, 4 + 2 * ?n)"
    using read_ids_flat[OF assms(1), of "e_data lev" "[operator, from, to, ?n]" ids "?n # flat vals"] assms(7)
    by (simp add: eval_nat_numeral)
  have vl: "index (e_data ev) (1 + 2 * ?n) = Ok ?n" "index (e_data lev) (4 + 2 * ?n) = Ok ?n"
    by (simp_all add: index_def assms(5,7) nth_append nth_Cons')
  have it: "batch_items (e_data ev) ids ?n (2 + 2 * ?n) = map (\<lambda>j. (ids ! j, 2 + 2 * ?n + j * 2)) [0..<?n]"
    "batch_items (e_data lev) ids ?n (5 + 2 * ?n) = map (\<lambda>j. (ids ! j, 5 + 2 * ?n + j * 2)) [0..<?n]"
    by (rule batch_items_all; simp add: assms(2,5,7))+
  have bi: "batch_item L S (ctx\<lparr>ctx_event := ev\<rparr>) (e_from_address ev) from to (ids ! j, 2 + 2 * ?n + j * 2) =
      step_bind (register_nft_token S (e_from_address ev) (ids ! j)) (\<lambda>_.
        apply_and_store S (ctx\<lparr>ctx_event := ev\<rparr>) (Nft (e_from_address ev) (ids ! j)) from to (vals ! j))"
    "batch_item L S (ctx\<lparr>ctx_event := lev\<rparr>) (e_from_address ev) from to (ids ! j, 5 + 2 * ?n + j * 2) =
      step_bind (register_nft_token S (e_from_address ev) (ids ! j)) (\<lambda>_.
        apply_and_store S (ctx\<lparr>ctx_event := lev\<rparr>) (Nft (e_from_address ev) (ids ! j)) from to (vals ! j))" if "j < ?n" for j
  proof -
    show "batch_item L S (ctx\<lparr>ctx_event := ev\<rparr>) (e_from_address ev) from to (ids ! j, 2 + 2 * ?n + j * 2) =
      step_bind (register_nft_token S (e_from_address ev) (ids ! j)) (\<lambda>_.
        apply_and_store S (ctx\<lparr>ctx_event := ev\<rparr>) (Nft (e_from_address ev) (ids ! j)) from to (vals ! j))"
      using batch_item_value[OF assms(1), of "ctx\<lparr>ctx_event := ev\<rparr>" "?n # flat ids @ [?n]" vals j] that
      by (simp add: assms(2,5))
    show "batch_item L S (ctx\<lparr>ctx_event := lev\<rparr>) (e_from_address ev) from to (ids ! j, 5 + 2 * ?n + j * 2) =
      step_bind (register_nft_token S (e_from_address ev) (ids ! j)) (\<lambda>_.
        apply_and_store S (ctx\<lparr>ctx_event := lev\<rparr>) (Nft (e_from_address ev) (ids ! j)) from to (vals ! j))"
      using batch_item_value[OF assms(1), of "ctx\<lparr>ctx_event := lev\<rparr>" "[operator, from, to, ?n] @ flat ids @ [?n]" vals j] that
      by (simp add: assms(2,7) eval_nat_numeral)
  qed
  have sv: "apply_and_store S (ctx\<lparr>ctx_event := e\<rparr>) = apply_and_store S ctx" for e
    by (simp add: fun_eq_iff apply_and_store_def)
  have ix: "index (e_keys ev) 2 = Ok from" "index (e_keys ev) 3 = Ok to" "index (e_data ev) 0 = Ok ?n"
    "index (e_data lev) 0 = Ok operator" "index (e_data lev) 1 = Ok from" "index (e_data lev) 2 = Ok to"
    "index (e_data lev) 3 = Ok ?n" "\<not> length (e_data lev) \<le> 4 + 2 * ?n"
    by (simp_all add: index_def assms(4,5,7))
  let ?items = "map (\<lambda>j. (ids ! j, 2 + 2 * ?n + j * 2)) [0..<?n]"
  let ?litems = "map (\<lambda>j. (ids ! j, 5 + 2 * ?n + j * 2)) [0..<?n]"
  have "erc1155_batch_process L S sched (ctx\<lparr>ctx_event := ev\<rparr>) =
      step_bind (register_token_contract S (e_from_address ev) False)
        (\<lambda>_. run_batch L S sched (ctx\<lparr>ctx_event := ev\<rparr>) (e_from_address ev) from to ?items)"
    using ids vl(1) it(1) by (simp add: erc1155_batch_process_def Let_def ix len)
  moreover have "erc1155_legacy_batch_process L S sched (ctx\<lparr>ctx_event := lev\<rparr>) =
      step_bind (register_token_contract S (e_from_address ev) False)
        (\<lambda>_. run_batch L S sched (ctx\<lparr>ctx_event := lev\<rparr>) (e_from_address ev) from to ?litems)"
    using lids vl(2) it(2) ix(4-8) by (simp add: erc1155_legacy_batch_process_def Let_def len assms(8) add.commute)
  ultimately show ?thesis
    using bi sv by (intro exI[of _ ?items] exI[of _ ?litems]) simp
qed


text \<open>A library whose deserialiser does what \<open>de_u256_spec\<close> says, and services that record what they are asked to do.\<close>

definition sample_lib :: erc_lib where
  "sample_lib = \<lparr>de_u256 = (\<lambda>xs i. if i + 1 < length xs then Inr (u256_of_words (xs ! i) (xs ! (i + 1))) else Inl ''short''),
     hasher = (\<lambda>xs. of_nat (sum_list xs)), hex_felt = (\<lambda>f. replicate (f + 2) CHR ''0'')\<rparr>"

definition log_services :: "(token_id \<times> felt \<times> felt \<times> u256) list erc_services" where
  "log_services = \<lparr>register_token_contract = (\<lambda>_ _. step_ok ()), register_nft_token = (\<lambda>_ _. step_ok ()),
     balance_diff = (\<lambda>t f r v s. s @ [(t, f, r, v)]), store_token_transfer = (\<lambda>_ _ _ _ _ _. step_ok ())\<rparr>"

definition sample_ctx :: "event \<Rightarrow> event_processor_context" where
  "sample_ctx ev = \<lparr>ctx_contract_address = e_from_address ev, ctx_block_number = 1, ctx_block_timestamp = 0, ctx_event_id = [],
     ctx_event = ev, ctx_config = config_default, ctx_is_at_head = False\<rparr>"

lemma sample_lib_spec: "de_u256_spec sample_lib"
  by (simp add: de_u256_spec_def sample_lib_def)

theorem batch_transfer_decodes_witness:
  "\<exists>items. erc1155_batch_process sample_lib log_services rev
      (sample_ctx \<lparr>e_from_address = 9, e_keys = [1, 2, 3, 4], e_data = 2 # flat [5, 6] @ 2 # flat [50, 60]\<rparr>) =
     step_bind (register_token_contract log_services 9 False)
       (\<lambda>_. run_batch sample_lib log_services rev
          (sample_ctx \<lparr>e_from_address = 9, e_keys = [1, 2, 3, 4], e_data = 2 # flat [5, 6] @ 2 # flat [50, 60]\<rparr>) 9 3 4 items)"
proof -
  let ?ev = "\<lparr>e_from_address = 9, e_keys = [1, 2, 3, 4], e_data = 2 # flat [5, 6] @ 2 # flat [50, 60]\<rparr> :: event"
  let ?lev = "\<lparr>e_from_address = 9, e_keys = [1], e_data = [2, 3, 4] @ 2 # flat [5, 6] @ 2 # flat [50, 60]\<rparr> :: event"
  have "sample_ctx ?ev\<lparr>ctx_event := ?ev\<rparr> = sample_ctx ?ev" by (simp add: sample_ctx_def)
  moreover have "e_data ?ev = length [5, 6 :: u256] # flat [5, 6] @ length [5, 6 :: u256] # flat [50, 60]"
    "e_data ?lev = [2, 3, 4] @ length [5, 6 :: u256] # flat [5, 6] @ length [5, 6 :: u256] # flat [50, 60]"
    by (simp_all del: flat_simps add: numeral_2_eq_2)
  ultimately show ?thesis
    using batch_transfer_decodes[OF sample_lib_spec, of "[50, 60]" "[5, 6]" ?ev 1 2 3 4 ?lev log_services rev "sample_ctx ?ev"]
    by (simp del: flat_simps) blast
qed

text \<open>
  The current batch processor indexes the data without a check where the legacy one returns early: an event that it accepts and
  whose data ends after the ids makes it panic, while the legacy processor ignores the same transfer.
\<close>

theorem batch_truncated_panics:
  assumes "de_u256_spec L" and "length ids < 2 ^ 64"
    and "e_keys ev = [k, operator, from, to]" and "e_data ev = length ids # flat ids"
    and "e_keys lev = [k]" and "e_data lev = operator # from # to # length ids # flat ids"
  shows "erc1155_batch_validate ev \<and> erc1155_legacy_batch_validate lev \<and>
    erc1155_batch_process L S sched (ctx\<lparr>ctx_event := ev\<rparr>) s = (Panic, s) \<and>
    erc1155_legacy_batch_process L S sched (ctx\<lparr>ctx_event := lev\<rparr>) s = (Ok (), s)"
proof -
  let ?n = "length ids"
  have len: "felt_len ?n = ?n" using assms(2) by (simp add: felt_len_def)
  have ids: "read_ids L (e_data ev) ?n 1 = Ok (ids, 1 + 2 * ?n)"
    using read_ids_flat[OF assms(1), of "e_data ev" "[?n]" ids "[]"] assms(4) by simp
  have lids: "read_ids L (e_data lev) ?n 4 = Ok (ids, 4 + 2 * ?n)"
    using read_ids_flat[OF assms(1), of "e_data lev" "[operator, from, to, ?n]" ids "[]"] assms(6)
    by (simp add: eval_nat_numeral)
  have ix: "index (e_keys ev) 2 = Ok from" "index (e_keys ev) 3 = Ok to" "index (e_data ev) 0 = Ok ?n"
    "index (e_data lev) 0 = Ok operator" "index (e_data lev) 1 = Ok from" "index (e_data lev) 2 = Ok to"
    "index (e_data lev) 3 = Ok ?n" "length (e_data lev) \<le> 4 + 2 * ?n" "index (e_data ev) (1 + 2 * ?n) = Panic"
    by (simp_all add: index_def assms(3,4,6))
  have "erc1155_batch_process L S sched (ctx\<lparr>ctx_event := ev\<rparr>) s = (Panic, s)"
    using ids ix by (simp add: erc1155_batch_process_def Let_def len)
  moreover have "erc1155_legacy_batch_process L S sched (ctx\<lparr>ctx_event := lev\<rparr>) s = (Ok (), s)"
    using lids ix by (simp add: erc1155_legacy_batch_process_def Let_def len step_ok_def)
  ultimately show ?thesis
    using assms(3-6) by (simp add: erc1155_batch_validate_def erc1155_legacy_batch_validate_def)
qed

theorem batch_truncated_panics_witness:
  "erc1155_batch_validate \<lparr>e_from_address = 9, e_keys = [1, 2, 3, 4], e_data = [0]\<rparr> \<and>
   erc1155_batch_process sample_lib log_services rev
     (sample_ctx \<lparr>e_from_address = 9, e_keys = [1, 2, 3, 4], e_data = [0]\<rparr>) [] = (Panic, [])"
proof -
  let ?ev = "\<lparr>e_from_address = 9, e_keys = [1, 2, 3, 4], e_data = [0]\<rparr> :: event"
  let ?lev = "\<lparr>e_from_address = 9, e_keys = [1], e_data = [2, 3, 4, 0]\<rparr> :: event"
  have "sample_ctx ?ev\<lparr>ctx_event := ?ev\<rparr> = sample_ctx ?ev" by (simp add: sample_ctx_def)
  then show ?thesis
    using batch_truncated_panics[OF sample_lib_spec, of "[]" ?ev 1 2 3 4 ?lev log_services rev "sample_ctx ?ev" "[]"] by simp
qed

text \<open>
  The legacy and the current event layout of a transfer are processed alike: the same effects in the same order for ERC20, ERC721
  and single ERC1155 transfers, provided the contract address has the eight digits its metric label takes; and for ERC20 and
  ERC721 both layouts belong to the same task.
\<close>

theorem legacy_layouts_equivalent:
  assumes "de_u256_spec L" and "10 \<le> length (hex_felt L a)"
  shows "erc20_transfer_process L S (ctx\<lparr>ctx_event := \<lparr>e_from_address = a, e_keys = [k, from, to], e_data = words v\<rparr>\<rparr>) =
      erc20_legacy_process L S (ctx\<lparr>ctx_event := \<lparr>e_from_address = a, e_keys = [k], e_data = [from, to] @ words v\<rparr>\<rparr>) \<and>
    erc20_transfer_task_identifier L \<lparr>e_from_address = a, e_keys = [k, from, to], e_data = words v\<rparr> =
      erc20_legacy_task_identifier L \<lparr>e_from_address = a, e_keys = [k], e_data = [from, to] @ words v\<rparr> \<and>
    erc721_transfer_process L S (ctx\<lparr>ctx_event := \<lparr>e_from_address = a, e_keys = [k, from, to] @ words v, e_data = []\<rparr>\<rparr>) =
      erc721_legacy_process L S (ctx\<lparr>ctx_event := \<lparr>e_from_address = a, e_keys = [k], e_data = [from, to] @ words v\<rparr>\<rparr>) \<and>
    erc721_transfer_task_identifier L \<lparr>e_from_address = a, e_keys = [k, from, to] @ words v, e_data = []\<rparr> =
      erc721_legacy_task_identifier L \<lparr>e_from_address = a, e_keys = [k], e_data = [from, to] @ words v\<rparr> \<and>
    erc1155_single_process L S
        (ctx\<lparr>ctx_event := \<lparr>e_from_address = a, e_keys = [k, operator, from, to], e_data = words v @ words w\<rparr>\<rparr>) =
      erc1155_legacy_single_process L S
        (ctx\<lparr>ctx_event := \<lparr>e_from_address = a, e_keys = [k], e_data = [operator, from, to] @ words v @ words w\<rparr>\<rparr>)"
proof -
  have rd: "read_u256 L xs n = Ok u" if "xs = p @ words u @ q" "n = length p" for xs p u q n
    using read_words[OF assms(1) that(1)] that(2) by simp
  have r: "read_u256 L (words v) 0 = Ok v" "read_u256 L (words v @ words w) 0 = Ok v"
    by (rule rd[of _ "[]"], simp_all)+
  have r2: "read_u256 L (from # to # words v) 2 = Ok v"
    by (rule rd[of _ "[from, to]" v "[]"]) simp_all
  have r3: "read_u256 L (k # from # to # words v) 3 = Ok v"
    by (rule rd[of _ "[k, from, to]" v "[]"]) simp_all
  have r4: "read_u256 L (words v @ words w) 2 = Ok w"
    by (rule rd[of _ "words v" w "[]"]) simp_all
  have r5: "read_u256 L (operator # from # to # words v @ words w) 3 = Ok v"
    by (rule rd[of _ "[operator, from, to]" v "words w"]) simp_all
  have r6: "read_u256 L (operator # from # to # words v @ words w) 5 = Ok w"
    by (rule rd[of _ "[operator, from, to] @ words v" w "[]"]) simp_all
  have d: "de_u256 L (from # to # words v) 2 = Inr v" "de_u256 L (k # from # to # words v) 3 = Inr v"
    using r2 r3 by (simp_all add: read_u256_def split: sum.splits)
  have sv: "apply_and_store S (ctx\<lparr>ctx_event := e\<rparr>) = apply_and_store S ctx" for e
    by (simp add: fun_eq_iff apply_and_store_def)
  obtain x where cs: "contract_short L a = Ok x" using assms(2) by (simp add: contract_short_def)
  note defs = Let_def index_def nft_transfer_def step_bind_assoc step_bind_unit sv cs r r2 r3 r4 r5 r6
  show ?thesis
  proof (intro conjI, goal_cases)
    case 1 show ?case by (simp add: erc20_transfer_process_def erc20_legacy_process_def defs)
  next
    case 2 show ?case by (simp add: erc20_transfer_task_identifier_def erc20_legacy_task_identifier_def)
  next
    case 3 show ?case by (simp add: erc721_transfer_process_def erc721_legacy_process_def defs)
  next
    case 4 show ?case by (simp add: erc721_transfer_task_identifier_def erc721_legacy_task_identifier_def token_task_def d)
  next
    case 5 show ?case by (simp add: erc1155_single_process_def erc1155_legacy_single_process_def defs)
  qed
qed

theorem legacy_layouts_equivalent_witness:
  "erc20_transfer_task_identifier sample_lib \<lparr>e_from_address = 9, e_keys = [1, 3, 4], e_data = words 7\<rparr> =
     erc20_legacy_task_identifier sample_lib \<lparr>e_from_address = 9, e_keys = [1], e_data = [3, 4] @ words 7\<rparr>"
  using legacy_layouts_equivalent[OF sample_lib_spec, of 9 log_services 1 3 4 7
      "sample_ctx \<lparr>e_from_address = 9, e_keys = [1], e_data = []\<rparr>" 2 8]
  by (simp add: sample_lib_def)

end
