(* ===== verification/LatestOnly.thy ===== *)
theory LatestOnly
  imports TaskManager
begin

text \<open>
  Why it is sound to keep, of the events that are only indexed in their latest state, the last one per key
  (\<open>IndexingMode::Latest\<close>, \<open>crates/processors/src/lib.rs\<close> and \<open>task_manager.rs\<close>): every event overwrites a part of the entity that
  its key determines, and the linked hash map keeps the survivors in the order of their last occurrence.
\<close>

section \<open>Events that overwrite\<close>

text \<open>
  \<open>foot key\<close> is the part of the state that an event with that key writes: all members for \<open>StoreSetRecord\<close> and \<open>StoreDelRecord\<close>, the
  members that are no keys for \<open>StoreUpdateRecord\<close>, the one member of the selector for \<open>StoreUpdateMember\<close>.
\<close>

locale overwriting =
  fixes apply_event :: "parallelized_event \<Rightarrow> ('m \<Rightarrow> 'v) \<Rightarrow> 'm \<Rightarrow> 'v"
    and foot :: "event_key \<Rightarrow> 'm set"
    and written :: "parallelized_event \<Rightarrow> 'm \<Rightarrow> 'v"
  assumes overwrites: "pe_indexing_mode pe = Latest key \<Longrightarrow> apply_event pe s = override_on s (written pe) (foot key)"
begin

definition keyed :: "(event_key \<times> parallelized_event) list \<Rightarrow> bool" where
  "keyed m = (\<forall>(k, pe) \<in> set m. pe_indexing_mode pe = Latest k)"

text \<open>Outside the part that is overwritten at the end, earlier events with the same key make no difference.\<close>

lemma fold_outside:
  "keyed m \<Longrightarrow> (\<And>x. x \<notin> foot key \<Longrightarrow> s x = s' x) \<Longrightarrow> x \<notin> foot key \<Longrightarrow>
   fold apply_event (map snd (al_remove key m)) s x = fold apply_event (map snd m) s' x"
proof (induction m arbitrary: s s')
  case (Cons e m)
  obtain k pe where e: "e = (k, pe)" by fastforce
  have o: "apply_event pe t = override_on t (written pe) (foot k)" for t
    using Cons.prems(1) by (intro overwrites) (simp add: keyed_def e)
  have km: "keyed m" using Cons.prems(1) by (simp add: keyed_def)
  show ?case
  proof (cases "k = key")
    case True
    then have "\<And>x. x \<notin> foot key \<Longrightarrow> s x = apply_event pe s' x" using Cons.prems(2) by (simp add: o)
    from Cons.IH[OF km this Cons.prems(3)] show ?thesis by (simp add: e True al_remove_def)
  next
    case False
    have "\<And>x. x \<notin> foot key \<Longrightarrow> apply_event pe s x = apply_event pe s' x"
      using Cons.prems(2) by (auto simp: o override_on_def)
    from Cons.IH[OF km this Cons.prems(3)] False show ?thesis by (simp add: e al_remove_def)
  qed
qed (simp add: al_remove_def)

lemma fold_remove:
  assumes "keyed m" and "pe_indexing_mode pe = Latest key"
  shows "apply_event pe (fold apply_event (map snd (al_remove key m)) s) = apply_event pe (fold apply_event (map snd m) s)"
proof
  fix x show "apply_event pe (fold apply_event (map snd (al_remove key m)) s) x = apply_event pe (fold apply_event (map snd m) s) x"
    using fold_outside[OF assms(1), of key s s x] by (auto simp: overwrites[OF assms(2)] override_on_def)
qed

end

text \<open>The laws of the linked hash map determine the list: the other entries in their order, then the new one.\<close>

context linked_hash_map
begin

lemma ins_list:
  assumes "al_ok m"
  shows "ins k v m = al_remove k m @ [(k, v)]"
proof -
  obtain xs where xs: "ins k v m = xs @ [(k, v)]" using ins_back[of k v m] by (metis append_butlast_last_id)
  have "distinct (map fst (xs @ [(k, v)]))" using ins_ok[OF assms, of k v] by (simp add: al_ok_def xs)
  then have "al_remove k (ins k v m) = xs" by (auto simp: xs al_remove_def filter_id_conv rev_image_eqI)
  then show ?thesis using ins_order[of k v m] xs by simp
qed

end

section \<open>Compaction\<close>

context overwriting
begin

lemma compaction:
  assumes "linked_hash_map ins" and "\<forall>pe \<in> set pes. \<exists>k. pe_indexing_mode pe = Latest k"
  shows "al_ok (latest_only_events (fold (push_event ins) pes task_data_default)) \<and>
    keyed (latest_only_events (fold (push_event ins) pes task_data_default)) \<and>
    events (fold (push_event ins) pes task_data_default) = [] \<and>
    fold apply_event (map snd (latest_only_events (fold (push_event ins) pes task_data_default))) s = fold apply_event pes s"
  using assms(2)
proof (induction pes rule: rev_induct)
  case Nil
  then show ?case by (simp add: task_data_default_def keyed_def)
next
  case (snoc pe pes)
  let ?td = "fold (push_event ins) pes task_data_default"
  obtain k where k: "pe_indexing_mode pe = Latest k" using snoc.prems by auto
  from snoc have IH: "al_ok (latest_only_events ?td)" "keyed (latest_only_events ?td)" "events ?td = []"
      "fold apply_event (map snd (latest_only_events ?td)) s = fold apply_event pes s"
    by simp_all
  have new: "latest_only_events (fold (push_event ins) (pes @ [pe]) task_data_default) =
      al_remove k (latest_only_events ?td) @ [(k, pe)]"
    using linked_hash_map.ins_list[OF assms(1) IH(1)] by (simp add: push_event_def k)
  have "events (fold (push_event ins) (pes @ [pe]) task_data_default) = []"
    using IH(3) by (simp add: push_event_def k)
  moreover have "al_ok (al_remove k (latest_only_events ?td) @ [(k, pe)])"
    using al_ok_remove[OF IH(1), of k] by (auto simp: al_ok_def al_remove_def)
  moreover have "keyed (al_remove k (latest_only_events ?td) @ [(k, pe)])"
    using IH(2) k by (auto simp: keyed_def al_remove_def)
  ultimately show ?case
    using fold_remove[OF IH(2) k, of s] IH(4) unfolding new by simp
qed

end


section \<open>Properties\<close>

text \<open>The state of one entity as a map of its members; an event writes the values it carries to the members its key determines.\<close>

definition record_write ::
  "(event_key \<Rightarrow> 'm set) \<Rightarrow> (parallelized_event \<Rightarrow> 'm \<Rightarrow> 'v) \<Rightarrow> parallelized_event \<Rightarrow> ('m \<Rightarrow> 'v) \<Rightarrow> 'm \<Rightarrow> 'v" where
  "record_write foot written pe s =
     (case pe_indexing_mode pe of
        Latest key \<Rightarrow> override_on s (written pe) (foot key)
      | Historical \<Rightarrow> override_on s (written pe) UNIV)"

interpretation writes: overwriting "record_write foot written" foot written for foot written
  by unfold_locales (simp add: record_write_def)



end
