(* ===== verification/WorldProcessors.thy ===== *)
theory WorldProcessors
  imports ErcProcessors LatestOnly
begin

text \<open>
  The processors of world events (\<open>crates/processors/src/processors/\<close>: \<open>register_model.rs\<close>, \<open>register_event.rs\<close>,
  \<open>upgrade_model.rs\<close>, \<open>upgrade_event.rs\<close>, \<open>store_*.rs\<close>, \<open>event_message.rs\<close>, \<open>register_external_contract.rs\<close>, \<open>metadata_update.rs\<close>).

  Code of other packages is in two records of parameters. \<open>world_lib\<close>: the hasher, the decoder of world events (\<open>None\<close> where
  \<open>WorldEvent::try_from\<close> fails, on which the code panics), selectors, and deserialisation and comparison of schemas. \<open>world_services\<close>: the
  calls of storage, cache and the model contracts, which act on the shared state. Indexing past the end of the keys panics.
\<close>

section \<open>Schemas and events\<close>

text \<open>Of a schema the processors only look at structs: a name and members with a name, a type and whether they are keys.\<close>

datatype 'p ty = TStruct string "(string \<times> 'p ty \<times> bool) list" | TOther 'p

datatype world_event =
  EvModelRegistered "string option" "string option" felt felt
| EvEventRegistered "string option" "string option" felt felt
| EvModelUpgraded felt felt felt
| EvEventUpgraded felt felt felt
| EvStoreSetRecord felt felt "felt list" "felt list"
| EvStoreUpdateRecord felt felt "felt list"
| EvStoreUpdateMember felt felt felt "felt list"
| EvStoreDelRecord felt felt
| EvEventEmitted felt felt "felt list" "felt list"
| EvExternalContractRegistered "string option" "string option" "string option" felt u64
| EvMetadataUpdate felt "string option"

record 'p world_lib =
  w_hash :: "felt list \<Rightarrow> u64"
  w_decode :: "event \<Rightarrow> world_event option"
  selector_from_names :: "string \<Rightarrow> string \<Rightarrow> felt"
  selector_from_name :: "string \<Rightarrow> felt option"
  w_deserialize :: "'p ty \<Rightarrow> felt list \<Rightarrow> bool \<Rightarrow> string + 'p ty"
  ty_diff :: "'p ty \<Rightarrow> 'p ty \<Rightarrow> 'p ty option"
  event_keys_of :: "felt list \<Rightarrow> felt list option"
  poseidon :: "felt list \<Rightarrow> felt"
  hex_of :: "felt \<Rightarrow> string"
  contract_type_of :: "string \<Rightarrow> contract_type option"

text \<open>A model contract is read at the block of the event if \<open>strict_model_reader\<close> is set, else at the latest block.\<close>

record model_ref =
  r_namespace :: string
  r_name :: string
  r_address :: felt
  r_class_hash :: felt
  r_block :: "u64 option"

datatype reader_error = ReaderEntrypointNotFound | ReaderOther string

record ('p, 'l, 's) world_services =
  find_model :: "felt \<Rightarrow> felt \<Rightarrow> 's \<Rightarrow> ('l, 'p ty) model storage_model_answer"
  read_schema :: "model_ref \<Rightarrow> 's \<Rightarrow> string + 'p ty"
  read_layout :: "model_ref \<Rightarrow> 's \<Rightarrow> string + 'l"
  read_legacy :: "model_ref \<Rightarrow> 's \<Rightarrow> reader_error + bool"
  read_unpacked_size :: "model_ref \<Rightarrow> 's \<Rightarrow> string + 32 word"
  read_packed_size :: "model_ref \<Rightarrow> 's \<Rightarrow> string + 32 word"
  store_model :: "('l, 'p ty) model \<Rightarrow> u64 \<Rightarrow> 'p ty option \<Rightarrow> 'p ty option \<Rightarrow> ('s, unit) step"
  cache_model :: "('l, 'p ty) model \<Rightarrow> 's \<Rightarrow> 's"
  set_entity :: "felt \<Rightarrow> 'p ty \<Rightarrow> string \<Rightarrow> u64 \<Rightarrow> felt \<Rightarrow> felt \<Rightarrow> felt list option \<Rightarrow> ('s, unit) step"
  delete_entity :: "felt \<Rightarrow> felt \<Rightarrow> felt \<Rightarrow> 'p ty \<Rightarrow> string \<Rightarrow> u64 \<Rightarrow> ('s, unit) step"
  set_event_message :: "felt \<Rightarrow> 'p ty \<Rightarrow> string \<Rightarrow> u64 \<Rightarrow> felt list \<Rightarrow> ('s, unit) step"
  register_contract :: "felt \<Rightarrow> contract_type \<Rightarrow> u64 \<Rightarrow> ('s, unit) step"
  set_metadata :: "felt \<Rightarrow> string \<Rightarrow> u64 \<Rightarrow> ('s, unit) step"
  spawn_retrieve :: "felt \<Rightarrow> string \<Rightarrow> 's \<Rightarrow> 's"

definition unwrap :: "'a option \<Rightarrow> 'a completion" where
  "unwrap x = (case x of None \<Rightarrow> Panic | Some a \<Rightarrow> Ok a)"

definition provider_result :: "(string \<Rightarrow> processor_error) \<Rightarrow> string + 'a \<Rightarrow> 'a completion" where
  "provider_result f r = (case r of Inl e \<Rightarrow> Err (f e) | Inr a \<Rightarrow> Ok a)"

definition resolve ::
  "('p, 'l, 's) world_services \<Rightarrow> event_processor_context \<Rightarrow> felt \<Rightarrow> ('s, ('l, 'p ty) model option) step" where
  "resolve V ctx selector s =
     (case resolve_model_or_skip (\<lambda>a b. find_model V a b s) ctx selector of Inl e \<Rightarrow> (Err e, s) | Inr m \<Rightarrow> (Ok m, s))"

section \<open>Task identifiers, dependencies, indexing modes\<close>

definition task_id_from_address_and_keys :: "'p world_lib \<Rightarrow> felt \<Rightarrow> felt list \<Rightarrow> task_id" where
  "task_id_from_address_and_keys W from_address ks = w_hash W (from_address # ks)"

definition task_id_from_address_and_key :: "'p world_lib \<Rightarrow> felt \<Rightarrow> felt \<Rightarrow> task_id" where
  "task_id_from_address_and_key W from_address key = task_id_from_address_and_keys W from_address [key]"

text \<open>\<open>&event.keys[1..=2]\<close>\<close>

definition record_task_identifier :: "'p world_lib \<Rightarrow> event \<Rightarrow> task_id option" where
  "record_task_identifier W ev =
     (if length (e_keys ev) < 3 then None
      else Some (task_id_from_address_and_keys W (e_from_address ev) [e_keys ev ! 1, e_keys ev ! 2]))"

definition model_dependency :: "'p world_lib \<Rightarrow> event \<Rightarrow> task_id list option" where
  "model_dependency W ev =
     (if length (e_keys ev) < 2 then None
      else Some [task_id_from_address_and_key W (e_from_address ev) (e_keys ev ! 1)])"

definition record_indexing_mode :: "'p world_lib \<Rightarrow> event \<Rightarrow> event_processor_config \<Rightarrow> indexing_mode option" where
  "record_indexing_mode W ev cfg =
     (if length (e_keys ev) < 2 then None
      else if is_historical cfg (e_keys ev ! 1) then Some Historical
      else Some (Latest (w_hash W [e_keys ev ! 0])))"

definition member_indexing_mode :: "'p world_lib \<Rightarrow> event \<Rightarrow> event_processor_config \<Rightarrow> indexing_mode option" where
  "member_indexing_mode W ev cfg =
     (if length (e_keys ev) < 2 then None
      else if is_historical cfg (e_keys ev ! 1) then Some Historical
      else if length (e_keys ev) < 4 then None
      else Some (Latest (w_hash W [e_keys ev ! 0, e_keys ev ! 3])))"

definition event_message_task_identifier :: "'p world_lib \<Rightarrow> event \<Rightarrow> task_id option" where
  "event_message_task_identifier W ev =
     (case event_keys_of W (e_data ev) of
        None \<Rightarrow> None
      | Some ks \<Rightarrow> if length (e_keys ev) < 2 then None
                   else Some (w_hash W [e_from_address ev, e_keys ev ! 1, poseidon W ks]))"

definition register_model_task_identifier :: "'p world_lib \<Rightarrow> event \<Rightarrow> task_id option" where
  "register_model_task_identifier W ev =
     (case w_decode W ev of
        Some (EvModelRegistered (Some name) (Some namespace) _ _) \<Rightarrow>
          Some (task_id_from_address_and_key W (e_from_address ev) (selector_from_names W namespace name))
      | _ \<Rightarrow> None)"

definition register_event_task_identifier :: "'p world_lib \<Rightarrow> event \<Rightarrow> task_id option" where
  "register_event_task_identifier W ev =
     (case w_decode W ev of
        Some (EvEventRegistered (Some name) (Some namespace) _ _) \<Rightarrow>
          Some (task_id_from_address_and_key W (e_from_address ev) (selector_from_names W namespace name))
      | _ \<Rightarrow> None)"

definition upgrade_task_identifier :: "'p world_lib \<Rightarrow> event \<Rightarrow> task_id option" where
  "upgrade_task_identifier W ev =
     (if length (e_keys ev) < 2 then None
      else Some (task_id_from_address_and_key W (e_from_address ev) (e_keys ev ! 1)))"

definition external_contract_task_identifier :: "'p world_lib \<Rightarrow> event \<Rightarrow> task_id option" where
  "external_contract_task_identifier W ev = Some (w_hash W [e_from_address ev])"

definition metadata_update_task_identifier :: "'p world_lib \<Rightarrow> event \<Rightarrow> task_id option" where
  "metadata_update_task_identifier W ev = Some (w_hash W (e_keys ev))"

definition raw_event_task_identifier :: "event \<Rightarrow> task_id option" where
  "raw_event_task_identifier ev = Some 0"

section \<open>Storing records\<close>

definition store_set_record_process ::
  "'p world_lib \<Rightarrow> ('p, 'l, 's) world_services \<Rightarrow> event_processor_context \<Rightarrow> ('s, unit) step" where
  "store_set_record_process W V ctx =
     (case w_decode W (ctx_event ctx) of
        Some (EvStoreSetRecord selector entity_id ks vs) \<Rightarrow>
          step_bind (resolve V ctx selector) (\<lambda>m.
            case m of
              None \<Rightarrow> step_ok ()
            | Some model \<Rightarrow>
                step_bind (lift (provider_result PPrimitiveError (w_deserialize W (m_schema model) (ks @ vs) (m_use_legacy_store model))))
                  (\<lambda>entity. set_entity V (ctx_contract_address ctx) entity (ctx_event_id ctx) (ctx_block_timestamp ctx)
                              entity_id selector (Some ks)))
      | _ \<Rightarrow> lift Panic)"

definition store_del_record_process ::
  "'p world_lib \<Rightarrow> ('p, 'l, 's) world_services \<Rightarrow> event_processor_context \<Rightarrow> ('s, unit) step" where
  "store_del_record_process W V ctx =
     (case w_decode W (ctx_event ctx) of
        Some (EvStoreDelRecord selector entity_id) \<Rightarrow>
          step_bind (resolve V ctx selector) (\<lambda>m.
            case m of
              None \<Rightarrow> step_ok ()
            | Some model \<Rightarrow>
                delete_entity V (ctx_contract_address ctx) entity_id selector (m_schema model) (ctx_event_id ctx)
                  (ctx_block_timestamp ctx))
      | _ \<Rightarrow> lift Panic)"

text \<open>The members that are keys are dropped from the schema: the event only carries the values.\<close>

definition without_keys :: "'p ty \<Rightarrow> 'p ty completion" where
  "without_keys t = (case t of TStruct n ms \<Rightarrow> Ok (TStruct n (filter (\<lambda>(_, _, key). \<not> key) ms)) | TOther _ \<Rightarrow> Panic)"

definition store_update_record_process ::
  "'p world_lib \<Rightarrow> ('p, 'l, 's) world_services \<Rightarrow> event_processor_context \<Rightarrow> ('s, unit) step" where
  "store_update_record_process W V ctx =
     (case w_decode W (ctx_event ctx) of
        Some (EvStoreUpdateRecord selector entity_id vs) \<Rightarrow>
          step_bind (resolve V ctx selector) (\<lambda>m.
            case m of
              None \<Rightarrow> step_ok ()
            | Some model \<Rightarrow>
                step_bind (lift (without_keys (m_schema model))) (\<lambda>t.
                step_bind (lift (provider_result PPrimitiveError (w_deserialize W t vs (m_use_legacy_store model))))
                  (\<lambda>entity. set_entity V (ctx_contract_address ctx) entity (ctx_event_id ctx) (ctx_block_timestamp ctx)
                              entity_id selector None)))
      | _ \<Rightarrow> lift Panic)"

text \<open>The first member whose name has the selector; a name without a selector before it makes the \<open>expect\<close> panic.\<close>

fun find_member ::
  "'p world_lib \<Rightarrow> felt \<Rightarrow> (string \<times> 'p ty \<times> bool) list \<Rightarrow> (string \<times> 'p ty \<times> bool) option completion" where
  "find_member W sel [] = Ok None"
| "find_member W sel (m # ms) =
     (case selector_from_name W (fst m) of
        None \<Rightarrow> Panic
      | Some x \<Rightarrow> if x = sel then Ok (Some m) else find_member W sel ms)"

definition store_update_member_process ::
  "'p world_lib \<Rightarrow> ('p, 'l, 's) world_services \<Rightarrow> event_processor_context \<Rightarrow> ('s, unit) step" where
  "store_update_member_process W V ctx =
     (case w_decode W (ctx_event ctx) of
        Some (EvStoreUpdateMember selector entity_id member_selector vs) \<Rightarrow>
          step_bind (resolve V ctx selector) (\<lambda>m.
            case m of
              None \<Rightarrow> step_ok ()
            | Some model \<Rightarrow>
                (case m_schema model of
                   TOther _ \<Rightarrow> lift Panic
                 | TStruct struct_name ms \<Rightarrow>
                     step_bind (lift (find_member W member_selector ms)) (\<lambda>found.
                       case found of
                         None \<Rightarrow> lift (Err (PModelMemberNotFound (hex_of W member_selector)))
                       | Some (name, t, key) \<Rightarrow>
                           step_bind (lift (provider_result PPrimitiveError (w_deserialize W t vs (m_use_legacy_store model))))
                             (\<lambda>t'. set_entity V (ctx_contract_address ctx) (TStruct struct_name [(name, t', key)])
                                      (ctx_event_id ctx) (ctx_block_timestamp ctx) entity_id selector None))))
      | _ \<Rightarrow> lift Panic)"

definition event_message_process ::
  "'p world_lib \<Rightarrow> ('p, 'l, 's) world_services \<Rightarrow> event_processor_context \<Rightarrow> ('s, unit) step" where
  "event_message_process W V ctx =
     (case w_decode W (ctx_event ctx) of
        Some (EvEventEmitted selector system_address ks vs) \<Rightarrow>
          step_bind (resolve V ctx selector) (\<lambda>m.
            case m of
              None \<Rightarrow> step_ok ()
            | Some model \<Rightarrow>
                step_bind (lift (provider_result PPrimitiveError (w_deserialize W (m_schema model) (ks @ vs) (m_use_legacy_store model))))
                  (\<lambda>entity.
                step_bind (set_event_message V (ctx_contract_address ctx) entity (ctx_event_id ctx) (ctx_block_timestamp ctx) ks)
                  (\<lambda>_. if length (hex_of W system_address) < 10 then lift Panic else step_ok ())))
      | _ \<Rightarrow> lift Panic)"


section \<open>Registering and upgrading models\<close>

definition reader_block :: "event_processor_context \<Rightarrow> u64 option" where
  "reader_block ctx = (if strict_model_reader (ctx_config ctx) then Some (ctx_block_number ctx) else None)"

text \<open>The schema as it is stored: its name is prefixed by the namespace.\<close>

definition qualified_schema :: "string \<Rightarrow> 'p ty \<Rightarrow> 'p ty completion" where
  "qualified_schema namespace t =
     (case t of TStruct n ms \<Rightarrow> Ok (TStruct (namespace @ ''-'' @ n) ms) | TOther _ \<Rightarrow> Panic)"

definition read_use_legacy_store :: "('p, 'l, 's) world_services \<Rightarrow> model_ref \<Rightarrow> ('s, bool) step" where
  "read_use_legacy_store V r s =
     (case read_legacy V r s of
        Inr b \<Rightarrow> (Ok b, s)
      | Inl ReaderEntrypointNotFound \<Rightarrow> (Ok True, s)
      | Inl (ReaderOther e) \<Rightarrow> (Err (PModelError e), s))"

definition reading :: "('s \<Rightarrow> string + 'a) \<Rightarrow> ('s, 'a) step" where
  "reading f s = (provider_result PModelError (f s), s)"

definition model_of ::
  "event_processor_context \<Rightarrow> felt \<Rightarrow> model_ref \<Rightarrow> 'p ty \<Rightarrow> 'l \<Rightarrow> bool \<Rightarrow> 32 word \<Rightarrow> 32 word \<Rightarrow> ('l, 'p ty) model" where
  "model_of ctx selector r schema layout use_legacy_store packed_size unpacked_size =
     \<lparr>m_world_address = ctx_contract_address ctx, m_namespace = r_namespace r, m_name = r_name r, m_selector = selector,
      m_class_hash = r_class_hash r, m_contract_address = r_address r, m_packed_size = packed_size,
      m_unpacked_size = unpacked_size, m_layout = layout, m_schema = schema, m_use_legacy_store = use_legacy_store\<rparr>"

text \<open>First storage, then the cache: the cache never knows a model that storage refused.\<close>

definition store_and_cache ::
  "('p, 'l, 's) world_services \<Rightarrow> event_processor_context \<Rightarrow> ('l, 'p ty) model \<Rightarrow> 'p ty option \<Rightarrow> 'p ty option \<Rightarrow> ('s, unit) step" where
  "store_and_cache V ctx model schema_diff upgrade_diff =
     step_bind (store_model V model (ctx_block_timestamp ctx) schema_diff upgrade_diff)
       (\<lambda>_ s. (Ok (), cache_model V model s))"

definition register_model_process ::
  "'p world_lib \<Rightarrow> ('p, 'l, 's) world_services \<Rightarrow> event_processor_context \<Rightarrow> ('s, unit) step" where
  "register_model_process W V ctx =
     (case w_decode W (ctx_event ctx) of
        Some (EvModelRegistered name0 namespace0 class_hash address) \<Rightarrow>
          step_bind (lift (unwrap namespace0)) (\<lambda>namespace.
          step_bind (lift (unwrap name0)) (\<lambda>name.
          if \<not> should_index (ctx_config ctx) namespace name then step_ok ()
          else let r = \<lparr>r_namespace = namespace, r_name = name, r_address = address, r_class_hash = class_hash,
                        r_block = reader_block ctx\<rparr> in
            step_bind (reading (read_schema V r)) (\<lambda>schema0.
            step_bind (lift (qualified_schema namespace schema0)) (\<lambda>schema.
            step_bind (read_use_legacy_store V r) (\<lambda>use_legacy_store.
            step_bind (reading (read_layout V r)) (\<lambda>layout.
            step_bind (reading (read_unpacked_size V r)) (\<lambda>unpacked_size.
            step_bind (reading (read_packed_size V r)) (\<lambda>packed_size.
            store_and_cache V ctx
              (model_of ctx (selector_from_names W namespace name) r schema layout use_legacy_store packed_size unpacked_size)
              None None))))))))
      | _ \<Rightarrow> lift Panic)"

text \<open>Events are never stored on chain: no sizes, and always the legacy store.\<close>

definition register_event_process ::
  "'p world_lib \<Rightarrow> ('p, 'l, 's) world_services \<Rightarrow> event_processor_context \<Rightarrow> ('s, unit) step" where
  "register_event_process W V ctx =
     (case w_decode W (ctx_event ctx) of
        Some (EvEventRegistered name0 namespace0 class_hash address) \<Rightarrow>
          step_bind (lift (unwrap namespace0)) (\<lambda>namespace.
          step_bind (lift (unwrap name0)) (\<lambda>name.
          if \<not> should_index (ctx_config ctx) namespace name then step_ok ()
          else let r = \<lparr>r_namespace = namespace, r_name = name, r_address = address, r_class_hash = class_hash,
                        r_block = reader_block ctx\<rparr> in
            step_bind (reading (read_schema V r)) (\<lambda>schema0.
            step_bind (lift (qualified_schema namespace schema0)) (\<lambda>schema.
            step_bind (reading (read_layout V r)) (\<lambda>layout.
            store_and_cache V ctx (model_of ctx (selector_from_names W namespace name) r schema layout True 0 0) None None)))))
      | _ \<Rightarrow> lift Panic)"

definition upgrade_model_process ::
  "'p world_lib \<Rightarrow> ('p, 'l, 's) world_services \<Rightarrow> event_processor_context \<Rightarrow> ('s, unit) step" where
  "upgrade_model_process W V ctx =
     (case w_decode W (ctx_event ctx) of
        Some (EvModelUpgraded selector class_hash address) \<Rightarrow>
          step_bind (resolve V ctx selector) (\<lambda>m.
            case m of
              None \<Rightarrow> step_ok ()
            | Some model \<Rightarrow>
                let prev_schema = m_schema model;
                    r = \<lparr>r_namespace = m_namespace model, r_name = m_name model, r_address = address, r_class_hash = class_hash,
                         r_block = reader_block ctx\<rparr> in
                step_bind (reading (read_schema V r)) (\<lambda>schema0.
                step_bind (lift (qualified_schema (m_namespace model) schema0)) (\<lambda>new_schema.
                case ty_diff W new_schema prev_schema of
                  None \<Rightarrow> step_ok ()
                | Some schema_diff \<Rightarrow>
                    step_bind (reading (read_layout V r)) (\<lambda>layout.
                    step_bind (read_use_legacy_store V r) (\<lambda>use_legacy_store.
                    step_bind (reading (read_unpacked_size V r)) (\<lambda>unpacked_size.
                    step_bind (reading (read_packed_size V r)) (\<lambda>packed_size.
                    store_and_cache V ctx (model_of ctx selector r new_schema layout use_legacy_store packed_size unpacked_size)
                      (Some schema_diff) (ty_diff W prev_schema new_schema))))))))
      | _ \<Rightarrow> lift Panic)"

definition upgrade_event_process ::
  "'p world_lib \<Rightarrow> ('p, 'l, 's) world_services \<Rightarrow> event_processor_context \<Rightarrow> ('s, unit) step" where
  "upgrade_event_process W V ctx =
     (case w_decode W (ctx_event ctx) of
        Some (EvEventUpgraded selector class_hash address) \<Rightarrow>
          step_bind (resolve V ctx selector) (\<lambda>m.
            case m of
              None \<Rightarrow> step_ok ()
            | Some model \<Rightarrow>
                let prev_schema = m_schema model;
                    r = \<lparr>r_namespace = m_namespace model, r_name = m_name model, r_address = address, r_class_hash = class_hash,
                         r_block = reader_block ctx\<rparr> in
                step_bind (reading (read_schema V r)) (\<lambda>schema0.
                step_bind (lift (qualified_schema (m_namespace model) schema0)) (\<lambda>new_schema.
                case ty_diff W new_schema prev_schema of
                  None \<Rightarrow> step_ok ()
                | Some schema_diff \<Rightarrow>
                    step_bind (reading (read_layout V r)) (\<lambda>layout.
                    store_and_cache V ctx (model_of ctx selector r new_schema layout True 0 0)
                      (Some schema_diff) (ty_diff W prev_schema new_schema)))))
      | _ \<Rightarrow> lift Panic)"

section \<open>Contracts and metadata\<close>

definition register_external_contract_process ::
  "'p world_lib \<Rightarrow> ('p, 'l, 's) world_services \<Rightarrow> event_processor_context \<Rightarrow> ('s, unit) step" where
  "register_external_contract_process W V ctx =
     (case w_decode W (ctx_event ctx) of
        Some (EvExternalContractRegistered namespace0 contract_name0 instance_name0 contract_address block_number) \<Rightarrow>
          step_bind (lift (unwrap namespace0)) (\<lambda>namespace.
          step_bind (lift (unwrap contract_name0)) (\<lambda>contract_name.
          step_bind (lift (unwrap instance_name0)) (\<lambda>instance_name.
          if \<not> should_index_external_contract (ctx_config ctx) namespace instance_name then step_ok ()
          else register_contract V contract_address
                 (case contract_type_of W contract_name of None \<Rightarrow> OTHER | Some t \<Rightarrow> t)
                 (if block_number > 0 then block_number - 1 else 0))))
      | _ \<Rightarrow> lift Panic)"

definition metadata_update_process ::
  "'p world_lib \<Rightarrow> ('p, 'l, 's) world_services \<Rightarrow> event_processor_context \<Rightarrow> ('s, unit) step" where
  "metadata_update_process W V ctx =
     (case w_decode W (ctx_event ctx) of
        Some (EvMetadataUpdate resource uri0) \<Rightarrow>
          step_bind (lift (unwrap uri0)) (\<lambda>uri.
          step_bind (set_metadata V resource uri (ctx_block_timestamp ctx)) (\<lambda>_ s.
            (Ok (), if resource = 0 then spawn_retrieve V resource uri s else s)))
      | _ \<Rightarrow> lift Panic)"

section \<open>Lemmas\<close>

lemma resolve_missing:
  assumes "find_model V (ctx_contract_address ctx) selector s = StorageModelNotFound"
  shows "resolve V ctx selector s =
    (if namespaces (ctx_config ctx) \<noteq> {} then Ok None else Err (PModelNotFound selector), s)"
  using assms by (simp add: resolve_def resolve_model_or_skip_def)

text \<open>The selector of the model an event is about.\<close>

fun about_model :: "world_event \<Rightarrow> felt option" where
  "about_model (EvStoreSetRecord sel _ _ _) = Some sel"
| "about_model (EvStoreUpdateRecord sel _ _) = Some sel"
| "about_model (EvStoreUpdateMember sel _ _ _) = Some sel"
| "about_model (EvStoreDelRecord sel _) = Some sel"
| "about_model (EvEventEmitted sel _ _ _) = Some sel"
| "about_model (EvModelUpgraded sel _ _) = Some sel"
| "about_model (EvEventUpgraded sel _ _) = Some sel"
| "about_model _ = None"

text \<open>The processor of the registry that is meant for a decoded event.\<close>

fun world_process ::
  "'p world_lib \<Rightarrow> ('p, 'l, 's) world_services \<Rightarrow> world_event \<Rightarrow> event_processor_context \<Rightarrow> ('s, unit) step" where
  "world_process W V (EvModelRegistered _ _ _ _) = register_model_process W V"
| "world_process W V (EvEventRegistered _ _ _ _) = register_event_process W V"
| "world_process W V (EvModelUpgraded _ _ _) = upgrade_model_process W V"
| "world_process W V (EvEventUpgraded _ _ _) = upgrade_event_process W V"
| "world_process W V (EvStoreSetRecord _ _ _ _) = store_set_record_process W V"
| "world_process W V (EvStoreUpdateRecord _ _ _) = store_update_record_process W V"
| "world_process W V (EvStoreUpdateMember _ _ _ _) = store_update_member_process W V"
| "world_process W V (EvStoreDelRecord _ _) = store_del_record_process W V"
| "world_process W V (EvEventEmitted _ _ _ _) = event_message_process W V"
| "world_process W V (EvExternalContractRegistered _ _ _ _ _) = register_external_contract_process W V"
| "world_process W V (EvMetadataUpdate _ _) = metadata_update_process W V"

section \<open>Properties\<close>

text \<open>
  An event about a model that is not known changes nothing: if namespaces are filtered it is skipped, otherwise processing fails
  with \<open>ModelNotFound\<close>. This holds of every processor that looks up a model: the four record processors, event messages and
  both upgrades.
\<close>

theorem unknown_model_is_inert:
  assumes "w_decode W (ctx_event ctx) = Some we" and "about_model we = Some selector"
    and "find_model V (ctx_contract_address ctx) selector s = StorageModelNotFound"
  shows "world_process W V we ctx s =
    (if namespaces (ctx_config ctx) \<noteq> {} then Ok () else Err (PModelNotFound selector), s)"
  using assms(1,2) resolve_missing[OF assms(3)]
  by (cases we)
    (auto simp: upgrade_model_process_def upgrade_event_process_def store_set_record_process_def store_update_record_process_def
      store_update_member_process_def store_del_record_process_def event_message_process_def step_bind_def step_ok_def)

text \<open>A world that knows no model, with a library that reads every event as the deletion of a record.\<close>

definition sample_world_lib :: "unit world_lib" where
  "sample_world_lib = \<lparr>w_hash = (\<lambda>xs. of_nat (fold (\<lambda>x acc. 31 * acc + x) xs 7)),
     w_decode = (\<lambda>ev. case e_keys ev of [_, selector, entity_id] \<Rightarrow> Some (EvStoreDelRecord selector entity_id) | _ \<Rightarrow> None),
     selector_from_names = (\<lambda>a b. length a + 10 * length b), selector_from_name = (\<lambda>a. Some (length a)),
     w_deserialize = (\<lambda>t _ _. Inr t), ty_diff = (\<lambda>_ _. None), event_keys_of = Some, poseidon = sum_list,
     hex_of = (\<lambda>_. ''0x0000000000''), contract_type_of = (\<lambda>_. None)\<rparr>"

definition empty_world :: "(unit, unit, string list) world_services" where
  "empty_world = \<lparr>find_model = (\<lambda>_ _ _. StorageModelNotFound), read_schema = (\<lambda>_ _. Inl []), read_layout = (\<lambda>_ _. Inl []),
     read_legacy = (\<lambda>_ _. Inl ReaderEntrypointNotFound), read_unpacked_size = (\<lambda>_ _. Inl []), read_packed_size = (\<lambda>_ _. Inl []),
     store_model = (\<lambda>_ _ _ _ s. (Ok (), s @ [''store''])), cache_model = (\<lambda>_ s. s @ [''cache'']),
     set_entity = (\<lambda>_ _ _ _ _ _ _ s. (Ok (), s @ [''set''])), delete_entity = (\<lambda>_ _ _ _ _ _ s. (Ok (), s @ [''delete''])),
     set_event_message = (\<lambda>_ _ _ _ _ s. (Ok (), s @ [''message''])), register_contract = (\<lambda>_ _ _ s. (Ok (), s @ [''contract''])),
     set_metadata = (\<lambda>_ _ _ s. (Ok (), s @ [''metadata''])), spawn_retrieve = (\<lambda>_ _ s. s @ [''spawn''])\<rparr>"

definition delete_ctx :: event_processor_context where
  "delete_ctx = \<lparr>ctx_contract_address = 5, ctx_block_number = 1, ctx_block_timestamp = 0, ctx_event_id = [],
     ctx_event = \<lparr>e_from_address = 5, e_keys = [3, 77, 8], e_data = []\<rparr>, ctx_config = config_default, ctx_is_at_head = False\<rparr>"

theorem unknown_model_is_inert_witness:
  "world_process sample_world_lib empty_world (EvStoreDelRecord 77 8) delete_ctx [''before''] = (Err (PModelNotFound 77), [''before''])"
  using unknown_model_is_inert[of sample_world_lib delete_ctx "EvStoreDelRecord 77 8" 77 empty_world "[''before'']"]
  by (simp only: sample_world_lib_def delete_ctx_def empty_world_def config_default_def) simp

end
