(* ===== verification/Fetcher.thy ===== *)
theory Fetcher
  imports Proto
begin

text \<open>
  The fetcher of \<open>crates/indexer/fetcher/src/json_rpc.rs\<close> with the data types of \<open>lib.rs\<close>: it follows the pages of events of all
  contracts, drops what an earlier preconfirmed block has already delivered, moves the cursors, and sorts the events into blocks and
  transactions.

  The JSON-RPC provider is a parameter, the record \<open>provider\<close>; the answer to a batch of requests may depend on the attempt.
  Block numbers are \<open>u64\<close> and wrap around. The loop over the pages ends only if the provider ever answers without a continuation token:
  \<open>None\<close> stands for a loop that does not end. Sleeping, logging and metrics are left out.
\<close>

section \<open>Data\<close>

record fetching_flags =
  TRANSACTIONS :: bool
  PRECONFIRMED_BLOCK :: bool
  TRANSACTION_RECEIPTS :: bool

record fetcher_config =
  batch_chunk_size :: nat
  blocks_chunk_size :: u64
  events_chunk_size :: u64
  world_block :: u64
  flags :: fetching_flags

definition fetcher_config_default :: fetcher_config where
  "fetcher_config_default = \<lparr>batch_chunk_size = 1024, blocks_chunk_size = 10240, events_chunk_size = 1024, world_block = 0,
     flags = \<lparr>TRANSACTIONS = False, PRECONFIRMED_BLOCK = False, TRANSACTION_RECEIPTS = False\<rparr>\<rparr>"

record ('tx, 'r) fetch_transaction =
  ft_transaction :: "'tx option"
  ft_events :: "event list"
  ft_receipt :: "'r option"

record ('tx, 'r) fetch_range_block =
  fb_block_hash :: "felt option"
  fb_timestamp :: u64
  fb_transactions :: "(felt \<times> ('tx, 'r) fetch_transaction) list"

type_synonym ('tx, 'r) fetch_range_result = "(u64 \<times> ('tx, 'r) fetch_range_block) list"

record ('tx, 'r) fetch_preconfirmed_block_result =
  fp_block_number :: u64
  fp_timestamp :: u64
  fp_transactions :: "(felt \<times> ('tx, 'r) fetch_transaction) list"

record cursors =
  cursor_transactions :: "(felt \<times> felt set) list"
  cursors_of :: "(felt \<times> contract_cursor) list"

record ('tx, 'r) fetch_result =
  fr_range :: "('tx, 'r) fetch_range_result"
  fr_preconfirmed_block :: "('tx, 'r) fetch_preconfirmed_block_result option"
  fr_cursors :: cursors

text \<open>\<open>EmittedEvent\<close> of the Starknet library; the block number is missing for events of pending blocks.\<close>

record emitted_event =
  ee_event :: event
  ee_block_number :: "u64 option"
  ee_transaction_hash :: felt

record contract_event_batch =
  cb_contract_address :: felt
  cb_events :: "emitted_event list"
  cb_from_block :: u64
  cb_to_block :: u64

section \<open>The provider\<close>

datatype request =
  GetEvents felt u64 felt "string option" u64
| GetBlockWithTxHashes u64
| GetTransactionByHash felt
| GetTransactionReceipt felt

text \<open>A block is given by its timestamp, its transactions and its hash; \<open>None\<close> is a preconfirmed block.\<close>

datatype ('tx, 'r) response =
  EventsPage "emitted_event list" "string option"
| BlockWithTxHashes "(u64 \<times> felt list \<times> felt) option"
| Transaction felt 'tx
| TransactionReceipt felt 'r

record ('tx, 'r) preconf_tx =
  pt_hash :: felt
  pt_reverted :: bool
  pt_events :: "event list"
  pt_transaction :: 'tx
  pt_receipt :: 'r

record ('tx, 'r) preconf_block =
  pb_block_number :: u64
  pb_timestamp :: u64
  pb_transactions :: "('tx, 'r) preconf_tx list"

record ('tx, 'r) provider =
  block_hash_and_number :: "string + felt \<times> u64"
  batch_requests :: "nat \<Rightarrow> request list \<Rightarrow> string + ('tx, 'r) response list"
  get_preconfirmed :: "string + ('tx, 'r) preconf_block option"

datatype fetch_error = Provider string | BatchRequest

text \<open>How a call ends: with a value, an error, or a panic.\<close>

datatype 'a fetched = Fetched 'a | FetchError fetch_error | FetchPanic

fun fetched_bind :: "'a fetched \<Rightarrow> ('a \<Rightarrow> 'b fetched) \<Rightarrow> 'b fetched" where
  "fetched_bind (Fetched a) f = f a"
| "fetched_bind (FetchError e) f = FetchError e"
| "fetched_bind FetchPanic f = FetchPanic"

definition or_panic :: "'a option \<Rightarrow> 'a fetched" where
  "or_panic x = (case x of None \<Rightarrow> FetchPanic | Some a \<Rightarrow> Fetched a)"

section \<open>Batches of requests\<close>

text \<open>\<open>slice::chunks\<close>, which panics on size 0.\<close>

function chunks :: "nat \<Rightarrow> 'a list \<Rightarrow> 'a list list" where
  "chunks n xs = (if n = 0 \<or> xs = [] then [] else take n xs # chunks n (drop n xs))"
  by pat_completeness auto
termination by (relation "measure (\<lambda>(n, xs). length xs)") auto

declare chunks.simps [simp del]

definition MAX_RETRIES :: nat where
  "MAX_RETRIES = 5"

function request_chunk :: "('tx, 'r) provider \<Rightarrow> request list \<Rightarrow> nat \<Rightarrow> ('tx, 'r) response list fetched" where
  "request_chunk P chunk attempt =
     (case batch_requests P attempt chunk of
        Inr results \<Rightarrow> Fetched results
      | Inl e \<Rightarrow> if attempt < MAX_RETRIES then request_chunk P chunk (attempt + 1) else FetchError BatchRequest)"
  by pat_completeness auto
termination by (relation "measure (\<lambda>(P, c, attempt). MAX_RETRIES - attempt)") auto

declare request_chunk.simps [simp del]

text \<open>\<open>try_join_all\<close>: the results in the order of the chunks, or an error if a chunk failed.\<close>

fun join_all :: "'a list fetched list \<Rightarrow> 'a list fetched" where
  "join_all [] = Fetched []"
| "join_all (r # rs) = fetched_bind r (\<lambda>xs. fetched_bind (join_all rs) (\<lambda>ys. Fetched (xs @ ys)))"

definition chunked_batch_requests ::
  "fetcher_config \<Rightarrow> ('tx, 'r) provider \<Rightarrow> request list \<Rightarrow> ('tx, 'r) response list fetched" where
  "chunked_batch_requests cfg P reqs =
     (if reqs = [] then Fetched []
      else if batch_chunk_size cfg = 0 then FetchPanic
      else join_all (map (\<lambda>chunk. request_chunk P chunk 0) (chunks (batch_chunk_size cfg) reqs)))"

section \<open>Pages of events\<close>

type_synonym event_request = "felt \<times> u64 \<times> u64 \<times> request"

text \<open>
  The events of one page up to the end of the range of blocks. If the first event is beyond the range, or the range starts at block 0, the range
  starts at that event instead. The last component says that the page went beyond the range.
\<close>

fun page_loop ::
  "fetcher_config \<Rightarrow> u64 \<Rightarrow> bool \<Rightarrow> u64 \<Rightarrow> u64 \<Rightarrow> emitted_event list \<Rightarrow> (u64 \<times> u64 \<times> emitted_event list \<times> bool) option" where
  "page_loop cfg latest first from_block to_block [] = Some (from_block, to_block, [], False)"
| "page_loop cfg latest first from_block to_block (e # es) =
     (case ee_block_number e of
        None \<Rightarrow> None
      | Some b \<Rightarrow>
          (let (f, t) = (if first \<and> (b > to_block \<or> from_block = 0) then (b, min (b + blocks_chunk_size cfg) latest)
                         else (from_block, to_block)) in
           if b > t then Some (f, t, [], True)
           else (case page_loop cfg latest False f t es of
                   None \<Rightarrow> None
                 | Some (f', t', es', done) \<Rightarrow> Some (f', t', e # es', done))))"

definition add_page ::
  "felt \<Rightarrow> u64 \<Rightarrow> u64 \<Rightarrow> emitted_event list \<Rightarrow> (felt \<times> contract_event_batch) list \<Rightarrow> (felt \<times> contract_event_batch) list" where
  "add_page a f t es =
     al_upsert a (\<lambda>b. b\<lparr>cb_events := cb_events b @ es, cb_from_block := min (cb_from_block b) f, cb_to_block := max (cb_to_block b) t\<rparr>)
       \<lparr>cb_contract_address = a, cb_events = es, cb_from_block = f, cb_to_block = t\<rparr>"

definition with_token :: "request \<Rightarrow> string option \<Rightarrow> request option" where
  "with_token r tok = (case r of GetEvents a f h _ n \<Rightarrow> Some (GetEvents a f h tok n) | _ \<Rightarrow> None)"

text \<open>One request of a round with its answer: the page is added to the batch of the contract, and the next page is requested if there is one.\<close>

definition process_page ::
  "fetcher_config \<Rightarrow> u64 \<Rightarrow> event_request \<times> ('tx, 'r) response \<Rightarrow>
   (felt \<times> contract_event_batch) list \<times> event_request list \<Rightarrow> ((felt \<times> contract_event_batch) list \<times> event_request list) option" where
  "process_page cfg latest rr st =
     (case (rr, st) of (((a, from_block, to_block, original_request), result), (batches, next)) \<Rightarrow>
       (case result of
          EventsPage es tok \<Rightarrow>
            (case page_loop cfg latest True from_block to_block es of
               None \<Rightarrow> None
             | Some (f, t, page_events, done) \<Rightarrow>
                 Some (add_page a f t page_events batches,
                       if tok \<noteq> None \<and> \<not> done
                       then (case with_token original_request tok of None \<Rightarrow> next | Some r \<Rightarrow> next @ [(a, f, t, r)])
                       else next))
        | _ \<Rightarrow> None))"

fun process_pages ::
  "fetcher_config \<Rightarrow> u64 \<Rightarrow> (event_request \<times> ('tx, 'r) response) list \<Rightarrow>
   (felt \<times> contract_event_batch) list \<times> event_request list \<Rightarrow> ((felt \<times> contract_event_batch) list \<times> event_request list) option" where
  "process_pages cfg latest [] st = Some st"
| "process_pages cfg latest (rr # rrs) st =
     (case process_page cfg latest rr st of None \<Rightarrow> None | Some st' \<Rightarrow> process_pages cfg latest rrs st')"

partial_function (option) pages_loop ::
  "fetcher_config \<Rightarrow> ('tx, 'r) provider \<Rightarrow> u64 \<Rightarrow> (felt \<times> contract_event_batch) list \<Rightarrow> event_request list \<Rightarrow>
   (felt \<times> contract_event_batch) list fetched option" where
  "pages_loop cfg P latest batches reqs =
     (if reqs = [] then Some (Fetched batches)
      else (case chunked_batch_requests cfg P (map (\<lambda>(_, _, _, r). r) reqs) of
              FetchError e \<Rightarrow> Some (FetchError e)
            | FetchPanic \<Rightarrow> Some FetchPanic
            | Fetched results \<Rightarrow>
                (case process_pages cfg latest (zip reqs results) (batches, []) of
                   None \<Rightarrow> Some FetchPanic
                 | Some (batches', next) \<Rightarrow> pages_loop cfg P latest batches' next)))"

definition fetch_all_event_pages ::
  "fetcher_config \<Rightarrow> ('tx, 'r) provider \<Rightarrow> (contract_event_batch list \<Rightarrow> contract_event_batch list) \<Rightarrow> event_request list \<Rightarrow> u64 \<Rightarrow>
   contract_event_batch list fetched option" where
  "fetch_all_event_pages cfg P ho initial_requests latest =
     map_option (\<lambda>r. fetched_bind r (\<lambda>bs. Fetched (ho (al_values bs)))) (pages_loop cfg P latest [] initial_requests)"

section \<open>Dropping what was already delivered\<close>

text \<open>The events after the last transaction that was delivered from a preconfirmed block, if that transaction is in the batch.\<close>

fun skip_loop :: "felt option \<Rightarrow> bool \<Rightarrow> felt option \<Rightarrow> emitted_event list \<Rightarrow> emitted_event list" where
  "skip_loop last_pending should_skip tmp [] = []"
| "skip_loop last_pending should_skip tmp (e # es) =
     (if (case tmp of None \<Rightarrow> False | Some tx \<Rightarrow> ee_transaction_hash e \<noteq> tx) then skip_loop last_pending should_skip tmp es
      else if should_skip \<and> (case last_pending of None \<Rightarrow> False | Some tx \<Rightarrow> ee_transaction_hash e = tx)
        then skip_loop last_pending should_skip None es
      else e # skip_loop last_pending should_skip None es)"

definition new_events :: "contract_cursor \<Rightarrow> emitted_event list \<Rightarrow> emitted_event list" where
  "new_events old_cursor es =
     (let should_skip = (case c_last_pending_block_tx old_cursor of
                           None \<Rightarrow> False
                         | Some tx \<Rightarrow> list_ex (\<lambda>e. ee_transaction_hash e = tx) es)
      in skip_loop (c_last_pending_block_tx old_cursor) should_skip
           (if should_skip then c_last_pending_block_tx old_cursor else None) es)"

definition advance_cursor :: "u64 \<Rightarrow> contract_cursor \<Rightarrow> contract_cursor" where
  "advance_cursor to_block c =
     (if c_head c \<noteq> Some to_block then c\<lparr>c_last_pending_block_tx := None, c_head := Some to_block\<rparr>
      else c\<lparr>c_head := Some to_block\<rparr>)"

fun preprocess_loop ::
  "(felt \<times> contract_cursor) list \<Rightarrow> contract_event_batch list \<Rightarrow> (felt \<times> contract_cursor) list \<Rightarrow>
   emitted_event list \<times> (felt \<times> contract_cursor) list" where
  "preprocess_loop old_cursors [] cs = ([], cs)"
| "preprocess_loop old_cursors (b # bs) cs =
     (case (map_of old_cursors (cb_contract_address b), map_of cs (cb_contract_address b)) of
        (Some old_cursor, Some _) \<Rightarrow>
          (let (es, cs') = preprocess_loop old_cursors bs
                 (al_modify (cb_contract_address b) (advance_cursor (cb_to_block b)) cs)
           in (new_events old_cursor (cb_events b) @ es, cs'))
      | _ \<Rightarrow> preprocess_loop old_cursors bs cs)"

definition preprocess_fetched_events ::
  "contract_event_batch list \<Rightarrow> (felt \<times> contract_cursor) list \<Rightarrow> emitted_event list \<times> (felt \<times> contract_cursor) list" where
  "preprocess_fetched_events batches cs = preprocess_loop cs batches cs"

definition fetch_and_preprocess_events ::
  "fetcher_config \<Rightarrow> ('tx, 'r) provider \<Rightarrow> (contract_event_batch list \<Rightarrow> contract_event_batch list) \<Rightarrow> event_request list \<Rightarrow>
   (felt \<times> contract_cursor) list \<Rightarrow> u64 \<Rightarrow> (emitted_event list \<times> (felt \<times> contract_cursor) list) fetched option" where
  "fetch_and_preprocess_events cfg P ho initial_requests cs latest =
     map_option (\<lambda>r. fetched_bind r (\<lambda>batches. Fetched (preprocess_fetched_events batches cs)))
       (fetch_all_event_pages cfg P ho initial_requests latest)"

section \<open>A range of blocks\<close>

definition first_block :: "fetcher_config \<Rightarrow> contract_cursor \<Rightarrow> u64" where
  "first_block cfg c = (case c_head c of None \<Rightarrow> world_block cfg | Some h \<Rightarrow> if h = 0 then h else h + 1)"

definition event_requests ::
  "fetcher_config \<Rightarrow> felt \<times> u64 \<Rightarrow> (felt \<times> contract_cursor) list \<Rightarrow> event_request list" where
  "event_requests cfg latest cs =
     map (\<lambda>(a, c). (a, first_block cfg c, min (first_block cfg c + blocks_chunk_size cfg) (snd latest),
            GetEvents a (first_block cfg c) (fst latest) None (events_chunk_size cfg)))
       (filter (\<lambda>(_, c). c_head c \<noteq> Some (snd latest)) cs)"

text \<open>The \<open>BTreeSet\<close> of the blocks of the events and the heads of the cursors, in ascending order; \<open>None\<close> is the panic of \<open>unwrap\<close>.\<close>

definition block_numbers :: "emitted_event list \<Rightarrow> (felt \<times> contract_cursor) list \<Rightarrow> u64 list option" where
  "block_numbers es cs =
     (if list_ex (\<lambda>e. ee_block_number e = None) es then None
      else Some (sorted_list_of_set
        (set (List.map_filter ee_block_number es) \<union> set (List.map_filter (\<lambda>(_, c). c_head c) cs))))"

definition empty_transaction :: "('tx, 'r) fetch_transaction" where
  "empty_transaction = \<lparr>ft_transaction = None, ft_events = [], ft_receipt = None\<rparr>"

definition init_transactions :: "felt list \<Rightarrow> (felt \<times> ('tx, 'r) fetch_transaction) list" where
  "init_transactions hashes = fold (\<lambda>h. al_insert h empty_transaction) hashes []"

fun init_blocks ::
  "(u64 \<times> ('tx, 'r) response) list \<Rightarrow> ('tx, 'r) fetch_range_result \<Rightarrow> ('tx, 'r) fetch_range_result option" where
  "init_blocks [] blocks = Some blocks"
| "init_blocks ((n, r) # rs) blocks =
     (case r of
        BlockWithTxHashes (Some (timestamp, hashes, block_hash)) \<Rightarrow>
          init_blocks rs (al_insert n \<lparr>fb_block_hash = Some block_hash, fb_timestamp = timestamp,
            fb_transactions = init_transactions hashes\<rparr> blocks)
      | _ \<Rightarrow> None)"

definition fetch_blocks ::
  "fetcher_config \<Rightarrow> ('tx, 'r) provider \<Rightarrow> u64 list \<Rightarrow> ('tx, 'r) fetch_range_result fetched" where
  "fetch_blocks cfg P ns =
     (if ns = [] then Fetched []
      else fetched_bind (chunked_batch_requests cfg P (map GetBlockWithTxHashes ns))
             (\<lambda>results. or_panic (init_blocks (zip ns results) [])))"

text \<open>Each event goes to its transaction; both \<open>expect\<close>s may panic.\<close>

definition assign_event ::
  "emitted_event \<Rightarrow> ('tx, 'r) fetch_range_result \<times> (felt \<times> felt set) list \<Rightarrow>
   (('tx, 'r) fetch_range_result \<times> (felt \<times> felt set) list) option" where
  "assign_event e st =
     (case (ee_block_number e, st) of
        (Some n, (blocks, txs)) \<Rightarrow>
          (case map_of blocks n of
             None \<Rightarrow> None
           | Some block \<Rightarrow>
               (case map_of (fb_transactions block) (ee_transaction_hash e) of
                  None \<Rightarrow> None
                | Some _ \<Rightarrow>
                    Some (al_modify n (\<lambda>b. b\<lparr>fb_transactions := al_modify (ee_transaction_hash e)
                            (\<lambda>tx. tx\<lparr>ft_events := ft_events tx @ [ee_event e]\<rparr>) (fb_transactions b)\<rparr>) blocks,
                          al_upsert (e_from_address (ee_event e)) (insert (ee_transaction_hash e)) {ee_transaction_hash e} txs)))
      | _ \<Rightarrow> None)"

fun assign_events ::
  "emitted_event list \<Rightarrow> ('tx, 'r) fetch_range_result \<times> (felt \<times> felt set) list \<Rightarrow>
   (('tx, 'r) fetch_range_result \<times> (felt \<times> felt set) list) option" where
  "assign_events [] st = Some st"
| "assign_events (e # es) st = (case assign_event e st of None \<Rightarrow> None | Some st' \<Rightarrow> assign_events es st')"

definition on_block_transactions ::
  "((felt \<times> ('tx, 'r) fetch_transaction) list \<Rightarrow> (felt \<times> ('tx, 'r) fetch_transaction) list) \<Rightarrow>
   ('tx, 'r) fetch_range_block \<Rightarrow> ('tx, 'r) fetch_range_block" where
  "on_block_transactions f b = b\<lparr>fb_transactions := f (fb_transactions b)\<rparr>"

definition retain_transactions :: "('tx, 'r) fetch_range_result \<Rightarrow> ('tx, 'r) fetch_range_result" where
  "retain_transactions blocks =
     map (\<lambda>(n, b). (n, on_block_transactions (filter (\<lambda>(_, tx). ft_events tx \<noteq> [])) b)) blocks"

text \<open>The transactions with events, each with the block it is in, in the order of the blocks.\<close>

definition transactions_with_events :: "('tx, 'r) fetch_range_result \<Rightarrow> (u64 \<times> felt) list" where
  "transactions_with_events blocks =
     concat (map (\<lambda>(n, b). map (\<lambda>(h, _). (n, h)) (filter (\<lambda>(_, tx). ft_events tx \<noteq> []) (fb_transactions b))) blocks)"

fun set_transactions ::
  "(u64 \<times> ('tx, 'r) response) list \<Rightarrow> ('tx, 'r) fetch_range_result \<Rightarrow> ('tx, 'r) fetch_range_result option" where
  "set_transactions [] blocks = Some blocks"
| "set_transactions ((n, r) # rs) blocks =
     (case r of
        Transaction h tx \<Rightarrow>
          set_transactions rs (al_modify n (on_block_transactions (al_modify h (\<lambda>t. t\<lparr>ft_transaction := Some tx\<rparr>))) blocks)
      | _ \<Rightarrow> None)"

fun set_receipts ::
  "(u64 \<times> ('tx, 'r) response) list \<Rightarrow> ('tx, 'r) fetch_range_result \<Rightarrow> ('tx, 'r) fetch_range_result option" where
  "set_receipts [] blocks = Some blocks"
| "set_receipts ((n, r) # rs) blocks =
     (case r of
        TransactionReceipt h rc \<Rightarrow>
          set_receipts rs (al_modify n (on_block_transactions (al_modify h (\<lambda>t. t\<lparr>ft_receipt := Some rc\<rparr>))) blocks)
      | _ \<Rightarrow> None)"

definition fetch_details ::
  "fetcher_config \<Rightarrow> ('tx, 'r) provider \<Rightarrow> bool \<Rightarrow> (felt \<Rightarrow> request) \<Rightarrow>
   ((u64 \<times> ('tx, 'r) response) list \<Rightarrow> ('tx, 'r) fetch_range_result \<Rightarrow> ('tx, 'r) fetch_range_result option) \<Rightarrow>
   ('tx, 'r) fetch_range_result \<Rightarrow> ('tx, 'r) fetch_range_result fetched" where
  "fetch_details cfg P flag req update blocks =
     (if flag \<and> blocks \<noteq> [] \<and> transactions_with_events blocks \<noteq> []
      then fetched_bind (chunked_batch_requests cfg P (map (req \<circ> snd) (transactions_with_events blocks)))
             (\<lambda>results. or_panic (update (zip (map fst (transactions_with_events blocks)) results) blocks))
      else Fetched blocks)"

definition update_timestamps ::
  "('tx, 'r) fetch_range_result \<Rightarrow> (felt \<times> contract_cursor) list \<Rightarrow> (felt \<times> contract_cursor) list" where
  "update_timestamps blocks cs =
     map (\<lambda>(a, c). (a, case c_head c of
            None \<Rightarrow> c
          | Some h \<Rightarrow> (case map_of blocks h of None \<Rightarrow> c | Some b \<Rightarrow> c\<lparr>c_last_block_timestamp := Some (fb_timestamp b)\<rparr>))) cs"

text \<open>Steps 3 to 9 of \<open>fetch_range\<close>, on the events and cursors of step 2.\<close>

definition fetch_range_blocks ::
  "fetcher_config \<Rightarrow> ('tx, 'r) provider \<Rightarrow> emitted_event list \<times> (felt \<times> contract_cursor) list \<Rightarrow>
   (('tx, 'r) fetch_range_result \<times> cursors) fetched" where
  "fetch_range_blocks cfg P ec =
     (case ec of (es, cs) \<Rightarrow>
       fetched_bind (or_panic (block_numbers es cs)) (\<lambda>ns.
       fetched_bind (fetch_blocks cfg P ns) (\<lambda>blocks.
       fetched_bind (or_panic (assign_events es (blocks, []))) (\<lambda>(blocks, txs).
       fetched_bind (fetch_details cfg P (TRANSACTIONS (flags cfg)) GetTransactionByHash set_transactions (retain_transactions blocks))
         (\<lambda>blocks.
       fetched_bind (fetch_details cfg P (TRANSACTION_RECEIPTS (flags cfg)) GetTransactionReceipt set_receipts blocks) (\<lambda>blocks.
       Fetched (blocks, \<lparr>cursor_transactions = txs, cursors_of = update_timestamps blocks cs\<rparr>)))))))"

definition fetch_range ::
  "fetcher_config \<Rightarrow> ('tx, 'r) provider \<Rightarrow> (contract_event_batch list \<Rightarrow> contract_event_batch list) \<Rightarrow>
   (felt \<times> contract_cursor) list \<Rightarrow> felt \<times> u64 \<Rightarrow> (('tx, 'r) fetch_range_result \<times> cursors) fetched option" where
  "fetch_range cfg P ho cs latest =
     map_option (\<lambda>r. fetched_bind r (fetch_range_blocks cfg P))
       (fetch_and_preprocess_events cfg P ho (event_requests cfg latest cs) cs (snd latest))"

section \<open>The preconfirmed block\<close>

definition saturating_inc :: "u64 \<Rightarrow> u64" where
  "saturating_inc n = (if n = -1 then n else n + 1)"

definition preconf_transaction :: "fetcher_config \<Rightarrow> ('tx, 'r) preconf_tx \<Rightarrow> ('tx, 'r) fetch_transaction" where
  "preconf_transaction cfg t = \<lparr>ft_transaction = Some (pt_transaction t), ft_events = [],
     ft_receipt = (if TRANSACTION_RECEIPTS (flags cfg) then Some (pt_receipt t) else None)\<rparr>"

type_synonym ('tx, 'r) preconf_state =
  "(felt \<times> ('tx, 'r) fetch_transaction) list \<times> (felt \<times> felt set) list \<times> contract_cursor"

text \<open>The loop over the transactions for one contract. \<open>tmp\<close> is the transaction it still has to reach.\<close>

fun preconf_loop ::
  "felt \<Rightarrow> u64 \<Rightarrow> felt option \<Rightarrow> ('tx, 'r) preconf_tx list \<Rightarrow> ('tx, 'r) preconf_state \<Rightarrow> ('tx, 'r) preconf_state option" where
  "preconf_loop a timestamp tmp [] st = Some st"
| "preconf_loop a timestamp tmp (t # ts) (transactions, cts, cursor) =
     (if (case tmp of None \<Rightarrow> False | Some tx \<Rightarrow> pt_hash t \<noteq> tx)
      then preconf_loop a timestamp tmp ts (transactions, cts, cursor)
      else if c_last_pending_block_tx cursor = Some (pt_hash t) \<or> pt_reverted t \<or>
              filter (\<lambda>e. e_from_address e = a) (pt_events t) = []
      then preconf_loop a timestamp None ts (transactions, cts, cursor)
      else (case map_of transactions (pt_hash t) of
              None \<Rightarrow> None
            | Some _ \<Rightarrow>
                preconf_loop a timestamp None ts
                  (al_modify (pt_hash t)
                     (\<lambda>x. x\<lparr>ft_events := ft_events x @ filter (\<lambda>e. e_from_address e = a) (pt_events t)\<rparr>) transactions,
                   al_upsert a (insert (pt_hash t)) {pt_hash t} cts,
                   cursor\<lparr>c_last_pending_block_tx := Some (pt_hash t), c_last_block_timestamp := Some timestamp\<rparr>)))"

fun preconf_contracts ::
  "u64 \<Rightarrow> ('tx, 'r) preconf_block \<Rightarrow> (felt \<times> contract_cursor) list \<Rightarrow>
   (felt \<times> ('tx, 'r) fetch_transaction) list \<times> (felt \<times> felt set) list \<times> (felt \<times> contract_cursor) list \<Rightarrow>
   ((felt \<times> ('tx, 'r) fetch_transaction) list \<times> (felt \<times> felt set) list \<times> (felt \<times> contract_cursor) list) option" where
  "preconf_contracts latest blk [] st = Some st"
| "preconf_contracts latest blk ((a, c) # cs) (transactions, cts, new_cursors) =
     (if c_head c \<noteq> Some latest then preconf_contracts latest blk cs (transactions, cts, new_cursors @ [(a, c)])
      else (case preconf_loop a (pb_timestamp blk) (c_last_pending_block_tx c) (pb_transactions blk) (transactions, cts, c) of
              None \<Rightarrow> None
            | Some (transactions', cts', c') \<Rightarrow>
                preconf_contracts latest blk cs (transactions', cts', new_cursors @ [(a, c')])))"

definition fetch_preconfirmed_block ::
  "fetcher_config \<Rightarrow> ('tx, 'r) provider \<Rightarrow> u64 \<Rightarrow> cursors \<Rightarrow>
   (('tx, 'r) fetch_preconfirmed_block_result option \<times> cursors) fetched" where
  "fetch_preconfirmed_block cfg P latest cs =
     (case get_preconfirmed P of
        Inl e \<Rightarrow> FetchError (Provider e)
      | Inr None \<Rightarrow> Fetched (None, cs)
      | Inr (Some blk) \<Rightarrow>
          if saturating_inc latest \<noteq> pb_block_number blk then Fetched (None, cs)
          else fetched_bind
            (or_panic (preconf_contracts latest blk (cursors_of cs)
               (fold (\<lambda>t. al_insert (pt_hash t) (preconf_transaction cfg t)) (pb_transactions blk) [],
                cursor_transactions cs, [])))
            (\<lambda>(transactions, cts, new_cursors).
               Fetched (Some \<lparr>fp_block_number = pb_block_number blk, fp_timestamp = pb_timestamp blk,
                          fp_transactions = filter (\<lambda>(_, tx). ft_events tx \<noteq> []) transactions\<rparr>,
                        \<lparr>cursor_transactions = cts, cursors_of = new_cursors\<rparr>)))"

definition fetch ::
  "fetcher_config \<Rightarrow> ('tx, 'r) provider \<Rightarrow> (contract_event_batch list \<Rightarrow> contract_event_batch list) \<Rightarrow>
   (felt \<times> contract_cursor) list \<Rightarrow> ('tx, 'r) fetch_result fetched option" where
  "fetch cfg P ho cs =
     (case block_hash_and_number P of
        Inl e \<Rightarrow> Some (FetchError (Provider e))
      | Inr latest \<Rightarrow>
          map_option (\<lambda>r. fetched_bind r (\<lambda>(range, cursors).
            if PRECONFIRMED_BLOCK (flags cfg) \<and> list_ex (\<lambda>(_, c). c_head c = Some (snd latest)) (cursors_of cursors)
            then fetched_bind (fetch_preconfirmed_block cfg P (snd latest) cursors)
                   (\<lambda>(pre, cursors). Fetched \<lparr>fr_range = range, fr_preconfirmed_block = pre, fr_cursors = cursors\<rparr>)
            else Fetched \<lparr>fr_range = range, fr_preconfirmed_block = None, fr_cursors = cursors\<rparr>))
          (fetch_range cfg P ho cs latest))"

end
