(* ===== verification/FetcherSpec.thy ===== *)
theory FetcherSpec
  imports Fetcher
begin

text \<open>
  What the fetcher promises, relative to the documented behaviour of a Starknet provider (the locales \<open>rpc\<close> and \<open>event_source\<close>): a batch
  answers its requests one by one, and following the continuation tokens yields all events of a contract from a block on, in the order of the chain.
\<close>

section \<open>Batches of requests\<close>

lemma concat_chunks: "0 < n \<Longrightarrow> concat (chunks n xs) = xs"
proof (induction n xs rule: chunks.induct)
  case (1 n xs)
  show ?case
  proof (cases "xs = []")
    case True
    then show ?thesis by (subst chunks.simps) simp
  next
    case False
    with 1 have "concat (chunks n (drop n xs)) = drop n xs" by simp
    with False 1(2) show ?thesis by (subst chunks.simps) simp
  qed
qed

text \<open>A chunk whose request fails in all six attempts.\<close>

definition gives_up :: "('tx, 'r) provider \<Rightarrow> request list \<Rightarrow> bool" where
  "gives_up P chunk = (\<forall>k \<le> MAX_RETRIES. \<exists>e. batch_requests P k chunk = Inl e)"

lemma request_chunk_from:
  "attempt \<le> MAX_RETRIES \<Longrightarrow>
   request_chunk P chunk attempt =
     (case List.find (\<lambda>k. is_ok (batch_requests P k chunk)) [attempt..<Suc MAX_RETRIES] of
        None \<Rightarrow> FetchError BatchRequest
      | Some k \<Rightarrow> (case batch_requests P k chunk of Inr rs \<Rightarrow> Fetched rs | Inl _ \<Rightarrow> FetchPanic))"
proof (induction P chunk attempt rule: request_chunk.induct)
  case (1 P chunk attempt)
  have u: "[attempt..<Suc MAX_RETRIES] = attempt # [Suc attempt..<Suc MAX_RETRIES]" using 1(2) by (simp add: upt_rec)
  have e: "\<not> attempt < MAX_RETRIES \<Longrightarrow> [Suc attempt..<Suc MAX_RETRIES] = []" by simp
  show ?case
    using 1 by (subst request_chunk.simps, unfold u) (auto simp: e is_ok_def simp del: upt_Suc split: sum.split)
qed

locale rpc =
  fixes P :: "('tx, 'r) provider" and answer :: "request \<Rightarrow> ('tx, 'r) response"
  assumes one_by_one: "batch_requests P k reqs = Inr results \<Longrightarrow> results = map answer reqs"
begin

lemma request_chunk_result:
  "request_chunk P chunk 0 = (if gives_up P chunk then FetchError BatchRequest else Fetched (map answer chunk))"
proof (cases "List.find (\<lambda>k. is_ok (batch_requests P k chunk)) [0..<Suc MAX_RETRIES]")
  case None
  then have "gives_up P chunk"
    by (auto simp: find_None_iff gives_up_def is_ok_def less_Suc_eq_le simp del: upt_Suc split: sum.splits) (metis sum.exhaust)
  with None show ?thesis by (simp add: request_chunk_from)
next
  case (Some k)
  then obtain i where "i < length [0..<Suc MAX_RETRIES]" "k = [0..<Suc MAX_RETRIES] ! i" "is_ok (batch_requests P k chunk)"
    by (auto simp: find_Some_iff simp del: upt_Suc)
  then have k: "k \<le> MAX_RETRIES" "is_ok (batch_requests P k chunk)" by (auto simp del: upt_Suc)
  then obtain rs where rs: "batch_requests P k chunk = Inr rs" by (auto simp: is_ok_iff)
  with k have "\<not> gives_up P chunk" by (fastforce simp: gives_up_def)
  with rs Some one_by_one[OF rs] show ?thesis by (simp add: request_chunk_from)
qed

lemma join_all_result:
  "join_all (map (\<lambda>chunk. request_chunk P chunk 0) cs) =
     (if list_ex (gives_up P) cs then FetchError BatchRequest else Fetched (map answer (concat cs)))"
  by (induction cs) (auto simp: request_chunk_result)

lemma chunked_result:
  assumes "0 < batch_chunk_size cfg"
  shows "chunked_batch_requests cfg P reqs =
    (if list_ex (gives_up P) (chunks (batch_chunk_size cfg) reqs) then FetchError BatchRequest else Fetched (map answer reqs))"
proof (cases "reqs = []")
  case True
  then show ?thesis by (subst chunks.simps) (simp add: chunked_batch_requests_def)
next
  case False
  then show ?thesis
    using assms concat_chunks[OF assms, of reqs] by (simp add: chunked_batch_requests_def join_all_result del: join_all.simps)
qed

end

section \<open>Pages of events\<close>

text \<open>The pages obtained by following the continuation tokens.\<close>

fun follows :: "(string option \<Rightarrow> ('tx, 'r) response) \<Rightarrow> string option \<Rightarrow> emitted_event list list \<Rightarrow> bool" where
  "follows g tok [] = False"
| "follows g tok (p # ps) =
     (\<exists>tok'. g tok = EventsPage p tok' \<and> (if ps = [] then tok' = None else tok' \<noteq> None \<and> follows g tok' ps))"

definition blk :: "emitted_event \<Rightarrow> u64" where
  "blk e = (case ee_block_number e of None \<Rightarrow> 0 | Some b \<Rightarrow> b)"

definition jump :: "fetcher_config \<Rightarrow> u64 \<Rightarrow> u64 \<Rightarrow> u64 \<Rightarrow> emitted_event list \<Rightarrow> u64 \<times> u64" where
  "jump cfg latest f t es =
     (case es of [] \<Rightarrow> (f, t)
      | e # _ \<Rightarrow> if blk e > t \<or> f = 0 then (blk e, min (blk e + blocks_chunk_size cfg) latest) else (f, t))"

definition all_numbered :: "emitted_event list \<Rightarrow> bool" where
  "all_numbered es = (\<forall>e \<in> set es. ee_block_number e \<noteq> None)"

lemma page_loop_rest:
  "all_numbered es \<Longrightarrow>
   page_loop cfg latest False f t es = Some (f, t, takeWhile (\<lambda>e. blk e \<le> t) es,
     takeWhile (\<lambda>e. blk e \<le> t) es \<noteq> es)"
  by (induction es) (auto simp: all_numbered_def blk_def not_le split: if_splits)

lemma page_loop_first:
  assumes "all_numbered es" and "t \<le> latest" and "jump cfg latest f t es = (f', t')" and "\<forall>e \<in> set es. blk e \<le> t' \<or> e \<noteq> hd es"
  shows "page_loop cfg latest True f t es =
    Some (f', t', takeWhile (\<lambda>e. blk e \<le> t') es, takeWhile (\<lambda>e. blk e \<le> t') es \<noteq> es)"
proof (cases es)
  case Nil
  with assms(3) show ?thesis by (simp add: jump_def)
next
  case (Cons e es')
  from assms(1) obtain b where b: "ee_block_number e = Some b" "blk e = b" by (auto simp: Cons all_numbered_def blk_def)
  have "all_numbered es'" using assms(1) by (simp add: Cons all_numbered_def)
  moreover have "b \<le> t'" using assms(4) b by (simp add: Cons)
  moreover have "(if b > t \<or> f = 0 then (b, min (b + blocks_chunk_size cfg) latest) else (f, t)) = (f', t')"
    using assms(3) by (auto simp: Cons jump_def b split: if_splits)
  ultimately show ?thesis using page_loop_rest[of es' cfg latest f' t'] by (simp add: Cons b not_less)
qed

text \<open>
  The provider: block numbers do not come near the end of the machine type, every event of the contracts is in the chain, ordered by blocks,
  and the pages of a request are the events of the contract from a block on.
\<close>

locale event_source = rpc P answer for P :: "('tx, 'r) provider" and answer +
  fixes cfg :: fetcher_config and latest_hash :: felt and latest :: u64 and chain :: "felt \<Rightarrow> emitted_event list"
  assumes no_wrap: "unat latest + unat (blocks_chunk_size cfg) < 2 ^ 64"
    and chain_events: "e \<in> set (chain a) \<Longrightarrow> ee_block_number e \<noteq> None \<and> blk e \<le> latest \<and> e_from_address (ee_event e) = a"
    and chain_sorted: "sorted (map blk (chain a))"
    and paged: "\<exists>pages. follows (\<lambda>tok. answer (GetEvents a f latest_hash tok (events_chunk_size cfg))) None pages \<and>
      concat pages = filter (\<lambda>e. f \<le> blk e) (chain a)"
begin

lemma plus_chunk: "b \<le> latest \<Longrightarrow> unat (b + blocks_chunk_size cfg) = unat b + unat (blocks_chunk_size cfg)"
  using no_wrap by (subst unat_add_lem[THEN iffD1]) (auto simp: word_le_nat_alt)

lemma le_plus_chunk: "b \<le> latest \<Longrightarrow> b \<le> min (b + blocks_chunk_size cfg) latest"
  by (simp add: min_def word_le_nat_alt plus_chunk)

lemma plus_chunk_mono: "a \<le> b \<Longrightarrow> b \<le> latest \<Longrightarrow> a + blocks_chunk_size cfg \<le> b + blocks_chunk_size cfg"
  using plus_chunk[of a] plus_chunk[of b] by (simp add: word_le_nat_alt)

text \<open>The range only grows, contains the first event, and never goes beyond the latest block.\<close>

definition range_ok :: "u64 \<Rightarrow> u64 \<Rightarrow> bool" where
  "range_ok f t \<longleftrightarrow> t \<le> latest \<and> (f = 0 \<longrightarrow> t \<le> min (blocks_chunk_size cfg) latest)"

lemma jump_ok:
  assumes "range_ok f t" and "\<forall>e \<in> set es. blk e \<le> latest" and "jump cfg latest f t es = (f', t')"
  shows "range_ok f' t' \<and> t \<le> t' \<and> (es \<noteq> [] \<longrightarrow> blk (hd es) \<le> t')"
proof (cases es)
  case (Cons e es')
  have e: "blk e \<le> min (blk e + blocks_chunk_size cfg) latest" using assms(2) by (intro le_plus_chunk) (simp add: Cons)
  have z: "min (blocks_chunk_size cfg) latest \<le> min (blk e + blocks_chunk_size cfg) latest"
    using plus_chunk_mono[of 0 "blk e"] assms(2) by (auto simp: Cons min_le_iff_disj)
  have "range_ok (blk e) (min (blk e + blocks_chunk_size cfg) latest)" by (simp add: range_ok_def)
  moreover have "t < blk e \<or> f = 0 \<Longrightarrow> t \<le> min (blk e + blocks_chunk_size cfg) latest"
    using assms(1) e z unfolding range_ok_def by (meson order.trans order.strict_implies_order)
  ultimately show ?thesis using assms(1,3) e by (auto simp: Cons jump_def split: if_splits)
qed (use assms in \<open>auto simp: jump_def\<close>)

text \<open>
  A request that is open: what is left of its pages together with what its batch holds are the wanted events. A contract that is complete: its
  batch holds the wanted events up to the end of its range.
\<close>

definition wanted :: "felt \<Rightarrow> u64 \<Rightarrow> emitted_event list" where
  "wanted a f = filter (\<lambda>e. f \<le> blk e) (chain a)"

definition pages_from :: "felt \<Rightarrow> u64 \<Rightarrow> string option \<Rightarrow> emitted_event list list \<Rightarrow> bool" where
  "pages_from a f = follows (\<lambda>tok. answer (GetEvents a f latest_hash tok (events_chunk_size cfg)))"

definition held :: "(felt \<times> contract_event_batch) list \<Rightarrow> felt \<Rightarrow> emitted_event list" where
  "held B a = (case map_of B a of None \<Rightarrow> [] | Some b \<Rightarrow> cb_events b)"

fun open_req ::
  "nat \<Rightarrow> (felt \<Rightarrow> u64) \<Rightarrow> (felt \<Rightarrow> u64) \<Rightarrow> (felt \<times> contract_event_batch) list \<Rightarrow> event_request \<Rightarrow> bool" where
  "open_req N f0 t0 B (a, f, t, r) \<longleftrightarrow>
     (\<exists>tok rest. r = GetEvents a (f0 a) latest_hash tok (events_chunk_size cfg) \<and> pages_from a (f0 a) tok rest \<and> length rest \<le> N \<and>
        held B a @ concat rest = wanted a (f0 a)) \<and>
     range_ok f t \<and> t0 a \<le> t \<and> (\<forall>e \<in> set (held B a). blk e \<le> t) \<and>
     (\<forall>b. map_of B a = Some b \<longrightarrow> cb_contract_address b = a \<and> cb_to_block b = t)"

definition complete :: "(felt \<Rightarrow> u64) \<Rightarrow> (felt \<Rightarrow> u64) \<Rightarrow> (felt \<times> contract_event_batch) list \<Rightarrow> felt \<Rightarrow> bool" where
  "complete f0 t0 B a \<longleftrightarrow>
     (\<exists>b. map_of B a = Some b \<and> cb_contract_address b = a \<and> t0 a \<le> cb_to_block b \<and> cb_to_block b \<le> latest \<and>
        cb_events b = filter (\<lambda>e. blk e \<le> cb_to_block b) (wanted a (f0 a)))"

lemma wanted_events:
  "e \<in> set (wanted a f) \<Longrightarrow> ee_block_number e \<noteq> None \<and> blk e \<le> latest" "sorted (map blk (wanted a f))"
  using chain_events[of e a] sorted_filter[OF chain_sorted] by (auto simp: wanted_def)

lemma filter_upto:
  assumes "sorted (map blk (xs @ ys))" and "\<forall>e \<in> set xs. blk e \<le> t" and "ys \<noteq> [] \<Longrightarrow> t < blk (hd ys)"
  shows "filter (\<lambda>e. blk e \<le> t) (xs @ ys) = xs"
proof -
  have "t < blk e" if "e \<in> set ys" for e
  proof (cases ys)
    case (Cons y ys')
    have "sorted (map blk ys)" using assms(1) by (simp add: sorted_append)
    with that have "blk y \<le> blk e" by (auto simp: Cons)
    with assms(3) show ?thesis by (auto simp: Cons)
  qed (use that in simp)
  then have "filter (\<lambda>e. blk e \<le> t) ys = []" by (auto simp: filter_empty_conv not_le)
  moreover have "filter (\<lambda>e. blk e \<le> t) xs = xs" using assms(2) by (simp add: filter_id_conv)
  ultimately show ?thesis by simp
qed

lemma add_page_held [simp]: "held (add_page a f t es B) a' = (if a' = a then held B a @ es else held B a')"
  by (auto simp: held_def add_page_def split: option.split)

lemma add_page_batch:
  "map_of (add_page a f t es B) a' = Some b \<Longrightarrow>
   if a' = a then cb_contract_address b = (case map_of B a of None \<Rightarrow> a | Some b0 \<Rightarrow> cb_contract_address b0) \<and>
     cb_to_block b = (case map_of B a of None \<Rightarrow> t | Some b0 \<Rightarrow> max (cb_to_block b0) t)
   else map_of B a' = Some b"
  by (auto simp: add_page_def split: option.splits if_splits)

lemma process_page_open:
  assumes op: "open_req (Suc N) f0 t0 B (a, f, t, r)"
  obtains B' new where "process_page cfg latest ((a, f, t, r), answer r) (B, nxt) = Some (B', nxt @ new)"
    "\<And>a'. a' \<noteq> a \<Longrightarrow> map_of B' a' = map_of B a'" "al_ok B' = al_ok B"
    "new = [] \<and> complete f0 t0 B' a \<or> (\<exists>f' t' r'. new = [(a, f', t', r')] \<and> open_req N f0 t0 B' (a, f', t', r'))"
proof -
  from op obtain tok p ps where r: "r = GetEvents a (f0 a) latest_hash tok (events_chunk_size cfg)"
      and pg: "pages_from a (f0 a) tok (p # ps)" "length ps \<le> N" and w: "held B a @ concat (p # ps) = wanted a (f0 a)"
    by (fastforce simp: pages_from_def elim: follows.elims)
  from pg(1) obtain tok' where ans: "answer r = EventsPage p tok'"
      and more: "if ps = [] then tok' = None else tok' \<noteq> None \<and> pages_from a (f0 a) tok' ps"
    by (auto simp: pages_from_def r)
  have rng: "range_ok f t" "t0 a \<le> t" "\<forall>e \<in> set (held B a). blk e \<le> t" using op by auto
  obtain f' t' where j: "jump cfg latest f t p = (f', t')" by fastforce
  have pe: "all_numbered p" "\<forall>e \<in> set p. blk e \<le> latest"
    using wanted_events(1)[of _ a "f0 a"] by (auto simp: all_numbered_def simp flip: w)
  note jo = jump_ok[OF rng(1) pe(2) j]
  let ?tw = "takeWhile (\<lambda>e. blk e \<le> t') p"
  have pl: "page_loop cfg latest True f t p = Some (f', t', ?tw, ?tw \<noteq> p)"
    using jo rng(1) by (intro page_loop_first[OF pe(1) _ j]) (auto simp: range_ok_def)
  let ?B = "add_page a f' t' ?tw B"
  have old: "\<forall>e \<in> set (held B a @ ?tw). blk e \<le> t'" using rng(3) jo by (auto dest: set_takeWhileD intro: order.trans)
  have to: "cb_contract_address b = a \<and> cb_to_block b = t'" if "map_of ?B a = Some b" for b
    using add_page_batch[OF that] op jo by (auto simp: max_def split: option.splits)
  have new: "map_of ?B a \<noteq> None" by (auto simp: add_page_def)
  have srt: "sorted (map blk (held B a @ concat (p # ps)))" using wanted_events(2)[of a "f0 a"] by (simp add: w del: concat.simps)
  have fin: "complete f0 t0 ?B a" if "?tw \<noteq> p \<or> ps = []"
  proof -
    let ?rest = "dropWhile (\<lambda>e. blk e \<le> t') p @ concat ps"
    have eq: "held B a @ concat (p # ps) = (held B a @ ?tw) @ ?rest" by simp
    have "filter (\<lambda>e. blk e \<le> t') ((held B a @ ?tw) @ ?rest) = held B a @ ?tw"
    proof (rule filter_upto)
      show "sorted (map blk ((held B a @ ?tw) @ ?rest))" using srt unfolding eq .
      show "?rest \<noteq> [] \<Longrightarrow> t' < blk (hd ?rest)"
        using that hd_dropWhile[of "\<lambda>e. blk e \<le> t'" p]
        by (cases "dropWhile (\<lambda>e. blk e \<le> t') p") (auto simp: not_le takeWhile_eq_all_conv)
    qed (rule old)
    then have "filter (\<lambda>e. blk e \<le> t') (wanted a (f0 a)) = held ?B a" using w eq by simp
    moreover obtain b where "map_of ?B a = Some b" using new by blast
    ultimately show ?thesis
      using to jo rng by (force simp: complete_def held_def range_ok_def)
  qed
  have cont: "open_req N f0 t0 ?B (a, f', t', GetEvents a (f0 a) latest_hash tok' (events_chunk_size cfg))"
    if "?tw = p" "ps \<noteq> []"
  proof -
    have "pages_from a (f0 a) tok' ps \<and> length ps \<le> N \<and> held ?B a @ concat ps = wanted a (f0 a)"
      using that(2) more pg(2) w unfolding add_page_held that(1) by simp
    with to jo rng old show ?thesis by (auto simp del: add_page_held) (auto intro: order.trans)
  qed
  let ?new = "if tok' \<noteq> None \<and> ?tw = p then [(a, f', t', GetEvents a (f0 a) latest_hash tok' (events_chunk_size cfg))] else []"
  have res: "?new = [] \<and> complete f0 t0 ?B a \<or> (\<exists>f' t' r'. ?new = [(a, f', t', r')] \<and> open_req N f0 t0 ?B (a, f', t', r'))"
  proof (cases "tok' \<noteq> None \<and> ?tw = p")
    case True
    with more have "ps \<noteq> []" by auto
    with True cont show ?thesis by (simp only: if_True simp_thms) blast
  next
    case False
    with more have "?tw \<noteq> p \<or> ps = []" by argo
    with False fin show ?thesis by (simp only: if_False simp_thms)
  qed
  show ?thesis
  proof (rule that)
    show "process_page cfg latest ((a, f, t, r), answer r) (B, nxt) = Some (?B, nxt @ ?new)"
      unfolding process_page_def prod.case ans response.case pl option.case by (simp add: with_token_def r)
    show "al_ok ?B = al_ok B" "\<And>a'. a' \<noteq> a \<Longrightarrow> map_of ?B a' = map_of B a'" by (auto simp: add_page_def)
  qed (rule res)
qed

lemma open_req_cong: "map_of B a = map_of B' a \<Longrightarrow> open_req N f0 t0 B (a, q) = open_req N f0 t0 B' (a, q)"
  by (cases q) (simp add: held_def)

lemma complete_cong: "map_of B a = map_of B' a \<Longrightarrow> complete f0 t0 B a = complete f0 t0 B' a"
  by (simp add: complete_def)

lemma process_pages_round:
  assumes "distinct (map fst R)" and "\<forall>q \<in> set R. open_req (Suc N) f0 t0 B q"
  shows "\<exists>B' new. process_pages cfg latest (zip R (map (\<lambda>(_, _, _, r). answer r) R)) (B, nxt) = Some (B', nxt @ new) \<and>
    (\<forall>a. a \<notin> fst ` set R \<longrightarrow> map_of B' a = map_of B a) \<and> al_ok B' = al_ok B \<and>
    (\<forall>a \<in> fst ` set R. a \<in> fst ` set new \<or> complete f0 t0 B' a) \<and>
    (\<forall>q \<in> set new. open_req N f0 t0 B' q) \<and> fst ` set new \<subseteq> fst ` set R \<and> distinct (map fst new)"
  using assms
proof (induction R arbitrary: B nxt)
  case (Cons q R)
  obtain a f t r where q: "q = (a, f, t, r)" by (cases q)
  have "open_req (Suc N) f0 t0 B (a, f, t, r)" using Cons.prems(2) by (simp add: q del: open_req.simps)
  then obtain B1 new1 where
      1: "process_page cfg latest ((a, f, t, r), answer r) (B, nxt) = Some (B1, nxt @ new1)"
        "\<And>a'. a' \<noteq> a \<Longrightarrow> map_of B1 a' = map_of B a'" "al_ok B1 = al_ok B"
        "new1 = [] \<and> complete f0 t0 B1 a \<or> (\<exists>f' t' r'. new1 = [(a, f', t', r')] \<and> open_req N f0 t0 B1 (a, f', t', r'))"
    using process_page_open by metis
  have a: "a \<notin> fst ` set R" using Cons.prems(1) by (simp add: q)
  have "\<forall>q \<in> set R. open_req (Suc N) f0 t0 B1 q"
  proof
    fix q' assume mem: "q' \<in> set R"
    obtain a' x where q': "q' = (a', x)" by (cases q')
    with mem a have "a' \<noteq> a" by force
    then show "open_req (Suc N) f0 t0 B1 q'"
      using Cons.prems(2) mem open_req_cong[OF 1(2)[OF \<open>a' \<noteq> a\<close>]] by (simp add: q' del: open_req.simps)
  qed
  from Cons.IH[OF _ this, of "nxt @ new1"] Cons.prems(1) have IH: "\<exists>B' new.
      process_pages cfg latest (zip R (map (\<lambda>(_, _, _, r). answer r) R)) (B1, nxt @ new1) = Some (B', (nxt @ new1) @ new) \<and>
      (\<forall>a. a \<notin> fst ` set R \<longrightarrow> map_of B' a = map_of B1 a) \<and> al_ok B' = al_ok B1 \<and>
      (\<forall>a \<in> fst ` set R. a \<in> fst ` set new \<or> complete f0 t0 B' a) \<and>
      (\<forall>q \<in> set new. open_req N f0 t0 B' q) \<and> fst ` set new \<subseteq> fst ` set R \<and> distinct (map fst new)"
    by simp
  obtain B' new where
      2: "process_pages cfg latest (zip R (map (\<lambda>(_, _, _, r). answer r) R)) (B1, nxt @ new1) = Some (B', (nxt @ new1) @ new)"
        "\<forall>a. a \<notin> fst ` set R \<longrightarrow> map_of B' a = map_of B1 a" "al_ok B' = al_ok B1"
        "\<forall>a \<in> fst ` set R. a \<in> fst ` set new \<or> complete f0 t0 B' a"
        "\<forall>q \<in> set new. open_req N f0 t0 B' q" "fst ` set new \<subseteq> fst ` set R" "distinct (map fst new)"
    using IH by (elim exE conjE) (rule that)
  have ba: "map_of B' a = map_of B1 a" using 2(2) a by simp
  have new1: "fst ` set new1 \<subseteq> {a}" "distinct (map fst new1)" "\<forall>q \<in> set new1. open_req N f0 t0 B' q"
      "new1 = [] \<Longrightarrow> complete f0 t0 B' a"
    using 1(4) open_req_cong[OF ba] complete_cong[OF ba] by (auto simp del: open_req.simps)
  show ?case
  proof (intro exI[of _ B'] exI[of _ "new1 @ new"] conjI)
    show "process_pages cfg latest (zip (q # R) (map (\<lambda>(_, _, _, r). answer r) (q # R))) (B, nxt) = Some (B', nxt @ new1 @ new)"
      using 1(1) 2(1) by (simp add: q)
    show "\<forall>a. a \<notin> fst ` set (q # R) \<longrightarrow> map_of B' a = map_of B a" using 1(2) 2(2) by (simp add: q)
    show "al_ok B' = al_ok B" using 1(3) 2(3) by simp
    show "\<forall>a \<in> fst ` set (q # R). a \<in> fst ` set (new1 @ new) \<or> complete f0 t0 B' a"
      using 1(4) 2(4) new1(4) by (auto simp: q)
    show "\<forall>q \<in> set (new1 @ new). open_req N f0 t0 B' q" using new1(3) 2(5) by auto
    have "fst ` set new1 \<inter> fst ` set new = {}" using new1(1) 2(6) a by blast
    then show "distinct (map fst (new1 @ new))" using new1(2) 2(7) by (simp only: map_append distinct_append set_map)
    show "fst ` set (new1 @ new) \<subseteq> fst ` set (q # R)" using new1(1) 2(6) by (auto simp: q)
  qed
qed simp

lemma pages_loop_complete:
  assumes "0 < batch_chunk_size cfg"
  shows "al_ok B \<Longrightarrow> distinct (map fst R) \<Longrightarrow> \<forall>q \<in> set R. open_req N f0 t0 B q \<Longrightarrow>
    (\<exists>chunk. gives_up P chunk) \<and> pages_loop cfg P latest B R = Some (FetchError BatchRequest) \<or>
    (\<exists>B'. pages_loop cfg P latest B R = Some (Fetched B') \<and> al_ok B' \<and> (\<forall>a \<in> fst ` set R. complete f0 t0 B' a) \<and>
       (\<forall>a. a \<notin> fst ` set R \<longrightarrow> map_of B' a = map_of B a))"
proof (induction N arbitrary: B R)
  case 0
  have "R = []"
  proof (cases R)
    case (Cons q R')
    with 0 show ?thesis by (cases q) (auto simp: pages_from_def)
  qed
  then show ?case using 0 by (simp add: pages_loop.simps)
next
  case (Suc N)
  let ?reqs = "map (\<lambda>(_, _, _, r). r) R"
  show ?case
  proof (cases "R = [] \<or> list_ex (gives_up P) (chunks (batch_chunk_size cfg) ?reqs)")
    case True
    then show ?thesis
      using Suc.prems by (auto simp: pages_loop.simps[of cfg P latest B R] chunked_result[OF assms] list_ex_iff)
  next
    case False
    have ans: "map answer ?reqs = map (\<lambda>(_, _, _, r). answer r) R" by auto
    obtain B1 R1 where
        1: "process_pages cfg latest (zip R (map (\<lambda>(_, _, _, r). answer r) R)) (B, []) = Some (B1, [] @ R1)"
          "\<forall>a. a \<notin> fst ` set R \<longrightarrow> map_of B1 a = map_of B a" "al_ok B1 = al_ok B"
          "\<forall>a \<in> fst ` set R. a \<in> fst ` set R1 \<or> complete f0 t0 B1 a"
          "\<forall>q \<in> set R1. open_req N f0 t0 B1 q" "fst ` set R1 \<subseteq> fst ` set R" "distinct (map fst R1)"
      using process_pages_round[OF Suc.prems(2,3), of "[]"] by (elim exE conjE) (rule that)
    have step: "pages_loop cfg P latest B R = pages_loop cfg P latest B1 R1"
      using False 1(1) by (simp add: pages_loop.simps[of cfg P latest B R] chunked_result[OF assms] ans del: map_map)
    have ok: "al_ok B1" using 1(3) Suc.prems(1) by simp
    have keep: "complete f0 t0 B' a" if "a \<in> fst ` set R" "\<forall>a \<in> fst ` set R1. complete f0 t0 B' a"
        "\<forall>a. a \<notin> fst ` set R1 \<longrightarrow> map_of B' a = map_of B1 a" for a B'
    proof (cases "a \<in> fst ` set R1")
      case True
      with that(2) show ?thesis by (rule bspec)
    next
      case False
      with that(1) 1(4) have "complete f0 t0 B1 a" by (simp only: simp_thms ball_simps) blast
      with that(3) False complete_cong[of B' a B1] show ?thesis by (simp only: simp_thms)
    qed
    have other: "map_of B' a = map_of B a" if "a \<notin> fst ` set R" "\<forall>a. a \<notin> fst ` set R1 \<longrightarrow> map_of B' a = map_of B1 a" for a B'
    proof -
      have "a \<notin> fst ` set R1" using that(1) 1(6) by (rule contra_subsetD[rotated])
      with that 1(2) show ?thesis by (simp only: simp_thms)
    qed
    from Suc.IH[OF ok 1(7,5)] show ?thesis
      unfolding step
    proof (elim disjE exE conjE)
      fix B' assume B': "pages_loop cfg P latest B1 R1 = Some (Fetched B')" "al_ok B'"
        "\<forall>a \<in> fst ` set R1. complete f0 t0 B' a" "\<forall>a. a \<notin> fst ` set R1 \<longrightarrow> map_of B' a = map_of B1 a"
      have "\<forall>a \<in> fst ` set R. complete f0 t0 B' a" using keep B'(3,4) by blast
      moreover have "\<forall>a. a \<notin> fst ` set R \<longrightarrow> map_of B' a = map_of B a" using other B'(4) by blast
      ultimately show "(\<exists>chunk. gives_up P chunk) \<and> pages_loop cfg P latest B1 R1 = Some (FetchError BatchRequest) \<or>
          (\<exists>B'. pages_loop cfg P latest B1 R1 = Some (Fetched B') \<and> al_ok B' \<and> (\<forall>a \<in> fst ` set R. complete f0 t0 B' a) \<and>
             (\<forall>a. a \<notin> fst ` set R \<longrightarrow> map_of B' a = map_of B a))"
        using B'(1,2) by (intro disjI2 exI[of _ B'] conjI)
    qed (intro disjI1 conjI exI)
  qed
qed

end

section \<open>Dropping what was already delivered\<close>

lemma skip_loop_none: "\<not> should_skip \<or> last_pending = None \<Longrightarrow> skip_loop last_pending should_skip None es = es"
  by (induction es) (auto split: option.split)

lemma skip_loop_after: "skip_loop (Some tx) True None es = filter (\<lambda>e. ee_transaction_hash e \<noteq> tx) es"
  by (induction es) auto

lemma skip_loop_reach:
  "\<forall>e \<in> set before. ee_transaction_hash e \<noteq> tx \<Longrightarrow> ee_transaction_hash e = tx \<Longrightarrow>
   skip_loop (Some tx) True (Some tx) (before @ e # es) = filter (\<lambda>e. ee_transaction_hash e \<noteq> tx) es"
  by (induction before) (auto simp: skip_loop_after)

text \<open>What is new: all events, or those behind the last transaction that was already delivered.\<close>

lemma new_events_eq:
  "new_events c es = (case c_last_pending_block_tx c of
     None \<Rightarrow> es
   | Some tx \<Rightarrow> if \<exists>e \<in> set es. ee_transaction_hash e = tx
       then filter (\<lambda>e. ee_transaction_hash e \<noteq> tx) (dropWhile (\<lambda>e. ee_transaction_hash e \<noteq> tx) es) else es)"
proof (cases "c_last_pending_block_tx c")
  case None
  then show ?thesis by (simp add: new_events_def skip_loop_none)
next
  case (Some tx)
  show ?thesis
  proof (cases "\<exists>e \<in> set es. ee_transaction_hash e = tx")
    case True
    then obtain before e es' where es: "es = before @ e # es'" "ee_transaction_hash e = tx" "\<forall>e \<in> set before. ee_transaction_hash e \<noteq> tx"
      using split_list_first_prop[of es "\<lambda>e. ee_transaction_hash e = tx"] by blast
    have "list_ex (\<lambda>e. ee_transaction_hash e = tx) es" using True by (simp add: list_ex_iff)
    then have "new_events c es = skip_loop (Some tx) True (Some tx) es" by (simp add: new_events_def Some)
    also have "\<dots> = filter (\<lambda>e. ee_transaction_hash e \<noteq> tx) es'" using es by (simp only: skip_loop_reach)
    also have "\<dots> = filter (\<lambda>e. ee_transaction_hash e \<noteq> tx) (dropWhile (\<lambda>e. ee_transaction_hash e \<noteq> tx) es)"
      using es by (simp add: dropWhile_append)
    finally show ?thesis using True by (simp add: Some)
  next
    case False
    then show ?thesis by (simp add: new_events_def Some skip_loop_none list_ex_iff)
  qed
qed

lemma new_events_subset: "set (new_events c es) \<subseteq> set es"
  by (auto simp: new_events_eq split: option.splits if_splits dest: set_dropWhileD)

definition batch_of :: "contract_event_batch list \<Rightarrow> felt \<Rightarrow> contract_event_batch option" where
  "batch_of bs = map_of (map (\<lambda>b. (cb_contract_address b, b)) bs)"

definition of_contract :: "felt \<Rightarrow> emitted_event list \<Rightarrow> emitted_event list" where
  "of_contract a es = filter (\<lambda>e. e_from_address (ee_event e) = a) es"

lemma preprocess_loop_spec:
  "distinct (map cb_contract_address bs) \<Longrightarrow> \<forall>b \<in> set bs. map_of cs (cb_contract_address b) \<noteq> None \<Longrightarrow>
   map fst cs = map fst old \<Longrightarrow>
   \<forall>b \<in> set bs. \<forall>e \<in> set (cb_events b). e_from_address (ee_event e) = cb_contract_address b \<Longrightarrow>
   preprocess_loop old bs cs = (es, cs') \<Longrightarrow>
   map fst cs' = map fst old \<and>
   (\<forall>a. case batch_of bs a of
      None \<Rightarrow> map_of cs' a = map_of cs a \<and> of_contract a es = []
    | Some b \<Rightarrow> map_of cs' a = map_option (advance_cursor (cb_to_block b)) (map_of cs a) \<and>
        (\<forall>c. map_of old a = Some c \<longrightarrow> of_contract a es = new_events c (cb_events b)))"
proof (induction bs arbitrary: cs es)
  case Nil
  then show ?case by (simp add: batch_of_def of_contract_def)
next
  case (Cons b bs)
  let ?a = "cb_contract_address b" and ?cs = "al_modify (cb_contract_address b) (advance_cursor (cb_to_block b)) cs"
  obtain c0 where c0: "map_of cs ?a = Some c0" using Cons.prems(2) by auto
  have "map_of old ?a \<noteq> None" using c0 Cons.prems(3) by (metis map_of_eq_None_iff option.distinct(1) set_map)
  then obtain c where c: "map_of old ?a = Some c" by blast
  obtain es1 where es1: "preprocess_loop old bs ?cs = (es1, cs')" "es = new_events c (cb_events b) @ es1"
    using Cons.prems(5) by (auto simp: c c0 split: prod.splits)
  have doms: "\<forall>b' \<in> set bs. map_of ?cs (cb_contract_address b') \<noteq> None" using Cons.prems(2) by auto
  from Cons.IH[OF _ doms _ _ es1(1)] Cons.prems have IH: "map fst cs' = map fst old"
      "case batch_of bs a of
        None \<Rightarrow> map_of cs' a = map_of ?cs a \<and> of_contract a es1 = []
      | Some b \<Rightarrow> map_of cs' a = map_option (advance_cursor (cb_to_block b)) (map_of ?cs a) \<and>
          (\<forall>c. map_of old a = Some c \<longrightarrow> of_contract a es1 = new_events c (cb_events b))" for a
    by (simp_all del: map_of_al_modify)
  have own: "of_contract a (new_events c (cb_events b)) = (if a = ?a then new_events c (cb_events b) else [])" for a
    using new_events_subset[of c "cb_events b"] Cons.prems(4) by (auto simp: of_contract_def filter_id_conv filter_empty_conv)
  have nb: "batch_of bs ?a = None" using Cons.prems(1) by (auto simp: batch_of_def map_of_eq_None_iff)
  have bo: "batch_of (b # bs) a = (if a = ?a then Some b else batch_of bs a)" for a by (simp add: batch_of_def)
  show ?case
  proof (intro conjI allI IH(1))
    fix a show "case batch_of (b # bs) a of
        None \<Rightarrow> map_of cs' a = map_of cs a \<and> of_contract a es = []
      | Some b \<Rightarrow> map_of cs' a = map_option (advance_cursor (cb_to_block b)) (map_of cs a) \<and>
          (\<forall>c. map_of old a = Some c \<longrightarrow> of_contract a es = new_events c (cb_events b))"
      using IH(2)[of a] own[of a] nb c by (auto simp: bo es1(2) of_contract_def split: option.splits)
  qed
qed

lemma batch_of_values:
  assumes "al_ok B" and "\<forall>a b. map_of B a = Some b \<longrightarrow> cb_contract_address b = a" and "hash_order ho"
  shows "batch_of (ho (al_values B)) = map_of B" "distinct (map cb_contract_address (ho (al_values B)))"
proof -
  have "(a, b) \<in> set B \<Longrightarrow> cb_contract_address b = a" for a b using assms(1,2) by (simp add: al_ok_in_set)
  then have B: "map (\<lambda>b. (cb_contract_address b, b)) (al_values B) = B" by (auto simp: al_values_def intro!: map_idI)
  have perm: "mset (ho (al_values B)) = mset (al_values B)" using assms(3) by (simp add: hash_order_def)
  have "map cb_contract_address (al_values B) = map fst (map (\<lambda>b. (cb_contract_address b, b)) (al_values B))" by simp
  then have addrs: "distinct (map cb_contract_address (al_values B))" using assms(1) unfolding B by (simp add: al_ok_def)
  have "mset (map cb_contract_address (ho (al_values B))) = mset (map cb_contract_address (al_values B))" by (simp add: perm)
  then show d: "distinct (map cb_contract_address (ho (al_values B)))" using addrs mset_eq_imp_distinct_iff by blast
  have "set (map (\<lambda>b. (cb_contract_address b, b)) (ho (al_values B))) = set B"
    by (subst (2) B[symmetric]) (simp add: hash_order_set[OF assms(3)])
  moreover have "map fst (map (\<lambda>b. (cb_contract_address b, b)) (ho (al_values B))) = map cb_contract_address (ho (al_values B))"
    by simp
  ultimately show "batch_of (ho (al_values B)) = map_of B"
    unfolding batch_of_def using d assms(1) by (subst map_of_inject_set) (simp_all add: al_ok_def del: map_map)
qed

section \<open>Fetching the events of all contracts\<close>

context event_source
begin

definition range_events :: "contract_cursor \<Rightarrow> felt \<Rightarrow> u64 \<Rightarrow> emitted_event list" where
  "range_events c a T = filter (\<lambda>e. first_block cfg c \<le> blk e \<and> blk e \<le> T) (chain a)"

lemma open_req_mono: "open_req N f0 t0 B q \<Longrightarrow> N \<le> M \<Longrightarrow> open_req M f0 t0 B q"
  by (cases q) (auto intro: order.trans)

lemma common_bound: "(\<And>q. q \<in> set R \<Longrightarrow> \<exists>N. open_req N f0 t0 B q) \<Longrightarrow> \<exists>N. \<forall>q \<in> set R. open_req N f0 t0 B q"
proof (induction R)
  case (Cons q R)
  then obtain N M where "open_req N f0 t0 B q" "\<forall>q \<in> set R. open_req M f0 t0 B q" by (meson list.set_intros)
  then have "\<forall>q' \<in> set (q # R). open_req (max N M) f0 t0 B q'" by (auto simp del: open_req.simps intro: open_req_mono)
  then show ?case by blast
qed simp

lemma initial_open:
  assumes "f0 a = first_block cfg c" and "t0 a = min (first_block cfg c + blocks_chunk_size cfg) latest"
  shows "\<exists>N. open_req N f0 t0 [] (a, first_block cfg c, min (first_block cfg c + blocks_chunk_size cfg) latest,
    GetEvents a (first_block cfg c) latest_hash None (events_chunk_size cfg))"
proof -
  obtain pages where "pages_from a (f0 a) None pages" "concat pages = wanted a (f0 a)"
    using paged[of a "f0 a"] by (auto simp: pages_from_def wanted_def)
  then show ?thesis using assms by (auto simp: held_def range_ok_def)
qed

lemma fetch_events:
  assumes "0 < batch_chunk_size cfg" and "al_ok cs" and "hash_order ho"
  shows "(\<exists>chunk. gives_up P chunk) \<and>
      fetch_and_preprocess_events cfg P ho (event_requests cfg (latest_hash, latest) cs) cs latest = Some (FetchError BatchRequest) \<or>
    (\<exists>es cs'. fetch_and_preprocess_events cfg P ho (event_requests cfg (latest_hash, latest) cs) cs latest = Some (Fetched (es, cs')) \<and>
      map fst cs' = map fst cs \<and> (\<forall>e \<in> set es. map_of cs (e_from_address (ee_event e)) \<noteq> None) \<and>
      (\<forall>a c. map_of cs a = Some c \<longrightarrow>
         (if c_head c = Some latest then map_of cs' a = Some c \<and> of_contract a es = []
          else \<exists>T. min (first_block cfg c + blocks_chunk_size cfg) latest \<le> T \<and> T \<le> latest \<and>
            map_of cs' a = Some (advance_cursor T c) \<and> of_contract a es = new_events c (range_events c a T))))"
proof -
  let ?f0 = "\<lambda>a. first_block cfg (the (map_of cs a))"
  let ?t0 = "\<lambda>a. min (?f0 a + blocks_chunk_size cfg) latest"
  let ?R = "event_requests cfg (latest_hash, latest) cs"
  have d: "distinct (map fst cs)" using assms(2) by (simp add: al_ok_def)
  have fstR: "map fst ?R = map fst (filter (\<lambda>(_, c). c_head c \<noteq> Some latest) cs)" by (simp add: event_requests_def case_prod_beta)
  then have dR: "distinct (map fst ?R)" using d by (simp add: distinct_map_filter)
  have inR: "a \<in> fst ` set ?R \<longleftrightarrow> (\<exists>c. map_of cs a = Some c \<and> c_head c \<noteq> Some latest)" for a
    using arg_cong[OF fstR, of set] d by (force simp: set_map)
  have "\<exists>N. open_req N ?f0 ?t0 [] q" if q: "q \<in> set ?R" for q
  proof -
    obtain a c where ac: "(a, c) \<in> set cs" "q = (a, first_block cfg c, min (first_block cfg c + blocks_chunk_size cfg) latest,
        GetEvents a (first_block cfg c) latest_hash None (events_chunk_size cfg))"
      using q by (auto simp: event_requests_def)
    then have "the (map_of cs a) = c" using d by simp
    then show ?thesis unfolding ac(2) by (intro initial_open) simp_all
  qed
  from common_bound[OF this] obtain N where "\<forall>q \<in> set ?R. open_req N ?f0 ?t0 [] q" by blast
  from pages_loop_complete[OF assms(1) al_ok_Nil dR this] show ?thesis
  proof (elim disjE exE conjE)
    fix B assume B: "pages_loop cfg P latest [] ?R = Some (Fetched B)" "al_ok B"
      "\<forall>a \<in> fst ` set ?R. complete ?f0 ?t0 B a" "\<forall>a. a \<notin> fst ` set ?R \<longrightarrow> map_of B a = map_of [] a"
    have addr: "cb_contract_address b = a" if "map_of B a = Some b" for a b
      using that B(3,4) by (cases "a \<in> fst ` set ?R") (auto simp: complete_def)
    have cand: "\<exists>c. map_of cs a = Some c \<and> c_head c \<noteq> Some latest \<and> cb_events b = range_events c a (cb_to_block b) \<and>
        ?t0 a \<le> cb_to_block b \<and> cb_to_block b \<le> latest" if b: "map_of B a = Some b" for a b
    proof -
      have "a \<in> fst ` set ?R" using b B(4) by fastforce
      with B(3) inR b obtain c where "map_of cs a = Some c" "c_head c \<noteq> Some latest" "complete ?f0 ?t0 B a" by blast
      with b show ?thesis by (auto simp: complete_def range_events_def wanted_def conj_commute)
    qed
    let ?bs = "ho (al_values B)"
    obtain es cs' where pre: "preprocess_loop cs ?bs cs = (es, cs')" by fastforce
    have bs: "map_of B (cb_contract_address b) = Some b" if "b \<in> set ?bs" for b
      using that B(2) addr unfolding hash_order_set[OF assms(3)] by (auto simp: al_values_def al_ok_in_set)
    have 1: "\<forall>b \<in> set ?bs. map_of cs (cb_contract_address b) \<noteq> None" using bs cand by fastforce
    have 2: "\<forall>b \<in> set ?bs. \<forall>e \<in> set (cb_events b). e_from_address (ee_event e) = cb_contract_address b"
      using bs cand chain_events by (fastforce simp: range_events_def)
    have addrs: "\<forall>a b. map_of B a = Some b \<longrightarrow> cb_contract_address b = a" using addr by blast
    note bv = batch_of_values[OF B(2) addrs assms(3)]
    note ps = preprocess_loop_spec[OF bv(2) 1 refl 2 pre, unfolded bv(1)]
    have sp1: "map fst cs' = map fst cs" by (rule conjunct1[OF ps])
    have sp2: "case map_of B a of None \<Rightarrow> map_of cs' a = map_of cs a \<and> of_contract a es = []
         | Some b \<Rightarrow> map_of cs' a = map_option (advance_cursor (cb_to_block b)) (map_of cs a) \<and>
             (\<forall>c. map_of cs a = Some c \<longrightarrow> of_contract a es = new_events c (cb_events b))" for a
      by (rule spec[OF conjunct2[OF ps]])
    have "if c_head c = Some latest then map_of cs' a = Some c \<and> of_contract a es = []
        else \<exists>T. min (first_block cfg c + blocks_chunk_size cfg) latest \<le> T \<and> T \<le> latest \<and>
          map_of cs' a = Some (advance_cursor T c) \<and> of_contract a es = new_events c (range_events c a T)"
      if c: "map_of cs a = Some c" for a c
    proof (cases "map_of B a")
      case None
      then have "a \<notin> fst ` set ?R" using B(3) by (auto simp: complete_def)
      with c inR have "c_head c = Some latest" by auto
      with None c sp2[of a] show ?thesis by simp
    next
      case (Some b)
      then show ?thesis using cand[OF Some] sp2[of a] c by auto
    qed
    moreover have "map_of cs (e_from_address (ee_event e)) \<noteq> None" if "e \<in> set es" for e
    proof
      assume "map_of cs (e_from_address (ee_event e)) = None"
      then have "map_of B (e_from_address (ee_event e)) = None"
        using cand[of "e_from_address (ee_event e)"] by (cases "map_of B (e_from_address (ee_event e))") auto
      with sp2[of "e_from_address (ee_event e)"] that show False by (auto simp: of_contract_def filter_empty_conv)
    qed
    ultimately show ?thesis
      using sp1 pre B(1)
      by (auto simp: fetch_and_preprocess_events_def fetch_all_event_pages_def preprocess_fetched_events_def)
  qed (auto simp: fetch_and_preprocess_events_def fetch_all_event_pages_def)
qed

end

end
