(* ===== verification/FetcherBlocks.thy ===== *)
theory FetcherBlocks
  imports FetcherSpec
begin

text \<open>
  How the events of a range are sorted into blocks and transactions (steps 3 to 9 of \<open>fetch_range\<close>, \<open>json_rpc.rs\<close>), and the contract of
  \<open>fetch_range\<close> as a whole.
\<close>

section \<open>Blocks as functions\<close>

text \<open>The blocks \<open>ns\<close> of a chain with the events \<open>g n h\<close> of transaction \<open>h\<close> in block \<open>n\<close>; \<open>tx\<close> and \<open>rc\<close> are the details fetched so far.\<close>

definition block_map ::
  "(u64 \<Rightarrow> u64) \<Rightarrow> (u64 \<Rightarrow> felt) \<Rightarrow> (u64 \<Rightarrow> felt list) \<Rightarrow> (u64 \<Rightarrow> felt \<Rightarrow> ('tx, 'r) fetch_transaction) \<Rightarrow> u64 list \<Rightarrow>
   ('tx, 'r) fetch_range_result" where
  "block_map ts hash txs g ns =
     map (\<lambda>n. (n, \<lparr>fb_block_hash = Some (hash n), fb_timestamp = ts n, fb_transactions = map (\<lambda>h. (h, g n h)) (txs n)\<rparr>)) ns"

lemma map_of_pairs: "map_of (map (\<lambda>x. (x, f x)) xs) x = (if x \<in> set xs then Some (f x) else None)"
  by (induction xs) auto

lemma al_modify_pairs: "al_modify k u (map (\<lambda>x. (x, f x)) xs) = map (\<lambda>x. (x, if x = k then u (f x) else f x)) xs"
  by (simp add: al_modify_def)

lemma block_map_lookup:
  "map_of (block_map ts hash txs g ns) n =
     (if n \<in> set ns then Some \<lparr>fb_block_hash = Some (hash n), fb_timestamp = ts n, fb_transactions = map (\<lambda>h. (h, g n h)) (txs n)\<rparr>
      else None)"
  unfolding block_map_def by (rule map_of_pairs)

lemma block_map_cong:
  "(\<And>n h. n \<in> set ns \<Longrightarrow> h \<in> set (txs n) \<Longrightarrow> g n h = g' n h) \<Longrightarrow> block_map ts hash txs g ns = block_map ts hash txs g' ns"
  by (simp add: block_map_def)

lemma init_transactions_distinct:
  "distinct (hs @ map fst acc) \<Longrightarrow> fold (\<lambda>h. al_insert h empty_transaction) hs acc = acc @ map (\<lambda>h. (h, empty_transaction)) hs"
proof (induction hs arbitrary: acc)
  case (Cons h hs)
  have "al_insert h empty_transaction acc = acc @ [(h, empty_transaction)]"
    using Cons.prems by (induction acc) (auto simp: al_insert_def)
  with Cons show ?case by simp
qed simp

lemma al_modify_block:
  "al_modify n (\<lambda>b. b\<lparr>fb_transactions := al_modify h u (fb_transactions b)\<rparr>) (block_map ts hash txs g ns) =
   block_map ts hash txs (\<lambda>n' h'. if n' = n \<and> h' = h then u (g n' h') else g n' h') ns"
  by (auto simp: block_map_def al_modify_def)

lemma init_blocks_spec:
  assumes "\<And>n. distinct (txs n)"
  shows "distinct (ns @ map fst acc) \<Longrightarrow>
    init_blocks (zip ns (map (\<lambda>n. BlockWithTxHashes (Some (ts n, txs n, hash n))) ns)) acc =
    Some (acc @ block_map ts hash txs (\<lambda>_ _. empty_transaction) ns)"
proof (induction ns arbitrary: acc)
  case (Cons n ns)
  have tx: "init_transactions (txs n) = map (\<lambda>h. (h, empty_transaction)) (txs n)"
    using init_transactions_distinct[of "txs n" "[]"] assms by (simp add: init_transactions_def)
  have ins: "al_insert n b acc = acc @ [(n, b)]" for b
    using Cons.prems by (induction acc) (auto simp: al_insert_def)
  show ?case using Cons by (simp add: tx ins block_map_def)
qed (simp add: block_map_def)

section \<open>Sorting the events in\<close>

definition at :: "u64 \<Rightarrow> felt \<Rightarrow> emitted_event list \<Rightarrow> event list" where
  "at n h es = map ee_event (filter (\<lambda>e. blk e = n \<and> ee_transaction_hash e = h) es)"

definition holding :: "(u64 \<Rightarrow> felt \<Rightarrow> event list) \<Rightarrow> u64 \<Rightarrow> felt \<Rightarrow> ('tx, 'r) fetch_transaction" where
  "holding g n h = \<lparr>ft_transaction = None, ft_events = g n h, ft_receipt = None\<rparr>"

definition seen :: "(felt \<times> felt set) list \<Rightarrow> felt \<Rightarrow> felt set" where
  "seen cts a = (case map_of cts a of None \<Rightarrow> {} | Some s \<Rightarrow> s)"

lemma assign_events_spec:
  assumes "\<And>e. e \<in> set es \<Longrightarrow> ee_block_number e \<noteq> None \<and> blk e \<in> set ns \<and> ee_transaction_hash e \<in> set (txs (blk e))"
  shows "\<exists>cts'. assign_events es (block_map ts hash txs (holding g) ns :: ('tx, 'r) fetch_range_result, cts) =
    Some (block_map ts hash txs (holding (\<lambda>n h. g n h @ at n h es)) ns, cts') \<and>
    (\<forall>a. seen cts' a = seen cts a \<union> ee_transaction_hash ` set (of_contract a es))"
  using assms
proof (induction es arbitrary: g cts)
  case Nil
  then show ?case by (simp add: at_def of_contract_def)
next
  case (Cons e es)
  let ?h = "ee_transaction_hash e" and ?n = "blk e"
  let ?g = "\<lambda>n h. g n h @ at n h [e]"
  let ?M = "\<lambda>g. block_map ts hash txs (holding g) ns :: ('tx, 'r) fetch_range_result"
  let ?cts = "al_upsert (e_from_address (ee_event e)) (insert ?h) {?h} cts"
  have e: "ee_block_number e = Some ?n" "?n \<in> set ns" "?h \<in> set (txs ?n)" using Cons.prems[of e] by (auto simp: blk_def)
  have upd: "(\<lambda>n h. if n = ?n \<and> h = ?h then (holding g n h :: ('tx, 'r) fetch_transaction)\<lparr>ft_events := ft_events (holding g n h) @ [ee_event e]\<rparr> else holding g n h) =
      holding ?g" by (auto simp: fun_eq_iff holding_def at_def)
  have "assign_event e (?M g, cts) = Some (?M ?g, ?cts)"
    using e by (simp add: assign_event_def block_map_lookup map_of_pairs al_modify_block upd)
  moreover have "\<exists>cts'. assign_events es (?M ?g, ?cts) = Some (?M (\<lambda>n h. ?g n h @ at n h es), cts') \<and>
      (\<forall>a. seen cts' a = seen ?cts a \<union> ee_transaction_hash ` set (of_contract a es))"
    by (rule Cons.IH) (rule Cons.prems, simp)
  moreover have "(\<lambda>n h. ?g n h @ at n h es) = (\<lambda>n h. g n h @ at n h (e # es))" by (auto simp: fun_eq_iff at_def)
  moreover have "seen ?cts a \<union> ee_transaction_hash ` set (of_contract a es) =
      seen cts a \<union> ee_transaction_hash ` set (of_contract a (e # es))" for a
    by (auto simp: seen_def of_contract_def split: option.splits if_splits)
  ultimately show ?case by (simp only: assign_events.simps option.case)
qed

lemma retain_block_map:
  "retain_transactions (block_map ts hash txs g ns) = block_map ts hash (\<lambda>n. filter (\<lambda>h. ft_events (g n h) \<noteq> []) (txs n)) g ns"
  by (simp add: retain_transactions_def block_map_def on_block_transactions_def filter_map o_def)

section \<open>Transactions and receipts\<close>

lemma transactions_with_events_block_map:
  assumes "\<And>n h. h \<in> set (txs n) \<Longrightarrow> ft_events (g n h) \<noteq> []"
  shows "transactions_with_events (block_map ts hash txs g ns) = concat (map (\<lambda>n. map (Pair n) (txs n)) ns)"
proof -
  have "map (\<lambda>(h, _). (n, h)) (filter (\<lambda>(_, tx). ft_events tx \<noteq> []) (map (\<lambda>h. (h, g n h)) (txs n))) = map (Pair n) (txs n)" for n
  proof -
    have "filter (\<lambda>(_, tx). ft_events tx \<noteq> []) (map (\<lambda>h. (h, g n h)) (txs n)) = map (\<lambda>h. (h, g n h)) (txs n)"
      using assms by (auto simp: filter_id_conv)
    then show ?thesis by simp
  qed
  then show ?thesis by (simp add: transactions_with_events_def block_map_def o_def)
qed

text \<open>An update that puts the answer to its request into a transaction: what \<open>set_transactions\<close> and \<open>set_receipts\<close> have in common.\<close>

locale detail =
  fixes update :: "(u64 \<times> ('tx, 'r) response) list \<Rightarrow> ('tx, 'r) fetch_range_result \<Rightarrow> ('tx, 'r) fetch_range_result option"
    and resp :: "felt \<Rightarrow> ('tx, 'r) response" and put :: "felt \<Rightarrow> ('tx, 'r) fetch_transaction \<Rightarrow> ('tx, 'r) fetch_transaction"
  assumes update_Nil: "update [] bs = Some bs"
    and update_Cons: "update ((n, resp h) # rs) bs = update rs (al_modify n (on_block_transactions (al_modify h (put h))) bs)"
    and put_idem: "put h (put h t) = put h t" and put_events: "ft_events (put h t) = ft_events t"
begin

lemma update_all:
  "update (map (\<lambda>(n, h). (n, resp h)) L) (block_map ts hash txs g ns) =
   Some (block_map ts hash txs (\<lambda>n h. if (n, h) \<in> set L then put h (g n h) else g n h) ns)"
proof (induction L arbitrary: g)
  case (Cons x L)
  obtain n h where x: "x = (n, h)" by (cases x)
  let ?g = "\<lambda>n' h'. if n' = n \<and> h' = h then put h (g n' h') else g n' h'"
  have "al_modify n (on_block_transactions (al_modify h (put h))) (block_map ts hash txs g ns) = block_map ts hash txs ?g ns"
    using al_modify_block[of n h "put h" ts hash txs g ns] by (simp add: on_block_transactions_def[abs_def])
  moreover have "(\<lambda>n' h'. if (n', h') \<in> set L then put h' (?g n' h') else ?g n' h') =
      (\<lambda>n' h'. if (n', h') \<in> set (x # L) then put h' (g n' h') else g n' h')"
    by (auto simp: fun_eq_iff x put_idem)
  ultimately show ?case using Cons.IH[of ?g] by (simp add: x update_Cons)
qed (simp add: update_Nil)

end

interpretation transaction_detail: detail set_transactions "\<lambda>h. Transaction h (txc h)" "\<lambda>h t. t\<lparr>ft_transaction := Some (txc h)\<rparr>"
  for txc by unfold_locales simp_all

interpretation receipt_detail: detail set_receipts "\<lambda>h. TransactionReceipt h (rcc h)" "\<lambda>h t. t\<lparr>ft_receipt := Some (rcc h)\<rparr>"
  for rcc by unfold_locales simp_all

lemma zip_map_answers: "zip (map fst L) (map (resp \<circ> snd) L) = map (\<lambda>(n, h). (n, resp h)) L"
  by (induction L) auto

context rpc
begin

lemma fetch_details_spec:
  assumes "0 < batch_chunk_size cfg" and "detail update resp put" and "\<And>h. answer (req h) = resp h"
    and "\<And>n h. h \<in> set (txs n) \<Longrightarrow> ft_events (g n h) \<noteq> []"
  shows "(\<exists>chunk. gives_up P chunk) \<and> fetch_details cfg P flag req update (block_map ts hash txs g ns) = FetchError BatchRequest \<or>
    fetch_details cfg P flag req update (block_map ts hash txs g ns) =
      Fetched (block_map ts hash txs (\<lambda>n h. if flag then put h (g n h) else g n h) ns)"
proof -
  let ?bs = "block_map ts hash txs g ns"
  let ?L = "concat (map (\<lambda>n. map (Pair n) (txs n)) ns)"
  note L = transactions_with_events_block_map[of txs g ts hash ns, OF assms(4)]
  have same: "block_map ts hash txs (\<lambda>n h. if (n, h) \<in> set ?L then put h (g n h) else g n h) ns =
      block_map ts hash txs (\<lambda>n h. put h (g n h)) ns" by (rule block_map_cong) auto
  have ans: "map answer (map (req \<circ> snd) ?L) = map (resp \<circ> snd) ?L" by (simp add: assms(3) o_def)
  consider "\<not> flag" | "flag" "?L = []" | "flag" "?L \<noteq> []" by blast
  then show ?thesis
  proof cases
    case 1
    then show ?thesis by (simp add: fetch_details_def)
  next
    case 2
    have "block_map ts hash txs (\<lambda>n h. put h (g n h)) ns = ?bs" using 2(2) by (intro block_map_cong) auto
    with 2 show ?thesis by (simp add: fetch_details_def L del: concat_eq_Nil_conv)
  next
    case 3
    have ne: "?bs \<noteq> []" using 3(2) by (auto simp: block_map_def)
    show ?thesis
    proof (cases "list_ex (gives_up P) (chunks (batch_chunk_size cfg) (map (req \<circ> snd) ?L))")
      case True
      then have "\<exists>chunk. gives_up P chunk" by (auto simp: list_ex_iff)
      with True 3 ne show ?thesis
        by (simp add: fetch_details_def L chunked_result[OF assms(1)] del: map_map set_concat concat_eq_Nil_conv)
    next
      case False
      with 3 ne show ?thesis
        by (simp add: fetch_details_def L chunked_result[OF assms(1)] ans zip_map_answers detail.update_all[OF assms(2)] or_panic_def
            same del: map_map set_concat concat_eq_Nil_conv)
    qed
  qed
qed

end

section \<open>The range as a whole\<close>

text \<open>The events of contract \<open>a\<close> in a transaction of a block.\<close>

definition delivered_at :: "felt \<Rightarrow> ('tx, 'r) fetch_range_result \<Rightarrow> u64 \<Rightarrow> felt \<Rightarrow> event list" where
  "delivered_at a bs n h = filter (\<lambda>e. e_from_address e = a)
     (case map_of bs n of None \<Rightarrow> [] | Some b \<Rightarrow> (case map_of (fb_transactions b) h of None \<Rightarrow> [] | Some t \<Rightarrow> ft_events t))"

lemma advance_cursor_head [simp]: "c_head (advance_cursor T c) = Some T"
  by (simp add: advance_cursor_def)

text \<open>The blocks the provider serves agree with the chain.\<close>

locale block_source = event_source P answer cfg latest_hash latest chain
  for P :: "('tx, 'r) provider" and answer cfg latest_hash latest chain +
  fixes ts :: "u64 \<Rightarrow> u64" and hash :: "u64 \<Rightarrow> felt" and txs :: "u64 \<Rightarrow> felt list" and txc :: "felt \<Rightarrow> 'tx" and rcc :: "felt \<Rightarrow> 'r"
  assumes blocks: "n \<le> latest \<Longrightarrow> answer (GetBlockWithTxHashes n) = BlockWithTxHashes (Some (ts n, txs n, hash n))"
    and txs_distinct: "distinct (txs n)"
    and in_block: "e \<in> set (chain a) \<Longrightarrow> ee_transaction_hash e \<in> set (txs (blk e))"
    and transactions: "answer (GetTransactionByHash h) = Transaction h (txc h)"
    and receipts: "answer (GetTransactionReceipt h) = TransactionReceipt h (rcc h)"
begin

definition full :: "emitted_event list \<Rightarrow> u64 \<Rightarrow> felt \<Rightarrow> ('tx, 'r) fetch_transaction" where
  "full es n h = \<lparr>ft_transaction = (if TRANSACTIONS (flags cfg) then Some (txc h) else None), ft_events = at n h es,
     ft_receipt = (if TRANSACTION_RECEIPTS (flags cfg) then Some (rcc h) else None)\<rparr>"

definition sorted_in :: "emitted_event list \<Rightarrow> u64 list \<Rightarrow> ('tx, 'r) fetch_range_result" where
  "sorted_in es ns = block_map ts hash (\<lambda>n. filter (\<lambda>h. at n h es \<noteq> []) (txs n)) (full es) ns"

definition placed :: "emitted_event list \<Rightarrow> bool" where
  "placed es = (\<forall>e \<in> set es. ee_block_number e \<noteq> None \<and> blk e \<le> latest \<and> ee_transaction_hash e \<in> set (txs (blk e)))"

lemma block_numbers_spec:
  assumes "placed es" and "\<forall>(a, c) \<in> set cs. \<forall>h. c_head c = Some h \<longrightarrow> h \<le> latest"
  shows "\<exists>ns. block_numbers es cs = Some ns \<and> distinct ns \<and> (\<forall>n \<in> set ns. n \<le> latest) \<and>
    set ns = blk ` set es \<union> {h. \<exists>(a, c) \<in> set cs. c_head c = Some h}"
proof -
  have e: "ee_block_number e = Some (blk e)" if "e \<in> set es" for e using assms(1) that by (auto simp: placed_def blk_def)
  have "set (List.map_filter ee_block_number es) = blk ` set es"
    using e by (simp add: map_filter_total[where h = blk])
  moreover have "set (List.map_filter (\<lambda>(_, c). c_head c) cs) = {h. \<exists>(a, c) \<in> set cs. c_head c = Some h}"
    by (induction cs) (auto simp: List.map_filter_def split: option.splits)
  moreover have "\<not> list_ex (\<lambda>e. ee_block_number e = None) es" using e by (auto simp: list_ex_iff)
  ultimately show ?thesis using assms by (auto simp: block_numbers_def placed_def)
qed

lemma fetch_blocks_spec:
  assumes "0 < batch_chunk_size cfg" and "distinct ns" and "\<forall>n \<in> set ns. n \<le> latest"
  shows "(\<exists>chunk. gives_up P chunk) \<and> fetch_blocks cfg P ns = FetchError BatchRequest \<or>
    fetch_blocks cfg P ns = Fetched (block_map ts hash txs (holding (\<lambda>_ _. [])) ns)"
proof -
  have ans: "map answer (map GetBlockWithTxHashes ns) = map (\<lambda>n. BlockWithTxHashes (Some (ts n, txs n, hash n))) ns"
    using assms(3) blocks by simp
  have emp: "(\<lambda>_ _. empty_transaction) = (holding (\<lambda>_ _. []) :: u64 \<Rightarrow> felt \<Rightarrow> ('tx, 'r) fetch_transaction)"
    by (simp add: fun_eq_iff holding_def empty_transaction_def)
  have "init_blocks (zip ns (map (\<lambda>n. BlockWithTxHashes (Some (ts n, txs n, hash n))) ns)) [] =
      Some (block_map ts hash txs (holding (\<lambda>_ _. [])) ns :: ('tx, 'r) fetch_range_result)"
    unfolding emp[symmetric] using init_blocks_spec[of txs ns "[]" ts hash, OF txs_distinct] assms(2) by simp
  then show ?thesis
    by (auto simp: fetch_blocks_def chunked_result[OF assms(1)] ans or_panic_def block_map_def list_ex_iff simp del: map_map)
qed

lemma retain_holding:
  "retain_transactions (block_map ts hash txs (holding g) ns :: ('tx, 'r) fetch_range_result) =
   block_map ts hash (\<lambda>n. filter (\<lambda>h. g n h \<noteq> []) (txs n)) (holding g) ns"
  by (simp add: retain_block_map holding_def)

lemma fetch_range_blocks_spec:
  assumes "0 < batch_chunk_size cfg" and "placed es" and "\<forall>(a, c) \<in> set cs. \<forall>h. c_head c = Some h \<longrightarrow> h \<le> latest"
  shows "(\<exists>chunk. gives_up P chunk) \<and> fetch_range_blocks cfg P (es, cs) = FetchError BatchRequest \<or>
    (\<exists>ns cts. fetch_range_blocks cfg P (es, cs) =
       Fetched (sorted_in es ns, \<lparr>cursor_transactions = cts, cursors_of = update_timestamps (sorted_in es ns) cs\<rparr>) \<and>
     set ns = blk ` set es \<union> {h. \<exists>(a, c) \<in> set cs. c_head c = Some h} \<and>
     (\<forall>a. seen cts a = ee_transaction_hash ` set (of_contract a es)))"
proof -
  obtain ns where ns: "block_numbers es cs = Some ns" "distinct ns" "\<forall>n \<in> set ns. n \<le> latest"
      "set ns = blk ` set es \<union> {h. \<exists>(a, c) \<in> set cs. c_head c = Some h}"
    using block_numbers_spec[OF assms(2,3)] by blast
  let ?txs = "\<lambda>n. filter (\<lambda>h. at n h es \<noteq> []) (txs n)"
  let ?g0 = "holding (\<lambda>n h. at n h es) :: u64 \<Rightarrow> felt \<Rightarrow> ('tx, 'r) fetch_transaction"
  let ?g1 = "\<lambda>n h. if TRANSACTIONS (flags cfg) then (?g0 n h)\<lparr>ft_transaction := Some (txc h)\<rparr> else ?g0 n h"
  let ?g2 = "\<lambda>n h. if TRANSACTION_RECEIPTS (flags cfg) then (?g1 n h)\<lparr>ft_receipt := Some (rcc h)\<rparr> else ?g1 n h"
  have g2: "?g2 = full es" by (auto simp: fun_eq_iff full_def holding_def)
  obtain cts where cts: "assign_events es (block_map ts hash txs (holding (\<lambda>_ _. [])) ns :: ('tx, 'r) fetch_range_result, []) =
      Some (block_map ts hash txs (holding (\<lambda>n h. at n h es)) ns, cts)"
      "\<forall>a. seen cts a = ee_transaction_hash ` set (of_contract a es)"
    using assign_events_spec[of es ns txs ts hash "\<lambda>_ _. []" "[]"] assms(2) ns(4) by (auto simp: placed_def seen_def)
  have 1: "(\<exists>chunk. gives_up P chunk) \<and> fetch_details cfg P (TRANSACTIONS (flags cfg)) GetTransactionByHash set_transactions
        (block_map ts hash ?txs ?g0 ns) = FetchError BatchRequest \<or>
      fetch_details cfg P (TRANSACTIONS (flags cfg)) GetTransactionByHash set_transactions (block_map ts hash ?txs ?g0 ns) =
        Fetched (block_map ts hash ?txs ?g1 ns)"
    by (rule fetch_details_spec[OF assms(1) transaction_detail.detail_axioms transactions]) (simp add: holding_def)
  have 2: "(\<exists>chunk. gives_up P chunk) \<and> fetch_details cfg P (TRANSACTION_RECEIPTS (flags cfg)) GetTransactionReceipt set_receipts
        (block_map ts hash ?txs ?g1 ns) = FetchError BatchRequest \<or>
      fetch_details cfg P (TRANSACTION_RECEIPTS (flags cfg)) GetTransactionReceipt set_receipts (block_map ts hash ?txs ?g1 ns) =
        Fetched (block_map ts hash ?txs ?g2 ns)"
    by (rule fetch_details_spec[OF assms(1) receipt_detail.detail_axioms receipts]) (simp add: holding_def)
  show ?thesis
    using fetch_blocks_spec[OF assms(1) ns(2,3)] 1 2 unfolding g2
    by (elim disjE conjE) (simp_all add: fetch_range_blocks_def ns(1) or_panic_def cts retain_holding sorted_in_def ns(4)[symmetric], blast+)
qed

lemma delivered_sorted_in:
  assumes "placed es" and "blk ` set es \<subseteq> set ns"
  shows "delivered_at a (sorted_in es ns) n h = at n h (of_contract a es)"
proof -
  have "at n h es = []" if "n \<notin> set ns \<or> h \<notin> set (txs n)"
    using assms that by (auto simp: at_def placed_def filter_empty_conv)
  moreover have "at n h (of_contract a es) = filter (\<lambda>e. e_from_address e = a) (at n h es)"
    by (induction es) (auto simp: at_def of_contract_def)
  ultimately show ?thesis
    by (cases "n \<in> set ns \<and> h \<in> set (txs n)") (auto simp: delivered_at_def sorted_in_def block_map_lookup map_of_pairs full_def)
qed

lemma first_block_le:
  assumes "c_head c = Some h" and "h \<le> latest" and "h \<noteq> latest"
  shows "h \<le> min (first_block cfg c + blocks_chunk_size cfg) latest"
proof (cases "h = 0")
  case False
  have "h < latest" using assms(2,3) by simp
  then have "unat h < unat latest" by (simp add: word_less_nat_alt)
  then have s: "unat (h + 1) = Suc (unat h)" using no_wrap by (simp add: unat_word_ariths)
  then have "h + 1 \<le> latest" using \<open>h < latest\<close> by (simp add: word_le_nat_alt word_less_nat_alt)
  moreover have "h \<le> h + 1" by (simp add: word_le_nat_alt s)
  ultimately show ?thesis
    using le_plus_chunk[of "h + 1"] assms(1) False by (auto simp: first_block_def intro: order.trans)
qed simp

lemma placed_new_events: "placed (new_events c (range_events c a T))"
  unfolding placed_def
proof
  fix e assume "e \<in> set (new_events c (range_events c a T))"
  then have "e \<in> set (chain a)" using new_events_subset by (fastforce simp: range_events_def)
  then show "ee_block_number e \<noteq> None \<and> blk e \<le> latest \<and> ee_transaction_hash e \<in> set (txs (blk e))"
    using chain_events in_block by blast
qed

lemma update_timestamps_lookup:
  "map_of (update_timestamps bs cs) a = map_option (\<lambda>c. case c_head c of
     None \<Rightarrow> c | Some h \<Rightarrow> (case map_of bs h of None \<Rightarrow> c | Some b \<Rightarrow> c\<lparr>c_last_block_timestamp := Some (fb_timestamp b)\<rparr>)) (map_of cs a)"
  unfolding update_timestamps_def by (rule map_of_map_values)

text \<open>The events and cursors that step 2 hands to the following steps.\<close>

definition preprocessed :: "(felt \<times> contract_cursor) list \<Rightarrow> emitted_event list \<Rightarrow> (felt \<times> contract_cursor) list \<Rightarrow> bool" where
  "preprocessed cs es cs' \<longleftrightarrow> al_ok cs \<and> map fst cs' = map fst cs \<and> (\<forall>e \<in> set es. map_of cs (e_from_address (ee_event e)) \<noteq> None) \<and>
     (\<forall>a c. map_of cs a = Some c \<longrightarrow>
        (if c_head c = Some latest then map_of cs' a = Some c \<and> of_contract a es = []
         else \<exists>T. min (first_block cfg c + blocks_chunk_size cfg) latest \<le> T \<and> T \<le> latest \<and>
           map_of cs' a = Some (advance_cursor T c) \<and> of_contract a es = new_events c (range_events c a T)))"

lemma preprocessedE:
  assumes "preprocessed cs es cs'" and "map_of cs a = Some c"
  obtains "c_head c = Some latest" "map_of cs' a = Some c" "of_contract a es = []"
  | T where "c_head c \<noteq> Some latest" "min (first_block cfg c + blocks_chunk_size cfg) latest \<le> T" "T \<le> latest"
      "map_of cs' a = Some (advance_cursor T c)" "of_contract a es = new_events c (range_events c a T)"
proof (cases "c_head c = Some latest")
  case True
  with assms show ?thesis by (auto simp: preprocessed_def intro: that(1))
next
  case False
  have "\<exists>T. min (first_block cfg c + blocks_chunk_size cfg) latest \<le> T \<and> T \<le> latest \<and>
      map_of cs' a = Some (advance_cursor T c) \<and> of_contract a es = new_events c (range_events c a T)"
    using assms unfolding preprocessed_def by (simp only: False if_False simp_thms)
  with False show ?thesis by (elim exE conjE) (rule that(2))
qed

lemma preprocessed_placed:
  assumes "preprocessed cs es cs'"
  shows "placed es"
  unfolding placed_def
proof
  fix e assume e: "e \<in> set es"
  let ?a = "e_from_address (ee_event e)"
  have mem: "e \<in> set (of_contract ?a es)" using e by (simp add: of_contract_def)
  obtain c where c: "map_of cs ?a = Some c" using assms e by (auto simp: preprocessed_def)
  from assms c show "ee_block_number e \<noteq> None \<and> blk e \<le> latest \<and> ee_transaction_hash e \<in> set (txs (blk e))"
  proof (cases rule: preprocessedE)
    case (2 T)
    with mem placed_new_events[of c ?a T] show ?thesis by (simp add: placed_def)
  qed (use mem in simp)
qed

lemma preprocessed_heads:
  assumes "preprocessed cs es cs'"
  shows "\<forall>(a, c) \<in> set cs'. \<forall>h. c_head c = Some h \<longrightarrow> h \<le> latest"
proof -
  have "h \<le> latest" if mem: "(a, c') \<in> set cs'" and h: "c_head c' = Some h" for a c' h
  proof -
    have "al_ok cs'" "map fst cs' = map fst cs" using assms by (simp_all add: preprocessed_def al_ok_def)
    then have c': "map_of cs' a = Some c'" and "a \<in> set (map fst cs)"
      using mem by (simp add: al_ok_in_set, metis fst_conv image_eqI mem set_map)
    then obtain c where c: "map_of cs a = Some c" by (metis map_of_eq_None_iff not_None_eq set_map)
    from assms c show ?thesis
    proof (cases rule: preprocessedE)
      case (2 T)
      with c' h have "h = T" by (metis advance_cursor_head option.inject)
      with 2(3) show ?thesis by simp
    qed (use c' h in simp)
  qed
  then show ?thesis by blast
qed

definition served :: "('tx, 'r) fetch_range_result \<Rightarrow> (felt \<times> contract_cursor) list \<Rightarrow> felt \<Rightarrow> contract_cursor \<Rightarrow> bool" where
  "served bs cs' a c \<longleftrightarrow>
     (if c_head c = Some latest
      then map_of cs' a = Some (c\<lparr>c_last_block_timestamp := Some (ts latest)\<rparr>) \<and> (\<forall>n h. delivered_at a bs n h = [])
      else \<exists>T. min (first_block cfg c + blocks_chunk_size cfg) latest \<le> T \<and> T \<le> latest \<and>
        (\<forall>h. c_head c = Some h \<longrightarrow> h \<le> T) \<and>
        map_of cs' a = Some (advance_cursor T c\<lparr>c_last_block_timestamp := Some (ts T)\<rparr>) \<and>
        (\<forall>n h. delivered_at a bs n h = at n h (new_events c (range_events c a T))))"

lemma preprocessed_served:
  assumes pre: "preprocessed cs es cs'" and ns: "set ns = blk ` set es \<union> {h. \<exists>(a, c) \<in> set cs'. c_head c = Some h}"
    and low: "\<forall>(a, c) \<in> set cs. \<forall>h. c_head c = Some h \<longrightarrow> h \<le> latest" and c: "map_of cs a = Some c"
  shows "served (sorted_in es ns) (update_timestamps (sorted_in es ns) cs') a c"
proof -
  have dl: "delivered_at a (sorted_in es ns) n h = at n h (of_contract a es)" for n h
    by (rule delivered_sorted_in[OF preprocessed_placed[OF pre]]) (simp add: ns)
  have stamp: "map_of (update_timestamps (sorted_in es ns) cs') a = Some (c'\<lparr>c_last_block_timestamp := Some (ts h)\<rparr>)"
    if c': "map_of cs' a = Some c'" and h: "c_head c' = Some h" for c' h
  proof -
    have "(a, c') \<in> set cs'" using c' by (rule map_of_SomeD)
    with h have "h \<in> set ns" by (auto simp: ns)
    with c' h show ?thesis by (simp add: update_timestamps_lookup sorted_in_def block_map_lookup)
  qed
  from pre c show ?thesis
  proof (cases rule: preprocessedE)
    case 1
    with stamp show ?thesis by (simp add: served_def dl at_def)
  next
    case (2 T)
    have "h \<le> T" if hd: "c_head c = Some h" for h
    proof -
      have "h \<le> latest" "h \<noteq> latest" using low map_of_SomeD[OF c] hd 2(1) by auto
      from first_block_le[OF hd this] 2(2) show ?thesis by (rule order.trans)
    qed
    moreover have "map_of (update_timestamps (sorted_in es ns) cs') a = Some (advance_cursor T c\<lparr>c_last_block_timestamp := Some (ts T)\<rparr>)"
      by (rule stamp[OF 2(4)]) simp
    ultimately show ?thesis
      unfolding served_def if_not_P[OF 2(1)] dl 2(5) using 2(2,3) by (intro exI[of _ T] conjI allI impI) simp_all
  qed
qed

lemma fetch_range_spec:
  assumes "0 < batch_chunk_size cfg" and "al_ok cs" and "hash_order ho"
    and "\<forall>(a, c) \<in> set cs. \<forall>h. c_head c = Some h \<longrightarrow> h \<le> latest"
  shows "(\<exists>chunk. gives_up P chunk) \<and> fetch_range cfg P ho cs (latest_hash, latest) = Some (FetchError BatchRequest) \<or>
    (\<exists>bs cur. fetch_range cfg P ho cs (latest_hash, latest) = Some (Fetched (bs, cur)) \<and>
      (\<forall>a c. map_of cs a = Some c \<longrightarrow> served bs (cursors_of cur) a c))"
  using fetch_events[OF assms(1-3)]
proof (elim disjE exE conjE)
  fix es cs' assume f: "fetch_and_preprocess_events cfg P ho (event_requests cfg (latest_hash, latest) cs) cs latest = Some (Fetched (es, cs'))"
    and "map fst cs' = map fst cs" "\<forall>e \<in> set es. map_of cs (e_from_address (ee_event e)) \<noteq> None"
      "\<forall>a c. map_of cs a = Some c \<longrightarrow>
         (if c_head c = Some latest then map_of cs' a = Some c \<and> of_contract a es = []
          else \<exists>T. min (first_block cfg c + blocks_chunk_size cfg) latest \<le> T \<and> T \<le> latest \<and>
            map_of cs' a = Some (advance_cursor T c) \<and> of_contract a es = new_events c (range_events c a T))"
  then have pre: "preprocessed cs es cs'" using assms(2) unfolding preprocessed_def by (intro conjI)
  from fetch_range_blocks_spec[OF assms(1) preprocessed_placed[OF pre] preprocessed_heads[OF pre]] show ?thesis
  proof (elim disjE exE conjE)
    fix ns cts assume r: "fetch_range_blocks cfg P (es, cs') = Fetched (sorted_in es ns,
        \<lparr>cursor_transactions = cts, cursors_of = update_timestamps (sorted_in es ns) cs'\<rparr>)"
      and ns: "set ns = blk ` set es \<union> {h. \<exists>(a, c) \<in> set cs'. c_head c = Some h}"
    show ?thesis
    proof (intro disjI2 exI conjI allI impI)
      show "fetch_range cfg P ho cs (latest_hash, latest) = Some (Fetched (sorted_in es ns,
        \<lparr>cursor_transactions = cts, cursors_of = update_timestamps (sorted_in es ns) cs'\<rparr>))" using r f by (simp add: fetch_range_def)
    qed (unfold cursors.simps, rule preprocessed_served[OF pre ns assms(4)])
  qed (auto simp: fetch_range_def f)
qed (auto simp: fetch_range_def)

end

section \<open>Properties\<close>

text \<open>
  C33. Splitting the requests into chunks and retrying them is transparent: \<open>chunked_batch_requests\<close> answers every request, in order, as one
  batch would; it fails only if some chunk has failed in all six attempts.
\<close>

theorem chunked_batch_transparent:
  assumes "rpc P answer" and "0 < batch_chunk_size cfg"
  shows "chunked_batch_requests cfg P reqs =
    (if list_ex (gives_up P) (chunks (batch_chunk_size cfg) reqs) then FetchError BatchRequest else Fetched (map answer reqs))"
  using assms by (rule rpc.chunked_result)

text \<open>
  C31. Every event is fetched exactly once. If the provider behaves as documented, \<open>fetch_range\<close> ends; it either fails because a request
  failed in all attempts, or it moves the cursor of every contract that is behind to a block \<open>T\<close> no further back than before,
  and delivers, in their transactions and in the order of the chain, exactly the events of the contract from the block after its cursor
  to \<open>T\<close> that no preconfirmed block has delivered before. Contracts at the latest block get nothing.
\<close>

theorem fetch_range_exactly_once:
  assumes "block_source P answer cfg latest_hash latest chain ts hash txs txc rcc"
    and "0 < batch_chunk_size cfg" and "al_ok cs" and "hash_order ho" and "\<forall>(a, c) \<in> set cs. \<forall>h. c_head c = Some h \<longrightarrow> h \<le> latest"
  shows "(\<exists>chunk. gives_up P chunk) \<and> fetch_range cfg P ho cs (latest_hash, latest) = Some (FetchError BatchRequest) \<or>
    (\<exists>bs cur. fetch_range cfg P ho cs (latest_hash, latest) = Some (Fetched (bs, cur)) \<and>
      (\<forall>a c. map_of cs a = Some c \<longrightarrow>
        (if c_head c = Some latest
         then map_of (cursors_of cur) a = Some (c\<lparr>c_last_block_timestamp := Some (ts latest)\<rparr>) \<and> (\<forall>n h. delivered_at a bs n h = [])
         else \<exists>T. min (first_block cfg c + blocks_chunk_size cfg) latest \<le> T \<and> T \<le> latest \<and> (\<forall>h. c_head c = Some h \<longrightarrow> h \<le> T) \<and>
           map_of (cursors_of cur) a = Some (advance_cursor T c\<lparr>c_last_block_timestamp := Some (ts T)\<rparr>) \<and>
           (\<forall>n h. delivered_at a bs n h =
              at n h (new_events c (filter (\<lambda>e. first_block cfg c \<le> blk e \<and> blk e \<le> T) (chain a)))))))"
proof -
  have s: "event_source P answer cfg latest_hash latest chain" using assms(1) by (simp add: block_source_def)
  show ?thesis
    using block_source.fetch_range_spec[OF assms(1-5)]
    unfolding block_source.served_def[OF assms(1)] event_source.range_events_def[OF s] .
qed

text \<open>A chain with three events of contract 5 in blocks 1 and 3, served in two pages.\<close>

definition sample_emitted :: "u64 \<Rightarrow> felt \<Rightarrow> emitted_event" where
  "sample_emitted n h = \<lparr>ee_event = \<lparr>e_from_address = 5, e_keys = [h], e_data = []\<rparr>, ee_block_number = Some n, ee_transaction_hash = h\<rparr>"

definition sample_chain :: "felt \<Rightarrow> emitted_event list" where
  "sample_chain a = (if a = 5 then [sample_emitted 1 10, sample_emitted 3 30, sample_emitted 3 31] else [])"

definition sample_txs :: "u64 \<Rightarrow> felt list" where
  "sample_txs n = (if n = 1 then [10] else if n = 3 then [30, 31] else [])"

fun sample_answer :: "request \<Rightarrow> (unit, unit) response" where
  "sample_answer (GetEvents a f _ None _) =
     (let w = filter (\<lambda>e. f \<le> blk e) (sample_chain a) in EventsPage (take 1 w) (if length w > 1 then Some ''next'' else None))"
| "sample_answer (GetEvents a f _ (Some _) _) = EventsPage (drop 1 (filter (\<lambda>e. f \<le> blk e) (sample_chain a))) None"
| "sample_answer (GetBlockWithTxHashes n) = BlockWithTxHashes (Some (n * 10, sample_txs n, 7))"
| "sample_answer (GetTransactionByHash h) = Transaction h ()"
| "sample_answer (GetTransactionReceipt h) = TransactionReceipt h ()"

definition sample_provider :: "(unit, unit) provider" where
  "sample_provider = \<lparr>block_hash_and_number = Inr (99, 4), batch_requests = (\<lambda>_ reqs. Inr (map sample_answer reqs)), get_preconfirmed = Inr None\<rparr>"

definition sample_cursor :: contract_cursor where
  "sample_cursor = \<lparr>c_address = 5, c_head = None, c_last_block_timestamp = None, c_last_pending_block_tx = None\<rparr>"

lemma sample_rpc: "rpc sample_provider sample_answer"
  by unfold_locales (simp add: sample_provider_def)

lemma sample_blk [simp]: "blk (sample_emitted n h) = n"
  by (simp add: blk_def sample_emitted_def)

lemma sample_source:
  "block_source sample_provider sample_answer fetcher_config_default 99 4 sample_chain (\<lambda>n. n * 10) (\<lambda>_. 7) sample_txs (\<lambda>_. ()) (\<lambda>_. ())"
proof (unfold_locales, goal_cases)
  case (5 a f)
  let ?w = "filter (\<lambda>e. f \<le> blk e) (sample_chain a)"
  show ?case
  proof (intro exI conjI)
    show "follows (\<lambda>tok. sample_answer (GetEvents a f 99 tok (events_chunk_size fetcher_config_default))) None
        (if length ?w > 1 then [take 1 ?w, drop 1 ?w] else [?w])" by (auto simp: Let_def)
    show "concat (if length ?w > 1 then [take 1 ?w, drop 1 ?w] else [?w]) = ?w" by simp
  qed
qed (auto simp: sample_provider_def fetcher_config_default_def sample_chain_def sample_txs_def sample_emitted_def blk_def split: if_splits)

interpretation sample_node: block_source sample_provider sample_answer fetcher_config_default 99 4 sample_chain
  "\<lambda>n. n * 10" "\<lambda>_. 7" sample_txs "\<lambda>_. ()" "\<lambda>_. ()"
  by (rule sample_source)

lemma sample_never_gives_up: "\<not> gives_up sample_provider chunk"
  by (auto simp: gives_up_def sample_provider_def)

theorem chunked_batch_transparent_witness:
  "chunked_batch_requests (fetcher_config_default\<lparr>batch_chunk_size := 2\<rparr>) sample_provider
     [GetTransactionByHash 1, GetTransactionByHash 2, GetTransactionByHash 3] = Fetched [Transaction 1 (), Transaction 2 (), Transaction 3 ()]"
  using chunked_batch_transparent[OF sample_rpc, of "fetcher_config_default\<lparr>batch_chunk_size := 2\<rparr>"
      "[GetTransactionByHash 1, GetTransactionByHash 2, GetTransactionByHash 3]"]
  by (simp add: list_ex_iff sample_never_gives_up)

theorem fetch_range_exactly_once_witness:
  "\<exists>bs cur. fetch_range fetcher_config_default sample_provider rev [(5, sample_cursor)] (99, 4) = Some (Fetched (bs, cur)) \<and>
     map_option c_head (map_of (cursors_of cur) 5) = Some (Some 4) \<and> delivered_at 5 bs 3 31 = [ee_event (sample_emitted 3 31)]"
proof -
  have pre: "0 < batch_chunk_size fetcher_config_default" "al_ok [(5 :: felt, sample_cursor)]"
      "\<forall>(a, c) \<in> set [(5 :: felt, sample_cursor)]. \<forall>h. c_head c = Some h \<longrightarrow> h \<le> 4"
    by (simp_all add: fetcher_config_default_def al_ok_def sample_cursor_def)
  let ?F = "\<lambda>T. filter (\<lambda>e. first_block fetcher_config_default sample_cursor \<le> blk e \<and> blk e \<le> T) (sample_chain 5)"
  from fetch_range_exactly_once[OF sample_source pre(1,2) hash_order_id(2) pre(3)] sample_never_gives_up
  obtain bs cur where f: "fetch_range fetcher_config_default sample_provider rev [(5, sample_cursor)] (99, 4) = Some (Fetched (bs, cur))"
    and all: "\<forall>a c. map_of [(5, sample_cursor)] a = Some c \<longrightarrow>
        (if c_head c = Some 4
         then map_of (cursors_of cur) a = Some (c\<lparr>c_last_block_timestamp := Some (4 * 10)\<rparr>) \<and> (\<forall>n h. delivered_at a bs n h = [])
         else \<exists>T. min (first_block fetcher_config_default c + blocks_chunk_size fetcher_config_default) 4 \<le> T \<and> T \<le> 4 \<and>
           (\<forall>h. c_head c = Some h \<longrightarrow> h \<le> T) \<and>
           map_of (cursors_of cur) a = Some (advance_cursor T c\<lparr>c_last_block_timestamp := Some (T * 10)\<rparr>) \<and>
           (\<forall>n h. delivered_at a bs n h =
              at n h (new_events c (filter (\<lambda>e. first_block fetcher_config_default c \<le> blk e \<and> blk e \<le> T) (sample_chain a)))))"
    by (elim disjE exE conjE) (simp, rule that)
  have "map_of [(5, sample_cursor)] 5 = Some sample_cursor" "c_head sample_cursor \<noteq> Some 4" by (simp_all add: sample_cursor_def)
  with all[rule_format, of 5 sample_cursor] have s: "\<exists>T. min (first_block fetcher_config_default sample_cursor + blocks_chunk_size fetcher_config_default) 4 \<le> T \<and> T \<le> 4 \<and>
      (\<forall>h. c_head sample_cursor = Some h \<longrightarrow> h \<le> T) \<and>
      map_of (cursors_of cur) 5 = Some (advance_cursor T sample_cursor\<lparr>c_last_block_timestamp := Some (T * 10)\<rparr>) \<and>
      (\<forall>n h. delivered_at 5 bs n h = at n h (new_events sample_cursor (?F T)))"
    by (simp only: if_False)
  from s obtain T where "T = 4" "map_of (cursors_of cur) 5 = Some (advance_cursor T sample_cursor\<lparr>c_last_block_timestamp := Some (T * 10)\<rparr>)"
      "delivered_at 5 bs 3 31 = at 3 31 (new_events sample_cursor (?F T))"
    by (auto simp: first_block_def sample_cursor_def fetcher_config_default_def)
  then have "map_option c_head (map_of (cursors_of cur) 5) = Some (Some 4)" "delivered_at 5 bs 3 31 = [ee_event (sample_emitted 3 31)]"
    by (simp_all add: sample_chain_def new_events_eq at_def first_block_def sample_cursor_def fetcher_config_default_def)
      (simp add: sample_emitted_def)
  with f show ?thesis by blast
qed

text \<open>
  A cursor can move backwards: if the provider's latest block is behind the head of a contract (a node that lags), a successful fetch sets
  the head back to that block although nothing was delivered, so the blocks in between are fetched, and their events processed, a second time.
\<close>

theorem lagging_provider_rewinds:
  assumes "event_source P answer cfg latest_hash latest chain" and "0 < batch_chunk_size cfg" and "al_ok cs" and "hash_order ho"
    and "\<forall>chunk. \<not> gives_up P chunk"
    and "map_of cs a = Some c" and "c_head c = Some h" and "latest < h" and "unat h + unat (blocks_chunk_size cfg) + 1 < 2 ^ 64"
  shows "\<exists>es cs'. fetch_and_preprocess_events cfg P ho (event_requests cfg (latest_hash, latest) cs) cs latest = Some (Fetched (es, cs')) \<and>
    of_contract a es = [] \<and> map_option c_head (map_of cs' a) = Some (Some latest)"
proof -
  have h: "h \<noteq> 0" "c_head c \<noteq> Some latest" using assms(7,8) by auto
  have fb: "first_block cfg c = h + 1" using assms(7) h by (simp add: first_block_def)
  have s: "unat (h + 1) = unat h + 1" using assms(9) by (simp add: unat_word_ariths)
  have "unat (h + 1 + blocks_chunk_size cfg) = unat h + 1 + unat (blocks_chunk_size cfg)"
    using assms(9) s by (simp add: unat_word_ariths)
  then have "latest \<le> h + 1 + blocks_chunk_size cfg" "latest < h + 1"
    using assms(8) s by (simp_all add: word_le_nat_alt word_less_nat_alt)
  then have t0: "min (first_block cfg c + blocks_chunk_size cfg) latest = latest" and lt: "latest < first_block cfg c"
    by (simp_all add: fb)
  from event_source.fetch_events[OF assms(1-4)] assms(5) obtain es cs' where
      f: "fetch_and_preprocess_events cfg P ho (event_requests cfg (latest_hash, latest) cs) cs latest = Some (Fetched (es, cs'))"
    and sp: "\<forall>a c. map_of cs a = Some c \<longrightarrow>
         (if c_head c = Some latest then map_of cs' a = Some c \<and> of_contract a es = []
          else \<exists>T. min (first_block cfg c + blocks_chunk_size cfg) latest \<le> T \<and> T \<le> latest \<and>
            map_of cs' a = Some (advance_cursor T c) \<and> of_contract a es = new_events c (event_source.range_events cfg chain c a T))"
    by (elim disjE exE conjE) (simp, rule that)
  from sp[rule_format, OF assms(6), unfolded if_not_P[OF h(2)] t0] obtain T where
      T: "latest \<le> T" "T \<le> latest" "map_of cs' a = Some (advance_cursor T c)"
        "of_contract a es = new_events c (event_source.range_events cfg chain c a T)"
    by blast
  have "event_source.range_events cfg chain c a T = []"
    using T(1,2) lt unfolding event_source.range_events_def[OF assms(1)] by (auto simp: filter_empty_conv)
  then have "of_contract a es = []" using T(4) new_events_subset[of c "[]"] by simp
  moreover have "T = latest" using T(1,2) by simp
  ultimately show ?thesis using f T(3) by auto
qed

theorem lagging_provider_rewinds_witness:
  "\<exists>es cs'. fetch_and_preprocess_events fetcher_config_default sample_provider rev
      (event_requests fetcher_config_default (99, 4) [(5, sample_cursor\<lparr>c_head := Some 10\<rparr>)]) [(5, sample_cursor\<lparr>c_head := Some 10\<rparr>)] 4 =
      Some (Fetched (es, cs')) \<and>
    of_contract 5 es = [] \<and> map_option c_head (map_of cs' 5) = Some (Some 4)"
proof -
  have "event_source sample_provider sample_answer fetcher_config_default 99 4 sample_chain"
    using sample_source by (simp add: block_source_def)
  from lagging_provider_rewinds[OF this _ _ hash_order_id(2), of "[(5, sample_cursor\<lparr>c_head := Some 10\<rparr>)]" 5 _ 10]
  show ?thesis by (simp add: sample_never_gives_up fetcher_config_default_def al_ok_def)
qed

end
