(* ===== verification/FetcherPending.thy ===== *)
theory FetcherPending
  imports FetcherSpec
begin

text \<open>
  Preconfirmed blocks (\<open>fetch_preconfirmed_block\<close>, \<open>json_rpc.rs\<close>): the transactions of a block that is still growing are delivered as they
  come; the cursor remembers the last one, so that neither the next look at the growing block nor the range that later contains the
  finished block delivers an event again.
\<close>

section \<open>One look at the block\<close>

definition own_events :: "felt \<Rightarrow> ('tx, 'r) preconf_tx \<Rightarrow> event list" where
  "own_events a t = filter (\<lambda>e. e_from_address e = a) (pt_events t)"

definition live :: "felt \<Rightarrow> ('tx, 'r) preconf_tx list \<Rightarrow> ('tx, 'r) preconf_tx list" where
  "live a ts = filter (\<lambda>t. \<not> pt_reverted t \<and> own_events a t \<noteq> []) ts"

definition add_events ::
  "felt \<Rightarrow> ('tx, 'r) preconf_tx \<Rightarrow> (felt \<times> ('tx, 'r) fetch_transaction) list \<Rightarrow> (felt \<times> ('tx, 'r) fetch_transaction) list" where
  "add_events a t = al_modify (pt_hash t) (\<lambda>x. x\<lparr>ft_events := ft_events x @ own_events a t\<rparr>)"

definition seen_until :: "felt \<Rightarrow> u64 \<Rightarrow> ('tx, 'r) preconf_tx list \<Rightarrow> contract_cursor \<Rightarrow> contract_cursor" where
  "seen_until a stamp ts c = (if live a ts = [] then c
     else c\<lparr>c_last_pending_block_tx := Some (pt_hash (last (live a ts))), c_last_block_timestamp := Some stamp\<rparr>)"

lemma keys_add_events [simp]: "map fst (add_events a t txm) = map fst txm"
  by (simp add: add_events_def)

lemma live_simps [simp]:
  "live a [] = []" "live a (t # ts) = (if \<not> pt_reverted t \<and> own_events a t \<noteq> [] then t # live a ts else live a ts)"
  "live a (ts @ us) = live a ts @ live a us"
  by (simp_all add: live_def)

lemma preconf_loop_none:
  "distinct (map pt_hash ts) \<Longrightarrow> \<forall>t \<in> set ts. c_last_pending_block_tx c \<noteq> Some (pt_hash t) \<Longrightarrow> pt_hash ` set ts \<subseteq> fst ` set txm \<Longrightarrow>
   \<exists>cts'. preconf_loop a stamp None ts (txm, cts, c) = Some (fold (add_events a) (live a ts) txm, cts', seen_until a stamp ts c)"
proof (induction ts arbitrary: txm cts c)
  case Nil
  then show ?case by (simp add: seen_until_def)
next
  case (Cons t ts)
  show ?case
  proof (cases "pt_reverted t \<or> own_events a t = []")
    case True
    with Cons.IH[of c txm cts] Cons.prems show ?thesis by (auto simp: own_events_def seen_until_def)
  next
    case False
    let ?c = "c\<lparr>c_last_pending_block_tx := Some (pt_hash t), c_last_block_timestamp := Some stamp\<rparr>"
    let ?cts = "al_upsert a (insert (pt_hash t)) {pt_hash t} cts"
    have "pt_hash t \<in> fst ` set txm" using Cons.prems(3) by simp
    then obtain x where x: "map_of txm (pt_hash t) = Some x" by (metis map_of_eq_None_iff not_None_eq)
    have "fst ` set (add_events a t txm) = fst ` set txm" by (metis keys_add_events set_map)
    then obtain cts' where "preconf_loop a stamp None ts (add_events a t txm, ?cts, ?c) =
        Some (fold (add_events a) (live a ts) (add_events a t txm), cts', seen_until a stamp ts ?c)"
      using Cons.IH[of ?c "add_events a t txm" ?cts] Cons.prems by auto
    moreover have "seen_until a stamp ts ?c = seen_until a stamp (t # ts) c" using False by (simp add: seen_until_def)
    moreover have "c_last_pending_block_tx c \<noteq> Some (pt_hash t)" using Cons.prems(2) by simp
    ultimately show ?thesis using False x by (simp add: own_events_def[of a t] add_events_def[of a t])
  qed
qed

lemma preconf_loop_resume:
  "\<forall>t \<in> set before. pt_hash t \<noteq> h \<Longrightarrow> pt_hash t0 = h \<Longrightarrow> c_last_pending_block_tx c = Some h \<Longrightarrow>
   preconf_loop a stamp (Some h) (before @ t0 # ts) (txm, cts, c) = preconf_loop a stamp None ts (txm, cts, c)"
  by (induction before) auto

section \<open>The events of a transaction\<close>

definition events_of :: "(felt \<times> ('tx, 'r) fetch_transaction) list \<Rightarrow> felt \<Rightarrow> event list" where
  "events_of txm h = (case map_of txm h of None \<Rightarrow> [] | Some x \<Rightarrow> ft_events x)"

definition own_of :: "felt \<Rightarrow> ('tx, 'r) preconf_tx list \<Rightarrow> felt \<Rightarrow> event list" where
  "own_of a ts h = concat (map (own_events a) (filter (\<lambda>t. pt_hash t = h \<and> \<not> pt_reverted t) ts))"

lemma own_of_live: "own_of a (live a ts) h = own_of a ts h"
  by (induction ts) (auto simp: own_of_def)

lemma events_of_fold:
  "pt_hash ` set ts \<subseteq> fst ` set txm \<Longrightarrow> \<forall>t \<in> set ts. \<not> pt_reverted t \<Longrightarrow>
   events_of (fold (add_events a) ts txm) h = events_of txm h @ own_of a ts h"
proof (induction ts arbitrary: txm)
  case Nil
  then show ?case by (simp add: own_of_def)
next
  case (Cons t ts)
  have "fst ` set (add_events a t txm) = fst ` set txm" by (metis keys_add_events set_map)
  with Cons have "events_of (fold (add_events a) ts (add_events a t txm)) h = events_of (add_events a t txm) h @ own_of a ts h" by simp
  moreover have "map_of txm (pt_hash t) \<noteq> None" using Cons.prems(1) by (simp add: map_of_eq_None_iff)
  then have "events_of (add_events a t txm) h = events_of txm h @ (if h = pt_hash t then own_events a t else [])"
    by (auto simp: events_of_def add_events_def split: option.split)
  ultimately show ?case using Cons.prems(2) by (auto simp: own_of_def)
qed

lemma events_of_live:
  assumes "pt_hash ` set ts \<subseteq> fst ` set txm"
  shows "events_of (fold (add_events a) (live a ts) txm) h = events_of txm h @ own_of a ts h"
proof -
  have "pt_hash ` set (live a ts) \<subseteq> fst ` set txm" "\<forall>t \<in> set (live a ts). \<not> pt_reverted t"
    using assms by (auto simp: live_def)
  from events_of_fold[OF this, of a h] show ?thesis by (simp add: own_of_live)
qed

section \<open>The finished block\<close>

text \<open>The events of the contract as they are in the chain once the block is finished; reverted transactions emit nothing.\<close>

definition mined :: "felt \<Rightarrow> u64 \<Rightarrow> ('tx, 'r) preconf_tx list \<Rightarrow> emitted_event list" where
  "mined a n ts = concat (map (\<lambda>t. if pt_reverted t then []
     else map (\<lambda>e. \<lparr>ee_event = e, ee_block_number = Some n, ee_transaction_hash = pt_hash t\<rparr>) (own_events a t)) ts)"

lemma mined_append [simp]: "mined a n (ts @ us) = mined a n ts @ mined a n us"
  by (simp add: mined_def)

lemma mined_Cons: "mined a n (t # ts) = mined a n [t] @ mined a n ts"
  by (simp add: mined_def)

lemma mined_dead: "live a ts = [] \<Longrightarrow> mined a n ts = []"
  by (induction ts) (auto simp: mined_def split: if_splits)

lemma mined_hashes: "e \<in> set (mined a n ts) \<Longrightarrow> ee_transaction_hash e \<in> pt_hash ` set ts"
  by (auto simp: mined_def split: if_splits)

text \<open>A list that has a live transaction splits at the last one.\<close>

lemma last_live_split:
  assumes "live a ts \<noteq> []"
  obtains before t after where "ts = before @ t # after" "last (live a ts) = t" "live a after = []" "\<not> pt_reverted t" "own_events a t \<noteq> []"
proof -
  have "\<exists>t \<in> set ts. \<not> pt_reverted t \<and> own_events a t \<noteq> []"
    using assms by (auto simp: live_def filter_empty_conv)
  then obtain before t after where s: "ts = before @ t # after" "\<not> pt_reverted t \<and> own_events a t \<noteq> []"
      "\<forall>t \<in> set after. \<not> (\<not> pt_reverted t \<and> own_events a t \<noteq> [])"
    using split_list_last_prop[of ts "\<lambda>t. \<not> pt_reverted t \<and> own_events a t \<noteq> []"] by blast
  then have "live a after = []" by (auto simp: live_def filter_empty_conv)
  moreover from this s have "last (live a ts) = t" by simp
  ultimately show ?thesis using s that by blast
qed

lemma distinct_hashes:
  assumes "distinct (map pt_hash (before @ t # after))"
  shows "pt_hash t \<notin> pt_hash ` set before" "pt_hash t \<notin> pt_hash ` set after"
  using assms by auto

lemma new_events_after_look:
  assumes "distinct (map pt_hash (ts @ us))" and "c_last_pending_block_tx c = None"
    and "\<forall>e \<in> set later. ee_transaction_hash e \<notin> pt_hash ` set ts"
  shows "new_events (seen_until a stamp ts c) (mined a n (ts @ us) @ later) = mined a n us @ later"
proof (cases "live a ts = []")
  case True
  then show ?thesis using assms(2) by (simp add: seen_until_def new_events_eq mined_dead)
next
  case False
  obtain before t after where s: "ts = before @ t # after" "last (live a ts) = t" "live a after = []" "\<not> pt_reverted t" "own_events a t \<noteq> []"
    using last_live_split[OF False] .
  let ?h = "pt_hash t" and ?m = "mined a n [t]" and ?rest = "mined a n us @ later"
  have m: "mined a n (ts @ us) @ later = mined a n before @ ?m @ ?rest"
    by (simp add: s(1) mined_Cons[of a n t "after @ us"] mined_dead[OF s(3)])
  have d: "distinct (map pt_hash (before @ t # after @ us))" using assms(1) by (simp add: s(1))
  have before: "\<forall>e \<in> set (mined a n before). ee_transaction_hash e \<noteq> ?h"
    using distinct_hashes(1)[OF d] by (metis mined_hashes)
  have "\<forall>e \<in> set (mined a n us). ee_transaction_hash e \<noteq> ?h"
    using distinct_hashes(2)[OF d] mined_hashes[of _ a n us] by (metis UnCI image_Un set_append)
  with assms(3) have rest: "\<forall>e \<in> set ?rest. ee_transaction_hash e \<noteq> ?h" by (auto simp: s(1))
  have own: "\<forall>e \<in> set ?m. ee_transaction_hash e = ?h" "?m \<noteq> []" using s(4,5) by (auto simp: mined_def)
  have "c_last_pending_block_tx (seen_until a stamp ts c) = Some ?h" using False s(2) by (simp add: seen_until_def)
  moreover have "\<exists>e \<in> set (mined a n before @ ?m @ ?rest). ee_transaction_hash e = ?h" using own by (cases ?m) auto
  moreover have "dropWhile (\<lambda>e. ee_transaction_hash e \<noteq> ?h) (mined a n before @ ?m @ ?rest) = ?m @ ?rest"
    using before own by (cases ?m) (auto simp: dropWhile_append)
  moreover have "filter (\<lambda>e. ee_transaction_hash e \<noteq> ?h) (?m @ ?rest) = ?rest"
    using rest own(1) by (auto simp: filter_id_conv filter_empty_conv)
  ultimately show ?thesis unfolding m by (simp add: new_events_eq)
qed

text \<open>The next look at the block after it has grown.\<close>

lemma next_look:
  assumes "distinct (map pt_hash (ts @ us))" and "c_last_pending_block_tx c = None" and "pt_hash ` set (ts @ us) \<subseteq> fst ` set txm"
  shows "\<exists>txm2 cts2 c2. preconf_loop a stamp' (c_last_pending_block_tx (seen_until a stamp ts c)) (ts @ us) (txm, cts, seen_until a stamp ts c) =
      Some (txm2, cts2, c2) \<and> (\<forall>h. events_of txm2 h = events_of txm h @ own_of a us h)"
proof (cases "live a ts = []")
  case True
  then have c: "seen_until a stamp ts c = c" by (simp add: seen_until_def)
  obtain cts2 where "preconf_loop a stamp' None (ts @ us) (txm, cts, c) =
      Some (fold (add_events a) (live a (ts @ us)) txm, cts2, seen_until a stamp' (ts @ us) c)"
    using preconf_loop_none[of "ts @ us" c txm a stamp' cts] assms by auto
  moreover have "pt_hash ` set us \<subseteq> fst ` set txm" using assms(3) by auto
  ultimately show ?thesis using events_of_live[of us txm a] assms(2) by (auto simp: c True)
next
  case False
  let ?c = "seen_until a stamp ts c"
  obtain before t after where s: "ts = before @ t # after" "last (live a ts) = t" "live a after = []" using last_live_split[OF False] by metis
  have d: "distinct (map pt_hash (before @ t # after @ us))" using assms(1) by (simp add: s(1))
  have c: "c_last_pending_block_tx ?c = Some (pt_hash t)" using False s(2) by (simp add: seen_until_def)
  have "\<forall>t' \<in> set before. pt_hash t' \<noteq> pt_hash t" using distinct_hashes(1)[OF d] by (metis image_eqI)
  from preconf_loop_resume[OF this refl c, of a stamp' "after @ us" txm cts]
  have "preconf_loop a stamp' (Some (pt_hash t)) (ts @ us) (txm, cts, ?c) = preconf_loop a stamp' None (after @ us) (txm, cts, ?c)"
    unfolding s(1) by simp
  moreover have "pt_hash ` set (after @ us) \<subseteq> fst ` set txm" using assms(3) by (auto simp: s(1))
  then obtain cts2 where "preconf_loop a stamp' None (after @ us) (txm, cts, ?c) =
      Some (fold (add_events a) (live a (after @ us)) txm, cts2, seen_until a stamp' (after @ us) ?c)"
    using preconf_loop_none[of "after @ us" ?c txm a stamp' cts] distinct_hashes(2)[OF d] d c by auto
  moreover have "pt_hash ` set us \<subseteq> fst ` set txm" using assms(3) by auto
  ultimately show ?thesis using events_of_live[of us txm a] by (auto simp: c s(3))
qed

section \<open>Properties\<close>

text \<open>
  C32. The events of a growing block are delivered exactly once. A look at the block with transactions \<open>ts\<close> delivers the events of the contract in
  them. If the block has grown by \<open>us\<close>, the next look delivers exactly the events of \<open>us\<close>; and if the block was finished instead, the range that
  contains it delivers exactly the events of \<open>us\<close> and of the later blocks. No look panics.
\<close>

theorem preconfirmed_exactly_once:
  assumes "distinct (map pt_hash (ts @ us))" and "c_last_pending_block_tx c = None"
    and "pt_hash ` set ts \<subseteq> fst ` set txm" and "pt_hash ` set (ts @ us) \<subseteq> fst ` set txm'"
    and "\<forall>e \<in> set later. ee_transaction_hash e \<notin> pt_hash ` set ts"
  shows "\<exists>txm1 cts1 c1. preconf_loop a stamp (c_last_pending_block_tx c) ts (txm, cts, c) = Some (txm1, cts1, c1) \<and> c_head c1 = c_head c \<and>
    (\<forall>h. events_of txm1 h = events_of txm h @ own_of a ts h) \<and>
    new_events c1 (mined a n (ts @ us) @ later) = mined a n us @ later \<and>
    (\<exists>txm2 cts2 c2. preconf_loop a stamp' (c_last_pending_block_tx c1) (ts @ us) (txm', cts', c1) = Some (txm2, cts2, c2) \<and>
       (\<forall>h. events_of txm2 h = events_of txm' h @ own_of a us h))"
proof -
  obtain cts1 where "preconf_loop a stamp None ts (txm, cts, c) = Some (fold (add_events a) (live a ts) txm, cts1, seen_until a stamp ts c)"
    using preconf_loop_none[of ts c txm a stamp cts] assms(1-3) by auto
  moreover have "c_head (seen_until a stamp ts c) = c_head c" by (simp add: seen_until_def)
  ultimately show ?thesis
    using new_events_after_look[OF assms(1,2,5), of a stamp n] events_of_live[OF assms(3), of a]
      next_look[OF assms(1,2,4), of a stamp' stamp cts'] assms(2) by simp
qed

definition sample_preconf :: "felt \<Rightarrow> (unit, unit) preconf_tx" where
  "sample_preconf h = \<lparr>pt_hash = h, pt_reverted = False, pt_events = [\<lparr>e_from_address = 5, e_keys = [h], e_data = []\<rparr>],
     pt_transaction = (), pt_receipt = ()\<rparr>"

definition sample_pending :: contract_cursor where
  "sample_pending = \<lparr>c_address = 5, c_head = Some 4, c_last_block_timestamp = None, c_last_pending_block_tx = None\<rparr>"

definition sample_txm :: "felt list \<Rightarrow> (felt \<times> (unit, unit) fetch_transaction) list" where
  "sample_txm hs = fold (\<lambda>t. al_insert (pt_hash t) (preconf_transaction fetcher_config_default t)) (map sample_preconf hs) []"

theorem preconfirmed_exactly_once_witness:
  "\<exists>txm1 cts1 c1. preconf_loop 5 100 None [sample_preconf 10] (sample_txm [10], [], sample_pending) = Some (txm1, cts1, c1) \<and>
     new_events c1 (mined 5 5 ([sample_preconf 10] @ [sample_preconf 11]) @ []) = mined 5 5 [sample_preconf 11] @ []"
proof -
  have 1: "distinct (map pt_hash ([sample_preconf 10] @ [sample_preconf 11]))" "c_last_pending_block_tx sample_pending = None"
    by (simp_all add: sample_preconf_def sample_pending_def)
  have 2: "pt_hash ` set [sample_preconf 10] \<subseteq> fst ` set (sample_txm [10])"
      "pt_hash ` set ([sample_preconf 10] @ [sample_preconf 11]) \<subseteq> fst ` set (sample_txm [10, 11])"
    by (simp_all add: sample_txm_def sample_preconf_def al_insert_def)
  have 3: "\<forall>e \<in> set []. ee_transaction_hash e \<notin> pt_hash ` set [sample_preconf 10]" by simp
  from preconfirmed_exactly_once[OF 1 2 3, of 5 100 "[]" 5 200 "[]"] show ?thesis unfolding 1(2) by blast
qed

end
