(* ===== verification/EventId.thy ===== *)
theory EventId
  imports Prelude
begin

text \<open>
  Event identifiers and world-scoped identifiers (\<open>crates/storage/src/utils.rs\<close>): numbers in hexadecimal, joined by colons.

  The formatting of \<open>u64\<close> with \<open>{:#064x}\<close> and \<open>{:#04x}\<close> and \<open>u64::from_str_radix\<close> are the language's and are modelled here. How a field
  element is written and read is code of another package: the parameter \<open>felt_text\<close>, with the documented behaviour in the locale \<open>felt_format\<close>.
\<close>

section \<open>Hexadecimal numbers\<close>

definition hex_digit :: "nat \<Rightarrow> char" where
  "hex_digit d = ''0123456789abcdef'' ! d"

function hex_digits :: "nat \<Rightarrow> string" where
  "hex_digits n = (if n < 16 then [hex_digit n] else hex_digits (n div 16) @ [hex_digit (n mod 16)])"
  by pat_completeness auto
termination by (relation "measure id") auto

declare hex_digits.simps [simp del]

text \<open>\<open>{:#0wx}\<close>: the prefix counts towards the width.\<close>

definition hex_padded :: "nat \<Rightarrow> u64 \<Rightarrow> string" where
  "hex_padded w n = (let ds = hex_digits (unat n) in ''0x'' @ replicate (w - 2 - length ds) (CHR ''0'') @ ds)"

definition digit_value :: "char \<Rightarrow> nat option" where
  "digit_value c =
     (let k = of_char c :: nat in
      if 48 \<le> k \<and> k \<le> 57 then Some (k - 48)
      else if 97 \<le> k \<and> k \<le> 102 then Some (k - 87)
      else if 65 \<le> k \<and> k \<le> 70 then Some (k - 55)
      else None)"

fun digits_value :: "nat \<Rightarrow> string \<Rightarrow> nat option" where
  "digits_value acc [] = Some acc"
| "digits_value acc (c # cs) = (case digit_value c of None \<Rightarrow> None | Some d \<Rightarrow> digits_value (16 * acc + d) cs)"

text \<open>\<open>u64::from_str_radix(s, 16)\<close>: an empty string, a bare sign, a digit that is none and a value that does not fit are errors.\<close>

definition from_str_radix16 :: "string \<Rightarrow> u64 option" where
  "from_str_radix16 s =
     (let ds = (case s of c # cs \<Rightarrow> if c = CHR ''+'' then cs else s | [] \<Rightarrow> []) in
      if ds = [] then None
      else case digits_value 0 ds of None \<Rightarrow> None | Some n \<Rightarrow> if n < 2 ^ 64 then Some (of_nat n) else None)"

fun trim_0x :: "string \<Rightarrow> string" where
  "trim_0x (a # b # s) = (if a = CHR ''0'' \<and> b = CHR ''x'' then trim_0x s else a # b # s)"
| "trim_0x s = s"

fun split_colon :: "string \<Rightarrow> string list" where
  "split_colon [] = [[]]"
| "split_colon (c # s) =
     (if c = CHR '':'' then [] # split_colon s
      else case split_colon s of p # ps \<Rightarrow> (c # p) # ps | [] \<Rightarrow> [[c]])"

section \<open>Identifiers\<close>

record felt_text =
  felt_hex :: "felt \<Rightarrow> string"
  felt_from_str :: "string \<Rightarrow> felt option"

definition format_event_id :: "felt_text \<Rightarrow> u64 \<Rightarrow> felt \<Rightarrow> felt \<Rightarrow> u64 \<Rightarrow> string" where
  "format_event_id F block_number transaction_hash contract_address event_idx =
     hex_padded 64 block_number @ '':'' @ felt_hex F transaction_hash @ '':'' @ felt_hex F contract_address @ '':'' @
     hex_padded 4 event_idx"

text \<open>Indexing past the parts and the \<open>unwrap\<close>s panic: \<open>None\<close>.\<close>

definition parse_event_id :: "felt_text \<Rightarrow> string \<Rightarrow> (u64 \<times> felt \<times> felt \<times> u64) option" where
  "parse_event_id F event_id =
     (let parts = split_colon event_id in
      if length parts < 4 then None
      else case (from_str_radix16 (trim_0x (parts ! 0)), felt_from_str F (parts ! 1), felt_from_str F (parts ! 2),
                 from_str_radix16 (trim_0x (parts ! 3))) of
             (Some n, Some t, Some a, Some i) \<Rightarrow> Some (n, t, a, i)
           | _ \<Rightarrow> None)"

definition format_world_scoped_id :: "felt_text \<Rightarrow> felt \<Rightarrow> felt \<Rightarrow> string" where
  "format_world_scoped_id F world_address selector = felt_hex F world_address @ '':'' @ felt_hex F selector"

datatype scoped_id_error = InvalidFormat | FromStrError

definition parse_world_scoped_id :: "felt_text \<Rightarrow> string \<Rightarrow> scoped_id_error + felt \<times> felt" where
  "parse_world_scoped_id F scoped_id =
     (let parts = split_colon scoped_id in
      if length parts \<noteq> 2 then Inl InvalidFormat
      else case felt_from_str F (parts ! 0) of
             None \<Rightarrow> Inl FromStrError
           | Some w \<Rightarrow> (case felt_from_str F (parts ! 1) of None \<Rightarrow> Inl FromStrError | Some s \<Rightarrow> Inr (w, s)))"

section \<open>Lemmas\<close>

lemma digit_value_hex: "d < 16 \<Longrightarrow> digit_value (hex_digit d) = Some d"
proof -
  have "\<forall>d \<in> set [0..<16]. digit_value (hex_digit d) = Some d" by code_simp
  then show "d < 16 \<Longrightarrow> digit_value (hex_digit d) = Some d" by simp
qed

lemma hex_digit_plain: "d < 16 \<Longrightarrow> hex_digit d \<noteq> CHR '':'' \<and> hex_digit d \<noteq> CHR ''x'' \<and> hex_digit d \<noteq> CHR ''+''"
proof -
  have "\<forall>d \<in> set [0..<16]. hex_digit d \<noteq> CHR '':'' \<and> hex_digit d \<noteq> CHR ''x'' \<and> hex_digit d \<noteq> CHR ''+''" by code_simp
  then show "d < 16 \<Longrightarrow> hex_digit d \<noteq> CHR '':'' \<and> hex_digit d \<noteq> CHR ''x'' \<and> hex_digit d \<noteq> CHR ''+''" by simp
qed

definition plain :: "string \<Rightarrow> bool" where
  "plain s = (\<forall>c \<in> set s. c \<noteq> CHR '':'' \<and> c \<noteq> CHR ''x'' \<and> c \<noteq> CHR ''+'')"

lemma plain_append [simp]: "plain (s @ t) \<longleftrightarrow> plain s \<and> plain t"
  by (auto simp: plain_def)

lemma plain_zeros [simp]: "plain (replicate k (CHR ''0''))"
  by (simp add: plain_def)

lemma plain_no_colon: "plain s \<Longrightarrow> CHR '':'' \<notin> set s"
  by (auto simp: plain_def)

lemma digits_value_append: "digits_value acc (s @ t) = (case digits_value acc s of None \<Rightarrow> None | Some v \<Rightarrow> digits_value v t)"
  by (induction s arbitrary: acc) (auto split: option.split)

lemma digits_value_zeros [simp]: "digits_value 0 (replicate k (CHR ''0'')) = Some 0"
  by (induction k) (simp_all add: digit_value_def)

lemma hex_digits_spec: "hex_digits n \<noteq> [] \<and> digits_value 0 (hex_digits n) = Some n \<and> plain (hex_digits n)"
proof (induction n rule: hex_digits.induct)
  case (1 n)
  show ?case
  proof (cases "n < 16")
    case True
    then show ?thesis by (subst (1 2 3) hex_digits.simps) (simp add: digit_value_hex hex_digit_plain plain_def)
  next
    case False
    with 1 show ?thesis
      by (subst (1 2 3) hex_digits.simps) (simp add: digits_value_append digit_value_hex hex_digit_plain plain_def mult.commute)
  qed
qed

lemma trim_plain: "plain s \<Longrightarrow> trim_0x s = s"
  by (cases s rule: trim_0x.cases) (auto simp: plain_def)

lemma radix_plain:
  "plain s \<Longrightarrow> s \<noteq> [] \<Longrightarrow> digits_value 0 s = Some n \<Longrightarrow> n < 2 ^ 64 \<Longrightarrow> from_str_radix16 s = Some (of_nat n)"
  by (cases s) (simp_all add: from_str_radix16_def plain_def)

lemma hex_padded_reads: "from_str_radix16 (trim_0x (hex_padded w n)) = Some n"
proof -
  let ?z = "replicate (w - 2 - length (hex_digits (unat n))) (CHR ''0'') @ hex_digits (unat n)"
  have p: "plain ?z" "?z \<noteq> []" using hex_digits_spec[of "unat n"] by simp_all
  then have t: "trim_0x (hex_padded w n) = ?z" by (simp add: hex_padded_def Let_def trim_plain)
  have "digits_value 0 ?z = Some (unat n)" using hex_digits_spec[of "unat n"] by (simp add: digits_value_append)
  moreover have "unat n < 2 ^ LENGTH(64)" by (rule unsigned_less)
  ultimately have "from_str_radix16 ?z = Some (of_nat (unat n))" using p by (intro radix_plain) simp_all
  then show ?thesis unfolding t by simp
qed

lemma split_colon_part: "CHR '':'' \<notin> set s \<Longrightarrow> split_colon (s @ CHR '':'' # t) = s # split_colon t"
  by (induction s) auto

lemma split_colon_last: "CHR '':'' \<notin> set s \<Longrightarrow> split_colon s = [s]"
  by (induction s) auto

lemma hex_padded_no_colon: "CHR '':'' \<notin> set (hex_padded w n)"
  using hex_digits_spec[of "unat n"] by (simp add: hex_padded_def Let_def plain_no_colon)

locale felt_format =
  fixes F :: felt_text
  assumes reads_back: "felt_from_str F (felt_hex F x) = Some x"
    and no_colon: "CHR '':'' \<notin> set (felt_hex F x)"
begin

lemma event_id_parts:
  "split_colon (format_event_id F n t a i) = [hex_padded 64 n, felt_hex F t, felt_hex F a, hex_padded 4 i]"
  by (simp add: format_event_id_def split_colon_part split_colon_last hex_padded_no_colon no_colon)

lemma parse_format: "parse_event_id F (format_event_id F n t a i) = Some (n, t, a, i)"
  by (simp add: parse_event_id_def event_id_parts hex_padded_reads reads_back)

lemma scoped_parse_format: "parse_world_scoped_id F (format_world_scoped_id F w s) = Inr (w, s)"
  by (simp add: parse_world_scoped_id_def format_world_scoped_id_def split_colon_part split_colon_last no_colon reads_back Let_def)

end

text \<open>Field elements in hexadecimal without padding satisfy the interface.\<close>

definition hex_text :: felt_text where
  "hex_text = \<lparr>felt_hex = (\<lambda>x. ''0x'' @ hex_digits x), felt_from_str = (\<lambda>s. digits_value 0 (trim_0x s))\<rparr>"

interpretation hex_felts: felt_format hex_text
proof unfold_locales
  fix x
  show "felt_from_str hex_text (felt_hex hex_text x) = Some x"
    using hex_digits_spec[of x] by (simp add: hex_text_def trim_plain)
  show "CHR '':'' \<notin> set (felt_hex hex_text x)" using hex_digits_spec[of x] by (simp add: hex_text_def plain_no_colon)
qed

section \<open>Properties\<close>

text \<open>
  C34. Identifiers are read back as they were written: \<open>parse_event_id\<close> inverts \<open>format_event_id\<close> without panicking, for every block number,
  transaction, contract and index, and \<open>parse_world_scoped_id\<close> inverts \<open>format_world_scoped_id\<close>; so distinct events and distinct scoped
  identifiers never get the same text.
\<close>

theorem identifiers_round_trip:
  assumes "felt_format F"
  shows "parse_event_id F (format_event_id F n t a i) = Some (n, t, a, i) \<and>
    parse_world_scoped_id F (format_world_scoped_id F w s) = Inr (w, s) \<and>
    (format_event_id F n t a i = format_event_id F n' t' a' i' \<longleftrightarrow> n = n' \<and> t = t' \<and> a = a' \<and> i = i')"
proof -
  have "format_event_id F n t a i = format_event_id F n' t' a' i' \<Longrightarrow> Some (n, t, a, i) = Some (n', t', a', i')"
    using felt_format.parse_format[OF assms] by metis
  then show ?thesis using felt_format.parse_format[OF assms] felt_format.scoped_parse_format[OF assms] by auto
qed

theorem identifiers_round_trip_witness:
  "parse_event_id hex_text (format_event_id hex_text 18446744073709551615 255 48879 7) = Some (18446744073709551615, 255, 48879, 7)"
  using identifiers_round_trip[OF hex_felts.felt_format_axioms, of 18446744073709551615 255 48879 7] by blast

end
