(* ===== verification/Engine.thy ===== *)
theory Engine
  imports TaskManager Fetcher EventId
begin

text \<open>
  The engine of \<open>crates/indexer/engine/src/engine.rs\<close>: it fetches a batch, sorts its events into tasks, runs the tasks, applies the balance
  diffs, moves the cursors and commits; when processing fails it rolls back and tries the same batch again.

  Storage and cache are behind the traits of \<open>crates/storage/src/lib.rs\<close> and \<open>crates/cache/src/lib.rs\<close>: the record \<open>engine_services\<close> has
  the calls the engine makes of them, which act on the shared state, and the processors of blocks, transactions and of events without a processor of
  their own. The synchronisation of controllers in the background, metrics and logs are left out. Running the tasks is a relation, since
  the runtime chooses the interleaving.
\<close>

section \<open>Errors and services\<close>

datatype process_error =
  ProcProvider string
| ProcProcessors processor_error
| ProcCache string
| ProcStorage string

datatype engine_error =
  EngFetcher fetch_error
| EngProcess process_error
| EngCache string
| EngStorage string
| EngProvider string

datatype 'a processing = EOk 'a | EErr process_error | EPanic

record 'tx transaction_context =
  tc_block_number :: u64
  tc_block_timestamp :: u64
  tc_transaction_hash :: felt
  tc_transaction :: 'tx
  tc_contract_addresses :: "felt set"
  tc_unique_models :: "felt set"

record ('tx, 'r, 'b, 's) engine_services =
  sv_contracts :: "'s \<Rightarrow> string + contract list"
  sv_store_event :: "string \<Rightarrow> event \<Rightarrow> felt \<Rightarrow> u64 \<Rightarrow> 's \<Rightarrow> (string + unit) \<times> 's"
  sv_store_receipt :: "'r \<Rightarrow> u64 \<Rightarrow> 's \<Rightarrow> (string + unit) \<times> 's"
  sv_diffs :: "'s \<Rightarrow> 'b"
  sv_apply_balances_diff :: "'b \<Rightarrow> (felt \<times> contract_cursor) list \<Rightarrow> 's \<Rightarrow> (string + unit) \<times> 's"
  sv_clear_balances_diff :: "'s \<Rightarrow> 's"
  sv_update_cursors :: "cursors \<Rightarrow> 's \<Rightarrow> (string + unit) \<times> 's"
  sv_execute :: "'s \<Rightarrow> (string + unit) \<times> 's"
  sv_rollback :: "'s \<Rightarrow> (string + unit) \<times> 's"
  sv_reset :: "'s \<Rightarrow> (string + unit) \<times> 's"
  sv_block_processors :: "(u64 \<Rightarrow> u64 \<Rightarrow> 's \<Rightarrow> unit completion \<times> 's) list"
  sv_transaction_processors :: "('tx transaction_context \<Rightarrow> 's \<Rightarrow> unit completion \<times> 's) list"
  sv_catch_all_validate :: "event \<Rightarrow> bool"
  sv_catch_all_process :: "event_processor_context \<Rightarrow> 's \<Rightarrow> unit completion \<times> 's"

text \<open>What an engine is built from. \<open>selector\<close> is the macro \<open>selector!\<close> of the Starknet library.\<close>

record ('tx, 'r, 'b, 'l, 's) engine_env =
  en_services :: "('tx, 'r, 'b, 's) engine_services"
  en_processors :: "('l, 's) processor_map"
  en_config :: event_processor_config
  en_raw_events :: bool
  en_fetcher :: fetcher_config
  en_max_tasks :: nat
  en_show_error :: "processor_error \<Rightarrow> boxed_error"
  en_petgraph :: petgraph
  en_task_order :: "task_id list \<Rightarrow> task_id list"
  en_node_order :: "nat list \<Rightarrow> nat list"
  en_batch_order :: "contract_event_batch list \<Rightarrow> contract_event_batch list"
  en_insert :: lh_insert
  en_text :: felt_text
  en_selector :: "string \<Rightarrow> felt"

definition DOJO_RELATED_EVENTS :: "(string \<Rightarrow> felt) \<Rightarrow> felt set" where
  "DOJO_RELATED_EVENTS sel = sel ` {''StoreSetRecord'', ''StoreUpdateRecord'', ''StoreDelRecord'', ''StoreUpdateMember'', ''EventEmitted''}"

section \<open>Steps of the engine\<close>

record 's engine_state =
  eng_shared :: 's
  eng_tasks :: task_manager

type_synonym ('s, 'a) engine_step = "'s engine_state \<Rightarrow> 'a processing \<times> 's engine_state"

definition eok :: "'a \<Rightarrow> ('s, 'a) engine_step" where
  "eok a st = (EOk a, st)"

definition epanic :: "('s, 'a) engine_step" where
  "epanic st = (EPanic, st)"

definition ebind :: "('s, 'a) engine_step \<Rightarrow> ('a \<Rightarrow> ('s, 'b) engine_step) \<Rightarrow> ('s, 'b) engine_step" where
  "ebind m f st = (case m st of (EOk a, st') \<Rightarrow> f a st' | (EErr e, st') \<Rightarrow> (EErr e, st') | (EPanic, st') \<Rightarrow> (EPanic, st'))"

fun efor :: "('a \<Rightarrow> ('s, unit) engine_step) \<Rightarrow> 'a list \<Rightarrow> ('s, unit) engine_step" where
  "efor f [] = eok ()"
| "efor f (x # xs) = ebind (f x) (\<lambda>_. efor f xs)"

definition storage_call :: "('s \<Rightarrow> (string + unit) \<times> 's) \<Rightarrow> ('s, unit) engine_step" where
  "storage_call m st =
     (case m (eng_shared st) of
        (Inl e, s) \<Rightarrow> (EErr (ProcStorage e), st\<lparr>eng_shared := s\<rparr>)
      | (Inr _, s) \<Rightarrow> (EOk (), st\<lparr>eng_shared := s\<rparr>))"

definition processor_call :: "('s \<Rightarrow> unit completion \<times> 's) \<Rightarrow> ('s, unit) engine_step" where
  "processor_call m st =
     (case m (eng_shared st) of
        (Ok _, s) \<Rightarrow> (EOk (), st\<lparr>eng_shared := s\<rparr>)
      | (Err e, s) \<Rightarrow> (EErr (ProcProcessors e), st\<lparr>eng_shared := s\<rparr>)
      | (Panic, s) \<Rightarrow> (EPanic, st\<lparr>eng_shared := s\<rparr>))"

definition add_event ::
  "('tx, 'r, 'b, 'l, 's) engine_env \<Rightarrow> task_id \<Rightarrow> task_id list \<Rightarrow> parallelized_event \<Rightarrow> ('s, unit) engine_step" where
  "add_event E task_identifier dependencies pe st =
     (EOk (), st\<lparr>eng_tasks := add_parallelized_event_with_dependencies (en_petgraph E) (en_task_order E) (en_insert E)
        task_identifier dependencies pe (eng_tasks st)\<rparr>)"

definition process_event ::
  "('tx, 'r, 'b, 'l, 's) engine_env \<Rightarrow> u64 \<Rightarrow> u64 \<Rightarrow> string \<Rightarrow> event \<Rightarrow> felt \<Rightarrow> contract_type \<Rightarrow> bool \<Rightarrow> ('s, unit) engine_step" where
  "process_event E block_number block_timestamp event_id ev transaction_hash contract_type is_at_head =
     ebind (if en_raw_events E
            then storage_call (sv_store_event (en_services E) event_id ev transaction_hash block_timestamp) else eok ()) (\<lambda>_.
     case e_keys ev of
       [] \<Rightarrow> epanic
     | event_key # _ \<Rightarrow>
         (case get_event_processors (en_processors E) contract_type of
            None \<Rightarrow> epanic
          | Some processors \<Rightarrow>
              (case map_of processors event_key of
                 None \<Rightarrow>
                   if sv_catch_all_validate (en_services E) ev
                   then processor_call (sv_catch_all_process (en_services E)
                     \<lparr>ctx_contract_address = e_from_address ev, ctx_block_number = block_number, ctx_block_timestamp = block_timestamp,
                      ctx_event_id = event_id, ctx_event = ev, ctx_config = en_config E, ctx_is_at_head = is_at_head\<rparr>)
                   else eok ()
               | Some ps \<Rightarrow>
                   (case List.find (\<lambda>p. p_validate p ev) ps of
                      None \<Rightarrow> epanic
                    | Some p \<Rightarrow>
                        (case (p_task_identifier p ev, p_task_dependencies p ev, p_indexing_mode p ev (en_config E)) of
                           (Some t, Some ds, Some md) \<Rightarrow>
                             add_event E t ds \<lparr>pe_indexing_mode = md, pe_contract_type = contract_type,
                               pe_contract_address = e_from_address ev, pe_block_number = block_number,
                               pe_block_timestamp = block_timestamp, pe_event_id = event_id, pe_event = ev, pe_is_at_head = is_at_head\<rparr>
                         | _ \<Rightarrow> epanic)))))"

definition process_block :: "('tx, 'r, 'b, 'l, 's) engine_env \<Rightarrow> u64 \<Rightarrow> u64 \<Rightarrow> ('s, unit) engine_step" where
  "process_block E block_number block_timestamp =
     efor (\<lambda>p. processor_call (p block_number block_timestamp)) (sv_block_processors (en_services E))"

definition process_transaction ::
  "('tx, 'r, 'b, 'l, 's) engine_env \<Rightarrow> u64 \<Rightarrow> u64 \<Rightarrow> felt \<Rightarrow> felt set \<Rightarrow> 'tx \<Rightarrow> felt set \<Rightarrow> ('s, unit) engine_step" where
  "process_transaction E block_number block_timestamp transaction_hash contract_addresses transaction unique_models =
     efor (\<lambda>p. processor_call (p \<lparr>tc_block_number = block_number, tc_block_timestamp = block_timestamp,
              tc_transaction_hash = transaction_hash, tc_transaction = transaction, tc_contract_addresses = contract_addresses,
              tc_unique_models = unique_models\<rparr>)) (sv_transaction_processors (en_services E))"

text \<open>The loop over the events of a transaction, with the index it enumerates them by, collecting the contracts and models they are about.\<close>

fun events_loop ::
  "('tx, 'r, 'b, 'l, 's) engine_env \<Rightarrow> felt \<Rightarrow> u64 \<Rightarrow> u64 \<Rightarrow> (felt \<times> contract_type) list \<Rightarrow> bool \<Rightarrow> u64 \<Rightarrow> felt set \<Rightarrow> felt set \<Rightarrow>
   event list \<Rightarrow> ('s, felt set \<times> felt set) engine_step" where
  "events_loop E tx n ts contracts head idx uc um [] = eok (uc, um)"
| "events_loop E tx n ts contracts head idx uc um (ev # evs) =
     (case map_of contracts (e_from_address ev) of
        None \<Rightarrow> events_loop E tx n ts contracts head (idx + 1) uc um evs
      | Some contract_type \<Rightarrow>
          (case e_keys ev of
             [] \<Rightarrow> epanic
           | key # ks \<Rightarrow>
               if contract_type = WORLD \<and> key \<in> DOJO_RELATED_EVENTS (en_selector E) \<and> ks = [] then epanic
               else ebind (process_event E n ts (format_event_id (en_text E) n tx (e_from_address ev) idx) ev tx contract_type head) (\<lambda>_.
                 events_loop E tx n ts contracts head (idx + 1) (insert (e_from_address ev) uc)
                   (if contract_type = WORLD \<and> key \<in> DOJO_RELATED_EVENTS (en_selector E) then insert (hd ks) um else um) evs)))"

definition process_transaction_with_events ::
  "('tx, 'r, 'b, 'l, 's) engine_env \<Rightarrow> felt \<Rightarrow> u64 \<Rightarrow> u64 \<Rightarrow> (felt \<times> contract_type) list \<Rightarrow> bool \<Rightarrow>
   ('tx, 'r) fetch_transaction \<Rightarrow> ('s, unit) engine_step" where
  "process_transaction_with_events E tx n ts contracts head t =
     ebind (events_loop E tx n ts contracts head 0 {} {} (ft_events t)) (\<lambda>(uc, um).
     ebind (case ft_transaction t of None \<Rightarrow> eok () | Some x \<Rightarrow> process_transaction E n ts tx uc x um) (\<lambda>_.
     case ft_receipt t of None \<Rightarrow> eok () | Some r \<Rightarrow> storage_call (sv_store_receipt (en_services E) r ts)))"

definition process_block_transactions ::
  "('tx, 'r, 'b, 'l, 's) engine_env \<Rightarrow> u64 \<Rightarrow> u64 \<Rightarrow> (felt \<times> contract_type) list \<Rightarrow> bool \<Rightarrow>
   (felt \<times> ('tx, 'r) fetch_transaction) list \<Rightarrow> ('s, unit) engine_step" where
  "process_block_transactions E n ts contracts head txs =
     efor (\<lambda>(h, t). if ft_events t = [] then eok () else process_transaction_with_events E h n ts contracts head t) txs"

fun process_range ::
  "('tx, 'r, 'b, 'l, 's) engine_env \<Rightarrow> (felt \<times> contract_type) list \<Rightarrow> bool \<Rightarrow> u64 set \<Rightarrow> ('tx, 'r) fetch_range_result \<Rightarrow>
   ('s, unit) engine_step" where
  "process_range E contracts head processed_blocks [] = eok ()"
| "process_range E contracts head processed_blocks ((n, b) # bs) =
     ebind (process_block_transactions E n (fb_timestamp b) contracts head (fb_transactions b)) (\<lambda>_.
     ebind (if n \<in> processed_blocks then eok () else process_block E n (fb_timestamp b)) (\<lambda>_.
     process_range E contracts head (insert n processed_blocks) bs))"

definition process_pending ::
  "('tx, 'r, 'b, 'l, 's) engine_env \<Rightarrow> (felt \<times> contract_type) list \<Rightarrow> bool \<Rightarrow> ('tx, 'r) fetch_preconfirmed_block_result \<Rightarrow>
   ('s, unit) engine_step" where
  "process_pending E contracts head d =
     process_block_transactions E (fp_block_number d) (fp_timestamp d) contracts head (fp_transactions d)"

definition at_head :: "('tx, 'r) fetch_result \<Rightarrow> bool" where
  "at_head fr =
     (fr_preconfirmed_block fr \<noteq> None \<or>
      (let heads = List.map_filter (\<lambda>(_, c). c_head c) (cursors_of (fr_cursors fr)) in
       if heads = [] then False else list_all (\<lambda>h. h = Max (set heads)) heads))"

text \<open>The part of \<open>process\<close> before the tasks run.\<close>

definition process_front ::
  "('tx, 'r, 'b, 'l, 's) engine_env \<Rightarrow> ('tx, 'r) fetch_result \<Rightarrow> (felt \<times> contract_type) list \<Rightarrow> ('s, unit) engine_step" where
  "process_front E fr contracts =
     ebind (process_range E contracts (at_head fr) {} (fr_range fr)) (\<lambda>_.
     case fr_preconfirmed_block fr of None \<Rightarrow> eok () | Some d \<Rightarrow> process_pending E contracts True d)"

text \<open>The part after the tasks have run.\<close>

definition process_back :: "('tx, 'r, 'b, 'l, 's) engine_env \<Rightarrow> ('tx, 'r) fetch_result \<Rightarrow> ('s, unit) engine_step" where
  "process_back E fr st =
     ebind (storage_call (\<lambda>s. sv_apply_balances_diff (en_services E) (sv_diffs (en_services E) s) (cursors_of (fr_cursors fr)) s)) (\<lambda>_.
     ebind (\<lambda>st. (EOk (), st\<lparr>eng_shared := sv_clear_balances_diff (en_services E) (eng_shared st)\<rparr>)) (\<lambda>_.
     storage_call (sv_update_cursors (en_services E) (fr_cursors fr)))) st"

type_synonym ('l, 's) task_run = "(task_id, task_data, ('l, 's) task_state, 's) run"

text \<open>
  The whole method. The last argument is the run whose tasks go on after a panic of one of them made the join return early; it is \<open>None\<close> if no task
  is left behind.
\<close>

inductive process ::
  "('tx, 'r, 'b, 'l, 's) engine_env \<Rightarrow> ('tx, 'r) fetch_result \<Rightarrow> (felt \<times> contract_type) list \<Rightarrow> 's engine_state \<Rightarrow>
   unit processing \<Rightarrow> 's engine_state \<Rightarrow> ('l, 's) task_run option \<Rightarrow> bool"
  for E fr contracts st
where
  front_fails: "process_front E fr contracts st = (r, st1) \<Longrightarrow> r \<noteq> EOk () \<Longrightarrow> process E fr contracts st r st1 None"
| tasks_fail: "process_front E fr contracts st = (EOk (), st1) \<Longrightarrow>
    manager_process_tasks (en_petgraph E) (en_node_order E) (en_show_error E) (en_processors E) (eng_tasks st1) (eng_shared st1) c (Inl e) tm \<Longrightarrow>
    process E fr contracts st (EErr (ProcProcessors e)) \<lparr>eng_shared = shared c, eng_tasks = tm\<rparr>
      (if e = PTaskNetworkError JoinError then Some c else None)"
| tasks_done: "process_front E fr contracts st = (EOk (), st1) \<Longrightarrow>
    manager_process_tasks (en_petgraph E) (en_node_order E) (en_show_error E) (en_processors E) (eng_tasks st1) (eng_shared st1) c (Inr ()) tm \<Longrightarrow>
    process_back E fr \<lparr>eng_shared = shared c, eng_tasks = tm\<rparr> = (r, st2) \<Longrightarrow>
    process E fr contracts st r st2 None"

section \<open>The main loop\<close>

datatype engine_end = Stopped | StoppedWith engine_error | Crashed

record ('tx, 'r, 'l, 's) engine_loop =
  lp_engine :: "'s engine_state"
  lp_cached_fetch :: "(('tx, 'r) fetch_result \<times> (felt \<times> contract_type) list) option"
  lp_fetching_backoff :: nat
  lp_processing_backoff :: nat
  lp_fetching_erroring_out :: bool
  lp_processing_erroring_out :: bool
  lp_sleeps :: "nat list"
  lp_detached :: "('l, 's) task_run list"
  lp_end :: "engine_end option"

definition MAX_BACKOFF_DELAY :: nat where
  "MAX_BACKOFF_DELAY = 60"

definition engine_start :: "('tx, 'r, 'b, 'l, 's) engine_env \<Rightarrow> 's \<Rightarrow> ('tx, 'r, 'l, 's) engine_loop" where
  "engine_start E s = \<lparr>lp_engine = \<lparr>eng_shared = s, eng_tasks = task_manager_new (en_max_tasks E) (en_config E)\<rparr>,
     lp_cached_fetch = None, lp_fetching_backoff = 1, lp_processing_backoff = 1, lp_fetching_erroring_out = False,
     lp_processing_erroring_out = False, lp_sleeps = [], lp_detached = [], lp_end = None\<rparr>"

definition double_backoff :: "nat \<Rightarrow> nat" where
  "double_backoff d = (if d < MAX_BACKOFF_DELAY then 2 * d else d)"

definition get_contracts :: "('tx, 'r, 'b, 'l, 's) engine_env \<Rightarrow> 's \<Rightarrow> string + (felt \<times> contract) list" where
  "get_contracts E s =
     (case sv_contracts (en_services E) s of
        Inl e \<Rightarrow> Inl e
      | Inr ks \<Rightarrow> Inr (fold (\<lambda>k. al_insert (k_address k) k) ks []))"

text \<open>What a call of the fetcher may answer, depending on the provider at that moment: nothing ever, a panic, an error or a batch, which
  comes with the types of the contracts.\<close>

definition fetch_answer ::
  "('tx, 'r, 'b, 'l, 's) engine_env \<Rightarrow> ('tx, 'r) provider \<Rightarrow> 's \<Rightarrow>
   (engine_error + ('tx, 'r) fetch_result \<times> (felt \<times> contract_type) list) option option" where
  "fetch_answer E P s =
     (case get_contracts E s of
        Inl e \<Rightarrow> Some (Some (Inl (EngStorage e)))
      | Inr ks \<Rightarrow>
          (case fetch (en_fetcher E) P (en_batch_order E) (map (\<lambda>(_, k). (k_address k, cursor_of_contract k)) ks) of
             None \<Rightarrow> None
           | Some FetchPanic \<Rightarrow> Some None
           | Some (FetchError e) \<Rightarrow> Some (Some (Inl (EngFetcher e)))
           | Some (Fetched fr) \<Rightarrow> Some (Some (Inr (fr, map (\<lambda>(_, k). (k_address k, k_type k)) ks)))))"

definition recovered :: "bool \<Rightarrow> ('tx, 'r, 'l, 's) engine_loop \<Rightarrow> ('tx, 'r, 'l, 's) engine_loop" where
  "recovered from_cache L =
     (if lp_fetching_erroring_out L \<and> \<not> from_cache
      then L\<lparr>lp_fetching_erroring_out := False, lp_fetching_backoff := 1\<rparr> else L)"

definition after_success ::
  "('tx, 'r, 'b, 'l, 's) engine_env \<Rightarrow> 's engine_state \<Rightarrow> ('tx, 'r, 'l, 's) engine_loop \<Rightarrow> ('tx, 'r, 'l, 's) engine_loop" where
  "after_success E st L =
     (let L1 = (if lp_processing_erroring_out L then L\<lparr>lp_processing_erroring_out := False, lp_processing_backoff := 1\<rparr> else L) in
      case sv_execute (en_services E) (eng_shared st) of
        (Inl e, s) \<Rightarrow> L1\<lparr>lp_engine := st\<lparr>eng_shared := s\<rparr>, lp_cached_fetch := None, lp_end := Some (StoppedWith (EngStorage e))\<rparr>
      | (Inr _, s) \<Rightarrow> L1\<lparr>lp_engine := st\<lparr>eng_shared := s\<rparr>, lp_cached_fetch := None\<rparr>)"

definition after_failure ::
  "('tx, 'r, 'b, 'l, 's) engine_env \<Rightarrow> 's engine_state \<Rightarrow> ('tx, 'r, 'l, 's) engine_loop \<Rightarrow> ('tx, 'r, 'l, 's) engine_loop" where
  "after_failure E st L =
     (let L1 = L\<lparr>lp_processing_erroring_out := True\<rparr> in
      case sv_rollback (en_services E) (eng_shared st) of
        (Inl e, s) \<Rightarrow> L1\<lparr>lp_engine := st\<lparr>eng_shared := s\<rparr>, lp_end := Some (StoppedWith (EngStorage e))\<rparr>
      | (Inr _, s1) \<Rightarrow>
          (case sv_reset (en_services E) s1 of
             (Inl e, s) \<Rightarrow> L1\<lparr>lp_engine := st\<lparr>eng_shared := s\<rparr>, lp_end := Some (StoppedWith (EngCache e))\<rparr>
           | (Inr _, s2) \<Rightarrow>
               L1\<lparr>lp_engine := \<lparr>eng_shared = s2, eng_tasks = clear_tasks (eng_tasks st)\<rparr>,
                  lp_sleeps := lp_sleeps L1 @ [lp_processing_backoff L1],
                  lp_processing_backoff := double_backoff (lp_processing_backoff L1)\<rparr>))"

definition after_fetch_error :: "('tx, 'r, 'l, 's) engine_loop \<Rightarrow> ('tx, 'r, 'l, 's) engine_loop" where
  "after_fetch_error L = L\<lparr>lp_fetching_erroring_out := True, lp_cached_fetch := None,
     lp_sleeps := lp_sleeps L @ [lp_fetching_backoff L], lp_fetching_backoff := double_backoff (lp_fetching_backoff L)\<rparr>"

text \<open>
  One iteration of the loop: shutting down, a fetch that fails, or a batch (fetched now, or kept from an iteration in which processing failed) that is
  processed. Tasks that were left behind by a panic act between the iterations.
\<close>

inductive engine_step ::
  "('tx, 'r, 'b, 'l, 's) engine_env \<Rightarrow> ('tx, 'r, 'l, 's) engine_loop \<Rightarrow> ('tx, 'r, 'l, 's) engine_loop \<Rightarrow> bool"
  for E :: "('tx, 'r, 'b, 'l, 's) engine_env"
where
  shutdown: "lp_end L = None \<Longrightarrow> engine_step E L (L\<lparr>lp_end := Some Stopped\<rparr>)"
| fetch_fails: "lp_end L = None \<Longrightarrow> lp_cached_fetch L = None \<Longrightarrow> fetch_answer E P (eng_shared (lp_engine L)) = Some (Some (Inl e)) \<Longrightarrow>
    engine_step E L (after_fetch_error L)"
| fetch_panics: "lp_end L = None \<Longrightarrow> lp_cached_fetch L = None \<Longrightarrow> fetch_answer E P (eng_shared (lp_engine L)) = Some None \<Longrightarrow>
    engine_step E L (L\<lparr>lp_end := Some Crashed\<rparr>)"
| batch: "lp_end L = None \<Longrightarrow>
    lp_cached_fetch L = Some b \<or> lp_cached_fetch L = None \<and> fetch_answer E P (eng_shared (lp_engine L)) = Some (Some (Inr b)) \<Longrightarrow>
    L1 = (recovered (lp_cached_fetch L \<noteq> None) L)\<lparr>lp_cached_fetch := Some b\<rparr> \<Longrightarrow>
    process E (fst b) (snd b) (lp_engine L) r st d \<Longrightarrow>
    L2 = L1\<lparr>lp_detached := (case d of None \<Rightarrow> lp_detached L1 | Some c \<Rightarrow> c # lp_detached L1)\<rparr> \<Longrightarrow>
    L' = (case r of EOk _ \<Rightarrow> after_success E st L2 | EErr _ \<Rightarrow> after_failure E st L2 | EPanic \<Rightarrow> L2\<lparr>lp_engine := st, lp_end := Some Crashed\<rparr>) \<Longrightarrow>
    engine_step E L L'"
| detached_acts: "lp_detached L = ds @ c # ds' \<Longrightarrow>
    run_step (task_handler (en_show_error E) (en_processors E) (en_config E)) (c\<lparr>shared := eng_shared (lp_engine L)\<rparr>) c' \<Longrightarrow>
    engine_step E L (L\<lparr>lp_engine := (lp_engine L)\<lparr>eng_shared := shared c'\<rparr>, lp_detached := ds @ c' # ds'\<rparr>)"

end
