(* ===== verification/EngineSpec.thy ===== *)
theory EngineSpec
  imports Engine
begin

text \<open>
  What the engine promises: the committed storage only ever changes by whole batches, each fetched from the cursors that were committed before it
  (a refinement of an abstract indexer that commits batch after batch), whatever errors occur and however tasks interleave, as long as no
  task panics; and what can happen when one does.
\<close>

section \<open>Backoff\<close>

definition backoff_ok :: "nat \<Rightarrow> bool" where
  "backoff_ok d \<longleftrightarrow> d \<in> {1, 2, 4, 8, 16, 32, 64}"

lemma double_backoff_ok: "backoff_ok d \<Longrightarrow> backoff_ok (double_backoff d)"
  by (auto simp: backoff_ok_def double_backoff_def MAX_BACKOFF_DELAY_def)

definition loop_backoff_ok :: "('tx, 'r, 'l, 's) engine_loop \<Rightarrow> bool" where
  "loop_backoff_ok L \<longleftrightarrow> backoff_ok (lp_fetching_backoff L) \<and> backoff_ok (lp_processing_backoff L) \<and> (\<forall>d \<in> set (lp_sleeps L). backoff_ok d)"

lemma engine_step_backoff: "engine_step E L L' \<Longrightarrow> loop_backoff_ok L \<Longrightarrow> loop_backoff_ok L'"
proof (induction rule: engine_step.cases)
  case (batch L b P L1 r st d L2 L')
  have "loop_backoff_ok L2"
    using batch by (auto simp: loop_backoff_ok_def recovered_def backoff_ok_def split: option.splits)
  then have "loop_backoff_ok (after_success E st L2)" "loop_backoff_ok (after_failure E st L2)"
    by (auto simp: loop_backoff_ok_def after_success_def after_failure_def backoff_ok_def[of "Suc 0"] double_backoff_ok Let_def
        split: prod.split sum.split)
  with batch \<open>loop_backoff_ok L2\<close> show ?case by (auto simp: loop_backoff_ok_def split: processing.splits)
qed (auto simp: loop_backoff_ok_def after_fetch_error_def double_backoff_ok)

section \<open>Committed storage\<close>

text \<open>
  The contract of storage and cache: \<open>committed\<close> is what survives a rollback, \<open>staged\<close> what a commit would make of it, and \<open>clean\<close> states have nothing
  staged. Only \<open>execute\<close> changes what is committed, to what is staged, even where it then reports an error; rolling back and resetting the
  caches, and \<open>execute\<close>, lead to clean states.
\<close>

definition keeps :: "('s \<Rightarrow> 'c) \<Rightarrow> ('s \<Rightarrow> 'a \<times> 's) \<Rightarrow> bool" where
  "keeps committed m \<longleftrightarrow> (\<forall>s. committed (snd (m s)) = committed s)"

section \<open>Runs that keep what is committed\<close>

text \<open>A quantity that every step of every handler keeps, on the states \<open>ok\<close> the handlers can be in, is kept by a run.\<close>

definition steps_keep :: "('k, 't, 'l, 's) handler \<Rightarrow> ('k \<Rightarrow> 't \<Rightarrow> 'l \<Rightarrow> bool) \<Rightarrow> ('s \<Rightarrow> 'c) \<Rightarrow> bool" where
  "steps_keep H ok f \<longleftrightarrow>
     (\<forall>k t. ok k t (h_init H k t)) \<and>
     (\<forall>k t l s. ok k t l \<longrightarrow> f (snd (h_step H k t l s)) = f s \<and> (\<forall>l' s'. h_step H k t l s = (Inl l', s') \<longrightarrow> ok k t l'))"

lemma run_step_keeps:
  assumes "run_step H c c'" and "steps_keep H ok f" and "\<forall>h \<in> set (handles c). handle_ok ok h"
  shows "(\<forall>h \<in> set (handles c'). handle_ok ok h) \<and> f (shared c') = f (shared c)"
  using assms(1)
proof cases
  case (acquire i k t)
  then show ?thesis using assms(2,3) by (auto simp: steps_keep_def dest!: set_update_subset_insert[THEN subsetD])
next
  case (act i k t l l' s')
  then have "ok k t l" using assms(3) nth_mem[OF act(2)] by force
  then have "ok k t l' \<and> f s' = f (shared c)" using act(4) assms(2) unfolding steps_keep_def by (metis snd_conv)
  then show ?thesis using act assms(3) by (auto dest!: set_update_subset_insert[THEN subsetD])
next
  case (finish i k t l r s')
  then have "ok k t l" using assms(3) nth_mem[OF finish(2)] by force
  then have "f s' = f (shared c)" using finish(4) assms(2) unfolding steps_keep_def by (metis snd_conv)
  then show ?thesis using finish assms(3) by (auto dest!: set_update_subset_insert[THEN subsetD])
qed (use assms(3) in \<open>auto simp: spawn_def\<close>)

lemma run_keeps:
  assumes "(run_step H)\<^sup>*\<^sup>* c c'" and "steps_keep H ok f" and "\<forall>h \<in> set (handles c). handle_ok ok h"
  shows "(\<forall>h \<in> set (handles c'). handle_ok ok h) \<and> f (shared c') = f (shared c)"
  using assms(1)
proof (induction rule: rtranclp_induct)
  case (step y z)
  then show ?case using run_step_keeps[OF step.hyps(2) assms(2)] by simp
qed (use assms(3) in simp)

lemma task_handler_keeps:
  assumes "\<And>ct m k ps ep l. map_of procs ct = Some m \<Longrightarrow> map_of m k = Some ps \<Longrightarrow> ep \<in> set ps \<Longrightarrow> keeps f (p_process ep l)"
  shows "steps_keep (task_handler show_error procs cfg) (\<lambda>_ _. task_state_ok procs) f"
  unfolding steps_keep_def
proof (intro conjI allI impI)
  fix k :: task_id and t :: task_data and l s
  assume ok: "task_state_ok procs l"
  show "f (snd (h_step (task_handler show_error procs cfg) k t l s)) = f s"
  proof (cases l)
    case (Idle rest)
    then show ?thesis by (cases rest) (simp_all add: task_handler_def task_handler_step_def)
  next
    case (Busy p x rest)
    then have "keeps f (p_process p x)" using ok assms by auto
    then have "f (snd (p_process p x s)) = f s" by (simp add: keeps_def)
    then show ?thesis
      by (auto simp: Busy task_handler_def task_handler_step_def split: prod.splits sum.splits completion.splits)
  qed
  fix l' s' assume st: "h_step (task_handler show_error procs cfg) k t l s = (Inl l', s')"
  show "task_state_ok procs l'"
  proof (cases l)
    case (Idle rest)
    with st show ?thesis
      by (cases rest; cases l') (auto simp: task_handler_def task_handler_step_def dest!: begin_event_busy)
  next
    case (Busy p x rest)
    with st obtain x' where "l' = Idle rest \<or> l' = Busy p x' rest"
      by (auto simp: task_handler_def task_handler_step_def split: prod.splits sum.splits completion.splits)
    then show ?thesis using ok by (elim disjE) (simp_all add: Busy)
  qed
qed (simp add: task_handler_def)

section \<open>The task manager between batches\<close>

text \<open>A manager without tasks is as it was created.\<close>

definition tm_ready :: "('tx, 'r, 'b, 'l, 's) engine_env \<Rightarrow> task_manager \<Rightarrow> bool" where
  "tm_ready E tm \<longleftrightarrow> tm_inv tm \<and> tm_config tm = en_config E \<and> max_concurrent_tasks (task_network tm) = en_max_tasks E \<and>
     (network_is_empty (task_network tm) \<longrightarrow> task_network tm = network_new (en_max_tasks E))"

lemma tm_ready_new: "tm_ready E (task_manager_new (en_max_tasks E) (en_config E))"
  by (simp add: tm_ready_def task_manager_new_def tm_inv_def) (simp add: network_new_def)

lemma tm_ready_clear: "tm_ready E tm \<Longrightarrow> clear_tasks tm = task_manager_new (en_max_tasks E) (en_config E)"
  by (simp add: tm_ready_def clear_tasks_def task_manager_new_def network_clear_def network_new_def adigraph_clear_def adigraph_new_def)

lemma tm_ready_add:
  assumes "petgraph_spec (en_petgraph E)" and "hash_order (en_task_order E)" and "tm_ready E tm"
  shows "tm_ready E (add_parallelized_event_with_dependencies (en_petgraph E) (en_task_order E) (en_insert E) k deps pe tm)"
proof -
  let ?tm = "add_parallelized_event_with_dependencies (en_petgraph E) (en_task_order E) (en_insert E) k deps pe tm"
  have inv: "tm_inv tm" "tm_inv ?tm" using assms add_event_inv by (auto simp: tm_ready_def)
  have "tm_task ?tm k \<noteq> None" using add_event_task[OF assms(1,2) inv(1)] by simp
  then have "\<not> network_is_empty (task_network ?tm)"
    using inv(2) by (auto simp: tm_task_def adigraph_get_def network_is_empty_def adigraph_is_empty_def tm_inv_def network_inv_def
        adigraph_inv_def split: option.splits)
  moreover have "tm_config ?tm = tm_config tm" by (simp add: add_parallelized_event_with_dependencies_def Let_def)
  ultimately show ?thesis using assms inv by (simp add: tm_ready_def add_event_permits)
qed

lemma storage_call_tasks [simp]: "eng_tasks (snd (storage_call m st)) = eng_tasks st"
  by (simp add: storage_call_def split: prod.split sum.split)

lemma ebind_tasks:
  assumes "eng_tasks (snd (m st)) = eng_tasks st" and "\<And>a st'. eng_tasks (snd (f a st')) = eng_tasks st'"
  shows "eng_tasks (snd (ebind m f st)) = eng_tasks st"
  using assms by (cases "m st") (auto simp: ebind_def split: processing.split)

lemma process_back_tasks: "eng_tasks (snd (process_back E fr st)) = eng_tasks st"
  unfolding process_back_def by (intro ebind_tasks) simp_all

section \<open>The abstract indexer\<close>

text \<open>
  A step of the abstract indexer: a batch is fetched from the cursors that are committed, processed without an error and without a task left behind,
  starting with nothing staged and no tasks, and committed as a whole.
\<close>

definition commits_batch ::
  "('tx, 'r, 'b, 'l, 's) engine_env \<Rightarrow> ('s \<Rightarrow> 'c) \<Rightarrow> ('s \<Rightarrow> 'c) \<Rightarrow> ('s \<Rightarrow> bool) \<Rightarrow> 'c \<Rightarrow> 'c \<Rightarrow> bool" where
  "commits_batch E committed staged clean c c' \<longleftrightarrow>
     (\<exists>P fr cts s st. clean s \<and> committed s = c \<and> fetch_answer E P s = Some (Some (Inr (fr, cts))) \<and>
        process E fr cts \<lparr>eng_shared = s, eng_tasks = task_manager_new (en_max_tasks E) (en_config E)\<rparr> (EOk ()) st None \<and>
        staged (eng_shared st) = c')"

section \<open>The contract of storage and caches\<close>


locale transactional =
  fixes E :: "('tx, 'r, 'b, 'l, 's) engine_env" and committed staged :: "'s \<Rightarrow> 'c" and clean :: "'s \<Rightarrow> bool"
  assumes keeps_event: "keeps committed (sv_store_event (en_services E) i ev h t)"
    and keeps_receipt: "keeps committed (sv_store_receipt (en_services E) rc t)"
    and keeps_apply: "keeps committed (sv_apply_balances_diff (en_services E) b cs)"
    and keeps_clear: "committed (sv_clear_balances_diff (en_services E) s) = committed s"
    and keeps_cursors: "keeps committed (sv_update_cursors (en_services E) cur)"
    and keeps_rollback: "keeps committed (sv_rollback (en_services E))"
    and keeps_reset: "keeps committed (sv_reset (en_services E))"
    and keeps_block: "p \<in> set (sv_block_processors (en_services E)) \<Longrightarrow> keeps committed (p n t)"
    and keeps_transaction: "q \<in> set (sv_transaction_processors (en_services E)) \<Longrightarrow> keeps committed (q tc)"
    and keeps_catch_all: "keeps committed (sv_catch_all_process (en_services E) ctx)"
    and keeps_processor: "map_of (en_processors E) ct = Some m \<Longrightarrow> map_of m k = Some ps \<Longrightarrow> ep \<in> set ps \<Longrightarrow> keeps committed (p_process ep l)"
    and clean_reset: "sv_rollback (en_services E) s0 = (Inr u, s1) \<Longrightarrow> sv_reset (en_services E) s1 = (Inr v, s2) \<Longrightarrow> clean s2"
    and clean_execute: "sv_execute (en_services E) s0 = (Inr w, s3) \<Longrightarrow> clean s3"
    and execute_commits: "sv_execute (en_services E) s = (Inr u, s') \<Longrightarrow> committed s' = staged s"
    and execute_fails: "sv_execute (en_services E) s = (Inl e, s') \<Longrightarrow> committed s' = committed s \<or> committed s' = staged s"
    and contracts_committed: "clean s \<Longrightarrow> clean s' \<Longrightarrow> committed s = committed s' \<Longrightarrow> sv_contracts (en_services E) s = sv_contracts (en_services E) s'"

text \<open>An engine whose graph library and hash maps do what they promise.\<close>

locale transactional_engine = transactional E committed staged clean
  for E :: "('tx, 'r, 'b, 'l, 's) engine_env" and committed staged :: "'s \<Rightarrow> 'c" and clean :: "'s \<Rightarrow> bool" +
  assumes graph: "petgraph_spec (en_petgraph E)"
    and order: "hash_order (en_task_order E)"
begin

text \<open>Steps that keep what is committed, and the task manager in order.\<close>

definition safe :: "('s, 'a) engine_step \<Rightarrow> bool" where
  "safe m \<longleftrightarrow> (\<forall>st. committed (eng_shared (snd (m st))) = committed (eng_shared st) \<and>
     (tm_ready E (eng_tasks st) \<longrightarrow> tm_ready E (eng_tasks (snd (m st)))))"

lemma safe_ok [simp]: "safe (eok a)" "safe epanic"
  by (simp_all add: safe_def eok_def epanic_def)

lemma safe_bind: "safe m \<Longrightarrow> (\<And>a. safe (f a)) \<Longrightarrow> safe (ebind m f)"
  unfolding safe_def
proof (intro allI, goal_cases)
  case (1 st)
  note m = 1(1)[rule_format, of st] and f = 1(2)[rule_format]
  show ?case
  proof (cases "m st")
    case (Pair r st')
    with m f[of _ st'] show ?thesis by (cases r) (auto simp: ebind_def)
  qed
qed

lemma safe_for: "(\<And>x. x \<in> set xs \<Longrightarrow> safe (f x)) \<Longrightarrow> safe (efor f xs)"
  by (induction xs) (auto intro: safe_bind)

lemma safe_storage_call: "keeps committed m \<Longrightarrow> safe (storage_call m)"
  unfolding safe_def
proof
  fix st :: "'s engine_state" assume k: "keeps committed m"
  obtain x s where m: "m (eng_shared st) = (x, s)" by fastforce
  have "committed s = committed (eng_shared st)" using k m unfolding keeps_def by (metis snd_conv)
  with m show "committed (eng_shared (snd (storage_call m st))) = committed (eng_shared st) \<and>
     (tm_ready E (eng_tasks st) \<longrightarrow> tm_ready E (eng_tasks (snd (storage_call m st))))"
    by (simp add: storage_call_def split: sum.split)
qed

lemma safe_processor_call: "keeps committed m \<Longrightarrow> safe (processor_call m)"
  unfolding safe_def
proof
  fix st :: "'s engine_state" assume k: "keeps committed m"
  obtain x s where m: "m (eng_shared st) = (x, s)" by fastforce
  have "committed s = committed (eng_shared st)" using k m unfolding keeps_def by (metis snd_conv)
  with m show "committed (eng_shared (snd (processor_call m st))) = committed (eng_shared st) \<and>
     (tm_ready E (eng_tasks st) \<longrightarrow> tm_ready E (eng_tasks (snd (processor_call m st))))"
    by (simp add: processor_call_def split: completion.split)
qed

lemma safe_add_event: "safe (add_event E t ds pe)"
  by (simp add: safe_def add_event_def tm_ready_add[OF graph order])

lemma safe_process_event: "safe (process_event E n ts i ev h ct hb)"
  unfolding process_event_def
  by (intro safe_bind)
    (auto intro: safe_storage_call safe_processor_call safe_add_event keeps_event keeps_catch_all split: list.split option.split)

lemma safe_process_block: "safe (process_block E n ts)"
  unfolding process_block_def by (intro safe_for safe_processor_call keeps_block)

lemma safe_process_transaction: "safe (process_transaction E n ts h uc tx um)"
  unfolding process_transaction_def by (intro safe_for safe_processor_call keeps_transaction)

lemma safe_events_loop: "safe (events_loop E h n ts cts hb i uc um evs)"
  by (induction evs arbitrary: i uc um)
    (auto intro!: safe_bind safe_process_event split: option.split list.split)

lemma safe_process_transaction_with_events: "safe (process_transaction_with_events E h n ts cts hb t)"
  unfolding process_transaction_with_events_def
  by (intro safe_bind)
    (auto intro!: safe_bind safe_events_loop safe_process_transaction safe_storage_call keeps_receipt split: option.split)

lemma safe_process_block_transactions: "safe (process_block_transactions E n ts cts hb txs)"
  unfolding process_block_transactions_def by (intro safe_for) (auto intro: safe_process_transaction_with_events)

lemma safe_process_range: "safe (process_range E cts hb done bs)"
proof (induction bs arbitrary: "done")
  case (Cons b bs)
  then show ?case by (cases b) (auto intro!: safe_bind safe_process_block_transactions safe_process_block)
qed simp

lemma safe_process_front: "safe (process_front E fr cts)"
  unfolding process_front_def process_pending_def
  by (intro safe_bind safe_process_range) (auto intro: safe_process_block_transactions split: option.split)

lemma safe_process_back: "safe (process_back E fr)"
proof -
  have "safe (\<lambda>st. (EOk (), st\<lparr>eng_shared := sv_clear_balances_diff (en_services E) (eng_shared st)\<rparr>))"
    by (simp add: safe_def keeps_clear)
  moreover have "keeps committed (\<lambda>s. sv_apply_balances_diff (en_services E) (sv_diffs (en_services E) s) (cursors_of (fr_cursors fr)) s)"
    using keeps_apply by (simp add: keeps_def)
  ultimately show ?thesis
    unfolding process_back_def[abs_def] by (intro safe_bind safe_storage_call keeps_cursors)
qed

lemma processors_keep: "steps_keep (task_handler show_error (en_processors E) cfg) (\<lambda>_ _. task_state_ok (en_processors E)) committed"
  by (rule task_handler_keeps) (rule keeps_processor)

lemma manager_process_tasks_keeps:
  assumes "manager_process_tasks PG ho show_error (en_processors E) tm s c r tm'" and "tm_ready E tm"
  shows "committed (shared c) = committed s \<and> tm_ready E tm' \<and>
    (r = Inr () \<longrightarrow> tm' = task_manager_new (en_max_tasks E) (en_config E))"
proof -
  from assms(1) obtain r0 n' where p: "process_tasks PG ho (task_handler show_error (en_processors E) (tm_config tm)) (task_network tm) s c r0 n'"
    and tm': "tm' = tm\<lparr>task_network := n'\<rparr>" and r: "r = (case r0 of Inl e \<Rightarrow> Inl (PTaskNetworkError e) | Inr u \<Rightarrow> Inr u)"
    unfolding manager_process_tasks_def by (elim exE conjE)
  show ?thesis
  proof (cases "network_is_empty (task_network tm)")
    case True
    with p have "shared c = s" "n' = task_network tm" by (simp_all add: process_tasks_def run_start_def)
    moreover from this have "tm' = tm" using tm' by simp
    moreover have "tm = task_manager_new (en_max_tasks E) (en_config E)"
      using True assms(2) by (simp add: tm_ready_def task_manager_new_def)
    ultimately show ?thesis using assms(2) by simp
  next
    case False
    with p obtain levels where
      run: "(run_step (task_handler show_error (en_processors E) (tm_config tm)))\<^sup>*\<^sup>* (run_start levels (max_concurrent_tasks (task_network tm)) s) c"
      and n': "n' = (case r0 of Inr _ \<Rightarrow> network_clear (task_network tm) | Inl _ \<Rightarrow> task_network tm)"
      by (auto simp: process_tasks_def)
    have "committed (shared c) = committed s"
      using run_keeps[OF run processors_keep] by (simp add: run_start_def)
    moreover have "tm' = (case r0 of Inr _ \<Rightarrow> clear_tasks tm | Inl _ \<Rightarrow> tm)"
      using tm' n' by (simp add: clear_tasks_def split: sum.split)
    ultimately show ?thesis using r assms(2) tm_ready_clear[OF assms(2)] by (simp add: tm_ready_new split: sum.splits)
  qed
qed

lemma process_keeps:
  assumes "process E fr cts st r st' d" and "tm_ready E (eng_tasks st)"
  shows "committed (eng_shared st') = committed (eng_shared st) \<and> tm_ready E (eng_tasks st') \<and>
    (r = EOk () \<longrightarrow> eng_tasks st' = task_manager_new (en_max_tasks E) (en_config E))"
  using assms(1)
proof cases
  case front_fails
  then show ?thesis using safe_process_front[of fr cts] assms(2) unfolding safe_def by (metis snd_conv)
next
  case (tasks_fail st1 c e tm)
  have "committed (eng_shared st1) = committed (eng_shared st) \<and> tm_ready E (eng_tasks st1)"
    using safe_process_front[of fr cts] tasks_fail(4) assms(2) unfolding safe_def by (metis snd_conv)
  with manager_process_tasks_keeps[OF tasks_fail(5)] tasks_fail(1,2) show ?thesis by simp
next
  case (tasks_done st1 c tm)
  let ?new = "task_manager_new (en_max_tasks E) (en_config E)"
  have "committed (eng_shared st1) = committed (eng_shared st) \<and> tm_ready E (eng_tasks st1)"
    using safe_process_front[of fr cts] tasks_done(2) assms(2) unfolding safe_def by (metis snd_conv)
  with manager_process_tasks_keeps[OF tasks_done(3)]
  have "committed (shared c) = committed (eng_shared st) \<and> tm = ?new" by simp
  moreover have "committed (eng_shared st') = committed (shared c)"
    using safe_process_back[of fr] tasks_done(4) unfolding safe_def by (metis snd_conv engine_state.select_convs(1))
  moreover have "eng_tasks st' = tm"
    using process_back_tasks[of E fr "\<lparr>eng_shared = shared c, eng_tasks = tm\<rparr>"] tasks_done(4) by simp
  ultimately show ?thesis by (simp add: tm_ready_new)
qed

text \<open>The batch a processing error leaves in the cache could be fetched again, and it leaves everything else as it was.\<close>

definition loop_ok :: "('tx, 'r, 'l, 's) engine_loop \<Rightarrow> bool" where
  "loop_ok L \<longleftrightarrow> (lp_end L = None \<longrightarrow> clean (eng_shared (lp_engine L)) \<and>
     eng_tasks (lp_engine L) = task_manager_new (en_max_tasks E) (en_config E) \<and>
     (\<forall>b. lp_cached_fetch L = Some b \<longrightarrow> (\<exists>P. fetch_answer E P (eng_shared (lp_engine L)) = Some (Some (Inr b)))))"

lemma fetch_answer_committed:
  assumes "clean s" and "clean s'" and "committed s = committed s'"
  shows "fetch_answer E P s = fetch_answer E P s'"
  using contracts_committed[OF assms] by (simp add: fetch_answer_def get_contracts_def)

lemma after_success_ok:
  assumes "eng_tasks st = task_manager_new (en_max_tasks E) (en_config E)"
  shows "loop_ok (after_success E st L) \<and>
    committed (eng_shared (lp_engine (after_success E st L))) \<in> {committed (eng_shared st), staged (eng_shared st)}"
proof (cases "sv_execute (en_services E) (eng_shared st)")
  case (Pair x s)
  then show ?thesis
    using assms execute_commits[of "eng_shared st"] execute_fails[of "eng_shared st"] clean_execute[of "eng_shared st"]
    by (cases x) (auto simp: after_success_def Let_def loop_ok_def)
qed

lemma after_failure_ok:
  assumes "tm_ready E (eng_tasks st)" and "lp_cached_fetch L = Some b" and "fetch_answer E P s = Some (Some (Inr b))"
    and "clean s" and "committed s = committed (eng_shared st)"
  shows "loop_ok (after_failure E st L) \<and> committed (eng_shared (lp_engine (after_failure E st L))) = committed (eng_shared st)"
proof -
  obtain x s1 where r: "sv_rollback (en_services E) (eng_shared st) = (x, s1)" by fastforce
  obtain y s2 where t: "sv_reset (en_services E) s1 = (y, s2)" by fastforce
  have c: "committed s1 = committed (eng_shared st)" "committed s2 = committed (eng_shared st)"
    using keeps_rollback keeps_reset r t unfolding keeps_def by (metis snd_conv)+
  show ?thesis
  proof (cases x)
    case (Inl e)
    then show ?thesis using r c by (simp add: after_failure_def Let_def loop_ok_def)
  next
    case x: (Inr u)
    show ?thesis
    proof (cases y)
      case (Inl e)
      then show ?thesis using r t x c by (simp add: after_failure_def Let_def loop_ok_def)
    next
      case (Inr v)
      then have "clean s2" using clean_reset r t x by blast
      then have "fetch_answer E P s2 = Some (Some (Inr b))" using fetch_answer_committed[of s s2 P] assms(3-5) c by simp
      then show ?thesis
        using r t x c Inr \<open>clean s2\<close> assms(1,2) tm_ready_clear by (auto simp: after_failure_def Let_def loop_ok_def)
    qed
  qed
qed

lemma engine_step_refines:
  assumes "engine_step E L L'" and "loop_ok L" and "lp_detached L' = []"
  shows "loop_ok L' \<and> lp_detached L = [] \<and>
    (committed (eng_shared (lp_engine L')) = committed (eng_shared (lp_engine L)) \<or>
     commits_batch E committed staged clean (committed (eng_shared (lp_engine L))) (committed (eng_shared (lp_engine L'))))"
  using assms(1)
proof cases
  case (batch b P L1 r st d L2)
  let ?s = "eng_shared (lp_engine L)" and ?tm = "task_manager_new (en_max_tasks E) (en_config E)"
  have ok: "clean ?s" "eng_tasks (lp_engine L) = ?tm" using assms(2) batch(1) by (simp_all add: loop_ok_def)
  obtain P' where f: "fetch_answer E P' ?s = Some (Some (Inr b))" using assms(2) batch(1,2) unfolding loop_ok_def by blast
  have "lp_detached L' = lp_detached L2"
    using batch(6) by (auto simp: after_success_def after_failure_def Let_def split: processing.splits prod.splits sum.splits)
  then have d: "d = None" "lp_detached L = []"
    using batch(3,5) assms(3) by (auto simp: recovered_def split: option.splits if_splits)
  note k = process_keeps[OF batch(4), unfolded ok(2), OF tm_ready_new]
  show ?thesis
  proof (cases r)
    case (EOk u)
    then have L': "L' = after_success E st L2" and st: "eng_tasks st = ?tm" using batch(6) k by simp_all
    have eng: "lp_engine L = \<lparr>eng_shared = ?s, eng_tasks = ?tm\<rparr>" using ok(2) by simp
    have "process E (fst b) (snd b) \<lparr>eng_shared = ?s, eng_tasks = ?tm\<rparr> (EOk ()) st None"
      using batch(4) by (simp only: eng[symmetric] EOk d(1)) (simp)
    then have "commits_batch E committed staged clean (committed ?s) (staged (eng_shared st))"
      unfolding commits_batch_def
      using ok(1) f
      by (intro exI[of _ P'] exI[of _ "fst b"] exI[of _ "snd b"] exI[of _ ?s] exI[of _ st] conjI) simp_all
    with after_success_ok[OF st, of L2] k d(2) show ?thesis unfolding L' by auto
  next
    case (EErr e)
    then have L': "L' = after_failure E st L2" and c: "lp_cached_fetch L2 = Some b" using batch(3,5,6) by simp_all
    show ?thesis using after_failure_ok[OF _ c f ok(1)] k d(2) unfolding L' by simp
  next
    case EPanic
    then show ?thesis using batch(6) k d(2) by (simp add: loop_ok_def)
  qed
qed (use assms(2,3) in \<open>auto simp: loop_ok_def after_fetch_error_def\<close>)

lemma engine_refines:
  assumes "(engine_step E)\<^sup>*\<^sup>* (engine_start E s) L" and "clean s" and "lp_detached L = []"
  shows "loop_ok L \<and> (commits_batch E committed staged clean)\<^sup>*\<^sup>* (committed s) (committed (eng_shared (lp_engine L)))"
  using assms(1,3)
proof (induction rule: rtranclp_induct)
  case base
  then show ?case using assms(2) by (simp add: loop_ok_def engine_start_def)
next
  case (step L L')
  have L: "lp_detached L = []" using step.hyps(2) step.prems
    by cases (auto simp: after_fetch_error_def after_success_def after_failure_def recovered_def Let_def
        split: processing.splits prod.splits sum.splits option.splits if_splits)
  note IH = step.IH[OF L]
  from engine_step_refines[OF step.hyps(2) conjunct1[OF IH] step.prems] IH show ?case
    by (auto intro: rtranclp.rtrancl_into_rtrancl)
qed

end

section \<open>How long the engine sleeps\<close>

lemma fetch_can_fail: "\<exists>P e. fetch_answer E (P :: ('tx, 'r) provider) s = Some (Some (Inl e))"
proof (cases "get_contracts E s")
  case (Inr ks)
  let ?P = "\<lparr>block_hash_and_number = Inl ''down'', batch_requests = (\<lambda>_ _. Inl ''down''), get_preconfirmed = Inl ''down''\<rparr> :: ('tx, 'r) provider"
  have "fetch_answer E ?P s = Some (Some (Inl (EngFetcher (Provider ''down''))))" by (simp add: fetch_answer_def Inr fetch_def)
  then show ?thesis by blast
qed (simp add: fetch_answer_def)

lemma after_fetch_error_simps [simp]:
  "lp_sleeps (after_fetch_error L) = lp_sleeps L @ [lp_fetching_backoff L]"
  "lp_fetching_backoff (after_fetch_error L) = double_backoff (lp_fetching_backoff L)"
  "lp_end (after_fetch_error L) = lp_end L" "lp_cached_fetch (after_fetch_error L) = None"
  by (simp_all add: after_fetch_error_def)

lemma failing_fetches:
  "(engine_step E)\<^sup>*\<^sup>* (engine_start E s) ((after_fetch_error ^^ n) (engine_start E s)) \<and>
   lp_end ((after_fetch_error ^^ n) (engine_start E s)) = None \<and> lp_cached_fetch ((after_fetch_error ^^ n) (engine_start E s)) = None"
proof (induction n)
  case 0
  then show ?case by (simp add: engine_start_def)
next
  case (Suc n)
  let ?L = "(after_fetch_error ^^ n) (engine_start E s)"
  obtain P e where "fetch_answer E P (eng_shared (lp_engine ?L)) = Some (Some (Inl e))"
    using fetch_can_fail[of E "eng_shared (lp_engine ?L)"] by (elim exE) (rule that)
  then have "engine_step E ?L (after_fetch_error ?L)" using Suc.IH by (intro engine_step.fetch_fails) simp_all
  then show ?case using Suc.IH by (auto intro: rtranclp.rtrancl_into_rtrancl)
qed

lemma funpow_seven: "(f ^^ 7) x = f (f (f (f (f (f (f x))))))"
  by (simp add: eval_nat_numeral)

lemma failing_sleeps: "lp_sleeps ((after_fetch_error ^^ 7) (engine_start E s)) = [1, 2, 4, 8, 16, 32, 64]"
proof -
  have "lp_sleeps (engine_start E s) = []" "lp_fetching_backoff (engine_start E s) = 1" by (simp_all add: engine_start_def)
  then show ?thesis by (simp add: funpow_seven double_backoff_def MAX_BACKOFF_DELAY_def)
qed

section \<open>Properties\<close>

text \<open>
  The delays the engine can ever sleep after an error, in seconds: the powers of two up to 64, and every one of them does occur. The last one is above
  the maximum of 60 seconds, since a delay below the maximum is doubled without a bound.
\<close>

theorem backoff_delays:
  "(\<Union>L\<in>{L. (engine_step E)\<^sup>*\<^sup>* (engine_start E s) L}. set (lp_sleeps L)) = {1, 2, 4, 8, 16, 32, 64}"
proof
  have "loop_backoff_ok L" if "(engine_step E)\<^sup>*\<^sup>* (engine_start E s) L" for L
    using that
  proof (induction rule: rtranclp_induct)
    case base
    then show ?case by (simp add: loop_backoff_ok_def engine_start_def backoff_ok_def)
  qed (rule engine_step_backoff)
  then show "(\<Union>L\<in>{L. (engine_step E)\<^sup>*\<^sup>* (engine_start E s) L}. set (lp_sleeps L)) \<subseteq> {1, 2, 4, 8, 16, 32, 64}"
    unfolding loop_backoff_ok_def backoff_ok_def by blast
  have "set (lp_sleeps ((after_fetch_error ^^ 7) (engine_start E s))) \<subseteq> (\<Union>L\<in>{L. (engine_step E)\<^sup>*\<^sup>* (engine_start E s) L}. set (lp_sleeps L))"
    by (rule UN_upper) (simp only: mem_Collect_eq failing_fetches)
  then show "{1, 2, 4, 8, 16, 32, 64} \<subseteq> (\<Union>L\<in>{L. (engine_step E)\<^sup>*\<^sup>* (engine_start E s) L}. set (lp_sleeps L))"
    unfolding failing_sleeps list.set .
qed

end
