(* ===== verification/TokenTraits.thy ===== *)
theory TokenTraits
  imports Prelude
begin

text \<open>
  The trait counts of a token contract (\<open>crates/sqlite/sqlite/src/executor/erc.rs\<close>): how many of its tokens have which trait, kept as a JSON object
  of objects of numbers.

  Parsing and printing JSON is code of another package, the parameter \<open>json_text\<close>. An object is an association list; the order of its keys is left to the
  printer. A number is \<open>JU64\<close> if it fits an unsigned 64-bit integer, which is all the code asks of it.
\<close>

section \<open>JSON values\<close>

datatype json =
  JNull
| JBool bool
| JU64 u64
| JNumber string
| JString string
| JArray "json list"
| JObject "(string \<times> json) list"

record json_text =
  json_from_str :: "string \<Rightarrow> string + json"
  json_to_string :: "json \<Rightarrow> string"

fun json_get :: "string \<Rightarrow> json \<Rightarrow> json option" where
  "json_get k (JObject m) = map_of m k"
| "json_get k _ = None"

fun as_str :: "json \<Rightarrow> string option" where
  "as_str (JString s) = Some s"
| "as_str _ = None"

section \<open>Names and traits of a token\<close>

definition extract_name_from_metadata :: "json_text \<Rightarrow> string \<Rightarrow> string option" where
  "extract_name_from_metadata J metadata =
     (if metadata = [] then None
      else case json_from_str J metadata of
             Inl _ \<Rightarrow> None
           | Inr j \<Rightarrow>
               (case json_get ''name'' j of
                  None \<Rightarrow> None
                | Some v \<Rightarrow> (case as_str v of None \<Rightarrow> None | Some s \<Rightarrow> if s = [] then None else Some s)))"

record token_trait =
  trait_type :: string
  trait_value :: string

definition trait_of_attribute :: "json \<Rightarrow> token_trait option" where
  "trait_of_attribute attr =
     (case (case json_get ''trait_type'' attr of Some t \<Rightarrow> Some t | None \<Rightarrow> json_get ''trait'' attr, json_get ''value'' attr) of
        (Some t, Some v) \<Rightarrow>
          (case (as_str t, as_str v) of
             (Some ts, Some vs) \<Rightarrow> Some \<lparr>trait_type = ts, trait_value = vs\<rparr>
           | _ \<Rightarrow> None)
      | _ \<Rightarrow> None)"

definition extract_traits_from_json :: "json_text \<Rightarrow> string \<Rightarrow> string + token_trait list" where
  "extract_traits_from_json J metadata =
     (case json_from_str J metadata of
        Inl e \<Rightarrow> Inl e
      | Inr j \<Rightarrow>
          Inr (case json_get ''attributes'' j of
                 Some (JArray attrs) \<Rightarrow> List.map_filter trait_of_attribute attrs
               | _ \<Rightarrow> []))"

section \<open>Counting\<close>

type_synonym trait_counts = "(string \<times> json) list"

definition subtract_trait :: "token_trait \<Rightarrow> trait_counts \<Rightarrow> trait_counts" where
  "subtract_trait t m =
     (case map_of m (trait_type t) of
        Some (JObject vs) \<Rightarrow>
          (let vs' = (case map_of vs (trait_value t) of
                        Some (JU64 n) \<Rightarrow> if n > 1 then al_insert (trait_value t) (JU64 (n - 1)) vs else al_remove (trait_value t) vs
                      | _ \<Rightarrow> vs)
           in if vs' = [] then al_remove (trait_type t) m else al_insert (trait_type t) (JObject vs') m)
      | _ \<Rightarrow> m)"

definition add_trait :: "token_trait \<Rightarrow> trait_counts \<Rightarrow> trait_counts" where
  "add_trait t m =
     (let m1 = (case map_of m (trait_type t) of None \<Rightarrow> al_insert (trait_type t) (JObject []) m | Some _ \<Rightarrow> m) in
      case map_of m1 (trait_type t) of
        Some (JObject vs) \<Rightarrow>
          (case map_of vs (trait_value t) of
             Some (JU64 n) \<Rightarrow> al_insert (trait_type t) (JObject (al_insert (trait_value t) (JU64 (n + 1)) vs)) m1
           | Some _ \<Rightarrow> m1
           | None \<Rightarrow> al_insert (trait_type t) (JObject (al_insert (trait_value t) (JU64 1) vs)) m1)
      | _ \<Rightarrow> m1)"

definition current_traits :: "json_text \<Rightarrow> string \<Rightarrow> trait_counts" where
  "current_traits J existing = (case json_from_str J existing of Inr (JObject m) \<Rightarrow> m | _ \<Rightarrow> [])"

definition apply_trait_operations :: "json_text \<Rightarrow> string \<Rightarrow> token_trait list \<Rightarrow> token_trait list \<Rightarrow> string" where
  "apply_trait_operations J existing add_traits subtract_traits =
     json_to_string J (JObject (fold add_trait add_traits (fold subtract_trait subtract_traits (current_traits J existing))))"

definition extract_traits_from_metadata :: "json_text \<Rightarrow> string \<Rightarrow> string \<Rightarrow> string + string" where
  "extract_traits_from_metadata J metadata existing =
     (case extract_traits_from_json J metadata of
        Inl e \<Rightarrow> Inl e
      | Inr ts \<Rightarrow> Inr (apply_trait_operations J existing ts []))"

definition subtract_traits_from_metadata :: "json_text \<Rightarrow> string \<Rightarrow> string \<Rightarrow> string + string" where
  "subtract_traits_from_metadata J metadata existing =
     (case extract_traits_from_json J metadata of
        Inl e \<Rightarrow> Inl e
      | Inr ts \<Rightarrow> Inr (apply_trait_operations J existing [] ts))"

section \<open>What the counts mean\<close>

text \<open>Counts as the code writes them: objects of positive numbers, without empty objects.\<close>

fun values_ok :: "json \<Rightarrow> bool" where
  "values_ok (JObject vs) = (vs \<noteq> [] \<and> al_ok vs \<and> list_all (\<lambda>(_, j). case j of JU64 n \<Rightarrow> n \<noteq> 0 | _ \<Rightarrow> False) vs)"
| "values_ok _ = False"

definition counts_ok :: "trait_counts \<Rightarrow> bool" where
  "counts_ok m \<longleftrightarrow> al_ok m \<and> list_all (\<lambda>(_, j). values_ok j) m"

fun value_count :: "json \<Rightarrow> string \<Rightarrow> nat" where
  "value_count (JObject vs) v = (case map_of vs v of Some (JU64 n) \<Rightarrow> unat n | _ \<Rightarrow> 0)"
| "value_count _ v = 0"

definition trait_count :: "trait_counts \<Rightarrow> token_trait \<Rightarrow> nat" where
  "trait_count m t = (case map_of m (trait_type t) of None \<Rightarrow> 0 | Some j \<Rightarrow> value_count j (trait_value t))"

lemma list_all_al_insert: "P (k, v) \<Longrightarrow> list_all P m \<Longrightarrow> list_all P (al_insert k v m)"
  unfolding al_insert_def by (induction m) auto

lemma list_all_al_remove: "list_all P m \<Longrightarrow> list_all P (al_remove k m)"
  by (auto simp: al_remove_def list_all_iff)

lemma al_insert_not_Nil [simp]: "al_insert k v m \<noteq> []"
  by (cases m) (auto simp: al_insert_def split: if_splits)

lemma al_insert_twice [simp]: "al_insert k v (al_insert k w m) = al_insert k v m"
  unfolding al_insert_def by (induction m) auto

lemma counts_ok_lookup: "counts_ok m \<Longrightarrow> map_of m k = Some j \<Longrightarrow> \<exists>vs. j = JObject vs \<and> values_ok (JObject vs)"
proof -
  assume "counts_ok m" and "map_of m k = Some j"
  then have "values_ok j" by (auto simp: counts_ok_def list_all_iff dest!: map_of_SomeD)
  then show ?thesis by (cases j) simp_all
qed

lemma values_ok_lookup: "values_ok (JObject vs) \<Longrightarrow> map_of vs k = Some j \<Longrightarrow> \<exists>n. j = JU64 n \<and> n \<noteq> 0"
  by (cases j) (auto simp: list_all_iff dest!: map_of_SomeD)

lemma counts_ok_insert: "counts_ok m \<Longrightarrow> values_ok j \<Longrightarrow> counts_ok (al_insert k j m)"
  by (auto simp: counts_ok_def intro: list_all_al_insert)

lemma token_trait_eq: "(t :: token_trait) = u \<longleftrightarrow> trait_type t = trait_type u \<and> trait_value t = trait_value u"
  by (cases t; cases u) simp

lemma subtract_trait_ok:
  assumes "counts_ok m"
  shows "counts_ok (subtract_trait t m) \<and> trait_count (subtract_trait t m) u = trait_count m u - (if u = t then 1 else 0)"
proof (cases "map_of m (trait_type t)")
  case None
  then show ?thesis using assms by (auto simp: subtract_trait_def trait_count_def)
next
  case (Some j)
  then obtain vs where j: "j = JObject vs" "values_ok (JObject vs)" using counts_ok_lookup[OF assms] by blast
  show ?thesis
  proof (cases "map_of vs (trait_value t)")
    case None
    then have "subtract_trait t m = al_insert (trait_type t) (JObject vs) m"
      using Some j by (simp add: subtract_trait_def)
    then show ?thesis using Some j None assms counts_ok_insert[OF assms j(2)] by (auto simp: trait_count_def token_trait_eq)
  next
    case v: (Some x)
    then obtain n where n: "x = JU64 n" "n \<noteq> 0" using values_ok_lookup[OF j(2)] by blast
    define vs' where "vs' = (if n > 1 then al_insert (trait_value t) (JU64 (n - 1)) vs else al_remove (trait_value t) vs)"
    have st: "subtract_trait t m = (if vs' = [] then al_remove (trait_type t) m else al_insert (trait_type t) (JObject vs') m)"
      using Some j v n by (simp add: subtract_trait_def vs'_def)
    have dec: "n > 1 \<Longrightarrow> n - 1 \<noteq> 0 \<and> unat (n - 1) = unat n - 1" "\<not> n > 1 \<Longrightarrow> unat n = 1"
      using n(2) by (auto simp: unat_sub word_less_nat_alt unat_eq_0 word_le_nat_alt)
        (metis One_nat_def Suc_lessI neq0_conv unat_eq_zero)
    have ok': "vs' \<noteq> [] \<Longrightarrow> values_ok (JObject vs')"
      using j(2) dec(1) by (auto simp: vs'_def intro: list_all_al_insert list_all_al_remove)
    have cnt: "value_count (JObject vs') w = value_count (JObject vs) w - (if w = trait_value t then 1 else 0)" for w
      using v n dec by (auto simp: vs'_def)
    have nil: "vs' = [] \<Longrightarrow> value_count (JObject vs') w = 0" for w by simp
    have "counts_ok (subtract_trait t m)"
      using st assms ok' counts_ok_insert[OF assms] by (auto simp: counts_ok_def intro: list_all_al_remove)
    moreover have "trait_count (subtract_trait t m) u = trait_count m u - (if u = t then 1 else 0)"
      using st Some j(1) cnt[of "trait_value u"] nil by (auto simp: trait_count_def token_trait_eq simp del: value_count.simps)
    ultimately show ?thesis by simp
  qed
qed

lemma add_trait_ok:
  assumes "counts_ok m" and "trait_count m t + 1 < 2 ^ 64"
  shows "counts_ok (add_trait t m) \<and> trait_count (add_trait t m) u = trait_count m u + (if u = t then 1 else 0)"
proof (cases "map_of m (trait_type t)")
  case None
  then have add: "add_trait t m = al_insert (trait_type t) (JObject [(trait_value t, JU64 1)]) m"
    by (simp add: add_trait_def) (simp add: al_insert_def)
  have "values_ok (JObject [(trait_value t, JU64 1)])" by (simp add: al_ok_def)
  then show ?thesis using None counts_ok_insert[OF assms(1)] by (auto simp: add trait_count_def token_trait_eq)
next
  case (Some j)
  then obtain vs where j: "j = JObject vs" "values_ok (JObject vs)" using counts_ok_lookup[OF assms(1)] by blast
  show ?thesis
  proof (cases "map_of vs (trait_value t)")
    case None
    have "values_ok (JObject (al_insert (trait_value t) (JU64 1) vs))"
      using j(2) by (auto intro: list_all_al_insert)
    then show ?thesis using Some j None counts_ok_insert[OF assms(1)] by (auto simp: add_trait_def trait_count_def token_trait_eq)
  next
    case v: (Some x)
    then obtain n where n: "x = JU64 n" "n \<noteq> 0" using values_ok_lookup[OF j(2)] by blast
    have "unat n + 1 < 2 ^ 64" using assms(2) Some j v n by (simp add: trait_count_def)
    then have inc: "unat (n + 1) = unat n + 1" by (simp add: unat_word_ariths)
    then have "n + 1 \<noteq> 0" by (metis Suc_eq_plus1 nat.distinct(1) unat_0)
    then have "values_ok (JObject (al_insert (trait_value t) (JU64 (n + 1)) vs))"
      using j(2) by (auto intro: list_all_al_insert)
    then show ?thesis using Some j v n inc counts_ok_insert[OF assms(1)] by (auto simp: add_trait_def trait_count_def token_trait_eq)
  qed
qed

lemma fold_subtract_trait:
  "counts_ok m \<Longrightarrow> counts_ok (fold subtract_trait ts m) \<and> trait_count (fold subtract_trait ts m) u = trait_count m u - count_list ts u"
  by (induction ts arbitrary: m) (auto simp: subtract_trait_ok)

lemma fold_add_trait:
  assumes "counts_ok m" and "\<And>u. trait_count m u + count_list ts u < 2 ^ 64"
  shows "counts_ok (fold add_trait ts m) \<and> trait_count (fold add_trait ts m) u = trait_count m u + count_list ts u"
  using assms
proof (induction ts arbitrary: m)
  case (Cons t ts)
  have ok: "counts_ok (add_trait t m) \<and> trait_count (add_trait t m) u = trait_count m u + (if u = t then 1 else 0)" for u
    using Cons.prems(2)[of t] by (intro add_trait_ok Cons.prems(1)) simp
  have "trait_count (add_trait t m) u + count_list ts u < 2 ^ 64" for u
    using Cons.prems(2)[of u] ok[of u] by (auto split: if_splits)
  from Cons.IH[OF conjunct1[OF ok] this] ok[of u] show ?case by auto
qed simp

section \<open>Properties\<close>

text \<open>
  The counts are right: subtracting and adding traits lowers the count of every subtracted trait once per occurrence, never below zero, and raises that of
  every added one, and what is written has the shape it was read in, without zero counts and empty groups.
\<close>

theorem trait_operations_count:
  assumes "counts_ok (current_traits J existing)"
    and "\<And>t. trait_count (current_traits J existing) t + count_list add_traits t < 2 ^ 64"
  shows "\<exists>m. apply_trait_operations J existing add_traits subtract_traits = json_to_string J (JObject m) \<and> counts_ok m \<and>
    (\<forall>t. trait_count m t = trait_count (current_traits J existing) t - count_list subtract_traits t + count_list add_traits t)"
proof -
  let ?m = "fold subtract_trait subtract_traits (current_traits J existing)"
  have s: "counts_ok ?m \<and> trait_count ?m t = trait_count (current_traits J existing) t - count_list subtract_traits t" for t
    by (rule fold_subtract_trait[OF assms(1)])
  have "trait_count ?m t + count_list add_traits t < 2 ^ 64" for t using s[of t] assms(2)[of t] by linarith
  from fold_add_trait[OF conjunct1[OF s] this] s show ?thesis
    by (intro exI[of _ "fold add_trait add_traits ?m"]) (simp add: apply_trait_operations_def)
qed

definition sample_json :: json_text where
  "sample_json = \<lparr>json_from_str = (\<lambda>s. if s = ''colors'' then Inr (JObject [(''Color'', JObject [(''Red'', JU64 2), (''Blue'', JU64 1)])]) else Inl ''no''),
     json_to_string = (\<lambda>j. if j = JObject [(''Color'', JObject [(''Red'', JU64 2), (''Green'', JU64 1)])] then ''recolored'' else ''other'')\<rparr>"

theorem trait_operations_count_witness:
  "\<exists>m. apply_trait_operations sample_json ''colors'' [\<lparr>trait_type = ''Color'', trait_value = ''Green''\<rparr>]
      [\<lparr>trait_type = ''Color'', trait_value = ''Blue''\<rparr>] = json_to_string sample_json (JObject m) \<and> counts_ok m \<and>
    trait_count m \<lparr>trait_type = ''Color'', trait_value = ''Blue''\<rparr> = 0 \<and>
    trait_count m \<lparr>trait_type = ''Color'', trait_value = ''Green''\<rparr> = 1"
proof -
  have m: "current_traits sample_json ''colors'' = [(''Color'', JObject [(''Red'', JU64 2), (''Blue'', JU64 1)])]"
    by (simp add: current_traits_def sample_json_def)
  have ok: "counts_ok (current_traits sample_json ''colors'')" unfolding m by (simp add: counts_ok_def al_ok_def)
  have "trait_count (current_traits sample_json ''colors'') t \<le> 2" for t by (simp add: m trait_count_def)
  then have "trait_count (current_traits sample_json ''colors'') t + count_list [\<lparr>trait_type = ''Color'', trait_value = ''Green''\<rparr>] t < 2 ^ 64" for t
    by (rule le_less_trans[OF add_mono]) (auto intro: count_le_length[THEN order.trans])
  from trait_operations_count[OF ok this, of "[\<lparr>trait_type = ''Color'', trait_value = ''Blue''\<rparr>]"]
  obtain m where "apply_trait_operations sample_json ''colors'' [\<lparr>trait_type = ''Color'', trait_value = ''Green''\<rparr>]
      [\<lparr>trait_type = ''Color'', trait_value = ''Blue''\<rparr>] = json_to_string sample_json (JObject m)" "counts_ok m"
    and c: "trait_count m t = trait_count (current_traits sample_json ''colors'') t -
      count_list [\<lparr>trait_type = ''Color'', trait_value = ''Blue''\<rparr>] t + count_list [\<lparr>trait_type = ''Color'', trait_value = ''Green''\<rparr>] t" for t
    by blast
  moreover have "trait_count m \<lparr>trait_type = ''Color'', trait_value = ''Blue''\<rparr> = 0"
    "trait_count m \<lparr>trait_type = ''Color'', trait_value = ''Green''\<rparr> = 1"
    unfolding c by (simp_all add: m trait_count_def)
  ultimately show ?thesis by blast
qed

end
