(* ===== verification/Database.thy ===== *)
theory Database
  imports Cache TokenTraits
begin

text \<open>
  The state of the storage executor (\<open>crates/sqlite/sqlite/src/executor/mod.rs\<close>): the tables of the database it reads and writes by itself, its open
  transaction, and the messages it publishes to subscribers.

  A row is keyed by the identifier whose text is its primary key. Numbers of 256 bits are stored as text; how the text is made and read back
  is code of another package, the parameter \<open>u256_text\<close>. The 64-bit columns of a contract are read as unsigned again, so they are kept as words. Tables that are
  only written by statements other modules put together are in \<open>other_tables\<close>.
\<close>

section \<open>Tables\<close>

record token_row =
  tk_name :: string
  tk_symbol :: string
  tk_decimals :: "8 word"
  tk_metadata :: "string option"
  tk_total_supply :: "string option"
  tk_traits :: string

record 'o database =
  contracts_table :: "contract list"
  tokens_table :: "(token_id \<times> token_row) list"
  balances_table :: "(balance_id \<times> string) list"
  attributes_table :: "((token_id \<times> string) \<times> token_trait) list"
  other_tables :: 'o

record u256_text =
  lower_hex :: "u256 \<Rightarrow> string"
  from_be_hex :: "string \<Rightarrow> u256 option"

definition u256_to_sql_string :: "u256_text \<Rightarrow> u256 \<Rightarrow> string" where
  "u256_to_sql_string X v = lower_hex X v"

definition sql_string_to_u256 :: "u256_text \<Rightarrow> string \<Rightarrow> u256 option" where
  "sql_string_to_u256 X s = from_be_hex X (if take 2 s = ''0x'' then drop 2 s else s)"

section \<open>The executor\<close>

datatype 'm broker_message =
  ContractUpdate contract
| TokenRegistered token_id token_row
| TokenBalanceUpdated balance_id string
| OtherUpdate 'm

text \<open>\<open>published\<close> is what subscribers have been sent so far; the flag tells the updates that are not committed yet.\<close>

record ('o, 'm) executor =
  pool_db :: "'o database"
  transaction :: "'o database option"
  publish_queue :: "'m broker_message list"
  published :: "('m broker_message \<times> bool) list"

datatype query_error =
  QSqlite string
| QProvider string
| QSqlx string
| QParse string
| QPrimitive string
| QExecutor string
| QModelNotFound string
| QModelMappingError string

datatype failure = QErr query_error | QPanic

type_synonym ('o, 'm, 'a) execution = "(('o, 'm) executor, failure, 'a) stateful"

definition publish_optimistic_and_queue :: "'m broker_message \<Rightarrow> ('o, 'm, unit) execution" where
  "publish_optimistic_and_queue msg ex =
     (Inr (), ex\<lparr>published := published ex @ [(msg, True)], publish_queue := publish_queue ex @ [msg]\<rparr>)"

text \<open>\<open>self.transaction.as_mut().unwrap()\<close>, and a read or a write through it.\<close>

definition read_tx :: "('o database \<Rightarrow> 'a) \<Rightarrow> ('o, 'm, 'a) execution" where
  "read_tx f ex = (case transaction ex of None \<Rightarrow> (Inl QPanic, ex) | Some db \<Rightarrow> (Inr (f db), ex))"

definition write_tx :: "('o database \<Rightarrow> 'o database) \<Rightarrow> ('o, 'm, unit) execution" where
  "write_tx f ex =
     (case transaction ex of None \<Rightarrow> (Inl QPanic, ex) | Some db \<Rightarrow> (Inr (), ex\<lparr>transaction := Some (f db)\<rparr>))"

definition sql_scalar :: "'a option \<Rightarrow> ('o, 'm, 'a) execution" where
  "sql_scalar x = (case x of None \<Rightarrow> fail (QErr (QSqlx ''RowNotFound'')) | Some a \<Rightarrow> ret a)"

definition unwrap_or_panic :: "'a option \<Rightarrow> ('o, 'm, 'a) execution" where
  "unwrap_or_panic x = (case x of None \<Rightarrow> fail QPanic | Some a \<Rightarrow> ret a)"

section \<open>What every query keeps\<close>

text \<open>
  Only committing touches what readers of the pool see. A query may end with an error in the middle: what it has written by then stays in
  the open transaction.
\<close>

definition within_tx :: "('o, 'm) executor \<Rightarrow> ('o, 'm) executor \<Rightarrow> bool" where
  "within_tx ex ex' \<longleftrightarrow> pool_db ex' = pool_db ex \<and> (transaction ex' = None \<longleftrightarrow> transaction ex = None) \<and>
     (\<exists>ms. publish_queue ex' = publish_queue ex @ ms \<and> published ex' = published ex @ map (\<lambda>m. (m, True)) ms)"

lemma within_tx_refl [simp]: "within_tx ex ex"
  by (simp add: within_tx_def)

lemma within_tx_trans:
  assumes "within_tx a b" and "within_tx b c"
  shows "within_tx a c"
proof -
  from assms obtain ms ns where "publish_queue b = publish_queue a @ ms" "published b = published a @ map (\<lambda>m. (m, True)) ms"
    "publish_queue c = publish_queue b @ ns" "published c = published b @ map (\<lambda>m. (m, True)) ns"
    by (auto simp: within_tx_def)
  with assms show ?thesis unfolding within_tx_def by (intro conjI exI[of _ "ms @ ns"]) simp_all
qed

definition confined :: "('o, 'm, 'a) execution \<Rightarrow> bool" where
  "confined q \<longleftrightarrow> (\<forall>ex. within_tx ex (snd (q ex)))"

lemma confinedD: "confined q \<Longrightarrow> q ex = (r, ex') \<Longrightarrow> within_tx ex ex'"
  by (metis confined_def snd_conv)

named_theorems confined_intros "queries that are confined to the open transaction"

lemma confined_ret [confined_intros]: "confined (ret a)" "confined (fail e)"
  by (simp_all add: confined_def ret_def fail_def)

lemma confined_bind [confined_intros]: "confined q \<Longrightarrow> (\<And>a. confined (f a)) \<Longrightarrow> confined (and_then q f)"
  unfolding confined_def[of "and_then q f"] and_then_def
  by (auto split: prod.split sum.split dest: confinedD intro: within_tx_trans simp: confined_def[of "f _"])

lemma confined_for_each [confined_intros]: "(\<And>x. confined (f x)) \<Longrightarrow> confined (for_each f xs)"
proof (induction xs)
  case (Cons x xs)
  then have "confined (f x)" "confined (for_each f xs)" by simp_all
  then show ?case unfolding confined_def[of "for_each f (x # xs)"]
    by (auto split: prod.split sum.split dest: confinedD intro: within_tx_trans simp: confined_def)
qed (simp add: confined_def)

lemma confined_basic [confined_intros]:
  "confined (publish_optimistic_and_queue msg)" "confined (read_tx f)" "confined (write_tx h)"
  "confined (sql_scalar x)" "confined (unwrap_or_panic x)"
  by (auto simp: confined_def within_tx_def publish_optimistic_and_queue_def read_tx_def write_tx_def sql_scalar_def unwrap_or_panic_def
      fail_def ret_def split: option.split)

lemma confined_if [confined_intros]: "confined a \<Longrightarrow> confined b \<Longrightarrow> confined (if c then a else b)"
  by simp

lemma confined_sum [confined_intros]: "(\<And>e. confined (f e)) \<Longrightarrow> (\<And>a. confined (g a)) \<Longrightarrow> confined (case x of Inl e \<Rightarrow> f e | Inr a \<Rightarrow> g a)"
  by (simp split: sum.split)

lemma confined_option [confined_intros]: "confined a \<Longrightarrow> (\<And>y. confined (f y)) \<Longrightarrow> confined (case x of None \<Rightarrow> a | Some y \<Rightarrow> f y)"
  by (simp split: option.split)

lemma confined_prod [confined_intros]: "(\<And>a b. confined (f a b)) \<Longrightarrow> confined (case x of (a, b) \<Rightarrow> f a b)"
  by (simp split: prod.split)

end
