(* ===== verification/TokenLedger.thy ===== *)
theory TokenLedger
  imports Database ErcCache
begin

text \<open>
  Balances, supplies, attributes and trait counts in storage (\<open>crates/sqlite/sqlite/src/executor/erc.rs\<close>): the executor's queries that apply the
  balance and supply changes a batch has left in the cache, and keep the attributes and trait counts of tokens.

  Starknet is behind the record \<open>token_provider\<close>: contract calls, and the deserialisation of a 256-bit number, on which the code panics if it fails.
  The maps of differences and cursors are hash maps: association lists in the order they iterate in. Primary keys are the only constraints of
  the database that are modelled.
\<close>

section \<open>Applying balance and supply changes\<close>

record token_provider =
  tp_call :: "felt \<Rightarrow> string \<Rightarrow> felt list \<Rightarrow> block_id \<Rightarrow> string + felt list"
  tp_deserialize_u256 :: "felt list \<Rightarrow> u256 option"

record ledger_env =
  le_ops :: u256_ops
  le_text :: u256_text
  le_provider :: token_provider

record apply_balance_diff_query =
  ab_balances_diff :: "(balance_id \<times> i256) list"
  ab_total_supply_diff :: "(token_id \<times> i256) list"
  ab_cursors :: "(felt \<times> contract_cursor) list"

definition apply_supply :: "u256_ops \<Rightarrow> i256 \<Rightarrow> u256 \<Rightarrow> u256" where
  "apply_supply U supply_diff total_supply =
     (if is_negative supply_diff
      then if total_supply \<ge> i_value supply_diff then u256_sub U total_supply (i_value supply_diff) else 0
      else u256_add U total_supply (i_value supply_diff))"

definition update_total_supply :: "ledger_env \<Rightarrow> token_id \<Rightarrow> i256 \<Rightarrow> ('o, 'm, unit) execution" where
  "update_total_supply V t supply_diff =
     and_then (read_tx (\<lambda>db. map_option tk_total_supply (map_of (tokens_table db) t))) (\<lambda>row.
     and_then (sql_scalar row) (\<lambda>current_supply.
     case current_supply of
       None \<Rightarrow> ret ()
     | Some supply_str \<Rightarrow>
         and_then (if supply_str = [] then ret 0 else unwrap_or_panic (sql_string_to_u256 (le_text V) supply_str)) (\<lambda>total_supply.
         write_tx (\<lambda>db. db\<lparr>tokens_table := al_modify t
           (\<lambda>r. r\<lparr>tk_total_supply := Some (u256_to_sql_string (le_text V) (apply_supply (le_ops V) supply_diff total_supply))\<rparr>)
           (tokens_table db)\<rparr>))))"

text \<open>The balance on chain, asked for under both spellings of the entry point.\<close>

definition fetch_balance :: "ledger_env \<Rightarrow> balance_id \<Rightarrow> block_id \<Rightarrow> ('o, 'm, u256) execution" where
  "fetch_balance V b block =
     (let call = (\<lambda>f. tp_call (le_provider V) (token_contract_address (b_token b)) f [b_account b] block) in
      and_then (case call ''balance_of'' of
                  Inr r \<Rightarrow> ret r
                | Inl _ \<Rightarrow> (case call ''balanceOf'' of Inl e \<Rightarrow> fail (QErr (QSqlite e)) | Inr r \<Rightarrow> ret r)) (\<lambda>r.
      unwrap_or_panic (tp_deserialize_u256 (le_provider V) r)))"

definition apply_balance_diff_helper :: "ledger_env \<Rightarrow> balance_id \<Rightarrow> i256 \<Rightarrow> block_id \<Rightarrow> ('o, 'm, unit) execution" where
  "apply_balance_diff_helper V b balance_diff block =
     and_then (read_tx (\<lambda>db. map_of (balances_table db) b)) (\<lambda>row.
     and_then (case row of None \<Rightarrow> ret 0 | Some s \<Rightarrow> unwrap_or_panic (sql_string_to_u256 (le_text V) s)) (\<lambda>balance.
     and_then (if is_negative balance_diff
               then if balance < i_value balance_diff then fetch_balance V b block
                    else ret (u256_sub (le_ops V) balance (i_value balance_diff))
               else ret (u256_add (le_ops V) balance (i_value balance_diff))) (\<lambda>new_balance.
     let text = u256_to_sql_string (le_text V) new_balance in
     and_then (write_tx (\<lambda>db. db\<lparr>balances_table := al_insert b text (balances_table db)\<rparr>)) (\<lambda>_.
     publish_optimistic_and_queue (TokenBalanceUpdated b text)))))"

text \<open>\<open>cursors.get(..).unwrap()\<close> and \<open>cursor.head.unwrap()\<close> may panic.\<close>

definition balance_block :: "(felt \<times> contract_cursor) list \<Rightarrow> balance_id \<Rightarrow> block_id option" where
  "balance_block cursors b =
     (case map_of cursors (token_contract_address (b_token b)) of
        None \<Rightarrow> None
      | Some cursor \<Rightarrow> if c_last_pending_block_tx cursor \<noteq> None then Some PreConfirmed else map_option BlockNumber (c_head cursor))"

definition apply_balance_diff :: "ledger_env \<Rightarrow> apply_balance_diff_query \<Rightarrow> ('o, 'm, unit) execution" where
  "apply_balance_diff V q =
     and_then (for_each (\<lambda>(t, d). update_total_supply V t d) (ab_total_supply_diff q)) (\<lambda>_.
     for_each (\<lambda>(b, d). and_then (unwrap_or_panic (balance_block (ab_cursors q) b)) (\<lambda>block. apply_balance_diff_helper V b d block))
       (ab_balances_diff q))"

section \<open>Attributes and trait counts\<close>

definition insert_attribute :: "token_id \<Rightarrow> token_trait \<Rightarrow> ('o, 'm, unit) execution" where
  "insert_attribute t tr =
     (let k = (t, trait_type tr @ '':'' @ trait_value tr) in
      and_then (read_tx (\<lambda>db. map_of (attributes_table db) k)) (\<lambda>row.
      if row \<noteq> None then fail (QErr (QSqlx ''UNIQUE constraint failed''))
      else write_tx (\<lambda>db. db\<lparr>attributes_table := attributes_table db @ [(k, tr)]\<rparr>)))"

definition store_token_attributes :: "json_text \<Rightarrow> string \<Rightarrow> token_id \<Rightarrow> ('o, 'm, unit) execution" where
  "store_token_attributes J metadata t =
     (if metadata = [] then ret ()
      else case extract_traits_from_json J metadata of
             Inl _ \<Rightarrow> ret ()
           | Inr traits \<Rightarrow>
               and_then (write_tx (\<lambda>db. db\<lparr>attributes_table := filter (\<lambda>((t', _), _). t' \<noteq> t) (attributes_table db)\<rparr>)) (\<lambda>_.
               for_each (insert_attribute t) traits))"

definition set_contract_traits :: "felt \<Rightarrow> string \<Rightarrow> ('o, 'm, unit) execution" where
  "set_contract_traits contract_address traits =
     write_tx (\<lambda>db. db\<lparr>tokens_table := al_modify (Contract contract_address) (\<lambda>r. r\<lparr>tk_traits := traits\<rparr>) (tokens_table db)\<rparr>)"

definition read_contract_traits :: "felt \<Rightarrow> ('o, 'm, string option) execution" where
  "read_contract_traits contract_address = read_tx (\<lambda>db. map_option tk_traits (map_of (tokens_table db) (Contract contract_address)))"

definition update_contract_traits_from_metadata :: "json_text \<Rightarrow> string \<Rightarrow> felt \<Rightarrow> ('o, 'm, unit) execution" where
  "update_contract_traits_from_metadata J metadata contract_address =
     (if metadata = [] then ret ()
      else and_then (read_contract_traits contract_address) (\<lambda>current.
        case current of
          None \<Rightarrow> ret ()
        | Some current_traits_str \<Rightarrow>
            (case extract_traits_from_metadata J metadata current_traits_str of
               Inl _ \<Rightarrow> ret ()
             | Inr updated_traits \<Rightarrow> set_contract_traits contract_address updated_traits)))"

definition update_contract_traits_on_metadata_change :: "json_text \<Rightarrow> string \<Rightarrow> string \<Rightarrow> felt \<Rightarrow> ('o, 'm, unit) execution" where
  "update_contract_traits_on_metadata_change J old_metadata new_metadata contract_address =
     and_then (read_contract_traits contract_address) (\<lambda>current.
       case current of
         None \<Rightarrow> ret ()
       | Some current_traits_str \<Rightarrow>
           (let old_traits = (if old_metadata = [] then []
                              else case extract_traits_from_json J old_metadata of Inl _ \<Rightarrow> [] | Inr ts \<Rightarrow> ts) in
            case (if new_metadata = [] then Inr [] else extract_traits_from_json J new_metadata) of
              Inl _ \<Rightarrow> ret ()
            | Inr new_traits \<Rightarrow>
                set_contract_traits contract_address (apply_trait_operations J current_traits_str new_traits old_traits)))"

lemma confined_ledger [confined_intros]:
  "confined (update_total_supply V t d)"
  "confined (fetch_balance V b block)"
  "confined (apply_balance_diff_helper V b d block)"
  "confined (apply_balance_diff V q)"
  "confined (store_token_attributes J metadata t)"
  "confined (update_contract_traits_from_metadata J metadata a)"
  "confined (update_contract_traits_on_metadata_change J metadata metadata' a)"
proof -
  show sup: "confined (update_total_supply V t d)" for V :: ledger_env and t d
    unfolding update_total_supply_def by (intro confined_intros)
  show fet: "confined (fetch_balance V b block)" for V :: ledger_env and b block
    unfolding fetch_balance_def Let_def by (intro confined_intros)
  show hlp: "confined (apply_balance_diff_helper V b d block)" for V b d block
    unfolding apply_balance_diff_helper_def Let_def by (intro confined_intros fet)
  show "confined (apply_balance_diff V q)"
    unfolding apply_balance_diff_def by (intro confined_intros sup hlp)
  show "confined (store_token_attributes J metadata t)"
    unfolding store_token_attributes_def insert_attribute_def Let_def by (intro confined_intros)
  show "confined (update_contract_traits_from_metadata J metadata a)"
    unfolding update_contract_traits_from_metadata_def read_contract_traits_def set_contract_traits_def by (intro confined_intros)
  show "confined (update_contract_traits_on_metadata_change J metadata metadata' a)"
    unfolding update_contract_traits_on_metadata_change_def read_contract_traits_def set_contract_traits_def Let_def by (intro confined_intros)
qed

end
