(* ===== verification/Executor.thy ===== *)
theory Executor
  imports TokenLedger
begin

text \<open>
  The storage executor (\<open>crates/sqlite/sqlite/src/executor/mod.rs\<close>): one task that handles the queries other tasks send it, in order, within one open
  transaction, until a query tells it to commit or to roll back; and the storage methods that send the queries (\<open>storage.rs\<close>).

  The record \<open>executor_env\<close> has what is outside: SQLite's answers to committing, rolling back and beginning a transaction (\<open>None\<close>: it succeeded),
  Starknet's answers for the name and symbol of a contract and their deserialisation, the clock, and \<open>xe_statement\<close>, the queries on entities, event messages,
  transactions, models and events, which only work on tables of their own. Metrics, logs and \<open>PRAGMA optimize\<close> are left out. Subtraction of timestamps wraps, as
  in a release build.
\<close>

section \<open>Queries\<close>

record update_cursors_query =
  uc_cursors :: "(felt \<times> contract_cursor) list"
  uc_transactions :: "(felt \<times> felt set) list"

record register_nft_token_query =
  rn_contract_address :: felt
  rn_token_id :: u256
  rn_metadata :: string

record register_token_contract_query =
  rt_contract_address :: felt
  rt_name :: string
  rt_symbol :: string
  rt_decimals :: "8 word"
  rt_metadata :: "string option"

record update_token_metadata_query =
  um_token_id :: token_id
  um_metadata :: string

datatype 'q query =
  UpdateCursors update_cursors_query
| ApplyBalanceDiff apply_balance_diff_query
| RegisterNftToken register_nft_token_query
| RegisterTokenContract register_token_contract_query
| UpdateTokenMetadata update_token_metadata_query
| RegisterContract felt contract_type u64
| Statement 'q
| Execute
| Rollback

record ('q, 'o, 'm) executor_env =
  xe_ledger :: ledger_env
  xe_json :: json_text
  xe_token_attributes :: bool
  xe_trait_counts :: bool
  xe_now :: u64
  xe_name_symbol :: "felt \<Rightarrow> string + felt list option list"
  xe_short_string :: "felt \<Rightarrow> string + string"
  xe_byte_array :: "felt list \<Rightarrow> string + string"
  xe_statement :: "'q \<Rightarrow> 'o \<Rightarrow> (failure + 'm list) \<times> 'o"
  xe_commit :: "('o, 'm) executor \<Rightarrow> string option"
  xe_truncate_wal :: "('o, 'm) executor \<Rightarrow> string option"
  xe_rollback :: "('o, 'm) executor \<Rightarrow> string option"
  xe_begin :: "('o, 'm) executor \<Rightarrow> string option"
  xe_show :: "query_error \<Rightarrow> string"

section \<open>Cursors\<close>

definition or_zero :: "u64 option \<Rightarrow> u64" where
  "or_zero x = (case x of None \<Rightarrow> 0 | Some v \<Rightarrow> v)"

definition new_tps :: "u64 \<Rightarrow> u64 \<Rightarrow> u64 \<Rightarrow> u64 \<Rightarrow> u64" where
  "new_tps now num_transactions new_timestamp cursor_timestamp =
     (if new_timestamp - cursor_timestamp \<noteq> 0 then num_transactions div (new_timestamp - cursor_timestamp)
      else let diff = (if cursor_timestamp \<le> now then now - cursor_timestamp else 0) in
           if diff > 0 then num_transactions div diff else num_transactions)"

text \<open>\<open>try_into().expect(..)\<close>: a value that does not fit a signed 64-bit integer panics.\<close>

definition fits_i64 :: "u64 \<Rightarrow> bool" where
  "fits_i64 v \<longleftrightarrow> unat v < 2 ^ 63"

definition updated_contract :: "u64 \<Rightarrow> update_cursors_query \<Rightarrow> contract_cursor \<Rightarrow> contract \<Rightarrow> contract option" where
  "updated_contract now q new_cursor k =
     (let num_transactions = of_nat (card (case map_of (uc_transactions q) (k_address k) of None \<Rightarrow> {} | Some txs \<Rightarrow> txs));
          tps = new_tps now num_transactions (or_zero (c_last_block_timestamp new_cursor)) (or_zero (k_last_block_timestamp k)) in
      if fits_i64 tps \<and> fits_i64 (or_zero (c_last_block_timestamp new_cursor))
      then Some (k\<lparr>k_last_pending_block_tx := c_last_pending_block_tx new_cursor, k_tps := Some tps,
                   k_last_block_timestamp := Some (or_zero (c_last_block_timestamp new_cursor)), k_head := Some (or_zero (c_head new_cursor))\<rparr>)
      else None)"

text \<open>The statement does not write the transactions per second: they are only in the message.\<close>

definition store_cursor :: "contract \<Rightarrow> contract list \<Rightarrow> contract list" where
  "store_cursor k' ks = map (\<lambda>k. if k_address k = k_address k'
     then k\<lparr>k_head := k_head k', k_last_block_timestamp := k_last_block_timestamp k',
            k_last_pending_block_tx := k_last_pending_block_tx k'\<rparr> else k) ks"

fun update_contracts :: "u64 \<Rightarrow> update_cursors_query \<Rightarrow> contract list \<Rightarrow> ('o, 'm, contract list) execution" where
  "update_contracts now q [] = ret []"
| "update_contracts now q (k # ks) =
     (case map_of (uc_cursors q) (k_address k) of
        None \<Rightarrow> update_contracts now q ks
      | Some new_cursor \<Rightarrow>
          and_then (unwrap_or_panic (updated_contract now q new_cursor k)) (\<lambda>k'.
          and_then (write_tx (\<lambda>db. db\<lparr>contracts_table := store_cursor k' (contracts_table db)\<rparr>)) (\<lambda>_.
          and_then (update_contracts now q ks) (\<lambda>updates. ret (k' # updates)))))"

definition update_cursors :: "u64 \<Rightarrow> update_cursors_query \<Rightarrow> ('o, 'm, unit) execution" where
  "update_cursors now q =
     and_then (read_tx contracts_table) (\<lambda>contracts.
     and_then (update_contracts now q contracts) (\<lambda>updates.
     for_each (\<lambda>k. publish_optimistic_and_queue (ContractUpdate k)) updates))"

section \<open>Contracts and tokens\<close>

definition insert_contract :: "felt \<Rightarrow> contract_type \<Rightarrow> u64 \<Rightarrow> contract list \<Rightarrow> contract list" where
  "insert_contract a ct head ks =
     (if a \<in> k_address ` set ks then map (\<lambda>k. if k_address k = a then k\<lparr>k_type := ct, k_head := Some head\<rparr> else k) ks
      else ks @ [\<lparr>k_address = a, k_type = ct, k_head = Some head, k_tps = None, k_last_block_timestamp = None,
                  k_last_pending_block_tx = None\<rparr>])"

definition register_contract_query :: "felt \<Rightarrow> contract_type \<Rightarrow> u64 \<Rightarrow> ('o, 'm, unit) execution" where
  "register_contract_query a ct head =
     and_then (write_tx (\<lambda>db. db\<lparr>contracts_table := insert_contract a ct head (contracts_table db)\<rparr>)) (\<lambda>_.
     and_then (read_tx (\<lambda>db. List.find (\<lambda>k. k_address k = a) (contracts_table db))) (\<lambda>row.
     and_then (sql_scalar row) (\<lambda>k. publish_optimistic_and_queue (ContractUpdate k))))"

definition insert_token :: "token_id \<Rightarrow> token_row \<Rightarrow> ('o, 'm, unit) execution" where
  "insert_token t row =
     and_then (read_tx (\<lambda>db. map_of (tokens_table db) t)) (\<lambda>old.
     if old \<noteq> None then fail (QErr (QSqlx ''UNIQUE constraint failed''))
     else write_tx (\<lambda>db. db\<lparr>tokens_table := tokens_table db @ [(t, row)]\<rparr>))"

definition register_token_contract :: "('q, 'o, 'm) executor_env \<Rightarrow> register_token_contract_query \<Rightarrow> ('o, 'm, unit) execution" where
  "register_token_contract X q =
     (let t = Contract (rt_contract_address q);
          row = \<lparr>tk_name = rt_name q, tk_symbol = rt_symbol q, tk_decimals = rt_decimals q, tk_metadata = rt_metadata q,
                 tk_total_supply = Some (u256_to_sql_string (le_text (xe_ledger X)) 0), tk_traits = ''{}''\<rparr> in
      and_then (insert_token t row) (\<lambda>_. publish_optimistic_and_queue (TokenRegistered t row)))"

definition parse_text :: "('q, 'o, 'm) executor_env \<Rightarrow> felt list option \<Rightarrow> ('o, 'm, string) execution" where
  "parse_text X r =
     (case r of
        None \<Rightarrow> ret ''''
      | Some fs \<Rightarrow>
          (case (case fs of [f] \<Rightarrow> xe_short_string X f | _ \<Rightarrow> xe_byte_array X fs) of
             Inl e \<Rightarrow> fail (QErr (QParse e))
           | Inr s \<Rightarrow> ret s))"

definition contract_name_symbol :: "('q, 'o, 'm) executor_env \<Rightarrow> felt \<Rightarrow> ('o, 'm, string \<times> string) execution" where
  "contract_name_symbol X a =
     and_then (read_tx (\<lambda>db. List.find (\<lambda>(t, _). token_contract_address t = a) (tokens_table db))) (\<lambda>row.
     case row of
       Some (_, r) \<Rightarrow> ret (tk_name r, tk_symbol r)
     | None \<Rightarrow>
         (case xe_name_symbol X a of
            Inl _ \<Rightarrow> ret ('''', '''')
          | Inr results \<Rightarrow>
              (case results of
                 [] \<Rightarrow> fail QPanic
               | [n] \<Rightarrow> and_then (parse_text X n) (\<lambda>_. fail QPanic)
               | n # s # _ \<Rightarrow> and_then (parse_text X n) (\<lambda>name. and_then (parse_text X s) (\<lambda>symbol. ret (name, symbol))))))"

definition register_nft_token :: "('q, 'o, 'm) executor_env \<Rightarrow> register_nft_token_query \<Rightarrow> ('o, 'm, unit) execution" where
  "register_nft_token X q =
     and_then (contract_name_symbol X (rn_contract_address q)) (\<lambda>(contract_name, symbol).
     let name = (case extract_name_from_metadata (xe_json X) (rn_metadata q) of Some n \<Rightarrow> n | None \<Rightarrow> contract_name);
         t = Nft (rn_contract_address q) (rn_token_id q);
         row = \<lparr>tk_name = name, tk_symbol = symbol, tk_decimals = 0, tk_metadata = Some (rn_metadata q),
                tk_total_supply = Some (u256_to_sql_string (le_text (xe_ledger X)) 0), tk_traits = ''{}''\<rparr> in
     and_then (insert_token t row) (\<lambda>_.
     and_then (if xe_token_attributes X then store_token_attributes (xe_json X) (rn_metadata q) t else ret ()) (\<lambda>_.
     and_then (if xe_trait_counts X then update_contract_traits_from_metadata (xe_json X) (rn_metadata q) (rn_contract_address q) else ret ())
       (\<lambda>_. publish_optimistic_and_queue (TokenRegistered t row)))))"

definition update_token_metadata :: "('q, 'o, 'm) executor_env \<Rightarrow> update_token_metadata_query \<Rightarrow> ('o, 'm, unit) execution" where
  "update_token_metadata X q =
     (let t = um_token_id q in
      and_then (write_tx (\<lambda>db. db\<lparr>tokens_table := al_modify t (\<lambda>r. r\<lparr>tk_metadata := Some (um_metadata q)\<rparr>) (tokens_table db)\<rparr>)) (\<lambda>_.
      and_then (read_tx (\<lambda>db. map_of (tokens_table db) t)) (\<lambda>row0.
      and_then (sql_scalar row0) (\<lambda>token.
      and_then (if \<not> is_nft t then ret ()
                else and_then (read_tx (\<lambda>db. case map_of (tokens_table db) t of None \<Rightarrow> None | Some r \<Rightarrow> tk_metadata r)) (\<lambda>old.
                     let old_metadata = (case old of None \<Rightarrow> '''' | Some m \<Rightarrow> m) in
                     and_then (if xe_token_attributes X then store_token_attributes (xe_json X) (um_metadata q) t else ret ()) (\<lambda>_.
                     if xe_trait_counts X
                     then update_contract_traits_on_metadata_change (xe_json X) old_metadata (um_metadata q) (token_contract_address t)
                     else ret ()))) (\<lambda>_.
      publish_optimistic_and_queue (TokenRegistered t token))))))"

section \<open>Statements, commit and rollback\<close>

definition run_statement :: "('q, 'o, 'm) executor_env \<Rightarrow> 'q \<Rightarrow> ('o, 'm, unit) execution" where
  "run_statement X q ex =
     (case transaction ex of
        None \<Rightarrow> (Inl QPanic, ex)
      | Some db \<Rightarrow>
          (case xe_statement X q (other_tables db) of
             (Inl e, t) \<Rightarrow> (Inl e, ex\<lparr>transaction := Some (db\<lparr>other_tables := t\<rparr>)\<rparr>)
           | (Inr ms, t) \<Rightarrow>
               for_each (\<lambda>m. publish_optimistic_and_queue (OtherUpdate m)) ms (ex\<lparr>transaction := Some (db\<lparr>other_tables := t\<rparr>)\<rparr>)))"

definition begin_transaction :: "('q, 'o, 'm) executor_env \<Rightarrow> ('o, 'm, unit) execution" where
  "begin_transaction X ex =
     (case xe_begin X ex of
        Some e \<Rightarrow> (Inl (QErr (QExecutor e)), ex)
      | None \<Rightarrow> (Inr (), ex\<lparr>transaction := Some (pool_db ex)\<rparr>))"

definition commit_transaction :: "('q, 'o, 'm) executor_env \<Rightarrow> ('o, 'm, unit) execution" where
  "commit_transaction X ex =
     (case transaction ex of
        None \<Rightarrow> (Inr (), ex)
      | Some db \<Rightarrow>
          (case xe_commit X ex of
             Some e \<Rightarrow> (Inl (QErr (QExecutor e)), ex\<lparr>transaction := None\<rparr>)
           | None \<Rightarrow> (Inr (), ex\<lparr>pool_db := db, transaction := None\<rparr>)))"

definition check_and_truncate_wal :: "('q, 'o, 'm) executor_env \<Rightarrow> ('o, 'm, unit) execution" where
  "check_and_truncate_wal X ex = (case xe_truncate_wal X ex of Some e \<Rightarrow> (Inl (QErr (QExecutor e)), ex) | None \<Rightarrow> (Inr (), ex))"

definition execute :: "('q, 'o, 'm) executor_env \<Rightarrow> ('o, 'm, unit) execution" where
  "execute X =
     and_then (commit_transaction X) (\<lambda>_.
     and_then (check_and_truncate_wal X) (\<lambda>_.
     and_then (begin_transaction X) (\<lambda>_ ex.
       (Inr (), ex\<lparr>published := published ex @ map (\<lambda>m. (m, False)) (publish_queue ex), publish_queue := []\<rparr>))))"

definition rollback :: "('q, 'o, 'm) executor_env \<Rightarrow> ('o, 'm, unit) execution" where
  "rollback X =
     and_then (\<lambda>ex. case transaction ex of
                None \<Rightarrow> (Inr (), ex)
              | Some _ \<Rightarrow> (case xe_rollback X ex of
                            Some e \<Rightarrow> (Inl (QErr (QExecutor e)), ex\<lparr>transaction := None\<rparr>)
                          | None \<Rightarrow> (Inr (), ex\<lparr>transaction := None\<rparr>))) (\<lambda>_.
     and_then (begin_transaction X) (\<lambda>_ ex. (Inr (), ex\<lparr>publish_queue := []\<rparr>)))"

definition handle_query_message :: "('q, 'o, 'm) executor_env \<Rightarrow> 'q query \<Rightarrow> ('o, 'm, unit) execution" where
  "handle_query_message X q =
     and_then (read_tx (\<lambda>_. ())) (\<lambda>_.
     case q of
       UpdateCursors u \<Rightarrow> update_cursors (xe_now X) u
     | ApplyBalanceDiff a \<Rightarrow> apply_balance_diff (xe_ledger X) a
     | RegisterNftToken r \<Rightarrow> register_nft_token X r
     | RegisterTokenContract r \<Rightarrow> register_token_contract X r
     | UpdateTokenMetadata u \<Rightarrow> update_token_metadata X u
     | RegisterContract a ct head \<Rightarrow> register_contract_query a ct head
     | Statement s \<Rightarrow> run_statement X s
     | Execute \<Rightarrow> execute X
     | Rollback \<Rightarrow> rollback X)"

section \<open>The storage methods\<close>

text \<open>
  A query is handled when it is sent: the executor takes queries in order, and nothing else sees its open transaction. A panic ends the executor's task,
  after which its channel is closed. \<open>send\<close> does not wait for the result, which is only logged; \<open>request\<close> does.
\<close>

record ('o, 'm) sql_storage =
  sq_executor :: "('o, 'm) executor"
  sq_alive :: bool

definition serve :: "('q, 'o, 'm) executor_env \<Rightarrow> 'q query \<Rightarrow> ('o, 'm) sql_storage \<Rightarrow> (failure + unit) \<times> ('o, 'm) sql_storage" where
  "serve X q s = (case handle_query_message X q (sq_executor s) of (r, ex) \<Rightarrow> (r, \<lparr>sq_executor = ex, sq_alive = (r \<noteq> Inl QPanic)\<rparr>))"

definition send :: "('q, 'o, 'm) executor_env \<Rightarrow> 'q query \<Rightarrow> (('o, 'm) sql_storage, string, unit) stateful" where
  "send X q s = (if sq_alive s then (Inr (), snd (serve X q s)) else (Inl ''SendError'', s))"

definition request :: "('q, 'o, 'm) executor_env \<Rightarrow> 'q query \<Rightarrow> (('o, 'm) sql_storage, string, unit) stateful" where
  "request X q s =
     (if sq_alive s
      then case serve X q s of
             (Inr _, s') \<Rightarrow> (Inr (), s')
           | (Inl QPanic, s') \<Rightarrow> (Inl ''RecvError'', s')
           | (Inl (QErr e), s') \<Rightarrow> (Inl (xe_show X e), s')
      else (Inl ''SendError'', s))"

definition storage_update_cursors ::
  "('q, 'o, 'm) executor_env \<Rightarrow> (felt \<times> contract_cursor) list \<Rightarrow> (felt \<times> felt set) list \<Rightarrow> (('o, 'm) sql_storage, string, unit) stateful" where
  "storage_update_cursors X cursors cursor_transactions =
     request X (UpdateCursors \<lparr>uc_cursors = cursors, uc_transactions = cursor_transactions\<rparr>)"

definition storage_apply_balances_diff ::
  "('q, 'o, 'm) executor_env \<Rightarrow> (balance_id \<times> i256) list \<Rightarrow> (token_id \<times> i256) list \<Rightarrow> (felt \<times> contract_cursor) list \<Rightarrow>
   (('o, 'm) sql_storage, string, unit) stateful" where
  "storage_apply_balances_diff X balances supplies cursors =
     send X (ApplyBalanceDiff \<lparr>ab_balances_diff = balances, ab_total_supply_diff = supplies, ab_cursors = cursors\<rparr>)"

definition storage_register_contract ::
  "('q, 'o, 'm) executor_env \<Rightarrow> felt \<Rightarrow> contract_type \<Rightarrow> u64 \<Rightarrow> (('o, 'm) sql_storage, string, unit) stateful" where
  "storage_register_contract X address contract_type head = send X (RegisterContract address contract_type head)"

definition storage_register_token_contract ::
  "('q, 'o, 'm) executor_env \<Rightarrow> felt \<Rightarrow> string \<Rightarrow> string \<Rightarrow> 8 word \<Rightarrow> string option \<Rightarrow> (('o, 'm) sql_storage, string, unit) stateful" where
  "storage_register_token_contract X contract_address name symbol decimals metadata =
     send X (RegisterTokenContract \<lparr>rt_contract_address = contract_address, rt_name = name, rt_symbol = symbol, rt_decimals = decimals,
       rt_metadata = metadata\<rparr>)"

definition storage_register_nft_token ::
  "('q, 'o, 'm) executor_env \<Rightarrow> felt \<Rightarrow> u256 \<Rightarrow> string \<Rightarrow> (('o, 'm) sql_storage, string, unit) stateful" where
  "storage_register_nft_token X contract_address token_id metadata =
     send X (RegisterNftToken \<lparr>rn_contract_address = contract_address, rn_token_id = token_id, rn_metadata = metadata\<rparr>)"

definition storage_update_token_metadata ::
  "('q, 'o, 'm) executor_env \<Rightarrow> token_id \<Rightarrow> string \<Rightarrow> (('o, 'm) sql_storage, string, unit) stateful" where
  "storage_update_token_metadata X token_id metadata = send X (UpdateTokenMetadata \<lparr>um_token_id = token_id, um_metadata = metadata\<rparr>)"

definition storage_execute :: "('q, 'o, 'm) executor_env \<Rightarrow> (('o, 'm) sql_storage, string, unit) stateful" where
  "storage_execute X = request X Execute"

definition storage_rollback :: "('q, 'o, 'm) executor_env \<Rightarrow> (('o, 'm) sql_storage, string, unit) stateful" where
  "storage_rollback X = request X Rollback"

text \<open>Reading goes through the pool: it sees what is committed, the newest contracts first.\<close>

definition storage_contracts :: "felt list \<Rightarrow> contract_type list \<Rightarrow> ('o, 'm) sql_storage \<Rightarrow> contract list" where
  "storage_contracts addresses types s =
     filter (\<lambda>k. (addresses = [] \<or> k_address k \<in> set addresses) \<and> (types = [] \<or> k_type k \<in> set types))
       (rev (contracts_table (pool_db (sq_executor s))))"

definition storage_token_ids :: "('o, 'm) sql_storage \<Rightarrow> token_id list" where
  "storage_token_ids s = map fst (tokens_table (pool_db (sq_executor s)))"

end
