(* ===== verification/LedgerSpec.thy ===== *)
theory LedgerSpec
  imports TokenLedger EventId
begin

text \<open>
  What the ledger in storage promises: applying the differences of a batch changes every balance and every supply by exactly the sum of the batch's
  transfers; and what happens to the rest of the differences when one of them cannot be applied.
\<close>

section \<open>Numbers as text\<close>

locale u256_format =
  fixes X :: u256_text
  assumes reads_back: "sql_string_to_u256 X (u256_to_sql_string X v) = Some v"
    and not_empty: "u256_to_sql_string X v \<noteq> []"

text \<open>64 hexadecimal digits, as \<open>crypto_bigint\<close> prints and expects them.\<close>

definition hex_u256 :: u256_text where
  "hex_u256 = \<lparr>lower_hex = (\<lambda>v. let ds = hex_digits (unat v) in ''0x'' @ replicate (64 - length ds) (CHR ''0'') @ ds),
     from_be_hex = (\<lambda>s. if length s = 64 then map_option of_nat (digits_value 0 s) else None)\<rparr>"

lemma hex_digits_length: "n < 16 ^ Suc k \<Longrightarrow> length (hex_digits n) \<le> Suc k"
proof (induction k arbitrary: n)
  case (Suc k)
  show ?case
  proof (cases "n < 16")
    case False
    have "n div 16 < 16 ^ Suc k" using Suc.prems by (simp add: less_mult_imp_div_less mult.commute)
    with Suc.IH False show ?thesis by (subst hex_digits.simps) simp
  qed (simp add: hex_digits.simps)
qed (simp add: hex_digits.simps)

interpretation hex_numbers: u256_format hex_u256
proof unfold_locales
  fix v :: u256
  let ?ds = "hex_digits (unat v)"
  have "unat v < 2 ^ LENGTH(256)" by (rule unsigned_less)
  then have "unat v < 16 ^ Suc 63" by simp
  then have len: "length ?ds \<le> 64" using hex_digits_length[of "unat v" 63] by simp
  then have "digits_value 0 (replicate (64 - length ?ds) (CHR ''0'') @ ?ds) = Some (unat v)"
    using hex_digits_spec[of "unat v"] by (simp add: digits_value_append)
  with len show "sql_string_to_u256 hex_u256 (u256_to_sql_string hex_u256 v) = Some v"
    by (simp add: sql_string_to_u256_def u256_to_sql_string_def hex_u256_def Let_def)
  show "u256_to_sql_string hex_u256 v \<noteq> []" by (simp add: u256_to_sql_string_def hex_u256_def Let_def)
qed

section \<open>Balances and supplies as numbers\<close>

definition stored_balance :: "u256_text \<Rightarrow> 'o database \<Rightarrow> balance_id \<Rightarrow> u256 option" where
  "stored_balance X db b = (case map_of (balances_table db) b of None \<Rightarrow> Some 0 | Some s \<Rightarrow> sql_string_to_u256 X s)"

definition stored_supply :: "u256_text \<Rightarrow> 'o database \<Rightarrow> token_id \<Rightarrow> u256 option" where
  "stored_supply X db t =
     (case map_of (tokens_table db) t of
        None \<Rightarrow> None
      | Some r \<Rightarrow> (case tk_total_supply r of None \<Rightarrow> None | Some s \<Rightarrow> if s = [] then Some 0 else sql_string_to_u256 X s))"

text \<open>Reading as an integer; a number that is missing or unreadable counts as zero.\<close>

definition int_of :: "u256 option \<Rightarrow> int" where
  "int_of x = (case x of None \<Rightarrow> 0 | Some v \<Rightarrow> uint v)"

lemma diff_val_Cons: "al_ok ((k, d) # ds) \<Longrightarrow> diff_val ((k, d) # ds) k' = (if k' = k then i256_val d else diff_val ds k')"
  by (simp add: diff_val_def)

lemma diff_val_absent: "al_ok ((k, d) # ds) \<Longrightarrow> diff_val ds k = 0"
proof -
  assume "al_ok ((k, d) # ds)"
  then have "map_of ds k = None" by (simp add: al_ok_def map_of_eq_None_iff)
  then show ?thesis by (simp add: diff_val_def)
qed

locale ledger = u256_format "le_text V"
  for V :: ledger_env +
  assumes exact: "u256_exact (le_ops V)"
begin

abbreviation "bal \<equiv> stored_balance (le_text V)"
abbreviation "sply \<equiv> stored_supply (le_text V)"

lemma apply_helper:
  assumes tx: "transaction ex = Some db" and b: "bal db b = Some v"
    and range: "0 \<le> uint v + i256_val d" "uint v + i256_val d < 2 ^ 256"
  shows "\<exists>ex' db'. apply_balance_diff_helper V b d block ex = (Inr (), ex') \<and> transaction ex' = Some db' \<and>
    tokens_table db' = tokens_table db \<and> contracts_table db' = contracts_table db \<and> (\<forall>b'. b' \<noteq> b \<longrightarrow> bal db' b' = bal db b') \<and>
    (\<exists>w. bal db' b = Some w \<and> uint w = uint v + i256_val d)"
proof -
  define w where "w = (if is_negative d then u256_sub (le_ops V) v (i_value d) else u256_add (le_ops V) v (i_value d))"
  have neg: "is_negative d \<Longrightarrow> uint (i_value d) \<le> uint v" using range by (simp add: i256_val_def)
  then have nlt: "is_negative d \<Longrightarrow> \<not> v < i_value d" by (simp add: word_less_def)
  have w: "uint w = uint v + i256_val d"
    using range neg u256_sub_uint[OF exact, of "i_value d" v] u256_add_uint[OF exact, of v "i_value d"]
    by (cases "is_negative d") (simp_all add: w_def i256_val_def)
  have "apply_balance_diff_helper V b d block ex =
    and_then (write_tx (\<lambda>db. db\<lparr>balances_table := al_insert b (u256_to_sql_string (le_text V) w) (balances_table db)\<rparr>))
      (\<lambda>_. publish_optimistic_and_queue (TokenBalanceUpdated b (u256_to_sql_string (le_text V) w))) ex"
    using b nlt by (auto simp: apply_balance_diff_helper_def and_then_def read_tx_def tx ret_def unwrap_or_panic_def
        stored_balance_def w_def Let_def split: option.splits)
  then show ?thesis
    using w by (simp add: and_then_def write_tx_def tx publish_optimistic_and_queue_def stored_balance_def reads_back)
qed

lemma apply_balances:
  assumes "al_ok ds" and "transaction ex = Some db" and "\<And>b. bal db b \<noteq> None"
    and "\<And>b. b \<in> fst ` set ds \<Longrightarrow> balance_block cs b \<noteq> None"
    and "\<And>b. 0 \<le> int_of (bal db b) + diff_val ds b" "\<And>b. int_of (bal db b) + diff_val ds b < 2 ^ 256"
  shows "\<exists>ex' db'. for_each (\<lambda>(b, d). and_then (unwrap_or_panic (balance_block cs b)) (\<lambda>block. apply_balance_diff_helper V b d block)) ds ex
      = (Inr (), ex') \<and> transaction ex' = Some db' \<and> tokens_table db' = tokens_table db \<and> contracts_table db' = contracts_table db \<and>
    (\<forall>b. \<exists>w. bal db' b = Some w \<and> uint w = int_of (bal db b) + diff_val ds b)"
  using assms
proof (induction ds arbitrary: ex db)
  case Nil
  have "\<exists>w. bal db b = Some w \<and> uint w = int_of (bal db b)" for b using Nil(3)[of b] by (auto simp: int_of_def)
  then show ?case using Nil(2) by (simp add: diff_val_def)
next
  case (Cons p ds)
  obtain b d where p: "p = (b, d)" by fastforce
  note prems = Cons.prems[unfolded p]
  obtain v where v: "bal db b = Some v" using prems(3) by blast
  obtain block where bl: "balance_block cs b = Some block" using prems(4)[of b] by auto
  note dv = diff_val_Cons[OF prems(1)]
  have r: "0 \<le> uint v + i256_val d" "uint v + i256_val d < 2 ^ 256" using prems(5,6)[of b] v by (simp_all add: dv int_of_def)
  obtain ex1 db1 w where step: "apply_balance_diff_helper V b d block ex = (Inr (), ex1)" "transaction ex1 = Some db1"
      "tokens_table db1 = tokens_table db \<and> contracts_table db1 = contracts_table db" "\<And>b'. b' \<noteq> b \<Longrightarrow> bal db1 b' = bal db b'"
      "bal db1 b = Some w" "uint w = uint v + i256_val d"
    using apply_helper[OF prems(2) v r] by blast
  have one: "int_of (bal db1 b') + diff_val ds b' = int_of (bal db b') + diff_val ((b, d) # ds) b'" for b'
    using step(4)[of b'] step(5,6) v diff_val_absent[OF prems(1)] by (cases "b' = b") (simp_all add: dv int_of_def)
  have "bal db1 b' \<noteq> None" for b' using step(4)[of b'] step(5) prems(3)[of b'] by (cases "b' = b") auto
  moreover have "al_ok ds" using prems(1) by (simp add: al_ok_def)
  ultimately have "\<exists>ex' db'. for_each (\<lambda>(b, d). and_then (unwrap_or_panic (balance_block cs b)) (\<lambda>block. apply_balance_diff_helper V b d block)) ds ex1
      = (Inr (), ex') \<and> transaction ex' = Some db' \<and> tokens_table db' = tokens_table db1 \<and> contracts_table db' = contracts_table db1 \<and>
    (\<forall>b. \<exists>w. bal db' b = Some w \<and> uint w = int_of (bal db1 b) + diff_val ds b)"
    using prems(4-6) step(2) by (intro Cons.IH) (simp_all add: one)
  moreover have "for_each (\<lambda>(b, d). and_then (unwrap_or_panic (balance_block cs b)) (\<lambda>block. apply_balance_diff_helper V b d block)) (p # ds) ex =
    for_each (\<lambda>(b, d). and_then (unwrap_or_panic (balance_block cs b)) (\<lambda>block. apply_balance_diff_helper V b d block)) ds ex1"
    by (simp add: p bl unwrap_or_panic_def and_then_def ret_def step(1))
  ultimately show ?case using one step(3) by (simp add: p)
qed

text \<open>A balance that would go below zero, when the chain cannot be asked.\<close>

lemma apply_helper_fails:
  assumes "transaction ex = Some db" and "bal db b = Some v" and "is_negative d" and "v < i_value d"
    and "tp_call (le_provider V) (token_contract_address (b_token b)) ''balance_of'' [b_account b] block = Inl e"
    and "tp_call (le_provider V) (token_contract_address (b_token b)) ''balanceOf'' [b_account b] block = Inl e'"
  shows "apply_balance_diff_helper V b d block ex = (Inl (QErr (QSqlite e')), ex)"
  using assms by (auto simp: apply_balance_diff_helper_def and_then_def read_tx_def ret_def unwrap_or_panic_def fetch_balance_def fail_def
      stored_balance_def Let_def split: option.splits)

lemma apply_balances_fails:
  assumes ok: "al_ok ds" "transaction ex = Some db" "\<And>b. bal db b \<noteq> None"
      "\<And>b. b \<in> fst ` set ds \<Longrightarrow> balance_block cs b \<noteq> None"
      "\<And>b. 0 \<le> int_of (bal db b) + diff_val ds b" "\<And>b. int_of (bal db b) + diff_val ds b < 2 ^ 256"
    and b: "b \<notin> fst ` set ds" "balance_block cs b = Some block" "is_negative d" "int_of (bal db b) < uint (i_value d)"
    and calls: "tp_call (le_provider V) (token_contract_address (b_token b)) ''balance_of'' [b_account b] block = Inl e"
      "tp_call (le_provider V) (token_contract_address (b_token b)) ''balanceOf'' [b_account b] block = Inl e'"
  shows "\<exists>ex' db'. for_each (\<lambda>(b, d). and_then (unwrap_or_panic (balance_block cs b)) (\<lambda>block. apply_balance_diff_helper V b d block))
      (ds @ (b, d) # rest) ex = (Inl (QErr (QSqlite e')), ex') \<and> transaction ex' = Some db' \<and> tokens_table db' = tokens_table db \<and> contracts_table db' = contracts_table db \<and>
    (\<forall>b. \<exists>w. bal db' b = Some w \<and> uint w = int_of (bal db b) + diff_val ds b)"
proof -
  obtain ex' db' where run: "for_each (\<lambda>(b, d). and_then (unwrap_or_panic (balance_block cs b)) (\<lambda>block. apply_balance_diff_helper V b d block)) ds ex
      = (Inr (), ex')" "transaction ex' = Some db'" "tokens_table db' = tokens_table db \<and> contracts_table db' = contracts_table db"
    and w: "\<And>b. \<exists>w. bal db' b = Some w \<and> uint w = int_of (bal db b) + diff_val ds b"
    using apply_balances[OF ok] by blast
  have "map_of ds b = None" using b(1) by (simp add: map_of_eq_None_iff)
  then have "diff_val ds b = 0" by (simp add: diff_val_def)
  with w[of b] obtain v where v: "bal db' b = Some v" "uint v = int_of (bal db b)" by auto
  then have "v < i_value d" using b(4) by (simp add: word_less_def)
  from apply_helper_fails[OF run(2) v(1) b(3) this calls] run w show ?thesis
    by (simp add: for_each_append b(2) unwrap_or_panic_def and_then_def ret_def)
qed

lemma update_supply:
  assumes tx: "transaction ex = Some db" and s: "sply db t = Some v" and range: "uint v + i256_val d < 2 ^ 256"
  shows "\<exists>ex' db'. update_total_supply V t d ex = (Inr (), ex') \<and> transaction ex' = Some db' \<and>
    balances_table db' = balances_table db \<and> (\<forall>t'. t' \<noteq> t \<longrightarrow> sply db' t' = sply db t') \<and>
    (\<exists>w. sply db' t = Some w \<and> uint w = max 0 (uint v + i256_val d))"
proof -
  define w where "w = apply_supply (le_ops V) d v"
  have w: "uint w = max 0 (uint v + i256_val d)"
    using range u256_sub_uint[OF exact, of "i_value d" v] u256_add_uint[OF exact, of v "i_value d"]
    by (auto simp: w_def apply_supply_def i256_val_def word_le_def max_def)
  obtain r x where r: "map_of (tokens_table db) t = Some r" "tk_total_supply r = Some x"
    "(if x = [] then Some 0 else sql_string_to_u256 (le_text V) x) = Some v"
    using s by (auto simp: stored_supply_def split: option.splits)
  have "update_total_supply V t d ex = write_tx (\<lambda>db. db\<lparr>tokens_table := al_modify t
      (\<lambda>r. r\<lparr>tk_total_supply := Some (u256_to_sql_string (le_text V) w)\<rparr>) (tokens_table db)\<rparr>) ex"
    using r by (auto simp: update_total_supply_def and_then_def read_tx_def tx sql_scalar_def ret_def unwrap_or_panic_def w_def
        split: if_splits)
  then show ?thesis
    using w r by (simp add: write_tx_def tx stored_supply_def not_empty reads_back)
qed

lemma update_supplies:
  assumes "al_ok ds" and "transaction ex = Some db" and "\<And>t. t \<in> fst ` set ds \<Longrightarrow> sply db t \<noteq> None"
    and "\<And>t. int_of (sply db t) + diff_val ds t < 2 ^ 256"
  shows "\<exists>ex' db'. for_each (\<lambda>(t, d). update_total_supply V t d) ds ex = (Inr (), ex') \<and> transaction ex' = Some db' \<and>
    balances_table db' = balances_table db \<and>
    (\<forall>t. sply db t \<noteq> None \<longrightarrow> (\<exists>w. sply db' t = Some w \<and> uint w = max 0 (int_of (sply db t) + diff_val ds t)))"
  using assms
proof (induction ds arbitrary: ex db)
  case Nil
  then show ?case by (auto simp: diff_val_def int_of_def)
next
  case (Cons p ds)
  obtain t d where p: "p = (t, d)" by fastforce
  note prems = Cons.prems[unfolded p]
  obtain v where v: "sply db t = Some v" using prems(3)[of t] by auto
  note dv = diff_val_Cons[OF prems(1)]
  have r: "uint v + i256_val d < 2 ^ 256" using prems(4)[of t] v by (simp add: dv int_of_def)
  obtain ex1 db1 w where step: "update_total_supply V t d ex = (Inr (), ex1)" "transaction ex1 = Some db1"
      "balances_table db1 = balances_table db" "\<And>t'. t' \<noteq> t \<Longrightarrow> sply db1 t' = sply db t'"
      "sply db1 t = Some w" "uint w = max 0 (uint v + i256_val d)"
    using update_supply[OF prems(2) v r] by blast
  have ok: "al_ok ds" and nt: "t \<notin> fst ` set ds" using prems(1) by (simp_all add: al_ok_def)
  have "int_of (sply db1 t') + diff_val ds t' < 2 ^ 256" for t'
    using step(4)[of t'] step(5,6) r diff_val_absent[OF prems(1)] prems(4)[of t'] by (cases "t' = t") (simp_all add: dv int_of_def)
  moreover have "t' \<in> fst ` set ds \<Longrightarrow> sply db1 t' \<noteq> None" for t'
    using step(4)[of t'] prems(3)[of t'] nt by (cases "t' = t") auto
  ultimately obtain ex' db' where fin: "for_each (\<lambda>(t, d). update_total_supply V t d) ds ex1 = (Inr (), ex')" "transaction ex' = Some db'"
    "balances_table db' = balances_table db1"
    "\<And>t. sply db1 t \<noteq> None \<Longrightarrow> \<exists>w. sply db' t = Some w \<and> uint w = max 0 (int_of (sply db1 t) + diff_val ds t)"
    using Cons.IH[OF ok step(2)] by blast
  have "\<exists>w. sply db' t' = Some w \<and> uint w = max 0 (int_of (sply db t') + diff_val (p # ds) t')" if "sply db t' \<noteq> None" for t'
    using fin(4)[of t'] that step(4)[of t'] step(5,6) v diff_val_absent[OF prems(1)]
    by (cases "t' = t") (auto simp: p dv int_of_def)
  then show ?case using step fin by (simp add: p)
qed

end

interpretation hex_ledger: ledger "\<lparr>le_ops = wrapping_u256, le_text = hex_u256, le_provider = P\<rparr>" for P
  by unfold_locales (simp_all add: hex_numbers.reads_back hex_numbers.not_empty)

section \<open>The differences of a batch\<close>

lemma diff_val_order:
  assumes "hash_order ho" and "al_ok m"
  shows "al_ok (ho m) \<and> diff_val (ho m) = diff_val m \<and> fst ` set (ho m) = fst ` set m"
proof -
  have m: "mset (ho m) = mset m" using assms(1) by (simp add: hash_order_def)
  then have "mset (map fst (ho m)) = mset (map fst m)" by simp
  then have ok: "al_ok (ho m)" using assms(2) unfolding al_ok_def by (metis mset_eq_imp_distinct_iff)
  have "set (ho m) = set m" using m by (rule mset_eq_setD)
  then have "map_of (ho m) k = map_of m k" for k
    using al_ok_in_set[OF ok, of k] al_ok_in_set[OF assms(2), of k] by (metis not_Some_eq)
  then show ?thesis using ok \<open>set (ho m) = set m\<close> by (simp add: diff_val_def fun_eq_iff)
qed

lemma transfer_diffs_ok:
  assumes "al_ok (balances_diff c)" and "al_ok (total_supply_diff c)"
  shows "al_ok (balances_diff (apply_transfer U tr c)) \<and> al_ok (total_supply_diff (apply_transfer U tr c)) \<and>
    b_token ` fst ` set (balances_diff (apply_transfer U tr c)) \<subseteq> insert (t_token tr) (b_token ` fst ` set (balances_diff c)) \<and>
    fst ` set (total_supply_diff (apply_transfer U tr c)) \<subseteq> insert (t_token tr) (fst ` set (total_supply_diff c))"
  using assms by (auto simp: apply_transfer_def update_balance_diff_def Let_def image_image[symmetric] simp del: image_image)

lemma batch_diffs_ok:
  assumes "al_ok (balances_diff c)" and "al_ok (total_supply_diff c)"
  shows "al_ok (balances_diff (fold (apply_transfer U) trs c)) \<and> al_ok (total_supply_diff (fold (apply_transfer U) trs c)) \<and>
    b_token ` fst ` set (balances_diff (fold (apply_transfer U) trs c)) \<subseteq> t_token ` set trs \<union> b_token ` fst ` set (balances_diff c) \<and>
    fst ` set (total_supply_diff (fold (apply_transfer U) trs c)) \<subseteq> t_token ` set trs \<union> fst ` set (total_supply_diff c)"
  using assms
proof (induction trs arbitrary: c)
  case (Cons tr trs)
  note t = transfer_diffs_ok[OF Cons.prems, of U tr]
  note IH = Cons.IH[OF conjunct1[OF t] conjunct1[OF conjunct2[OF t]]]
  have step: "A \<subseteq> T \<union> B \<Longrightarrow> B \<subseteq> insert t C \<Longrightarrow> A \<subseteq> insert t T \<union> C" for A B C T :: "token_id set" and t by blast
  show ?case unfolding fold_simps list.set image_insert
    using IH t by (intro conjI step[of _ "t_token ` set trs"]) (elim conjE; assumption)+
qed simp

section \<open>Properties\<close>

text \<open>
  C4. The ledger follows the transfers: when the differences that a batch of transfers has left in the cache are applied to storage, in whatever order
  the hash maps iterate, every stored balance changes by exactly what the transfers moved in and out of the account, and every
  supply by what was minted minus what was burned (never below zero). The batch has to stay within 256 bits, its tokens have to be registered and its
  contracts to have cursors, and no account may spend more than it has.
\<close>

theorem ledger_follows_transfers:
  fixes db :: "'o database" and ex :: "('o, 'm) executor"
  assumes "u256_exact (le_ops V)" and "u256_format (le_text V)" and "hash_order ho" and "hash_order ho'"
    and "volume trs < 2 ^ 255" and "balances_diff c = []" and "total_supply_diff c = []"
    and "ab_balances_diff q = ho (balances_diff (fold (apply_transfer (le_ops V)) trs c))"
    and "ab_total_supply_diff q = ho' (total_supply_diff (fold (apply_transfer (le_ops V)) trs c))"
    and "transaction ex = Some db"
    and "\<forall>tr\<in>set trs. stored_supply (le_text V) db (t_token tr) \<noteq> None \<and>
      (\<forall>a. balance_block (ab_cursors q) \<lparr>b_account = a, b_token = t_token tr\<rparr> \<noteq> None)"
    and "\<forall>b. stored_balance (le_text V) db b \<noteq> None \<and> 0 \<le> int_of (stored_balance (le_text V) db b) + (\<Sum>tr\<leftarrow>trs. balance_delta tr b) \<and>
      int_of (stored_balance (le_text V) db b) + (\<Sum>tr\<leftarrow>trs. balance_delta tr b) < 2 ^ 256"
    and "\<forall>t. int_of (stored_supply (le_text V) db t) + (\<Sum>tr\<leftarrow>trs. supply_delta tr t) < 2 ^ 256"
  shows "\<exists>ex' db'. apply_balance_diff V q ex = (Inr (), ex') \<and> transaction ex' = Some db' \<and>
    (\<forall>b. int_of (stored_balance (le_text V) db' b) = int_of (stored_balance (le_text V) db b) + (\<Sum>tr\<leftarrow>trs. balance_delta tr b)) \<and>
    (\<forall>t. stored_supply (le_text V) db t \<noteq> None \<longrightarrow>
       int_of (stored_supply (le_text V) db' t) = max 0 (int_of (stored_supply (le_text V) db t) + (\<Sum>tr\<leftarrow>trs. supply_delta tr t)))"
proof -
  have L: "ledger V" using assms(1,2) by (simp add: ledger_def ledger_axioms_def)
  let ?c = "fold (apply_transfer (le_ops V)) trs c"
  note ok = batch_diffs_ok[of c "le_ops V" trs, unfolded assms(6,7), OF al_ok_Nil al_ok_Nil, unfolded list.set(1) image_empty Un_empty_right]
  have B: "al_ok (ab_balances_diff q)" "diff_val (ab_balances_diff q) = diff_val (balances_diff ?c)"
    "fst ` set (ab_balances_diff q) = fst ` set (balances_diff ?c)"
    unfolding assms(8) using diff_val_order[OF assms(3) conjunct1[OF ok]] by simp_all
  have S: "al_ok (ab_total_supply_diff q)" "diff_val (ab_total_supply_diff q) = diff_val (total_supply_diff ?c)"
    "fst ` set (ab_total_supply_diff q) = fst ` set (total_supply_diff ?c)"
    unfolding assms(9) using diff_val_order[OF assms(4) conjunct1[OF conjunct2[OF ok]]] by simp_all
  have net: "diff_val (balances_diff ?c) b = (\<Sum>tr\<leftarrow>trs. balance_delta tr b)"
      "diff_val (total_supply_diff ?c) t = (\<Sum>tr\<leftarrow>trs. supply_delta tr t)" for b t
    using fold_apply_transfer[OF assms(1), of c trs b t] assms(5-7) by (simp_all add: diff_val_def)
  note B2 = B(2)[unfolded fun_eq_iff net, rule_format] and S2 = S(2)[unfolded fun_eq_iff net, rule_format]
  have reg: "stored_supply (le_text V) db t \<noteq> None" if "t \<in> fst ` set (ab_total_supply_diff q)" for t
  proof -
    have "t \<in> t_token ` set trs"
      using that unfolding S(3) by (rule subsetD[OF conjunct2[OF conjunct2[OF conjunct2[OF ok]]]])
    then show ?thesis using assms(11) by blast
  qed
  obtain ex1 db1 where s: "for_each (\<lambda>(t, d). update_total_supply V t d) (ab_total_supply_diff q) ex = (Inr (), ex1)"
      "transaction ex1 = Some db1" "balances_table db1 = balances_table db"
      "\<And>t. stored_supply (le_text V) db t \<noteq> None \<Longrightarrow> \<exists>w. stored_supply (le_text V) db1 t = Some w \<and>
         uint w = max 0 (int_of (stored_supply (le_text V) db t) + (\<Sum>tr\<leftarrow>trs. supply_delta tr t))"
    using ledger.update_supplies[OF L S(1) assms(10) reg, unfolded S2, OF _ assms(13)[rule_format]] by blast
  have same: "stored_balance (le_text V) db1 = stored_balance (le_text V) db" using s(3) by (simp add: stored_balance_def fun_eq_iff)
  have blk: "balance_block (ab_cursors q) b \<noteq> None" if "b \<in> fst ` set (ab_balances_diff q)" for b
  proof -
    have "b_token b \<in> t_token ` set trs"
      using imageI[OF that, of b_token] unfolding B(3) by (rule subsetD[OF conjunct1[OF conjunct2[OF conjunct2[OF ok]]]])
    then obtain tr where "tr \<in> set trs" "b_token b = t_token tr" by blast
    then have "balance_block (ab_cursors q) \<lparr>b_account = b_account b, b_token = b_token b\<rparr> \<noteq> None" using assms(11) by metis
    then show ?thesis by (simp add: balance_block_def)
  qed
  obtain ex2 db2 where b: "for_each (\<lambda>(b, d). and_then (unwrap_or_panic (balance_block (ab_cursors q) b))
        (\<lambda>block. apply_balance_diff_helper V b d block)) (ab_balances_diff q) ex1 = (Inr (), ex2)"
      "transaction ex2 = Some db2" "tokens_table db2 = tokens_table db1"
      "\<And>b. \<exists>w. stored_balance (le_text V) db2 b = Some w \<and>
         uint w = int_of (stored_balance (le_text V) db b) + (\<Sum>tr\<leftarrow>trs. balance_delta tr b)"
    using ledger.apply_balances[OF L B(1) s(2) _ blk, unfolded B2 same] assms(12) by blast
  have "int_of (stored_balance (le_text V) db2 b) = int_of (stored_balance (le_text V) db b) + (\<Sum>tr\<leftarrow>trs. balance_delta tr b)" for b
    using b(4)[of b] by (auto simp: int_of_def)
  moreover have "int_of (stored_supply (le_text V) db2 t) =
      max 0 (int_of (stored_supply (le_text V) db t) + (\<Sum>tr\<leftarrow>trs. supply_delta tr t))" if "stored_supply (le_text V) db t \<noteq> None" for t
    using s(4)[OF that] b(3) by (auto simp: int_of_def stored_supply_def)
  ultimately show ?thesis using s(1) b(1,2) by (simp add: apply_balance_diff_def and_then_def)
qed

text \<open>A token with a supply of 100, all of it with account 1.\<close>

definition offline :: token_provider where
  "offline = \<lparr>tp_call = (\<lambda>_ _ _ _. Inl ''offline''), tp_deserialize_u256 = (\<lambda>_. None)\<rparr>"

definition sample_ledger :: ledger_env where
  "sample_ledger = \<lparr>le_ops = wrapping_u256, le_text = hex_u256, le_provider = offline\<rparr>"

definition sample_row :: token_row where
  "sample_row = \<lparr>tk_name = ''Gold'', tk_symbol = ''G'', tk_decimals = 0, tk_metadata = None,
     tk_total_supply = Some (u256_to_sql_string hex_u256 100), tk_traits = ''{}''\<rparr>"

definition sample_db :: "unit database" where
  "sample_db = \<lparr>contracts_table = [], tokens_table = [(Contract 7, sample_row)],
     balances_table = [(\<lparr>b_account = 1, b_token = Contract 7\<rparr>, u256_to_sql_string hex_u256 100)], attributes_table = [], other_tables = ()\<rparr>"

definition sample_executor :: "(unit, unit) executor" where
  "sample_executor = \<lparr>pool_db = sample_db, transaction = Some sample_db, publish_queue = [], published = []\<rparr>"

lemma sample_balance: "stored_balance hex_u256 sample_db b = Some (if b = \<lparr>b_account = 1, b_token = Contract 7\<rparr> then 100 else 0)"
  by (simp add: stored_balance_def sample_db_def hex_numbers.reads_back)

lemma sample_supply: "stored_supply hex_u256 sample_db t = (if t = Contract 7 then Some 100 else None)"
  by (simp add: stored_supply_def sample_db_def sample_row_def hex_numbers.reads_back hex_numbers.not_empty)

lemma sample_ledger_simps [simp]: "le_ops sample_ledger = wrapping_u256" "le_text sample_ledger = hex_u256" "le_provider sample_ledger = offline"
  by (simp_all add: sample_ledger_def)

theorem ledger_follows_transfers_witness:
  "\<exists>q ex' db'. apply_balance_diff sample_ledger q sample_executor = (Inr (), ex') \<and> transaction ex' = Some db' \<and>
    int_of (stored_balance hex_u256 db' \<lparr>b_account = 1, b_token = Contract 7\<rparr>) = 70 \<and>
    int_of (stored_balance hex_u256 db' \<lparr>b_account = 2, b_token = Contract 7\<rparr>) = 30"
proof -
  let ?trs = "[\<lparr>t_token = Contract 7, t_from = 1, t_to = 2, t_value = 30\<rparr>]"
  let ?c = "\<lparr>balances_diff = [], total_supply_diff = [], token_id_registry = [], mutexes = 0\<rparr>"
  define q where "q = \<lparr>ab_balances_diff = rev (balances_diff (fold (apply_transfer wrapping_u256) ?trs ?c)),
    ab_total_supply_diff = total_supply_diff (fold (apply_transfer wrapping_u256) ?trs ?c),
    ab_cursors = [(7, \<lparr>c_address = 7, c_head = Some 9, c_last_block_timestamp = None, c_last_pending_block_tx = None\<rparr>)]\<rparr>"
  have bd: "(\<Sum>tr\<leftarrow>?trs. balance_delta tr b) = (if b = \<lparr>b_account = 2, b_token = Contract 7\<rparr> then 30 else 0) -
      (if b = \<lparr>b_account = 1, b_token = Contract 7\<rparr> then 30 else 0)" for b
    by (cases b) (auto simp: balance_delta_def)
  have bal: "int_of (stored_balance hex_u256 sample_db b) = (if b = \<lparr>b_account = 1, b_token = Contract 7\<rparr> then 100 else 0)" for b
    by (simp add: sample_balance int_of_def)
  have sd: "(\<Sum>tr\<leftarrow>?trs. supply_delta tr t) = 0" for t by (simp add: supply_delta_def)
  have sp: "int_of (stored_supply hex_u256 sample_db t) \<le> 100" for t by (simp add: sample_supply int_of_def)
  have "\<exists>ex' db'. apply_balance_diff sample_ledger q sample_executor = (Inr (), ex') \<and> transaction ex' = Some db' \<and>
    (\<forall>b. int_of (stored_balance (le_text sample_ledger) db' b) =
       int_of (stored_balance (le_text sample_ledger) sample_db b) + (\<Sum>tr\<leftarrow>?trs. balance_delta tr b)) \<and>
    (\<forall>t. stored_supply (le_text sample_ledger) sample_db t \<noteq> None \<longrightarrow> int_of (stored_supply (le_text sample_ledger) db' t) =
       max 0 (int_of (stored_supply (le_text sample_ledger) sample_db t) + (\<Sum>tr\<leftarrow>?trs. supply_delta tr t)))"
  proof (rule ledger_follows_transfers[where c = ?c and ho = rev and ho' = "\<lambda>xs. xs"])
    show "u256_format (le_text sample_ledger)" using hex_numbers.u256_format_axioms by simp
    show "\<forall>b. stored_balance (le_text sample_ledger) sample_db b \<noteq> None \<and>
      0 \<le> int_of (stored_balance (le_text sample_ledger) sample_db b) + (\<Sum>tr\<leftarrow>?trs. balance_delta tr b) \<and>
      int_of (stored_balance (le_text sample_ledger) sample_db b) + (\<Sum>tr\<leftarrow>?trs. balance_delta tr b) < 2 ^ 256"
      unfolding sample_ledger_simps bal bd by (simp add: sample_balance)
    show "\<forall>t. int_of (stored_supply (le_text sample_ledger) sample_db t) + (\<Sum>tr\<leftarrow>?trs. supply_delta tr t) < 2 ^ 256"
      unfolding sample_ledger_simps sd by (intro allI) (simp add: le_less_trans[OF sp])
  qed (simp_all add: q_def sample_supply balance_block_def sample_executor_def)
  then show ?thesis unfolding sample_ledger_simps bal bd by (intro exI[of _ q]) force
qed

end
