(* ===== verification/ExecutorSpec.thy ===== *)
theory ExecutorSpec
  imports Executor LedgerSpec
begin

text \<open>
  What the executor promises: between a commit and the next commit or rollback everything happens in the open transaction only, subscribers are told twice, at once
  and when it is committed, and cursors are read back as they were stored; and two of its queries that do not do what they are meant to.
\<close>

section \<open>Batches\<close>

fun ends_batch :: "'q query \<Rightarrow> bool" where
  "ends_batch Execute = True"
| "ends_batch Rollback = True"
| "ends_batch _ = False"

text \<open>The loop of the executor over the queries of a batch: errors are logged, and the next query is handled.\<close>

fun run_queries :: "('q, 'o, 'm) executor_env \<Rightarrow> 'q query list \<Rightarrow> ('o, 'm) sql_storage \<Rightarrow> ('o, 'm) sql_storage" where
  "run_queries X [] s = s"
| "run_queries X (q # qs) s = run_queries X qs (if sq_alive s then snd (serve X q s) else s)"

lemma run_queries_append [simp]: "run_queries X (as @ bs) s = run_queries X bs (run_queries X as s)"
  by (induction as arbitrary: s) simp_all

lemma confined_update_contracts: "confined (update_contracts now q ks)"
  by (induction ks) (auto intro!: confined_intros split: option.split)

lemma confined_run_statement: "confined (run_statement X q)" for X :: "('q, 'o, 'm) executor_env"
  unfolding confined_def
proof
  fix ex :: "('o, 'm) executor"
  show "within_tx ex (snd (run_statement X q ex))"
  proof (cases "transaction ex")
    case (Some db)
    have w: "within_tx ex (ex\<lparr>transaction := Some db'\<rparr>)" for db' by (simp add: within_tx_def Some)
    have "within_tx ex' (snd (for_each (\<lambda>m. publish_optimistic_and_queue (OtherUpdate m)) ms ex'))" for ms and ex' :: "('o, 'm) executor"
    proof -
      have "confined (for_each (\<lambda>m. publish_optimistic_and_queue (OtherUpdate m)) ms :: ('o, 'm, unit) execution)" by (intro confined_intros)
      then show ?thesis by (simp add: confined_def)
    qed
    with w show ?thesis by (auto simp: run_statement_def Some split: prod.split sum.split intro: within_tx_trans)
  qed (simp add: run_statement_def)
qed

lemma confined_query: "\<not> ends_batch q \<Longrightarrow> confined (handle_query_message X q)"
proof (cases q)
  case (RegisterNftToken r)
  have p: "confined (parse_text X x)" for x unfolding parse_text_def by (intro confined_intros)
  have "confined (contract_name_symbol X a)" for a
    unfolding contract_name_symbol_def by (auto intro!: confined_intros p split: option.split sum.split list.split)
  then show ?thesis
    unfolding RegisterNftToken handle_query_message_def query.case register_nft_token_def insert_token_def Let_def by (intro confined_intros)
next
  case (UpdateTokenMetadata u)
  then show ?thesis
    unfolding UpdateTokenMetadata handle_query_message_def query.case update_token_metadata_def Let_def by (intro confined_intros)
next
  case (RegisterTokenContract r)
  then show ?thesis
    unfolding RegisterTokenContract handle_query_message_def query.case register_token_contract_def insert_token_def Let_def
    by (intro confined_intros)
next
  case (UpdateCursors u)
  then show ?thesis
    unfolding UpdateCursors handle_query_message_def query.case update_cursors_def by (intro confined_intros confined_update_contracts)
next
  case (RegisterContract a ct h)
  then show ?thesis
    unfolding RegisterContract handle_query_message_def query.case register_contract_query_def by (intro confined_intros)
next
  case (ApplyBalanceDiff a)
  then show ?thesis unfolding ApplyBalanceDiff handle_query_message_def query.case by (intro confined_intros)
next
  case (Statement s)
  then show ?thesis unfolding Statement handle_query_message_def query.case by (intro confined_intros confined_run_statement)
qed simp_all

text \<open>A batch of queries runs in the open transaction, and every message it publishes is queued for its commit.\<close>

lemma run_queries_within:
  assumes "\<forall>q \<in> set qs. \<not> ends_batch q"
  shows "within_tx (sq_executor s) (sq_executor (run_queries X qs s))"
  using assms
proof (induction qs arbitrary: s)
  case (Cons q qs)
  have "within_tx (sq_executor s) (sq_executor (if sq_alive s then snd (serve X q s) else s))"
    using confinedD[OF confined_query[of q X]] Cons.prems by (auto simp: serve_def split: prod.split)
  with Cons.IH[of "if sq_alive s then snd (serve X q s) else s"] Cons.prems show ?case by (auto intro: within_tx_trans)
qed simp

text \<open>SQLite commits, rolls back and begins whenever it is asked to.\<close>

definition sqlite_works :: "('q, 'o, 'm) executor_env \<Rightarrow> bool" where
  "sqlite_works X \<longleftrightarrow> (\<forall>ex. xe_commit X ex = None \<and> xe_truncate_wal X ex = None \<and> xe_rollback X ex = None \<and> xe_begin X ex = None)"

lemma execute_works:
  assumes "sqlite_works X" and "transaction ex = Some db"
  shows "handle_query_message X Execute ex = (Inr (), ex\<lparr>pool_db := db, transaction := Some db,
    published := published ex @ map (\<lambda>m. (m, False)) (publish_queue ex), publish_queue := []\<rparr>)"
  using assms by (simp add: handle_query_message_def execute_def and_then_def read_tx_def commit_transaction_def check_and_truncate_wal_def
      begin_transaction_def sqlite_works_def)

lemma rollback_works:
  assumes "sqlite_works X" and "transaction ex = Some db"
  shows "handle_query_message X Rollback ex = (Inr (), ex\<lparr>transaction := Some (pool_db ex), publish_queue := []\<rparr>)"
  using assms by (simp add: handle_query_message_def rollback_def and_then_def read_tx_def begin_transaction_def sqlite_works_def)

section \<open>Cursors\<close>

definition moved :: "update_cursors_query \<Rightarrow> contract \<Rightarrow> contract" where
  "moved q k =
     (case map_of (uc_cursors q) (k_address k) of
        None \<Rightarrow> k
      | Some c \<Rightarrow> k\<lparr>k_head := Some (or_zero (c_head c)), k_last_block_timestamp := Some (or_zero (c_last_block_timestamp c)),
                     k_last_pending_block_tx := c_last_pending_block_tx c\<rparr>)"

definition no_tps_panic :: "u64 \<Rightarrow> update_cursors_query \<Rightarrow> contract list \<Rightarrow> bool" where
  "no_tps_panic now q ks \<longleftrightarrow> (\<forall>k \<in> set ks. \<forall>c. map_of (uc_cursors q) (k_address k) = Some c \<longrightarrow> updated_contract now q c k \<noteq> None)"

lemma store_updated:
  assumes "updated_contract now q c k = Some k'" and "map_of (uc_cursors q) (k_address k) = Some c"
  shows "store_cursor k' ks = map (\<lambda>x. if k_address x = k_address k then moved q x else x) ks"
  using assms by (auto simp: updated_contract_def store_cursor_def moved_def Let_def split: if_splits)

lemma moved_address [simp]: "k_address (moved q k) = k_address k"
  by (simp add: moved_def split: option.split)

lemma moved_twice [simp]: "moved q (moved q k) = moved q k"
  by (simp add: moved_def split: option.split)

lemma update_contracts_works:
  assumes "no_tps_panic now q ks" and "transaction ex = Some db"
  shows "\<exists>ex' ks'. update_contracts now q ks ex = (Inr ks', ex') \<and>
    transaction ex' = Some (db\<lparr>contracts_table := map (\<lambda>k. if k_address k \<in> k_address ` set ks then moved q k else k) (contracts_table db)\<rparr>)"
  using assms
proof (induction ks arbitrary: ex db)
  case Nil
  then show ?case by (simp add: ret_def)
next
  case (Cons k ks)
  have P: "no_tps_panic now q ks" using Cons.prems(1) by (simp add: no_tps_panic_def)
  show ?case
  proof (cases "map_of (uc_cursors q) (k_address k)")
    case None
    then have "k_address x = k_address k \<Longrightarrow> moved q x = x" for x by (simp add: moved_def)
    then have m: "(if k_address x \<in> k_address ` set (k # ks) then moved q x else x) = (if k_address x \<in> k_address ` set ks then moved q x else x)" for x
      by auto
    show ?thesis using Cons.IH[OF P Cons.prems(2)] None unfolding m by simp
  next
    case (Some c)
    then obtain k' where k': "updated_contract now q c k = Some k'" using Cons.prems(1) by (auto simp: no_tps_panic_def)
    let ?db = "db\<lparr>contracts_table := store_cursor k' (contracts_table db)\<rparr>"
    let ?ex = "ex\<lparr>transaction := Some ?db\<rparr>"
    obtain ex' ks' where IH: "update_contracts now q ks ?ex = (Inr ks', ex')"
      "transaction ex' = Some (?db\<lparr>contracts_table := map (\<lambda>k. if k_address k \<in> k_address ` set ks then moved q k else k) (contracts_table ?db)\<rparr>)"
      using Cons.IH[OF P, of ?ex ?db] by auto
    moreover have "map (\<lambda>x. if k_address x \<in> k_address ` set ks then moved q x else x) (contracts_table ?db) =
        map (\<lambda>x. if k_address x \<in> k_address ` set (k # ks) then moved q x else x) (contracts_table db)"
      by (auto simp: store_updated[OF k' Some])
    ultimately show ?thesis
      using Some k' Cons.prems(2) by (simp add: and_then_def unwrap_or_panic_def write_tx_def ret_def)
  qed
qed

lemma publish_all_tx:
  "\<exists>ex'. for_each (\<lambda>x. publish_optimistic_and_queue (f x)) xs ex = (Inr (), ex') \<and> transaction ex' = transaction ex"
proof (induction xs arbitrary: ex)
  case (Cons x xs)
  from Cons.IH[of "snd (publish_optimistic_and_queue (f x) ex)"] show ?case by (simp add: publish_optimistic_and_queue_def)
qed simp

lemma update_cursors_works:
  assumes "no_tps_panic (xe_now X) q (contracts_table db)" and "transaction ex = Some db"
  shows "\<exists>ex'. handle_query_message X (UpdateCursors q) ex = (Inr (), ex') \<and>
    transaction ex' = Some (db\<lparr>contracts_table := map (moved q) (contracts_table db)\<rparr>)"
proof -
  obtain ex1 ks where u: "update_contracts (xe_now X) q (contracts_table db) ex = (Inr ks, ex1)"
    "transaction ex1 = Some (db\<lparr>contracts_table := map (moved q) (contracts_table db)\<rparr>)"
    using update_contracts_works[OF assms] by (auto cong: map_cong)
  obtain ex' where "for_each (\<lambda>k. publish_optimistic_and_queue (ContractUpdate k)) ks ex1 = (Inr (), ex')" "transaction ex' = transaction ex1"
    using publish_all_tx by blast
  with u assms(2) show ?thesis by (simp add: handle_query_message_def update_cursors_def and_then_def read_tx_def)
qed

section \<open>Properties\<close>

text \<open>
  C5. A batch is all or nothing. Whatever queries run between two ends of a batch and whichever of them fail, readers see none of it until \<open>Execute\<close>, which
  publishes to them exactly what the transaction holds and confirms exactly the updates that were announced; \<open>Rollback\<close> instead leaves readers with what they saw
  before, and confirms nothing. Either way the executor is ready for the next batch.
\<close>

theorem batch_all_or_nothing:
  assumes "sqlite_works X" and "\<forall>q\<in>set qs. \<not> ends_batch q"
    and "sq_executor s = \<lparr>pool_db = db, transaction = Some db, publish_queue = [], published = ps\<rparr>"
    and "sq_alive (run_queries X qs s)"
  shows "\<exists>db' ms. transaction (sq_executor (run_queries X qs s)) = Some db' \<and> pool_db (sq_executor (run_queries X qs s)) = db \<and>
    run_queries X (qs @ [Execute]) s = \<lparr>sq_executor = \<lparr>pool_db = db', transaction = Some db', publish_queue = [],
       published = ps @ map (\<lambda>m. (m, True)) ms @ map (\<lambda>m. (m, False)) ms\<rparr>, sq_alive = True\<rparr> \<and>
    run_queries X (qs @ [Rollback]) s = \<lparr>sq_executor = \<lparr>pool_db = db, transaction = Some db, publish_queue = [],
       published = ps @ map (\<lambda>m. (m, True)) ms\<rparr>, sq_alive = True\<rparr>"
proof -
  let ?t = "run_queries X qs s"
  from run_queries_within[OF assms(2), of s X] obtain ms db' where t: "pool_db (sq_executor ?t) = db" "transaction (sq_executor ?t) = Some db'"
    "publish_queue (sq_executor ?t) = ms" "published (sq_executor ?t) = ps @ map (\<lambda>m. (m, True)) ms"
    by (auto simp: within_tx_def assms(3))
  then show ?thesis
    using assms(4) by (intro exI[of _ db'] exI[of _ ms])
      (simp add: serve_def execute_works[OF assms(1)] rollback_works[OF assms(1)])
qed

definition sample_env :: "(unit, unit, unit) executor_env" where
  "sample_env = \<lparr>xe_ledger = sample_ledger, xe_json = sample_json, xe_token_attributes = False, xe_trait_counts = True, xe_now = 100,
     xe_name_symbol = (\<lambda>_. Inl ''offline''), xe_short_string = (\<lambda>_. Inl ''no''), xe_byte_array = (\<lambda>_. Inl ''no''),
     xe_statement = (\<lambda>_ t. (Inr [], t)), xe_commit = (\<lambda>_. None), xe_truncate_wal = (\<lambda>_. None), xe_rollback = (\<lambda>_. None),
     xe_begin = (\<lambda>_. None), xe_show = (\<lambda>_. ''error'')\<rparr>"

lemma sample_env_simps [simp]:
  "xe_ledger sample_env = sample_ledger" "xe_json sample_env = sample_json" "\<not> xe_token_attributes sample_env" "xe_trait_counts sample_env"
  "xe_now sample_env = 100" "sqlite_works sample_env"
  by (simp_all add: sample_env_def sqlite_works_def)

definition sample_storage :: "(unit, unit) sql_storage" where
  "sample_storage = \<lparr>sq_executor = sample_executor, sq_alive = True\<rparr>"

theorem batch_all_or_nothing_witness:
  "\<exists>db'. pool_db (sq_executor (run_queries sample_env ([RegisterContract 7 ERC20 0] @ [Execute]) sample_storage)) = db' \<and>
    pool_db (sq_executor (run_queries sample_env ([RegisterContract 7 ERC20 0] @ [Rollback]) sample_storage)) = sample_db \<and> db' \<noteq> sample_db"
proof -
  let ?qs = "[RegisterContract 7 ERC20 0] :: unit query list"
  let ?db = "sample_db\<lparr>contracts_table := [\<lparr>k_address = 7, k_type = ERC20, k_head = Some 0, k_tps = None, k_last_block_timestamp = None,
                  k_last_pending_block_tx = None\<rparr>]\<rparr>"
  have run: "handle_query_message sample_env (RegisterContract 7 ERC20 0) sample_executor =
      (Inr (), snd (handle_query_message sample_env (RegisterContract 7 ERC20 0) sample_executor)) \<and>
    transaction (snd (handle_query_message sample_env (RegisterContract 7 ERC20 0) sample_executor)) = Some ?db"
    by (simp add: handle_query_message_def register_contract_query_def and_then_def read_tx_def write_tx_def sample_executor_def insert_contract_def
        sample_db_def sql_scalar_def ret_def publish_optimistic_and_queue_def)
  then have alive: "sq_alive (run_queries sample_env ?qs sample_storage)"
    and tx: "transaction (sq_executor (run_queries sample_env ?qs sample_storage)) = Some ?db"
    by (auto simp: serve_def sample_storage_def split: prod.split)
  have s: "sq_executor sample_storage = \<lparr>pool_db = sample_db, transaction = Some sample_db, publish_queue = [], published = []\<rparr>"
    by (simp add: sample_storage_def sample_executor_def)
  have ne: "?db \<noteq> sample_db" by (simp add: sample_db_def)
  have qs: "\<forall>q\<in>set ?qs. \<not> ends_batch q" by simp
  from batch_all_or_nothing[OF sample_env_simps(6) qs s alive] obtain db' ms where db': "transaction (sq_executor (run_queries sample_env ?qs sample_storage)) = Some db'"
    and x: "run_queries sample_env (?qs @ [Execute]) sample_storage = \<lparr>sq_executor = \<lparr>pool_db = db', transaction = Some db', publish_queue = [],
       published = [] @ map (\<lambda>m. (m, True)) ms @ map (\<lambda>m. (m, False)) ms\<rparr>, sq_alive = True\<rparr>"
    and r: "run_queries sample_env (?qs @ [Rollback]) sample_storage = \<lparr>sq_executor = \<lparr>pool_db = sample_db, transaction = Some sample_db,
       publish_queue = [], published = [] @ map (\<lambda>m. (m, True)) ms\<rparr>, sq_alive = True\<rparr>"
    by (elim exE conjE) (rule that)
  have "db' = ?db" using db' tx by simp
  then show ?thesis unfolding x r using ne by simp
qed

text \<open>
  C6. Cursors are read back as they were stored: \<open>update_cursors\<close> moves exactly the contracts it has a cursor for, and the cursor a later fetch reads of such a
  contract is the one that was stored, with zero for a head or timestamp it did not have.
\<close>

theorem cursors_read_back:
  assumes "no_tps_panic (xe_now X) \<lparr>uc_cursors = cs, uc_transactions = txs\<rparr> (contracts_table db)"
    and "sq_alive s" and "transaction (sq_executor s) = Some db" and "sqlite_works X"
  shows "\<exists>s1 s2. storage_update_cursors X cs txs s = (Inr (), s1) \<and> storage_execute X s1 = (Inr (), s2) \<and>
    map k_address (storage_contracts [] [] s2) = rev (map k_address (contracts_table db)) \<and>
    (\<forall>k\<in>set (storage_contracts [] [] s2). \<forall>c. map_of cs (k_address k) = Some c \<longrightarrow>
       c_head (cursor_of_contract k) = Some (or_zero (c_head c)) \<and>
       c_last_block_timestamp (cursor_of_contract k) = Some (or_zero (c_last_block_timestamp c)) \<and>
       c_last_pending_block_tx (cursor_of_contract k) = c_last_pending_block_tx c) \<and>
    (\<forall>k\<in>set (storage_contracts [] [] s2). map_of cs (k_address k) = None \<longrightarrow> k \<in> set (contracts_table db))"
proof -
  let ?q = "\<lparr>uc_cursors = cs, uc_transactions = txs\<rparr>" and ?db = "db\<lparr>contracts_table := map (moved \<lparr>uc_cursors = cs, uc_transactions = txs\<rparr>) (contracts_table db)\<rparr>"
  obtain ex' where u: "handle_query_message X (UpdateCursors ?q) (sq_executor s) = (Inr (), ex')" "transaction ex' = Some ?db"
    using update_cursors_works[OF assms(1,3)] by blast
  define s1 where "s1 = \<lparr>sq_executor = ex', sq_alive = True\<rparr>"
  define s2 where "s2 = snd (storage_execute X s1)"
  have 1: "storage_update_cursors X cs txs s = (Inr (), s1)"
    using u assms(2) by (simp add: storage_update_cursors_def request_def serve_def s1_def)
  have e: "storage_execute X s1 = (Inr (), s2)" "contracts_table (pool_db (sq_executor s2)) = map (moved ?q) (contracts_table db)"
    by (simp_all add: s2_def storage_execute_def request_def serve_def s1_def execute_works[OF assms(4) u(2)])
  then have "storage_contracts [] [] s2 = rev (map (moved ?q) (contracts_table db))" by (simp add: storage_contracts_def)
  then show ?thesis using 1 e(1)
    by (intro exI[of _ s1] exI[of _ s2]) (auto simp: rev_map[symmetric] cursor_of_contract_def moved_def split: option.splits)
qed

theorem cursors_read_back_witness:
  "\<exists>s1 s2. storage_update_cursors sample_env [(7, \<lparr>c_address = 7, c_head = Some 9, c_last_block_timestamp = Some 90, c_last_pending_block_tx = Some 5\<rparr>)]
      [(7, {1, 2})] \<lparr>sq_executor = sample_executor\<lparr>transaction := Some (sample_db\<lparr>contracts_table := [\<lparr>k_address = 7, k_type = ERC20, k_head = Some 4,
         k_tps = None, k_last_block_timestamp = Some 80, k_last_pending_block_tx = None\<rparr>]\<rparr>)\<rparr>, sq_alive = True\<rparr> = (Inr (), s1) \<and>
    storage_execute sample_env s1 = (Inr (), s2) \<and>
    (\<forall>k\<in>set (storage_contracts [] [] s2). k_address k = 7 \<longrightarrow> c_head (cursor_of_contract k) = Some 9)"
proof -
  let ?cs = "[(7, \<lparr>c_address = 7, c_head = Some 9, c_last_block_timestamp = Some 90, c_last_pending_block_tx = Some 5\<rparr>)]"
  let ?db = "sample_db\<lparr>contracts_table := [\<lparr>k_address = 7, k_type = ERC20, k_head = Some 4,
         k_tps = None, k_last_block_timestamp = Some 80, k_last_pending_block_tx = None\<rparr>]\<rparr>"
  have "no_tps_panic (xe_now sample_env) \<lparr>uc_cursors = ?cs, uc_transactions = [(7, {1, 2})]\<rparr> (contracts_table ?db)"
    by (simp add: no_tps_panic_def updated_contract_def new_tps_def or_zero_def fits_i64_def)
  from cursors_read_back[OF this, of "\<lparr>sq_executor = sample_executor\<lparr>transaction := Some ?db\<rparr>, sq_alive = True\<rparr>"]
  obtain s1 s2 where "storage_update_cursors sample_env ?cs [(7, {1, 2})] \<lparr>sq_executor = sample_executor\<lparr>transaction := Some ?db\<rparr>, sq_alive = True\<rparr>
      = (Inr (), s1)" "storage_execute sample_env s1 = (Inr (), s2)"
    "\<forall>k\<in>set (storage_contracts [] [] s2). \<forall>c. map_of ?cs (k_address k) = Some c \<longrightarrow> c_head (cursor_of_contract k) = Some (or_zero (c_head c))"
    by auto
  then show ?thesis by (intro exI[of _ s1] exI[of _ s2]) (auto simp: or_zero_def)
qed

text \<open>
  C36. A balance that cannot be applied takes the rest of the batch with it. If one account is overdrawn by its stored balance and the chain cannot be asked
  for the right one, \<open>apply_balances_diff\<close> still reports success, as it does not wait for the query; the cursors move past the batch and
  everything is committed, while this balance and all those after it stay what they were.
\<close>

theorem failed_balance_is_committed_over:
  assumes "u256_exact (le_ops (xe_ledger X))" and "u256_format (le_text (xe_ledger X))" and "sqlite_works X"
    and "sq_alive s" and "transaction (sq_executor s) = Some db"
    and "no_tps_panic (xe_now X) \<lparr>uc_cursors = cs, uc_transactions = txs\<rparr> (contracts_table db)"
    and "al_ok (ds @ (b, d) # rest)"
    and "\<forall>b. stored_balance (le_text (xe_ledger X)) db b \<noteq> None \<and> 0 \<le> int_of (stored_balance (le_text (xe_ledger X)) db b) + diff_val ds b \<and>
      int_of (stored_balance (le_text (xe_ledger X)) db b) + diff_val ds b < 2 ^ 256"
    and "\<forall>b'\<in>insert b (fst ` set ds). balance_block cs b' \<noteq> None"
    and "is_negative d" and "int_of (stored_balance (le_text (xe_ledger X)) db b) < uint (i_value d)"
    and "\<forall>f block. is_ok (tp_call (le_provider (xe_ledger X)) (token_contract_address (b_token b)) f [b_account b] block) = False"
  shows "\<exists>s1 s2 s3. storage_apply_balances_diff X (ds @ (b, d) # rest) [] cs s = (Inr (), s1) \<and> storage_update_cursors X cs txs s1 = (Inr (), s2) \<and>
    storage_execute X s2 = (Inr (), s3) \<and>
    contracts_table (pool_db (sq_executor s3)) = map (moved \<lparr>uc_cursors = cs, uc_transactions = txs\<rparr>) (contracts_table db) \<and>
    (\<forall>b'\<in>insert b (fst ` set rest). int_of (stored_balance (le_text (xe_ledger X)) (pool_db (sq_executor s3)) b') =
       int_of (stored_balance (le_text (xe_ledger X)) db b'))"
proof -
  let ?V = "xe_ledger X" and ?u = "\<lparr>uc_cursors = cs, uc_transactions = txs\<rparr>"
  let ?q = "\<lparr>ab_balances_diff = ds @ (b, d) # rest, ab_total_supply_diff = [], ab_cursors = cs\<rparr>"
  have L: "ledger ?V" using assms(1,2) by (simp add: ledger_def ledger_axioms_def)
  have ds: "al_ok ds" "b \<notin> fst ` set ds" and rest: "b' \<in> insert b (fst ` set rest) \<Longrightarrow> map_of ds b' = None" for b'
    using assms(7) by (auto simp: al_ok_def map_of_eq_None_iff)
  obtain block where bl: "balance_block cs b = Some block" using assms(9) by blast
  obtain e e' where "tp_call (le_provider ?V) (token_contract_address (b_token b)) ''balance_of'' [b_account b] block = Inl e"
    "tp_call (le_provider ?V) (token_contract_address (b_token b)) ''balanceOf'' [b_account b] block = Inl e'"
    using assms(12) by (metis is_ok_iff old.sum.exhaust)
  from ledger.apply_balances_fails[OF L ds(1) assms(5) _ _ _ _ ds(2) bl assms(10,11) this, of rest] assms(8,9)
  obtain ex1 db1 where a: "for_each (\<lambda>(b, d). and_then (unwrap_or_panic (balance_block cs b)) (\<lambda>block. apply_balance_diff_helper ?V b d block))
      (ds @ (b, d) # rest) (sq_executor s) = (Inl (QErr (QSqlite e')), ex1)" "transaction ex1 = Some db1" "contracts_table db1 = contracts_table db"
    and w: "\<And>b. \<exists>w. stored_balance (le_text ?V) db1 b = Some w \<and> uint w = int_of (stored_balance (le_text ?V) db b) + diff_val ds b"
    by blast
  have "apply_balance_diff ?V ?q (sq_executor s) = (Inl (QErr (QSqlite e')), ex1)"
    using a(1) by (simp add: apply_balance_diff_def and_then_def)
  then have h: "handle_query_message X (ApplyBalanceDiff ?q) (sq_executor s) = (Inl (QErr (QSqlite e')), ex1)"
    using assms(5) by (simp add: handle_query_message_def and_then_def read_tx_def)
  define s1 where "s1 = \<lparr>sq_executor = ex1, sq_alive = True\<rparr>"
  have 1: "storage_apply_balances_diff X (ds @ (b, d) # rest) [] cs s = (Inr (), s1)"
    using h assms(4) by (simp add: storage_apply_balances_diff_def send_def serve_def s1_def)
  obtain ex2 where u: "handle_query_message X (UpdateCursors ?u) ex1 = (Inr (), ex2)"
    "transaction ex2 = Some (db1\<lparr>contracts_table := map (moved ?u) (contracts_table db1)\<rparr>)"
    using update_cursors_works[of X ?u db1 ex1] assms(6) a(2,3) by auto
  define s2 where "s2 = \<lparr>sq_executor = ex2, sq_alive = True\<rparr>"
  have 2: "storage_update_cursors X cs txs s1 = (Inr (), s2)"
    using u by (simp add: storage_update_cursors_def request_def serve_def s1_def s2_def)
  define s3 where "s3 = snd (storage_execute X s2)"
  have 3: "storage_execute X s2 = (Inr (), s3)"
    "pool_db (sq_executor s3) = db1\<lparr>contracts_table := map (moved ?u) (contracts_table db)\<rparr>"
    by (simp_all add: s3_def storage_execute_def request_def serve_def s2_def execute_works[OF assms(3) u(2)] a(3))
  have "int_of (stored_balance (le_text ?V) (pool_db (sq_executor s3)) b') = int_of (stored_balance (le_text ?V) db b')"
    if "b' \<in> insert b (fst ` set rest)" for b'
    using w[of b'] rest[OF that] by (auto simp: 3(2) stored_balance_def diff_val_def int_of_def)
  with 1 2 3 show ?thesis by (intro exI[of _ s1] exI[of _ s2] exI[of _ s3]) simp
qed

theorem failed_balance_is_committed_over_witness:
  "\<exists>s1 s2 s3. storage_apply_balances_diff sample_env ([] @ (\<lparr>b_account = 2, b_token = Contract 7\<rparr>, \<lparr>i_value = 5, is_negative = True\<rparr>) #
       [(\<lparr>b_account = 3, b_token = Contract 7\<rparr>, \<lparr>i_value = 5, is_negative = False\<rparr>)]) []
       [(7, \<lparr>c_address = 7, c_head = Some 9, c_last_block_timestamp = Some 90, c_last_pending_block_tx = None\<rparr>)] sample_storage = (Inr (), s1) \<and>
    storage_update_cursors sample_env [(7, \<lparr>c_address = 7, c_head = Some 9, c_last_block_timestamp = Some 90, c_last_pending_block_tx = None\<rparr>)] [] s1
      = (Inr (), s2) \<and> storage_execute sample_env s2 = (Inr (), s3) \<and>
    int_of (stored_balance hex_u256 (pool_db (sq_executor s3)) \<lparr>b_account = 3, b_token = Contract 7\<rparr>) = 0"
proof -
  let ?cs = "[(7, \<lparr>c_address = 7, c_head = Some 9, c_last_block_timestamp = Some 90, c_last_pending_block_tx = None\<rparr>)]"
  let ?b = "\<lparr>b_account = 2, b_token = Contract 7\<rparr>" and ?d = "\<lparr>i_value = 5, is_negative = True\<rparr> :: i256"
  let ?rest = "[(\<lparr>b_account = 3, b_token = Contract 7\<rparr>, \<lparr>i_value = 5, is_negative = False\<rparr> :: i256)]"
  have tx: "transaction (sq_executor sample_storage) = Some sample_db" and al: "sq_alive sample_storage"
    by (simp_all add: sample_storage_def sample_executor_def)
  have bal: "\<forall>b. stored_balance (le_text (xe_ledger sample_env)) sample_db b \<noteq> None \<and>
      0 \<le> int_of (stored_balance (le_text (xe_ledger sample_env)) sample_db b) + diff_val [] b \<and>
      int_of (stored_balance (le_text (xe_ledger sample_env)) sample_db b) + diff_val [] b < 2 ^ 256"
    by (simp add: sample_balance int_of_def diff_val_def)
  have "\<exists>s1 s2 s3. storage_apply_balances_diff sample_env ([] @ (?b, ?d) # ?rest) [] ?cs sample_storage = (Inr (), s1) \<and>
    storage_update_cursors sample_env ?cs [] s1 = (Inr (), s2) \<and> storage_execute sample_env s2 = (Inr (), s3) \<and>
    contracts_table (pool_db (sq_executor s3)) = map (moved \<lparr>uc_cursors = ?cs, uc_transactions = []\<rparr>) (contracts_table sample_db) \<and>
    (\<forall>b'\<in>insert ?b (fst ` set ?rest). int_of (stored_balance (le_text (xe_ledger sample_env)) (pool_db (sq_executor s3)) b') =
       int_of (stored_balance (le_text (xe_ledger sample_env)) sample_db b'))"
    by (rule failed_balance_is_committed_over[OF _ _ _ al tx _ _ bal])
      (use hex_numbers.u256_format_axioms in \<open>simp_all add: no_tps_panic_def sample_db_def[THEN arg_cong[of _ _ contracts_table]] al_ok_def balance_block_def
        sample_balance int_of_def offline_def\<close>)
  then show ?thesis by (auto simp: sample_balance int_of_def)
qed

text \<open>
  The trait counts of a contract only ever grow when a token's metadata changes: the old metadata is read after it has been overwritten, so the traits
  that are subtracted are the ones that are added. Afterwards every trait is counted as often as before, or as often as it occurs in the new metadata if
  that is more; traits the token no longer has stay counted.
\<close>

theorem metadata_change_keeps_old_traits:
  assumes "xe_trait_counts X" and "\<not> xe_token_attributes X"
    and "transaction ex = Some db" and "map_of (tokens_table db) (Nft a i) = Some row" and "map_of (tokens_table db) (Contract a) = Some crow"
    and "metadata \<noteq> []" and "extract_traits_from_json (xe_json X) metadata = Inr ts"
    and "counts_ok (current_traits (xe_json X) (tk_traits crow))"
    and "\<forall>t. trait_count (current_traits (xe_json X) (tk_traits crow)) t + count_list ts t < 2 ^ 64"
  shows "\<exists>ex' db' crow' m. handle_query_message X (UpdateTokenMetadata \<lparr>um_token_id = Nft a i, um_metadata = metadata\<rparr>) ex = (Inr (), ex') \<and>
    transaction ex' = Some db' \<and> map_of (tokens_table db') (Contract a) = Some crow' \<and> tk_traits crow' = json_to_string (xe_json X) (JObject m) \<and>
    (\<forall>t. trait_count m t = max (trait_count (current_traits (xe_json X) (tk_traits crow)) t) (count_list ts t))"
proof -
  let ?m = "fold add_trait ts (fold subtract_trait ts (current_traits (xe_json X) (tk_traits crow)))"
  have s: "counts_ok (fold subtract_trait ts (current_traits (xe_json X) (tk_traits crow))) \<and>
      trait_count (fold subtract_trait ts (current_traits (xe_json X) (tk_traits crow))) t =
      trait_count (current_traits (xe_json X) (tk_traits crow)) t - count_list ts t" for t
    by (rule fold_subtract_trait[OF assms(8)])
  have "trait_count (fold subtract_trait ts (current_traits (xe_json X) (tk_traits crow))) t + count_list ts t < 2 ^ 64" for t
    using s[of t] assms(9) by (auto intro: le_less_trans[of _ "trait_count (current_traits (xe_json X) (tk_traits crow)) t + count_list ts t"])
  from fold_add_trait[OF conjunct1[OF s] this] s
  have m: "trait_count ?m t = max (trait_count (current_traits (xe_json X) (tk_traits crow)) t) (count_list ts t)" for t by simp
  then show ?thesis
    using assms(1-7)
    by (simp add: handle_query_message_def update_token_metadata_def and_then_def read_tx_def write_tx_def sql_scalar_def ret_def Let_def
        update_contract_traits_on_metadata_change_def read_contract_traits_def set_contract_traits_def publish_optimistic_and_queue_def
        apply_trait_operations_def) (intro exI[of _ ?m], simp)
qed

definition trait_json :: json_text where
  "trait_json = sample_json\<lparr>json_from_str := (\<lambda>s. if s = ''green''
     then Inr (JObject [(''attributes'', JArray [JObject [(''trait_type'', JString ''Color''), (''value'', JString ''Green'')]])])
     else json_from_str sample_json s)\<rparr>"

definition trait_db :: "unit database" where
  "trait_db = sample_db\<lparr>tokens_table := [(Contract 7, sample_row\<lparr>tk_traits := ''colors''\<rparr>), (Nft 7 1, sample_row\<lparr>tk_metadata := Some ''blue''\<rparr>)]\<rparr>"

theorem metadata_change_keeps_old_traits_witness:
  "\<exists>ex' db' crow' m. handle_query_message (sample_env\<lparr>xe_json := trait_json\<rparr>) (UpdateTokenMetadata \<lparr>um_token_id = Nft 7 1, um_metadata = ''green''\<rparr>)
      (sample_executor\<lparr>transaction := Some trait_db\<rparr>) = (Inr (), ex') \<and>
    transaction ex' = Some db' \<and> map_of (tokens_table db') (Contract 7) = Some crow' \<and> tk_traits crow' = json_to_string trait_json (JObject m) \<and>
    trait_count m \<lparr>trait_type = ''Color'', trait_value = ''Blue''\<rparr> = 1 \<and> trait_count m \<lparr>trait_type = ''Color'', trait_value = ''Green''\<rparr> = 1"
proof -
  let ?X = "sample_env\<lparr>xe_json := trait_json\<rparr>" and ?ts = "[\<lparr>trait_type = ''Color'', trait_value = ''Green''\<rparr>]"
  have c: "current_traits trait_json ''colors'' = [(''Color'', JObject [(''Red'', JU64 2), (''Blue'', JU64 1)])]"
    by (simp add: current_traits_def trait_json_def sample_json_def)
  have ok: "counts_ok (current_traits trait_json ''colors'')" unfolding c by (simp add: counts_ok_def al_ok_def)
  have le: "trait_count (current_traits trait_json ''colors'') t + count_list ?ts t \<le> 2 + 1" for t
    by (rule add_mono) (simp_all add: c trait_count_def)
  have bound: "\<forall>t. trait_count (current_traits trait_json ''colors'') t + count_list ?ts t < 2 ^ 64"
    by (intro allI le_less_trans[OF le]) simp
  have "\<exists>ex' db' crow' m. handle_query_message ?X (UpdateTokenMetadata \<lparr>um_token_id = Nft 7 1, um_metadata = ''green''\<rparr>)
      (sample_executor\<lparr>transaction := Some trait_db\<rparr>) = (Inr (), ex') \<and>
    transaction ex' = Some db' \<and> map_of (tokens_table db') (Contract 7) = Some crow' \<and> tk_traits crow' = json_to_string (xe_json ?X) (JObject m) \<and>
    (\<forall>t. trait_count m t = max (trait_count (current_traits (xe_json ?X) (tk_traits (sample_row\<lparr>tk_traits := ''colors''\<rparr>))) t) (count_list ?ts t))"
    by (rule metadata_change_keeps_old_traits[where db = trait_db])
      (use ok bound in \<open>simp_all add: trait_db_def extract_traits_from_json_def trait_of_attribute_def trait_json_def\<close>)
  then obtain ex' db' crow' m where r: "handle_query_message ?X (UpdateTokenMetadata \<lparr>um_token_id = Nft 7 1, um_metadata = ''green''\<rparr>)
      (sample_executor\<lparr>transaction := Some trait_db\<rparr>) = (Inr (), ex')" "transaction ex' = Some db'"
    "map_of (tokens_table db') (Contract 7) = Some crow'" "tk_traits crow' = json_to_string (xe_json ?X) (JObject m)"
    and m: "\<forall>t. trait_count m t = max (trait_count (current_traits (xe_json ?X) (tk_traits (sample_row\<lparr>tk_traits := ''colors''\<rparr>))) t) (count_list ?ts t)"
    by (elim exE conjE) (rule that)
  have "trait_count m \<lparr>trait_type = ''Color'', trait_value = ''Blue''\<rparr> = 1" "trait_count m \<lparr>trait_type = ''Color'', trait_value = ''Green''\<rparr> = 1"
    unfolding m[rule_format] by (simp_all add: c trait_count_def)
  with r show ?thesis by (intro exI[of _ ex'] exI[of _ db'] exI[of _ crow'] exI[of _ m]) simp
qed

end
