(* ===== verification/SqlEngine.thy ===== *)
theory SqlEngine
  imports EngineSpec ExecutorSpec FetcherBlocks
begin

text \<open>
  The engine on top of the storage executor and the in-memory cache: the services of \<open>Engine\<close> are the storage methods of \<open>Executor\<close> and the operations of
  \<open>Cache\<close>. This is the instance the contract of storage is discharged on.

  A processor is a client of storage and cache: it reads what is committed and what is cached, changes the cache and calls the storage methods below, one per step.
  None of them commits or rolls back.
\<close>

section \<open>Clients of storage\<close>

datatype 'q client_call =
  CallStatement 'q
| CallRegisterContract felt contract_type u64
| CallRegisterTokenContract register_token_contract_query
| CallRegisterNftToken register_nft_token_query
| CallUpdateTokenMetadata update_token_metadata_query

fun query_of :: "'q client_call \<Rightarrow> 'q query" where
  "query_of (CallStatement q) = Statement q"
| "query_of (CallRegisterContract a ct head) = RegisterContract a ct head"
| "query_of (CallRegisterTokenContract r) = RegisterTokenContract r"
| "query_of (CallRegisterNftToken r) = RegisterNftToken r"
| "query_of (CallUpdateTokenMetadata u) = UpdateTokenMetadata u"

record ('o, 'm, 'y, 't) sql_shared =
  sh_storage :: "('o, 'm) sql_storage"
  sh_cache :: "('y, 't) in_memory_cache"

type_synonym ('o, 'y, 't, 'a) client = "'o database \<Rightarrow> ('y, 't) in_memory_cache \<Rightarrow> 'a \<times> ('y, 't) in_memory_cache"

definition with_storage ::
  "(('o, 'm) sql_storage, string, unit) stateful \<Rightarrow> ('o, 'm, 'y, 't) sql_shared \<Rightarrow> (string + unit) \<times> ('o, 'm, 'y, 't) sql_shared" where
  "with_storage f s = (case f (sh_storage s) of (r, st) \<Rightarrow> (r, s\<lparr>sh_storage := st\<rparr>))"

definition client_view :: "('o, 'm, 'y, 't) sql_shared \<Rightarrow> 'o database" where
  "client_view s = pool_db (sq_executor (sh_storage s))"

text \<open>One step of a processor, and a processor that is not suspended.\<close>

definition client_step ::
  "('q, 'o, 'm) executor_env \<Rightarrow> ('x \<Rightarrow> ('o, 'y, 't, ('x + unit completion) \<times> 'q client_call option) client) \<Rightarrow>
   'x \<Rightarrow> ('o, 'm, 'y, 't) sql_shared \<Rightarrow> ('x + unit completion) \<times> ('o, 'm, 'y, 't) sql_shared" where
  "client_step X f l s =
     (case f l (client_view s) (sh_cache s) of
        ((r, None), c) \<Rightarrow> (r, s\<lparr>sh_cache := c\<rparr>)
      | ((r, Some call), c) \<Rightarrow>
          (case with_storage (send X (query_of call)) (s\<lparr>sh_cache := c\<rparr>) of
             (Inr _, s') \<Rightarrow> (r, s')
           | (Inl e, s') \<Rightarrow> (Inr (Err (PStorageError e)), s')))"

definition client_run ::
  "('q, 'o, 'm) executor_env \<Rightarrow> ('o, 'y, 't, unit completion \<times> 'q client_call list) client \<Rightarrow>
   ('o, 'm, 'y, 't) sql_shared \<Rightarrow> unit completion \<times> ('o, 'm, 'y, 't) sql_shared" where
  "client_run X f s =
     (case f (client_view s) (sh_cache s) of
        ((r, calls), c) \<Rightarrow>
          (case for_each (\<lambda>call. with_storage (send X (query_of call))) calls (s\<lparr>sh_cache := c\<rparr>) of
             (Inr _, s') \<Rightarrow> (r, s')
           | (Inl e, s') \<Rightarrow> (Err (PStorageError e), s')))"

record ('q, 'o, 'tx, 'r, 'x, 'y, 't, 's) clients =
  cl_store_event :: "string \<Rightarrow> event \<Rightarrow> felt \<Rightarrow> u64 \<Rightarrow> 'q"
  cl_store_receipt :: "'r \<Rightarrow> u64 \<Rightarrow> 'q list"
  cl_block :: "(u64 \<Rightarrow> u64 \<Rightarrow> ('o, 'y, 't, unit completion \<times> 'q client_call list) client) list"
  cl_transaction :: "('tx transaction_context \<Rightarrow> ('o, 'y, 't, unit completion \<times> 'q client_call list) client) list"
  cl_catch_all_validate :: "event \<Rightarrow> bool"
  cl_catch_all :: "event_processor_context \<Rightarrow> ('o, 'y, 't, unit completion \<times> 'q client_call list) client"
  cl_processors :: "(contract_type \<times> (felt \<times> (('x, 's) event_processor \<times>
    ('x \<Rightarrow> ('o, 'y, 't, ('x + unit completion) \<times> 'q client_call option) client)) list) list) list"

section \<open>The services\<close>

type_synonym diffs = "(balance_id \<times> i256) list \<times> (token_id \<times> i256) list"

definition sql_services ::
  "('q, 'o, 'm) executor_env \<Rightarrow> ('q, 'o, 'tx, 'r, 'x, 'y, 't, ('o, 'm, 'y, 't) sql_shared) clients \<Rightarrow>
   ('tx, 'r, diffs, ('o, 'm, 'y, 't) sql_shared) engine_services" where
  "sql_services X C = \<lparr>
     sv_contracts = (\<lambda>s. Inr (storage_contracts [] [] (sh_storage s))),
     sv_store_event = (\<lambda>i ev h t. with_storage (send X (Statement (cl_store_event C i ev h t)))),
     sv_store_receipt = (\<lambda>r t. for_each (\<lambda>q. with_storage (send X (Statement q))) (cl_store_receipt C r t)),
     sv_diffs = (\<lambda>s. (cache_balances_diff (sh_cache s), cache_total_supply_diff (sh_cache s))),
     sv_apply_balances_diff = (\<lambda>(b, t) cs. with_storage (storage_apply_balances_diff X b t cs)),
     sv_clear_balances_diff = (\<lambda>s. s\<lparr>sh_cache := cache_clear_balances_diff (sh_cache s)\<rparr>),
     sv_update_cursors = (\<lambda>cur. with_storage (storage_update_cursors X (cursors_of cur) (cursor_transactions cur))),
     sv_execute = with_storage (storage_execute X),
     sv_rollback = with_storage (storage_rollback X),
     sv_reset = (\<lambda>s. case reset_to_committed_storage (Inr (storage_token_ids (sh_storage s))) (sh_cache s) of (r, c) \<Rightarrow> (r, s\<lparr>sh_cache := c\<rparr>)),
     sv_block_processors = map (\<lambda>f n t. client_run X (f n t)) (cl_block C),
     sv_transaction_processors = map (\<lambda>f tc. client_run X (f tc)) (cl_transaction C),
     sv_catch_all_validate = cl_catch_all_validate C,
     sv_catch_all_process = (\<lambda>ctx. client_run X (cl_catch_all C ctx))\<rparr>"

definition sql_engine_env ::
  "('q, 'o, 'm) executor_env \<Rightarrow> ('q, 'o, 'tx, 'r, 'x, 'y, 't, ('o, 'm, 'y, 't) sql_shared) clients \<Rightarrow>
   ('tx, 'r, diffs, 'x, ('o, 'm, 'y, 't) sql_shared) engine_env \<Rightarrow> ('tx, 'r, diffs, 'x, ('o, 'm, 'y, 't) sql_shared) engine_env" where
  "sql_engine_env X C B = B\<lparr>en_services := sql_services X C,
     en_processors := map (\<lambda>(ct, m). (ct, map (\<lambda>(k, ps). (k, map (\<lambda>(p, f). p\<lparr>p_process := client_step X f\<rparr>) ps)) m)) (cl_processors C)\<rparr>"

section \<open>The contract of storage\<close>

definition sql_staged :: "('o, 'm, 'y, 't) sql_shared \<Rightarrow> 'o database" where
  "sql_staged s = (case transaction (sq_executor (sh_storage s)) of None \<Rightarrow> client_view s | Some db \<Rightarrow> db)"

definition sql_clean :: "('o, 'm, 'y, 't) sql_shared \<Rightarrow> bool" where
  "sql_clean s \<longleftrightarrow> sq_alive (sh_storage s) \<and> transaction (sq_executor (sh_storage s)) = Some (client_view s) \<and>
     publish_queue (sq_executor (sh_storage s)) = []"

lemma serve_keeps: "\<not> ends_batch q \<Longrightarrow> pool_db (sq_executor (snd (serve X q s))) = pool_db (sq_executor s)"
  using confinedD[OF confined_query[of q X]] by (auto simp: serve_def within_tx_def split: prod.split)

lemma keeps_send: "\<not> ends_batch q \<Longrightarrow> keeps client_view (with_storage (send X q))"
  using serve_keeps[of q X] by (auto simp: keeps_def with_storage_def client_view_def send_def split: prod.split)

lemma keeps_request: "\<not> ends_batch q \<Longrightarrow> keeps client_view (with_storage (request X q))"
proof -
  assume "\<not> ends_batch q"
  then have "pool_db (sq_executor (snd (request X q s))) = pool_db (sq_executor s)" for s
    using serve_keeps[of q X s] by (auto simp: request_def split: prod.split sum.split failure.split)
  then show ?thesis by (auto simp: keeps_def with_storage_def client_view_def split: prod.split) (metis snd_conv)
qed

lemma keeps_for_each: "(\<And>x. keeps f (m x)) \<Longrightarrow> keeps f (for_each m xs)"
proof (induction xs)
  case (Cons x xs)
  then have "keeps f (m x)" "keeps f (for_each m xs)" by simp_all
  then show ?case unfolding keeps_def by (auto split: prod.split sum.split) (metis snd_conv)+
qed (simp add: keeps_def)

lemma query_of_client: "\<not> ends_batch (query_of call)"
  by (cases call) simp_all

lemma client_view_cache [simp]: "client_view (s\<lparr>sh_cache := c\<rparr>) = client_view s"
  by (simp add: client_view_def)

lemma keepsD: "keeps f m \<Longrightarrow> m s = (r, s') \<Longrightarrow> f s' = f s"
  unfolding keeps_def by (metis snd_conv)

lemma keeps_client_step: "keeps client_view (client_step X f l)"
  using keepsD[OF keeps_send[OF query_of_client, of X]]
  by (fastforce simp: keeps_def client_step_def split: prod.split option.split sum.split)

lemma keeps_client_run: "keeps client_view (client_run X f)"
  using keepsD[OF keeps_for_each[of client_view "\<lambda>call. with_storage (send X (query_of call))"]] keeps_send[OF query_of_client, of X]
  by (fastforce simp: keeps_def client_run_def split: prod.split sum.split)

lemma begin_keeps: "begin_transaction X ex = (r, ex') \<Longrightarrow> pool_db ex' = pool_db ex \<and> publish_queue ex' = publish_queue ex \<and>
    (r = Inr () \<longrightarrow> transaction ex' = Some (pool_db ex))"
  by (auto simp: begin_transaction_def split: option.splits)

lemma execute_storage:
  assumes "storage_execute X s = (r, s')"
  shows "pool_db (sq_executor s') \<in> {pool_db (sq_executor s), case transaction (sq_executor s) of None \<Rightarrow> pool_db (sq_executor s) | Some db \<Rightarrow> db} \<and>
    (r = Inr () \<longrightarrow> sq_alive s' \<and> transaction (sq_executor s') = Some (pool_db (sq_executor s')) \<and> publish_queue (sq_executor s') = [] \<and>
       transaction (sq_executor s) = Some (pool_db (sq_executor s')))"
  using assms
  by (auto simp: storage_execute_def request_def serve_def handle_query_message_def execute_def and_then_def read_tx_def commit_transaction_def
      check_and_truncate_wal_def dest!: begin_keeps split: if_splits option.splits prod.splits sum.splits failure.splits)

lemma rollback_storage:
  assumes "storage_rollback X s = (r, s')"
  shows "pool_db (sq_executor s') = pool_db (sq_executor s) \<and>
    (r = Inr () \<longrightarrow> sq_alive s' \<and> transaction (sq_executor s') = Some (pool_db (sq_executor s')) \<and> publish_queue (sq_executor s') = [])"
  using assms
  by (auto simp: storage_rollback_def request_def serve_def handle_query_message_def rollback_def and_then_def read_tx_def
      dest!: begin_keeps split: if_splits option.splits prod.splits sum.splits failure.splits)

lemma with_storageD: "with_storage f s = (r, s') \<Longrightarrow> \<exists>st. f (sh_storage s) = (r, st) \<and> s' = s\<lparr>sh_storage := st\<rparr>"
  by (auto simp: with_storage_def split: prod.splits)

lemma map_of_map_snd: "map_of (map (\<lambda>(k, v). (k, f v)) m) k = Some y \<Longrightarrow> \<exists>v. y = f v"
  by (induction m) (auto split: if_splits)

interpretation sql_engine: transactional "sql_engine_env X C B" client_view sql_staged sql_clean for X C B
proof unfold_locales
  let ?S = "sql_services X C"
  have S: "en_services (sql_engine_env X C B) = ?S" by (simp add: sql_engine_env_def)
  note sv = S sql_services_def engine_services.simps
  show "keeps client_view (sv_store_event (en_services (sql_engine_env X C B)) i ev h t)" for i ev h t
    unfolding sv by (rule keeps_send) simp
  show "keeps client_view (sv_store_receipt (en_services (sql_engine_env X C B)) rc t)" for rc t
    unfolding sv by (intro keeps_for_each keeps_send) simp
  show "keeps client_view (sv_apply_balances_diff (en_services (sql_engine_env X C B)) b cs)" for b cs
    unfolding sv storage_apply_balances_diff_def by (cases b) (simp add: keeps_send)
  show "client_view (sv_clear_balances_diff (en_services (sql_engine_env X C B)) s) = client_view s" for s
    unfolding sv by simp
  show "keeps client_view (sv_update_cursors (en_services (sql_engine_env X C B)) cur)" for cur
    unfolding sv storage_update_cursors_def by (rule keeps_request) simp
  show "keeps client_view (sv_rollback (en_services (sql_engine_env X C B)))"
    unfolding sv keeps_def client_view_def using rollback_storage[of X] by (auto simp: with_storage_def split: prod.split)
  show "keeps client_view (sv_reset (en_services (sql_engine_env X C B)))"
    unfolding sv keeps_def by (auto split: prod.split)
  show "keeps client_view (p n t)" if "p \<in> set (sv_block_processors (en_services (sql_engine_env X C B)))" for p n t
    using that unfolding sv by (auto simp: keeps_client_run)
  show "keeps client_view (q tc)" if "q \<in> set (sv_transaction_processors (en_services (sql_engine_env X C B)))" for q tc
    using that unfolding sv by (auto simp: keeps_client_run)
  show "keeps client_view (sv_catch_all_process (en_services (sql_engine_env X C B)) ctx)" for ctx
    unfolding sv by (rule keeps_client_run)
  show "keeps client_view (p_process ep l)" if P: "map_of (en_processors (sql_engine_env X C B)) ct = Some m" "map_of m k = Some ps" "ep \<in> set ps"
    for ct m k ps ep l
  proof -
    let ?g = "\<lambda>(p, f). p\<lparr>p_process := client_step X f\<rparr>"
    obtain m0 where "m = map (\<lambda>(k, ps). (k, map ?g ps)) m0"
      using map_of_map_snd[of "\<lambda>m. map (\<lambda>(k, ps). (k, map ?g ps)) m" "cl_processors C" ct m] P(1) by (auto simp: sql_engine_env_def)
    then obtain ps0 where "ps = map ?g ps0"
      using map_of_map_snd[of "map ?g" m0 k ps] P(2) by auto
    then obtain x where "ep = ?g x" using P(3) by auto
    then show ?thesis by (cases x) (simp add: keeps_client_step)
  qed
  show "sql_clean s2" if r: "sv_rollback (en_services (sql_engine_env X C B)) s0 = (Inr u, s1)"
    "sv_reset (en_services (sql_engine_env X C B)) s1 = (Inr v, s2)" for s0 s1 s2 u v
  proof -
    obtain st where st: "storage_rollback X (sh_storage s0) = (Inr u, st)" "s1 = s0\<lparr>sh_storage := st\<rparr>"
      using with_storageD r(1) unfolding sv by blast
    moreover have "sh_storage s2 = sh_storage s1" using r(2) unfolding sv by (auto split: prod.splits)
    ultimately show ?thesis using rollback_storage[OF st(1)] by (simp add: sql_clean_def client_view_def)
  qed
  have x: "\<exists>st. storage_execute X (sh_storage s0) = (r, st) \<and> s1 = s0\<lparr>sh_storage := st\<rparr>"
    if "sv_execute (en_services (sql_engine_env X C B)) s0 = (r, s1)" for s0 r s1
    using with_storageD that unfolding sv by blast
  show "sql_clean s3" if "sv_execute (en_services (sql_engine_env X C B)) s0 = (Inr w, s3)" for s0 w s3
    using x[OF that] execute_storage[of X "sh_storage s0"] by (auto simp: sql_clean_def client_view_def)
  show "client_view s' = sql_staged s" if "sv_execute (en_services (sql_engine_env X C B)) s = (Inr u, s')" for s u s'
    using x[OF that] execute_storage[of X "sh_storage s"] by (auto simp: sql_staged_def client_view_def)
  show "client_view s' = client_view s \<or> client_view s' = sql_staged s" if "sv_execute (en_services (sql_engine_env X C B)) s = (Inl e, s')" for s e s'
    using x[OF that] execute_storage[of X "sh_storage s" "Inl e"] by (auto simp: sql_staged_def client_view_def split: option.splits)
  show "sv_contracts (en_services (sql_engine_env X C B)) s = sv_contracts (en_services (sql_engine_env X C B)) s'"
    if "client_view s = client_view s'" for s s'
    using that unfolding sv by (simp add: storage_contracts_def client_view_def)
qed

interpretation sql_list_engine: transactional_engine
  "sql_engine_env X C (B\<lparr>en_petgraph := list_petgraph, en_task_order := (\<lambda>xs. xs)\<rparr>)" client_view sql_staged sql_clean for X C B
  by (intro transactional_engine.intro sql_engine.transactional_axioms transactional_engine_axioms.intro) (simp_all add: sql_engine_env_def)

section \<open>Properties\<close>


text \<open>An engine without processors, and one iteration of its loop: a fetch that finds no contracts, and an empty batch that is committed.\<close>

definition no_clients :: "(unit, unit, unit, unit, unit, unit, unit, (unit, unit, unit, unit) sql_shared) clients" where
  "no_clients = \<lparr>cl_store_event = (\<lambda>_ _ _ _. ()), cl_store_receipt = (\<lambda>_ _. []), cl_block = [], cl_transaction = [], cl_catch_all_validate = (\<lambda>_. False),
     cl_catch_all = (\<lambda>_ _ c. ((Ok (), []), c)), cl_processors = []\<rparr>"

definition sample_base :: "(unit, unit, diffs, unit, (unit, unit, unit, unit) sql_shared) engine_env" where
  "sample_base = \<lparr>en_services = sql_services sample_env no_clients, en_processors = [], en_config = config_default, en_raw_events = False,
     en_fetcher = fetcher_config_default, en_max_tasks = 1, en_show_error = (\<lambda>_. ''error''), en_petgraph = list_petgraph, en_task_order = (\<lambda>xs. xs),
     en_node_order = (\<lambda>xs. xs), en_batch_order = (\<lambda>xs. xs), en_insert = back_insert, en_text = hex_text, en_selector = length\<rparr>"

definition sample_shared :: "(unit, unit, unit, unit) sql_shared" where
  "sample_shared = \<lparr>sh_storage = sample_storage, sh_cache = \<lparr>model_cache = [],
     erc = \<lparr>balances_diff = [], total_supply_diff = [], token_id_registry = [], mutexes = 0\<rparr>\<rparr>\<rparr>"

definition sample_sql_engine :: "(unit, unit, diffs, unit, (unit, unit, unit, unit) sql_shared) engine_env" where
  "sample_sql_engine = sql_engine_env sample_env no_clients sample_base"

lemma sample_sql_engine_simps [simp]:
  "en_services sample_sql_engine = sql_services sample_env no_clients" "en_processors sample_sql_engine = []"
  "en_fetcher sample_sql_engine = fetcher_config_default" "en_batch_order sample_sql_engine = (\<lambda>xs. xs)" "en_max_tasks sample_sql_engine = 1"
  "en_config sample_sql_engine = config_default" "en_petgraph sample_sql_engine = list_petgraph" "en_node_order sample_sql_engine = (\<lambda>xs. xs)"
  by (simp_all add: sample_sql_engine_def sql_engine_env_def sample_base_def no_clients_def)

definition empty_batch :: "(unit, unit) fetch_result" where
  "empty_batch = \<lparr>fr_range = [], fr_preconfirmed_block = None, fr_cursors = \<lparr>cursor_transactions = [], cursors_of = []\<rparr>\<rparr>"

lemma sample_fetch: "fetch_answer sample_sql_engine sample_provider sample_shared = Some (Some (Inr (empty_batch, [])))"
proof -
  have "fetch fetcher_config_default sample_provider (\<lambda>xs. xs) [] = Some (Fetched empty_batch)"
    by (simp add: fetch_def sample_provider_def fetch_range_def fetch_and_preprocess_events_def event_requests_def fetch_all_event_pages_def
        pages_loop.simps fetch_range_blocks_def block_numbers_def fetch_blocks_def empty_batch_def al_values_def preprocess_fetched_events_def
        or_panic_def retain_transactions_def fetch_details_def update_timestamps_def fetcher_config_default_def)
  then show ?thesis
    by (simp add: fetch_answer_def get_contracts_def sql_services_def storage_contracts_def sample_shared_def sample_storage_def sample_executor_def
        sample_db_def)
qed

lemma sample_process:
  "process sample_sql_engine empty_batch [] \<lparr>eng_shared = sample_shared, eng_tasks = task_manager_new 1 config_default\<rparr> (EOk ())
     \<lparr>eng_shared = sample_shared, eng_tasks = task_manager_new 1 config_default\<rparr> None"
proof (rule process.tasks_done)
  let ?tm = "task_manager_new 1 config_default" and ?st = "\<lparr>eng_shared = sample_shared, eng_tasks = task_manager_new 1 config_default\<rparr>"
  show "process_front sample_sql_engine empty_batch [] ?st = (EOk (), ?st)"
    by (simp add: process_front_def empty_batch_def ebind_def eok_def)
  show "manager_process_tasks (en_petgraph sample_sql_engine) (en_node_order sample_sql_engine) (en_show_error sample_sql_engine)
      (en_processors sample_sql_engine) (eng_tasks ?st) (eng_shared ?st) (run_start [] 1 sample_shared) (Inr ()) ?tm"
    unfolding manager_process_tasks_def
    by (intro exI[of _ "Inr ()"] exI[of _ "network_new 1"])
      (simp add: process_tasks_def task_manager_new_def network_is_empty_def network_new_def adigraph_is_empty_def adigraph_new_def)
  have tx: "transaction sample_executor = Some sample_db" "contracts_table sample_db = []" by (simp_all add: sample_executor_def sample_db_def)
  have "serve sample_env (ApplyBalanceDiff \<lparr>ab_balances_diff = [], ab_total_supply_diff = [], ab_cursors = []\<rparr>) sample_storage = (Inr (), sample_storage)"
    "serve sample_env (UpdateCursors \<lparr>uc_cursors = [], uc_transactions = []\<rparr>) sample_storage = (Inr (), sample_storage)"
    by (simp_all add: serve_def handle_query_message_def and_then_def read_tx_def tx sample_storage_def apply_balance_diff_def update_cursors_def ret_def)
  then show "process_back sample_sql_engine empty_batch \<lparr>eng_shared = shared (run_start [] 1 sample_shared :: (unit, (unit, unit, unit, unit) sql_shared) task_run),
      eng_tasks = ?tm\<rparr> = (EOk (), ?st)"
    by (simp add: process_back_def ebind_def storage_call_def sql_services_def with_storage_def storage_apply_balances_diff_def storage_update_cursors_def
        send_def request_def empty_batch_def cache_balances_diff_def cache_total_supply_diff_def cache_clear_balances_diff_def clear_balances_diff_def
        sample_shared_def run_start_def sample_storage_def)
qed

lemma sample_execute: "sv_execute (sql_services sample_env no_clients) sample_shared = (Inr (), sample_shared)"
proof -
  have "handle_query_message sample_env Execute sample_executor = (Inr (), sample_executor)"
    using execute_works[OF sample_env_simps(6), of sample_executor sample_db] by (simp add: sample_executor_def)
  then show ?thesis
    by (simp add: sql_services_def with_storage_def storage_execute_def request_def serve_def sample_shared_def sample_storage_def)
qed

definition after_one_batch :: "(unit, unit, unit, (unit, unit, unit, unit) sql_shared) engine_loop" where
  "after_one_batch = engine_start sample_sql_engine sample_shared"

lemma sample_engine_run: "(engine_step sample_sql_engine)\<^sup>*\<^sup>* (engine_start sample_sql_engine sample_shared) after_one_batch"
proof (rule r_into_rtranclp, rule engine_step.batch[OF _ _ refl _ refl])
  let ?L = "engine_start sample_sql_engine sample_shared"
  show "lp_cached_fetch ?L = Some (empty_batch, []) \<or>
      lp_cached_fetch ?L = None \<and> fetch_answer sample_sql_engine sample_provider (eng_shared (lp_engine ?L)) = Some (Some (Inr (empty_batch, [])))"
    by (simp add: engine_start_def sample_fetch)
  show "process sample_sql_engine (fst (empty_batch, [])) (snd (empty_batch, [])) (lp_engine ?L) (EOk ())
      \<lparr>eng_shared = sample_shared, eng_tasks = task_manager_new 1 config_default\<rparr> None"
    using sample_process by (simp add: engine_start_def)
qed (simp_all add: engine_start_def after_one_batch_def after_success_def sample_execute recovered_def Let_def)


end
