(* ===== verification/NumberText.thy ===== *)
theory NumberText
  imports EventId
begin

text \<open>
  Decimal numbers as text: \<open>to_string\<close> of the integer types and \<open>parse\<close>, which takes an optional sign (no minus for the unsigned types) and at least one
  digit and fails on a value that does not fit. The type is given by its bounds.
\<close>

section \<open>Printing and parsing\<close>

definition dec_digit :: "nat \<Rightarrow> char" where
  "dec_digit d = ''0123456789'' ! d"

function dec_digits :: "nat \<Rightarrow> string" where
  "dec_digits n = (if n < 10 then [dec_digit n] else dec_digits (n div 10) @ [dec_digit (n mod 10)])"
  by pat_completeness auto
termination by (relation "measure id") auto

declare dec_digits.simps [simp del]

definition int_text :: "int \<Rightarrow> string" where
  "int_text i = (if i < 0 then CHR ''-'' # dec_digits (nat (- i)) else dec_digits (nat i))"

definition dec_value :: "char \<Rightarrow> nat option" where
  "dec_value c = (let k = of_char c :: nat in if 48 \<le> k \<and> k \<le> 57 then Some (k - 48) else None)"

fun decs_value :: "nat \<Rightarrow> string \<Rightarrow> nat option" where
  "decs_value acc [] = Some acc"
| "decs_value acc (c # cs) = (case dec_value c of None \<Rightarrow> None | Some d \<Rightarrow> decs_value (10 * acc + d) cs)"

definition parse_digits :: "string \<Rightarrow> nat option" where
  "parse_digits s = (if s = [] then None else decs_value 0 s)"

definition signed_value :: "string \<Rightarrow> int option" where
  "signed_value s =
     (case s of
        [] \<Rightarrow> None
      | c # cs \<Rightarrow>
          if c = CHR ''-'' then map_option (\<lambda>n. - int n) (parse_digits cs)
          else map_option int (parse_digits (if c = CHR ''+'' then cs else s)))"

definition parse_int :: "int \<Rightarrow> int \<Rightarrow> string \<Rightarrow> int option" where
  "parse_int lo hi s =
     (if lo = 0 \<and> take 1 s = ''-'' then None
      else case signed_value s of None \<Rightarrow> None | Some i \<Rightarrow> if lo \<le> i \<and> i < hi then Some i else None)"

definition parse_i32 :: "string \<Rightarrow> int option" where
  "parse_i32 s = parse_int (- (2 ^ 31)) (2 ^ 31) s"

definition parse_i64 :: "string \<Rightarrow> int option" where
  "parse_i64 s = parse_int (- (2 ^ 63)) (2 ^ 63) s"

definition parse_i128 :: "string \<Rightarrow> int option" where
  "parse_i128 s = parse_int (- (2 ^ 127)) (2 ^ 127) s"

definition parse_u128 :: "string \<Rightarrow> int option" where
  "parse_u128 s = parse_int 0 (2 ^ 128) s"

section \<open>What is printed is read back\<close>

lemma dec_value_digit: "d < 10 \<Longrightarrow> dec_value (dec_digit d) = Some d"
proof -
  have "\<forall>d \<in> set [0..<10]. dec_value (dec_digit d) = Some d" by code_simp
  then show "d < 10 \<Longrightarrow> dec_value (dec_digit d) = Some d" by simp
qed

lemma decs_value_append: "decs_value acc (s @ t) = (case decs_value acc s of None \<Rightarrow> None | Some v \<Rightarrow> decs_value v t)"
  by (induction s arbitrary: acc) (auto split: option.split)

lemma dec_digits_spec: "dec_digits n \<noteq> [] \<and> decs_value 0 (dec_digits n) = Some n"
proof (induction n rule: dec_digits.induct)
  case (1 n)
  show ?case
  proof (cases "n < 10")
    case True
    then show ?thesis by (subst (1 2) dec_digits.simps) (simp add: dec_value_digit)
  next
    case False
    with 1 show ?thesis by (subst (1 2) dec_digits.simps) (simp add: decs_value_append dec_value_digit)
  qed
qed

lemma decs_value_digits: "decs_value acc s = Some v \<Longrightarrow> c \<in> set s \<Longrightarrow> dec_value c \<noteq> None"
  by (induction s arbitrary: acc) (auto split: option.splits)

lemma dec_digits_chars: "c \<in> set (dec_digits n) \<Longrightarrow> dec_value c \<noteq> None"
  using dec_digits_spec[of n] decs_value_digits by blast

lemma no_digit [simp]: "dec_value (CHR ''-'') = None" "dec_value (CHR ''+'') = None" "dec_value (CHR '':'') = None" "dec_value (CHR ''x'') = None"
  by (simp_all add: dec_value_def)

lemma dec_digits_head: "\<exists>c cs. dec_digits n = c # cs \<and> c \<noteq> CHR ''-'' \<and> c \<noteq> CHR ''+'' \<and> dec_value c \<noteq> None"
proof (cases "dec_digits n")
  case Nil
  then show ?thesis using dec_digits_spec[of n] by simp
next
  case (Cons c cs)
  then have "dec_value c \<noteq> None" using dec_digits_chars[of c n] by simp
  then show ?thesis using Cons by auto
qed

lemma parse_dec_digits [simp]: "parse_digits (dec_digits n) = Some n"
  using dec_digits_spec[of n] by (simp add: parse_digits_def)

lemma signed_int_text: "signed_value (int_text i) = Some i"
proof (cases "i < 0")
  case True
  then show ?thesis by (simp add: signed_value_def int_text_def)
next
  case False
  obtain c cs where h: "dec_digits (nat i) = c # cs" "c \<noteq> CHR ''-''" "c \<noteq> CHR ''+''" using dec_digits_head by blast
  have "parse_digits (c # cs) = Some (nat i)" using parse_dec_digits[of "nat i"] h(1) by simp
  then show ?thesis using False h by (simp add: signed_value_def int_text_def)
qed

lemma int_text_minus: "take 1 (int_text i) = ''-'' \<longleftrightarrow> i < 0"
  using dec_digits_head[of "nat i"] by (auto simp: int_text_def)

lemma parse_int_text: "parse_int lo hi (int_text i) = (if lo \<le> i \<and> i < hi then Some i else None)"
  using int_text_minus[of i] by (auto simp: parse_int_def signed_int_text)

lemmas parse_text = parse_int_text parse_i32_def parse_i64_def parse_i128_def parse_u128_def

section \<open>Splitting and joining\<close>

fun join_with :: "string \<Rightarrow> string list \<Rightarrow> string" where
  "join_with d [] = []"
| "join_with d [s] = s"
| "join_with d (s # ss) = s @ d @ join_with d ss"

fun split_on :: "char \<Rightarrow> string \<Rightarrow> string list" where
  "split_on d [] = [[]]"
| "split_on d (c # s) =
     (if c = d then [] # split_on d s
      else case split_on d s of p # ps \<Rightarrow> (c # p) # ps | [] \<Rightarrow> [[c]])"

lemma split_on_last: "d \<notin> set s \<Longrightarrow> split_on d s = [s]"
  by (induction s) auto

lemma split_on_part: "d \<notin> set s \<Longrightarrow> split_on d (s @ d # t) = s # split_on d t"
  by (induction s) auto

lemma split_join: "vs \<noteq> [] \<Longrightarrow> \<forall>v\<in>set vs. d \<notin> set v \<Longrightarrow> split_on d (join_with [d] vs) = vs"
  by (induction vs rule: induct_list012) (simp_all add: split_on_part split_on_last)

end
