(* ===== verification/Pagination.thy ===== *)
theory Pagination
  imports NumberText
begin

text \<open>
  Pages of query results (\<open>crates/sqlite/sqlite/src/cursor.rs\<close>, \<open>query.rs\<close>): a query is extended by a condition on the values of the last row the client has seen,
  an order and a limit; one row more than asked for tells whether there is a next page.

  Compression and Base64 are other packages, the parameter \<open>cursor_codec\<close>; running the query is SQLite's, the parameter \<open>fetch_all\<close> of
  \<open>execute_paginated_query\<close>. A cursor condition is kept in parsed form, with \<open>condition_text\<close> the text the code makes of it. The addition to the limit wraps, as in
  a release build.
\<close>

section \<open>Cursors\<close>

datatype order_direction = Asc | Desc

record order_by =
  ob_field :: string
  ob_direction :: order_direction

datatype pagination_direction = Forward | Backward

record pagination =
  pg_cursor :: "string option"
  pg_limit :: "32 word option"
  pg_direction :: pagination_direction
  pg_order_by :: "order_by list"

record 'r page =
  items :: "'r list"
  next_cursor :: "string option"

datatype query_failure = InvalidCursor string | SqlError string

record cursor_codec =
  deflate :: "string \<Rightarrow> string + string"
  inflate :: "string \<Rightarrow> string + string"
  base64_encode :: "string \<Rightarrow> string"
  base64_decode :: "string \<Rightarrow> string + string"

definition CURSOR_DELIMITER :: char where
  "CURSOR_DELIMITER = CHR 0x1F"

definition encode_cursor :: "cursor_codec \<Rightarrow> string \<Rightarrow> query_failure + string" where
  "encode_cursor C v = (case deflate C v of Inl e \<Rightarrow> Inl (InvalidCursor e) | Inr bytes \<Rightarrow> Inr (base64_encode C bytes))"

definition decode_cursor :: "cursor_codec \<Rightarrow> string \<Rightarrow> query_failure + string" where
  "decode_cursor C s =
     (case base64_decode C s of
        Inl e \<Rightarrow> Inl (InvalidCursor e)
      | Inr bytes \<Rightarrow> (case inflate C bytes of Inl e \<Rightarrow> Inl (InvalidCursor e) | Inr v \<Rightarrow> Inr v))"

definition encode_cursor_values :: "cursor_codec \<Rightarrow> string list \<Rightarrow> query_failure + string" where
  "encode_cursor_values C vs = encode_cursor C (join_with [CURSOR_DELIMITER] vs)"

definition decode_cursor_values :: "cursor_codec \<Rightarrow> string \<Rightarrow> query_failure + string list" where
  "decode_cursor_values C s =
     (case decode_cursor C s of
        Inl e \<Rightarrow> Inl e
      | Inr v \<Rightarrow> if v = [] then Inr [] else Inr (split_on CURSOR_DELIMITER v))"

section \<open>Conditions\<close>

datatype comparison = Less | Greater

text \<open>A condition: columns that equal a placeholder each, and one that is compared with the last placeholder.\<close>

record cursor_condition =
  equal_fields :: "string list"
  compared_field :: string
  operator :: comparison

definition cursor_operator :: "order_direction \<Rightarrow> pagination_direction \<Rightarrow> comparison" where
  "cursor_operator od pd =
     (case (od, pd) of
        (Asc, Forward) \<Rightarrow> Greater
      | (Asc, Backward) \<Rightarrow> Less
      | (Desc, Forward) \<Rightarrow> Less
      | (Desc, Backward) \<Rightarrow> Greater)"

definition condition_text :: "cursor_condition \<Rightarrow> string" where
  "condition_text c =
     (let compared = ''['' @ compared_field c @ ''] '' @ (case operator c of Less \<Rightarrow> ''<'' | Greater \<Rightarrow> ''>'') @ '' ?'' in
      if equal_fields c = [] then compared
      else ''('' @ join_with '' AND '' (map (\<lambda>f. ''['' @ f @ ''] = ?'') (equal_fields c)) @ '' AND '' @ compared @ '')'')"

definition build_cursor_conditions :: "pagination \<Rightarrow> string list option \<Rightarrow> query_failure + cursor_condition list \<times> string list" where
  "build_cursor_conditions pg cursor_values =
     (case cursor_values of
        None \<Rightarrow> Inr ([], [])
      | Some vs \<Rightarrow>
          if length vs \<noteq> length (pg_order_by pg) then Inl (InvalidCursor ''Invalid cursor values length'')
          else Inr (map (\<lambda>i. \<lparr>equal_fields = map ob_field (take i (pg_order_by pg)), compared_field = ob_field (pg_order_by pg ! i),
                              operator = cursor_operator (ob_direction (pg_order_by pg ! i)) (pg_direction pg)\<rparr>)
                        [0..<length vs], vs))"

text \<open>How a row gives up the value of a column: as text, or as an integer that is printed.\<close>

record 'r row_access =
  get_string :: "'r \<Rightarrow> string \<Rightarrow> string option"
  get_i64 :: "'r \<Rightarrow> string \<Rightarrow> int option"

definition cursor_value :: "'r row_access \<Rightarrow> 'r \<Rightarrow> string \<Rightarrow> string option" where
  "cursor_value A r f = (case get_string A r f of Some v \<Rightarrow> Some v | None \<Rightarrow> map_option int_text (get_i64 A r f))"

fun build_cursor_values :: "'r row_access \<Rightarrow> order_by list \<Rightarrow> 'r \<Rightarrow> query_failure + string list" where
  "build_cursor_values A [] r = Inr []"
| "build_cursor_values A (ob # obs) r =
     (case cursor_value A r (ob_field ob) of
        None \<Rightarrow> Inl (InvalidCursor (''Could not extract cursor value for column '' @ ob_field ob))
      | Some v \<Rightarrow> (case build_cursor_values A obs r of Inl e \<Rightarrow> Inl e | Inr vs \<Rightarrow> Inr (v # vs)))"

section \<open>Queries\<close>

datatype where_condition = Raw string | Cursor cursor_condition

fun where_text :: "where_condition \<Rightarrow> string" where
  "where_text (Raw s) = s"
| "where_text (Cursor c) = condition_text c"

record query_builder =
  table_name :: string
  table_alias :: string
  selections :: "string list"
  joins :: "string list"
  where_conditions :: "where_condition list"
  bind_values :: "string list"
  order_fields :: "(string \<times> order_direction) list"
  group_by :: "string option"
  having_clause :: "string option"
  qb_limit :: "32 word option"

definition new_query :: "string \<Rightarrow> query_builder" where
  "new_query t = \<lparr>table_name = t, table_alias = [], selections = [], joins = [], where_conditions = [], bind_values = [], order_fields = [],
     group_by = None, having_clause = None, qb_limit = None\<rparr>"

definition order_text :: "string \<times> order_direction \<Rightarrow> string" where
  "order_text o' = fst o' @ (case snd o' of Asc \<Rightarrow> '' ASC'' | Desc \<Rightarrow> '' DESC'')"

definition optional_part :: "string \<Rightarrow> string option \<Rightarrow> string" where
  "optional_part key x = (case x of None \<Rightarrow> [] | Some s \<Rightarrow> key @ s)"

definition build :: "query_builder \<Rightarrow> string" where
  "build q =
     ''SELECT '' @ join_with '', '' (selections q) @ '' FROM ['' @ table_name q @ ''] '' @ table_alias q
     @ (if joins q = [] then [] else '' '' @ join_with '' '' (joins q))
     @ (if where_conditions q = [] then [] else '' WHERE '' @ join_with '' AND '' (map where_text (where_conditions q)))
     @ optional_part '' GROUP BY '' (group_by q)
     @ optional_part '' HAVING '' (having_clause q)
     @ (if order_fields q = [] then [] else '' ORDER BY '' @ join_with '', '' (map order_text (order_fields q)))
     @ optional_part '' LIMIT '' (map_option (\<lambda>l. dec_digits (unat l)) (qb_limit q))"

definition SQL_DEFAULT_LIMIT :: "32 word" where
  "SQL_DEFAULT_LIMIT = 10000"

definition query_direction :: "order_direction \<Rightarrow> pagination_direction \<Rightarrow> order_direction" where
  "query_direction od pd =
     (case (od, pd) of
        (Asc, Forward) \<Rightarrow> Asc
      | (Asc, Backward) \<Rightarrow> Desc
      | (Desc, Forward) \<Rightarrow> Desc
      | (Desc, Backward) \<Rightarrow> Asc)"

definition original_limit :: "pagination \<Rightarrow> 32 word" where
  "original_limit pg = (case pg_limit pg of None \<Rightarrow> SQL_DEFAULT_LIMIT | Some l \<Rightarrow> l)"

definition paged_query :: "query_builder \<Rightarrow> pagination \<Rightarrow> cursor_condition list \<Rightarrow> string list \<Rightarrow> query_builder" where
  "paged_query q pg conditions binds =
     q\<lparr>where_conditions := where_conditions q @ map Cursor conditions, bind_values := bind_values q @ binds,
       order_fields := order_fields q @ map (\<lambda>ob. (''['' @ ob_field ob @ '']'', query_direction (ob_direction ob) (pg_direction pg))) (pg_order_by pg),
       qb_limit := Some (original_limit pg + 1)\<rparr>"

definition page_of :: "cursor_codec \<Rightarrow> 'r row_access \<Rightarrow> pagination \<Rightarrow> 'r list \<Rightarrow> query_failure + 'r page" where
  "page_of C A pg fetched =
     (let has_more = unat (original_limit pg + 1) \<le> length fetched;
          rows = (if pg_direction pg = Backward then rev fetched else fetched) in
      if \<not> has_more then Inr \<lparr>items = rows, next_cursor = None\<rparr>
      else let rows = take (unat (original_limit pg)) rows in
           if rows = [] then Inr \<lparr>items = rows, next_cursor = None\<rparr>
           else case build_cursor_values A (pg_order_by pg) (last rows) of
                  Inl e \<Rightarrow> Inl e
                | Inr vs \<Rightarrow> (case encode_cursor_values C vs of Inl e \<Rightarrow> Inl e | Inr c \<Rightarrow> Inr \<lparr>items = rows, next_cursor = Some c\<rparr>))"

definition cursor_values_of :: "cursor_codec \<Rightarrow> pagination \<Rightarrow> query_failure + string list option" where
  "cursor_values_of C pg =
     (case pg_cursor pg of
        None \<Rightarrow> Inr None
      | Some s \<Rightarrow> (case decode_cursor_values C s of Inl e \<Rightarrow> Inl e | Inr vs \<Rightarrow> Inr (Some vs)))"

definition execute_paginated_query ::
  "cursor_codec \<Rightarrow> 'r row_access \<Rightarrow> (query_builder \<Rightarrow> string + 'r list) \<Rightarrow> query_builder \<Rightarrow> pagination \<Rightarrow> order_by \<Rightarrow> query_failure + 'r page" where
  "execute_paginated_query C A fetch_all q pagination default_order_by =
     (let pg = pagination\<lparr>pg_order_by := pg_order_by pagination @ [default_order_by]\<rparr> in
      case cursor_values_of C pg of
        Inl e \<Rightarrow> Inl e
      | Inr cursor_values \<Rightarrow>
          (case build_cursor_conditions pg cursor_values of
             Inl e \<Rightarrow> Inl e
           | Inr (conditions, binds) \<Rightarrow>
               (case fetch_all (paged_query q pg conditions binds) of
                  Inl e \<Rightarrow> Inl (SqlError e)
                | Inr fetched \<Rightarrow> page_of C A pg fetched)))"

end
