(* ===== verification/PaginationSpec.thy ===== *)
theory PaginationSpec
  imports Pagination
begin

text \<open>
  What following the cursors of a query delivers. SQLite is described by a table \<open>sql_table\<close>: the rows the query selects without a cursor, the values of their
  columns (\<open>None\<close> for \<open>NULL\<close>) and the value a bound text is compared as. Placeholders are bound in the order they occur, and those that are left over
  are \<open>NULL\<close>, which no comparison with is true. The locale \<open>sqlite_select\<close> says that the answer to a query are the first rows, up to the limit, of the selected
  rows in some order that agrees with \<open>ORDER BY\<close>.
\<close>

section \<open>The answers of SQLite\<close>

record ('r, 'k) sql_table =
  tb_rows :: "'r list"
  tb_key :: "'r \<Rightarrow> string \<Rightarrow> 'k option"
  tb_bound :: "string \<Rightarrow> string \<Rightarrow> 'k"

definition placeholders :: "cursor_condition \<Rightarrow> nat" where
  "placeholders c = Suc (length (equal_fields c))"

definition condition_holds :: "('r, 'k::linorder) sql_table \<Rightarrow> cursor_condition \<Rightarrow> string list \<Rightarrow> 'r \<Rightarrow> bool" where
  "condition_holds T c vs r \<longleftrightarrow>
     length vs = placeholders c \<and>
     list_all2 (\<lambda>f v. tb_key T r f = Some (tb_bound T f v)) (equal_fields c) (butlast vs) \<and>
     (case tb_key T r (compared_field c) of
        None \<Rightarrow> False
      | Some k \<Rightarrow> (case operator c of Less \<Rightarrow> k < tb_bound T (compared_field c) (last vs)
                                 | Greater \<Rightarrow> k > tb_bound T (compared_field c) (last vs)))"

fun conditions_hold :: "('r, 'k::linorder) sql_table \<Rightarrow> cursor_condition list \<Rightarrow> string list \<Rightarrow> 'r \<Rightarrow> bool" where
  "conditions_hold T [] vs r = True"
| "conditions_hold T (c # cs) vs r \<longleftrightarrow>
     condition_holds T c (take (placeholders c) vs) r \<and> conditions_hold T cs (drop (placeholders c) vs) r"

fun null_less :: "'k::linorder option \<Rightarrow> 'k option \<Rightarrow> bool" where
  "null_less None (Some _) = True"
| "null_less (Some a) (Some b) = (a < b)"
| "null_less _ None = False"

definition column_of :: "string \<Rightarrow> string" where
  "column_of f = butlast (tl f)"

fun row_le :: "('r, 'k::linorder) sql_table \<Rightarrow> (string \<times> order_direction) list \<Rightarrow> 'r \<Rightarrow> 'r \<Rightarrow> bool" where
  "row_le T [] r s = True"
| "row_le T ((f, d) # os) r s =
     (let a = tb_key T r (column_of f); b = tb_key T s (column_of f) in
      if a = b then row_le T os r s else case d of Asc \<Rightarrow> null_less a b | Desc \<Rightarrow> null_less b a)"

locale sqlite_select =
  fixes T :: "('r, 'k::linorder) sql_table"
    and fetch_all :: "query_builder \<Rightarrow> string + 'r list"
    and q0 :: query_builder
  assumes select: "\<exists>p. fetch_all (q0\<lparr>where_conditions := where_conditions q0 @ map Cursor cs, bind_values := bind_values q0 @ bs,
        order_fields := order_fields q0 @ os, qb_limit := Some l\<rparr>) = Inr (take (unat l) p) \<and>
      mset p = mset (filter (conditions_hold T cs bs) (tb_rows T)) \<and> sorted_wrt (row_le T os) p"

section \<open>Paging by the default order\<close>

definition precedes :: "('r, 'k::linorder) sql_table \<Rightarrow> order_by \<Rightarrow> 'r \<Rightarrow> 'r \<Rightarrow> bool" where
  "precedes T ob r s \<longleftrightarrow>
     (case (tb_key T r (ob_field ob), tb_key T s (ob_field ob)) of
        (Some a, Some b) \<Rightarrow> (case ob_direction ob of Asc \<Rightarrow> a < b | Desc \<Rightarrow> b < a)
      | _ \<Rightarrow> False)"

text \<open>A client that follows the cursors.\<close>

fun follow_pages ::
  "cursor_codec \<Rightarrow> 'r row_access \<Rightarrow> (query_builder \<Rightarrow> string + 'r list) \<Rightarrow> query_builder \<Rightarrow> pagination \<Rightarrow> order_by \<Rightarrow> nat \<Rightarrow> query_failure + 'r list list" where
  "follow_pages C A fetch_all q pg ob 0 = Inl (InvalidCursor ''out of fuel'')"
| "follow_pages C A fetch_all q pg ob (Suc n) =
     (case execute_paginated_query C A fetch_all q pg ob of
        Inl e \<Rightarrow> Inl e
      | Inr page \<Rightarrow>
          (case next_cursor page of
             None \<Rightarrow> Inr [items page]
           | Some c \<Rightarrow> (case follow_pages C A fetch_all q (pg\<lparr>pg_cursor := Some c\<rparr>) ob n of Inl e \<Rightarrow> Inl e | Inr ps \<Rightarrow> Inr (items page # ps))))"

text \<open>The cursor codec loses nothing, and the value of the ordering column of a row, as a text, is compared as that value.\<close>

locale paged = sqlite_select T fetch_all q0
  for T :: "('r, 'k::linorder) sql_table" and fetch_all :: "query_builder \<Rightarrow> string + 'r list" and q0 :: query_builder +
  fixes C :: cursor_codec and A :: "'r row_access" and ob :: order_by
  assumes codec: "\<exists>s. encode_cursor C v = Inr s \<and> decode_cursor C s = Inr v"
    and key_text: "r \<in> set (tb_rows T) \<Longrightarrow> \<exists>v. cursor_value A r (ob_field ob) = Some v \<and> v \<noteq> [] \<and> CURSOR_DELIMITER \<notin> set v \<and>
      tb_key T r (ob_field ob) = Some (tb_bound T (ob_field ob) v)"

lemma column_of_bracketed [simp]: "column_of (CHR ''['' # f @ '']'') = f"
  by (simp add: column_of_def butlast_append)

lemma sorted_wrt_filter_after:
  assumes "sorted_wrt P (pre @ x # post)" "\<And>a b. P a b \<Longrightarrow> \<not> P b a"
  shows "filter (P x) (pre @ x # post) = post" "filter (\<lambda>y. P y x) (pre @ x # post) = pre"
proof -
  have 1: "\<forall>y\<in>set pre. P y x" "\<forall>y\<in>set post. P x y" using assms(1) by (auto simp: sorted_wrt_append)
  moreover have "\<not> P x x" using assms(2) by blast
  ultimately show "filter (P x) (pre @ x # post) = post" "filter (\<lambda>y. P y x) (pre @ x # post) = pre"
    using assms(2) by (auto simp: filter_empty_conv filter_id_conv)
qed

lemma sorted_wrt_unique:
  assumes "sorted_wrt P xs" "sorted_wrt P ys" "mset xs = mset ys" "\<And>a b. P a b \<Longrightarrow> \<not> P b a"
  shows "xs = ys"
  using assms(1-3)
proof (induction xs arbitrary: ys)
  case (Cons x xs)
  then obtain y ys' where ys: "ys = y # ys'" by (cases ys) auto
  have "x = y"
  proof (rule ccontr)
    assume ne: "x \<noteq> y"
    have "x \<in> set ys" "y \<in> set (x # xs)" using Cons.prems(3) ys by (metis list.set_intros(1) set_mset_mset)+
    then have "x \<in> set ys'" "y \<in> set xs" using ne ys by auto
    then have "P y x" "P x y" using Cons.prems(1,2) ys by auto
    then show False using assms(4) by blast
  qed
  then show ?case using Cons ys by auto
qed simp

lemma precedes_asym: "precedes T ob r s \<Longrightarrow> \<not> precedes T ob s r"
  by (auto simp: precedes_def split: option.splits order_direction.splits)

definition toward :: "('r, 'k::linorder) sql_table \<Rightarrow> order_by \<Rightarrow> pagination_direction \<Rightarrow> 'r \<Rightarrow> 'r \<Rightarrow> bool" where
  "toward T ob pd r s = (case pd of Forward \<Rightarrow> precedes T ob r s | Backward \<Rightarrow> precedes T ob s r)"

lemma toward_asym: "toward T ob pd r s \<Longrightarrow> \<not> toward T ob pd s r"
  using precedes_asym[of T ob] by (auto simp: toward_def split: pagination_direction.splits)

definition in_direction :: "pagination_direction \<Rightarrow> 'r list \<Rightarrow> 'r list" where
  "in_direction pd rs = (case pd of Forward \<Rightarrow> rs | Backward \<Rightarrow> rev rs)"

lemma mset_in_direction [simp]: "mset (in_direction pd rs) = mset rs"
  by (simp add: in_direction_def split: pagination_direction.split)

lemma sorted_in_direction: "sorted_wrt (precedes T ob) rs \<Longrightarrow> sorted_wrt (toward T ob pd) (in_direction pd rs)"
  by (cases pd) (simp_all add: in_direction_def toward_def [abs_def] sorted_wrt_rev)

lemma sorted_wrt_comparable: "sorted_wrt P xs \<Longrightarrow> x \<in> set xs \<Longrightarrow> y \<in> set xs \<Longrightarrow> x \<noteq> y \<Longrightarrow> P x y \<or> P y x"
  by (induction xs) auto

lemma sorted_wrt_asym_distinct: "sorted_wrt P xs \<Longrightarrow> (\<And>a b. P a b \<Longrightarrow> \<not> P b a) \<Longrightarrow> distinct xs"
  by (induction xs) auto

lemma sorted_rows_strict:
  assumes "sorted_wrt (precedes T ob) all" and "set p \<subseteq> set all" and "distinct p"
    and "sorted_wrt (row_le T [(CHR ''['' # ob_field ob @ '']'', query_direction (ob_direction ob) pd)]) p"
    and "\<And>r. r \<in> set all \<Longrightarrow> tb_key T r (ob_field ob) \<noteq> None"
  shows "sorted_wrt (toward T ob pd) p"
proof -
  have "toward T ob pd (p ! i) (p ! j)" if ij: "i < j" "j < length p" for i j
  proof -
    let ?r = "p ! i" and ?s = "p ! j"
    have m: "?r \<in> set all" "?s \<in> set all" using assms(2) ij nth_mem[of i p] nth_mem[of j p] by (simp_all add: subset_iff)
    have "?r \<noteq> ?s" using assms(3) ij by (simp add: nth_eq_iff_index_eq)
    then have "precedes T ob ?r ?s \<or> precedes T ob ?s ?r" by (rule sorted_wrt_comparable[OF assms(1) m])
    then have ne: "tb_key T ?r (ob_field ob) \<noteq> tb_key T ?s (ob_field ob)"
      by (auto simp: precedes_def split: option.splits order_direction.splits)
    obtain a b where ab: "tb_key T ?r (ob_field ob) = Some a" "tb_key T ?s (ob_field ob) = Some b" using assms(5)[OF m(1)] assms(5)[OF m(2)] by auto
    have "row_le T [(CHR ''['' # ob_field ob @ '']'', query_direction (ob_direction ob) pd)] ?r ?s"
      using assms(4) ij by (simp add: sorted_wrt_iff_nth_less)
    then show ?thesis using ab ne
      by (auto simp: toward_def precedes_def query_direction_def split: pagination_direction.splits order_direction.splits)
  qed
  then show ?thesis by (simp add: sorted_wrt_iff_nth_less)
qed

context paged
begin

lemma key_of_row: "r \<in> set (tb_rows T) \<Longrightarrow> tb_key T r (ob_field ob) \<noteq> None"
  using key_text by fastforce

lemma answer:
  assumes "sorted_wrt (precedes T ob) all" "mset all = mset (tb_rows T)" "pg_order_by pg = [ob]"
    and "order_fields q0 = []"
  shows "fetch_all (paged_query q0 pg cs bs) =
    Inr (take (unat (original_limit pg + 1)) (filter (conditions_hold T cs bs) (in_direction (pg_direction pg) all)))"
proof -
  let ?os = "[(CHR ''['' # ob_field ob @ '']'', query_direction (ob_direction ob) (pg_direction pg))]"
  obtain p where p: "fetch_all (paged_query q0 pg cs bs) = Inr (take (unat (original_limit pg + 1)) p)"
    "mset p = mset (filter (conditions_hold T cs bs) (tb_rows T))" "sorted_wrt (row_le T ?os) p"
    using select[where cs = cs and bs = bs and os = ?os and l = "original_limit pg + 1"] assms(3,4) by (auto simp: paged_query_def)
  have set_all: "set all = set (tb_rows T)" using assms(2) by (metis set_mset_mset)
  have "distinct all" by (rule sorted_wrt_asym_distinct[OF assms(1)]) (rule precedes_asym)
  then have "distinct (filter (conditions_hold T cs bs) all)" by simp
  have mp: "mset p = mset (filter (conditions_hold T cs bs) all)" using p(2) assms(2) by (simp add: mset_filter)
  then have d: "distinct p" using \<open>distinct (filter _ all)\<close> by (metis mset_eq_imp_distinct_iff)
  have sub: "set p \<subseteq> set all" using mset_eq_setD[OF mp] by auto
  have "sorted_wrt (toward T ob (pg_direction pg)) p"
    by (rule sorted_rows_strict[OF assms(1) sub d p(3)]) (use key_of_row set_all in blast)
  moreover have "sorted_wrt (toward T ob (pg_direction pg)) (filter (conditions_hold T cs bs) (in_direction (pg_direction pg) all))"
    using sorted_in_direction[OF assms(1)] by (rule sorted_wrt_filter)
  moreover have "mset p = mset (filter (conditions_hold T cs bs) (in_direction (pg_direction pg) all))" using mp by (simp add: mset_filter)
  ultimately have "p = filter (conditions_hold T cs bs) (in_direction (pg_direction pg) all)"
    by (rule sorted_wrt_unique) (rule toward_asym)
  with p(1) show ?thesis by simp
qed

text \<open>The cursor of a row selects what comes after it in the direction of the page.\<close>

lemma cursor_condition_after:
  assumes "tb_key T x (ob_field ob) = Some (tb_bound T (ob_field ob) v)"
  shows "conditions_hold T [\<lparr>equal_fields = [], compared_field = ob_field ob, operator = cursor_operator (ob_direction ob) pd\<rparr>] [v] r =
    toward T ob pd x r"
  using assms
  by (cases pd; cases "ob_direction ob")
    (auto simp: condition_holds_def placeholders_def cursor_operator_def toward_def precedes_def split: option.splits)

definition cursor_at :: "string \<Rightarrow> 'r \<Rightarrow> bool" where
  "cursor_at c x \<longleftrightarrow> (\<exists>v. decode_cursor_values C c = Inr [v] \<and> tb_key T x (ob_field ob) = Some (tb_bound T (ob_field ob) v))"

lemma first_page:
  assumes "sorted_wrt (precedes T ob) all" "mset all = mset (tb_rows T)" "pg_order_by pg = []" "order_fields q0 = []" "pg_cursor pg = None"
  shows "execute_paginated_query C A fetch_all q0 pg ob =
    page_of C A (pg\<lparr>pg_order_by := [ob]\<rparr>) (take (unat (original_limit pg + 1)) (in_direction (pg_direction pg) all))"
proof -
  have "fetch_all (paged_query q0 (pg\<lparr>pg_order_by := [ob]\<rparr>) [] []) = Inr (take (unat (original_limit pg + 1)) (in_direction (pg_direction pg) all))"
    using answer[OF assms(1,2) _ assms(4), of "pg\<lparr>pg_order_by := [ob]\<rparr>" "[]" "[]"] by (simp add: original_limit_def)
  then show ?thesis using assms(3,5) by (simp add: execute_paginated_query_def cursor_values_of_def build_cursor_conditions_def)
qed

lemma page_at:
  assumes "sorted_wrt (precedes T ob) all" "mset all = mset (tb_rows T)" "pg_order_by pg = []" "order_fields q0 = []"
    and "pg_cursor pg = Some c" "cursor_at c x"
  shows "execute_paginated_query C A fetch_all q0 pg ob =
    page_of C A (pg\<lparr>pg_order_by := [ob]\<rparr>)
      (take (unat (original_limit pg + 1)) (filter (toward T ob (pg_direction pg) x) (in_direction (pg_direction pg) all)))"
proof -
  let ?pg = "pg\<lparr>pg_order_by := [ob]\<rparr>"
  let ?c = "\<lparr>equal_fields = [], compared_field = ob_field ob, operator = cursor_operator (ob_direction ob) (pg_direction pg)\<rparr>"
  obtain v where v: "decode_cursor_values C c = Inr [v]" "tb_key T x (ob_field ob) = Some (tb_bound T (ob_field ob) v)"
    using assms(6) by (auto simp: cursor_at_def)
  have "conditions_hold T [?c] [v] = toward T ob (pg_direction pg) x" using cursor_condition_after[OF v(2)] by blast
  then have "fetch_all (paged_query q0 ?pg [?c] [v]) =
      Inr (take (unat (original_limit pg + 1)) (filter (toward T ob (pg_direction pg) x) (in_direction (pg_direction pg) all)))"
    using answer[OF assms(1,2) _ assms(4), of ?pg "[?c]" "[v]"] by (simp add: original_limit_def)
  then show ?thesis using assms(3,5) v(1)
    by (simp add: execute_paginated_query_def cursor_values_of_def build_cursor_conditions_def)
qed

text \<open>A page that is not the last one ends with a cursor at its last row.\<close>

lemma page_of_last:
  assumes "length fetched < unat (original_limit pg + 1)"
  shows "page_of C A pg fetched = Inr \<lparr>items = in_direction (pg_direction pg) fetched, next_cursor = None\<rparr>"
  using assms by (cases "pg_direction pg") (simp_all add: page_of_def in_direction_def)

lemma page_of_more:
  assumes "unat (original_limit pg + 1) \<le> length fetched" "pg_order_by pg = [ob]"
    and "take (unat (original_limit pg)) (in_direction (pg_direction pg) fetched) \<noteq> []" "set fetched \<subseteq> set (tb_rows T)"
  shows "\<exists>c. page_of C A pg fetched =
      Inr \<lparr>items = take (unat (original_limit pg)) (in_direction (pg_direction pg) fetched), next_cursor = Some c\<rparr> \<and>
    cursor_at c (last (take (unat (original_limit pg)) (in_direction (pg_direction pg) fetched)))"
proof -
  let ?rows = "take (unat (original_limit pg)) (in_direction (pg_direction pg) fetched)"
  have "last ?rows \<in> set ?rows" using assms(3) by (rule last_in_set)
  then have "last ?rows \<in> set (in_direction (pg_direction pg) fetched)" by (rule in_set_takeD)
  then have "last ?rows \<in> set (tb_rows T)" using assms(4) by (cases "pg_direction pg") (auto simp: in_direction_def)
  from key_text[OF this] obtain v where v: "cursor_value A (last ?rows) (ob_field ob) = Some v" "v \<noteq> []" "CURSOR_DELIMITER \<notin> set v"
    "tb_key T (last ?rows) (ob_field ob) = Some (tb_bound T (ob_field ob) v)" by blast
  obtain s where s: "encode_cursor C v = Inr s" "decode_cursor C s = Inr v" using codec by blast
  have "cursor_at s (last ?rows)" using v s by (auto simp: cursor_at_def decode_cursor_values_def split_on_last)
  moreover have "page_of C A pg fetched = Inr \<lparr>items = ?rows, next_cursor = Some s\<rparr>"
    using assms(1-3) v(1) s(1)
    by (cases "pg_direction pg") (simp_all add: page_of_def Let_def in_direction_def encode_cursor_values_def)
  ultimately show ?thesis by blast
qed

lemma forward_page:
  assumes "sorted_wrt (precedes T ob) (pre @ post)" "mset (pre @ post) = mset (tb_rows T)" "pg_order_by pg = []" "order_fields q0 = []"
    and "pg_direction pg = Forward" "pre = [] \<and> pg_cursor pg = None \<or> pre \<noteq> [] \<and> (\<exists>c. pg_cursor pg = Some c \<and> cursor_at c (last pre))"
  shows "execute_paginated_query C A fetch_all q0 pg ob = page_of C A (pg\<lparr>pg_order_by := [ob]\<rparr>) (take (unat (original_limit pg + 1)) post)"
proof (cases "pre = []")
  case True
  then show ?thesis using first_page[OF assms(1-4)] assms(5,6) by (simp add: in_direction_def)
next
  case False
  then obtain c where c: "pg_cursor pg = Some c" "cursor_at c (last pre)" using assms(6) by blast
  have sp: "pre @ post = butlast pre @ last pre # post" using False by simp
  have "filter (precedes T ob (last pre)) (pre @ post) = post"
    using sorted_wrt_filter_after(1)[OF assms(1)[unfolded sp] precedes_asym] unfolding sp by simp
  then show ?thesis using page_at[OF assms(1-4) c] assms(5) by (simp add: in_direction_def toward_def [abs_def])
qed

lemma follow_forward:
  assumes "sorted_wrt (precedes T ob) (pre @ post)" "mset (pre @ post) = mset (tb_rows T)" "pg_order_by pg = []" "order_fields q0 = []"
    and "pg_direction pg = Forward" "pre = [] \<and> pg_cursor pg = None \<or> pre \<noteq> [] \<and> (\<exists>c. pg_cursor pg = Some c \<and> cursor_at c (last pre))"
    and "0 < original_limit pg" "original_limit pg + 1 \<noteq> 0" "length post < n"
  shows "\<exists>pages. follow_pages C A fetch_all q0 pg ob n = Inr pages \<and> concat pages = post \<and> (\<forall>p\<in>set pages. length p \<le> unat (original_limit pg))"
  using assms(1-6) assms(7-9)
proof (induction n arbitrary: pre post pg)
  case (Suc n)
  let ?m = "unat (original_limit pg)" and ?pg = "pg\<lparr>pg_order_by := [ob]\<rparr>"
  have l: "unat (original_limit pg + 1) = Suc ?m" using Suc.prems(8) by (simp add: unatSuc add.commute)
  have lim: "original_limit ?pg = original_limit pg" by (simp add: original_limit_def)
  have ex: "execute_paginated_query C A fetch_all q0 pg ob = page_of C A ?pg (take (Suc ?m) post)"
    using forward_page[OF Suc.prems(1-6)] l by simp
  show ?case
  proof (cases "length post \<le> ?m")
    case True
    then have "page_of C A ?pg (take (Suc ?m) post) = Inr \<lparr>items = post, next_cursor = None\<rparr>"
      using page_of_last[of "take (Suc ?m) post" ?pg] l Suc.prems(5) by (simp add: lim in_direction_def)
    then show ?thesis using ex True by simp
  next
    case False
    have m: "0 < ?m" using Suc.prems(7) by (simp add: unat_gt_0)
    have sub: "set (take (Suc ?m) post) \<subseteq> set (tb_rows T)" using set_take_subset[of "Suc ?m" post] mset_eq_setD[OF Suc.prems(2)] by auto
    have t: "take ?m (take (Suc ?m) post) = take ?m post" by (simp add: min_def)
    have ne: "take ?m post \<noteq> []" using m False by auto
    from page_of_more[of ?pg "take (Suc ?m) post"] obtain c where c: "page_of C A ?pg (take (Suc ?m) post) = Inr \<lparr>items = take ?m post, next_cursor = Some c\<rparr>"
      "cursor_at c (last (take ?m post))"
      using False l sub t ne Suc.prems(5) by (auto simp: lim in_direction_def)
    let ?pg' = "pg\<lparr>pg_cursor := Some c\<rparr>"
    have lim': "original_limit ?pg' = original_limit pg" by (simp add: original_limit_def)
    have cat: "(pre @ take ?m post) @ drop ?m post = pre @ post" by simp
    have "\<exists>pages. follow_pages C A fetch_all q0 ?pg' ob n = Inr pages \<and> concat pages = drop ?m post \<and> (\<forall>p\<in>set pages. length p \<le> unat (original_limit ?pg'))"
    proof (rule Suc.IH)
      show "sorted_wrt (precedes T ob) ((pre @ take ?m post) @ drop ?m post)" "mset ((pre @ take ?m post) @ drop ?m post) = mset (tb_rows T)"
        unfolding cat by (fact Suc.prems)+
      show "pre @ take ?m post = [] \<and> pg_cursor ?pg' = None \<or>
          pre @ take ?m post \<noteq> [] \<and> (\<exists>c. pg_cursor ?pg' = Some c \<and> cursor_at c (last (pre @ take ?m post)))"
        using c(2) ne by simp
      show "length (drop ?m post) < n" using Suc.prems(9) m False by simp
    qed (use Suc.prems lim' in simp_all)
    then obtain pages where "follow_pages C A fetch_all q0 ?pg' ob n = Inr pages" "concat pages = drop ?m post" "\<forall>p\<in>set pages. length p \<le> ?m"
      by (auto simp: lim')
    then show ?thesis using ex c(1) by (intro exI[of _ "take ?m post # pages"]) simp
  qed
qed simp

lemma backward_page:
  assumes "sorted_wrt (precedes T ob) (pre @ x # post)" "mset (pre @ x # post) = mset (tb_rows T)" "pg_order_by pg = []" "order_fields q0 = []"
    and "pg_direction pg = Backward" "pg_cursor pg = Some c" "cursor_at c x"
    and "0 < original_limit pg" "original_limit pg + 1 \<noteq> 0"
  shows "\<exists>page. execute_paginated_query C A fetch_all q0 pg ob = Inr page \<and>
    items page = (if length pre \<le> unat (original_limit pg) then pre else drop (length pre - Suc (unat (original_limit pg))) (butlast pre)) \<and>
    (\<forall>c'. next_cursor page = Some c' \<longrightarrow> cursor_at c' (last (items page))) \<and> (next_cursor page = None \<longleftrightarrow> length pre \<le> unat (original_limit pg))"
proof -
  let ?m = "unat (original_limit pg)" and ?pg = "pg\<lparr>pg_order_by := [ob]\<rparr>"
  have l: "unat (original_limit pg + 1) = Suc ?m" using assms(9) by (simp add: unatSuc add.commute)
  have lim: "original_limit ?pg = original_limit pg" by (simp add: original_limit_def)
  have m: "0 < ?m" using assms(8) by (simp add: unat_gt_0)
  have before: "filter (\<lambda>y. precedes T ob y x) (pre @ x # post) = pre"
    by (rule sorted_wrt_filter_after(2)[OF assms(1) precedes_asym])
  have "filter (toward T ob Backward x) (rev zs) = rev (filter (\<lambda>y. precedes T ob y x) zs)" for zs
    by (simp add: toward_def [abs_def] rev_filter)
  then have f: "filter (toward T ob Backward x) (in_direction Backward (pre @ x # post)) = rev pre"
    by (simp only: in_direction_def pagination_direction.case before)
  have ex: "execute_paginated_query C A fetch_all q0 pg ob = page_of C A ?pg (take (Suc ?m) (rev pre))"
    using page_at[OF assms(1-4,6,7)] f l assms(5) by simp
  have r: "rev (take (Suc ?m) (rev pre)) = drop (length pre - Suc ?m) pre" by (simp add: take_rev)
  show ?thesis
  proof (cases "length pre \<le> ?m")
    case True
    then have "page_of C A ?pg (take (Suc ?m) (rev pre)) = Inr \<lparr>items = pre, next_cursor = None\<rparr>"
      using page_of_last[of "take (Suc ?m) (rev pre)" ?pg] l assms(5) by (simp add: lim in_direction_def r)
    then show ?thesis using ex True by simp
  next
    case False
    let ?rows = "take ?m (drop (length pre - Suc ?m) pre)"
    have rows: "?rows = drop (length pre - Suc ?m) (butlast pre)"
      using False by (simp add: butlast_conv_take take_drop)
    have ne: "?rows \<noteq> []" using m False by auto
    have sub: "set (take (Suc ?m) (rev pre)) \<subseteq> set (tb_rows T)"
      using set_take_subset[of "Suc ?m" "rev pre"] mset_eq_setD[OF assms(2)] by auto
    from page_of_more[of ?pg "take (Suc ?m) (rev pre)"] obtain c' where
      "page_of C A ?pg (take (Suc ?m) (rev pre)) = Inr \<lparr>items = ?rows, next_cursor = Some c'\<rparr>" "cursor_at c' (last ?rows)"
      using False l sub ne assms(5) by (auto simp: lim in_direction_def r)
    then show ?thesis using ex False rows by simp
  qed
qed

end

section \<open>Ordering by more columns\<close>

lemma conditions_hold_bound: "conditions_hold T cs vs r \<Longrightarrow> sum_list (map placeholders cs) \<le> length vs"
proof (induction cs arbitrary: vs)
  case (Cons c cs)
  then have "placeholders c \<le> length vs" by (auto simp: condition_holds_def min_def split: if_splits)
  then show ?case using Cons.IH[of "drop (placeholders c) vs"] Cons.prems by simp
qed simp

lemma cursor_conditions_unbound:
  assumes "build_cursor_conditions pg (Some vs) = Inr (cs, bs)" "2 \<le> length vs"
  shows "\<not> conditions_hold T cs bs r"
proof -
  have len: "length (pg_order_by pg) = length vs" and bs: "bs = vs"
    using assms(1) by (auto simp: build_cursor_conditions_def split: if_splits)
  have "map placeholders cs = map Suc [0..<length vs]"
    using assms(1) len by (auto simp: build_cursor_conditions_def placeholders_def split: if_splits)
  then have "sum_list (map placeholders cs) = sum_list (map Suc [0..<length vs])" by simp
  moreover have "n < sum_list (map Suc [0..<n])" if "2 \<le> n" for n
    using that by (induction n rule: dec_induct) (simp_all add: numeral_2_eq_2)
  ultimately show ?thesis using conditions_hold_bound[of T cs bs r] bs assms(2) by force
qed

section \<open>A table in memory\<close>

text \<open>An implementation of \<open>SELECT\<close> that meets the contract: filter, insertion sort, and the first rows. The sample table has numbered rows.\<close>

fun insert_by :: "('a \<Rightarrow> 'a \<Rightarrow> bool) \<Rightarrow> 'a \<Rightarrow> 'a list \<Rightarrow> 'a list" where
  "insert_by le x [] = [x]"
| "insert_by le x (y # ys) = (if le x y then x # y # ys else y # insert_by le x ys)"

definition sort_by :: "('a \<Rightarrow> 'a \<Rightarrow> bool) \<Rightarrow> 'a list \<Rightarrow> 'a list" where
  "sort_by le xs = foldr (insert_by le) xs []"

lemma mset_insert_by [simp]: "mset (insert_by le x ys) = add_mset x (mset ys)"
  by (induction ys) auto

lemma mset_sort_by [simp]: "mset (sort_by le xs) = mset xs"
  by (induction xs) (simp_all add: sort_by_def)

lemma set_insert_by [simp]: "set (insert_by le x ys) = insert x (set ys)"
  by (induction ys) auto

lemma sorted_sort_by:
  assumes "\<And>a b. le a b \<or> le b a" "\<And>a b c. le a b \<Longrightarrow> le b c \<Longrightarrow> le a c"
  shows "sorted_wrt le (sort_by le xs)"
proof (induction xs)
  case (Cons x xs)
  have "sorted_wrt le (insert_by le x ys)" if "sorted_wrt le ys" for ys
    using that
  proof (induction ys)
    case (Cons y ys)
    have "le y x" if "\<not> le x y" using assms(1) that by blast
    then show ?case using Cons assms(2)[of x y] by auto
  qed simp
  then show ?case using Cons by (simp add: sort_by_def)
qed (simp add: sort_by_def)

lemma null_less_linear: "a \<noteq> b \<Longrightarrow> null_less a b \<noteq> null_less b a"
  by (cases a; cases b) auto

lemma null_less_trans: "null_less a b \<Longrightarrow> null_less b c \<Longrightarrow> null_less a c"
  by (cases a; cases b; cases c) auto

lemma row_le_total: "row_le T os r s \<or> row_le T os s r"
proof (induction os)
  case (Cons o' os)
  then show ?case by (cases o'; cases "snd o'") (auto simp: Let_def dest: null_less_linear)
qed simp

lemma row_le_trans: "row_le T os r s \<Longrightarrow> row_le T os s u \<Longrightarrow> row_le T os r u"
proof (induction os)
  case (Cons o' os)
  obtain f d where o': "o' = (f, d)" by (cases o')
  show ?case using Cons unfolding o'
    by (cases d) (auto simp: Let_def split: if_splits dest: null_less_trans null_less_linear)
qed simp

definition cursor_conditions :: "query_builder \<Rightarrow> cursor_condition list" where
  "cursor_conditions q = concat (map (\<lambda>w. case w of Cursor c \<Rightarrow> [c] | Raw _ \<Rightarrow> []) (where_conditions q))"

definition select_rows :: "('r, 'k::linorder) sql_table \<Rightarrow> query_builder \<Rightarrow> string + 'r list" where
  "select_rows T q = Inr ((case qb_limit q of None \<Rightarrow> id | Some l \<Rightarrow> take (unat l))
     (sort_by (row_le T (order_fields q)) (filter (conditions_hold T (cursor_conditions q) (bind_values q)) (tb_rows T))))"

definition sample_table :: "(nat, nat) sql_table" where
  "sample_table = \<lparr>tb_rows = [3, 1, 4, 2], tb_key = (\<lambda>r _. Some r), tb_bound = (\<lambda>_ s. case parse_digits s of None \<Rightarrow> 0 | Some n \<Rightarrow> n)\<rparr>"

definition sample_access :: "nat row_access" where
  "sample_access = \<lparr>get_string = (\<lambda>_ _. None), get_i64 = (\<lambda>r _. Some (int r))\<rparr>"

definition plain_codec :: cursor_codec where
  "plain_codec = \<lparr>deflate = Inr, inflate = Inr, base64_encode = id, base64_decode = Inr\<rparr>"

definition event_order :: order_by where
  "event_order = \<lparr>ob_field = ''event_id'', ob_direction = Asc\<rparr>"

lemma concat_cursor [simp]: "concat (map ((\<lambda>w. case w of Cursor c \<Rightarrow> [c] | Raw _ \<Rightarrow> []) \<circ> Cursor) cs) = cs"
  by (induction cs) simp_all

lemma sample_cursor_decodes:
  "decode_cursor_values plain_codec [CHR ''2'', CURSOR_DELIMITER, CHR ''2''] = Inr [''2'', ''2'']" "decode_cursor_values plain_codec ''4'' = Inr [''4'']"
  by code_simp+

interpretation sample_select: sqlite_select sample_table "select_rows sample_table" "new_query ''events''"
proof
  fix cs bs os and l :: "32 word"
  show "\<exists>p. select_rows sample_table (new_query ''events''\<lparr>where_conditions := where_conditions (new_query ''events'') @ map Cursor cs,
        bind_values := bind_values (new_query ''events'') @ bs, order_fields := order_fields (new_query ''events'') @ os, qb_limit := Some l\<rparr>) =
      Inr (take (unat l) p) \<and> mset p = mset (filter (conditions_hold sample_table cs bs) (tb_rows sample_table)) \<and>
      sorted_wrt (row_le sample_table os) p"
    by (intro exI[of _ "sort_by (row_le sample_table os) (filter (conditions_hold sample_table cs bs) (tb_rows sample_table))"] conjI sorted_sort_by
        row_le_total) (auto simp: select_rows_def new_query_def cursor_conditions_def intro: row_le_trans)
qed

lemma dec_digits_no_delimiter: "CURSOR_DELIMITER \<notin> set (dec_digits n)"
  using dec_digits_chars[of CURSOR_DELIMITER n] by (auto simp: CURSOR_DELIMITER_def dec_value_def)

interpretation sample_paged: paged sample_table "select_rows sample_table" "new_query ''events''" plain_codec sample_access event_order
proof
  show "\<exists>s. encode_cursor plain_codec v = Inr s \<and> decode_cursor plain_codec s = Inr v" for v
    by (simp add: encode_cursor_def decode_cursor_def plain_codec_def)
  show "\<exists>v. cursor_value sample_access r (ob_field event_order) = Some v \<and> v \<noteq> [] \<and> CURSOR_DELIMITER \<notin> set v \<and>
      tb_key sample_table r (ob_field event_order) = Some (tb_bound sample_table (ob_field event_order) v)" if "r \<in> set (tb_rows sample_table)" for r
    using dec_digits_spec[of r] dec_digits_no_delimiter[of r]
    by (intro exI[of _ "dec_digits r"]) (simp add: cursor_value_def sample_access_def sample_table_def int_text_def)
qed

section \<open>Properties\<close>



text \<open>
  Paging backwards skips rows: if more rows than the limit come before the cursor, the row directly before it is not in the page, since the row that is
  cut off is the nearest instead of the farthest one. Only the last page backwards is complete.
\<close>

theorem backward_page_skips:
  assumes "paged T fetch_all q0 C A ob" and "order_fields q0 = []"
    and "pg_order_by pg = []" and "pg_direction pg = Backward" and "pg_cursor pg = Some c"
    and "decode_cursor_values C c = Inr [v]" and "tb_key T x (ob_field ob) = Some (tb_bound T (ob_field ob) v)"
    and "0 < original_limit pg" and "original_limit pg + 1 \<noteq> 0"
    and "mset (pre @ x # post) = mset (tb_rows T)" and "sorted_wrt (precedes T ob) (pre @ x # post)"
  shows "\<exists>page. execute_paginated_query C A fetch_all q0 pg ob = Inr page \<and>
    items page = (if length pre \<le> unat (original_limit pg) then pre else drop (length pre - Suc (unat (original_limit pg))) (butlast pre)) \<and>
    (length pre > unat (original_limit pg) \<longrightarrow> last pre \<notin> set (items page))"
proof -
  have "paged.cursor_at T C ob c x" using assms(6,7) by (auto simp: paged.cursor_at_def[OF assms(1)])
  from paged.backward_page[OF assms(1,11,10,3,2,4,5) this assms(8,9)] obtain page where
    page: "execute_paginated_query C A fetch_all q0 pg ob = Inr page"
    "items page = (if length pre \<le> unat (original_limit pg) then pre else drop (length pre - Suc (unat (original_limit pg))) (butlast pre))" by blast
  have "distinct (pre @ x # post)" by (rule sorted_wrt_asym_distinct[OF assms(11)]) (rule precedes_asym)
  then have "last pre \<notin> set (butlast pre)" if "pre \<noteq> []" using that by (metis append_butlast_last_id distinct_append not_distinct_conv_prefix)
  then have "last pre \<notin> set (drop k (butlast pre))" if "pre \<noteq> []" for k using that in_set_dropD by metis
  then show ?thesis using page by (cases "pre = []") auto
qed

theorem backward_page_skips_witness:
  "\<exists>page. execute_paginated_query plain_codec sample_access (select_rows sample_table) (new_query ''events'')
      \<lparr>pg_cursor = Some ''4'', pg_limit = Some 2, pg_direction = Backward, pg_order_by = []\<rparr> event_order = Inr page \<and> items page = [1, 2] \<and> 3 \<notin> set (items page)"
  using backward_page_skips[OF sample_paged.paged_axioms, of "\<lparr>pg_cursor = Some ''4'', pg_limit = Some 2, pg_direction = Backward, pg_order_by = []\<rparr>"
      "''4''" "''4''" 4 "[1, 2, 3]" "[]"]
  by (simp add: sample_table_def event_order_def precedes_def original_limit_def new_query_def add_mset_commute sample_cursor_decodes
      parse_digits_def dec_value_def)

text \<open>
  C39. A query that the client orders by some column ends after its first page: the conditions for the later ordering columns have more placeholders than values
  are bound, and they are joined so that they contradict each other. No row satisfies them, so the second page is empty, and there is no third.
\<close>

theorem ordered_query_ends_after_first_page:
  assumes "sqlite_select T fetch_all q0" and "pg_order_by pg \<noteq> []" and "order_fields q0 = []"
    and "pg_cursor pg = Some c" and "decode_cursor_values C c = Inr vs" and "length vs = Suc (length (pg_order_by pg))"
    and "original_limit pg + 1 \<noteq> 0"
  shows "execute_paginated_query C A fetch_all q0 pg ob = Inr \<lparr>items = [], next_cursor = None\<rparr>"
proof -
  let ?pg = "pg\<lparr>pg_order_by := pg_order_by pg @ [ob]\<rparr>"
  have lim: "original_limit ?pg = original_limit pg" by (simp add: original_limit_def)
  obtain cs where cs: "build_cursor_conditions ?pg (Some vs) = Inr (cs, vs)" using assms(6) by (simp add: build_cursor_conditions_def)
  have "2 \<le> length vs" using assms(2,6) by (cases "pg_order_by pg") auto
  then have none: "\<not> conditions_hold T cs vs r" for r by (rule cursor_conditions_unbound[OF cs])
  let ?os = "map (\<lambda>o'. (CHR ''['' # ob_field o' @ '']'', query_direction (ob_direction o') (pg_direction pg))) (pg_order_by pg @ [ob])"
  obtain p where "fetch_all (paged_query q0 ?pg cs vs) = Inr (take (unat (original_limit pg + 1)) p)"
    "mset p = mset (filter (conditions_hold T cs vs) (tb_rows T))"
    using sqlite_select.select[OF assms(1), where cs = cs and bs = vs and os = ?os and l = "original_limit pg + 1"] assms(3)
    by (auto simp: paged_query_def lim)
  then have "fetch_all (paged_query q0 ?pg cs vs) = Inr []" using none by simp
  moreover have "cursor_values_of C ?pg = Inr (Some vs)" using assms(4,5) by (simp add: cursor_values_of_def)
  moreover have "page_of C A ?pg [] = Inr \<lparr>items = [], next_cursor = None\<rparr>"
    using assms(7) by (simp add: page_of_def lim unat_eq_0 Let_def)
  ultimately show ?thesis using cs by (simp add: execute_paginated_query_def Let_def)
qed

theorem ordered_query_ends_after_first_page_witness:
  "execute_paginated_query plain_codec sample_access (select_rows sample_table) (new_query ''events'')
     \<lparr>pg_cursor = Some ([CHR ''2'', CURSOR_DELIMITER, CHR ''2'']), pg_limit = Some 2, pg_direction = Forward,
      pg_order_by = [\<lparr>ob_field = ''score'', ob_direction = Asc\<rparr>]\<rparr> event_order = Inr \<lparr>items = [], next_cursor = None\<rparr>"
  by (rule ordered_query_ends_after_first_page[OF sample_select.sqlite_select_axioms _ _ _ sample_cursor_decodes(1)])
    (simp_all add: new_query_def original_limit_def)

end
