(* ===== verification/Schema.thy ===== *)
theory Schema
  imports TokenTraits NumberText Proto
begin

text \<open>
  Model values and clauses. A \<open>Ty\<close> of the package \<open>dojo_types\<close> is both a schema and a value; its constructors are the ones the sources match on, and what they
  call of that package (names, SQL and JSON texts, comparison) is the parameter \<open>dojo_types\<close>. The clauses of queries and subscriptions
  are from \<open>crates/proto/src/lib.rs\<close>.
\<close>

section \<open>Types and values\<close>

datatype primitive =
  I8 "8 word option" | I16 "16 word option" | I32 "32 word option" | I64 "64 word option" | I128 "128 word option"
| U8 "8 word option" | U16 "16 word option" | U32 "32 word option" | U64 "64 word option" | U128 "128 word option" | U256 "256 word option"
| Bool "bool option"
| Felt252 "felt option" | ClassHash "felt option" | ContractAddress "felt option" | EthAddress "felt option"

datatype ty =
  Primitive primitive
| Struct string "member list"
| Enum string "8 word option" "enum_option list"
| Tuple "ty list"
| Array "ty list"
| FixedSizeArray "ty list" "32 word"
| ByteArray string
and member = Member (mb_name: string) (mb_ty: ty) (mb_key: bool)
and enum_option = EnumOption (eo_name: string) (eo_ty: ty)

record dojo_types =
  dt_name :: "ty \<Rightarrow> string"
  dt_sql_value :: "primitive \<Rightarrow> string"
  dt_sql_type :: "primitive \<Rightarrow> string"
  dt_enum_sql_value :: "8 word option \<Rightarrow> enum_option list \<Rightarrow> string"
  dt_enum_option :: "8 word option \<Rightarrow> enum_option list \<Rightarrow> enum_option option"
  dt_set_option :: "string \<Rightarrow> enum_option list \<Rightarrow> string + 8 word"
  dt_to_json :: "ty \<Rightarrow> string + json"
  dt_from_json :: "ty \<Rightarrow> json \<Rightarrow> string + ty"
  dt_less :: "primitive \<Rightarrow> primitive \<Rightarrow> bool"
  dt_less_eq :: "primitive \<Rightarrow> primitive \<Rightarrow> bool"
  dt_as_u32 :: "primitive \<Rightarrow> 32 word option"

section \<open>Clauses\<close>

datatype pattern_matching = FixedLen | VariableLen

datatype logical_operator = And | Or

datatype comparison_operator =
  Eq | Neq | Gt | Gte | Lt | Lte | In | NotIn
| Contains | ContainsAll | ContainsAny | ArrayLengthEq | ArrayLengthGt | ArrayLengthLt

datatype member_value = MPrimitive primitive | MString string | MList "member_value list"

record keys_clause =
  kc_keys :: "felt option list"
  kc_pattern_matching :: pattern_matching
  kc_models :: "string list"

record member_clause =
  mc_model :: string
  mc_member :: string
  mc_operator :: comparison_operator
  mc_value :: member_value

datatype clause =
  HashedKeys "felt list"
| Keys keys_clause
| MemberC member_clause
| Composite logical_operator "clause list"

section \<open>Text\<close>

fun split_once :: "char \<Rightarrow> string \<Rightarrow> (string \<times> string) option" where
  "split_once d [] = None"
| "split_once d (c # s) = (if c = d then Some ([], s) else map_option (\<lambda>(a, b). (c # a, b)) (split_once d s))"

fun find_char :: "char \<Rightarrow> string \<Rightarrow> nat option" where
  "find_char d [] = None"
| "find_char d (c # s) = (if c = d then Some 0 else map_option Suc (find_char d s))"

text \<open>The order of strings is that of their bytes.\<close>

fun string_less :: "string \<Rightarrow> string \<Rightarrow> bool" where
  "string_less _ [] = False"
| "string_less [] (_ # _) = True"
| "string_less (a # s) (b # t) = ((of_char a :: nat) < of_char b \<or> a = b \<and> string_less s t)"

definition parse_usize :: "string \<Rightarrow> nat option" where
  "parse_usize s = map_option nat (parse_int 0 (2 ^ 64) s)"

lemma split_once_found: "d \<notin> set a \<Longrightarrow> split_once d (a @ d # b) = Some (a, b)"
  by (induction a) auto

lemma split_once_none: "d \<notin> set s \<Longrightarrow> split_once d s = None"
  by (induction s) auto

lemma find_char_found: "d \<notin> set a \<Longrightarrow> find_char d (a @ d # b) = Some (length a)"
  by (induction a) auto

lemma find_char_none: "find_char d s = None \<longleftrightarrow> d \<notin> set s"
  by (induction s) auto

end
