(* ===== verification/Subscriptions.thy ===== *)
theory Subscriptions
  imports Schema
begin

text \<open>
  Subscriptions of the gRPC server (\<open>crates/grpc/server/src/subscriptions\<close>): which updates a subscriber is interested in, and the dispatch of an update to
  the channels of the interested subscribers, which disconnects those that are full or closed.

  Slicing a string beyond its end is a panic, \<open>None\<close>. Channels are bounded buffers, and a subscriber map is an association list in the order it iterates in.
\<close>

section \<open>Keys and models\<close>

text \<open>Position by position; a position beyond the pattern is free.\<close>

fun keys_agree :: "felt list \<Rightarrow> felt option list \<Rightarrow> bool" where
  "keys_agree [] _ = True"
| "keys_agree (k # ks) [] = True"
| "keys_agree (k # ks) (c # cs) = ((case c of Some k' \<Rightarrow> k = k' | None \<Rightarrow> True) \<and> keys_agree ks cs)"

definition match_key_pattern :: "felt list \<Rightarrow> keys_clause \<Rightarrow> bool" where
  "match_key_pattern keys c =
     (if kc_pattern_matching c = FixedLen \<and> length keys \<noteq> length (kc_keys c) then False else keys_agree keys (kc_keys c))"

definition match_keys :: "felt list \<Rightarrow> keys_clause list \<Rightarrow> bool" where
  "match_keys keys clauses = (if clauses \<noteq> [] \<and> \<not> list_ex (match_key_pattern keys) clauses then False else True)"

definition model_matches :: "string \<times> string \<Rightarrow> string \<Rightarrow> bool" where
  "model_matches = (\<lambda>(namespace, name) clause_model.
     if clause_model = [] then True
     else let (cn, cm) = (case split_once (CHR ''-'') clause_model of Some p \<Rightarrow> p | None \<Rightarrow> (clause_model, [])) in
          (cn = [] \<or> cn = ''*'' \<or> cn = namespace) \<and> (cm = [] \<or> cm = ''*'' \<or> cm = name))"

definition match_keys_clause :: "dojo_types \<Rightarrow> felt list \<Rightarrow> ty option \<Rightarrow> keys_clause \<Rightarrow> bool" where
  "match_keys_clause D keys updated_model c =
     (if kc_models c \<noteq> [] \<and>
        (case updated_model of
           None \<Rightarrow> True
         | Some m \<Rightarrow>
             (let name = dt_name D m;
                  p = (case split_once (CHR ''-'') name of Some p \<Rightarrow> p | None \<Rightarrow> ([], name)) in
              \<not> list_ex (model_matches p) (kc_models c)))
      then False
      else match_key_pattern keys c)"

section \<open>Members\<close>

text \<open>\<open>field[0]\<close>: the field, and the index if it is a number. Slicing from behind a closing bracket panics.\<close>

definition member_target :: "string \<Rightarrow> (string \<times> nat option) option" where
  "member_target m =
     (case find_char (CHR ''['') m of
        None \<Rightarrow> Some (m, None)
      | Some start \<Rightarrow>
          (case find_char (CHR '']'') m of
             None \<Rightarrow> Some (m, None)
           | Some stop \<Rightarrow>
               if stop < start + 1 then None
               else (case parse_usize (drop (start + 1) (take stop m)) of
                       Some i \<Rightarrow> Some (take start m, Some i)
                     | None \<Rightarrow> Some (m, None))))"

definition is_string :: "string \<Rightarrow> member_value \<Rightarrow> bool" where
  "is_string s v = (case v of MString t \<Rightarrow> s = t | _ \<Rightarrow> False)"

definition is_primitive :: "primitive \<Rightarrow> member_value \<Rightarrow> bool" where
  "is_primitive p v = (case v of MPrimitive q \<Rightarrow> p = q | _ \<Rightarrow> False)"

definition compare_option :: "comparison_operator \<Rightarrow> member_value \<Rightarrow> string \<Rightarrow> bool" where
  "compare_option op v name =
     (case (op, v) of
        (Eq, MString s) \<Rightarrow> name = s
      | (Neq, MString s) \<Rightarrow> name \<noteq> s
      | (In, MList vs) \<Rightarrow> list_ex (is_string name) vs
      | (NotIn, MList vs) \<Rightarrow> \<not> list_ex (is_string name) vs
      | _ \<Rightarrow> False)"

definition compare_primitive :: "dojo_types \<Rightarrow> comparison_operator \<Rightarrow> member_value \<Rightarrow> primitive \<Rightarrow> bool" where
  "compare_primitive D op v p =
     (case (op, v) of
        (Eq, MPrimitive q) \<Rightarrow> p = q
      | (Neq, MPrimitive q) \<Rightarrow> p \<noteq> q
      | (Gt, MPrimitive q) \<Rightarrow> dt_less D q p
      | (Gte, MPrimitive q) \<Rightarrow> dt_less_eq D q p
      | (Lt, MPrimitive q) \<Rightarrow> dt_less D p q
      | (Lte, MPrimitive q) \<Rightarrow> dt_less_eq D p q
      | (In, MList vs) \<Rightarrow> list_ex (is_primitive p) vs
      | (NotIn, MList vs) \<Rightarrow> \<not> list_ex (is_primitive p) vs
      | _ \<Rightarrow> False)"

definition compare_text :: "comparison_operator \<Rightarrow> member_value \<Rightarrow> string \<Rightarrow> bool" where
  "compare_text op v s =
     (case (op, v) of
        (Eq, MString t) \<Rightarrow> s = t
      | (Neq, MString t) \<Rightarrow> s \<noteq> t
      | (Gt, MString t) \<Rightarrow> string_less t s
      | (Gte, MString t) \<Rightarrow> \<not> string_less s t
      | (Lt, MString t) \<Rightarrow> string_less s t
      | (Lte, MString t) \<Rightarrow> \<not> string_less t s
      | (In, MList vs) \<Rightarrow> list_ex (is_string s) vs
      | (NotIn, MList vs) \<Rightarrow> \<not> list_ex (is_string s) vs
      | _ \<Rightarrow> False)"

definition element_is :: "ty \<Rightarrow> member_value \<Rightarrow> bool" where
  "element_is e v =
     (case (e, v) of
        (Primitive p, MPrimitive q) \<Rightarrow> p = q
      | (ByteArray s, MString t) \<Rightarrow> s = t
      | _ \<Rightarrow> False)"

definition compare_array :: "dojo_types \<Rightarrow> comparison_operator \<Rightarrow> member_value \<Rightarrow> ty list \<Rightarrow> bool" where
  "compare_array D op v es =
     (case (op, v) of
        (Contains, MPrimitive q) \<Rightarrow> list_ex (\<lambda>e. element_is e (MPrimitive q)) es
      | (Contains, MString s) \<Rightarrow> list_ex (\<lambda>e. element_is e (MString s)) es
      | (ContainsAll, MList vs) \<Rightarrow> list_all (\<lambda>w. list_ex (\<lambda>e. element_is e w) es) vs
      | (ContainsAny, MList vs) \<Rightarrow> list_ex (\<lambda>w. list_ex (\<lambda>e. element_is e w) es) vs
      | (ArrayLengthEq, MPrimitive q) \<Rightarrow> (case dt_as_u32 D q of Some len \<Rightarrow> length es = unat len | None \<Rightarrow> False)
      | (ArrayLengthGt, MPrimitive q) \<Rightarrow> (case dt_as_u32 D q of Some len \<Rightarrow> length es > unat len | None \<Rightarrow> False)
      | (ArrayLengthLt, MPrimitive q) \<Rightarrow> (case dt_as_u32 D q of Some len \<Rightarrow> length es < unat len | None \<Rightarrow> False)
      | _ \<Rightarrow> False)"

definition compare_enum :: "dojo_types \<Rightarrow> comparison_operator \<Rightarrow> member_value \<Rightarrow> 8 word option \<Rightarrow> enum_option list \<Rightarrow> bool" where
  "compare_enum D op v sel opts =
     (case dt_enum_option D sel opts of None \<Rightarrow> False | Some opt \<Rightarrow> compare_option op v (eo_name opt))"

definition compare_final :: "dojo_types \<Rightarrow> member_clause \<Rightarrow> ty \<Rightarrow> bool" where
  "compare_final D mc t =
     (case t of
        Primitive p \<Rightarrow> compare_primitive D (mc_operator mc) (mc_value mc) p
      | ByteArray s \<Rightarrow> compare_text (mc_operator mc) (mc_value mc) s
      | Enum _ sel opts \<Rightarrow> compare_enum D (mc_operator mc) (mc_value mc) sel opts
      | Array es \<Rightarrow> compare_array D (mc_operator mc) (mc_value mc) es
      | FixedSizeArray es _ \<Rightarrow> compare_array D (mc_operator mc) (mc_value mc) es
      | Struct _ _ \<Rightarrow> False
      | Tuple _ \<Rightarrow> False)"

fun position :: "('a \<Rightarrow> bool) \<Rightarrow> 'a list \<Rightarrow> nat option" where
  "position P [] = None"
| "position P (x # xs) = (if P x then Some 0 else map_option Suc (position P xs))"

fun nth_opt :: "'a list \<Rightarrow> nat \<Rightarrow> 'a option" where
  "nth_opt [] _ = None"
| "nth_opt (x # xs) 0 = Some x"
| "nth_opt (x # xs) (Suc n) = nth_opt xs n"

fun navigate :: "dojo_types \<Rightarrow> member_clause \<Rightarrow> nat option \<Rightarrow> string list \<Rightarrow> ty \<Rightarrow> bool" where
  "navigate D mc array_index [] t = compare_final D mc t"
| "navigate D mc array_index (part # parts) t =
     (case t of
        Struct _ children \<Rightarrow>
          (case List.find (\<lambda>m. mb_name m = part) children of
             Some m \<Rightarrow> navigate D mc array_index parts (mb_ty m)
           | None \<Rightarrow> False)
      | Tuple ts \<Rightarrow>
          (case parse_usize part of
             None \<Rightarrow> False
           | Some i \<Rightarrow> (case nth_opt ts i of Some t' \<Rightarrow> navigate D mc array_index parts t' | None \<Rightarrow> False))
      | Enum _ sel opts \<Rightarrow>
          if parts = [] then compare_enum D (mc_operator mc) (mc_value mc) sel opts
          else (case position (\<lambda>o'. eo_name o' = part) opts of
                  None \<Rightarrow> False
                | Some i \<Rightarrow>
                    if Some (of_nat i) = sel
                    then (case nth_opt opts i of Some o' \<Rightarrow> navigate D mc array_index parts (eo_ty o') | None \<Rightarrow> False)
                    else False)
      | Array es \<Rightarrow>
          (case array_index of
             None \<Rightarrow> False
           | Some i \<Rightarrow> (case nth_opt es i of Some e \<Rightarrow> navigate D mc array_index parts e | None \<Rightarrow> False))
      | FixedSizeArray es _ \<Rightarrow>
          (case array_index of
             None \<Rightarrow> False
           | Some i \<Rightarrow> (case nth_opt es i of Some e \<Rightarrow> navigate D mc array_index parts e | None \<Rightarrow> False))
      | ByteArray _ \<Rightarrow> False
      | Primitive _ \<Rightarrow> False)"

definition match_member :: "dojo_types \<Rightarrow> ty option \<Rightarrow> member_clause \<Rightarrow> bool option" where
  "match_member D updated_model mc =
     (case updated_model of
        None \<Rightarrow> Some False
      | Some m \<Rightarrow>
          if dt_name D m \<noteq> mc_model mc then Some False
          else case member_target (mc_member mc) of
                 None \<Rightarrow> None
               | Some (path, array_index) \<Rightarrow> Some (navigate D mc array_index (split_on (CHR ''.'') path) m))"

section \<open>Clauses\<close>

text \<open>\<open>all\<close> and \<open>any\<close> stop at the first clause that decides.\<close>

fun match_entity :: "dojo_types \<Rightarrow> felt \<Rightarrow> felt list \<Rightarrow> ty option \<Rightarrow> clause \<Rightarrow> bool option"
  and match_all :: "dojo_types \<Rightarrow> felt \<Rightarrow> felt list \<Rightarrow> ty option \<Rightarrow> clause list \<Rightarrow> bool option"
  and match_any :: "dojo_types \<Rightarrow> felt \<Rightarrow> felt list \<Rightarrow> ty option \<Rightarrow> clause list \<Rightarrow> bool option" where
  "match_entity D i keys m (HashedKeys hashed_keys) = Some (hashed_keys = [] \<or> i \<in> set hashed_keys)"
| "match_entity D i keys m (Keys kc) = Some (match_keys_clause D keys m kc)"
| "match_entity D i keys m (MemberC mc) = match_member D m mc"
| "match_entity D i keys m (Composite op cs) = (case op of And \<Rightarrow> match_all D i keys m cs | Or \<Rightarrow> match_any D i keys m cs)"
| "match_all D i keys m [] = Some True"
| "match_all D i keys m (c # cs) =
     (case match_entity D i keys m c of None \<Rightarrow> None | Some b \<Rightarrow> if b then match_all D i keys m cs else Some False)"
| "match_any D i keys m [] = Some False"
| "match_any D i keys m (c # cs) =
     (case match_entity D i keys m c of None \<Rightarrow> None | Some b \<Rightarrow> if b then Some True else match_any D i keys m cs)"

end
