(* ===== verification/CompositeQuery.thy ===== *)
theory CompositeQuery
  imports Subscriptions
begin

text \<open>
  The condition of an entity query (\<open>crates/sqlite/sqlite/src/model.rs\<close>, \<open>build_composite_clause\<close> and \<open>query_by_composite\<close>; \<open>utils.rs\<close>, \<open>build_keys_pattern\<close>).

  The text of a \<open>WHERE\<close> condition is kept as its tokens: conditions that SQL reads as one (they are in parentheses, or comparisons) and the words \<open>AND\<close> and
  \<open>OR\<close> between them, without further parentheses since the code writes none. A condition knows how many placeholders it has; the values bound to them are a list of
  their own, as in the code. Selectors and the texts of field elements and values are other packages' and are parameters.
\<close>

section \<open>Patterns of keys\<close>

definition KEY_PATTERN :: string where
  "KEY_PATTERN = ''0x[0-9a-fA-F]+''"

definition key_patterns :: "felt_text \<Rightarrow> keys_clause \<Rightarrow> string list" where
  "key_patterns F c =
     (if kc_keys c = [] then [KEY_PATTERN]
      else map (\<lambda>k. case k of Some felt \<Rightarrow> felt_hex F felt | None \<Rightarrow> KEY_PATTERN) (kc_keys c))"

definition build_keys_pattern :: "felt_text \<Rightarrow> keys_clause \<Rightarrow> string" where
  "build_keys_pattern F c =
     ''^'' @ join_with ''/'' (key_patterns F c) @ (if kc_pattern_matching c = VariableLen then ''(/'' @ KEY_PATTERN @ '')*'' else []) @ ''/$''"

section \<open>Conditions\<close>

datatype value_shape = VOne | VList "value_shape list"

fun shape_arity :: "value_shape \<Rightarrow> nat" where
  "shape_arity VOne = 1"
| "shape_arity (VList ss) = sum_list (map shape_arity ss)"

datatype member_access = Element string nat | WholeArray string | Plain string

datatype condition =
  EntityIdIn nat
| KeysMatch
| KeysMatchModels nat
| MemberCondition string member_access comparison_operator value_shape
| WorldIn nat
| ModelIn nat

fun arity :: "condition \<Rightarrow> nat" where
  "arity (EntityIdIn n) = n"
| "arity KeysMatch = 1"
| "arity (KeysMatchModels n) = Suc n"
| "arity (MemberCondition _ _ _ s) = shape_arity s"
| "arity (WorldIn n) = n"
| "arity (ModelIn n) = n"

datatype token = Cond condition | AND | OR

record query_env =
  qe_dojo :: dojo_types
  qe_felt :: felt_text
  qe_selector :: "string \<Rightarrow> felt option"
  qe_json_text :: "json \<Rightarrow> string"

definition parse_array_index :: "string \<Rightarrow> (string \<times> nat) option" where
  "parse_array_index field_name =
     (case find_char (CHR ''['') field_name of
        None \<Rightarrow> None
      | Some start \<Rightarrow>
          (case find_char (CHR '']'') field_name of
             None \<Rightarrow> None
           | Some stop \<Rightarrow>
               if start < stop
               then map_option (\<lambda>i. (take start field_name, i)) (parse_usize (drop (start + 1) (take stop field_name)))
               else None))"

fun prepare_comparison :: "query_env \<Rightarrow> bool \<Rightarrow> member_value \<Rightarrow> string + value_shape \<times> string list"
  and prepare_values :: "query_env \<Rightarrow> bool \<Rightarrow> member_value list \<Rightarrow> string + value_shape list \<times> string list" where
  "prepare_comparison Q json_format (MString v) = Inr (VOne, [v])"
| "prepare_comparison Q json_format (MPrimitive p) =
     (if json_format
      then case dt_to_json (qe_dojo Q) (Primitive p) of
             Inl e \<Rightarrow> Inl e
           | Inr j \<Rightarrow> Inr (VOne, [filter (\<lambda>c. c \<noteq> CHR 0x22) (qe_json_text Q j)])
      else Inr (VOne, [dt_sql_value (qe_dojo Q) p]))"
| "prepare_comparison Q json_format (MList vs) =
     (case prepare_values Q json_format vs of Inl e \<Rightarrow> Inl e | Inr (ss, bs) \<Rightarrow> Inr (VList ss, bs))"
| "prepare_values Q json_format [] = Inr ([], [])"
| "prepare_values Q json_format (v # vs) =
     (case prepare_comparison Q json_format v of
        Inl e \<Rightarrow> Inl e
      | Inr (s, bs) \<Rightarrow> (case prepare_values Q json_format vs of Inl e \<Rightarrow> Inl e | Inr (ss, bs') \<Rightarrow> Inr (s # ss, bs @ bs')))"

definition is_array_operator :: "comparison_operator \<Rightarrow> bool" where
  "is_array_operator op \<longleftrightarrow> op \<in> {Contains, ContainsAll, ContainsAny, ArrayLengthEq, ArrayLengthGt, ArrayLengthLt}"

fun selectors :: "query_env \<Rightarrow> string list \<Rightarrow> string + string list" where
  "selectors Q [] = Inr []"
| "selectors Q (model # models) =
     (case qe_selector Q model of
        None \<Rightarrow> Inl model
      | Some s \<Rightarrow> (case selectors Q models of Inl e \<Rightarrow> Inl e | Inr ss \<Rightarrow> Inr (felt_hex (qe_felt Q) s # ss)))"

definition member_condition :: "query_env \<Rightarrow> member_clause \<Rightarrow> string + condition \<times> string list" where
  "member_condition Q m =
     (let array_index = parse_array_index (mc_member m);
          is_array_operation = (is_array_operator (mc_operator m) \<or> array_index \<noteq> None) in
      case prepare_comparison Q is_array_operation (mc_value m) of
        Inl e \<Rightarrow> Inl e
      | Inr (value, binds) \<Rightarrow>
          Inr (MemberCondition (mc_model m)
                 (case array_index of
                    Some (field, i) \<Rightarrow> Element field i
                  | None \<Rightarrow> if is_array_operator (mc_operator m) then WholeArray (mc_member m) else Plain (mc_member m))
                 (mc_operator m) value, binds))"

text \<open>The conditions of a clause that is not composite.\<close>

definition simple_condition :: "query_env \<Rightarrow> clause \<Rightarrow> string + condition \<times> string list" where
  "simple_condition Q c =
     (case c of
        HashedKeys hashed_keys \<Rightarrow> Inr (EntityIdIn (length hashed_keys), map (felt_hex (qe_felt Q)) hashed_keys)
      | Keys keys \<Rightarrow>
          (case selectors Q (kc_models keys) of
             Inl e \<Rightarrow> Inl e
           | Inr ss \<Rightarrow>
               if ss = [] then Inr (KeysMatch, [build_keys_pattern (qe_felt Q) keys])
               else Inr (KeysMatchModels (length ss), build_keys_pattern (qe_felt Q) keys # ss))
      | MemberC m \<Rightarrow> member_condition Q m
      | Composite _ _ \<Rightarrow> Inl [])"

fun join_tokens :: "token \<Rightarrow> token list list \<Rightarrow> token list" where
  "join_tokens sep [] = []"
| "join_tokens sep [ts] = ts"
| "join_tokens sep (ts # tss) = ts @ sep # join_tokens sep tss"

definition separator :: "logical_operator \<Rightarrow> token" where
  "separator op = (case op of Or \<Rightarrow> OR | And \<Rightarrow> AND)"

fun build_composite_clause :: "query_env \<Rightarrow> clause \<Rightarrow> string + token list \<times> string list"
  and build_clauses :: "query_env \<Rightarrow> clause list \<Rightarrow> string + token list list \<times> string list" where
  "build_composite_clause Q (Composite op cs) =
     (case build_clauses Q cs of Inl e \<Rightarrow> Inl e | Inr (tss, bs) \<Rightarrow> Inr (join_tokens (separator op) tss, bs))"
| "build_composite_clause Q c =
     (case simple_condition Q c of Inl e \<Rightarrow> Inl e | Inr (cond, bs) \<Rightarrow> Inr ([Cond cond], bs))"
| "build_clauses Q [] = Inr ([], [])"
| "build_clauses Q (c # cs) =
     (case build_composite_clause Q c of
        Inl e \<Rightarrow> Inl e
      | Inr (ts, bs) \<Rightarrow>
          (case build_clauses Q cs of
             Inl e \<Rightarrow> Inl e
           | Inr (tss, bs') \<Rightarrow> Inr (if ts = [] then tss else ts # tss, bs @ bs')))"

text \<open>The whole condition: the clause, the worlds and the models.\<close>

definition query_condition :: "query_env \<Rightarrow> clause \<Rightarrow> felt list \<Rightarrow> string list \<Rightarrow> string + token list \<times> string list" where
  "query_condition Q composite world_addresses models =
     (case selectors Q models of
        Inl e \<Rightarrow> Inl e
      | Inr ss \<Rightarrow>
          (case build_composite_clause Q composite of
             Inl e \<Rightarrow> Inl e
           | Inr (ts, bs) \<Rightarrow>
               Inr (join_tokens AND ((if ts = [] then [] else [ts]) @ (if world_addresses = [] then [] else [[Cond (WorldIn (length world_addresses))]])
                      @ (if ss = [] then [] else [[Cond (ModelIn (length ss))]])),
                    bs @ map (felt_hex (qe_felt Q)) world_addresses @ ss)))"

text \<open>\<open>entities\<close>: a clause that is not composite is the only one of a conjunction.\<close>

definition composite_of :: "clause option \<Rightarrow> clause" where
  "composite_of c = (case c of Some (Composite op cs) \<Rightarrow> Composite op cs | Some c' \<Rightarrow> Composite And [c'] | None \<Rightarrow> Composite And [])"

section \<open>The text of a condition\<close>

text \<open>
  The SQL text, for the tables of a query: \<open>qt_table\<close> is aliased by its own name, \<open>qt_relation\<close> relates entities to models. A historical query reads members from the
  JSON text of a row.
\<close>

record query_tables =
  qt_table :: string
  qt_relation :: string
  qt_historical :: bool

definition operator_text :: "comparison_operator \<Rightarrow> string" where
  "operator_text op =
     (case op of
        Gt \<Rightarrow> ''>'' | Gte \<Rightarrow> ''>='' | Lt \<Rightarrow> ''<'' | Lte \<Rightarrow> ''<='' | Neq \<Rightarrow> ''!='' | Eq \<Rightarrow> ''='' | In \<Rightarrow> ''IN'' | NotIn \<Rightarrow> ''NOT IN''
      | Contains \<Rightarrow> ''CONTAINS'' | ContainsAll \<Rightarrow> ''CONTAINS_ALL'' | ContainsAny \<Rightarrow> ''CONTAINS_ANY''
      | ArrayLengthEq \<Rightarrow> ''ARRAY_LENGTH_EQ'' | ArrayLengthGt \<Rightarrow> ''ARRAY_LENGTH_GT'' | ArrayLengthLt \<Rightarrow> ''ARRAY_LENGTH_LT'')"

fun shape_text :: "value_shape \<Rightarrow> string" where
  "shape_text VOne = ''?''"
| "shape_text (VList ss) = ''('' @ join_with '', '' (map shape_text ss) @ '')''"

definition column_access :: "query_tables \<Rightarrow> string \<Rightarrow> string \<Rightarrow> string" where
  "column_access T model field =
     (if qt_historical T then ''JSON_EXTRACT('' @ qt_table T @ ''.data, '' @ [CHR 0x27] @ ''$.'' @ field @ [CHR 0x27] @ '')''
      else ''['' @ model @ ''].['' @ field @ '']'')"

definition plain_comparison :: "query_tables \<Rightarrow> string \<Rightarrow> string \<Rightarrow> comparison_operator \<Rightarrow> string \<Rightarrow> string" where
  "plain_comparison T model field op v =
     (if qt_historical T then ''CAST('' @ column_access T model field @ '' AS TEXT) '' @ operator_text op @ '' '' @ v
      else ''('' @ column_access T model field @ '' '' @ operator_text op @ '' '' @ v @ '')'')"

definition build_array_query :: "query_tables \<Rightarrow> string \<Rightarrow> string \<Rightarrow> comparison_operator \<Rightarrow> string \<Rightarrow> string" where
  "build_array_query T model field op v =
     (let col = column_access T model field in
      case op of
        Contains \<Rightarrow> ''EXISTS (SELECT 1 FROM json_each('' @ col @ '') WHERE value = '' @ v @ '')''
      | ContainsAll \<Rightarrow>
          ''NOT EXISTS (SELECT 1 FROM (VALUES '' @ v @ '') AS input_vals(val) WHERE NOT EXISTS (SELECT 1 FROM json_each('' @ col @
          '') WHERE value = input_vals.val))''
      | ContainsAny \<Rightarrow> ''EXISTS (SELECT 1 FROM json_each('' @ col @ '') WHERE value IN '' @ v @ '')''
      | ArrayLengthEq \<Rightarrow> ''json_array_length('' @ col @ '') = '' @ v
      | ArrayLengthGt \<Rightarrow> ''json_array_length('' @ col @ '') > '' @ v
      | ArrayLengthLt \<Rightarrow> ''json_array_length('' @ col @ '') < '' @ v
      | _ \<Rightarrow> plain_comparison T model field op v)"

fun condition_sql :: "query_tables \<Rightarrow> condition \<Rightarrow> string" where
  "condition_sql T (EntityIdIn n) = ''('' @ qt_table T @ ''.entity_id IN ('' @ join_with '', '' (replicate n ''?'') @ ''))''"
| "condition_sql T KeysMatch = ''('' @ qt_table T @ ''.keys REGEXP ?)''"
| "condition_sql T (KeysMatchModels n) =
     (let quoted = [CHR 0x27, CHR '':'', CHR 0x27];
          placeholders = join_with '', '' (replicate n (qt_table T @ ''.world_address || '' @ quoted @ '' || ?'')) in
      if qt_historical T
      then ''('' @ qt_table T @ ''.keys REGEXP ? AND '' @ qt_table T @ ''.model_id IN ('' @ placeholders @ ''))''
      else ''EXISTS (SELECT 1 FROM '' @ qt_relation T @ '' mr WHERE mr.entity_id = '' @ qt_table T @ ''.id AND '' @ qt_table T @
        ''.keys REGEXP ? AND mr.model_id IN ('' @ placeholders @ ''))'')"
| "condition_sql T (MemberCondition model acc op s) =
     (case acc of
        Element field i \<Rightarrow>
          ''json_extract('' @ column_access T model field @ '', '' @ [CHR 0x27] @ ''$['' @ dec_digits i @ '']'' @ [CHR 0x27] @ '') '' @ operator_text op @ '' '' @ shape_text s
      | WholeArray field \<Rightarrow> build_array_query T model field op (shape_text s)
      | Plain field \<Rightarrow> plain_comparison T model field op (shape_text s))"
| "condition_sql T (WorldIn n) = qt_table T @ ''.world_address IN ('' @ join_with '', '' (replicate n ''?'') @ '')''"
| "condition_sql T (ModelIn n) =
     ''('' @ join_with '' OR '' (replicate n ((if qt_historical T then qt_table T else qt_relation T) @ ''.model_id = '' @ qt_table T @
       ''.world_address || '' @ [CHR 0x27, CHR '':'', CHR 0x27] @ '' || ?'')) @ '')''"

fun token_sql :: "query_tables \<Rightarrow> token \<Rightarrow> string" where
  "token_sql T (Cond c) = condition_sql T c"
| "token_sql T AND = '' AND ''"
| "token_sql T OR = '' OR ''"

definition where_sql :: "query_tables \<Rightarrow> token list \<Rightarrow> string" where
  "where_sql T ts = concat (map (token_sql T) ts)"

end
