(* ===== verification/CompositeSpec.thy ===== *)
theory CompositeSpec
  imports CompositeQuery
begin

text \<open>
  What the condition of an entity query selects. SQLite binds the values to the placeholders in order and reads \<open>AND\<close> before \<open>OR\<close>; which rows a single condition
  holds of is the parameter \<open>H\<close>.
\<close>

section \<open>The meaning of a condition\<close>

datatype bound_token = BCond condition "string list" | BAnd | BOr

fun bind_tokens :: "token list \<Rightarrow> string list \<Rightarrow> bound_token list" where
  "bind_tokens [] vs = []"
| "bind_tokens (Cond c # ts) vs = BCond c (take (arity c) vs) # bind_tokens ts (drop (arity c) vs)"
| "bind_tokens (AND # ts) vs = BAnd # bind_tokens ts vs"
| "bind_tokens (OR # ts) vs = BOr # bind_tokens ts vs"

fun or_parts :: "bound_token list \<Rightarrow> bound_token list list" where
  "or_parts [] = [[]]"
| "or_parts (b # bs) =
     (if b = BOr then [] # or_parts bs else case or_parts bs of p # ps \<Rightarrow> (b # p) # ps | [] \<Rightarrow> [[b]])"

definition token_holds :: "(condition \<Rightarrow> string list \<Rightarrow> 'r \<Rightarrow> bool) \<Rightarrow> 'r \<Rightarrow> bound_token \<Rightarrow> bool" where
  "token_holds H r b = (case b of BCond c vs \<Rightarrow> H c vs r | _ \<Rightarrow> True)"

definition where_holds :: "(condition \<Rightarrow> string list \<Rightarrow> 'r \<Rightarrow> bool) \<Rightarrow> token list \<times> string list \<Rightarrow> 'r \<Rightarrow> bool" where
  "where_holds H = (\<lambda>(ts, vs) r. list_ex (list_all (token_holds H r)) (or_parts (bind_tokens ts vs)))"

text \<open>What a clause is meant to select.\<close>

fun clause_holds :: "query_env \<Rightarrow> (condition \<Rightarrow> string list \<Rightarrow> 'r \<Rightarrow> bool) \<Rightarrow> 'r \<Rightarrow> clause \<Rightarrow> bool" where
  "clause_holds Q H r (Composite op cs) = (case op of And \<Rightarrow> list_all (clause_holds Q H r) cs | Or \<Rightarrow> list_ex (clause_holds Q H r) cs)"
| "clause_holds Q H r c = (case simple_condition Q c of Inl _ \<Rightarrow> False | Inr (cond, vs) \<Rightarrow> H cond vs r)"

section \<open>Every placeholder has its value\<close>

definition tokens_arity :: "token list \<Rightarrow> nat" where
  "tokens_arity ts = sum_list (map (\<lambda>t. case t of Cond c \<Rightarrow> arity c | _ \<Rightarrow> 0) ts)"

lemma tokens_arity_simps [simp]:
  "tokens_arity [] = 0" "tokens_arity (Cond c # ts) = arity c + tokens_arity ts" "tokens_arity (AND # ts) = tokens_arity ts"
  "tokens_arity (OR # ts) = tokens_arity ts" "tokens_arity (ts @ us) = tokens_arity ts + tokens_arity us"
  by (simp_all add: tokens_arity_def)

lemma separator_arity [simp]: "tokens_arity (separator op # ts) = tokens_arity ts"
  by (cases op) (simp_all add: separator_def)

lemma join_arity [simp]: "tokens_arity (join_tokens (separator op) tss) = sum_list (map tokens_arity tss)"
  by (induction "separator op" tss rule: join_tokens.induct) simp_all

lemma and_arity: "tokens_arity (join_tokens AND tss) = sum_list (map tokens_arity tss)"
  using join_arity[of And tss] by (simp add: separator_def)

lemma prepare_arity:
  "prepare_comparison Q j v = Inr (s, bs) \<Longrightarrow> shape_arity s = length bs"
  "prepare_values Q j vs = Inr (ss, bs) \<Longrightarrow> sum_list (map shape_arity ss) = length bs"
  by (induction Q j v and Q j vs arbitrary: s bs and ss bs rule: prepare_comparison_prepare_values.induct)
    (auto split: sum.splits if_splits)

lemma selectors_length: "selectors Q ms = Inr ss \<Longrightarrow> length ss = length ms"
  by (induction ms arbitrary: ss) (auto split: option.splits sum.splits)

lemma simple_condition_arity: "simple_condition Q c = Inr (cond, bs) \<Longrightarrow> arity cond = length bs"
  by (auto simp: simple_condition_def member_condition_def Let_def dest: prepare_arity split: clause.splits sum.splits if_splits)

lemma build_arity:
  "build_composite_clause Q c = Inr (ts, bs) \<Longrightarrow> tokens_arity ts = length bs"
  "build_clauses Q cs = Inr (tss, bs) \<Longrightarrow> sum_list (map tokens_arity tss) = length bs"
  by (induction Q c and Q cs arbitrary: ts bs and tss bs rule: build_composite_clause_build_clauses.induct)
    (auto split: sum.splits if_splits dest: simple_condition_arity)

text \<open>The placeholders of the text are the ones of the conditions, if the names in it have no question mark.\<close>

abbreviation marks :: "string \<Rightarrow> nat" where
  "marks s \<equiv> count_list s (CHR ''?'')"

abbreviation plain_name :: "string \<Rightarrow> bool" where
  "plain_name s \<equiv> CHR ''?'' \<notin> set s"

definition plain_tables :: "query_tables \<Rightarrow> bool" where
  "plain_tables T \<longleftrightarrow> plain_name (qt_table T) \<and> plain_name (qt_relation T)"

fun plain_clause :: "clause \<Rightarrow> bool" where
  "plain_clause (Composite op cs) = list_all plain_clause cs"
| "plain_clause (MemberC m) = (plain_name (mc_model m) \<and> plain_name (mc_member m))"
| "plain_clause _ = True"

fun plain_condition :: "condition \<Rightarrow> bool" where
  "plain_condition (MemberCondition model acc op s) = (plain_name model \<and> (case acc of Element f i \<Rightarrow> plain_name f | WholeArray f \<Rightarrow> plain_name f | Plain f \<Rightarrow> plain_name f))"
| "plain_condition _ = True"

lemma marks_append [simp]: "marks (s @ t) = marks s + marks t"
  by (rule count_list_append)

lemma marks_plain [simp]: "plain_name s \<Longrightarrow> marks s = 0"
  by (simp add: count_list_0_iff)

lemma marks_join: "marks sep = 0 \<Longrightarrow> marks (join_with sep ss) = sum_list (map marks ss)"
  by (induction sep ss rule: join_with.induct) simp_all

lemma marks_shape [simp]: "marks (shape_text s) = shape_arity s"
proof (induction s)
  case (VList ss)
  then have "map (marks \<circ> shape_text) ss = map shape_arity ss" by (intro map_cong) simp_all
  then have "sum_list (map (marks \<circ> shape_text) ss) = sum_list (map shape_arity ss)" by (rule arg_cong)
  then show ?case by (simp add: marks_join)
qed simp

lemma marks_digits [simp]: "marks (dec_digits n) = 0"
  using dec_digits_chars[of "CHR ''?''" n] by (auto simp: dec_value_def intro: marks_plain)

lemma marks_column [simp]: "plain_tables T \<Longrightarrow> plain_name m \<Longrightarrow> plain_name f \<Longrightarrow> marks (column_access T m f) = 0"
  by (simp add: column_access_def plain_tables_def)

lemma marks_operator [simp]: "marks (operator_text op) = 0"
  by (cases op) (simp_all add: operator_text_def)

lemma marks_comparison [simp]: "plain_tables T \<Longrightarrow> plain_name m \<Longrightarrow> plain_name f \<Longrightarrow> marks (plain_comparison T m f op v) = marks v"
  by (simp add: plain_comparison_def)

lemma marks_array [simp]: "plain_tables T \<Longrightarrow> plain_name m \<Longrightarrow> plain_name f \<Longrightarrow> marks (build_array_query T m f op v) = marks v"
  by (cases op) (simp_all add: build_array_query_def)

lemma marks_condition: "plain_tables T \<Longrightarrow> plain_condition c \<Longrightarrow> marks (condition_sql T c) = arity c"
  by (cases c) (auto simp: marks_join sum_list_replicate plain_tables_def[of T] Let_def split: member_access.splits)

definition plain_token :: "token \<Rightarrow> bool" where
  "plain_token t \<longleftrightarrow> (case t of Cond c \<Rightarrow> plain_condition c | _ \<Rightarrow> True)"

lemma plain_separator [simp]: "plain_token (separator op)" "plain_token AND"
  by (cases op) (simp_all add: plain_token_def separator_def)

lemma marks_where: "plain_tables T \<Longrightarrow> list_all plain_token ts \<Longrightarrow> marks (where_sql T ts) = tokens_arity ts"
proof (induction ts)
  case (Cons t ts)
  then show ?case by (cases t) (simp_all add: where_sql_def plain_token_def marks_condition)
qed (simp add: where_sql_def)

lemma plain_join: "list_all (list_all plain_token) tss \<Longrightarrow> plain_token sep \<Longrightarrow> list_all plain_token (join_tokens sep tss)"
  by (induction sep tss rule: join_tokens.induct) simp_all

lemma parse_array_index_plain: "parse_array_index s = Some (f, i) \<Longrightarrow> plain_name s \<Longrightarrow> plain_name f"
  by (auto simp: parse_array_index_def split: option.splits if_splits dest: in_set_takeD)

lemma simple_condition_plain: "plain_clause c \<Longrightarrow> simple_condition Q c = Inr (cond, bs) \<Longrightarrow> plain_condition cond"
  by (cases c) (auto simp: simple_condition_def member_condition_def Let_def dest: parse_array_index_plain split: sum.splits if_splits option.splits)

lemma build_plain:
  "plain_clause c \<Longrightarrow> build_composite_clause Q c = Inr (ts, bs) \<Longrightarrow> list_all plain_token ts"
  "list_all plain_clause cs \<Longrightarrow> build_clauses Q cs = Inr (tss, bs) \<Longrightarrow> list_all (list_all plain_token) tss"
  by (induction Q c and Q cs arbitrary: ts bs and tss bs rule: build_composite_clause_build_clauses.induct)
    (auto split: sum.splits if_splits simp: plain_token_def[of "Cond _"] intro: plain_join dest!: simple_condition_plain[rotated])

section \<open>Conditions joined by one operator\<close>

lemma bind_tokens_append:
  "tokens_arity ts = length vs \<Longrightarrow> bind_tokens (ts @ us) (vs @ ws) = bind_tokens ts vs @ bind_tokens us ws"
  by (induction ts vs rule: bind_tokens.induct) simp_all

lemma or_parts_no_or: "BOr \<notin> set bs \<Longrightarrow> or_parts bs = [bs]"
  by (induction bs) auto

lemma or_parts_ne: "or_parts bs \<noteq> []"
  by (induction bs) (auto split: list.split)

lemma or_parts_or: "or_parts (xs @ BOr # ys) = or_parts xs @ or_parts ys"
proof (induction xs)
  case (Cons x xs)
  obtain p ps where "or_parts xs = p # ps" using or_parts_ne[of xs] by (cases "or_parts xs") auto
  then show ?case using Cons by simp
qed simp

text \<open>Conditions with the values of their placeholders. Joining by \<open>OR\<close> is always right, joining by \<open>AND\<close> only if there is no \<open>OR\<close> inside.\<close>

definition supplied :: "token list \<times> string list \<Rightarrow> bool" where
  "supplied p \<longleftrightarrow> tokens_arity (fst p) = length (snd p)"

definition no_or :: "token list \<times> string list \<Rightarrow> bool" where
  "no_or p \<longleftrightarrow> BOr \<notin> set (bind_tokens (fst p) (snd p))"

lemma join_or:
  "ps \<noteq> [] \<Longrightarrow> list_all supplied ps \<Longrightarrow>
   where_holds H (join_tokens OR (map fst ps), concat (map snd ps)) r = list_ex (\<lambda>p. where_holds H p r) ps"
proof (induction ps rule: induct_list012)
  case (3 p q ps)
  obtain ts vs where p: "p = (ts, vs)" by (cases p)
  have "bind_tokens (ts @ OR # join_tokens OR (map fst (q # ps))) (vs @ concat (map snd (q # ps))) =
      bind_tokens ts vs @ BOr # bind_tokens (join_tokens OR (map fst (q # ps))) (concat (map snd (q # ps)))"
    using bind_tokens_append[of ts vs "OR # join_tokens OR (map fst (q # ps))"] 3(4) p by (simp add: supplied_def)
  then show ?case using 3 p by (simp add: where_holds_def or_parts_or)
qed (simp_all add: where_holds_def case_prod_unfold)

lemma join_and:
  "ps \<noteq> [] \<Longrightarrow> list_all supplied ps \<Longrightarrow> list_all no_or ps \<Longrightarrow>
   no_or (join_tokens AND (map fst ps), concat (map snd ps)) \<and>
   where_holds H (join_tokens AND (map fst ps), concat (map snd ps)) r = list_all (\<lambda>p. where_holds H p r) ps"
proof (induction ps rule: induct_list012)
  case (3 p q ps)
  obtain ts vs where p: "p = (ts, vs)" by (cases p)
  have "bind_tokens (ts @ AND # join_tokens AND (map fst (q # ps))) (vs @ concat (map snd (q # ps))) =
      bind_tokens ts vs @ BAnd # bind_tokens (join_tokens AND (map fst (q # ps))) (concat (map snd (q # ps)))"
    using bind_tokens_append[of ts vs "AND # join_tokens AND (map fst (q # ps))"] 3(4) p by (simp add: supplied_def)
  then show ?case using 3 p by (auto simp: where_holds_def no_or_def or_parts_no_or token_holds_def)
qed (simp_all add: where_holds_def case_prod_unfold)

section \<open>Clauses\<close>

fun or_free :: "clause \<Rightarrow> bool" where
  "or_free (Composite op cs) = ((op = And \<or> length cs = 1) \<and> list_all or_free cs)"
| "or_free _ = True"

text \<open>A clause in which no \<open>Or\<close> is below an \<open>And\<close>, and no composite clause is empty.\<close>

fun grouped :: "clause \<Rightarrow> bool" where
  "grouped (Composite op cs) = (cs \<noteq> [] \<and> list_all grouped cs \<and> (op = And \<longrightarrow> list_all or_free cs))"
| "grouped _ = True"

definition renders :: "query_env \<Rightarrow> (condition \<Rightarrow> string list \<Rightarrow> 'r \<Rightarrow> bool) \<Rightarrow> 'r \<Rightarrow> token list \<times> string list \<Rightarrow> clause \<Rightarrow> bool" where
  "renders Q H r p c \<longleftrightarrow> supplied p \<and> fst p \<noteq> [] \<and> where_holds H p r = clause_holds Q H r c \<and> (or_free c \<longrightarrow> no_or p)"

lemma renders_all: "list_all2 (renders Q H r) ps cs \<Longrightarrow>
    list_all supplied ps \<and> list_all (\<lambda>p. where_holds H p r) ps = list_all (clause_holds Q H r) cs \<and>
    list_ex (\<lambda>p. where_holds H p r) ps = list_ex (clause_holds Q H r) cs \<and> (list_all or_free cs \<longrightarrow> list_all no_or ps) \<and>
    list_all (\<lambda>p. fst p \<noteq> []) ps"
  by (induction rule: list_all2_induct) (auto simp: renders_def)

lemma join_tokens_ne: "tss \<noteq> [] \<Longrightarrow> list_all (\<lambda>ts. ts \<noteq> []) tss \<Longrightarrow> join_tokens sep tss \<noteq> []"
  by (induction sep tss rule: join_tokens.induct) auto

lemma renders_composite:
  assumes "list_all2 (renders Q H r) ps cs" "cs \<noteq> []" "op = And \<longrightarrow> list_all or_free cs"
  shows "renders Q H r (join_tokens (separator op) (map fst ps), concat (map snd ps)) (Composite op cs)"
proof -
  have ne: "ps \<noteq> []" using assms(1,2) by auto
  note a = renders_all[OF assms(1)]
  have sup: "supplied (join_tokens (separator op) (map fst ps), concat (map snd ps))"
    using a by (simp add: supplied_def length_concat list_all_iff comp_def cong: map_cong)
  have tne: "join_tokens (separator op) (map fst ps) \<noteq> []" using ne a by (intro join_tokens_ne) (auto simp: list_all_iff)
  show ?thesis
  proof (cases op)
    case And
    with join_and[OF ne, of H r] a assms(3) sup tne show ?thesis by (simp add: renders_def separator_def)
  next
    case Or
    have "no_or (join_tokens OR (map fst ps), concat (map snd ps))" if free: "or_free (Composite op cs)"
    proof -
      obtain c where "cs = [c]" using free Or by (cases cs) auto
      then obtain p where "ps = [p]" using assms(1) by (auto simp: list_all2_Cons2)
      then show ?thesis using a free by (cases p) simp
    qed
    with Or join_or[OF ne, of H r] a sup tne show ?thesis by (simp add: renders_def separator_def)
  qed
qed

lemma simple_condition_composite [simp]: "simple_condition Q (Composite op cs) = Inl []"
  by (simp add: simple_condition_def)

lemma simple_renders: "simple_condition Q c = Inr (cond, bs) \<Longrightarrow> renders Q H r ([Cond cond], bs) c"
  using simple_condition_arity[of Q c cond bs]
  by (cases c) (auto simp: renders_def supplied_def no_or_def where_holds_def token_holds_def)

lemma build_renders:
  "grouped c \<Longrightarrow> build_composite_clause Q c = Inr (ts, bs) \<Longrightarrow> renders Q H r (ts, bs) c"
  "list_all grouped cs \<Longrightarrow> build_clauses Q cs = Inr (tss, bs) \<Longrightarrow>
     \<exists>ps. tss = map fst ps \<and> bs = concat (map snd ps) \<and> list_all2 (renders Q H r) ps cs"
proof (induction Q c and Q cs arbitrary: ts bs and tss bs rule: build_composite_clause_build_clauses.induct)
  case (1 Q op cs)
  from 1(3) obtain tss where b: "build_clauses Q cs = Inr (tss, bs)" "ts = join_tokens (separator op) tss" by (auto split: sum.splits)
  from 1(1)[OF _ b(1)] 1(2) obtain ps where ps: "tss = map fst ps" "bs = concat (map snd ps)" "list_all2 (renders Q H r) ps cs" by auto
  show ?case unfolding b(2) ps(1,2) by (rule renders_composite[OF ps(3)]) (use 1(2) in auto)
next
  case (4 Q c cs)
  from 4(4) obtain ts bs1 tss' bs2 where b: "build_composite_clause Q c = Inr (ts, bs1)" "build_clauses Q cs = Inr (tss', bs2)"
    "tss = (if ts = [] then tss' else ts # tss')" "bs = bs1 @ bs2" by (auto split: sum.splits)
  have c: "renders Q H r (ts, bs1) c" using 4(1)[OF _ b(1)] 4(3) by simp
  from 4(2)[OF b(1) _ _ b(2)] 4(3) obtain ps where ps: "tss' = map fst ps" "bs2 = concat (map snd ps)" "list_all2 (renders Q H r) ps cs" by auto
  have "ts \<noteq> []" using c by (simp add: renders_def)
  then show ?case using b(3,4) c ps by (intro exI[of _ "(ts, bs1) # ps"]) simp
qed (auto split: sum.splits intro: simple_renders)

section \<open>Properties\<close>


definition sample_query :: query_env where
  "sample_query = \<lparr>qe_dojo = \<lparr>dt_name = (\<lambda>_. []), dt_sql_value = (\<lambda>_. ''5''), dt_sql_type = (\<lambda>_. ''TEXT''), dt_enum_sql_value = (\<lambda>_ _. []),
       dt_enum_option = (\<lambda>_ _. None), dt_set_option = (\<lambda>_ _. Inl []), dt_to_json = (\<lambda>_. Inr JNull), dt_from_json = (\<lambda>t _. Inr t),
       dt_less = (\<lambda>_ _. False), dt_less_eq = (\<lambda>_ _. False), dt_as_u32 = (\<lambda>_. None)\<rparr>,
     qe_felt = hex_text, qe_selector = (\<lambda>s. if s = ''ns-Position'' then Some 9 else None), qe_json_text = (\<lambda>_. ''null'')\<rparr>"

definition sample_tables :: query_tables where
  "sample_tables = \<lparr>qt_table = ''entities'', qt_relation = ''entity_model'', qt_historical = False\<rparr>"


text \<open>
  C14. A query selects what its clause says, if no composite clause is empty and no \<open>Or\<close> is below an \<open>And\<close>, whatever the depth: then the condition of the
  query holds of exactly the rows that the clause holds of.
\<close>

theorem grouped_clause_correct:
  assumes "grouped c" and "build_composite_clause Q c = Inr p"
  shows "where_holds H p r = clause_holds Q H r c"
  using build_renders(1)[OF assms(1), of Q "fst p" "snd p" H r] assms(2) by (simp add: renders_def)

theorem grouped_clause_correct_witness:
  "where_holds (\<lambda>c vs r. c = EntityIdIn 1 \<and> vs = [felt_hex hex_text r]) ([Cond (EntityIdIn 1), OR, Cond (EntityIdIn 1)], [felt_hex hex_text 1, felt_hex hex_text 2]) 2 =
   clause_holds sample_query (\<lambda>c vs r. c = EntityIdIn 1 \<and> vs = [felt_hex hex_text r]) 2 (Composite Or [HashedKeys [1], HashedKeys [2]])"
  by (rule grouped_clause_correct) (simp_all add: simple_condition_def separator_def sample_query_def)

text \<open>
  An \<open>Or\<close> below an \<open>And\<close> is not kept together, since no parentheses are written around it: all but its first alternative escape the rest of the conjunction.
  In the same way all but the last alternative of a query by \<open>Or\<close> escape the restriction to worlds, so rows of other worlds are returned.
\<close>

theorem or_escapes_conjunction:
  assumes "simple_condition Q c = Inr (kc, vc)" and "simple_condition Q a = Inr (ka, va)" and "simple_condition Q b = Inr (kb, vb)" and "ws \<noteq> []"
  shows "\<exists>p q. build_composite_clause Q (Composite And [c, Composite Or [a, b]]) = Inr p \<and>
      where_holds H p r = (clause_holds Q H r c \<and> clause_holds Q H r a \<or> clause_holds Q H r b) \<and>
    query_condition Q (Composite Or [a, b]) ws [] = Inr q \<and>
      where_holds H q r = (clause_holds Q H r a \<or> clause_holds Q H r b \<and> H (WorldIn (length ws)) (map (felt_hex (qe_felt Q)) ws) r)"
proof -
  have build: "build_composite_clause Q x = Inr ([Cond k], v) \<and> clause_holds Q H r x = H k v r \<and> arity k = length v"
    if "simple_condition Q x = Inr (k, v)" for x k v
    using that simple_condition_arity[OF that] by (cases x) simp_all
  note s = build[OF assms(1)] build[OF assms(2)] build[OF assms(3)]
  have "build_composite_clause Q (Composite And [c, Composite Or [a, b]]) = Inr ([Cond kc, AND, Cond ka, OR, Cond kb], vc @ va @ vb)"
    using s by (simp add: separator_def)
  moreover have "query_condition Q (Composite Or [a, b]) ws [] =
      Inr ([Cond ka, OR, Cond kb, AND, Cond (WorldIn (length ws))], va @ vb @ map (felt_hex (qe_felt Q)) ws)"
    using s assms(4) by (simp add: separator_def query_condition_def)
  ultimately show ?thesis using s by (simp add: where_holds_def token_holds_def)
qed

theorem or_escapes_conjunction_witness:
  "\<exists>q. query_condition sample_query (Composite Or [HashedKeys [1], HashedKeys [2]]) [3] [] = Inr q \<and>
     where_holds (\<lambda>c vs r. c = EntityIdIn 1 \<and> vs = [felt_hex hex_text r]) q 1"
  using or_escapes_conjunction[of sample_query "HashedKeys [7]" "EntityIdIn 1" "[felt_hex hex_text 7]" "HashedKeys [1]" "EntityIdIn 1" "[felt_hex hex_text 1]"
      "HashedKeys [2]" "EntityIdIn 1" "[felt_hex hex_text 2]" "[3]" "\<lambda>c vs r. c = EntityIdIn 1 \<and> vs = [felt_hex hex_text r]" 1]
  by (auto simp: simple_condition_def sample_query_def)

end
