(* ===== verification/Updates.thy ===== *)
theory Updates
  imports Schema
begin

text \<open>
  The records that storage publishes to subscribers, from \<open>crates/proto/src/lib.rs\<close> and \<open>schema.rs\<close>. Times are seconds; the times at which a row was created and
  updated are not read by the modelled code and are left out.
\<close>

record entity_update =
  eu_world_address :: felt
  eu_hashed_keys :: felt
  eu_models :: "(string \<times> member list) list"
  eu_event_id :: string
  eu_keys :: "felt list"
  eu_deleted :: bool
  eu_match_model :: "ty option"

datatype call_type = CallExecute | CallExecuteFromOutside

record transaction_call =
  tc_contract_address :: felt
  tc_entrypoint :: string
  tc_calldata :: "felt list"
  tc_call_type :: call_type
  tc_caller_address :: felt

record transaction_update =
  tx_transaction_hash :: felt
  tx_sender_address :: felt
  tx_calldata :: "felt list"
  tx_max_fee :: felt
  tx_signature :: "felt list"
  tx_nonce :: felt
  tx_block_number :: u64
  tx_transaction_type :: string
  tx_block_timestamp :: int
  tx_calls :: "transaction_call list"
  tx_unique_models :: "felt list"

record transaction_filter =
  tf_transaction_hashes :: "felt list"
  tf_caller_addresses :: "felt list"
  tf_contract_addresses :: "felt list"
  tf_entrypoints :: "string list"
  tf_model_selectors :: "felt list"
  tf_from_block :: "u64 option"
  tf_to_block :: "u64 option"

record token_update =
  to_token_id :: "u256 option"
  to_contract_address :: felt
  to_name :: string
  to_symbol :: string
  to_decimals :: "8 word"
  to_metadata :: string
  to_total_supply :: "u256 option"

record balance_update =
  bu_balance :: u256
  bu_account_address :: felt
  bu_contract_address :: felt
  bu_token_id :: "u256 option"

record transfer_update =
  tu_id :: string
  tu_contract_address :: felt
  tu_from_address :: felt
  tu_to_address :: felt
  tu_amount :: u256
  tu_token_id :: "u256 option"
  tu_executed_at :: int
  tu_event_id :: "string option"

text \<open>A row of the activity table (\<open>crates/sqlite/types\<close>).\<close>

record activity =
  ac_id :: string
  ac_world_address :: string
  ac_namespace :: string
  ac_caller_address :: string
  ac_session_start :: int
  ac_session_end :: int
  ac_action_count :: "32 word"
  ac_actions :: string

record aggregation_entry =
  ag_id :: string
  ag_aggregator_id :: string
  ag_entity_id :: string
  ag_value :: u256
  ag_display_value :: string
  ag_position :: u64
  ag_model_id :: string

record achievement_progression =
  ap_id :: string
  ap_achievement_id :: string
  ap_task_id :: string
  ap_world_address :: felt
  ap_namespace :: string
  ap_player_id :: felt
  ap_count :: "32 word"
  ap_completed :: bool
  ap_completed_at :: "int option"

end
