(* ===== verification/Dispatch.thy ===== *)
theory Dispatch
  imports Subscriptions Updates
begin

text \<open>
  Who gets an update: the subscribers of the gRPC server (\<open>crates/grpc/server/src/subscriptions\<close>) with their filters, and the loop that hands an update to the
  channels of the interested ones. All kinds of subscriptions have the same loop, \<open>process_update\<close>, around a filter of their own; a filter that panics ends the
  service. The result tells whether the service goes on.
\<close>

section \<open>Channels\<close>

record 'm channel =
  ch_buffer :: "'m list"
  ch_capacity :: nat
  ch_closed :: bool

datatype send_result = Sent | Full | Closed

definition try_send :: "'m \<Rightarrow> 'm channel \<Rightarrow> send_result \<times> 'm channel" where
  "try_send m ch =
     (if ch_closed ch then (Closed, ch)
      else if ch_capacity ch \<le> length (ch_buffer ch) then (Full, ch)
      else (Sent, ch\<lparr>ch_buffer := ch_buffer ch @ [m]\<rparr>))"

record ('f, 'm) subscriber =
  sub_filter :: 'f
  sub_sender :: "'m channel"

type_synonym ('f, 'm) subscribers = "(u64 \<times> ('f, 'm) subscriber) list"

section \<open>Dispatch\<close>

fun dispatch_loop ::
  "('f \<Rightarrow> bool option) \<Rightarrow> (u64 \<Rightarrow> 'm) \<Rightarrow> ('f, 'm) subscribers \<Rightarrow> ('f, 'm) subscribers \<times> u64 list \<times> bool" where
  "dispatch_loop interested resp [] = ([], [], True)"
| "dispatch_loop interested resp ((idx, sub) # subs) =
     (case interested (sub_filter sub) of
        None \<Rightarrow> ((idx, sub) # subs, [], False)
      | Some False \<Rightarrow>
          (case dispatch_loop interested resp subs of (subs', closed_stream, ok) \<Rightarrow> ((idx, sub) # subs', closed_stream, ok))
      | Some True \<Rightarrow>
          (case try_send (resp idx) (sub_sender sub) of
             (r, ch) \<Rightarrow>
               (case dispatch_loop interested resp subs of
                  (subs', closed_stream, ok) \<Rightarrow>
                    ((idx, sub\<lparr>sub_sender := ch\<rparr>) # subs', (if r = Sent then closed_stream else idx # closed_stream), ok))))"

definition process_update ::
  "('f \<Rightarrow> bool option) \<Rightarrow> (u64 \<Rightarrow> 'm) \<Rightarrow> ('f, 'm) subscribers \<Rightarrow> bool \<times> ('f, 'm) subscribers" where
  "process_update interested resp subs =
     (case dispatch_loop interested resp subs of
        (subs', closed_stream, ok) \<Rightarrow>
          if ok then (True, filter (\<lambda>(idx, _). idx \<notin> set closed_stream) subs') else (False, subs'))"

section \<open>Managing subscribers\<close>

text \<open>The identifier is drawn at random; the first message only makes the call return. Inserting replaces a subscriber with the same identifier.\<close>

definition add_subscriber :: "u64 \<Rightarrow> nat \<Rightarrow> 'm \<Rightarrow> 'f \<Rightarrow> ('f, 'm) subscribers \<Rightarrow> ('f, 'm) subscribers" where
  "add_subscriber i buffer_size first f subs =
     al_insert i \<lparr>sub_filter = f, sub_sender = \<lparr>ch_buffer = [first], ch_capacity = buffer_size, ch_closed = False\<rparr>\<rparr> subs"

definition update_subscriber :: "u64 \<Rightarrow> 'f \<Rightarrow> ('f, 'm) subscribers \<Rightarrow> ('f, 'm) subscribers" where
  "update_subscriber i f subs = al_modify i (\<lambda>s. s\<lparr>sub_filter := f\<rparr>) subs"

definition remove_subscriber :: "u64 \<Rightarrow> ('f, 'm) subscribers \<Rightarrow> ('f, 'm) subscribers" where
  "remove_subscriber i subs = al_remove i subs"

definition prune_closed :: "('f, 'm) subscribers \<Rightarrow> nat \<times> ('f, 'm) subscribers" where
  "prune_closed subs =
     (let subs' = filter (\<lambda>(_, s). \<not> ch_closed (sub_sender s)) subs in (length subs - length subs', subs'))"

section \<open>Filters\<close>

text \<open>Entities and event messages.\<close>

record entity_filter =
  ef_clause :: "clause option"
  ef_world_addresses :: "felt list"

definition new_model :: "entity_update \<Rightarrow> ty option" where
  "new_model e = (case eu_models e of [] \<Rightarrow> None | (n, ms) # _ \<Rightarrow> Some (Struct n ms))"

definition entity_interested :: "dojo_types \<Rightarrow> entity_update \<Rightarrow> entity_filter \<Rightarrow> bool option" where
  "entity_interested D e f =
     (case ef_clause f of
        None \<Rightarrow> Some True
      | Some clause \<Rightarrow>
          if ef_world_addresses f \<noteq> [] \<and> eu_world_address e \<notin> set (ef_world_addresses f) then Some False
          else (case match_entity D (eu_hashed_keys e) (eu_keys e) (eu_match_model e) clause of
                  None \<Rightarrow> None
                | Some matches_old \<Rightarrow>
                    (case match_entity D (eu_hashed_keys e) (eu_keys e) (new_model e) clause of
                       None \<Rightarrow> None
                     | Some matches_new \<Rightarrow> Some (matches_old \<or> matches_new))))"

definition event_interested :: "felt list \<Rightarrow> keys_clause list \<Rightarrow> bool option" where
  "event_interested keys clauses = Some (match_keys keys clauses)"

text \<open>Tokens, balances and transfers: an empty filter lets everything pass.\<close>

definition passes :: "'a list \<Rightarrow> 'a \<Rightarrow> bool" where
  "passes xs x \<longleftrightarrow> xs = [] \<or> x \<in> set xs"

definition token_passes :: "u256 list \<Rightarrow> u256 option \<Rightarrow> bool" where
  "token_passes ids t = (if ids \<noteq> [] \<and> t \<noteq> None \<and> the t \<notin> set ids then False else True)"

definition token_interested :: "token_update \<Rightarrow> felt list \<times> u256 list \<Rightarrow> bool option" where
  "token_interested t = (\<lambda>(contracts, ids). Some (passes contracts (to_contract_address t) \<and> token_passes ids (to_token_id t)))"

definition balance_interested :: "balance_update \<Rightarrow> felt list \<times> felt list \<times> u256 list \<Rightarrow> bool option" where
  "balance_interested b = (\<lambda>(contracts, accounts, ids).
     Some (passes contracts (bu_contract_address b) \<and> passes accounts (bu_account_address b) \<and> token_passes ids (bu_token_id b)))"

definition transfer_interested :: "transfer_update \<Rightarrow> felt list \<times> felt list \<times> u256 list \<Rightarrow> bool option" where
  "transfer_interested t = (\<lambda>(contracts, accounts, ids).
     Some (passes contracts (tu_contract_address t) \<and>
           \<not> (accounts \<noteq> [] \<and> tu_from_address t \<notin> set accounts \<and> tu_to_address t \<notin> set accounts) \<and> token_passes ids (tu_token_id t)))"

definition contract_interested :: "contract \<Rightarrow> felt list \<times> contract_type list \<Rightarrow> bool option" where
  "contract_interested k = (\<lambda>(addresses, types). Some (passes addresses (k_address k) \<and> passes types (k_type k)))"

text \<open>
  Transactions. In \<open>for x in xs { if !p(x) { continue; } }\<close> the \<open>continue\<close> belongs to the inner loop: both ways it goes on with the next element.
\<close>

fun scan_calls :: "('a \<Rightarrow> bool) \<Rightarrow> 'a list \<Rightarrow> unit" where
  "scan_calls p [] = ()"
| "scan_calls p (x # xs) = (if \<not> p x then scan_calls p xs else scan_calls p xs)"

definition transaction_interested :: "transaction_update \<Rightarrow> transaction_filter option \<Rightarrow> bool option" where
  "transaction_interested t flt =
     (case flt of
        None \<Rightarrow> Some True
      | Some f \<Rightarrow>
          if tf_transaction_hashes f \<noteq> [] \<and> tx_transaction_hash t \<notin> set (tf_transaction_hashes f) then Some False
          else
            (let _ = (if tf_caller_addresses f \<noteq> [] then scan_calls (\<lambda>c. tc_caller_address c \<in> set (tf_caller_addresses f)) (tx_calls t) else ());
                 _ = (if tf_contract_addresses f \<noteq> [] then scan_calls (\<lambda>c. tc_contract_address c \<in> set (tf_contract_addresses f)) (tx_calls t) else ());
                 _ = (if tf_entrypoints f \<noteq> [] then scan_calls (\<lambda>c. tc_entrypoint c \<in> set (tf_entrypoints f)) (tx_calls t) else ());
                 _ = (if tf_model_selectors f \<noteq> [] then scan_calls (\<lambda>m. m \<in> set (tf_model_selectors f)) (tx_unique_models t) else ()) in
             if (case tf_from_block f of None \<Rightarrow> False | Some b \<Rightarrow> tx_block_number t < b) then Some False
             else if (case tf_to_block f of None \<Rightarrow> False | Some b \<Rightarrow> tx_block_number t > b) then Some False
             else Some True))"

text \<open>Activities, aggregations and achievements. \<open>str::contains\<close> looks for a substring.\<close>

definition activity_matches :: "felt list \<times> string list \<times> felt list \<Rightarrow> felt \<times> string \<times> felt \<Rightarrow> bool" where
  "activity_matches = (\<lambda>(worlds, namespaces, callers) (world, namespace, caller).
     if worlds = [] \<and> namespaces = [] \<and> callers = [] then True
     else passes worlds world \<and> passes namespaces namespace \<and> passes callers caller)"

definition aggregation_matches :: "string list \<times> string list \<Rightarrow> aggregation_entry \<Rightarrow> bool" where
  "aggregation_matches = (\<lambda>(aggregators, entities) e.
     if aggregators = [] \<and> entities = [] then True
     else passes aggregators (ag_aggregator_id e) \<and> passes entities (ag_entity_id e))"

fun starts_with :: "string \<Rightarrow> string \<Rightarrow> bool" where
  "starts_with [] _ = True"
| "starts_with (_ # _) [] = False"
| "starts_with (a # p) (b # s) = (a = b \<and> starts_with p s)"

fun contains_text :: "string \<Rightarrow> string \<Rightarrow> bool" where
  "contains_text p [] = (p = [])"
| "contains_text p (c # s) = (starts_with p (c # s) \<or> contains_text p s)"

record achievement_filter =
  af_world_addresses :: "felt list"
  af_namespaces :: "string list"
  af_player_addresses :: "felt list"
  af_achievement_ids :: "string list"

definition achievement_matches :: "achievement_filter \<Rightarrow> achievement_progression \<Rightarrow> bool" where
  "achievement_matches f p =
     (if af_world_addresses f = [] \<and> af_namespaces f = [] \<and> af_player_addresses f = [] \<and> af_achievement_ids f = [] then True
      else passes (af_world_addresses f) (ap_world_address p) \<and> passes (af_namespaces f) (ap_namespace p) \<and>
           passes (af_player_addresses f) (ap_player_id p) \<and>
           (af_achievement_ids f = [] \<or> list_ex (\<lambda>aid. contains_text aid (ap_id p)) (af_achievement_ids f)))"

section \<open>Services\<close>

text \<open>
  One service per kind of update: the loop around its filter, and a response that holds the update and, for most kinds, the identifier of the subscription
  (\<open>None\<close> is the update of the first message, which only opens the stream).
\<close>

type_synonym 'u response = "'u option \<times> u64"

definition process_entity_update ::
  "dojo_types \<Rightarrow> entity_update \<Rightarrow> (entity_filter, entity_update response) subscribers \<Rightarrow> bool \<times> (entity_filter, entity_update response) subscribers" where
  "process_entity_update D e subs = process_update (entity_interested D e) (\<lambda>idx. (Some e, idx)) subs"

definition process_event_message ::
  "dojo_types \<Rightarrow> entity_update \<Rightarrow> (entity_filter, entity_update response) subscribers \<Rightarrow> bool \<times> (entity_filter, entity_update response) subscribers" where
  "process_event_message D e subs = process_update (entity_interested D e) (\<lambda>idx. (Some e, idx)) subs"

definition process_event ::
  "felt list \<times> felt list \<times> felt \<Rightarrow> (keys_clause list, (felt list \<times> felt list \<times> felt) option) subscribers \<Rightarrow>
     bool \<times> (keys_clause list, (felt list \<times> felt list \<times> felt) option) subscribers" where
  "process_event e subs = process_update (event_interested (fst e)) (\<lambda>_. Some e) subs"

definition process_token ::
  "token_update \<Rightarrow> (felt list \<times> u256 list, token_update response) subscribers \<Rightarrow> bool \<times> (felt list \<times> u256 list, token_update response) subscribers" where
  "process_token t subs = process_update (token_interested t) (\<lambda>idx. (Some t, idx)) subs"

definition process_balance ::
  "balance_update \<Rightarrow> (felt list \<times> felt list \<times> u256 list, balance_update response) subscribers \<Rightarrow>
     bool \<times> (felt list \<times> felt list \<times> u256 list, balance_update response) subscribers" where
  "process_balance b subs = process_update (balance_interested b) (\<lambda>idx. (Some b, idx)) subs"

definition process_transfer ::
  "transfer_update \<Rightarrow> (felt list \<times> felt list \<times> u256 list, transfer_update response) subscribers \<Rightarrow>
     bool \<times> (felt list \<times> felt list \<times> u256 list, transfer_update response) subscribers" where
  "process_transfer t subs = process_update (transfer_interested t) (\<lambda>idx. (Some t, idx)) subs"

definition process_contract ::
  "contract \<Rightarrow> (felt list \<times> contract_type list, contract option) subscribers \<Rightarrow> bool \<times> (felt list \<times> contract_type list, contract option) subscribers" where
  "process_contract k subs = process_update (contract_interested k) (\<lambda>_. Some k) subs"

definition process_transaction ::
  "transaction_update \<Rightarrow> (transaction_filter option, transaction_update option) subscribers \<Rightarrow>
     bool \<times> (transaction_filter option, transaction_update option) subscribers" where
  "process_transaction t subs = process_update (transaction_interested t) (\<lambda>_. Some t) subs"

text \<open>An activity comes with its addresses as field elements, \<open>(world, namespace, caller)\<close>, beside its row.\<close>

definition process_activity_update ::
  "(felt \<times> string \<times> felt) \<times> activity \<Rightarrow> (felt list \<times> string list \<times> felt list, ((felt \<times> string \<times> felt) \<times> activity) response) subscribers \<Rightarrow>
     bool \<times> (felt list \<times> string list \<times> felt list, ((felt \<times> string \<times> felt) \<times> activity) response) subscribers" where
  "process_activity_update a subs = process_update (\<lambda>f. Some (activity_matches f (fst a))) (\<lambda>idx. (Some a, idx)) subs"

definition process_aggregation_update ::
  "aggregation_entry \<Rightarrow> (string list \<times> string list, aggregation_entry response) subscribers \<Rightarrow>
     bool \<times> (string list \<times> string list, aggregation_entry response) subscribers" where
  "process_aggregation_update e subs = process_update (\<lambda>f. Some (aggregation_matches f e)) (\<lambda>idx. (Some e, idx)) subs"

definition process_progression_update ::
  "achievement_progression \<Rightarrow> (achievement_filter, achievement_progression response) subscribers \<Rightarrow>
     bool \<times> (achievement_filter, achievement_progression response) subscribers" where
  "process_progression_update p subs = process_update (\<lambda>f. Some (achievement_matches f p)) (\<lambda>idx. (Some p, idx)) subs"

text \<open>
  A new subscriber to contracts gets all present ones before the call returns. The messages go into a channel that nobody reads yet: when it is full the call
  waits for ever, \<open>None\<close>.
\<close>

fun send_all :: "'m list \<Rightarrow> 'm channel \<Rightarrow> 'm channel option" where
  "send_all [] ch = Some ch"
| "send_all (m # ms) ch = (case try_send m ch of (Full, _) \<Rightarrow> None | (_, ch') \<Rightarrow> send_all ms ch')"

definition add_contract_subscriber ::
  "u64 \<Rightarrow> nat \<Rightarrow> 'e + contract list \<Rightarrow> felt list \<times> contract_type list \<Rightarrow> (felt list \<times> contract_type list, contract option) subscribers \<Rightarrow>
     ('e + (felt list \<times> contract_type list, contract option) subscribers) option" where
  "add_contract_subscriber i buffer_size contracts query subs =
     (case contracts of
        Inl e \<Rightarrow> Some (Inl e)
      | Inr cs \<Rightarrow>
          map_option (\<lambda>ch. Inr (al_insert i \<lparr>sub_filter = query, sub_sender = ch\<rparr> subs))
            (send_all (map Some cs) \<lparr>ch_buffer = [], ch_capacity = buffer_size, ch_closed = False\<rparr>))"

text \<open>The periodic sweep over the managers; \<open>broker_counts\<close> are the streams of the broker.\<close>

definition sweep :: "('f, 'm) subscribers list \<Rightarrow> nat list \<Rightarrow> (nat \<times> nat \<times> nat) \<times> ('f, 'm) subscribers list" where
  "sweep managers broker_counts =
     (let rs = map prune_closed managers in
      ((sum_list (map (length \<circ> snd) rs), sum_list broker_counts, sum_list (map fst rs)), map snd rs))"

section \<open>The broker\<close>

text \<open>
  \<open>crates/broker/src/memory.rs\<close>: an update is sent to every stream of its type, with a flag that tells whether it is committed yet; a
  stream is made for either kind.
\<close>

record 'm update =
  up_inner :: 'm
  up_optimistic :: bool

type_synonym 'm senders = "(nat \<times> 'm update list) list"

definition broker_publish :: "'m update \<Rightarrow> 'm senders \<Rightarrow> 'm senders" where
  "broker_publish u ss = map (\<lambda>(i, q). (i, q @ [u])) ss"

definition subscribe_raw :: "nat \<Rightarrow> 'm senders \<Rightarrow> 'm senders" where
  "subscribe_raw i ss = al_insert i [] ss"

definition drop_stream :: "nat \<Rightarrow> 'm senders \<Rightarrow> 'm senders" where
  "drop_stream i ss = al_remove i ss"

definition stream_items :: "bool \<Rightarrow> 'm update list \<Rightarrow> 'm list" where
  "stream_items optimistic us = map up_inner (filter (\<lambda>u. up_optimistic u = optimistic) us)"

end
