(* ===== verification/SubscriptionSpec.thy ===== *)
theory SubscriptionSpec
  imports Dispatch
begin

text \<open>
  What subscribers get: the dispatch of an update, and three ways in which filters do not do what they are for.
\<close>

section \<open>Dispatch\<close>

definition has_room :: "'m channel \<Rightarrow> bool" where
  "has_room ch \<longleftrightarrow> \<not> ch_closed ch \<and> length (ch_buffer ch) < ch_capacity ch"

lemma try_send_room: "try_send m ch = (if has_room ch then (Sent, ch\<lparr>ch_buffer := ch_buffer ch @ [m]\<rparr>) else (if ch_closed ch then Closed else Full, ch))"
  by (auto simp: try_send_def has_room_def)

lemma dispatch_loop_ok: "snd (snd (dispatch_loop interested resp subs)) \<longleftrightarrow> (\<forall>(i, s)\<in>set subs. interested (sub_filter s) \<noteq> None)"
proof (induction subs)
  case (Cons p subs)
  obtain i s where p: "p = (i, s)" by (cases p)
  show ?case using Cons unfolding p by (cases "interested (sub_filter s)") (auto split: prod.splits bool.splits)
qed simp

definition handed :: "('f \<Rightarrow> bool option) \<Rightarrow> (u64 \<Rightarrow> 'm) \<Rightarrow> u64 \<Rightarrow> ('f, 'm) subscriber \<Rightarrow> ('f, 'm) subscriber" where
  "handed interested resp i s =
     (if interested (sub_filter s) = Some True \<and> has_room (sub_sender s)
      then s\<lparr>sub_sender := (sub_sender s)\<lparr>ch_buffer := ch_buffer (sub_sender s) @ [resp i]\<rparr>\<rparr> else s)"

definition disconnected :: "('f \<Rightarrow> bool option) \<Rightarrow> ('f, 'm) subscriber \<Rightarrow> bool" where
  "disconnected interested s \<longleftrightarrow> interested (sub_filter s) = Some True \<and> \<not> has_room (sub_sender s)"

lemma dispatch_loop_result:
  assumes "\<forall>(i, s)\<in>set subs. interested (sub_filter s) \<noteq> None"
  shows "dispatch_loop interested resp subs =
    (map (\<lambda>(i, s). (i, handed interested resp i s)) subs, map fst (filter (\<lambda>(i, s). disconnected interested s) subs), True)"
  using assms
proof (induction subs)
  case (Cons p subs)
  obtain i s where p: "p = (i, s)" by (cases p)
  have "interested (sub_filter s) = Some True \<or> interested (sub_filter s) = Some False" using Cons.prems p by auto
  then show ?case using Cons unfolding p by (auto simp: handed_def disconnected_def try_send_room)
qed simp

lemma process_update_result:
  assumes "\<forall>(i, s)\<in>set subs. interested (sub_filter s) \<noteq> None" "al_ok subs"
  shows "process_update interested resp subs =
    (True, map (\<lambda>(i, s). (i, handed interested resp i s)) (filter (\<lambda>(i, s). \<not> disconnected interested s) subs))"
proof -
  have "(i \<notin> fst ` set (filter (\<lambda>(i, s). disconnected interested s) subs)) = (\<not> disconnected interested s)" if "(i, s) \<in> set subs" for i s
    using assms(2) that by (auto simp: al_ok_def distinct_map inj_on_def image_iff) (metis fst_conv snd_conv)
  then have "filter (\<lambda>(i, _). i \<notin> fst ` set (filter (\<lambda>(i, s). disconnected interested s) subs)) subs = filter (\<lambda>(i, s). \<not> disconnected interested s) subs"
    by (intro filter_cong) auto
  then show ?thesis
    by (simp add: process_update_def dispatch_loop_result[OF assms(1)] filter_map comp_def case_prod_unfold)
qed

lemma dispatched_lookup:
  assumes "al_ok subs"
  shows "map_of (map (\<lambda>(i, s). (i, handed interested resp i s)) (filter (\<lambda>(i, s). \<not> disconnected interested s) subs)) i =
    (case map_of subs i of None \<Rightarrow> None | Some s \<Rightarrow> if disconnected interested s then None else Some (handed interested resp i s))"
  using assms
proof (induction subs)
  case (Cons p subs)
  obtain j s where p: "p = (j, s)" by (cases p)
  have "map_of subs j = None" using Cons.prems p by (simp add: al_ok_def map_of_eq_None_iff)
  then show ?case using Cons unfolding p by (auto simp: al_ok_def)
qed simp

section \<open>Members\<close>

lemma digits_no_bracket: "CHR ''['' \<notin> set (dec_digits i)" "CHR '']'' \<notin> set (dec_digits i)"
  using dec_digits_chars[of "CHR ''[''" i] dec_digits_chars[of "CHR '']''" i] by (auto simp: dec_value_def)

lemma parse_usize_digits: "i < 2 ^ 64 \<Longrightarrow> parse_usize (dec_digits i) = Some i"
  using parse_int_text[of 0 "2 ^ 64" "int i"] by (simp add: parse_usize_def int_text_def)

lemma member_target_index:
  assumes "CHR ''['' \<notin> set field" "CHR '']'' \<notin> set field" "i < 2 ^ 64"
  shows "member_target (field @ ''['' @ dec_digits i @ '']'') = Some (field, Some i)"
proof -
  have "find_char (CHR ''['') (field @ ''['' @ dec_digits i @ '']'') = Some (length field)"
    using find_char_found[of "CHR ''[''" field "dec_digits i @ '']''"] assms(1) by simp
  moreover have "find_char (CHR '']'') (field @ ''['' @ dec_digits i @ '']'') = Some (length (field @ ''['' @ dec_digits i))"
    using find_char_found[of "CHR '']''" "field @ ''['' @ dec_digits i" "[]"] assms(2) digits_no_bracket by simp
  ultimately show ?thesis using parse_usize_digits[OF assms(3)] by (simp add: member_target_def)
qed

section \<open>Properties\<close>

text \<open>
  C16. An update is handed to exactly the subscribers whose filter it passes, once each and behind what they have been sent before; a subscriber that is
  closed or does not keep up is disconnected, and nobody else is affected.
\<close>

theorem dispatch_correct:
  assumes "al_ok subs" and "\<forall>(i, s)\<in>set subs. interested (sub_filter s) \<noteq> None"
  shows "fst (process_update interested resp subs) \<and>
    map_of (snd (process_update interested resp subs)) i =
      (case map_of subs i of
         None \<Rightarrow> None
       | Some s \<Rightarrow>
           if interested (sub_filter s) = Some False then Some s
           else if ch_closed (sub_sender s) \<or> ch_capacity (sub_sender s) \<le> length (ch_buffer (sub_sender s)) then None
           else Some (s\<lparr>sub_sender := (sub_sender s)\<lparr>ch_buffer := ch_buffer (sub_sender s) @ [resp i]\<rparr>\<rparr>))"
proof (cases "map_of subs i")
  case None
  then show ?thesis using dispatched_lookup[OF assms(1)] by (simp add: process_update_result[OF assms(2,1)])
next
  case (Some s)
  then have "interested (sub_filter s) \<noteq> None" using assms(2) map_of_SomeD by fastforce
  then have "interested (sub_filter s) = Some True \<or> interested (sub_filter s) = Some False" by auto
  then show ?thesis using Some dispatched_lookup[OF assms(1)]
    by (auto simp: process_update_result[OF assms(2,1)] handed_def disconnected_def has_room_def)
qed

definition sample_subscribers :: "(felt list \<times> u256 list, nat) subscribers" where
  "sample_subscribers =
     [(1, \<lparr>sub_filter = ([7], []), sub_sender = \<lparr>ch_buffer = [0], ch_capacity = 2, ch_closed = False\<rparr>\<rparr>),
      (2, \<lparr>sub_filter = ([8], []), sub_sender = \<lparr>ch_buffer = [0], ch_capacity = 2, ch_closed = False\<rparr>\<rparr>),
      (3, \<lparr>sub_filter = ([], []), sub_sender = \<lparr>ch_buffer = [0, 5], ch_capacity = 2, ch_closed = False\<rparr>\<rparr>)]"

definition sample_token :: token_update where
  "sample_token = \<lparr>to_token_id = None, to_contract_address = 7, to_name = ''gold'', to_symbol = ''G'', to_decimals = 18, to_metadata = [], to_total_supply = None\<rparr>"

theorem dispatch_correct_witness:
  "map_of (snd (process_update (token_interested sample_token) (\<lambda>_. 9) sample_subscribers)) 1 =
     Some \<lparr>sub_filter = ([7], []), sub_sender = \<lparr>ch_buffer = [0, 9], ch_capacity = 2, ch_closed = False\<rparr>\<rparr> \<and>
   map_of (snd (process_update (token_interested sample_token) (\<lambda>_. 9) sample_subscribers)) 3 = None"
proof -
  have "al_ok sample_subscribers" "\<forall>(i, s)\<in>set sample_subscribers. token_interested sample_token (sub_filter s) \<noteq> None"
    by (simp_all add: sample_subscribers_def al_ok_def token_interested_def)
  from dispatch_correct[OF this, of "\<lambda>_. 9" 1] dispatch_correct[OF this, of "\<lambda>_. 9" 3] show ?thesis
    by (simp add: sample_subscribers_def sample_token_def token_interested_def passes_def token_passes_def)
qed

text \<open>
  A transaction subscription ignores most of its filter. A subscriber with a filter and room in its channel gets a transaction if and only if its hash is among
  the wanted ones and its block is in the range: the callers, contracts, entry points and models the filter names make no difference, since the loops over
  them only skip to their own next round.
\<close>

theorem transaction_filters_ignored:
  assumes "al_ok subs" and "map_of subs i = Some s" and "sub_filter s = Some f" and "has_room (sub_sender s)"
  shows "map_of (snd (process_transaction t subs)) i =
    Some (if passes (tf_transaction_hashes f) (tx_transaction_hash t) \<and> (\<forall>b. tf_from_block f = Some b \<longrightarrow> b \<le> tx_block_number t) \<and>
             (\<forall>b. tf_to_block f = Some b \<longrightarrow> tx_block_number t \<le> b)
          then s\<lparr>sub_sender := (sub_sender s)\<lparr>ch_buffer := ch_buffer (sub_sender s) @ [Some t]\<rparr>\<rparr> else s)"
proof -
  have total: "\<forall>(j, s)\<in>set subs. transaction_interested t (sub_filter s) \<noteq> None"
    by (auto simp: transaction_interested_def Let_def split: option.splits)
  have "transaction_interested t (Some f) = Some (passes (tf_transaction_hashes f) (tx_transaction_hash t) \<and>
      (\<forall>b. tf_from_block f = Some b \<longrightarrow> b \<le> tx_block_number t) \<and> (\<forall>b. tf_to_block f = Some b \<longrightarrow> tx_block_number t \<le> b))"
    by (auto simp: transaction_interested_def passes_def split: option.splits)
  moreover have "map_of (snd (process_transaction t subs)) i =
      (if disconnected (transaction_interested t) s then None else Some (handed (transaction_interested t) (\<lambda>_. Some t) i s))"
    unfolding process_transaction_def process_update_result[OF total assms(1)] snd_conv dispatched_lookup[OF assms(1)] using assms(2) by simp
  ultimately show ?thesis using assms(3,4) by (simp add: handed_def disconnected_def)
qed

definition sample_transaction :: transaction_update where
  "sample_transaction = \<lparr>tx_transaction_hash = 5, tx_sender_address = 6, tx_calldata = [], tx_max_fee = 0, tx_signature = [], tx_nonce = 0, tx_block_number = 10,
     tx_transaction_type = ''INVOKE'', tx_block_timestamp = 0, tx_calls = [\<lparr>tc_contract_address = 1, tc_entrypoint = ''move'', tc_calldata = [],
       tc_call_type = CallExecute, tc_caller_address = 6\<rparr>], tx_unique_models = []\<rparr>"

definition entrypoint_filter :: transaction_filter where
  "entrypoint_filter = \<lparr>tf_transaction_hashes = [], tf_caller_addresses = [], tf_contract_addresses = [], tf_entrypoints = [''attack''], tf_model_selectors = [],
     tf_from_block = Some 3, tf_to_block = None\<rparr>"

theorem transaction_filters_ignored_witness:
  "map_of (snd (process_transaction sample_transaction
      [(1, \<lparr>sub_filter = Some entrypoint_filter, sub_sender = \<lparr>ch_buffer = [None], ch_capacity = 4, ch_closed = False\<rparr>\<rparr>)])) 1 =
     Some \<lparr>sub_filter = Some entrypoint_filter, sub_sender = \<lparr>ch_buffer = [None, Some sample_transaction], ch_capacity = 4, ch_closed = False\<rparr>\<rparr>"
  by (subst transaction_filters_ignored[where f = entrypoint_filter])
    (auto simp: al_ok_def has_room_def passes_def entrypoint_filter_def sample_transaction_def)

text \<open>
  A clause on an element of an array never matches in a subscription: the index is cut off the member's name, but when the path ends at the array it is the
  array as a whole that is compared, which fails for every comparison of elements.
\<close>

theorem indexed_member_never_matches:
  assumes "CHR ''['' \<notin> set field" and "CHR '']'' \<notin> set field" and "CHR ''.'' \<notin> set field" and "i < 2 ^ 64"
    and "mc_member mc = field @ ''['' @ dec_digits i @ '']''" and "mc_operator mc \<in> {Eq, Neq, Gt, Gte, Lt, Lte, In, NotIn}"
    and "List.find (\<lambda>m. mb_name m = field) children = Some m" and "mb_ty m = Array es \<or> mb_ty m = FixedSizeArray es n"
  shows "match_entity D hashed keys (Some (Struct name children)) (MemberC mc) = Some False"
proof -
  have "member_target (mc_member mc) = Some (field, Some i)" unfolding assms(5) by (rule member_target_index[OF assms(1,2,4)])
  moreover have "\<not> compare_final D mc (mb_ty m)"
    using assms(6,8) by (cases "mc_value mc") (auto simp: compare_final_def compare_array_def)
  ultimately show ?thesis using assms(3,7) by (simp add: match_member_def split_on_last)
qed

definition sample_types :: dojo_types where
  "sample_types = \<lparr>dt_name = (\<lambda>t. case t of Struct n _ \<Rightarrow> n | Enum n _ _ \<Rightarrow> n | _ \<Rightarrow> []), dt_sql_value = (\<lambda>_. []), dt_sql_type = (\<lambda>_. ''TEXT''),
     dt_enum_sql_value = (\<lambda>_ _. []), dt_enum_option = (\<lambda>_ _. None), dt_set_option = (\<lambda>_ _. Inl []), dt_to_json = (\<lambda>_. Inr JNull),
     dt_from_json = (\<lambda>t _. Inr t), dt_less = (\<lambda>_ _. False), dt_less_eq = (\<lambda>_ _. False), dt_as_u32 = (\<lambda>_. None)\<rparr>"

theorem indexed_member_never_matches_witness:
  "match_entity sample_types 1 [] (Some (Struct ''ns-Board'' [Member ''cells'' (Array [Primitive (U8 (Some 5))]) False]))
     (MemberC \<lparr>mc_model = ''ns-Board'', mc_member = ''cells['' @ dec_digits 0 @ '']'', mc_operator = Eq, mc_value = MPrimitive (U8 (Some 5))\<rparr>) = Some False"
  by (rule indexed_member_never_matches[where field = "''cells''" and i = 0 and m = "Member ''cells'' (Array [Primitive (U8 (Some 5))]) False"
        and es = "[Primitive (U8 (Some 5))]"]) simp_all

text \<open>
  C40. A subscriber can stop the service: a clause on a member whose name has a closing bracket before the first opening one makes the match panic as soon as
  an entity of that model is updated, and the panic ends the dispatch to all subscribers.
\<close>

theorem malformed_member_stops_service:
  assumes "(i, s) \<in> set subs" and "sub_filter s = \<lparr>ef_clause = Some (MemberC mc), ef_world_addresses = []\<rparr>"
    and "eu_match_model e = Some m" and "dt_name D m = mc_model mc"
    and "find_char (CHR ''['') (mc_member mc) = Some a" and "find_char (CHR '']'') (mc_member mc) = Some b" and "b < a"
  shows "\<not> fst (process_entity_update D e subs)"
proof -
  have "entity_interested D e (sub_filter s) = None"
    using assms(2-7) by (simp add: entity_interested_def match_member_def member_target_def)
  then have "\<not> snd (snd (dispatch_loop (entity_interested D e) (\<lambda>idx. (Some e, idx)) subs))"
    using assms(1) unfolding dispatch_loop_ok by (intro notI) (drule bspec, assumption, simp)
  then show ?thesis by (auto simp: process_entity_update_def process_update_def split: prod.splits)
qed

definition sample_update :: entity_update where
  "sample_update = \<lparr>eu_world_address = 1, eu_hashed_keys = 2, eu_models = [], eu_event_id = [], eu_keys = [], eu_deleted = False,
     eu_match_model = Some (Struct ''ns-Board'' [])\<rparr>"

theorem malformed_member_stops_service_witness:
  "\<not> fst (process_entity_update sample_types sample_update
     [(4, \<lparr>sub_filter = \<lparr>ef_clause = Some (MemberC \<lparr>mc_model = ''ns-Board'', mc_member = ''a]['', mc_operator = Eq, mc_value = MString ''x''\<rparr>),
            ef_world_addresses = []\<rparr>, sub_sender = \<lparr>ch_buffer = [], ch_capacity = 2, ch_closed = False\<rparr>\<rparr>)])"
  by (rule malformed_member_stops_service[where i = 4 and a = 2 and b = 1 and m = "Struct ''ns-Board'' []"
        and mc = "\<lparr>mc_model = ''ns-Board'', mc_member = ''a]['', mc_operator = Eq, mc_value = MString ''x''\<rparr>", OF list.set_intros(1)])
    (simp_all add: sample_update_def sample_types_def)

lemma send_all_room:
  "\<not> ch_closed ch \<Longrightarrow> send_all ms ch =
     (if length (ch_buffer ch) + length ms \<le> ch_capacity ch \<or> ms = [] then Some (ch\<lparr>ch_buffer := ch_buffer ch @ ms\<rparr>) else None)"
  by (induction ms ch rule: send_all.induct) (auto simp: try_send_def)

lemma contract_subscription_blocks:
  "add_contract_subscriber i n (Inr cs) q subs = None \<longleftrightarrow> cs \<noteq> [] \<and> n < length cs"
  by (auto simp: add_contract_subscriber_def send_all_room)

end
