(* ===== verification/Activity.thy ===== *)
theory Activity
  imports Updates Database
begin

text \<open>
  Activity sessions (\<open>crates/sqlite/sqlite/src/executor/activity.rs\<close>): the calls of an account within a world and namespace are grouped into sessions, which a gap
  longer than a timeout ends.

  Times are in seconds, as block timestamps are. Which of several sessions that end at the same time is the most recent one is SQLite's choice, the
  parameter \<open>se_newest\<close>. Counters wrap, as in a release build; the text of a map of counts is JSON.
\<close>

section \<open>Sessions\<close>

record session_env =
  se_json :: json_text
  se_newest :: "activity list \<Rightarrow> activity option"

type_synonym ('s, 'a) table_query = "('s, query_error, 'a) stateful"

text \<open>\<open>IndexMap<String, u32>\<close> from its text: every value has to be a number that fits.\<close>

fun as_counts :: "json \<Rightarrow> (string \<times> 32 word) list option" where
  "as_counts (JObject []) = Some []"
| "as_counts (JObject ((k, v) # m)) =
     (case (v, as_counts (JObject m)) of
        (JU64 n, Some cs) \<Rightarrow> if unat n < 2 ^ 32 then Some ((k, ucast n) # cs) else None
      | _ \<Rightarrow> None)"
| "as_counts _ = None"

definition action_counts :: "json_text \<Rightarrow> string \<Rightarrow> (string \<times> 32 word) list" where
  "action_counts J s =
     (case json_from_str J s of
        Inl _ \<Rightarrow> []
      | Inr j \<Rightarrow> (case as_counts j of None \<Rightarrow> [] | Some cs \<Rightarrow> cs))"

definition counts_text :: "json_text \<Rightarrow> (string \<times> 32 word) list \<Rightarrow> string" where
  "counts_text J cs = json_to_string J (JObject (map (\<lambda>(k, n). (k, JU64 (ucast n))) cs))"

definition session_id :: "string \<Rightarrow> string \<Rightarrow> string \<Rightarrow> int \<Rightarrow> string" where
  "session_id world namespace caller t = world @ '':'' @ namespace @ '':'' @ caller @ '':'' @ int_text t"

definition create_new_session ::
  "session_env \<Rightarrow> string \<Rightarrow> string \<Rightarrow> string \<Rightarrow> string \<Rightarrow> int \<Rightarrow> (activity list, activity) table_query" where
  "create_new_session S world namespace caller entrypoint executed_at rows =
     (let a = \<lparr>ac_id = session_id world namespace caller executed_at, ac_world_address = world, ac_namespace = namespace, ac_caller_address = caller,
               ac_session_start = executed_at, ac_session_end = executed_at, ac_action_count = 1, ac_actions = counts_text (se_json S) [(entrypoint, 1)]\<rparr> in
      if ac_id a \<in> set (map ac_id rows) then (Inl (QSqlx ''UNIQUE constraint failed''), rows) else (Inr a, rows @ [a]))"

definition own_sessions :: "string \<Rightarrow> string \<Rightarrow> string \<Rightarrow> activity list \<Rightarrow> activity list" where
  "own_sessions world namespace caller rows =
     filter (\<lambda>a. ac_world_address a = world \<and> ac_namespace a = namespace \<and> ac_caller_address a = caller) rows"

definition continued_session :: "session_env \<Rightarrow> string \<Rightarrow> int \<Rightarrow> activity \<Rightarrow> activity" where
  "continued_session S entrypoint executed_at a =
     a\<lparr>ac_session_end := executed_at, ac_action_count := ac_action_count a + 1,
       ac_actions := counts_text (se_json S) (al_upsert entrypoint (\<lambda>n. n + 1) 1 (action_counts (se_json S) (ac_actions a)))\<rparr>"

definition update_activity ::
  "session_env \<Rightarrow> string \<Rightarrow> string \<Rightarrow> string \<Rightarrow> string \<Rightarrow> int \<Rightarrow> u64 \<Rightarrow> string list \<Rightarrow> (activity list, activity option) table_query" where
  "update_activity S world namespace caller entrypoint executed_at session_timeout excluded rows =
     (if entrypoint \<in> set excluded then (Inr None, rows)
      else
        (let create = (case create_new_session S world namespace caller entrypoint executed_at rows of
                         (Inl e, rows') \<Rightarrow> (Inl e, rows') | (Inr a, rows') \<Rightarrow> (Inr (Some a), rows')) in
         case se_newest S (own_sessions world namespace caller rows) of
           None \<Rightarrow> create
         | Some recent \<Rightarrow>
             if executed_at - ac_session_end recent \<le> sint session_timeout
             then let a = continued_session S entrypoint executed_at recent in
                  (Inr (Some a), map (\<lambda>r. if ac_id r = ac_id recent then a else r) rows)
             else create))"

text \<open>The date \<open>days_to_keep\<close> before now, and the sessions that ended earlier deleted.\<close>

definition cleanup_old_activities :: "int \<Rightarrow> int \<Rightarrow> activity list \<Rightarrow> nat \<times> activity list" where
  "cleanup_old_activities now days_to_keep rows =
     (let cutoff_date = now - 86400 * days_to_keep; rows' = filter (\<lambda>a. \<not> ac_session_end a < cutoff_date) rows in
      (length rows - length rows', rows'))"

section \<open>Sessions of chronological calls\<close>

text \<open>SQLite's choice: a session that ends last.\<close>

locale newest_session =
  fixes S :: session_env
  assumes newest_none: "se_newest S [] = None"
    and newest_max: "rows \<noteq> [] \<Longrightarrow> \<exists>a. se_newest S rows = Some a \<and> a \<in> set rows \<and> (\<forall>b\<in>set rows. ac_session_end b \<le> ac_session_end a)"

text \<open>
  The abstract sessions of a sequence of times: first and last time and the number of calls. A time belongs to the last session if it is at most the timeout
  behind its end.
\<close>

text \<open>The groups of a sequence of times: consecutive times at most \<open>d\<close> apart are in one group.\<close>

fun call_groups :: "int \<Rightarrow> int list \<Rightarrow> int list list" where
  "call_groups d [] = []"
| "call_groups d (t # ts) =
     (case call_groups d ts of [] \<Rightarrow> [[t]] | g # gs \<Rightarrow> if hd g - t \<le> d then (t # g) # gs else [t] # g # gs)"

fun add_call :: "int \<Rightarrow> int \<Rightarrow> (int \<times> int \<times> nat) list \<Rightarrow> (int \<times> int \<times> nat) list" where
  "add_call timeout t [] = [(t, t, 1)]"
| "add_call timeout t [(a, b, n)] = (if t - b \<le> timeout then [(a, t, Suc n)] else [(a, b, n), (t, t, 1)])"
| "add_call timeout t (x # y # ss) = x # add_call timeout t (y # ss)"

definition sessions_of :: "int \<Rightarrow> int list \<Rightarrow> (int \<times> int \<times> nat) list" where
  "sessions_of timeout ts = fold (add_call timeout) ts []"

lemma groups_concat: "concat (call_groups d ts) = ts"
  by (induction ts) (auto split: list.splits)

lemma groups_nonempty: "\<forall>g\<in>set (call_groups d ts). g \<noteq> []"
  by (induction ts) (auto split: list.splits)

definition session_view :: "activity \<Rightarrow> int \<times> int \<times> 32 word" where
  "session_view a = (ac_session_start a, ac_session_end a, ac_action_count a)"

definition abstract_view :: "int \<times> int \<times> nat \<Rightarrow> int \<times> int \<times> 32 word" where
  "abstract_view s = (fst s, fst (snd s), of_nat (snd (snd s)))"

text \<open>The calls of one account, one after the other, each in a transaction of its own.\<close>

fun record_calls ::
  "session_env \<Rightarrow> string \<Rightarrow> string \<Rightarrow> string \<Rightarrow> u64 \<Rightarrow> string list \<Rightarrow> (int \<times> string) list \<Rightarrow> (activity list, unit) table_query" where
  "record_calls S w n c timeout excluded [] rows = (Inr (), rows)"
| "record_calls S w n c timeout excluded ((t, e) # calls) rows =
     (case update_activity S w n c e t timeout excluded rows of
        (Inl err, rows') \<Rightarrow> (Inl err, rows')
      | (Inr _, rows') \<Rightarrow> record_calls S w n c timeout excluded calls rows')"

lemma add_call_snoc:
  "add_call timeout t (ss @ [(a, b, n)]) = ss @ (if t - b \<le> timeout then [(a, t, Suc n)] else [(a, b, n), (t, t, 1)])"
  by (induction ss rule: induct_list012) auto

lemma int_text_inj [simp]: "int_text s = int_text t \<longleftrightarrow> s = t"
  by (metis signed_int_text option.inject)

lemma session_id_inj [simp]: "session_id w n c s = session_id w n c t \<longleftrightarrow> s = t"
  by (simp add: session_id_def)

lemma own_sessions_append [simp]: "own_sessions w n c (xs @ ys) = own_sessions w n c xs @ own_sessions w n c ys"
  by (simp add: own_sessions_def)

lemma view_source:
  assumes "map session_view os = map abstract_view ss" "r \<in> set os"
  obtains s where "s \<in> set ss" "ac_session_start r = fst s" "ac_session_end r = fst (snd s)"
proof -
  have "session_view r \<in> session_view ` set os" using assms(2) by simp
  also have "\<dots> = abstract_view ` set ss" using arg_cong[OF assms(1), of set] by simp
  finally show thesis using that by (auto simp: session_view_def abstract_view_def)
qed

text \<open>The stored sessions of the account are the abstract ones, in order and apart; no other row has an identifier the account could get.\<close>

definition sessions_inv :: "string \<Rightarrow> string \<Rightarrow> string \<Rightarrow> int \<Rightarrow> (int \<times> int \<times> nat) list \<Rightarrow> activity list \<Rightarrow> bool" where
  "sessions_inv w n c now ss rows \<longleftrightarrow>
     map session_view (own_sessions w n c rows) = map abstract_view ss \<and>
     (\<forall>a\<in>set rows. \<forall>t. ac_id a = session_id w n c t \<longleftrightarrow> a \<in> set (own_sessions w n c rows) \<and> t = ac_session_start a) \<and>
     sorted_wrt (\<lambda>s s'. fst (snd s) < fst s') ss \<and> (\<forall>s\<in>set ss. fst s \<le> fst (snd s) \<and> fst (snd s) \<le> now)"

lemma create_keeps_inv:
  assumes inv: "sessions_inv w n c now ss rows" and t: "now \<le> t" "\<forall>s\<in>set ss. fst (snd s) < t"
  obtains a rows' where "create_new_session S w n c e t rows = (Inr a, rows')" "sessions_inv w n c t (ss @ [(t, t, 1)]) rows'"
proof -
  let ?a = "\<lparr>ac_id = session_id w n c t, ac_world_address = w, ac_namespace = n, ac_caller_address = c, ac_session_start = t, ac_session_end = t,
             ac_action_count = 1, ac_actions = counts_text (se_json S) [(e, 1)]\<rparr>"
  have before: "ac_session_start a < t" if "a \<in> set (own_sessions w n c rows)" for a
  proof -
    obtain s where "s \<in> set ss" "ac_session_start a = fst s" using view_source inv \<open>a \<in> set _\<close> unfolding sessions_inv_def by metis
    moreover have "fst s \<le> fst (snd s)" "fst (snd s) < t" using inv t(2) \<open>s \<in> set ss\<close> by (auto simp: sessions_inv_def)
    ultimately show ?thesis by simp
  qed
  have fresh: "session_id w n c t \<noteq> ac_id r" if "r \<in> set rows" for r
    using inv that before[of r] unfolding sessions_inv_def by (metis order_less_irrefl)
  have own: "own_sessions w n c [?a] = [?a]" by (simp add: own_sessions_def)
  have keys: "ac_id r = session_id w n c s \<longleftrightarrow> r \<in> set (own_sessions w n c rows @ [?a]) \<and> s = ac_session_start r"
    if "r \<in> set (rows @ [?a])" for r s
  proof (cases "r = ?a")
    case False
    then have "r \<in> set rows" using that by simp
    then show ?thesis using inv False unfolding sessions_inv_def by simp
  qed auto
  have "sorted_wrt (\<lambda>s s'. fst (snd s) < fst s') (ss @ [(t, t, 1)])" "\<forall>s\<in>set (ss @ [(t, t, 1)]). fst s \<le> fst (snd s) \<and> fst (snd s) \<le> t"
    "map session_view (own_sessions w n c rows @ [?a]) = map abstract_view (ss @ [(t, t, 1)])"
    using inv t by (force simp: sessions_inv_def sorted_wrt_append session_view_def abstract_view_def)+
  then have "sessions_inv w n c t (ss @ [(t, t, 1)]) (rows @ [?a])"
    unfolding sessions_inv_def own_sessions_append own using keys by blast
  then show thesis using fresh by (intro that[of ?a "rows @ [?a]"]) (auto simp: create_new_session_def Let_def)
qed

lemma continue_keeps_inv:
  assumes inv: "sessions_inv w n c now (ss @ [(a, b, k)]) rows" and t: "now \<le> t" and own: "own_sessions w n c rows = os @ [x]"
  shows "sessions_inv w n c t (ss @ [(a, t, Suc k)]) (map (\<lambda>r. if ac_id r = ac_id x then continued_session S e t x else r) rows)"
proof -
  let ?x = "continued_session S e t x" and ?f = "\<lambda>r. if ac_id r = ac_id x then continued_session S e t x else r"
  have x: "ac_session_start x = a" "ac_session_end x = b" "ac_action_count x = of_nat k" and os: "map session_view os = map abstract_view ss"
    using inv unfolding sessions_inv_def own by (simp_all add: session_view_def abstract_view_def)
  have mem: "x \<in> set rows" "ac_world_address x = w" "ac_namespace x = n" "ac_caller_address x = c"
    using arg_cong[OF own, of set] by (auto simp: own_sessions_def)
  have id: "ac_id r = session_id w n c s \<longleftrightarrow> r \<in> set (os @ [x]) \<and> s = ac_session_start r" if "r \<in> set rows" for r s
    using inv that unfolding sessions_inv_def own by blast
  have idx: "ac_id x = session_id w n c a" using id[OF mem(1)] x by simp
  have starts: "ac_session_start r < a" if "r \<in> set os" for r
  proof -
    obtain s where s: "s \<in> set ss" "ac_session_start r = fst s" using view_source[OF os \<open>r \<in> set os\<close>] .
    then have "fst s \<le> fst (snd s)" "fst (snd s) < a" using inv by (auto simp: sessions_inv_def sorted_wrt_append)
    then show ?thesis using s(2) by simp
  qed
  have ownr: "r \<in> set (os @ [x]) \<longleftrightarrow> r \<in> set rows \<and> ac_world_address r = w \<and> ac_namespace r = n \<and> ac_caller_address r = c" for r
    unfolding own[symmetric] by (auto simp: own_sessions_def)
  have f: "?f r = (if r = x \<or> (r \<in> set (os @ [x]) \<and> ac_session_start r = a) then ?x else r)" if "r \<in> set rows" for r
    using id[OF that] idx x mem by auto
  have fos: "map ?f os = os" using starts id idx ownr by (intro map_idI) fastforce
  have same: "ac_world_address r = w \<and> ac_namespace r = n \<and> ac_caller_address r = c" if "r \<in> set rows" "ac_id r = ac_id x" for r
    using id[OF that(1), of a] that(2) idx ownr by metis
  have "own_sessions w n c (map ?f rows) = map ?f (own_sessions w n c rows)"
    unfolding own_sessions_def filter_map
    by (intro arg_cong[of _ _ "map ?f"] filter_cong) (use same in \<open>auto simp: continued_session_def mem\<close>)
  also have "\<dots> = os @ [?x]" unfolding own using fos by simp
  finally have own': "own_sessions w n c (map ?f rows) = os @ [?x]" .
  have ids: "ac_id (?f r) = ac_id r" "ac_session_start ?x = a" "ac_id ?x = ac_id x" for r by (simp_all add: continued_session_def x)
  have keys: "ac_id (?f r) = session_id w n c s \<longleftrightarrow> ?f r \<in> set (os @ [?x]) \<and> s = ac_session_start (?f r)" if r: "r \<in> set rows" for r s
  proof (cases "ac_id r = ac_id x")
    case True
    then show ?thesis using ids idx by auto
  next
    case False
    then have "r \<noteq> x" by auto
    moreover have "r \<noteq> ?x" using False ids by auto
    ultimately show ?thesis using False id[OF r] by simp
  qed
  have "session_view ?x = abstract_view (a, t, Suc k)" by (simp add: session_view_def abstract_view_def continued_session_def x)
  then have views: "map session_view (os @ [?x]) = map abstract_view (ss @ [(a, t, Suc k)])" using os by simp
  have order: "sorted_wrt (\<lambda>s s'. fst (snd s) < fst s') (ss @ [(a, t, Suc k)])" "\<forall>s\<in>set (ss @ [(a, t, Suc k)]). fst s \<le> fst (snd s) \<and> fst (snd s) \<le> t"
    using inv t by (force simp: sessions_inv_def sorted_wrt_append)+
  show ?thesis unfolding sessions_inv_def own' using views order keys by (simp only: set_map ball_simps) blast
qed

context newest_session
begin

lemma newest_own:
  assumes inv: "sessions_inv w n c now ss rows" and own: "own_sessions w n c rows = os @ [x]"
  shows "se_newest S (own_sessions w n c rows) = Some x"
proof -
  obtain y where y: "se_newest S (os @ [x]) = Some y" "y \<in> set (os @ [x])" "ac_session_end x \<le> ac_session_end y"
    using newest_max[of "os @ [x]"] by auto
  obtain ss' s where ss: "ss = ss' @ [s]" "session_view x = abstract_view s" "map session_view os = map abstract_view ss'"
    using inv unfolding sessions_inv_def own by (cases ss rule: rev_cases) auto
  have "ac_session_end r < ac_session_end x" if r: "r \<in> set os" for r
  proof -
    obtain s' where "s' \<in> set ss'" "ac_session_end r = fst (snd s')" using view_source[OF ss(3) r] .
    moreover have "fst (snd s') < fst s" "fst s \<le> fst (snd s)" using inv \<open>s' \<in> set ss'\<close> unfolding ss(1) by (auto simp: sessions_inv_def sorted_wrt_append)
    ultimately show ?thesis using ss(2) by (simp add: session_view_def abstract_view_def)
  qed
  then have "y = x" using y by (auto simp: not_le[symmetric])
  then show ?thesis using y own by simp
qed

lemma update_step:
  assumes inv: "sessions_inv w n c now ss rows" and t: "now \<le> t" and timeout: "0 \<le> sint timeout" and e: "e \<notin> set excluded"
  obtains a rows' where "update_activity S w n c e t timeout excluded rows = (Inr (Some a), rows')"
    "sessions_inv w n c t (add_call (sint timeout) t ss) rows'"
proof (cases ss rule: rev_cases)
  case Nil
  then have "own_sessions w n c rows = []" using inv by (simp add: sessions_inv_def)
  moreover obtain a rows' where "create_new_session S w n c e t rows = (Inr a, rows')" "sessions_inv w n c t ([] @ [(t, t, 1)]) rows'"
    by (rule create_keeps_inv[OF inv[unfolded Nil] t]) auto
  ultimately show thesis using e Nil newest_none by (intro that[of a rows']) (simp_all add: update_activity_def)
next
  case (snoc ss' s)
  obtain b l k where s: "s = (b, l, k)" by (cases s)
  obtain os x where own: "own_sessions w n c rows = os @ [x]" and x: "session_view x = abstract_view s"
    using inv unfolding snoc sessions_inv_def by (cases "own_sessions w n c rows" rule: rev_cases) auto
  have l: "ac_session_end x = l" using x by (simp add: s session_view_def abstract_view_def)
  note newest = newest_own[OF inv own]
  show thesis
  proof (cases "t - l \<le> sint timeout")
    case True
    have "sessions_inv w n c t (add_call (sint timeout) t ss) (map (\<lambda>r. if ac_id r = ac_id x then continued_session S e t x else r) rows)"
      using continue_keeps_inv[OF inv[unfolded snoc s] t own] True by (simp add: snoc s add_call_snoc)
    then show thesis using e newest True l by (intro that) (simp_all add: update_activity_def Let_def)
  next
    case False
    then have "\<forall>s\<in>set ss. fst (snd s) < t" using inv timeout by (fastforce simp: snoc s sessions_inv_def sorted_wrt_append)
    then obtain a rows' where "create_new_session S w n c e t rows = (Inr a, rows')" "sessions_inv w n c t (ss @ [(t, t, 1)]) rows'"
      using create_keeps_inv[OF inv t] by blast
    then show thesis using e newest False l by (intro that[of a rows']) (simp_all add: update_activity_def snoc s add_call_snoc)
  qed
qed

lemma record_calls_sessions:
  assumes "sessions_inv w n c now ss rows" "sorted (now # map fst calls)" "0 \<le> sint timeout"
  shows "\<exists>rows' now'. record_calls S w n c timeout excluded calls rows = (Inr (), rows') \<and>
     sessions_inv w n c now' (fold (add_call (sint timeout)) (map fst (filter (\<lambda>x. snd x \<notin> set excluded) calls)) ss) rows'"
  using assms
proof (induction calls arbitrary: now ss rows)
  case (Cons call calls)
  obtain t e where call: "call = (t, e)" by (cases call)
  have t: "now \<le> t" "sorted (t # map fst calls)" using Cons.prems(2) by (simp_all add: call)
  show ?case
  proof (cases "e \<in> set excluded")
    case True
    then have u: "update_activity S w n c e t timeout excluded rows = (Inr None, rows)" by (simp add: update_activity_def)
    have "sorted (now # map fst calls)" using Cons.prems(2) by simp
    then show ?thesis using Cons.IH[OF Cons.prems(1) _ Cons.prems(3)] True u by (simp add: call)
  next
    case False
    obtain a rows' where u: "update_activity S w n c e t timeout excluded rows = (Inr (Some a), rows')"
      and inv: "sessions_inv w n c t (add_call (sint timeout) t ss) rows'" by (rule update_step[OF Cons.prems(1) t(1) Cons.prems(3) False])
    show ?thesis using Cons.IH[OF inv t(2) Cons.prems(3)] False u by (simp add: call)
  qed

qed auto

end

text \<open>No session of the account, and no identifier that could be one of its.\<close>

definition foreign_rows :: "string \<Rightarrow> string \<Rightarrow> string \<Rightarrow> activity list \<Rightarrow> bool" where
  "foreign_rows w n c rows \<longleftrightarrow>
     (let p = w @ '':'' @ n @ '':'' @ c @ '':'' in own_sessions w n c rows = [] \<and> list_all (\<lambda>a. take (length p) (ac_id a) \<noteq> p) rows)"

lemma foreign_rows_inv:
  assumes "foreign_rows w n c rows"
  shows "sessions_inv w n c now [] rows"
proof -
  have "ac_id a \<noteq> session_id w n c t" if "a \<in> set rows" for a t
  proof
    assume "ac_id a = session_id w n c t"
    moreover have "session_id w n c t = (w @ '':'' @ n @ '':'' @ c @ '':'') @ int_text t" by (simp add: session_id_def)
    ultimately have "take (length (w @ '':'' @ n @ '':'' @ c @ '':'')) (ac_id a) = w @ '':'' @ n @ '':'' @ c @ '':''"
      by (metis append_eq_conv_conj)
    then show False using assms that unfolding foreign_rows_def Let_def list_all_iff by blast
  qed
  then show ?thesis using assms by (simp add: sessions_inv_def foreign_rows_def Let_def)
qed

lemma groups_head: "\<exists>g gs. call_groups d (t # ts) = (t # g) # gs"
  by (auto split: list.splits)

lemma groups_snoc:
  "ts \<noteq> [] \<Longrightarrow> call_groups d (ts @ [t]) =
     (if t - last ts \<le> d then butlast (call_groups d ts) @ [last (call_groups d ts) @ [t]] else call_groups d ts @ [[t]])"
proof (induction ts rule: induct_list012)
  case (3 a b r)
  obtain g gs where g: "call_groups d (b # r) = (b # g) # gs" using groups_head by blast
  show ?case using 3(2) unfolding append_Cons call_groups.simps(2)[of d a] using g by (cases gs) (auto split: list.splits)
qed auto

lemma sessions_of_snoc: "sessions_of d (ts @ [t]) = add_call d t (sessions_of d ts)"
  by (simp add: sessions_of_def)

lemma sessions_of_groups: "sessions_of d ts = map (\<lambda>g. (hd g, last g, length g)) (call_groups d ts)"
proof (induction ts rule: rev_induct)
  case (snoc t ts)
  show ?case
  proof (cases "call_groups d ts" rule: rev_cases)
    case Nil
    then have "concat (call_groups d ts) = []" by simp
    then have "ts = []" unfolding groups_concat .
    then show ?thesis by (simp add: sessions_of_def)
  next
    case (snoc gs g)
    then have "ts \<noteq> []" by auto
    have "concat (call_groups d ts) = ts" "\<forall>g\<in>set (call_groups d ts). g \<noteq> []" by (rule groups_concat, rule groups_nonempty)
    then have "last g = last ts" "g \<noteq> []" unfolding snoc by auto
    then show ?thesis using groups_snoc[OF \<open>ts \<noteq> []\<close>, of d t] \<open>sessions_of d ts = _\<close>
      by (simp add: sessions_of_snoc snoc add_call_snoc)
  qed
qed (simp add: sessions_of_def)

text \<open>
  C17. Let the calls of one account in a world and namespace be recorded in order of time, in a table that has no sessions of the account yet.
  Every update succeeds, and the account's stored sessions are the maximal groups of the calls of not excluded entrypoints in which consecutive
  calls are at most the timeout apart: their first time, their last time and their number of calls (modulo \<open>2 ^ 32\<close>).
\<close>

theorem sessions_group_calls:
  assumes "newest_session S" "0 \<le> sint timeout" "sorted (map fst calls)" "foreign_rows w n c rows"
  shows "\<exists>rows'. record_calls S w n c timeout excluded calls rows = (Inr (), rows') \<and>
     map session_view (own_sessions w n c rows') =
       map (\<lambda>g. (hd g, last g, of_nat (length g))) (call_groups (sint timeout) (map fst (filter (\<lambda>x. snd x \<notin> set excluded) calls)))"
proof -
  have "sorted ((if calls = [] then 0 else fst (hd calls)) # map fst calls)" using assms(3) by (cases calls) auto
  from newest_session.record_calls_sessions[OF assms(1) foreign_rows_inv[OF assms(4)] this assms(2)]
  show ?thesis
    unfolding sessions_of_def[symmetric] sessions_of_groups by (fastforce simp: sessions_inv_def abstract_view_def o_def)
qed

fun last_ended :: "activity list \<Rightarrow> activity option" where
  "last_ended [] = None"
| "last_ended (a # rows) =
     (case last_ended rows of None \<Rightarrow> Some a | Some b \<Rightarrow> Some (if ac_session_end b \<le> ac_session_end a then a else b))"

lemma last_ended_max:
  "rows \<noteq> [] \<Longrightarrow> \<exists>a. last_ended rows = Some a \<and> a \<in> set rows \<and> (\<forall>b\<in>set rows. ac_session_end b \<le> ac_session_end a)"
proof (induction rows)
  case (Cons a rows)
  then show ?case by (cases "rows = []") force+
qed simp

definition sample_sessions :: session_env where
  "sample_sessions = \<lparr>se_json = sample_json, se_newest = last_ended\<rparr>"

interpretation sample_sessions: newest_session sample_sessions
  by unfold_locales (use last_ended_max in \<open>auto simp: sample_sessions_def\<close>)

theorem sessions_group_calls_witness:
  "\<exists>rows. record_calls sample_sessions ''w'' ''ns'' ''c'' 60 [''tick''] [(100, ''move''), (130, ''tick''), (160, ''move''), (221, ''hit'')] [] = (Inr (), rows) \<and>
     map session_view (own_sessions ''w'' ''ns'' ''c'' rows) = [(100, 160, 2), (221, 221, 1)]"
  using sessions_group_calls[OF sample_sessions.newest_session_axioms, of 60 "[(100, ''move''), (130, ''tick''), (160, ''move''), (221, ''hit'')]"
      "''w''" "''ns''" "''c''" "[]" "[''tick'']"]
  by (simp add: foreign_rows_def own_sessions_def)

end
