(* ===== verification/ModelTable.thy ===== *)
theory ModelTable
  imports Schema Database EventId
begin

text \<open>
  The table of a model (\<open>crates/sqlite/sqlite/src/lib.rs\<close> and \<open>model.rs\<close>): its columns, the statement that stores an entity, the columns a query selects and the
  reading of a row back into a value.

  A member of a nested type has a column of its own, with the dotted path of its name; arrays are kept as JSON. What SQLite makes of a stored text and how a driver
  reads a cell are the parameters \<open>row_reader\<close> and \<open>store\<close>; JSON text, field elements and 256-bit numbers are parameters as elsewhere. Indexing out of bounds and
  malformed 256-bit numbers panic.
\<close>

section \<open>Storing an entity\<close>

datatype table_error = TableError string | TablePanic

definition dotted :: "string \<Rightarrow> string \<Rightarrow> string" where
  "dotted prefix name = (if prefix = [] then name else prefix @ ''.'' @ name)"

fun to_json_values :: "dojo_types \<Rightarrow> ty list \<Rightarrow> table_error + json list" where
  "to_json_values D [] = Inr []"
| "to_json_values D (t # ts) =
     (case dt_to_json D t of
        Inl e \<Rightarrow> Inl (TableError e)
      | Inr j \<Rightarrow> (case to_json_values D ts of Inl e \<Rightarrow> Inl e | Inr js \<Rightarrow> Inr (j # js)))"

definition array_cell :: "dojo_types \<Rightarrow> json_text \<Rightarrow> string \<Rightarrow> ty list \<Rightarrow> table_error + (string \<times> string) list" where
  "array_cell D J prefix es =
     (case to_json_values D es of Inl e \<Rightarrow> Inl e | Inr js \<Rightarrow> Inr [(prefix, json_to_string J (JArray js))])"

text \<open>The columns of a value with the texts to be stored in them.\<close>

fun collect_members :: "dojo_types \<Rightarrow> json_text \<Rightarrow> string \<Rightarrow> ty \<Rightarrow> table_error + (string \<times> string) list"
  and collect_struct :: "dojo_types \<Rightarrow> json_text \<Rightarrow> string \<Rightarrow> member list \<Rightarrow> table_error + (string \<times> string) list"
  and collect_tuple :: "dojo_types \<Rightarrow> json_text \<Rightarrow> string \<Rightarrow> nat \<Rightarrow> ty list \<Rightarrow> table_error + (string \<times> string) list"
  and collect_option :: "dojo_types \<Rightarrow> json_text \<Rightarrow> string \<Rightarrow> nat \<Rightarrow> enum_option list \<Rightarrow> table_error + (string \<times> string) list" where
  "collect_members D J prefix (Struct n ms) = collect_struct D J prefix ms"
| "collect_members D J prefix (Enum n sel opts) =
     (case sel of
        None \<Rightarrow> Inr [(prefix, dt_enum_sql_value D sel opts)]
      | Some i \<Rightarrow>
          (case collect_option D J prefix (unat i) opts of
             Inl e \<Rightarrow> Inl e
           | Inr cs \<Rightarrow> Inr ((prefix, dt_enum_sql_value D sel opts) # cs)))"
| "collect_members D J prefix (Tuple ts) = collect_tuple D J prefix 0 ts"
| "collect_members D J prefix (Array es) = array_cell D J prefix es"
| "collect_members D J prefix (FixedSizeArray es n) = array_cell D J prefix es"
| "collect_members D J prefix (Primitive p) = Inr [(prefix, dt_sql_value D p)]"
| "collect_members D J prefix (ByteArray s) = Inr [(prefix, s)]"
| "collect_struct D J prefix [] = Inr []"
| "collect_struct D J prefix (Member name t k # ms) =
     (case collect_members D J (dotted prefix name) t of
        Inl e \<Rightarrow> Inl e
      | Inr cs \<Rightarrow> (case collect_struct D J prefix ms of Inl e \<Rightarrow> Inl e | Inr cs' \<Rightarrow> Inr (cs @ cs')))"
| "collect_tuple D J prefix idx [] = Inr []"
| "collect_tuple D J prefix idx (t # ts) =
     (case collect_members D J (dotted prefix (dec_digits idx)) t of
        Inl e \<Rightarrow> Inl e
      | Inr cs \<Rightarrow> (case collect_tuple D J prefix (Suc idx) ts of Inl e \<Rightarrow> Inl e | Inr cs' \<Rightarrow> Inr (cs @ cs')))"
| "collect_option D J prefix i [] = Inl TablePanic"
| "collect_option D J prefix 0 (EnumOption name t # opts) = (if t = Tuple [] then Inr [] else collect_members D J (prefix @ ''.'' @ name) t)"
| "collect_option D J prefix (Suc i) (EnumOption name t # opts) = collect_option D J prefix i opts"

fun trim_event :: "string \<Rightarrow> string" where
  "trim_event (a # b # c # d # e # f # s) = (if [a, b, c, d, e, f] = ''event:'' then trim_event s else a # b # c # d # e # f # s)"
| "trim_event s = s"

text \<open>The columns and arguments of the statement, the internal ones first; times are given as text.\<close>

definition entity_columns ::
  "dojo_types \<Rightarrow> json_text \<Rightarrow> string \<Rightarrow> string \<Rightarrow> string \<Rightarrow> string \<Rightarrow> ty \<Rightarrow> table_error + (string \<times> string) list" where
  "entity_columns D J executed_at now event_id entity_id entity =
     (case collect_members D J [] entity of
        Inl e \<Rightarrow> Inl e
      | Inr cs \<Rightarrow>
          Inr ([(''internal_id'', entity_id), (''internal_event_id'', event_id), (''internal_executed_at'', executed_at), (''internal_updated_at'', now),
                (if take 6 entity_id = ''event:'' then ''internal_event_message_id'' else ''internal_entity_id'', trim_event entity_id)] @ cs))"

definition quoted :: "string \<Rightarrow> string" where
  "quoted s = [CHR 0x22] @ s @ [CHR 0x22]"

definition column_sql :: "nat \<Rightarrow> string \<Rightarrow> string" where
  "column_sql i c = (if i < 5 then c else quoted c)"

definition insert_statement :: "string \<Rightarrow> string list \<Rightarrow> string" where
  "insert_statement model_name columns =
     (let cs = map (\<lambda>(i, c). column_sql i c) (enumerate 0 columns) in
      ''INSERT INTO ['' @ model_name @ ''] ('' @ join_with '','' cs @ '') VALUES ('' @ join_with '','' (map (\<lambda>_. ''?'') cs) @
      '') ON CONFLICT(internal_id) DO UPDATE SET '' @ join_with '', '' (map (\<lambda>c. c @ ''=excluded.'' @ c) (drop 1 cs)))"

text \<open>\<open>set_entity_model\<close> sends this statement with its arguments.\<close>

definition set_entity_model ::
  "dojo_types \<Rightarrow> json_text \<Rightarrow> string \<Rightarrow> string \<Rightarrow> string \<Rightarrow> string \<Rightarrow> string \<Rightarrow> ty \<Rightarrow> table_error + string \<times> string list" where
  "set_entity_model D J model_name executed_at now event_id entity_id entity =
     map_sum id (\<lambda>cs. (insert_statement model_name (map fst cs), map snd cs)) (entity_columns D J executed_at now event_id entity_id entity)"

text \<open>What the statement does: the row with that \<open>internal_id\<close> gets the given cells and keeps the others.\<close>

type_synonym 'c model_rows = "(string \<times> (string \<times> 'c) list) list"

fun set_cells :: "(string \<Rightarrow> string \<Rightarrow> 'c) \<Rightarrow> (string \<times> string) list \<Rightarrow> (string \<times> 'c) list \<Rightarrow> (string \<times> 'c) list" where
  "set_cells store [] cells = cells"
| "set_cells store ((c, v) # cs) cells = set_cells store cs (al_insert c (store c v) cells)"

definition upsert_entity :: "(string \<Rightarrow> string \<Rightarrow> 'c) \<Rightarrow> (string \<times> string) list \<Rightarrow> 'c model_rows \<Rightarrow> 'c model_rows" where
  "upsert_entity store cs rows = al_upsert (snd (hd cs)) (set_cells store cs) (set_cells store cs []) rows"

section \<open>Reading a row\<close>

record 'c row_reader =
  rd_text :: "'c \<Rightarrow> string option"
  rd_int :: "nat \<Rightarrow> bool \<Rightarrow> 'c \<Rightarrow> int option"
  rd_bool :: "'c \<Rightarrow> bool option"
  rd_null :: 'c

record text_formats =
  tx_json :: json_text
  tx_felt :: felt_text
  tx_u256 :: u256_text

definition read_text :: "'c row_reader \<Rightarrow> 'c option \<Rightarrow> table_error + string" where
  "read_text R c = (case Option.bind c (rd_text R) of None \<Rightarrow> Inl (TableError ''column'') | Some s \<Rightarrow> Inr s)"

definition read_int :: "'c row_reader \<Rightarrow> nat \<Rightarrow> bool \<Rightarrow> 'c option \<Rightarrow> table_error + int" where
  "read_int R bits is_signed c = (case Option.bind c (rd_int R bits is_signed) of None \<Rightarrow> Inl (TableError ''column'') | Some i \<Rightarrow> Inr i)"

definition read_bool :: "'c row_reader \<Rightarrow> 'c option \<Rightarrow> table_error + bool" where
  "read_bool R c = (case Option.bind c (rd_bool R) of None \<Rightarrow> Inl (TableError ''column'') | Some b \<Rightarrow> Inr b)"

text \<open>\<open>from_str_radix(hex_str, 16)\<close> for a width.\<close>

definition radix16 :: "nat \<Rightarrow> string \<Rightarrow> nat option" where
  "radix16 bits s =
     (let ds = (case s of c # cs \<Rightarrow> if c = CHR ''+'' then cs else s | [] \<Rightarrow> []) in
      if ds = [] then None
      else case digits_value 0 ds of None \<Rightarrow> None | Some n \<Rightarrow> if n < 2 ^ bits then Some n else None)"

definition read_radix :: "'c row_reader \<Rightarrow> nat \<Rightarrow> 'c option \<Rightarrow> table_error + nat option" where
  "read_radix R bits c =
     (case read_text R c of
        Inl e \<Rightarrow> Inl e
      | Inr v \<Rightarrow>
          (let hex_str = trim_0x v in
           if hex_str = [] then Inr None
           else case radix16 bits hex_str of None \<Rightarrow> Inl (TableError ''ParseIntError'') | Some n \<Rightarrow> Inr (Some n)))"

definition read_felt :: "'c row_reader \<Rightarrow> text_formats \<Rightarrow> 'c option \<Rightarrow> table_error + felt option" where
  "read_felt R X c =
     (case read_text R c of
        Inl e \<Rightarrow> Inl e
      | Inr v \<Rightarrow>
          if v = [] then Inr None
          else case felt_from_str (tx_felt X) v of None \<Rightarrow> Inl (TableError ''FromStr'') | Some f \<Rightarrow> Inr (Some f))"

text \<open>An empty text leaves the value of the schema; a 128-bit signed number has no such exception and is read as unsigned.\<close>

definition or_keep :: "('a \<Rightarrow> primitive) \<Rightarrow> primitive \<Rightarrow> table_error + 'a option \<Rightarrow> table_error + primitive" where
  "or_keep f p r = map_sum id (\<lambda>x. case x of None \<Rightarrow> p | Some v \<Rightarrow> f v) r"

definition read_primitive :: "'c row_reader \<Rightarrow> text_formats \<Rightarrow> primitive \<Rightarrow> 'c option \<Rightarrow> table_error + primitive" where
  "read_primitive R X p c =
     (case p of
        I8 _ \<Rightarrow> map_sum id (\<lambda>i. I8 (Some (word_of_int i))) (read_int R 8 True c)
      | I16 _ \<Rightarrow> map_sum id (\<lambda>i. I16 (Some (word_of_int i))) (read_int R 16 True c)
      | I32 _ \<Rightarrow> map_sum id (\<lambda>i. I32 (Some (word_of_int i))) (read_int R 32 True c)
      | I64 _ \<Rightarrow> map_sum id (\<lambda>i. I64 (Some (word_of_int i))) (read_int R 64 True c)
      | I128 _ \<Rightarrow>
          (case read_text R c of
             Inl e \<Rightarrow> Inl e
           | Inr v \<Rightarrow> (case radix16 128 (trim_0x v) of None \<Rightarrow> Inl (TableError ''ParseIntError'') | Some n \<Rightarrow> Inr (I128 (Some (of_nat n)))))
      | U8 _ \<Rightarrow> map_sum id (\<lambda>i. U8 (Some (word_of_int i))) (read_int R 8 False c)
      | U16 _ \<Rightarrow> map_sum id (\<lambda>i. U16 (Some (word_of_int i))) (read_int R 16 False c)
      | U32 _ \<Rightarrow> map_sum id (\<lambda>i. U32 (Some (word_of_int i))) (read_int R 32 False c)
      | U64 _ \<Rightarrow> or_keep (\<lambda>n. U64 (Some (of_nat n))) p (read_radix R 64 c)
      | U128 _ \<Rightarrow> or_keep (\<lambda>n. U128 (Some (of_nat n))) p (read_radix R 128 c)
      | U256 _ \<Rightarrow>
          (case read_text R c of
             Inl e \<Rightarrow> Inl e
           | Inr v \<Rightarrow>
               (let hex_str = trim_0x v in
                if hex_str = [] then Inr p
                else case from_be_hex (tx_u256 X) hex_str of None \<Rightarrow> Inl TablePanic | Some n \<Rightarrow> Inr (U256 (Some n))))
      | Bool _ \<Rightarrow> map_sum id (\<lambda>b. Bool (Some b)) (read_bool R c)
      | Felt252 _ \<Rightarrow> or_keep (\<lambda>f. Felt252 (Some f)) p (read_felt R X c)
      | ClassHash _ \<Rightarrow> or_keep (\<lambda>f. ClassHash (Some f)) p (read_felt R X c)
      | ContractAddress _ \<Rightarrow> or_keep (\<lambda>f. ContractAddress (Some f)) p (read_felt R X c)
      | EthAddress _ \<Rightarrow> or_keep (\<lambda>f. EthAddress (Some f)) p (read_felt R X c))"

fun from_json_values :: "dojo_types \<Rightarrow> ty \<Rightarrow> json list \<Rightarrow> table_error + ty list" where
  "from_json_values D schema [] = Inr []"
| "from_json_values D schema (j # js) =
     (case dt_from_json D schema j of
        Inl e \<Rightarrow> Inl (TableError e)
      | Inr t \<Rightarrow> (case from_json_values D schema js of Inl e \<Rightarrow> Inl e | Inr ts \<Rightarrow> Inr (t # ts)))"

definition read_array :: "dojo_types \<Rightarrow> text_formats \<Rightarrow> ty list \<Rightarrow> table_error + string \<Rightarrow> table_error + ty list" where
  "read_array D X ts cell =
     (case ts of
        [] \<Rightarrow> Inl TablePanic
      | schema # _ \<Rightarrow>
          (case cell of
             Inl e \<Rightarrow> Inl e
           | Inr serialized_array \<Rightarrow>
               if serialized_array = [] then Inr []
               else case json_from_str (tx_json X) serialized_array of
                      Inl e \<Rightarrow> Inl (TableError e)
                    | Inr (JArray js) \<Rightarrow> from_json_values D schema js
                    | Inr _ \<Rightarrow> Inl (TableError ''FromJsonStr'')))"

text \<open>A fixed-size array is expected as an object with its elements and its size.\<close>

definition read_fixed_array :: "dojo_types \<Rightarrow> text_formats \<Rightarrow> ty list \<Rightarrow> table_error + string \<Rightarrow> table_error + ty list" where
  "read_fixed_array D X ts cell =
     (case ts of
        [] \<Rightarrow> Inl TablePanic
      | schema # _ \<Rightarrow>
          (case cell of
             Inl e \<Rightarrow> Inl e
           | Inr serialized_array \<Rightarrow>
               if serialized_array = [] then Inr []
               else case json_from_str (tx_json X) serialized_array of
                      Inl e \<Rightarrow> Inl (TableError e)
                    | Inr j \<Rightarrow>
                        (case json_get ''elements'' j of
                           Some (JArray js) \<Rightarrow>
                             (case json_get ''size'' j of
                                Some (JU64 _) \<Rightarrow> from_json_values D schema js
                              | _ \<Rightarrow> Inl (TableError ''InvalidFixedSizeArray''))
                         | _ \<Rightarrow> Inl (TableError ''InvalidFixedSizeArray''))))"

fun map_row_to_ty :: "dojo_types \<Rightarrow> text_formats \<Rightarrow> 'c row_reader \<Rightarrow> (string \<Rightarrow> 'c option) \<Rightarrow> string \<Rightarrow> string \<Rightarrow> ty \<Rightarrow> table_error + ty"
  and map_row_members :: "dojo_types \<Rightarrow> text_formats \<Rightarrow> 'c row_reader \<Rightarrow> (string \<Rightarrow> 'c option) \<Rightarrow> string \<Rightarrow> member list \<Rightarrow> table_error + member list"
  and map_row_tuple :: "dojo_types \<Rightarrow> text_formats \<Rightarrow> 'c row_reader \<Rightarrow> (string \<Rightarrow> 'c option) \<Rightarrow> string \<Rightarrow> nat \<Rightarrow> ty list \<Rightarrow> table_error + ty list"
  and map_row_options :: "dojo_types \<Rightarrow> text_formats \<Rightarrow> 'c row_reader \<Rightarrow> (string \<Rightarrow> 'c option) \<Rightarrow> string \<Rightarrow> string \<Rightarrow> enum_option list \<Rightarrow>
     table_error + enum_option list" where
  "map_row_to_ty D X R row path name (Primitive p) = map_sum id Primitive (read_primitive R X p (row (dotted path name)))"
| "map_row_to_ty D X R row path name (Enum n sel opts) =
     (case read_text R (row (dotted path name)) of
        Inl e \<Rightarrow> Inl e
      | Inr option_name \<Rightarrow>
          (case (if option_name = [] then Inr sel else map_sum TableError Some (dt_set_option D option_name opts)) of
             Inl e \<Rightarrow> Inl e
           | Inr sel' \<Rightarrow> map_sum id (Enum n sel') (map_row_options D X R row (dotted path name) option_name opts)))"
| "map_row_to_ty D X R row path name (Struct n ms) = map_sum id (Struct n) (map_row_members D X R row (dotted path name) ms)"
| "map_row_to_ty D X R row path name (Tuple ts) = map_sum id Tuple (map_row_tuple D X R row (dotted path name) 0 ts)"
| "map_row_to_ty D X R row path name (Array ts) = map_sum id Array (read_array D X ts (read_text R (row (dotted path name))))"
| "map_row_to_ty D X R row path name (FixedSizeArray ts n) =
     map_sum id (\<lambda>es. FixedSizeArray es n) (read_fixed_array D X ts (read_text R (row (dotted path name))))"
| "map_row_to_ty D X R row path name (ByteArray s) = map_sum id ByteArray (read_text R (row (dotted path name)))"
| "map_row_members D X R row path [] = Inr []"
| "map_row_members D X R row path (Member name t k # ms) =
     (case map_row_to_ty D X R row path name t of
        Inl e \<Rightarrow> Inl e
      | Inr t' \<Rightarrow> map_sum id (\<lambda>ms'. Member name t' k # ms') (map_row_members D X R row path ms))"
| "map_row_tuple D X R row path i [] = Inr []"
| "map_row_tuple D X R row path i (t # ts) =
     (case map_row_to_ty D X R row path (dec_digits i) t of
        Inl e \<Rightarrow> Inl e
      | Inr t' \<Rightarrow> map_sum id (\<lambda>ts'. t' # ts') (map_row_tuple D X R row path (Suc i) ts))"
| "map_row_options D X R row path option_name [] = Inr []"
| "map_row_options D X R row path option_name (EnumOption name t # opts) =
     (if name \<noteq> option_name then map_sum id (\<lambda>opts'. EnumOption name t # opts') (map_row_options D X R row path option_name opts)
      else case map_row_to_ty D X R row path name t of
             Inl e \<Rightarrow> Inl e
           | Inr t' \<Rightarrow> map_sum id (\<lambda>opts'. EnumOption name t' # opts') (map_row_options D X R row path option_name opts))"

section \<open>Creating and upgrading the table\<close>

text \<open>
  A column with its type; an enum's column has the names of the options as a constraint. Where a column is put depends on the differences between the old and the
  new schema that concern it: without any it belongs to \<open>CREATE TABLE\<close>, and otherwise it is added or rebuilt with \<open>ALTER TABLE\<close>.
\<close>

record column_def =
  cd_name :: string
  cd_type :: string
  cd_check :: "string list option"

datatype alteration = AddColumn column_def | ModifyColumn column_def string

datatype placement = InCreate | InAlter | Modified string

type_synonym table_changes = "column_def list \<times> alteration list \<times> string list"

record index_config =
  all_model_indices :: bool
  model_indices :: "(string \<times> string list) list"

record table_env =
  te_config :: index_config
  te_dojo :: dojo_types
  te_table_id :: string

definition indexed :: "table_env \<Rightarrow> bool \<Rightarrow> string \<Rightarrow> bool" where
  "indexed E is_key name =
     (case List.find (\<lambda>m. fst m = te_table_id E) (model_indices (te_config E)) of
        Some m \<Rightarrow> name \<in> set (snd m)
      | None \<Rightarrow> all_model_indices (te_config E) \<or> is_key)"

definition put_column :: "table_env \<Rightarrow> bool \<Rightarrow> placement \<Rightarrow> column_def \<Rightarrow> table_changes" where
  "put_column E is_key place d =
     (let idx = (if indexed E is_key (cd_name d) then [cd_name d] else []) in
      case place of
        InCreate \<Rightarrow> ([d], [], idx)
      | InAlter \<Rightarrow> ([], [AddColumn d], idx)
      | Modified v \<Rightarrow> ([], [ModifyColumn d v], []))"

definition both :: "table_changes \<Rightarrow> table_changes \<Rightarrow> table_changes" where
  "both a b = (fst a @ fst b, fst (snd a) @ fst (snd b), snd (snd a) @ snd (snd b))"

definition bracketed :: "string \<Rightarrow> string" where
  "bracketed s = ''['' @ s @ '']''"

definition text_placement :: "string \<Rightarrow> ty option \<Rightarrow> ty option \<Rightarrow> placement" where
  "text_placement name schema_diff upgrade_diff =
     (if upgrade_diff \<noteq> None then Modified (bracketed name) else if schema_diff \<noteq> None then InAlter else InCreate)"

fun as_struct :: "ty \<Rightarrow> member list option" where
  "as_struct (Struct n ms) = Some ms"
| "as_struct _ = None"

fun as_tuple :: "ty \<Rightarrow> ty list option" where
  "as_tuple (Tuple ts) = Some ts"
| "as_tuple _ = None"

fun as_enum :: "ty \<Rightarrow> enum_option list option" where
  "as_enum (Enum n sel opts) = Some opts"
| "as_enum _ = None"

fun as_primitive :: "ty \<Rightarrow> primitive option" where
  "as_primitive (Primitive p) = Some p"
| "as_primitive _ = None"

definition member_diff :: "member list option \<Rightarrow> string \<Rightarrow> ty option" where
  "member_diff d name = Option.bind d (\<lambda>ms. map_option mb_ty (List.find (\<lambda>m. mb_name m = name) ms))"

definition tuple_diff :: "ty list option \<Rightarrow> nat \<Rightarrow> ty option" where
  "tuple_diff d i = Option.bind d (\<lambda>ts. if i < length ts then Some (ts ! i) else None)"

definition option_diff :: "enum_option list option \<Rightarrow> string \<Rightarrow> ty option" where
  "option_diff d name = Option.bind d (\<lambda>opts. map_option eo_ty (List.find (\<lambda>x. eo_name x = name) opts))"

definition or_default :: "string \<Rightarrow> string \<Rightarrow> string" where
  "or_default d prefix = (if prefix = [] then d else prefix)"

definition primitive_changes ::
  "table_env \<Rightarrow> string \<Rightarrow> primitive \<Rightarrow> ty option \<Rightarrow> ty option \<Rightarrow> bool \<Rightarrow> table_changes" where
  "primitive_changes E name p schema_diff upgrade_diff is_key =
     (let d = \<lparr>cd_name = name, cd_type = dt_sql_type (te_dojo E) p, cd_check = None\<rparr> in
      case upgrade_diff of
        Some u \<Rightarrow>
          (case as_primitive u of
             None \<Rightarrow> ([], [], [])
           | Some old \<Rightarrow>
               put_column E is_key
                 (Modified (if dt_sql_type (te_dojo E) old = ''INTEGER'' \<and> dt_sql_type (te_dojo E) p = ''TEXT''
                            then [CHR 0x27] @ ''0x'' @ [CHR 0x27] @ '' || printf('' @ [CHR 0x27] @ ''%064x'' @ [CHR 0x27] @ '', '' @ bracketed name @ '')''
                            else bracketed name)) d)
      | None \<Rightarrow> put_column E is_key (if schema_diff \<noteq> None then InAlter else InCreate) d)"

definition enum_placement :: "string \<Rightarrow> ty \<Rightarrow> ty option \<Rightarrow> ty option \<Rightarrow> placement" where
  "enum_placement name t schema_diff upgrade_diff =
     (if Option.bind upgrade_diff as_enum \<noteq> None \<or> (schema_diff \<noteq> None \<and> schema_diff \<noteq> Some t) then Modified (bracketed name)
      else if Option.bind schema_diff as_enum \<noteq> None then InAlter else InCreate)"

definition all_changes :: "table_changes list \<Rightarrow> table_changes" where
  "all_changes cs = foldr both cs ([], [], [])"

lemma member_smaller: "m \<in> set ms \<Longrightarrow> size (mb_ty m) < Suc (size_list size ms)"
proof -
  assume "m \<in> set ms"
  then have "size m \<le> size_list size ms" by (rule size_list_estimation') simp
  moreover have "size (mb_ty m) < size m" by (cases m) simp
  ultimately show ?thesis by simp
qed

lemma option_smaller: "x \<in> set opts \<Longrightarrow> size (eo_ty x) < Suc (size_list size opts)"
proof -
  assume "x \<in> set opts"
  then have "size x \<le> size_list size opts" by (rule size_list_estimation') simp
  moreover have "size (eo_ty x) < size x" by (cases x) simp
  ultimately show ?thesis by simp
qed

lemma element_smaller: "(i, t) \<in> set (enumerate k ts) \<Longrightarrow> size t < Suc (size_list size (ts :: ty list))"
proof -
  assume "(i, t) \<in> set (enumerate k ts)"
  then have "t \<in> set ts" by (metis in_set_enumerate_eq nth_mem add.commute less_diff_conv2 fst_conv snd_conv)
  then show ?thesis by (intro le_imp_less_Suc size_list_estimation'[of t]) simp_all
qed

function add_columns :: "table_env \<Rightarrow> string list \<Rightarrow> ty \<Rightarrow> ty option \<Rightarrow> ty option \<Rightarrow> bool \<Rightarrow> table_changes" where
  "add_columns E path (Struct n ms) sd ud is_key =
     all_changes (map (\<lambda>m. add_columns E (path @ [mb_name m]) (mb_ty m) (member_diff (Option.bind sd as_struct) (mb_name m))
                             (member_diff (Option.bind ud as_struct) (mb_name m)) (mb_key m)) ms)"
| "add_columns E path (Tuple ts) sd ud is_key =
     all_changes (map (\<lambda>(i, t). add_columns E (path @ [dec_digits i]) t (tuple_diff (Option.bind sd as_tuple) i)
                                  (tuple_diff (Option.bind ud as_tuple) i) is_key) (enumerate 0 ts))"
| "add_columns E path (Array ts) sd ud is_key =
     (let name = or_default ''value'' (join_with ''.'' path) in
      put_column E is_key (text_placement name sd ud) \<lparr>cd_name = name, cd_type = ''TEXT'', cd_check = None\<rparr>)"
| "add_columns E path (FixedSizeArray ts k) sd ud is_key =
     (let name = or_default ''value'' (join_with ''.'' path) in
      put_column E is_key (text_placement name sd ud) \<lparr>cd_name = name, cd_type = ''TEXT'', cd_check = None\<rparr>)"
| "add_columns E path (Enum n sel opts) sd ud is_key =
     (let name = or_default ''option'' (join_with ''.'' path) in
      both (put_column E is_key (enum_placement name (Enum n sel opts) sd ud)
              \<lparr>cd_name = name, cd_type = ''TEXT'', cd_check = Some (map eo_name opts)\<rparr>)
        (all_changes (map (\<lambda>x. if eo_ty x = Tuple [] then ([], [], [])
                               else add_columns E (path @ [eo_name x]) (eo_ty x) (option_diff (Option.bind sd as_enum) (eo_name x))
                                      (option_diff (Option.bind ud as_enum) (eo_name x)) is_key) opts)))"
| "add_columns E path (ByteArray s) sd ud is_key =
     (let name = or_default ''value'' (join_with ''.'' path) in
      put_column E is_key (text_placement name sd ud) \<lparr>cd_name = name, cd_type = ''TEXT'', cd_check = None\<rparr>)"
| "add_columns E path (Primitive p) sd ud is_key =
     primitive_changes E (or_default ''value'' (join_with ''.'' path)) p sd ud is_key"
  by pat_completeness auto
termination
  by (relation "measure (\<lambda>(E, path, t, sd, ud, k). size t)") (auto simp: member_smaller option_smaller element_smaller)

definition sql_type_text :: "column_def \<Rightarrow> string" where
  "sql_type_text d =
     cd_type d @ (case cd_check d of
        None \<Rightarrow> []
      | Some opts \<Rightarrow> '' CONSTRAINT '' @ bracketed (cd_name d @ ''_check'') @ '' CHECK('' @ bracketed (cd_name d) @ '' IN ('' @
          join_with '', '' (map (\<lambda>o'. [CHR 0x27] @ o' @ [CHR 0x27]) opts) @ ''))'')"

definition index_text :: "string \<Rightarrow> string \<Rightarrow> string" where
  "index_text table_id name =
     ''CREATE INDEX IF NOT EXISTS '' @ bracketed (''idx_'' @ table_id @ ''_'' @ name) @ '' ON '' @ bracketed table_id @ '' ('' @ bracketed name @ '');''"

definition add_column_text :: "string \<Rightarrow> column_def \<Rightarrow> string" where
  "add_column_text table_id d = ''ALTER TABLE '' @ bracketed table_id @ '' ADD COLUMN '' @ bracketed (cd_name d) @ '' '' @ sql_type_text d"

definition alter_texts :: "string \<Rightarrow> alteration \<Rightarrow> string list" where
  "alter_texts table_id a =
     (case a of
        AddColumn d \<Rightarrow> [add_column_text table_id d]
      | ModifyColumn d sql_value \<Rightarrow>
          (let name = cd_name d; tmp = bracketed (''tmp_values_'' @ name) in
           [''CREATE TEMPORARY TABLE '' @ tmp @ '' AS SELECT internal_id, '' @ bracketed name @ '' FROM '' @ bracketed table_id,
            ''DROP INDEX IF EXISTS '' @ bracketed (''idx_'' @ table_id @ ''_'' @ name),
            ''ALTER TABLE '' @ bracketed table_id @ '' DROP COLUMN '' @ bracketed name,
            add_column_text table_id d,
            ''UPDATE '' @ bracketed table_id @ '' SET '' @ bracketed name @ '' = (SELECT '' @ sql_value @ '' FROM '' @ tmp @ '' WHERE '' @ tmp @
              ''.internal_id = '' @ bracketed table_id @ ''.internal_id)'',
            ''DROP TABLE '' @ tmp,
            index_text table_id name]))"

definition create_table_text :: "string \<Rightarrow> column_def list \<Rightarrow> string" where
  "create_table_text table_id columns =
     ''CREATE TABLE IF NOT EXISTS '' @ bracketed table_id @ '' (internal_id TEXT NOT NULL PRIMARY KEY, internal_event_id TEXT NOT NULL, internal_entity_id TEXT, internal_event_message_id TEXT, '' @
     concat (map (\<lambda>d. bracketed (cd_name d) @ '' '' @ sql_type_text d @ '', '') columns) @
     ''internal_executed_at DATETIME NOT NULL, internal_created_at DATETIME NOT NULL DEFAULT CURRENT_TIMESTAMP, internal_updated_at DATETIME NOT NULL DEFAULT CURRENT_TIMESTAMP, '' @
     ''FOREIGN KEY (internal_entity_id) REFERENCES entities(id), FOREIGN KEY (internal_event_message_id) REFERENCES event_messages(id));''"

text \<open>The statements \<open>build_model_query\<close> sends for a table, in order.\<close>

definition build_model_query :: "table_env \<Rightarrow> ty \<Rightarrow> ty option \<Rightarrow> ty option \<Rightarrow> string list" where
  "build_model_query E model schema_diff upgrade_diff =
     (case add_columns E [] model schema_diff upgrade_diff False of
        (columns, alters, indices) \<Rightarrow>
          (if upgrade_diff \<noteq> None \<or> schema_diff \<noteq> None then concat (map (alter_texts (te_table_id E)) alters) else [create_table_text (te_table_id E) columns]) @
          map (index_text (te_table_id E)) ([''internal_entity_id'', ''internal_event_message_id''] @ indices))"

section \<open>Selected columns\<close>

text \<open>The paths of the selected columns; a column \<open>c\<close> of the table \<open>t\<close> is selected under the name \<open>t.c\<close>.\<close>

fun collect_columns :: "string \<Rightarrow> ty \<Rightarrow> string list"
  and columns_struct :: "string \<Rightarrow> member list \<Rightarrow> string list"
  and columns_tuple :: "string \<Rightarrow> nat \<Rightarrow> ty list \<Rightarrow> string list"
  and columns_options :: "string \<Rightarrow> enum_option list \<Rightarrow> string list" where
  "collect_columns path (Struct n ms) = columns_struct path ms"
| "collect_columns path (Tuple ts) = columns_tuple path 0 ts"
| "collect_columns path (Enum n sel opts) = path # columns_options path opts"
| "collect_columns path (Array ts) = [path]"
| "collect_columns path (FixedSizeArray ts n) = [path]"
| "collect_columns path (Primitive p) = [path]"
| "collect_columns path (ByteArray s) = [path]"
| "columns_struct path [] = []"
| "columns_struct path (Member name t k # ms) = collect_columns (dotted path name) t @ columns_struct path ms"
| "columns_tuple path i [] = []"
| "columns_tuple path i (t # ts) = collect_columns (dotted path (dec_digits i)) t @ columns_tuple path (Suc i) ts"
| "columns_options path [] = []"
| "columns_options path (EnumOption name t # opts) =
     (if t = Tuple [] then columns_options path opts else collect_columns (path @ ''.'' @ name) t @ columns_options path opts)"

definition selection_text :: "string \<Rightarrow> string \<Rightarrow> string" where
  "selection_text table path = ''['' @ table @ ''].['' @ path @ ''] as '' @ quoted (table @ ''.'' @ path)"

text \<open>
  The selected row of an entity has every selected column under its name, and the row of \<open>SELECT *\<close> has the columns themselves; a column that was never written is null.
\<close>

definition whole_row :: "'c row_reader \<Rightarrow> ty \<Rightarrow> (string \<times> 'c) list \<Rightarrow> string \<Rightarrow> 'c option" where
  "whole_row R schema cells c =
     (if c \<in> set (collect_columns [] schema) then Some (case map_of cells c of None \<Rightarrow> rd_null R | Some x \<Rightarrow> x) else None)"

definition selected_row :: "'c row_reader \<Rightarrow> string \<Rightarrow> ty \<Rightarrow> (string \<times> 'c) list \<Rightarrow> string \<Rightarrow> 'c option" where
  "selected_row R table schema cells name =
     (case filter (\<lambda>c. table @ ''.'' @ c = name) (collect_columns [] schema) of [] \<Rightarrow> None | c # _ \<Rightarrow> whole_row R schema cells c)"

text \<open>A model of an entity read from its row, as \<open>map_row_to_entity\<close> does for every model of the entity.\<close>

definition read_model :: "dojo_types \<Rightarrow> text_formats \<Rightarrow> 'c row_reader \<Rightarrow> (string \<Rightarrow> 'c option) \<Rightarrow> ty \<Rightarrow> table_error + ty" where
  "read_model D X R row schema = map_row_to_ty D X R row [] (dt_name D schema) schema"

end
