(* ===== verification/Aggregator.thy ===== *)
theory Aggregator
  imports Schema ModelTable Updates "HOL-Library.Signed_Division"
begin

text \<open>
  Aggregations (\<open>crates/sqlite/sqlite/src/executor/aggregator.rs\<close>): for every configured aggregator of a model the executor keeps an entry per group, with a value for
  ordering and a value for display. The value for ordering is a hexadecimal text of fixed width, compared as text. JSON and the reading of 256-bit numbers are parameters.
\<close>

section \<open>Configuration and table\<close>

datatype aggregation =
  Count | Latest string | Max string | Min string | Sum string | Avg string

record aggregator_config =
  agc_id :: string
  agc_model_tag :: string
  agc_group_by :: "string list"
  agc_aggregation :: aggregation

record aggregation_row =
  ar_aggregator_id :: string
  ar_entity_id :: string
  ar_value :: string
  ar_display_value :: string
  ar_metadata :: "string option"
  ar_model_id :: string

type_synonym aggregation_table = "(string \<times> aggregation_row) list"

datatype aggregation_error = LeaderboardFieldExtraction string | AggregationPanic

section \<open>Values of fields\<close>

definition strip_0x :: "string \<Rightarrow> string option" where
  "strip_0x s = (if take 2 s = ''0x'' then Some (drop 2 s) else None)"

definition pad64 :: "string \<Rightarrow> string" where
  "pad64 s = ''0x'' @ replicate (64 - length s) (CHR ''0'') @ s"

text \<open>Non-negative numbers are printed as they are; negative ones are shifted by \<open>2\<^sup>1\<^sup>2\<^sup>7\<close>.\<close>

definition normalize_value_to_hex :: "string \<Rightarrow> string" where
  "normalize_value_to_hex value =
     (case strip_0x value of
        Some hex_str \<Rightarrow> pad64 hex_str
      | None \<Rightarrow>
          (case parse_u128 value of
             Some num \<Rightarrow> pad64 (hex_digits (nat num))
           | None \<Rightarrow>
               (case parse_i128 value of
                  Some num \<Rightarrow> pad64 (hex_digits (nat ((num + 2 ^ 127) mod 2 ^ 128)))
                | None \<Rightarrow> pad64 ''0'')))"

definition normalized :: "bool \<Rightarrow> string \<Rightarrow> string" where
  "normalized ordered raw = (if ordered then normalize_value_to_hex raw else raw)"

fun ty_to_sql_string :: "dojo_types \<Rightarrow> ty \<Rightarrow> bool \<Rightarrow> string option" where
  "ty_to_sql_string D (Primitive p) ordered = Some (normalized ordered (dt_sql_value D p))"
| "ty_to_sql_string D (Enum n sel opts) ordered = Some (normalized ordered (dt_enum_sql_value D sel opts))"
| "ty_to_sql_string D (ByteArray b) ordered = Some b"
| "ty_to_sql_string D _ ordered = None"

fun extract_field_value_recursive :: "dojo_types \<Rightarrow> ty \<Rightarrow> string list \<Rightarrow> bool \<Rightarrow> string option" where
  "extract_field_value_recursive D t [] ordered = None"
| "extract_field_value_recursive D t (part # parts) ordered =
     (case t of
        Struct n ms \<Rightarrow>
          (case List.find (\<lambda>m. mb_name m = part) ms of
             None \<Rightarrow> None
           | Some m \<Rightarrow> if parts = [] then ty_to_sql_string D (mb_ty m) ordered else extract_field_value_recursive D (mb_ty m) parts ordered)
      | Primitive p \<Rightarrow> if parts = [] then Some (normalized ordered (dt_sql_value D p)) else None
      | Enum n sel opts \<Rightarrow> if parts = [] then Some (normalized ordered (dt_enum_sql_value D sel opts)) else None
      | ByteArray b \<Rightarrow> if parts = [] then Some b else None
      | _ \<Rightarrow> None)"

definition extract_field_value :: "dojo_types \<Rightarrow> ty \<Rightarrow> string \<Rightarrow> bool \<Rightarrow> string option" where
  "extract_field_value D t path ordered = extract_field_value_recursive D t (split_on (CHR ''.'') path) ordered"

definition parse_display_to_i128 :: "string \<Rightarrow> int option" where
  "parse_display_to_i128 s =
     (case strip_0x s of
        Some hex_str \<Rightarrow> map_option (\<lambda>v. if v < 2 ^ 127 then int v else int v - 2 ^ 128) (radix16 128 hex_str)
      | None \<Rightarrow> parse_i128 s)"

definition or_zero :: "int option \<Rightarrow> int" where
  "or_zero x = (case x of None \<Rightarrow> 0 | Some v \<Rightarrow> v)"

definition saturating_add_i128 :: "int \<Rightarrow> int \<Rightarrow> int" where
  "saturating_add_i128 a b = max (- (2 ^ 127)) (min (2 ^ 127 - 1) (a + b))"

text \<open>\<open>i64\<close> addition of 1 wraps around.\<close>

definition next_i64 :: "int \<Rightarrow> int" where
  "next_i64 n = (n + 1 + 2 ^ 63) mod 2 ^ 64 - 2 ^ 63"

section \<open>Aggregated values\<close>

definition field_missing :: "'a option \<Rightarrow> aggregation_error + 'a" where
  "field_missing x = (case x of None \<Rightarrow> Inl (LeaderboardFieldExtraction ''Could not extract field'') | Some a \<Rightarrow> Inr a)"

definition both_fields :: "dojo_types \<Rightarrow> ty \<Rightarrow> string \<Rightarrow> aggregation_error + string \<times> string" where
  "both_fields D entity field_path =
     (case field_missing (extract_field_value D entity field_path False) of
        Inl e \<Rightarrow> Inl e
      | Inr disp \<Rightarrow>
          (case extract_field_value D entity field_path True of
             None \<Rightarrow> Inl AggregationPanic
           | Some nrm \<Rightarrow> Inr (nrm, disp)))"

definition calculate_latest_value :: "dojo_types \<Rightarrow> ty \<Rightarrow> string \<Rightarrow> aggregation_error + string \<times> string" where
  "calculate_latest_value D entity field_path =
     (case field_missing (extract_field_value D entity field_path False) of
        Inl e \<Rightarrow> Inl e
      | Inr disp \<Rightarrow>
          (case field_missing (extract_field_value D entity field_path True) of
             Inl e \<Rightarrow> Inl e
           | Inr nrm \<Rightarrow> Inr (nrm, disp)))"

definition calculate_count_value :: "aggregation_row option \<Rightarrow> string \<times> string" where
  "calculate_count_value existing =
     (let new_count = (case existing of None \<Rightarrow> 1 | Some r \<Rightarrow> next_i64 (or_zero (parse_i64 (ar_display_value r))));
          display_value = int_text new_count in
      (normalize_value_to_hex display_value, display_value))"

definition calculate_max_value :: "dojo_types \<Rightarrow> ty \<Rightarrow> string \<Rightarrow> aggregation_row option \<Rightarrow> aggregation_error + string \<times> string" where
  "calculate_max_value D entity field_path existing =
     (case both_fields D entity field_path of
        Inl e \<Rightarrow> Inl e
      | Inr (new_normalized, new_display) \<Rightarrow>
          Inr (case existing of
                 None \<Rightarrow> (new_normalized, new_display)
               | Some r \<Rightarrow> if string_less (ar_value r) new_normalized then (new_normalized, new_display) else (ar_value r, ar_display_value r)))"

definition calculate_min_value :: "dojo_types \<Rightarrow> ty \<Rightarrow> string \<Rightarrow> aggregation_row option \<Rightarrow> aggregation_error + string \<times> string" where
  "calculate_min_value D entity field_path existing =
     (case both_fields D entity field_path of
        Inl e \<Rightarrow> Inl e
      | Inr (new_normalized, new_display) \<Rightarrow>
          Inr (case existing of
                 None \<Rightarrow> (new_normalized, new_display)
               | Some r \<Rightarrow> if string_less new_normalized (ar_value r) then (new_normalized, new_display) else (ar_value r, ar_display_value r)))"

definition calculate_sum_value :: "dojo_types \<Rightarrow> ty \<Rightarrow> string \<Rightarrow> aggregation_row option \<Rightarrow> aggregation_error + string \<times> string" where
  "calculate_sum_value D entity field_path existing =
     (case field_missing (extract_field_value D entity field_path False) of
        Inl e \<Rightarrow> Inl e
      | Inr new_display \<Rightarrow>
          (let new_val = or_zero (parse_display_to_i128 new_display);
               sum_value = (case existing of
                 None \<Rightarrow> new_val
               | Some r \<Rightarrow> saturating_add_i128 (or_zero (parse_display_to_i128 (ar_display_value r))) new_val);
               display_value = int_text sum_value in
           Inr (normalize_value_to_hex display_value, display_value)))"

text \<open>The sum and the count of an average are kept as JSON.\<close>

definition json_as_i64 :: "json \<Rightarrow> int option" where
  "json_as_i64 j = (case j of JU64 n \<Rightarrow> if unat n < 2 ^ 63 then Some (int (unat n)) else None | JNumber s \<Rightarrow> parse_i64 s | _ \<Rightarrow> None)"

definition avg_metadata :: "int \<Rightarrow> int \<Rightarrow> string" where
  "avg_metadata new_sum new_count =
     ''{'' @ quoted ''sum'' @ '':'' @ quoted (int_text new_sum) @ '','' @ quoted ''count'' @ '':'' @ int_text new_count @ ''}''"

definition existing_sum_and_count :: "json_text \<Rightarrow> string option \<Rightarrow> int \<times> int" where
  "existing_sum_and_count J meta =
     (case meta of
        None \<Rightarrow> (0, 0)
      | Some s \<Rightarrow>
          (case json_from_str J s of
             Inl _ \<Rightarrow> (0, 0)
           | Inr parsed \<Rightarrow>
               (or_zero (parse_display_to_i128 (case Option.bind (json_get ''sum'' parsed) as_str of None \<Rightarrow> ''0'' | Some t \<Rightarrow> t)),
                or_zero (Option.bind (json_get ''count'' parsed) json_as_i64))))"

definition calculate_avg_value ::
  "dojo_types \<Rightarrow> json_text \<Rightarrow> ty \<Rightarrow> string \<Rightarrow> aggregation_row option \<Rightarrow> aggregation_error + string \<times> string \<times> string" where
  "calculate_avg_value D J entity field_path existing =
     (case field_missing (extract_field_value D entity field_path False) of
        Inl e \<Rightarrow> Inl e
      | Inr new_display \<Rightarrow>
          (case existing_sum_and_count J (Option.bind existing ar_metadata) of
             (existing_sum, existing_count) \<Rightarrow>
               (let new_sum = saturating_add_i128 existing_sum (or_zero (parse_display_to_i128 new_display));
                    new_count = next_i64 existing_count;
                    avg_value = (if new_count > 0 then new_sum sdiv new_count else 0);
                    display_value = int_text avg_value in
                Inr (normalize_value_to_hex display_value, display_value, avg_metadata new_sum new_count))))"

definition aggregate_value ::
  "dojo_types \<Rightarrow> json_text \<Rightarrow> aggregation \<Rightarrow> ty \<Rightarrow> aggregation_row option \<Rightarrow> aggregation_error + string \<times> string \<times> string option" where
  "aggregate_value D J agg entity existing =
     (case agg of
        Latest path \<Rightarrow> map_sum id (\<lambda>(n, d). (n, d, None)) (calculate_latest_value D entity path)
      | Count \<Rightarrow> (case calculate_count_value existing of (n, d) \<Rightarrow> Inr (n, d, None))
      | Max path \<Rightarrow> map_sum id (\<lambda>(n, d). (n, d, None)) (calculate_max_value D entity path existing)
      | Min path \<Rightarrow> map_sum id (\<lambda>(n, d). (n, d, None)) (calculate_min_value D entity path existing)
      | Sum path \<Rightarrow> map_sum id (\<lambda>(n, d). (n, d, None)) (calculate_sum_value D entity path existing)
      | Avg path \<Rightarrow> map_sum id (\<lambda>(n, d, m). (n, d, Some m)) (calculate_avg_value D J entity path existing))"

section \<open>Entries\<close>

text \<open>
  The position is the number of the row, in descending order of the value, among the rows that are selected; and only the entry itself is selected. A value that is
  no hexadecimal number of 64 digits panics when the entry is published.
\<close>

definition row_number :: "aggregation_row \<Rightarrow> aggregation_row list \<Rightarrow> nat" where
  "row_number r selected =
     Suc (length (filter (\<lambda>x. ar_aggregator_id x = ar_aggregator_id r \<and> string_less (ar_value r) (ar_value x)) selected))"

definition upsert_aggregation_entry ::
  "u256_text \<Rightarrow> string \<Rightarrow> aggregation_row \<Rightarrow> aggregation_table \<Rightarrow> (aggregation_error + aggregation_entry) \<times> aggregation_table" where
  "upsert_aggregation_entry U entry_id row A =
     (let A' = al_insert entry_id row A;
          selected = map snd (filter (\<lambda>(i, _). i = entry_id) A') in
      case from_be_hex U (trim_0x (ar_value row)) of
        None \<Rightarrow> (Inl AggregationPanic, A')
      | Some v \<Rightarrow>
          (Inr \<lparr>ag_id = entry_id, ag_aggregator_id = ar_aggregator_id row, ag_entity_id = ar_entity_id row, ag_value = v,
                ag_display_value = ar_display_value row, ag_position = of_nat (row_number row selected), ag_model_id = ar_model_id row\<rparr>, A'))"

fun group_parts :: "dojo_types \<Rightarrow> ty \<Rightarrow> string list \<Rightarrow> string list option" where
  "group_parts D entity [] = Some []"
| "group_parts D entity (path # paths) =
     (case extract_field_value D entity path False of
        None \<Rightarrow> None
      | Some v \<Rightarrow> map_option (\<lambda>vs. v # vs) (group_parts D entity paths))"

definition update_aggregation ::
  "dojo_types \<Rightarrow> json_text \<Rightarrow> u256_text \<Rightarrow> aggregator_config \<Rightarrow> ty \<Rightarrow> string \<Rightarrow> aggregation_table \<Rightarrow>
   (aggregation_error + aggregation_entry option) \<times> aggregation_table" where
  "update_aggregation D J U config entity model_id A =
     (case group_parts D entity (agc_group_by config) of
        None \<Rightarrow> (Inr None, A)
      | Some entity_id_parts \<Rightarrow>
          (let entity_id = join_with '':'' entity_id_parts;
               entry_id = agc_id config @ '':'' @ entity_id in
           case aggregate_value D J (agc_aggregation config) entity (map_of A entry_id) of
             Inl e \<Rightarrow> (Inl e, A)
           | Inr (normalized_value, display_value, metadata) \<Rightarrow>
               (case upsert_aggregation_entry U entry_id
                       \<lparr>ar_aggregator_id = agc_id config, ar_entity_id = entity_id, ar_value = normalized_value, ar_display_value = display_value,
                        ar_metadata = metadata, ar_model_id = model_id\<rparr> A of
                  (Inl e, A') \<Rightarrow> (Inl e, A')
                | (Inr entry, A') \<Rightarrow> (Inr (Some entry), A'))))"

text \<open>All aggregators of a model, one after the other; errors are logged, and a panic ends the executor (\<open>None\<close>).\<close>

definition get_aggregator_for_model :: "aggregator_config list \<Rightarrow> string \<Rightarrow> aggregator_config list" where
  "get_aggregator_for_model configs model_tag = filter (\<lambda>c. agc_model_tag c = model_tag) configs"

fun update_aggregations ::
  "dojo_types \<Rightarrow> json_text \<Rightarrow> u256_text \<Rightarrow> aggregator_config list \<Rightarrow> ty \<Rightarrow> string \<Rightarrow> aggregation_table \<Rightarrow>
   aggregation_entry list option \<times> aggregation_table" where
  "update_aggregations D J U [] entity model_id A = (Some [], A)"
| "update_aggregations D J U (config # configs) entity model_id A =
     (case update_aggregation D J U config entity model_id A of
        (Inl AggregationPanic, A') \<Rightarrow> (None, A')
      | (Inl _, A') \<Rightarrow> update_aggregations D J U configs entity model_id A'
      | (Inr x, A') \<Rightarrow>
          (case update_aggregations D J U configs entity model_id A' of
             (es, A'') \<Rightarrow> (map_option (\<lambda>es. (case x of None \<Rightarrow> es | Some e \<Rightarrow> e # es)) es, A'')))"

end
