(* ===== verification/EntityStore.thy ===== *)
theory EntityStore
  imports Aggregator
begin

text \<open>
  Storing and deleting entities: \<open>set_entity\<close> and \<open>delete_entity\<close> of \<open>crates/sqlite/sqlite/src/storage.rs\<close>, which send queries, and the branches of
  \<open>Executor::handle_query_message\<close> that run them. An entity has a row in \<open>entities\<close>, one in \<open>entity_model\<close> for every model it has, and one in the table of each of these
  models.

  Storing also updates the aggregations of the model. The hooks are the user's own SQL, whose effect is the parameter \<open>ee_sql\<close>. Times are texts. A query that fails is logged and the next
  one is run; a panic ends the executor.
\<close>

section \<open>Tables\<close>

record entity_row =
  er_entity_id :: string
  er_world_address :: string
  er_keys :: "string option"
  er_event_id :: string
  er_executed_at :: string

record historical_row =
  hr_id :: string
  hr_keys :: "string option"
  hr_event_id :: string
  hr_data :: string
  hr_model_id :: string
  hr_executed_at :: string
  hr_world_address :: string
  hr_entity_id :: string

record 'c entity_tables =
  et_models :: "(string \<times> ty) list"
  et_entities :: "(string \<times> entity_row) list"
  et_entity_model :: "((string \<times> string) \<times> int) list"
  et_historical :: "historical_row list"
  et_rows :: "(string \<times> 'c model_rows) list"
  et_aggregations :: aggregation_table

section \<open>Queries\<close>

record entity_query =
  eq_world_address :: string
  eq_hashed_keys :: string
  eq_event_id :: string
  eq_block_timestamp :: string
  eq_entity_id :: string
  eq_model_id :: string
  eq_keys_str :: "string option"
  eq_ty :: ty
  eq_is_historical :: bool

record delete_entity_query =
  dq_model_id :: string
  dq_entity_id :: string
  dq_event_id :: string
  dq_block_timestamp :: string
  dq_ty :: ty

datatype entity_statement =
  SetEntity entity_query
| DeleteEntity delete_entity_query
| LinkModel string string
| StoreModel string "(string \<times> string) list"
| HookStatement string string

datatype hook_event = ModelRegistered string | ModelUpdated string | ModelDeleted string

record hook =
  hk_event :: hook_event
  hk_statement :: string

record 'c entity_env =
  ee_dojo :: dojo_types
  ee_formats :: text_formats
  ee_reader :: "'c row_reader"
  ee_store :: "string \<Rightarrow> string \<Rightarrow> string \<Rightarrow> 'c"
  ee_now :: string
  ee_time :: "u64 \<Rightarrow> string"
  ee_historical :: "felt list"
  ee_hooks :: "hook list"
  ee_aggregators :: "aggregator_config list"
  ee_sql :: "string \<Rightarrow> string \<Rightarrow> ('c entity_tables, failure, unit) stateful"

datatype entity_message = AggregationUpdated aggregation_entry | EntityUpdated entity_update

type_synonym ('c, 'a) entity_run = "('c entity_tables, failure, 'a) stateful"

section \<open>The executor's side\<close>

definition table_failure :: "string \<Rightarrow> table_error \<Rightarrow> failure" where
  "table_failure model_id e = (case e of TablePanic \<Rightarrow> QPanic | TableError _ \<Rightarrow> QErr (QModelMappingError model_id))"

definition entity_model :: "'c entity_env \<Rightarrow> string \<Rightarrow> string \<Rightarrow> ('c, ty option) entity_run" where
  "entity_model E model_id entity_id T =
     (case map_of (et_models T) model_id of
        None \<Rightarrow> (Inl (QErr (QSqlx ''RowNotFound'')), T)
      | Some schema \<Rightarrow>
          (case map_of (et_rows T) (dt_name (ee_dojo E) schema) of
             None \<Rightarrow> (Inl (QErr (QSqlx ''no such table'')), T)
           | Some rows \<Rightarrow>
               (case map_of rows entity_id of
                  None \<Rightarrow> (Inr None, T)
                | Some cells \<Rightarrow>
                    (case map_row_to_ty (ee_dojo E) (ee_formats E) (ee_reader E) (whole_row (ee_reader E) schema cells) [] [] schema of
                       Inl e \<Rightarrow> (Inl (table_failure model_id e), T)
                     | Inr v \<Rightarrow> (Inr (Some v), T)))))"

definition felts_of :: "felt_text \<Rightarrow> string \<Rightarrow> felt list option" where
  "felts_of F s = those (map (felt_from_str F) (filter (\<lambda>k. k \<noteq> []) (split_on (CHR ''/'') s)))"

text \<open>The update for subscribers. Texts that are no field elements panic, and so does an updated model that is no struct.\<close>

definition to_entity_update :: "felt_text \<Rightarrow> entity_row \<Rightarrow> ty \<Rightarrow> ty option \<Rightarrow> bool \<Rightarrow> entity_update option" where
  "to_entity_update F r updated_model match_model deleted =
     (case (felts_of F (case er_keys r of None \<Rightarrow> [] | Some k \<Rightarrow> k), felt_from_str F (er_entity_id r), felt_from_str F (er_world_address r), updated_model) of
        (Some keys, Some hashed_keys, Some world_address, Struct n ms) \<Rightarrow>
          Some \<lparr>eu_world_address = world_address, eu_hashed_keys = hashed_keys, eu_models = [(n, ms)], eu_event_id = er_event_id r, eu_keys = keys,
                eu_deleted = deleted, eu_match_model = match_model\<rparr>
      | _ \<Rightarrow> None)"

definition upsert_entities :: "entity_query \<Rightarrow> ('c, entity_row) entity_run" where
  "upsert_entities q T =
     (let old = map_of (et_entities T) (eq_entity_id q);
          row = \<lparr>er_entity_id = eq_hashed_keys q, er_world_address = eq_world_address q,
                 er_keys = (case eq_keys_str q of Some k \<Rightarrow> Some k | None \<Rightarrow> Option.bind old er_keys),
                 er_event_id = eq_event_id q, er_executed_at = eq_block_timestamp q\<rparr> in
      (Inr row, T\<lparr>et_entities := al_insert (eq_entity_id q) row (et_entities T)\<rparr>))"

definition store_historical :: "'c entity_env \<Rightarrow> entity_query \<Rightarrow> ('c, unit) entity_run" where
  "store_historical E q T =
     (case split_once (CHR '':'') (eq_entity_id q) of
        None \<Rightarrow> (Inl QPanic, T)
      | Some (world_address, entity_id) \<Rightarrow>
          (case dt_to_json (ee_dojo E) (eq_ty q) of
             Inl e \<Rightarrow> (Inl (QErr (QPrimitive e)), T)
           | Inr j \<Rightarrow>
               (Inr (), T\<lparr>et_historical := et_historical T @
                  [\<lparr>hr_id = eq_entity_id q, hr_keys = eq_keys_str q, hr_event_id = eq_event_id q, hr_data = json_to_string (tx_json (ee_formats E)) j,
                    hr_model_id = eq_model_id q, hr_executed_at = eq_block_timestamp q, hr_world_address = world_address, hr_entity_id = entity_id\<rparr>]\<rparr>)))"

definition entity_counter :: "string \<Rightarrow> string \<Rightarrow> 'c entity_tables \<Rightarrow> int" where
  "entity_counter entity_id model_id T = (case map_of (et_entity_model T) (entity_id, model_id) of None \<Rightarrow> 0 | Some n \<Rightarrow> n)"

definition panic_unless :: "'a option \<Rightarrow> ('c, 'a) entity_run" where
  "panic_unless x T = (case x of None \<Rightarrow> (Inl QPanic, T) | Some a \<Rightarrow> (Inr a, T))"

definition run_aggregations :: "'c entity_env \<Rightarrow> entity_query \<Rightarrow> ('c, aggregation_entry list) entity_run" where
  "run_aggregations E q T =
     (case update_aggregations (ee_dojo E) (tx_json (ee_formats E)) (tx_u256 (ee_formats E))
             (get_aggregator_for_model (ee_aggregators E) (dt_name (ee_dojo E) (eq_ty q))) (eq_ty q) (eq_model_id q) (et_aggregations T) of
        (None, A) \<Rightarrow> (Inl QPanic, T\<lparr>et_aggregations := A\<rparr>)
      | (Some es, A) \<Rightarrow> (Inr es, T\<lparr>et_aggregations := A\<rparr>))"

definition set_entity_query :: "'c entity_env \<Rightarrow> entity_query \<Rightarrow> ('c, entity_message list) entity_run" where
  "set_entity_query E q =
     and_then (upsert_entities q) (\<lambda>row.
     and_then (entity_model E (eq_model_id q) (eq_entity_id q)) (\<lambda>full_model.
     and_then (\<lambda>T. (Inr (entity_counter (eq_entity_id q) (eq_model_id q) T), T)) (\<lambda>counter.
     and_then (if eq_is_historical q then store_historical E q else ret ()) (\<lambda>_.
     and_then (\<lambda>T. (Inr (), T\<lparr>et_entity_model := al_insert (eq_entity_id q, eq_model_id q)
                                  (if eq_is_historical q then counter + 1 else counter) (et_entity_model T)\<rparr>)) (\<lambda>_.
     and_then (run_aggregations E q) (\<lambda>es.
     and_then (panic_unless (to_entity_update (tx_felt (ee_formats E)) row (eq_ty q) full_model False)) (\<lambda>u.
     ret (map AggregationUpdated es @ [EntityUpdated u]))))))))"

text \<open>Deleting a model of an entity: nothing happens if there was no row, and the entity itself is deleted with its last model.\<close>

definition delete_model_row :: "'c entity_env \<Rightarrow> delete_entity_query \<Rightarrow> ('c, bool) entity_run" where
  "delete_model_row E q T =
     (case map_of (et_rows T) (dt_name (ee_dojo E) (dq_ty q)) of
        None \<Rightarrow> (Inl (QErr (QSqlx ''no such table'')), T)
      | Some rows \<Rightarrow>
          (Inr (map_of rows (dq_entity_id q) \<noteq> None), T\<lparr>et_rows := al_insert (dt_name (ee_dojo E) (dq_ty q)) (al_remove (dq_entity_id q) rows) (et_rows T)\<rparr>))"

definition unlink_model :: "delete_entity_query \<Rightarrow> ('c, entity_row) entity_run" where
  "unlink_model q T =
     (let T = T\<lparr>et_entity_model := al_remove (dq_entity_id q, dq_model_id q) (et_entity_model T)\<rparr> in
      case map_of (et_entities T) (dq_entity_id q) of
        None \<Rightarrow> (Inl (QErr (QSqlx ''RowNotFound'')), T)
      | Some r \<Rightarrow>
          (let r = r\<lparr>er_executed_at := dq_block_timestamp q, er_event_id := dq_event_id q\<rparr> in
           (Inr r, T\<lparr>et_entities := al_insert (dq_entity_id q) r (et_entities T)\<rparr>)))"

definition delete_if_last :: "string \<Rightarrow> ('c, bool) entity_run" where
  "delete_if_last entity_id T =
     (if list_ex (\<lambda>((e, m), n). e = entity_id) (et_entity_model T) then (Inr False, T)
      else (Inr True, T\<lparr>et_entities := al_remove entity_id (et_entities T)\<rparr>))"

definition delete_entity_handler :: "'c entity_env \<Rightarrow> delete_entity_query \<Rightarrow> ('c, entity_message list) entity_run" where
  "delete_entity_handler E q =
     and_then (entity_model E (dq_model_id q) (dq_entity_id q)) (\<lambda>found.
     case found of
       None \<Rightarrow> fail (QErr (QModelNotFound (dq_model_id q)))
     | Some model \<Rightarrow>
         and_then (delete_model_row E q) (\<lambda>affected.
         if \<not> affected then ret []
         else
           and_then (unlink_model q) (\<lambda>row.
           and_then (delete_if_last (dq_entity_id q)) (\<lambda>deleted.
           and_then (panic_unless (to_entity_update (tx_felt (ee_formats E)) row (Struct (dt_name (ee_dojo E) (dq_ty q)) []) (Some model) deleted)) (\<lambda>u.
           ret [EntityUpdated u])))))"

text \<open>The statements without a handler of their own; storing a model fails if its table does not exist.\<close>

definition link_model :: "string \<Rightarrow> string \<Rightarrow> ('c, unit) entity_run" where
  "link_model entity_id model_id T =
     (Inr (), T\<lparr>et_entity_model := al_upsert (entity_id, model_id) id 0 (et_entity_model T)\<rparr>)"

definition store_model :: "'c entity_env \<Rightarrow> string \<Rightarrow> (string \<times> string) list \<Rightarrow> ('c, unit) entity_run" where
  "store_model E table cs T =
     (case map_of (et_rows T) table of
        None \<Rightarrow> (Inl (QErr (QSqlx ''no such table'')), T)
      | Some rows \<Rightarrow> (Inr (), T\<lparr>et_rows := al_insert table (upsert_entity (ee_store E table) cs rows) (et_rows T)\<rparr>))"

definition run_entity_statement :: "'c entity_env \<Rightarrow> entity_statement \<Rightarrow> ('c, entity_message list) entity_run" where
  "run_entity_statement E s =
     (case s of
        SetEntity q \<Rightarrow> set_entity_query E q
      | DeleteEntity q \<Rightarrow> delete_entity_handler E q
      | LinkModel e m \<Rightarrow> and_then (link_model e m) (\<lambda>_. ret [])
      | StoreModel table cs \<Rightarrow> and_then (store_model E table cs) (\<lambda>_. ret [])
      | HookStatement sql a \<Rightarrow> and_then (ee_sql E sql a) (\<lambda>_. ret []))"

section \<open>The storage's side\<close>

definition felts_to_sql_string :: "felt_text \<Rightarrow> felt list \<Rightarrow> string" where
  "felts_to_sql_string F fs = join_with ''/'' (map (felt_hex F) fs) @ ''/''"

definition hook_statements :: "'c entity_env \<Rightarrow> hook_event \<Rightarrow> string \<Rightarrow> entity_statement list" where
  "hook_statements E ev entity_id = map (\<lambda>h. HookStatement (hk_statement h) entity_id) (filter (\<lambda>h. hk_event h = ev) (ee_hooks E))"

text \<open>The queries that are sent. If the columns of the entity cannot be made, the first two have been sent already.\<close>

definition set_entity ::
  "'c entity_env \<Rightarrow> felt \<Rightarrow> ty \<Rightarrow> string \<Rightarrow> u64 \<Rightarrow> felt \<Rightarrow> felt \<Rightarrow> felt list option \<Rightarrow> entity_statement list \<times> (table_error + unit)" where
  "set_entity E world_address entity event_id block_timestamp entity_id model_selector keys =
     (let F = tx_felt (ee_formats E);
          namespaced_name = dt_name (ee_dojo E) entity;
          scoped_entity_id = format_world_scoped_id F world_address entity_id;
          scoped_model_id = format_world_scoped_id F world_address model_selector;
          sent = [SetEntity \<lparr>eq_world_address = felt_hex F world_address, eq_hashed_keys = felt_hex F entity_id, eq_event_id = event_id,
                    eq_block_timestamp = ee_time E block_timestamp, eq_entity_id = scoped_entity_id, eq_model_id = scoped_model_id,
                    eq_keys_str = map_option (felts_to_sql_string F) keys, eq_ty = entity, eq_is_historical = (model_selector \<in> set (ee_historical E))\<rparr>,
                  LinkModel scoped_entity_id scoped_model_id] in
      case entity_columns (ee_dojo E) (tx_json (ee_formats E)) (ee_time E block_timestamp) (ee_now E) event_id scoped_entity_id entity of
        Inl e \<Rightarrow> (sent, Inl e)
      | Inr cs \<Rightarrow> (sent @ StoreModel namespaced_name cs # hook_statements E (ModelUpdated namespaced_name) scoped_entity_id, Inr ()))"

definition delete_entity :: "'c entity_env \<Rightarrow> felt \<Rightarrow> felt \<Rightarrow> felt \<Rightarrow> ty \<Rightarrow> string \<Rightarrow> u64 \<Rightarrow> entity_statement list" where
  "delete_entity E world_address entity_id model_id entity event_id block_timestamp =
     (let F = tx_felt (ee_formats E);
          scoped_entity_id = format_world_scoped_id F world_address entity_id in
      DeleteEntity \<lparr>dq_model_id = format_world_scoped_id F world_address model_id, dq_entity_id = scoped_entity_id, dq_event_id = event_id,
         dq_block_timestamp = ee_time E block_timestamp, dq_ty = entity\<rparr> #
      hook_statements E (ModelDeleted (dt_name (ee_dojo E) entity)) scoped_entity_id)"

text \<open>The executor runs the queries one after the other; the updates it publishes are collected, with a flag for being alive.\<close>

fun run_entity_statements :: "'c entity_env \<Rightarrow> entity_statement list \<Rightarrow> 'c entity_tables \<Rightarrow> (entity_message list \<times> bool) \<times> 'c entity_tables" where
  "run_entity_statements E [] T = (([], True), T)"
| "run_entity_statements E (s # ss) T =
     (case run_entity_statement E s T of
        (Inl e, T') \<Rightarrow> if e = QPanic then (([], False), T') else run_entity_statements E ss T'
      | (Inr us, T') \<Rightarrow> (case run_entity_statements E ss T' of ((us', ok), T'') \<Rightarrow> ((us @ us', ok), T'')))"

end
