(* ===== verification/ModelTableSpec.thy ===== *)
theory ModelTableSpec
  imports ModelTable LedgerSpec Subscriptions "HOL-Library.Sublist" "HOL-Library.Countable"
begin

text \<open>
  What the table of a model promises: its columns are the ones that are written and read, upgrading adds the missing ones, and an entity that is stored is read back
  as it was; except that fixed-size arrays are never read back.
\<close>

section \<open>Schemas and values\<close>

text \<open>The columns of a schema with their types, as a reference for the three functions of the code that walk over a type.\<close>

fun column_types :: "dojo_types \<Rightarrow> string \<Rightarrow> ty \<Rightarrow> (string \<times> string) list"
  and types_struct :: "dojo_types \<Rightarrow> string \<Rightarrow> member list \<Rightarrow> (string \<times> string) list"
  and types_tuple :: "dojo_types \<Rightarrow> string \<Rightarrow> nat \<Rightarrow> ty list \<Rightarrow> (string \<times> string) list"
  and types_options :: "dojo_types \<Rightarrow> string \<Rightarrow> enum_option list \<Rightarrow> (string \<times> string) list" where
  "column_types D path (Struct n ms) = types_struct D path ms"
| "column_types D path (Tuple ts) = types_tuple D path 0 ts"
| "column_types D path (Enum n sel opts) = (path, ''TEXT'') # types_options D path opts"
| "column_types D path (Array ts) = [(path, ''TEXT'')]"
| "column_types D path (FixedSizeArray ts n) = [(path, ''TEXT'')]"
| "column_types D path (Primitive p) = [(path, dt_sql_type D p)]"
| "column_types D path (ByteArray s) = [(path, ''TEXT'')]"
| "types_struct D path [] = []"
| "types_struct D path (Member name t k # ms) = column_types D (dotted path name) t @ types_struct D path ms"
| "types_tuple D path i [] = []"
| "types_tuple D path i (t # ts) = column_types D (dotted path (dec_digits i)) t @ types_tuple D path (Suc i) ts"
| "types_options D path [] = []"
| "types_options D path (EnumOption name t # opts) =
     (if t = Tuple [] then types_options D path opts else column_types D (path @ ''.'' @ name) t @ types_options D path opts)"

text \<open>Names are not empty, and an enum's options have different names.\<close>

fun named :: "ty \<Rightarrow> bool"
  and named_struct :: "member list \<Rightarrow> bool"
  and named_tuple :: "ty list \<Rightarrow> bool"
  and named_options :: "enum_option list \<Rightarrow> bool" where
  "named (Struct n ms) = (distinct (map mb_name ms) \<and> named_struct ms)"
| "named (Tuple ts) = named_tuple ts"
| "named (Enum n sel opts) = (distinct (map eo_name opts) \<and> length opts \<le> 256 \<and> named_options opts)"
| "named (Array ts) = True"
| "named (FixedSizeArray ts n) = True"
| "named (Primitive p) = True"
| "named (ByteArray s) = True"
| "named_struct [] = True"
| "named_struct (Member name t k # ms) = (name \<noteq> [] \<and> named t \<and> named_struct ms)"
| "named_tuple [] = True"
| "named_tuple (t # ts) = (named t \<and> named_tuple ts)"
| "named_options [] = True"
| "named_options (EnumOption name t # opts) = (name \<noteq> [] \<and> named t \<and> named_options opts)"

definition kind :: "primitive \<Rightarrow> nat" where
  "kind p = (case p of I8 _ \<Rightarrow> 0 | I16 _ \<Rightarrow> 1 | I32 _ \<Rightarrow> 2 | I64 _ \<Rightarrow> 3 | U8 _ \<Rightarrow> 4 | U16 _ \<Rightarrow> 5 | U32 _ \<Rightarrow> 6 | Bool _ \<Rightarrow> 7
     | I128 _ \<Rightarrow> 8 | U64 _ \<Rightarrow> 9 | U128 _ \<Rightarrow> 10 | U256 _ \<Rightarrow> 11 | Felt252 _ \<Rightarrow> 12 | ClassHash _ \<Rightarrow> 13 | ContractAddress _ \<Rightarrow> 14 | EthAddress _ \<Rightarrow> 15)"

definition hex64 :: "nat \<Rightarrow> string" where
  "hex64 n = (let ds = hex_digits n in ''0x'' @ replicate (64 - length ds) (CHR ''0'') @ ds)"

text \<open>The documented text of a primitive value in SQL; \<open>None\<close> for a primitive without a value.\<close>

definition primitive_text :: "primitive \<Rightarrow> string option" where
  "primitive_text p =
     (case p of
        I8 w \<Rightarrow> map_option (\<lambda>v. int_text (sint v)) w | I16 w \<Rightarrow> map_option (\<lambda>v. int_text (sint v)) w | I32 w \<Rightarrow> map_option (\<lambda>v. int_text (sint v)) w
      | I64 w \<Rightarrow> map_option (\<lambda>v. int_text (sint v)) w
      | U8 w \<Rightarrow> map_option (\<lambda>v. int_text (uint v)) w | U16 w \<Rightarrow> map_option (\<lambda>v. int_text (uint v)) w | U32 w \<Rightarrow> map_option (\<lambda>v. int_text (uint v)) w
      | Bool b \<Rightarrow> map_option (\<lambda>v. int_text (of_bool v)) b
      | I128 w \<Rightarrow> map_option (\<lambda>v. hex64 (unat v)) w | U64 w \<Rightarrow> map_option (\<lambda>v. hex64 (unat v)) w | U128 w \<Rightarrow> map_option (\<lambda>v. hex64 (unat v)) w
      | U256 w \<Rightarrow> map_option (\<lambda>v. hex64 (unat v)) w
      | Felt252 f \<Rightarrow> map_option hex64 f | ClassHash f \<Rightarrow> map_option hex64 f | ContractAddress f \<Rightarrow> map_option hex64 f | EthAddress f \<Rightarrow> map_option hex64 f)"

text \<open>A value of a schema: the schema with its values filled in, of an enum only those of the selected option. Fixed-size arrays are left out.\<close>

fun conforms :: "ty \<Rightarrow> ty \<Rightarrow> bool"
  and conforms_struct :: "member list \<Rightarrow> member list \<Rightarrow> bool"
  and conforms_tuple :: "ty list \<Rightarrow> ty list \<Rightarrow> bool"
  and conforms_option :: "nat \<Rightarrow> enum_option list \<Rightarrow> enum_option list \<Rightarrow> bool" where
  "conforms (Primitive p) v = (case v of Primitive q \<Rightarrow> kind p = kind q \<and> primitive_text q \<noteq> None | _ \<Rightarrow> False)"
| "conforms (Struct n ms) v = (case v of Struct n' ms' \<Rightarrow> n = n' \<and> conforms_struct ms ms' | _ \<Rightarrow> False)"
| "conforms (Enum n sel opts) v = (case v of Enum n' (Some i) opts' \<Rightarrow> n = n' \<and> conforms_option (unat i) opts opts' | _ \<Rightarrow> False)"
| "conforms (Tuple ts) v = (case v of Tuple vs \<Rightarrow> conforms_tuple ts vs | _ \<Rightarrow> False)"
| "conforms (Array ts) v = (case v of Array vs \<Rightarrow> (case ts of [] \<Rightarrow> False | s # _ \<Rightarrow> list_all (conforms s) vs) | _ \<Rightarrow> False)"
| "conforms (FixedSizeArray ts n) v = False"
| "conforms (ByteArray s) v = (case v of ByteArray _ \<Rightarrow> True | _ \<Rightarrow> False)"
| "conforms_struct [] ms' = (ms' = [])"
| "conforms_struct (Member name t k # ms) ms' =
     (case ms' of Member name' v k' # ms'' \<Rightarrow> name = name' \<and> k = k' \<and> conforms t v \<and> conforms_struct ms ms'' | [] \<Rightarrow> False)"
| "conforms_tuple [] vs = (vs = [])"
| "conforms_tuple (t # ts) vs = (case vs of v # vs' \<Rightarrow> conforms t v \<and> conforms_tuple ts vs' | [] \<Rightarrow> False)"
| "conforms_option i [] opts' = False"
| "conforms_option i (EnumOption name t # opts) opts' =
     (case opts' of
        [] \<Rightarrow> False
      | EnumOption name' v # opts'' \<Rightarrow>
          name = name' \<and>
          (case i of 0 \<Rightarrow> conforms t v \<and> opts = opts'' | Suc j \<Rightarrow> t = v \<and> conforms_option j opts opts''))"

lemma conforms_unit: "conforms t v \<Longrightarrow> v = Tuple [] \<longleftrightarrow> t = Tuple []"
  by (cases t; cases v) (auto split: list.splits elim: conforms_tuple.elims)

lemma conforms_option_names: "conforms_option n opts opts' \<Longrightarrow> n < length opts \<and> map eo_name opts' = map eo_name opts"
proof (induction opts arbitrary: n opts')
  case (Cons x opts)
  then show ?case by (cases x) (auto split: list.splits enum_option.splits nat.splits)
qed simp

text \<open>The name under which a selected row has the column of a path.\<close>

definition agree :: "string \<Rightarrow> string \<Rightarrow> string \<Rightarrow> bool" where
  "agree P path pre \<longleftrightarrow> (if pre = [] then path = [] \<and> P = [] \<or> path \<noteq> [] \<and> P = path @ ''.'' else path = P @ pre)"

lemma agree_dotted: "agree P path pre \<Longrightarrow> n \<noteq> [] \<Longrightarrow> dotted path n = P @ dotted pre n \<and> agree P (dotted path n) (dotted pre n)"
  by (auto simp: agree_def dotted_def split: if_splits)

definition row_has :: "string \<Rightarrow> (string \<Rightarrow> string \<Rightarrow> 'c) \<Rightarrow> (string \<Rightarrow> 'c option) \<Rightarrow> (string \<times> string) list \<Rightarrow> bool" where
  "row_has P store row cs \<longleftrightarrow> (\<forall>x\<in>set cs. row (P @ fst x) = Some (store (fst x) (snd x)))"

definition stores :: "(string \<Rightarrow> string \<Rightarrow> 'c) \<Rightarrow> (string \<Rightarrow> string \<Rightarrow> 'c) \<Rightarrow> (string \<times> string) list \<Rightarrow> bool" where
  "stores store aff cols \<longleftrightarrow> (\<forall>x\<in>set cols. store (fst x) = aff (snd x))"

lemma row_has_simps [simp]:
  "row_has P store row []" "row_has P store row (x # cs) \<longleftrightarrow> row (P @ fst x) = Some (store (fst x) (snd x)) \<and> row_has P store row cs"
  "row_has P store row (cs @ cs') \<longleftrightarrow> row_has P store row cs \<and> row_has P store row cs'"
  by (auto simp: row_has_def)

lemma stores_simps [simp]:
  "stores store aff []" "stores store aff (x # cs) \<longleftrightarrow> store (fst x) = aff (snd x) \<and> stores store aff cs"
  "stores store aff (cs @ cs') \<longleftrightarrow> stores store aff cs \<and> stores store aff cs'"
  by (auto simp: stores_def)

section \<open>Columns\<close>

lemma columns_names [simp]:
  "map fst (column_types D path t) = collect_columns path t"
  "map fst (types_struct D path ms) = columns_struct path ms"
  "map fst (types_tuple D path i ts) = columns_tuple path i ts"
  "map fst (types_options D path opts) = columns_options path opts"
  by (induction path t and path ms and path i ts and path opts rule: collect_columns_columns_struct_columns_tuple_columns_options.induct) simp_all

lemma types_struct_map: "types_struct D path ms = concat (map (\<lambda>m. column_types D (dotted path (mb_name m)) (mb_ty m)) ms)"
proof (induction ms)
  case (Cons m ms)
  then show ?case by (cases m) simp
qed simp

lemma types_tuple_map: "types_tuple D path i ts = concat (map (\<lambda>(j, t). column_types D (dotted path (dec_digits j)) t) (enumerate i ts))"
  by (induction ts arbitrary: i) simp_all

lemma types_options_map:
  "types_options D path opts = concat (map (\<lambda>x. if eo_ty x = Tuple [] then [] else column_types D (path @ ''.'' @ eo_name x) (eo_ty x)) opts)"
proof (induction opts)
  case (Cons x opts)
  then show ?case by (cases x) simp
qed simp

lemma named_members: "named_struct ms \<Longrightarrow> m \<in> set ms \<Longrightarrow> mb_name m \<noteq> [] \<and> named (mb_ty m)"
proof (induction ms)
  case (Cons m' ms)
  then show ?case by (cases m') auto
qed simp

lemma named_elements: "named_tuple ts \<Longrightarrow> t \<in> set ts \<Longrightarrow> named t"
  by (induction ts) auto

lemma named_variants: "named_options opts \<Longrightarrow> x \<in> set opts \<Longrightarrow> eo_name x \<noteq> [] \<and> named (eo_ty x)"
proof (induction opts)
  case (Cons y opts)
  then show ?case by (cases y) auto
qed simp

lemma all_changes_parts:
  "fst (all_changes cs) = concat (map fst cs)" "fst (snd (all_changes cs)) = concat (map (fst \<circ> snd) cs)"
  by (induction cs) (simp_all add: all_changes_def both_def)

lemma join_snoc: "ps \<noteq> [] \<Longrightarrow> join_with ''.'' (ps @ [n]) = join_with ''.'' ps @ ''.'' @ n"
  by (induction "''.''" ps rule: join_with.induct) simp_all

definition name_path :: "string list \<Rightarrow> bool" where
  "name_path ps \<longleftrightarrow> (\<forall>n\<in>set ps. n \<noteq> [])"

lemma join_ne: "name_path ps \<Longrightarrow> ps \<noteq> [] \<Longrightarrow> join_with ''.'' ps \<noteq> []"
  by (cases ps rule: remdups_adj.cases) (auto simp: name_path_def)

lemma join_dotted: "name_path ps \<Longrightarrow> join_with ''.'' (ps @ [n]) = dotted (join_with ''.'' ps) n"
  using join_ne[of ps] by (cases "ps = []") (auto simp: dotted_def join_snoc)

lemma digits_ne [simp]: "dec_digits i \<noteq> []"
  using dec_digits_spec by blast

definition typed :: "column_def \<Rightarrow> string \<times> string" where
  "typed d = (cd_name d, cd_type d)"

lemma typed_record [simp]: "typed \<lparr>cd_name = n, cd_type = t, cd_check = c\<rparr> = (n, t)"
  by (simp add: typed_def)

lemma no_diff [simp]: "member_diff None x = None" "tuple_diff None i = None" "option_diff None x = None"
  by (simp_all add: member_diff_def tuple_diff_def option_diff_def)

lemma enumerate_member: "(i, t) \<in> set (enumerate k ts) \<Longrightarrow> t \<in> set ts"
  by (metis in_set_enumerate_eq nth_mem add.commute less_diff_conv2 fst_conv snd_conv)

lemma created_columns:
  "named t \<Longrightarrow> name_path ps \<Longrightarrow> ps \<noteq> [] \<or> as_struct t \<noteq> None \<Longrightarrow> sd = None \<Longrightarrow> ud = None \<Longrightarrow>
   map typed (fst (add_columns E ps t sd ud k)) = column_types (te_dojo E) (join_with ''.'' ps) t"
proof (induction E ps t sd ud k rule: add_columns.induct)
  case (1 E path n ms sd ud k)
  have "map typed (fst (add_columns E (path @ [mb_name m]) (mb_ty m) None None (mb_key m))) =
      column_types (te_dojo E) (dotted (join_with ''.'' path) (mb_name m)) (mb_ty m)" if "m \<in> set ms" for m
    using 1(1)[OF that] named_members[of ms m] 1(2-) that by (simp add: name_path_def join_dotted)
  then show ?case using 1(5,6) by (simp add: all_changes_parts types_struct_map map_concat comp_def cong: map_cong)
next
  case (2 E path ts sd ud k)
  have "map typed (fst (add_columns E (path @ [dec_digits i]) t None None k)) = column_types (te_dojo E) (dotted (join_with ''.'' path) (dec_digits i)) t"
    if "(i, t) \<in> set (enumerate 0 ts)" for i t
    using 2(1)[OF that refl] named_elements[of ts t] enumerate_member[OF that] 2(2-) by (simp add: name_path_def join_dotted)
  then show ?case using 2(5,6)
    by (auto simp: all_changes_parts types_tuple_map map_concat comp_def case_prod_unfold intro!: arg_cong[of _ _ concat] map_cong)
next
  case (5 E path n sel opts sd ud k)
  have ne: "path \<noteq> []" "join_with ''.'' path \<noteq> []" using 5(3,4) join_ne[of path] by auto
  have "map typed (fst (add_columns E (path @ [eo_name x]) (eo_ty x) None None k)) =
      column_types (te_dojo E) (join_with ''.'' path @ ''.'' @ eo_name x) (eo_ty x)" if "x \<in> set opts" "eo_ty x \<noteq> Tuple []" for x
    using 5(1)[OF _ that, of "join_with ''.'' path"] named_variants[of opts x] 5(2-) that ne by (simp add: name_path_def join_snoc or_default_def)
  then show ?case using 5(5,6) ne
    by (auto simp: all_changes_parts types_options_map map_concat comp_def both_def put_column_def enum_placement_def or_default_def Let_def
        intro!: arg_cong[of _ _ concat] map_cong)
qed (use join_ne in \<open>auto simp: put_column_def text_placement_def primitive_changes_def or_default_def Let_def\<close>)

text \<open>A part of the schema that is new as a whole gets its columns by \<open>ALTER TABLE\<close>.\<close>

lemma find_member: "distinct (map mb_name ms) \<Longrightarrow> m \<in> set ms \<Longrightarrow> List.find (\<lambda>x. mb_name x = mb_name m) ms = Some m"
  by (induction ms) auto

lemma find_option: "distinct (map eo_name opts) \<Longrightarrow> x \<in> set opts \<Longrightarrow> List.find (\<lambda>y. eo_name y = eo_name x) opts = Some x"
  by (induction opts) auto

lemma enumerate_nth: "(i, t) \<in> set (enumerate 0 ts) \<Longrightarrow> i < length ts \<and> t = ts ! i"
  by (simp add: in_set_enumerate_eq)

definition altered :: "table_changes \<Rightarrow> table_changes \<Rightarrow> bool" where
  "altered created c \<longleftrightarrow> fst c = [] \<and> fst (snd c) = map AddColumn (fst created)"

lemma altered_none [simp]: "altered ([], [], []) ([], [], [])"
  by (simp add: altered_def)

lemma altered_both: "altered a a' \<Longrightarrow> altered b b' \<Longrightarrow> altered (both a b) (both a' b')"
  by (simp add: altered_def both_def)

lemma altered_all: "\<forall>x\<in>set xs. altered (f x) (g x) \<Longrightarrow> altered (all_changes (map f xs)) (all_changes (map g xs))"
  by (induction xs) (simp_all add: all_changes_def altered_both)

lemma added_columns:
  "named t \<Longrightarrow> sd = Some t \<Longrightarrow> ud = None \<Longrightarrow> altered (add_columns E ps t None None k) (add_columns E ps t sd ud k)"
proof (induction E ps t sd ud k rule: add_columns.induct)
  case (1 E path n ms sd ud k)
  have "altered (add_columns E (path @ [mb_name m]) (mb_ty m) None None (mb_key m)) (add_columns E (path @ [mb_name m]) (mb_ty m) (member_diff (Some ms) (mb_name m)) None (mb_key m))"
    if "m \<in> set ms" for m
    using 1(1)[OF that] named_members[of ms m] 1(2-) that find_member[of ms m] by (simp add: member_diff_def)
  then show ?case using 1(3,4) by (simp add: altered_all)
next
  case (2 E path ts sd ud k)
  have "altered (add_columns E (path @ [dec_digits i]) t None None k) (add_columns E (path @ [dec_digits i]) t (tuple_diff (Some ts) i) None k)"
    if "(i, t) \<in> set (enumerate 0 ts)" for i t
    using 2(1)[OF that refl] named_elements[of ts t] enumerate_member[OF that] 2(2-) enumerate_nth[OF that] by (simp add: tuple_diff_def)
  then show ?case using 2(3,4) by (auto intro: altered_all)
next
  case (5 E path n sel opts sd ud k)
  have "altered (add_columns E (path @ [eo_name x]) (eo_ty x) None None k) (add_columns E (path @ [eo_name x]) (eo_ty x) (option_diff (Some opts) (eo_name x)) None k)"
    if "x \<in> set opts" "eo_ty x \<noteq> Tuple []" for x
    using 5(1)[OF refl that] named_variants[of opts x] 5(2-) that find_option[of opts x] by (simp add: option_diff_def)
  then show ?case using 5(3,4)
    by (auto simp: Let_def put_column_def enum_placement_def altered_def[of "([_], _)"] intro!: altered_both altered_all)
qed (auto simp: put_column_def text_placement_def primitive_changes_def altered_def Let_def)

section \<open>Reading back\<close>

lemma hex64_trim: "trim_0x (hex64 n) = replicate (64 - length (hex_digits n)) (CHR ''0'') @ hex_digits n"
  using hex_digits_spec[of n] by (simp add: hex64_def Let_def trim_plain)

lemma radix16_hex64: "n < 2 ^ bits \<Longrightarrow> radix16 bits (trim_0x (hex64 n)) = Some n"
proof -
  assume n: "n < 2 ^ bits"
  let ?s = "replicate (64 - length (hex_digits n)) (CHR ''0'') @ hex_digits n"
  have p: "plain ?s" "?s \<noteq> []" "digits_value 0 ?s = Some n" using hex_digits_spec[of n] by (simp_all add: digits_value_append)
  then have "(case ?s of c # cs \<Rightarrow> if c = CHR ''+'' then cs else ?s | [] \<Rightarrow> []) = ?s" by (cases ?s) (auto simp: plain_def)
  then show "radix16 bits (trim_0x (hex64 n)) = Some n" unfolding hex64_trim radix16_def Let_def using p(2,3) n by simp
qed

lemma hex64_ne [simp]: "trim_0x (hex64 n) \<noteq> []" "hex64 n \<noteq> []"
  using hex_digits_spec[of n] by (simp_all add: hex64_trim) (simp add: hex64_def Let_def)

definition fits :: "nat \<Rightarrow> bool \<Rightarrow> int \<Rightarrow> bool" where
  "fits bits is_signed n \<longleftrightarrow> (if is_signed then - (2 ^ (bits - 1)) \<le> n \<and> n < 2 ^ (bits - 1) else 0 \<le> n \<and> n < 2 ^ bits)"

lemma fits_word:
  "fits LENGTH('a) True (sint (w :: 'a :: len word))" "fits LENGTH('a) False (uint w)"
  using sint_greater_eq[of w] sint_less[of w] unsigned_greater_eq[of w, where ?'a = int] unsigned_less[of w, where ?'a = int] by (simp_all add: fits_def)

lemma fits_words [simp]:
  "fits 8 True (sint (a :: 8 word))" "fits 16 True (sint (b :: 16 word))" "fits 32 True (sint (c :: 32 word))" "fits 64 True (sint (d :: 64 word))"
  "fits 8 False (uint a)" "fits 16 False (uint b)" "fits 32 False (uint c)"
  using fits_word[of a] fits_word[of b] fits_word[of c] fits_word[of d] by simp_all

lemma fits_i64: "fits 8 s n \<or> fits 16 s n \<or> fits 32 s n \<Longrightarrow> fits 64 True n"
  by (auto simp: fits_def split: if_splits)

text \<open>
  What is relied on: SQLite and its driver return a text as it was stored and a decimal number in an integer column as that number; the type and the text
  of a primitive, the name of an enum's option and the JSON of a value are as documented by \<open>dojo_types\<close>; texts of field elements and 256-bit numbers and JSON texts
  are read back.
\<close>

locale model_store =
  fixes D :: dojo_types and X :: text_formats and R :: "'c row_reader" and aff :: "string \<Rightarrow> string \<Rightarrow> 'c"
  assumes text_column: "rd_text R (aff ''TEXT'' s) = Some s"
    and int_column: "bits \<le> 64 \<Longrightarrow> fits bits is_signed n \<Longrightarrow> fits 64 True n \<Longrightarrow> rd_int R bits is_signed (aff ''INTEGER'' (int_text n)) = Some n"
    and bool_column: "rd_bool R (aff ''INTEGER'' (int_text (of_bool b))) = Some b"
    and sql_type: "dt_sql_type D p = (if kind p < 8 then ''INTEGER'' else ''TEXT'')"
    and sql_value: "primitive_text p = Some s \<Longrightarrow> dt_sql_value D p = s"
    and felt_reads: "felt_from_str (tx_felt X) (hex64 f) = Some f"
    and u256_reads: "from_be_hex (tx_u256 X) (trim_0x (hex64 (unat v))) = Some v"
    and json_reads: "json_from_str (tx_json X) (json_to_string (tx_json X) j) = Inr j" "json_to_string (tx_json X) j \<noteq> []"
    and enum_value: "unat i < length opts \<Longrightarrow> dt_enum_sql_value D (Some i) opts = eo_name (opts ! unat i)"
    and enum_set: "distinct (map eo_name opts) \<Longrightarrow> unat i < length opts \<Longrightarrow> dt_set_option D (eo_name (opts ! unat i)) opts = Inr i"
    and json_values: "conforms t x \<Longrightarrow> \<exists>j. dt_to_json D x = Inr j \<and> dt_from_json D t j = Inr x"
begin

lemma primitive_reads:
  assumes "kind p = kind q" "primitive_text q \<noteq> None"
  shows "read_primitive R X p (Some (aff (dt_sql_type D p) (dt_sql_value D q))) = Inr q"
proof -
  obtain s where s: "primitive_text q = Some s" using assms(2) by auto
  have small: "fits 64 True (sint (a :: 8 word))" "fits 64 True (sint (b :: 16 word))" "fits 64 True (sint (c :: 32 word))"
    "fits 64 True (uint a)" "fits 64 True (uint b)" "fits 64 True (uint c)" for a b c
    using fits_i64 fits_words by blast+
  have words: "radix16 64 (trim_0x (hex64 (unat (w :: 64 word)))) = Some (unat w)" "radix16 128 (trim_0x (hex64 (unat (x :: 128 word)))) = Some (unat x)" for w x
    using unsigned_less[of w, where ?'a = nat] unsigned_less[of x, where ?'a = nat] by (auto intro!: radix16_hex64)
  show ?thesis unfolding sql_value[OF s] sql_type
    using assms(1) s
    by (cases p; cases q) (auto simp: kind_def primitive_text_def read_primitive_def read_int_def read_bool_def read_text_def read_radix_def read_felt_def or_keep_def
      text_column int_column bool_column felt_reads u256_reads small words Let_def)
qed

lemma values_read: "list_all (conforms t) vs \<Longrightarrow> \<exists>js. to_json_values D vs = Inr js \<and> from_json_values D t js = Inr vs"
proof (induction vs)
  case (Cons v vs)
  obtain j where "dt_to_json D v = Inr j" "dt_from_json D t j = Inr v" using json_values[of t v] Cons.prems by auto
  then show ?case using Cons by auto
qed simp

text \<open>A value of the schema is always stored, in some of the columns of the schema and in their order.\<close>

lemma collect_total:
  "conforms t v \<Longrightarrow> \<exists>cs. collect_members D (tx_json X) pre v = Inr cs \<and> subseq (map fst cs) (collect_columns pre t)"
  "conforms_struct ms ms' \<Longrightarrow> \<exists>cs. collect_struct D (tx_json X) pre ms' = Inr cs \<and> subseq (map fst cs) (columns_struct pre ms)"
  "conforms_tuple ts vs \<Longrightarrow> \<exists>cs. collect_tuple D (tx_json X) pre i vs = Inr cs \<and> subseq (map fst cs) (columns_tuple pre i ts)"
  "conforms_option n opts opts' \<Longrightarrow> \<exists>cs. collect_option D (tx_json X) pre n opts' = Inr cs \<and> subseq (map fst cs) (columns_options pre opts)"
proof (induction t v and ms ms' and ts vs and n opts opts' arbitrary: pre and pre and pre i and pre
    rule: conforms_conforms_struct_conforms_tuple_conforms_option.induct)
  case (3 n sel opts v)
  then obtain i opts' where v: "v = Enum n (Some i) opts'" "conforms_option (unat i) opts opts'" by (auto split: ty.splits option.splits)
  from 3(1)[OF v(1) refl v(2), of pre] show ?case by (auto simp: v(1))
next
  case (5 ts v)
  then obtain s ss vs where "ts = s # ss" "v = Array vs" "list_all (conforms s) vs" by (auto split: ty.splits list.splits)
  then show ?case using values_read[of s vs] by (auto simp: array_cell_def)
next
  case (9 name t k ms ms')
  then obtain v ms'' where m: "ms' = Member name v k # ms''" "conforms t v" "conforms_struct ms ms''" by (auto split: list.splits member.splits)
  obtain cs cs' where "collect_members D (tx_json X) (dotted pre name) v = Inr cs" "subseq (map fst cs) (collect_columns (dotted pre name) t)"
    "collect_struct D (tx_json X) pre ms'' = Inr cs'" "subseq (map fst cs') (columns_struct pre ms)"
    using 9(1)[OF m(1) refl m(2)] 9(2)[OF m(1) refl m(3)] by blast
  then show ?case by (simp add: m(1) list_emb_append_mono)
next
  case (11 t ts vs)
  then obtain v vs' where m: "vs = v # vs'" "conforms t v" "conforms_tuple ts vs'" by (auto split: list.splits)
  obtain cs cs' where "collect_members D (tx_json X) (dotted pre (dec_digits i)) v = Inr cs" "subseq (map fst cs) (collect_columns (dotted pre (dec_digits i)) t)"
    "collect_tuple D (tx_json X) pre (Suc i) vs' = Inr cs'" "subseq (map fst cs') (columns_tuple pre (Suc i) ts)"
    using 11(1)[OF m(1,2)] 11(2)[OF m(1,3)] by blast
  then show ?case by (simp add: m(1) list_emb_append_mono)
next
  case (13 n name t opts opts')
  then obtain v opts'' where m: "opts' = EnumOption name v # opts''" by (auto split: list.splits enum_option.splits)
  show ?case
  proof (cases n)
    case 0
    then have c: "conforms t v" "opts'' = opts" using 13(3) m by auto
    then obtain cs where "collect_members D (tx_json X) (pre @ ''.'' @ name) v = Inr cs" "subseq (map fst cs) (collect_columns (pre @ ''.'' @ name) t)"
      using 13(1)[OF m refl 0] by blast
    then show ?thesis using 0 conforms_unit[OF c(1)] by (auto simp: m list_emb_append2 list_emb_append_mono[of _ _ _ "[]", simplified])
  next
    case (Suc j)
    then have "conforms_option j opts opts''" using 13(3) m by simp
    then obtain cs where "collect_option D (tx_json X) pre j opts'' = Inr cs" "subseq (map fst cs) (columns_options pre opts)"
      using 13(2)[OF m refl Suc] by blast
    then show ?thesis using Suc by (auto simp: m list_emb_append2)
  qed
qed (auto split: ty.splits)

end

context model_store
begin

lemma unselected: "name \<notin> set (map eo_name opts) \<Longrightarrow> map_row_options D X R row path name opts = Inr opts"
proof (induction opts)
  case (Cons x opts)
  then show ?case by (cases x) auto
qed simp

lemma reads_back:
  "conforms t v \<Longrightarrow> named t \<Longrightarrow> agree P path pre \<Longrightarrow> name \<noteq> [] \<Longrightarrow> collect_members D (tx_json X) (dotted pre name) v = Inr cs \<Longrightarrow>
     row_has P store row cs \<Longrightarrow> stores store aff (column_types D (dotted pre name) t) \<Longrightarrow> map_row_to_ty D X R row path name t = Inr v"
  "conforms_struct ms ms' \<Longrightarrow> named_struct ms \<Longrightarrow> agree P path pre \<Longrightarrow> collect_struct D (tx_json X) pre ms' = Inr cs \<Longrightarrow>
     row_has P store row cs \<Longrightarrow> stores store aff (types_struct D pre ms) \<Longrightarrow> map_row_members D X R row path ms = Inr ms'"
  "conforms_tuple ts vs \<Longrightarrow> named_tuple ts \<Longrightarrow> agree P path pre \<Longrightarrow> collect_tuple D (tx_json X) pre i vs = Inr cs \<Longrightarrow>
     row_has P store row cs \<Longrightarrow> stores store aff (types_tuple D pre i ts) \<Longrightarrow> map_row_tuple D X R row path i ts = Inr vs"
  "conforms_option n opts opts' \<Longrightarrow> named_options opts \<Longrightarrow> distinct (map eo_name opts) \<Longrightarrow> agree P path pre \<Longrightarrow> pre \<noteq> [] \<Longrightarrow>
     collect_option D (tx_json X) pre n opts' = Inr cs \<Longrightarrow> row_has P store row cs \<Longrightarrow> stores store aff (types_options D pre opts) \<Longrightarrow>
     map_row_options D X R row path (eo_name (opts ! n)) opts = Inr opts'"
proof (induction t v and ms ms' and ts vs and n opts opts' arbitrary: path pre name cs and path pre cs and path pre i cs and path pre cs
    rule: conforms_conforms_struct_conforms_tuple_conforms_option.induct)
  case (1 p v)
  then obtain q where q: "v = Primitive q" "kind p = kind q" "primitive_text q \<noteq> None" by (auto split: ty.splits)
  then show ?case using 1 primitive_reads[OF q(2,3)] agree_dotted[of P path pre name] by (auto simp: sql_type)
next
  case (2 n ms v)
  then obtain ms' where v: "v = Struct n ms'" "conforms_struct ms ms'" by (auto split: ty.splits)
  show ?case using 2(1)[OF v(1) v(2), of "dotted path name" "dotted pre name" cs] 2(3-) agree_dotted[of P path pre name] by (auto simp: v(1))
next
  case (3 n sel opts v)
  then obtain i opts' where v: "v = Enum n (Some i) opts'" "conforms_option (unat i) opts opts'" by (auto split: ty.splits option.splits)
  note names = conforms_option_names[OF v(2)]
  have len: "length opts' = length opts" using names map_eq_imp_length_eq by blast
  then have nm: "eo_name (opts' ! unat i) = eo_name (opts ! unat i)" using names by (metis nth_map)
  have ne: "eo_name (opts ! unat i) \<noteq> []" using named_variants[of opts "opts ! unat i"] 3(3) names by simp
  from 3(6) v obtain cs' where c: "collect_option D (tx_json X) (dotted pre name) (unat i) opts' = Inr cs'"
    "cs = (dotted pre name, eo_name (opts ! unat i)) # cs'" using enum_value[of i opts'] names len nm by (auto split: sum.splits)
  have d: "dotted path name = P @ dotted pre name" "agree P (dotted path name) (dotted pre name)" "dotted pre name \<noteq> []"
    using agree_dotted[OF 3(4,5)] 3(5) by (auto simp: dotted_def)
  have t: "read_text R (row (dotted path name)) = Inr (eo_name (opts ! unat i))"
    using 3(7,8) unfolding d(1) c(2) by (simp add: read_text_def text_column)
  have r: "map_row_options D X R row (dotted path name) (eo_name (opts ! unat i)) opts = Inr opts'"
    using 3(1)[OF v(1) refl v(2) _ _ d(2,3) c(1)] 3(3,7,8) c(2) by simp
  show ?case using t r ne enum_set[of opts i] names 3(3) by (simp add: v(1))
next
  case (4 ts v)
  then obtain vs where v: "v = Tuple vs" "conforms_tuple ts vs" by (auto split: ty.splits)
  show ?case using 4(1)[OF v(1) v(2), of "dotted path name" "dotted pre name" 0 cs] 4(3-) agree_dotted[of P path pre name] by (auto simp: v(1))
next
  case (5 ts v)
  then obtain s ss vs where s: "ts = s # ss" "v = Array vs" "list_all (conforms s) vs" by (auto split: ty.splits list.splits)
  obtain js where js: "to_json_values D vs = Inr js" "from_json_values D s js = Inr vs" using values_read[OF s(3)] by blast
  show ?case using 5 s js agree_dotted[of P path pre name] by (auto simp: array_cell_def read_array_def read_text_def text_column json_reads)
next
  case (7 s v)
  then show ?case using agree_dotted[of P path pre name] by (auto simp: read_text_def text_column split: ty.splits)
next
  case (9 name t k ms ms')
  then obtain v ms'' where m: "ms' = Member name v k # ms''" "conforms t v" "conforms_struct ms ms''" by (auto split: list.splits member.splits)
  from 9(6) obtain cs1 cs2 where c: "collect_members D (tx_json X) (dotted pre name) v = Inr cs1" "collect_struct D (tx_json X) pre ms'' = Inr cs2" "cs = cs1 @ cs2"
    by (auto simp: m(1) split: sum.splits)
  show ?case using 9(1)[OF m(1) refl m(2) _ 9(5) _ c(1)] 9(2)[OF m(1) refl m(3) _ 9(5) c(2)] 9(4,7,8) by (simp add: m(1) c(3))
next
  case (11 t ts vs)
  then obtain v vs' where m: "vs = v # vs'" "conforms t v" "conforms_tuple ts vs'" by (auto split: list.splits)
  from 11(6) obtain cs1 cs2 where c: "collect_members D (tx_json X) (dotted pre (dec_digits i)) v = Inr cs1" "collect_tuple D (tx_json X) pre (Suc i) vs' = Inr cs2" "cs = cs1 @ cs2"
    by (auto simp: m(1) split: sum.splits)
  show ?case using 11(1)[OF m(1) m(2) _ 11(5) _ c(1)] 11(2)[OF m(1) m(3) _ 11(5) c(2)] 11(4,7,8) by (simp add: m(1) c(3))
next
  case (13 n name t opts opts')
  then obtain v opts'' where m: "opts' = EnumOption name v # opts''" by (auto split: list.splits enum_option.splits)
  show ?case
  proof (cases n)
    case 0
    then have c: "conforms t v" "opts'' = opts" using 13(3) m by auto
    have un: "map_row_options D X R row path name opts = Inr opts" using 13(5) by (intro unselected) simp
    have "map_row_to_ty D X R row path name t = Inr v"
    proof (cases "t = Tuple []")
      case False
      have e: "dotted pre name = pre @ ''.'' @ name" using 13(7) by (simp add: dotted_def)
      show ?thesis using 13(1)[OF m refl 0 c(1) _ 13(6), of name cs] 13(4,8-) False conforms_unit[OF c(1)] 0 by (simp add: m e split: if_splits)
    qed (use conforms_unit[OF c(1)] in simp)
    then show ?thesis using un 0 by (simp add: m c(2))
  next
    case (Suc j)
    then have c: "conforms_option j opts opts''" "v = t" using 13(3) m by auto
    then have "eo_name (opts ! j) \<noteq> name" using 13(5) conforms_option_names[OF c(1)] by auto
    then show ?thesis using 13(2)[OF m refl Suc c(1) _ _ 13(6,7), of cs] 13(4,5,8-) Suc by (simp add: m c(2) split: if_splits)
  qed
qed auto

end

lemma subseq_set: "subseq xs ys \<Longrightarrow> set xs \<subseteq> set ys"
  by (induction rule: list_emb.induct) auto

lemma subseq_distinct_sub:
  assumes "subseq xs ys" "distinct ys"
  shows "distinct xs" "set xs \<subseteq> set ys"
proof -
  show "set xs \<subseteq> set ys" using assms(1) by (rule subseq_set)
  show "distinct xs" using assms by (induction rule: list_emb.induct) (auto dest: subseq_set)
qed

lemma failing_member:
  "map_row_to_ty D X R row path name t = Inl e \<Longrightarrow> Member name t k \<in> set ms \<Longrightarrow> \<exists>e'. map_row_members D X R row path ms = Inl e'"
proof (induction ms)
  case (Cons m ms)
  then show ?case by (cases m) (auto split: sum.splits)
qed simp

section \<open>Rows\<close>

lemma set_cells_other: "c \<notin> set (map fst cs) \<Longrightarrow> map_of (set_cells store cs cells) c = map_of cells c"
  by (induction store cs cells rule: set_cells.induct) (auto simp: al_insert_def)

lemma set_cells_lookup: "distinct (map fst cs) \<Longrightarrow> x \<in> set cs \<Longrightarrow> map_of (set_cells store cs cells) (fst x) = Some (store (fst x) (snd x))"
  by (induction store cs cells rule: set_cells.induct) (auto simp: set_cells_other al_insert_def split: option.splits)

lemma selected_lookup: "c \<in> set (collect_columns [] schema) \<Longrightarrow> selected_row R tbl schema cells (tbl @ ''.'' @ c) = whole_row R schema cells c"
proof -
  assume c: "c \<in> set (collect_columns [] schema)"
  have "filter (\<lambda>x. tbl @ ''.'' @ x = tbl @ ''.'' @ c) xs = replicate (count_list xs c) c" for xs by (induction xs) auto
  moreover have "count_list (collect_columns [] schema) c \<noteq> 0" using c by (simp add: count_list_0_iff)
  ultimately show ?thesis by (cases "count_list (collect_columns [] schema) c") (auto simp: selected_row_def)
qed

definition internal_columns :: "string list" where
  "internal_columns = [''internal_id'', ''internal_event_id'', ''internal_entity_id'', ''internal_event_message_id'', ''internal_executed_at'', ''internal_created_at'', ''internal_updated_at'']"

text \<open>How the created table stores a text in a column.\<close>

definition table_store :: "table_env \<Rightarrow> ty \<Rightarrow> (string \<Rightarrow> string \<Rightarrow> 'c) \<Rightarrow> string \<Rightarrow> string \<Rightarrow> 'c" where
  "table_store E schema aff c =
     aff (case map_of (map (\<lambda>d. (cd_name d, cd_type d)) (fst (add_columns E [] schema None None False))) c of None \<Rightarrow> ''TEXT'' | Some ty \<Rightarrow> ty)"

lemma table_store_types:
  assumes "named schema" "as_struct schema \<noteq> None" "distinct (collect_columns [] schema)"
  shows "stores (table_store E schema aff) aff (column_types (te_dojo E) [] schema)"
proof -
  have t: "map (\<lambda>d. (cd_name d, cd_type d)) (fst (add_columns E [] schema None None False)) = column_types (te_dojo E) [] schema"
    using created_columns[OF assms(1), of "[]" None None E False] assms(2) by (simp add: name_path_def typed_def[abs_def])
  have "distinct (map fst (column_types (te_dojo E) [] schema))" using assms(3) by simp
  then show ?thesis unfolding stores_def table_store_def t by (auto simp: map_of_is_SomeI)
qed

lemma named_struct_append: "named_struct (ms @ ms') \<longleftrightarrow> named_struct ms \<and> named_struct ms'"
proof (induction ms)
  case (Cons m ms)
  then show ?case by (cases m) simp
qed simp

lemma created_no_alter: "sd = None \<Longrightarrow> ud = None \<Longrightarrow> fst (snd (add_columns E ps t sd ud k)) = []"
  by (induction E ps t sd ud k rule: add_columns.induct)
    (auto simp: all_changes_parts both_def put_column_def text_placement_def enum_placement_def primitive_changes_def Let_def)



text \<open>The cells of a row hold a value if every column of the value has its text.\<close>

definition holds_value :: "dojo_types \<Rightarrow> text_formats \<Rightarrow> (string \<Rightarrow> string \<Rightarrow> 'c) \<Rightarrow> (string \<times> 'c) list \<Rightarrow> ty \<Rightarrow> bool" where
  "holds_value D X store cells v \<longleftrightarrow>
     (\<exists>vs. collect_members D (tx_json X) [] v = Inr vs \<and> (\<forall>y\<in>set vs. map_of cells (fst y) = Some (store (fst y) (snd y))))"

context model_store
begin

lemma upsert_holds:
  assumes "conforms (Struct n ms) v" and "distinct (internal_columns @ collect_columns [] (Struct n ms))"
  obtains cs where "entity_columns D (tx_json X) executed_at now event_id entity_id v = Inr cs" "snd (hd cs) = entity_id"
    "\<And>old. holds_value D X store (set_cells store cs old) v"
proof -
  obtain vs where vs: "collect_members D (tx_json X) [] v = Inr vs" "subseq (map fst vs) (collect_columns [] (Struct n ms))"
    using collect_total(1)[OF assms(1)] by blast
  obtain k x where all: "entity_columns D (tx_json X) executed_at now event_id entity_id v =
      Inr ([(''internal_id'', entity_id), (''internal_event_id'', event_id), (''internal_executed_at'', executed_at), (''internal_updated_at'', now), (k, x)] @ vs)"
    and k: "k = ''internal_event_message_id'' \<or> k = ''internal_entity_id''"
    by (auto simp: entity_columns_def vs(1))
  let ?cs = "[(''internal_id'', entity_id), (''internal_event_id'', event_id), (''internal_executed_at'', executed_at), (''internal_updated_at'', now), (k, x)] @ vs"
  have dc: "distinct (collect_columns [] (Struct n ms))" "set internal_columns \<inter> set (collect_columns [] (Struct n ms)) = {}" using assms(2) by auto
  note sub = subseq_distinct_sub[OF vs(2) dc(1)]
  have "c \<notin> set (map fst vs)" if "c \<in> set internal_columns" for c using dc(2) sub(2) that by blast
  then have dist: "distinct (map fst ?cs)" using sub(1) k by (auto simp: internal_columns_def)
  have "holds_value D X store (set_cells store ?cs old) v" for old
    unfolding holds_value_def using vs(1) set_cells_lookup[OF dist, of _ store old] by auto
  then show thesis using all by (intro that[of ?cs]) simp_all
qed

lemma holds_row:
  assumes "holds_value D X store cells v" and "conforms (Struct n ms) v"
    and "\<And>c. c \<in> set (collect_columns [] (Struct n ms)) \<Longrightarrow> row (P @ c) = whole_row R (Struct n ms) cells c"
  obtains vs where "collect_members D (tx_json X) [] v = Inr vs" "row_has P store row vs"
proof -
  obtain vs where vs: "collect_members D (tx_json X) [] v = Inr vs" "\<forall>y\<in>set vs. map_of cells (fst y) = Some (store (fst y) (snd y))"
    using assms(1) by (auto simp: holds_value_def)
  have "set (map fst vs) \<subseteq> set (collect_columns [] (Struct n ms))" using collect_total(1)[OF assms(2), of "[]"] vs(1) subseq_set by fastforce
  then have "row (P @ fst y) = Some (store (fst y) (snd y))" if "y \<in> set vs" for y
    using assms(3)[of "fst y"] vs(2) that by (auto simp: whole_row_def)
  then have "row_has P store row vs" unfolding row_has_def by blast
  then show thesis using vs(1) that by blast
qed

text \<open>Such a row is read back as the value, as a whole and as the selected row.\<close>

lemma holds_reads:
  assumes "te_dojo E = D" and "named (Struct n ms)" and "conforms (Struct n ms) v" and "distinct (internal_columns @ collect_columns [] (Struct n ms))"
    and holds: "holds_value D X (table_store E (Struct n ms) aff) cells v"
  shows "map_row_to_ty D X R (whole_row R (Struct n ms) cells) [] [] (Struct n ms) = Inr v"
    and "tbl \<noteq> [] \<Longrightarrow> map_row_to_ty D X R (selected_row R tbl (Struct n ms) cells) [] tbl (Struct n ms) = Inr v"
proof -
  obtain vms where v: "v = Struct n vms" "conforms_struct ms vms" using assms(3) by (auto split: ty.splits)
  have st: "stores (table_store E (Struct n ms) aff) aff (types_struct D [] ms)"
    using table_store_types[OF assms(2), of E aff] assms(1,4) by simp
  have read: "map_row_members D X R row path ms = Inr vms"
    if ag: "agree P path []" and ro: "\<And>c. c \<in> set (collect_columns [] (Struct n ms)) \<Longrightarrow> row (P @ c) = whole_row R (Struct n ms) cells c" for row path P
  proof -
    obtain vs where "collect_members D (tx_json X) [] v = Inr vs" "row_has P (table_store E (Struct n ms) aff) row vs"
      using holds_row[OF holds assms(3) ro] by blast
    then show ?thesis using reads_back(2)[OF v(2) _ ag _ _ st] assms(2) v(1) by simp
  qed
  show "map_row_to_ty D X R (whole_row R (Struct n ms) cells) [] [] (Struct n ms) = Inr v"
    using read[of "[]" "[]"] by (simp add: dotted_def agree_def v(1))
  show "map_row_to_ty D X R (selected_row R tbl (Struct n ms) cells) [] tbl (Struct n ms) = Inr v" if "tbl \<noteq> []"
    using read[of "tbl @ ''.''" tbl "selected_row R tbl (Struct n ms) cells"] that selected_lookup[of _ "Struct n ms" R tbl cells]
    by (simp add: dotted_def agree_def v(1))
qed

end

text \<open>
  A column that was never written, as after an upgrade, reads as an empty text. That leaves the schema's value of all primitives that are kept as text but the
  signed 128-bit numbers, with which the whole row cannot be read.
\<close>

lemma struct_column: "Member name (Primitive p) k \<in> set ms \<Longrightarrow> name \<in> set (columns_struct [] ms)"
proof (induction ms)
  case (Cons m ms)
  then show ?case by (cases m) (auto simp: dotted_def)
qed simp

lemma null_i128_unreadable:
  assumes "rd_text R (rd_null R) = Some []" and m: "Member name (Primitive (I128 d)) k \<in> set ms" and "name \<noteq> []" "tbl \<noteq> []" "map_of cells name = None"
  shows "\<exists>e. map_row_to_ty D X R (selected_row R tbl (Struct n ms) cells) [] tbl (Struct n ms) = Inl e"
proof -
  have "selected_row R tbl (Struct n ms) cells (dotted tbl name) = Some (rd_null R)"
    using selected_lookup[of name "Struct n ms" R tbl cells] struct_column[OF m] assms(3-5) by (simp add: dotted_def whole_row_def)
  then have "\<exists>e. map_row_to_ty D X R (selected_row R tbl (Struct n ms) cells) tbl name (Primitive (I128 d)) = Inl e"
    using assms(1) by (simp add: read_primitive_def read_text_def radix16_def)
  then obtain e where "map_row_to_ty D X R (selected_row R tbl (Struct n ms) cells) tbl name (Primitive (I128 d)) = Inl e" by blast
  from failing_member[OF this m] show ?thesis by (auto simp: dotted_def)
qed

lemma null_text_kept:
  assumes "rd_text R (rd_null R) = Some []" and "kind p \<in> {9, 10, 11, 12, 13, 14, 15}"
  shows "read_primitive R X p (Some (rd_null R)) = Inr p"
  using assms by (cases p) (auto simp: kind_def read_primitive_def read_text_def read_radix_def read_felt_def or_keep_def Let_def)

section \<open>A concrete store\<close>

text \<open>Cells that keep their text, and any numbering of values as their JSON, satisfy the interface.\<close>

instance json :: countable
  by countable_datatype

instance primitive :: countable
  by countable_datatype

instance ty :: countable
  by countable_datatype

definition numbered_json :: json_text where
  "numbered_json = \<lparr>json_from_str = (\<lambda>s. case parse_digits s of None \<Rightarrow> Inl ''json'' | Some n \<Rightarrow> Inr (from_nat n)), json_to_string = (\<lambda>j. dec_digits (to_nat j))\<rparr>"

definition plain_formats :: text_formats where
  "plain_formats = \<lparr>tx_json = numbered_json, tx_felt = hex_text, tx_u256 = hex_u256\<rparr>"

definition text_reader :: "string row_reader" where
  "text_reader = \<lparr>rd_text = Some, rd_int = (\<lambda>_ _ s. signed_value s), rd_bool = (\<lambda>s. map_option (\<lambda>i. i \<noteq> 0) (signed_value s)), rd_null = []\<rparr>"

definition plain_dojo :: dojo_types where
  "plain_dojo = \<lparr>dt_name = (\<lambda>t. case t of Struct n _ \<Rightarrow> n | _ \<Rightarrow> []),
     dt_sql_value = (\<lambda>p. case primitive_text p of None \<Rightarrow> [] | Some s \<Rightarrow> s), dt_sql_type = (\<lambda>p. if kind p < 8 then ''INTEGER'' else ''TEXT''),
     dt_enum_sql_value = (\<lambda>sel opts. case sel of None \<Rightarrow> [] | Some i \<Rightarrow> if unat i < length opts then eo_name (opts ! unat i) else []),
     dt_enum_option = (\<lambda>_ _. None),
     dt_set_option = (\<lambda>name opts. case position (\<lambda>x. eo_name x = name) opts of None \<Rightarrow> Inl name | Some i \<Rightarrow> Inr (of_nat i)),
     dt_to_json = (\<lambda>t. Inr (JString (dec_digits (to_nat t)))),
     dt_from_json = (\<lambda>_ j. case j of JString s \<Rightarrow> (case parse_digits s of None \<Rightarrow> Inl s | Some n \<Rightarrow> Inr (from_nat n)) | _ \<Rightarrow> Inl []),
     dt_less = (\<lambda>_ _. False), dt_less_eq = (\<lambda>_ _. False), dt_as_u32 = (\<lambda>_. None)\<rparr>"

lemma position_distinct: "distinct (map eo_name opts) \<Longrightarrow> i < length opts \<Longrightarrow> position (\<lambda>x. eo_name x = eo_name (opts ! i)) opts = Some i"
proof (induction opts arbitrary: i)
  case (Cons x opts)
  then show ?case by (cases i) (auto simp: nth_mem)
qed simp

interpretation plain_store: model_store plain_dojo plain_formats text_reader "\<lambda>_ s. s"
proof unfold_locales
  fix v :: u256
  have "from_be_hex hex_u256 (drop 2 (hex64 (unat v))) = Some v"
    using hex_numbers.reads_back[of v] by (simp add: sql_string_to_u256_def u256_to_sql_string_def hex_u256_def hex64_def Let_def)
  then show "from_be_hex (tx_u256 plain_formats) (trim_0x (hex64 (unat v))) = Some v"
    unfolding hex64_trim by (simp add: plain_formats_def hex64_def Let_def)
next
  fix f
  have "digits_value 0 (trim_0x (hex64 f)) = Some f" using hex_digits_spec[of f] by (simp add: hex64_trim digits_value_append)
  then show "felt_from_str (tx_felt plain_formats) (hex64 f) = Some f" by (simp add: plain_formats_def hex_text_def)
next
  fix opts :: "enum_option list" and i :: "8 word"
  assume "distinct (map eo_name opts)" "unat i < length opts"
  then show "dt_set_option plain_dojo (eo_name (opts ! unat i)) opts = Inr i" by (simp add: plain_dojo_def position_distinct)
qed (auto simp: plain_dojo_def plain_formats_def text_reader_def numbered_json_def signed_int_text split: option.splits)

definition sample_schema :: ty where
  "sample_schema = Struct ''ns-Unit'' [Member ''id'' (Primitive (U32 None)) True, Member ''name'' (ByteArray []) False,
     Member ''state'' (Enum ''State'' None [EnumOption ''Idle'' (Tuple []), EnumOption ''At'' (Struct ''Vec'' [Member ''x'' (Primitive (I8 None)) False])]) False]"

definition sample_unit :: ty where
  "sample_unit = Struct ''ns-Unit'' [Member ''id'' (Primitive (U32 (Some 7))) True, Member ''name'' (ByteArray ''bob'') False,
     Member ''state'' (Enum ''State'' (Some 1) [EnumOption ''Idle'' (Tuple []), EnumOption ''At'' (Struct ''Vec'' [Member ''x'' (Primitive (I8 (Some 3))) False])]) False]"

definition sample_table_env :: table_env where
  "sample_table_env = \<lparr>te_config = \<lparr>all_model_indices = False, model_indices = []\<rparr>, te_dojo = plain_dojo, te_table_id = ''ns-Unit''\<rparr>"

lemma sample_facts:
  "named sample_schema" "conforms sample_schema sample_unit" "te_dojo sample_table_env = plain_dojo" "dt_name plain_dojo sample_schema = ''ns-Unit''"
  "collect_columns [] sample_schema = [''id'', ''name'', ''state'', ''state.At.x'']"
  by (simp_all add: sample_schema_def sample_unit_def sample_table_env_def plain_dojo_def kind_def primitive_text_def dotted_def)

section \<open>Properties\<close>

text \<open>
  The three walks over a schema agree: the table that is created for a model has exactly the columns that a query selects, in the same order, and a value of the schema
  is stored in some of them.
\<close>

theorem model_columns_agree:
  assumes "model_store (te_dojo E) X R aff" and "named (Struct n ms)" and "conforms (Struct n ms) v"
  shows "map cd_name (fst (add_columns E [] (Struct n ms) None None False)) = collect_columns [] (Struct n ms) \<and>
    (\<exists>cs. collect_members (te_dojo E) (tx_json X) [] v = Inr cs \<and> subseq (map fst cs) (collect_columns [] (Struct n ms)))"
proof
  have "map fst (map typed (fst (add_columns E [] (Struct n ms) None None False))) = collect_columns [] (Struct n ms)"
    using created_columns[OF assms(2), of "[]" None None E False] by (simp add: name_path_def)
  then show "map cd_name (fst (add_columns E [] (Struct n ms) None None False)) = collect_columns [] (Struct n ms)" by (simp add: typed_def comp_def)
  show "\<exists>cs. collect_members (te_dojo E) (tx_json X) [] v = Inr cs \<and> subseq (map fst cs) (collect_columns [] (Struct n ms))"
    by (rule model_store.collect_total(1)[OF assms(1,3)])
qed

theorem model_columns_agree_witness:
  "map cd_name (fst (add_columns sample_table_env [] sample_schema None None False)) = [''id'', ''name'', ''state'', ''state.At.x'']"
  using model_columns_agree[OF _ sample_facts(1,2)[unfolded sample_schema_def], of sample_table_env plain_formats text_reader "\<lambda>_ s. s"]
    plain_store.model_store_axioms sample_facts(3,5)
  unfolding sample_schema_def by (simp add: dotted_def)

text \<open>
  C10. An entity that is stored is read back as it was, whatever the row held before: if the names of the columns are different and the entity is a value of the schema
  without fixed-size arrays, the statement of \<open>set_entity_model\<close> on the created table, followed by the selection of the columns and the reading of the row, returns the entity.
\<close>

theorem stored_entity_reads_back:
  assumes "model_store (te_dojo E) X R aff" and "named (Struct n ms)" and "conforms (Struct n ms) v"
    and "distinct (internal_columns @ collect_columns [] (Struct n ms))" and "dt_name (te_dojo E) (Struct n ms) \<noteq> []"
  shows "\<exists>cs cells. entity_columns (te_dojo E) (tx_json X) executed_at now event_id entity_id v = Inr cs \<and>
    map_of (upsert_entity (table_store E (Struct n ms) aff) cs rows) entity_id = Some cells \<and>
    read_model (te_dojo E) X R (selected_row R (dt_name (te_dojo E) (Struct n ms)) (Struct n ms) cells) (Struct n ms) = Inr v"
proof -
  let ?D = "te_dojo E" and ?S = "Struct n ms" and ?store = "table_store E (Struct n ms) aff"
  obtain cs where cs: "entity_columns ?D (tx_json X) executed_at now event_id entity_id v = Inr cs" "snd (hd cs) = entity_id"
    and h: "\<And>old. holds_value ?D X ?store (set_cells ?store cs old) v"
    using model_store.upsert_holds[OF assms(1,3,4)] by metis
  obtain cells where cells: "map_of (upsert_entity ?store cs rows) entity_id = Some cells" "holds_value ?D X ?store cells v"
    using h cs(2) by (auto simp: upsert_entity_def split: option.splits)
  then have "read_model ?D X R (selected_row R (dt_name ?D ?S) ?S cells) ?S = Inr v"
    unfolding read_model_def using assms(5) by (intro model_store.holds_reads(2)[OF assms(1) refl assms(2,3,4)])
  then show ?thesis using cs(1) cells(1) by blast
qed

theorem stored_entity_reads_back_witness:
  "\<exists>cs cells. entity_columns plain_dojo numbered_json ''t'' ''n'' ''e'' ''0x1'' sample_unit = Inr cs \<and>
     map_of (upsert_entity (table_store sample_table_env sample_schema (\<lambda>_ s. s)) cs [(''0x1'', [(''state'', ''Idle'')])]) ''0x1'' = Some cells \<and>
     read_model plain_dojo plain_formats text_reader (selected_row text_reader ''ns-Unit'' sample_schema cells) sample_schema = Inr sample_unit"
proof -
  have "distinct (internal_columns @ collect_columns [] sample_schema)" by (simp add: sample_facts internal_columns_def)
  then show ?thesis
    using stored_entity_reads_back[OF _ sample_facts(1,2)[unfolded sample_schema_def], of sample_table_env plain_formats text_reader "\<lambda>_ s. s"
        "''t''" "''n''" "''e''" "''0x1''" "[(''0x1'', [(''state'', ''Idle'')])]"]
      plain_store.model_store_axioms sample_facts(3,4)
    unfolding sample_schema_def by (simp add: plain_formats_def)
qed

text \<open>
  Adding members to a model adds their columns: when the difference between the schemas is a struct with the new members, the statements of \<open>build_model_query\<close> begin
  with one \<open>ALTER TABLE ... ADD COLUMN\<close> for every column that a table of the new members would have, in order, and with no other alteration.
\<close>

theorem upgrade_adds_columns:
  assumes "named (Struct n (ms @ new))"
  shows "\<exists>ds idx. ds = fst (add_columns E [] (Struct n new) None None False) \<and> map cd_name ds = columns_struct [] new \<and>
    build_model_query E (Struct n (ms @ new)) (Some (Struct n new)) None = map (add_column_text (te_table_id E)) ds @ map (index_text (te_table_id E)) idx"
proof -
  have nm: "distinct (map mb_name (ms @ new))" "named_struct (ms @ new)" using assms by auto
  then have new: "named (Struct n new)" by (simp add: named_struct_append)
  let ?f = "\<lambda>sd m. add_columns E [mb_name m] (mb_ty m) (member_diff (Some sd) (mb_name m)) None (mb_key m)"
  have "member_diff (Some new) (mb_name m) = None" if "m \<in> set ms" for m
    using nm(1) that by (auto simp: member_diff_def find_None_iff)
  then have old: "fst (snd (?f new m)) = []" if "m \<in> set ms" for m using that created_no_alter by simp
  have alt: "altered (add_columns E [] (Struct n new) None None False) (add_columns E [] (Struct n new) (Some (Struct n new)) None False)"
    by (rule added_columns[OF new refl refl])
  have "fst (snd (add_columns E [] (Struct n (ms @ new)) (Some (Struct n new)) None False)) =
      fst (snd (add_columns E [] (Struct n new) (Some (Struct n new)) None False))"
    using old by (auto simp: all_changes_parts comp_def)
  with alt have a: "fst (snd (add_columns E [] (Struct n (ms @ new)) (Some (Struct n new)) None False)) =
      map AddColumn (fst (add_columns E [] (Struct n new) None None False))" by (simp add: altered_def)
  have "map fst (map typed (fst (add_columns E [] (Struct n new) None None False))) = columns_struct [] new"
    using created_columns[OF new, of "[]" None None E False] by (simp add: name_path_def)
  then have names: "map cd_name (fst (add_columns E [] (Struct n new) None None False)) = columns_struct [] new" by (simp add: typed_def comp_def)
  have single: "concat (map (alter_texts (te_table_id E)) (map AddColumn ds)) = map (add_column_text (te_table_id E)) ds" for ds
    by (induction ds) (simp_all add: alter_texts_def)
  show ?thesis
    unfolding build_model_query_def using a names single
    by (auto simp: case_prod_unfold simp del: add_columns.simps
        intro!: exI[of _ "[''internal_entity_id'', ''internal_event_message_id''] @
          snd (snd (add_columns E [] (Struct n (ms @ new)) (Some (Struct n new)) None False))"])
qed

theorem upgrade_adds_columns_witness:
  "\<exists>idx. build_model_query sample_table_env (Struct ''ns-Unit'' [Member ''id'' (Primitive (U32 None)) True, Member ''name'' (ByteArray []) False])
     (Some (Struct ''ns-Unit'' [Member ''name'' (ByteArray []) False])) None =
     [add_column_text ''ns-Unit'' \<lparr>cd_name = ''name'', cd_type = ''TEXT'', cd_check = None\<rparr>] @ map (index_text ''ns-Unit'') idx"
  using upgrade_adds_columns[of "''ns-Unit''" "[Member ''id'' (Primitive (U32 None)) True]" "[Member ''name'' (ByteArray []) False]" sample_table_env]
  by (simp add: sample_table_env_def put_column_def text_placement_def or_default_def all_changes_def both_def Let_def)

text \<open>
  C38. A fixed-size array that is stored is never read back: it is written as a JSON array and expected as an object, so reading any entity of a model with such a member fails.
\<close>

theorem fixed_array_unreadable:
  assumes "model_store D X R aff" and "Member name (FixedSizeArray ts k) key \<in> set ms" and "name \<noteq> []" and "dt_name D (Struct n ms) \<noteq> []"
    and "collect_members D (tx_json X) name (FixedSizeArray es k) = Inr [(name, x)]"
    and "row (dt_name D (Struct n ms) @ ''.'' @ name) = Some (aff ''TEXT'' x)"
  shows "\<exists>e. read_model D X R row (Struct n ms) = Inl e"
proof -
  obtain js where x: "x = json_to_string (tx_json X) (JArray js)" using assms(5) by (auto simp: array_cell_def split: sum.splits)
  have t: "read_text R (row (dotted (dt_name D (Struct n ms)) name)) = Inr x"
    using assms(3,4,6) model_store.text_column[OF assms(1)] by (simp add: dotted_def read_text_def)
  have "read_fixed_array D X ts (Inr x) = Inl TablePanic \<or> read_fixed_array D X ts (Inr x) = Inl (TableError ''InvalidFixedSizeArray'')"
    using model_store.json_reads[OF assms(1)] by (cases ts) (auto simp: read_fixed_array_def x)
  then obtain e where "map_row_to_ty D X R row (dt_name D (Struct n ms)) name (FixedSizeArray ts k) = Inl e" using t by auto
  then obtain e' where "map_row_members D X R row (dt_name D (Struct n ms)) ms = Inl e'" using failing_member[OF _ assms(2)] by blast
  then show ?thesis by (simp add: read_model_def dotted_def)
qed

theorem fixed_array_unreadable_witness:
  "\<exists>e. read_model plain_dojo plain_formats text_reader (\<lambda>_. Some (dec_digits (to_nat (JArray []))))
     (Struct ''ns-Grid'' [Member ''cells'' (FixedSizeArray [Primitive (U8 None)] 2) False]) = Inl e"
  by (rule fixed_array_unreadable[OF plain_store.model_store_axioms, of "''cells''" "[Primitive (U8 None)]" 2 False _ _ "[]"])
    (simp_all add: plain_dojo_def plain_formats_def numbered_json_def array_cell_def)

end
