(* ===== verification/AggregatorSpec.thy ===== *)
theory AggregatorSpec
  imports Aggregator ModelTableSpec
begin

text \<open>
  What aggregations promise: the texts that order the entries compare like the numbers as long as all have the same sign, and an entry holds the aggregate of
  the values of its group.
\<close>

section \<open>Texts of fixed width\<close>

fun digits_num :: "nat list \<Rightarrow> nat" where
  "digits_num [] = 0"
| "digits_num (d # ds) = d * 16 ^ length ds + digits_num ds"

lemma digits_num_append: "digits_num (ds @ es) = digits_num ds * 16 ^ length es + digits_num es"
  by (induction ds) (simp_all add: power_add algebra_simps)

lemma digits_num_bound: "list_all (\<lambda>d. d < 16) ds \<Longrightarrow> digits_num ds < 16 ^ length ds"
proof (induction ds)
  case (Cons d ds)
  then have "d * 16 ^ length ds + digits_num ds < d * 16 ^ length ds + 16 ^ length ds" by simp
  also have "\<dots> = Suc d * 16 ^ length ds" by simp
  also have "\<dots> \<le> 16 * 16 ^ length ds" using Cons.prems by (intro mult_right_mono) simp_all
  finally show ?case by simp
qed simp

lemma digits_num_zeros: "digits_num (replicate k 0 @ ds) = digits_num ds"
  by (induction k) simp_all

lemma hex_digit_order: "d < 16 \<Longrightarrow> e < 16 \<Longrightarrow> ((of_char (hex_digit d) :: nat) < of_char (hex_digit e) \<longleftrightarrow> d < e) \<and> (hex_digit d = hex_digit e \<longleftrightarrow> d = e)"
proof -
  have "\<forall>d \<in> set [0..<16]. \<forall>e \<in> set [0..<16]. ((of_char (hex_digit d) :: nat) < of_char (hex_digit e) \<longleftrightarrow> d < e) \<and> (hex_digit d = hex_digit e \<longleftrightarrow> d = e)"
    by code_simp
  then show "d < 16 \<Longrightarrow> e < 16 \<Longrightarrow> ((of_char (hex_digit d) :: nat) < of_char (hex_digit e) \<longleftrightarrow> d < e) \<and> (hex_digit d = hex_digit e \<longleftrightarrow> d = e)" by simp
qed

lemma digits_order:
  "length ds = length es \<Longrightarrow> list_all (\<lambda>d. d < 16) ds \<Longrightarrow> list_all (\<lambda>d. d < 16) es \<Longrightarrow>
   string_less (map hex_digit ds) (map hex_digit es) \<longleftrightarrow> digits_num ds < digits_num es"
proof (induction ds es rule: list_induct2)
  case (Cons d ds e es)
  have b: "digits_num ds < 16 ^ length es" "digits_num es < 16 ^ length es" using digits_num_bound[of ds] digits_num_bound[of es] Cons by auto
  have step: "x * 16 ^ length es + digits_num xs < y * 16 ^ length es + digits_num ys"
    if "x < y" "digits_num xs < 16 ^ length es" for x y xs ys
  proof -
    have "x * 16 ^ length es + digits_num xs < Suc x * 16 ^ length es" using that by simp
    also have "\<dots> \<le> y * 16 ^ length es" using that by (intro mult_right_mono) simp_all
    finally show ?thesis by simp
  qed
  have "d < e \<or> d = e \<or> e < d" by auto
  then show ?case
    using Cons hex_digit_order[of d e] step[of d e ds es] step[of e d es ds] b by (auto simp: not_less)
qed simp

lemma hex_digits_list: "\<exists>ds. hex_digits n = map hex_digit ds \<and> list_all (\<lambda>d. d < 16) ds \<and> digits_num ds = n"
proof (induction n rule: hex_digits.induct)
  case (1 n)
  show ?case
  proof (cases "n < 16")
    case True
    then show ?thesis by (intro exI[of _ "[n]"]) (subst hex_digits.simps, simp)
  next
    case False
    with 1 obtain ds where "hex_digits (n div 16) = map hex_digit ds" "list_all (\<lambda>d. d < 16) ds" "digits_num ds = n div 16" by blast
    then show ?thesis using False by (intro exI[of _ "ds @ [n mod 16]"]) (subst hex_digits.simps, simp add: digits_num_append)
  qed
qed

lemma hex64_pad: "pad64 (hex_digits n) = hex64 n"
  by (simp add: pad64_def hex64_def Let_def)

lemma hex64_list:
  assumes "n < 2 ^ 256"
  obtains ds where "hex64 n = ''0x'' @ map hex_digit ds" "list_all (\<lambda>d. d < 16) ds" "digits_num ds = n" "length ds = 64"
proof -
  obtain es where es: "hex_digits n = map hex_digit es" "list_all (\<lambda>d. d < 16) es" "digits_num es = n" using hex_digits_list by blast
  have "n < 16 ^ Suc 63" using assms by simp
  then have "length es \<le> 64" using hex_digits_length[of n 63] es(1) by simp
  moreover have "hex_digit 0 = CHR ''0''" by (simp add: hex_digit_def)
  ultimately show thesis using es
    by (intro that[of "replicate (64 - length es) 0 @ es"]) (auto simp: hex64_def Let_def digits_num_zeros map_replicate_const list_all_iff)
qed

lemma hex64_order: "a < 2 ^ 256 \<Longrightarrow> b < 2 ^ 256 \<Longrightarrow> string_less (hex64 a) (hex64 b) \<longleftrightarrow> a < b"
proof -
  assume a: "a < 2 ^ 256" and b: "b < 2 ^ 256"
  obtain ds where ds: "hex64 a = ''0x'' @ map hex_digit ds" "list_all (\<lambda>d. d < 16) ds" "digits_num ds = a" "length ds = 64" by (rule hex64_list[OF a])
  obtain es where es: "hex64 b = ''0x'' @ map hex_digit es" "list_all (\<lambda>d. d < 16) es" "digits_num es = b" "length es = 64" by (rule hex64_list[OF b])
  show ?thesis using digits_order[of ds es] ds es by simp
qed

section \<open>Normalised values\<close>

lemma strip_hex64 [simp]: "strip_0x (hex64 n) = Some (drop 2 (hex64 n))"
  by (simp add: strip_0x_def hex64_def Let_def)

lemma strip_int_text [simp]: "strip_0x (int_text i) = None"
proof -
  have x: "CHR ''x'' \<notin> set (dec_digits n)" for n using dec_digits_chars[of "CHR ''x''" n] by auto
  have "CHR ''x'' \<notin> set (int_text i)" using x by (auto simp: int_text_def)
  moreover have "CHR ''x'' \<in> set (int_text i)" if "take 2 (int_text i) = ''0x''"
    using that by (metis in_set_takeD list.set_intros(1,2))
  ultimately show ?thesis by (auto simp: strip_0x_def)
qed

definition shown :: "int \<Rightarrow> int" where
  "shown i = (if i < 0 then i + 2 ^ 127 else i)"

lemma normalize_int: "- (2 ^ 127) \<le> i \<Longrightarrow> i < 2 ^ 128 \<Longrightarrow> normalize_value_to_hex (int_text i) = hex64 (nat (shown i))"
  by (simp add: normalize_value_to_hex_def parse_u128_def parse_i128_def parse_int_text hex64_pad shown_def mod_pos_pos_trivial)

lemma normalize_hex64: "n < 2 ^ 256 \<Longrightarrow> normalize_value_to_hex (hex64 n) = hex64 n"
proof -
  assume n: "n < 2 ^ 256"
  have "length (hex_digits n) \<le> 64" using hex_digits_length[of n 63] n by simp
  then show ?thesis by (simp add: normalize_value_to_hex_def) (simp add: pad64_def hex64_def Let_def)
qed

lemma shown_bounds: "- (2 ^ 127) \<le> i \<Longrightarrow> i < 2 ^ 127 \<Longrightarrow> 0 \<le> shown i \<and> nat (shown i) < 2 ^ 256"
proof -
  assume i: "- (2 ^ 127) \<le> i" "i < 2 ^ 127"
  then have "0 \<le> shown i" "shown i < 2 ^ 127" by (auto simp: shown_def)
  then show ?thesis by simp
qed

section \<open>Aggregates of a group\<close>

text \<open>The type of a field that is reached by going through structs.\<close>

fun field_ty :: "ty \<Rightarrow> string list \<Rightarrow> ty option" where
  "field_ty t [] = Some t"
| "field_ty t (part # parts) =
     (case as_struct t of
        None \<Rightarrow> None
      | Some ms \<Rightarrow> (case List.find (\<lambda>m. mb_name m = part) ms of None \<Rightarrow> None | Some m \<Rightarrow> field_ty (mb_ty m) parts))"

lemma extract_primitive:
  "field_ty t parts = Some (Primitive p) \<Longrightarrow> parts \<noteq> [] \<Longrightarrow> extract_field_value_recursive D t parts b = Some (normalized b (dt_sql_value D p))"
proof (induction parts arbitrary: t)
  case (Cons part parts)
  obtain n ms where t: "t = Struct n ms" using Cons.prems(1) by (cases t) auto
  obtain m where m: "List.find (\<lambda>m. mb_name m = part) ms = Some m" "field_ty (mb_ty m) parts = Some (Primitive p)"
    using Cons.prems(1) by (auto simp: t split: option.splits)
  then show ?case using Cons.IH[OF m(2)] by (cases parts) (simp_all add: t)
qed simp

definition number_field :: "dojo_types \<Rightarrow> string \<Rightarrow> ty \<Rightarrow> nat \<Rightarrow> bool" where
  "number_field D path e n \<longleftrightarrow>
     (\<exists>p. field_ty e (split_on (CHR ''.'') path) = Some (Primitive p) \<and> (dt_sql_value D p = dec_digits n \<or> dt_sql_value D p = hex64 n))"

fun agg_path :: "aggregation \<Rightarrow> string option" where
  "agg_path Count = None"
| "agg_path (Latest p) = Some p"
| "agg_path (Max p) = Some p"
| "agg_path (Min p) = Some p"
| "agg_path (Sum p) = Some p"
| "agg_path (Avg p) = Some p"

fun aggregate :: "aggregation \<Rightarrow> nat list \<Rightarrow> nat" where
  "aggregate Count ns = length ns"
| "aggregate (Latest _) ns = last ns"
| "aggregate (Max _) ns = Lattices_Big.Max (set ns)"
| "aggregate (Min _) ns = Lattices_Big.Min (set ns)"
| "aggregate (Sum _) ns = sum_list ns"
| "aggregate (Avg _) ns = sum_list ns div length ns"

definition gives_number :: "dojo_types \<Rightarrow> aggregation \<Rightarrow> ty \<Rightarrow> nat \<Rightarrow> bool" where
  "gives_number D agg e n \<longleftrightarrow> (case agg_path agg of None \<Rightarrow> True | Some path \<Rightarrow> number_field D path e n)"

definition keeps_metadata :: "json_text \<Rightarrow> bool" where
  "keeps_metadata J \<longleftrightarrow> (\<forall>s k. 0 \<le> k \<and> k < 2 ^ 63 \<longrightarrow>
     json_from_str J (avg_metadata s k) = Inr (JObject [(''sum'', JString (int_text s)), (''count'', JU64 (word_of_int k))]))"

definition entry_holds :: "aggregation \<Rightarrow> nat list \<Rightarrow> aggregation_row \<Rightarrow> bool" where
  "entry_holds agg ns r \<longleftrightarrow> ar_value r = hex64 (aggregate agg ns) \<and> parse_display_to_i128 (ar_display_value r) = Some (int (aggregate agg ns)) \<and>
     (agg = Count \<longrightarrow> parse_i64 (ar_display_value r) = Some (int (length ns))) \<and>
     (\<forall>p. agg = Avg p \<longrightarrow> ar_metadata r = Some (avg_metadata (int (sum_list ns)) (int (length ns))))"

lemma dec_int_text: "dec_digits n = int_text (int n)"
  by (simp add: int_text_def)

lemma display_int: "- (2 ^ 127) \<le> i \<Longrightarrow> i < 2 ^ 127 \<Longrightarrow> parse_display_to_i128 (int_text i) = Some i"
  by (simp add: parse_display_to_i128_def parse_i128_def parse_int_text)

lemma hex64_drop: "drop 2 (hex64 n) = trim_0x (hex64 n)"
  unfolding hex64_trim by (simp add: hex64_def Let_def)

lemma display_number: "n < 2 ^ 127 \<Longrightarrow> d = dec_digits n \<or> d = hex64 n \<Longrightarrow> parse_display_to_i128 d = Some (int n)"
proof (elim disjE)
  assume n: "n < 2 ^ 127" "d = hex64 n"
  have "radix16 128 (trim_0x (hex64 n)) = Some n" using n by (intro radix16_hex64) simp
  then show "parse_display_to_i128 d = Some (int n)" using n by (simp add: parse_display_to_i128_def hex64_drop)
next
  assume "n < 2 ^ 127" "d = dec_digits n"
  then have "int n < 2 ^ 127" by (metis of_nat_less_numeral_power_cancel_iff)
  then show "parse_display_to_i128 d = Some (int n)" using \<open>d = _\<close> by (simp add: dec_int_text display_int)
qed

lemma normal_number: "n < 2 ^ 127 \<Longrightarrow> d = dec_digits n \<or> d = hex64 n \<Longrightarrow> normalize_value_to_hex d = hex64 n"
proof (elim disjE)
  assume n: "n < 2 ^ 127" "d = dec_digits n"
  then have "int n < 2 ^ 127" by (metis of_nat_less_numeral_power_cancel_iff)
  then show "normalize_value_to_hex d = hex64 n" using n by (simp add: dec_int_text normalize_int shown_def)
qed (simp add: normalize_hex64)

lemma field_texts:
  assumes "number_field D path e n" "n < 2 ^ 127"
  obtains d where "extract_field_value D e path False = Some d" "extract_field_value D e path True = Some (hex64 n)" "parse_display_to_i128 d = Some (int n)"
proof -
  obtain p where p: "field_ty e (split_on (CHR ''.'') path) = Some (Primitive p)" "dt_sql_value D p = dec_digits n \<or> dt_sql_value D p = hex64 n"
    using assms(1) by (auto simp: number_field_def)
  have ne: "split_on (CHR ''.'') path \<noteq> []" by (cases path) (auto split: list.splits)
  show thesis
    using extract_primitive[OF p(1) ne, of D] display_number[OF assms(2) p(2)] normal_number[OF assms(2) p(2)]
    by (intro that[of "dt_sql_value D p"]) (simp_all add: extract_field_value_def normalized_def)
qed

definition existing_ok :: "aggregation \<Rightarrow> nat list \<Rightarrow> aggregation_row option \<Rightarrow> bool" where
  "existing_ok agg ns x \<longleftrightarrow> (case x of None \<Rightarrow> ns = [] | Some r \<Rightarrow> ns \<noteq> [] \<and> entry_holds agg ns r)"

definition small :: "nat list \<Rightarrow> bool" where
  "small ns \<longleftrightarrow> sum_list ns < 2 ^ 127 \<and> length ns < 2 ^ 63"

lemma small_member: "small ns \<Longrightarrow> n \<in> set ns \<Longrightarrow> n < 2 ^ 127"
  using member_le_sum_list[of n ns] by (auto simp: small_def)

lemma small_256: "n < 2 ^ 127 \<Longrightarrow> (n :: nat) < 2 ^ 256"
  by simp

lemma extreme_small:
  assumes "small ns" "ns \<noteq> []"
  shows "Lattices_Big.Max (set ns) < 2 ^ 127" "Lattices_Big.Min (set ns) < 2 ^ 127"
  using assms small_member[OF assms(1)] Max_in[of "set ns"] Min_in[of "set ns"] by simp_all

definition step_holds :: "dojo_types \<Rightarrow> json_text \<Rightarrow> aggregation \<Rightarrow> ty \<Rightarrow> aggregation_row option \<Rightarrow> nat list \<Rightarrow> bool" where
  "step_holds D J agg e x ns \<longleftrightarrow> (\<exists>v d m. aggregate_value D J agg e x = Inr (v, d, m) \<and>
     (\<forall>r. ar_value r = v \<and> ar_display_value r = d \<and> ar_metadata r = m \<longrightarrow> entry_holds agg ns r))"

lemma latest_step: "gives_number D (Latest p) e n \<Longrightarrow> small (ns @ [n]) \<Longrightarrow> step_holds D J (Latest p) e x (ns @ [n])"
proof -
  assume g: "gives_number D (Latest p) e n" and s: "small (ns @ [n])"
  have n: "n < 2 ^ 127" using small_member[OF s, of n] by simp
  obtain d where "extract_field_value D e p False = Some d" "extract_field_value D e p True = Some (hex64 n)" "parse_display_to_i128 d = Some (int n)"
    using field_texts[of D p e n] g n by (auto simp: gives_number_def)
  then show ?thesis by (simp add: step_holds_def aggregate_value_def calculate_latest_value_def field_missing_def entry_holds_def)
qed

lemma max_step: "gives_number D (Max p) e n \<Longrightarrow> small (ns @ [n]) \<Longrightarrow> existing_ok (Max p) ns x \<Longrightarrow> step_holds D J (Max p) e x (ns @ [n])"
proof -
  assume g: "gives_number D (Max p) e n" and s: "small (ns @ [n])" and x: "existing_ok (Max p) ns x"
  have n: "n < 2 ^ 127" using small_member[OF s, of n] by simp
  obtain d where d: "extract_field_value D e p False = Some d" "extract_field_value D e p True = Some (hex64 n)" "parse_display_to_i128 d = Some (int n)"
    using field_texts[of D p e n] g n by (auto simp: gives_number_def)
  show ?thesis
  proof (cases x)
    case None
    then show ?thesis using d x
      by (simp add: step_holds_def aggregate_value_def calculate_max_value_def both_fields_def field_missing_def entry_holds_def existing_ok_def)
  next
    case (Some r)
    define M where "M = Lattices_Big.Max (set ns)"
    have r: "ns \<noteq> []" "ar_value r = hex64 M" "parse_display_to_i128 (ar_display_value r) = Some (int M)"
      using x Some by (auto simp: existing_ok_def entry_holds_def M_def)
    have "small ns" using s by (simp add: small_def)
    then have "string_less (hex64 M) (hex64 n) \<longleftrightarrow> M < n"
      using extreme_small[of ns] r(1) n unfolding M_def by (intro hex64_order small_256) blast+
    moreover have "Lattices_Big.Max (insert n (set ns)) = max n M" using r(1) by (simp add: M_def)
    ultimately show ?thesis using d r Some
      by (simp add: step_holds_def aggregate_value_def calculate_max_value_def both_fields_def field_missing_def entry_holds_def max_def)
  qed
qed

lemma min_step: "gives_number D (Min p) e n \<Longrightarrow> small (ns @ [n]) \<Longrightarrow> existing_ok (Min p) ns x \<Longrightarrow> step_holds D J (Min p) e x (ns @ [n])"
proof -
  assume g: "gives_number D (Min p) e n" and s: "small (ns @ [n])" and x: "existing_ok (Min p) ns x"
  have n: "n < 2 ^ 127" using small_member[OF s, of n] by simp
  obtain d where d: "extract_field_value D e p False = Some d" "extract_field_value D e p True = Some (hex64 n)" "parse_display_to_i128 d = Some (int n)"
    using field_texts[of D p e n] g n by (auto simp: gives_number_def)
  show ?thesis
  proof (cases x)
    case None
    then show ?thesis using d x
      by (simp add: step_holds_def aggregate_value_def calculate_min_value_def both_fields_def field_missing_def entry_holds_def existing_ok_def)
  next
    case (Some r)
    define M where "M = Lattices_Big.Min (set ns)"
    have r: "ns \<noteq> []" "ar_value r = hex64 M" "parse_display_to_i128 (ar_display_value r) = Some (int M)"
      using x Some by (auto simp: existing_ok_def entry_holds_def M_def)
    have "small ns" using s by (simp add: small_def)
    then have "string_less (hex64 n) (hex64 M) \<longleftrightarrow> n < M"
      using extreme_small[of ns] r(1) n unfolding M_def by (intro hex64_order small_256) blast+
    moreover have "Lattices_Big.Min (insert n (set ns)) = min n M" using r(1) by (simp add: M_def)
    ultimately show ?thesis using d r Some
      by (simp add: step_holds_def aggregate_value_def calculate_min_value_def both_fields_def field_missing_def entry_holds_def min_def)
  qed
qed

lemma int_small: "n < 2 ^ 127 \<Longrightarrow> int n < 2 ^ 127"
  by (metis of_nat_less_numeral_power_cancel_iff)

lemma shown_text: "n < 2 ^ 127 \<Longrightarrow> normalize_value_to_hex (int_text (int n)) = hex64 n \<and> parse_display_to_i128 (int_text (int n)) = Some (int n)"
  using int_small[of n] by (simp add: normalize_int display_int shown_def)

lemma count_step: "small (ns @ [n]) \<Longrightarrow> existing_ok Count ns x \<Longrightarrow> step_holds D J Count e x (ns @ [n])"
proof -
  assume s: "small (ns @ [n])" and x: "existing_ok Count ns x"
  let ?k = "length (ns @ [n])"
  have k: "?k < 2 ^ 63" "?k < 2 ^ 127" using s by (simp_all add: small_def)
  have "int ?k < 2 ^ 63" using k(1) by (metis of_nat_less_numeral_power_cancel_iff)
  then have b: "next_i64 (int (length ns)) = int ?k" "parse_i64 (int_text (int ?k)) = Some (int ?k)"
    by (simp_all add: next_i64_def parse_i64_def parse_int_text)
  have "calculate_count_value x = (hex64 ?k, int_text (int ?k))"
    using x b(1) shown_text[OF k(2)] by (cases x) (auto simp: calculate_count_value_def existing_ok_def entry_holds_def or_zero_def Let_def add.commute)
  then show ?thesis using b(2) shown_text[OF k(2)] by (simp add: step_holds_def aggregate_value_def entry_holds_def)
qed

lemma saturating_small: "0 \<le> a \<Longrightarrow> 0 \<le> b \<Longrightarrow> a + b < 2 ^ 127 \<Longrightarrow> saturating_add_i128 a b = a + b"
  by (simp add: saturating_add_i128_def)

lemma sum_step: "gives_number D (Sum p) e n \<Longrightarrow> small (ns @ [n]) \<Longrightarrow> existing_ok (Sum p) ns x \<Longrightarrow> step_holds D J (Sum p) e x (ns @ [n])"
proof -
  assume g: "gives_number D (Sum p) e n" and s: "small (ns @ [n])" and x: "existing_ok (Sum p) ns x"
  have n: "n < 2 ^ 127" using small_member[OF s, of n] by simp
  obtain d where d: "extract_field_value D e p False = Some d" "parse_display_to_i128 d = Some (int n)"
    using field_texts[of D p e n] g n by (auto simp: gives_number_def)
  have sm: "sum_list ns + n < 2 ^ 127" using s by (simp add: small_def)
  have "saturating_add_i128 (int (sum_list ns)) (int n) = int (sum_list ns + n)" using int_small[OF sm] by (simp add: saturating_small)
  then have "calculate_sum_value D e p x = Inr (hex64 (sum_list ns + n), int_text (int (sum_list ns + n)))"
    using x d shown_text[OF sm] shown_text[OF n]
    by (cases x) (auto simp: calculate_sum_value_def field_missing_def existing_ok_def entry_holds_def or_zero_def Let_def)
  then show ?thesis using shown_text[OF sm] by (simp add: step_holds_def aggregate_value_def entry_holds_def)
qed

lemma avg_step:
  "gives_number D (Avg p) e n \<Longrightarrow> small (ns @ [n]) \<Longrightarrow> existing_ok (Avg p) ns x \<Longrightarrow> keeps_metadata J \<Longrightarrow> step_holds D J (Avg p) e x (ns @ [n])"
proof -
  assume g: "gives_number D (Avg p) e n" and s: "small (ns @ [n])" and x: "existing_ok (Avg p) ns x" and J: "keeps_metadata J"
  have n: "n < 2 ^ 127" using small_member[OF s, of n] by simp
  obtain d where d: "extract_field_value D e p False = Some d" "parse_display_to_i128 d = Some (int n)"
    using field_texts[of D p e n] g n by (auto simp: gives_number_def)
  let ?k = "length ns"
  have sm: "sum_list ns + n < 2 ^ 127" "sum_list ns < 2 ^ 127" and k: "Suc ?k < 2 ^ 63" using s by (simp_all add: small_def)
  have ik: "int ?k + 1 < 2 ^ 63" using k by (metis of_nat_Suc of_nat_less_numeral_power_cancel_iff add.commute)
  have w: "unat (word_of_int (int ?k) :: u64) = ?k" using k by (simp add: unat_of_nat take_bit_nat_eq_self)
  have old: "existing_sum_and_count J (Option.bind x ar_metadata) = (int (sum_list ns), int ?k)"
  proof (cases x)
    case None
    then show ?thesis using x by (simp add: existing_sum_and_count_def existing_ok_def)
  next
    case (Some r)
    have "json_from_str J (avg_metadata (int (sum_list ns)) (int ?k)) = Inr (JObject [(''sum'', JString (int_text (int (sum_list ns)))), (''count'', JU64 (word_of_int (int ?k)))])"
      using J ik unfolding keeps_metadata_def by simp
    moreover have "ar_metadata r = Some (avg_metadata (int (sum_list ns)) (int ?k))" using x Some by (auto simp: existing_ok_def entry_holds_def)
    ultimately show ?thesis using Some w k shown_text[OF sm(2)]
      by (simp add: existing_sum_and_count_def or_zero_def json_as_i64_def)
  qed
  have new: "saturating_add_i128 (int (sum_list ns)) (int n) = int (sum_list ns + n)" "next_i64 (int ?k) = int (Suc ?k)"
    using int_small[OF sm(1)] ik by (simp_all add: saturating_small next_i64_def)
  have q: "int (sum_list ns + n) sdiv int (Suc ?k) = int ((sum_list ns + n) div Suc ?k)"
    by (simp only: signed_divide_int_def zdiv_int[symmetric] abs_of_nat sgn_mult[symmetric]) (simp add: sgn_if)
  have "(sum_list ns + n) div Suc ?k < 2 ^ 127" using sm(1) div_le_dividend le_less_trans by blast
  note v = shown_text[OF this]
  have "calculate_avg_value D J e p x =
      Inr (hex64 ((sum_list ns + n) div Suc ?k), int_text (int ((sum_list ns + n) div Suc ?k)), avg_metadata (int (sum_list ns + n)) (int (Suc ?k)))"
    using d v by (simp add: calculate_avg_value_def field_missing_def old new or_zero_def Let_def q[simplified])
  then show ?thesis using v by (simp add: step_holds_def aggregate_value_def entry_holds_def)
qed

lemmas aggregate_steps = latest_step max_step min_step count_step sum_step avg_step

lemma aggregate_step:
  "gives_number D agg e n \<Longrightarrow> small (ns @ [n]) \<Longrightarrow> existing_ok agg ns x \<Longrightarrow> keeps_metadata J \<Longrightarrow> step_holds D J agg e x (ns @ [n])"
  by (cases agg) (simp_all add: aggregate_steps)

text \<open>An entity after the other; the entities of the group have the same key.\<close>

fun aggregate_all ::
  "dojo_types \<Rightarrow> json_text \<Rightarrow> u256_text \<Rightarrow> aggregator_config \<Rightarrow> string \<Rightarrow> ty list \<Rightarrow> aggregation_table \<Rightarrow> aggregation_table" where
  "aggregate_all D J U config model_id [] A = A"
| "aggregate_all D J U config model_id (e # es) A = aggregate_all D J U config model_id es (snd (update_aggregation D J U config e model_id A))"

lemma aggregate_all_snoc:
  "aggregate_all D J U config model_id (es @ [e]) A = snd (update_aggregation D J U config e model_id (aggregate_all D J U config model_id es A))"
  by (induction es arbitrary: A) simp_all

lemma update_written:
  assumes "group_parts D e (agc_group_by config) = Some g" and "aggregate_value D J (agc_aggregation config) e (map_of A i) = Inr (v, d, m)"
    and "i = agc_id config @ '':'' @ join_with '':'' g"
  shows "\<exists>r. map_of (snd (update_aggregation D J U config e model_id A)) i = Some r \<and> ar_value r = v \<and> ar_display_value r = d \<and> ar_metadata r = m"
  using assms by (auto simp: update_aggregation_def upsert_aggregation_entry_def Let_def split: option.splits)

lemma aggregate_all_holds:
  assumes "list_all (\<lambda>e. group_parts D e (agc_group_by config) = Some g) es" and "list_all2 (gives_number D (agc_aggregation config)) es ns"
    and "small ns" and "keeps_metadata J" and "map_of A (agc_id config @ '':'' @ join_with '':'' g) = None"
  shows "existing_ok (agc_aggregation config) ns (map_of (aggregate_all D J U config model_id es A) (agc_id config @ '':'' @ join_with '':'' g))"
  using assms(1-3)
proof (induction es arbitrary: ns rule: rev_induct)
  case Nil
  then show ?case using assms(5) by (simp add: existing_ok_def)
next
  case (snoc e es)
  let ?i = "agc_id config @ '':'' @ join_with '':'' g" and ?A = "aggregate_all D J U config model_id es A"
  obtain n ns' where ns: "ns = ns' @ [n]" "list_all2 (gives_number D (agc_aggregation config)) es ns'" "gives_number D (agc_aggregation config) e n"
    using snoc.prems(2) by (auto simp: list_all2_append1 list_all2_Cons1)
  have "small ns'" using snoc.prems(3) by (simp add: small_def ns(1))
  then have "existing_ok (agc_aggregation config) ns' (map_of ?A ?i)" using snoc ns(2) by simp
  then have "step_holds D J (agc_aggregation config) e (map_of ?A ?i) (ns' @ [n])"
    using aggregate_step[OF ns(3), of ns' "map_of ?A ?i" J] snoc.prems(3) assms(4) ns(1) by simp
  then obtain v d m where h: "aggregate_value D J (agc_aggregation config) e (map_of ?A ?i) = Inr (v, d, m)"
    "\<And>r. ar_value r = v \<Longrightarrow> ar_display_value r = d \<Longrightarrow> ar_metadata r = m \<Longrightarrow> entry_holds (agc_aggregation config) (ns' @ [n]) r"
    unfolding step_holds_def by blast
  obtain r where "map_of (snd (update_aggregation D J U config e model_id ?A)) ?i = Some r" "ar_value r = v" "ar_display_value r = d" "ar_metadata r = m"
    using update_written[OF _ h(1) refl] snoc.prems(1) by auto
  then show ?case using h(2) by (simp add: existing_ok_def ns(1) aggregate_all_snoc)
qed

text \<open>The published position does not depend on the other entries.\<close>

lemma position_always_first:
  assumes "al_ok A" and "fst (update_aggregation D J U config e model_id A) = Inr (Some entry)"
  shows "ag_position entry = 1"
proof -
  have sel: "map snd (filter (\<lambda>(j, _). j = i) (al_insert i r A)) = [r]" for i r
  proof -
    have "al_ok (al_insert i r A)" using assms(1) by simp
    then have "distinct (map fst (filter (\<lambda>(j, _). j = i) (al_insert i r A)))" by (simp add: al_ok_def distinct_map_filter)
    moreover have "set (filter (\<lambda>(j, _). j = i) (al_insert i r A)) = {(i, r)}"
      using al_ok_in_set[OF \<open>al_ok (al_insert i r A)\<close>, of i] by (auto split: if_splits)
    moreover have "distinct xs \<Longrightarrow> set xs = {y} \<Longrightarrow> xs = [y]" for xs and y :: "string \<times> aggregation_row"
    proof (cases xs)
      case (Cons z zs)
      assume "distinct xs" "set xs = {y}"
      then show "xs = [y]" using Cons by (cases zs) auto
    qed simp
    ultimately have "filter (\<lambda>(j, _). j = i) (al_insert i r A) = [(i, r)]" unfolding distinct_map by blast
    then show ?thesis by simp
  qed
  have "\<not> string_less s s" for s by (induction s) auto
  then show ?thesis using assms(2)
    by (auto simp: update_aggregation_def upsert_aggregation_entry_def Let_def sel row_number_def split: option.splits sum.splits)
qed

section \<open>A concrete table\<close>

text \<open>JSON that is only good for the metadata of averages.\<close>

definition metadata_json :: json_text where
  "metadata_json = \<lparr>json_from_str = (\<lambda>s. let ps = split_on (CHR 0x22) s in
       if length ps < 7 then Inl ''json''
       else Inr (JObject [(''sum'', JString (ps ! 3)), (''count'', JU64 (word_of_int (or_zero (signed_value (butlast (tl (ps ! 6)))))))])),
     json_to_string = (\<lambda>_. [])\<rparr>"

lemma int_text_chars: "c \<in> set (int_text i) \<Longrightarrow> c = CHR ''-'' \<or> dec_value c \<noteq> None"
  using dec_digits_chars by (auto simp: int_text_def split: if_splits)

lemma no_quote: "CHR 0x22 \<notin> set (int_text i)"
  using int_text_chars[of "CHR 0x22" i] by (auto simp: dec_value_def)

lemma metadata_kept: "keeps_metadata metadata_json"
proof -
  have "split_on (CHR 0x22) (avg_metadata s k) = [''{'', ''sum'', '':'', int_text s, '','', ''count'', '':'' @ int_text k @ ''}'']" for s k
    using no_quote[of s] no_quote[of k] split_on_part[of "CHR 0x22" "int_text s"] split_on_last[of "CHR 0x22" "int_text k @ ''}''"]
    by (simp add: avg_metadata_def quoted_def)
  then show ?thesis by (simp add: keeps_metadata_def metadata_json_def or_zero_def signed_int_text)
qed

definition sample_score :: "32 word \<Rightarrow> ty" where
  "sample_score n = Struct ''ns-Score'' [Member ''player'' (Primitive (U8 (Some 3))) True, Member ''score'' (Primitive (U32 (Some n))) False]"

definition sample_aggregator :: aggregator_config where
  "sample_aggregator = \<lparr>agc_id = ''avg'', agc_model_tag = ''ns-Score'', agc_group_by = [''player''], agc_aggregation = Avg ''score''\<rparr>"

section \<open>Properties\<close>



text \<open>
  C35. The texts compare like the numbers for numbers of the same sign. A negative number, shifted by \<open>2\<^sup>1\<^sup>2\<^sup>7\<close>, is compared with the unshifted non-negative numbers: it comes
  before one of them only if that is above the shifted value, so small negative numbers rank above small positive ones.
\<close>

theorem normalized_order:
  assumes "- (2 ^ 127) \<le> a" and "a < 2 ^ 127" and "- (2 ^ 127) \<le> b" and "b < 2 ^ 127"
  shows "string_less (normalize_value_to_hex (int_text a)) (normalize_value_to_hex (int_text b)) \<longleftrightarrow>
    (if a < 0 \<and> 0 \<le> b then a + 2 ^ 127 < b else if 0 \<le> a \<and> b < 0 then a < b + 2 ^ 127 else a < b)"
proof -
  have normal: "normalize_value_to_hex (int_text i) = hex64 (nat (shown i))" if "- (2 ^ 127) \<le> i" "i < 2 ^ 127" for i
    using that by (intro normalize_int) simp_all
  have "string_less (normalize_value_to_hex (int_text a)) (normalize_value_to_hex (int_text b)) \<longleftrightarrow> nat (shown a) < nat (shown b)"
    unfolding normal(1)[of a, OF assms(1,2)] normal(1)[of b, OF assms(3,4)] using shown_bounds assms by (intro hex64_order) blast+
  also have "\<dots> \<longleftrightarrow> shown a < shown b" using shown_bounds[OF assms(1,2)] by (intro nat_less_eq_zless) simp
  finally show ?thesis by (auto simp: shown_def)
qed

theorem normalized_order_witness: "string_less (normalize_value_to_hex (int_text 5)) (normalize_value_to_hex (int_text (- 1)))"
  using normalized_order[of 5 "- 1"] by simp

end
