(* ===== verification/EntityStoreSpec.thy ===== *)
theory EntityStoreSpec
  imports EntityStore AggregatorSpec
begin

text \<open>
  Storing and deleting entities refines a map from world, entity and model to a value. The executor reads a model before it is changed, so subscribers get the value of
  before; an entity has a row exactly as long as it has a model.
\<close>

section \<open>Operations and their specification\<close>

datatype entity_op =
  SetOp felt felt felt ty string u64 "felt list option"
| DeleteOp felt felt felt ty string u64

fun op_statements :: "'c entity_env \<Rightarrow> entity_op \<Rightarrow> entity_statement list" where
  "op_statements E (SetOp w e s v event_id ts keys) = fst (set_entity E w v event_id ts e s keys)"
| "op_statements E (DeleteOp w e s t event_id ts) = delete_entity E w e s t event_id ts"

type_synonym entity_map = "felt \<times> felt \<times> felt \<rightharpoonup> ty"

fun spec_step :: "entity_op \<Rightarrow> entity_map \<Rightarrow> entity_map" where
  "spec_step (SetOp w e s v _ _ _) m = m((w, e, s) \<mapsto> v)"
| "spec_step (DeleteOp w e s _ _ _) m = m((w, e, s) := None)"

text \<open>What subscribers are told: world, entity, the changed model, its value of before, the event, and whether the entity is gone.\<close>

type_synonym update_view = "felt \<times> felt \<times> (string \<times> member list) list \<times> ty option \<times> string \<times> bool"

definition view :: "entity_update \<Rightarrow> update_view" where
  "view u = (eu_world_address u, eu_hashed_keys u, eu_models u, eu_match_model u, eu_event_id u, eu_deleted u)"

fun entity_views :: "entity_message list \<Rightarrow> update_view list" where
  "entity_views [] = []"
| "entity_views (EntityUpdated u # ms) = view u # entity_views ms"
| "entity_views (AggregationUpdated e # ms) = entity_views ms"

lemma entity_views_append [simp]: "entity_views (ms @ ms') = entity_views ms @ entity_views ms'"
  by (induction ms rule: entity_views.induct) simp_all

lemma entity_views_aggregations [simp]: "entity_views (map AggregationUpdated es) = []"
  by (induction es) simp_all

fun struct_parts :: "ty \<Rightarrow> (string \<times> member list) list" where
  "struct_parts (Struct n ms) = [(n, ms)]"
| "struct_parts _ = []"

fun spec_update :: "dojo_types \<Rightarrow> entity_op \<Rightarrow> entity_map \<Rightarrow> update_view list" where
  "spec_update D (SetOp w e s v event_id _ _) m = [(w, e, struct_parts v, m (w, e, s), event_id, False)]"
| "spec_update D (DeleteOp w e s t event_id _) m =
     (case m (w, e, s) of
        None \<Rightarrow> []
      | Some v \<Rightarrow> [(w, e, [(dt_name D t, [])], Some v, event_id, \<forall>s'. s' \<noteq> s \<longrightarrow> m (w, e, s') = None)])"

fun spec_run :: "dojo_types \<Rightarrow> entity_op list \<Rightarrow> entity_map \<Rightarrow> update_view list \<times> entity_map" where
  "spec_run D [] m = ([], m)"
| "spec_run D (op # ops) m = (case spec_run D ops (spec_step op m) of (us, m') \<Rightarrow> (spec_update D op m @ us, m'))"

definition op_ok :: "text_formats \<Rightarrow> dojo_types \<Rightarrow> (string \<times> ty) list \<Rightarrow> entity_op \<Rightarrow> bool" where
  "op_ok X D models op =
     (case op of
        SetOp w e s v _ _ _ \<Rightarrow> (case map_of models (format_world_scoped_id (tx_felt X) w s) of None \<Rightarrow> False | Some t \<Rightarrow> conforms t v)
      | DeleteOp w e s t _ _ \<Rightarrow> (case map_of models (format_world_scoped_id (tx_felt X) w s) of None \<Rightarrow> False | Some t' \<Rightarrow> dt_name D t = dt_name D t'))"

definition empty_tables :: "dojo_types \<Rightarrow> (string \<times> ty) list \<Rightarrow> 'c entity_tables" where
  "empty_tables D models =
     \<lparr>et_models = models, et_entities = [], et_entity_model = [], et_historical = [], et_rows = map (\<lambda>(i, t). (dt_name D t, [])) models,
      et_aggregations = []\<rparr>"

section \<open>Steps\<close>

lemma keys_al_insert [simp]: "fst ` set (al_insert k v m) = insert k (fst ` set m)"
  by (simp add: al_insert_def)

lemma keys_al_remove [simp]: "fst ` set (al_remove k m) = fst ` set m - {k}"
  by (force simp: al_remove_def)

lemma run_append:
  "run_entity_statements E (ss @ ts) T =
     (case run_entity_statements E ss T of
        ((us, ok), T') \<Rightarrow> if ok then (case run_entity_statements E ts T' of ((us', ok'), T'') \<Rightarrow> ((us @ us', ok'), T'')) else ((us, ok), T'))"
  by (induction ss arbitrary: T) (auto split: prod.splits sum.splits)

text \<open>Keys as text are read back.\<close>

lemma split_keys:
  "\<forall>v\<in>set vs. d \<notin> set v \<and> v \<noteq> [] \<Longrightarrow> filter (\<lambda>k. k \<noteq> []) (split_on d (join_with [d] vs @ [d])) = vs"
proof (induction vs rule: induct_list012)
  case (2 x)
  then show ?case using split_on_part[of d x "[]"] by simp
qed (simp_all add: split_on_part)

lemma those_map: "(\<And>x. f (g x) = Some x) \<Longrightarrow> those (map f (map g xs)) = Some xs"
  by (induction xs) simp_all

text \<open>Aggregations that are published are read as 256-bit numbers. Counts, sums and averages always can be.\<close>

definition readable :: "u256_text \<Rightarrow> string \<Rightarrow> bool" where
  "readable U s \<longleftrightarrow> from_be_hex U (trim_0x s) \<noteq> None"

definition readable_table :: "u256_text \<Rightarrow> aggregation_table \<Rightarrow> bool" where
  "readable_table U A \<longleftrightarrow> (\<forall>i r. map_of A i = Some r \<longrightarrow> readable U (ar_value r))"

definition counting :: "aggregation \<Rightarrow> bool" where
  "counting agg = (case agg of Count \<Rightarrow> True | Sum _ \<Rightarrow> True | Avg _ \<Rightarrow> True | _ \<Rightarrow> False)"

definition in_i128 :: "int \<Rightarrow> bool" where
  "in_i128 i \<longleftrightarrow> - (2 ^ 127) \<le> i \<and> i < 2 ^ 127"

lemma hex64_readable:
  assumes "\<And>v :: u256. from_be_hex U (trim_0x (hex64 (unat v))) = Some v" and "in_i128 i"
  shows "readable U (normalize_value_to_hex (int_text i))"
proof -
  have b: "nat (shown i) < 2 ^ LENGTH(256)" using shown_bounds[of i] assms(2) by (simp add: in_i128_def)
  then have "unat (of_nat (nat (shown i)) :: u256) = nat (shown i)" by (simp add: unat_of_nat take_bit_nat_eq_self)
  then have "from_be_hex U (trim_0x (hex64 (nat (shown i)))) \<noteq> None" using assms(1)[of "of_nat (nat (shown i))"] by simp
  then show ?thesis using assms(2) normalize_int[of i] by (simp add: readable_def in_i128_def)
qed

lemma display_in_i128: "in_i128 (or_zero (parse_display_to_i128 s))"
proof (cases "parse_display_to_i128 s")
  case (Some i)
  have r: "radix16 128 h = Some v \<Longrightarrow> v < 2 ^ 128" for h v by (auto simp: radix16_def Let_def split: option.splits if_splits)
  show ?thesis using Some
    by (auto dest!: r simp: parse_display_to_i128_def parse_i128_def parse_int_def or_zero_def in_i128_def split: option.splits if_splits)
qed (simp add: or_zero_def in_i128_def)

lemma saturated_in_i128: "in_i128 (saturating_add_i128 a b)"
  by (auto simp: saturating_add_i128_def in_i128_def)

lemma next_in_i128: "in_i128 (next_i64 n)"
proof -
  have "0 \<le> (n + 1 + 2 ^ 63) mod 2 ^ 64" "(n + 1 + 2 ^ 63) mod 2 ^ 64 < 2 ^ 64" by (rule pos_mod_sign pos_mod_bound; simp)+
  then show ?thesis unfolding next_i64_def in_i128_def by simp
qed

lemma quotient_in_i128: "in_i128 a \<Longrightarrow> 0 < k \<Longrightarrow> in_i128 (a sdiv k)"
proof -
  assume a: "in_i128 a" and k: "0 < k"
  have "\<bar>a\<bar> div k \<le> \<bar>a\<bar>" using k zdiv_mono2[of "\<bar>a\<bar>" 1 k] by simp
  moreover have "0 \<le> \<bar>a\<bar> div k" using k by (simp add: pos_imp_zdiv_nonneg_iff)
  ultimately show ?thesis using a k by (auto simp: in_i128_def signed_divide_int_def sgn_if abs_if split: if_splits)
qed

lemma counting_readable:
  assumes "\<And>v :: u256. from_be_hex U (trim_0x (hex64 (unat v))) = Some v" and "counting agg"
  shows "(\<exists>s. aggregate_value D J agg e x = Inl (LeaderboardFieldExtraction s)) \<or> (\<exists>v d m. aggregate_value D J agg e x = Inr (v, d, m) \<and> readable U v)"
proof -
  note r = hex64_readable[OF assms(1)]
  have one: "in_i128 1" "in_i128 0" by (simp_all add: in_i128_def)
  show ?thesis
  proof (cases agg)
    case Count
    then show ?thesis using r[OF one(1)] r[OF next_in_i128]
      by (cases x) (simp_all add: aggregate_value_def calculate_count_value_def Let_def)
  next
    case (Sum p)
    then show ?thesis using r[OF display_in_i128] r[OF saturated_in_i128]
      by (cases x; cases "extract_field_value D e p False") (auto simp: aggregate_value_def calculate_sum_value_def field_missing_def Let_def)
  next
    case (Avg p)
    have q: "in_i128 (if 0 < k then saturating_add_i128 a b sdiv k else 0)" for a b k using quotient_in_i128[OF saturated_in_i128] one(2) by simp
    show ?thesis
    proof (cases "extract_field_value D e p False")
      case (Some d)
      obtain a k where "existing_sum_and_count J (Option.bind x ar_metadata) = (a, k)" by (cases "existing_sum_and_count J (Option.bind x ar_metadata)")
      then show ?thesis using Avg Some r[OF q] by (simp add: aggregate_value_def calculate_avg_value_def field_missing_def Let_def)
    qed (use Avg in \<open>simp add: aggregate_value_def calculate_avg_value_def field_missing_def\<close>)
  qed (use assms(2) in \<open>simp_all add: counting_def\<close>)
qed

lemma counting_update:
  assumes "\<And>v :: u256. from_be_hex U (trim_0x (hex64 (unat v))) = Some v" and "counting (agc_aggregation c)" and "readable_table U A"
  shows "fst (update_aggregation D J U c e i A) \<noteq> Inl AggregationPanic" and "readable_table U (snd (update_aggregation D J U c e i A))"
proof -
  have put: "readable U (ar_value r) \<Longrightarrow> \<exists>x. upsert_aggregation_entry U j r A = (Inr x, al_insert j r A)" for j r
    by (auto simp: upsert_aggregation_entry_def readable_def Let_def)
  have kept: "readable U (ar_value r) \<Longrightarrow> readable_table U (al_insert j r A)" for j r using assms(3) by (simp add: readable_table_def)
  show "fst (update_aggregation D J U c e i A) \<noteq> Inl AggregationPanic" "readable_table U (snd (update_aggregation D J U c e i A))"
  proof (atomize (full), cases "group_parts D e (agc_group_by c)")
    case (Some g)
    let ?j = "agc_id c @ '':'' @ join_with '':'' g"
    from counting_readable[OF assms(1,2), of D J e "map_of A ?j"]
    show "fst (update_aggregation D J U c e i A) \<noteq> Inl AggregationPanic \<and> readable_table U (snd (update_aggregation D J U c e i A))"
    proof (elim disjE exE conjE)
      fix v d m
      let ?r = "\<lparr>ar_aggregator_id = agc_id c, ar_entity_id = join_with '':'' g, ar_value = v, ar_display_value = d, ar_metadata = m, ar_model_id = i\<rparr>"
      assume v: "aggregate_value D J (agc_aggregation c) e (map_of A ?j) = Inr (v, d, m)" "readable U v"
      obtain x where "upsert_aggregation_entry U ?j ?r A = (Inr x, al_insert ?j ?r A)" using put[of ?r ?j] v(2) by auto
      then show ?thesis using Some v kept[of ?r ?j] by (simp add: update_aggregation_def Let_def)
    qed (use Some assms(3) in \<open>simp add: update_aggregation_def Let_def\<close>)
  qed (use assms(3) in \<open>simp add: update_aggregation_def Let_def\<close>)
qed

text \<open>So counting aggregators never panic, and keep the table readable.\<close>

lemma counting_total:
  assumes "\<And>v :: u256. from_be_hex U (trim_0x (hex64 (unat v))) = Some v" and "list_all (\<lambda>c. counting (agc_aggregation c)) cs" and "readable_table U A"
  shows "\<exists>es A'. update_aggregations D J U cs e i A = (Some es, A') \<and> readable_table U A'"
  using assms(2,3)
proof (induction cs arbitrary: A)
  case (Cons c cs)
  have u: "fst (update_aggregation D J U c e i A) \<noteq> Inl AggregationPanic" "readable_table U (snd (update_aggregation D J U c e i A))"
    using counting_update[OF assms(1)] Cons.prems by simp_all
  obtain x A' where x: "update_aggregation D J U c e i A = (x, A')" by (cases "update_aggregation D J U c e i A")
  obtain es A'' where "update_aggregations D J U cs e i A' = (Some es, A'')" "readable_table U A''" using Cons.IH[of A'] Cons.prems(1) u(2) x by auto
  then show ?case using x u(1) by (auto split: sum.split aggregation_error.split)
qed simp

locale entity_store = model_store D X R aff + felt_format "tx_felt X"
  for D :: dojo_types and X :: text_formats and R :: "'c row_reader" and aff :: "string \<Rightarrow> string \<Rightarrow> 'c" +
  fixes E :: "'c entity_env" and models :: "(string \<times> ty) list"
  assumes parts: "ee_dojo E = D" "ee_formats E = X" "ee_reader E = R" "ee_hooks E = []"
    and felt_plain: "CHR ''/'' \<notin> set (felt_hex (tx_felt X) f)" "felt_hex (tx_felt X) f \<noteq> []"
    and aggregations_run: "map_of models i = Some t \<Longrightarrow> conforms t v \<Longrightarrow> readable_table (tx_u256 X) A \<Longrightarrow>
      \<exists>es A'. update_aggregations D (tx_json X) (tx_u256 X) (get_aggregator_for_model (ee_aggregators E) (dt_name D v)) v i A = (Some es, A') \<and>
        readable_table (tx_u256 X) A'"
    and ty_name: "dt_name D (Struct n ms) = n"
    and model_ok: "map_of models i = Some t \<Longrightarrow>
      \<exists>n ms te. t = Struct n ms \<and> named t \<and> distinct (internal_columns @ collect_columns [] t) \<and> te_dojo te = D \<and> ee_store E n = table_store te t aff"
    and own_table: "map_of models i = Some t \<Longrightarrow> map_of models i' = Some t' \<Longrightarrow> dt_name D t = dt_name D t' \<Longrightarrow> i = i'"
begin

abbreviation sc :: "felt \<Rightarrow> felt \<Rightarrow> string" where
  "sc \<equiv> format_world_scoped_id (tx_felt X)"

lemma sc_eq [simp]: "sc w x = sc w' x' \<longleftrightarrow> w = w' \<and> x = x'"
  using scoped_parse_format by (metis prod.inject sum.inject(2))

lemma sc_split: "split_once (CHR '':'') (sc w x) = Some (felt_hex (tx_felt X) w, felt_hex (tx_felt X) x)"
  by (simp add: format_world_scoped_id_def split_once_found no_colon)

lemma keys_read: "felts_of (tx_felt X) (felts_to_sql_string (tx_felt X) ks) = Some ks"
  unfolding felts_of_def felts_to_sql_string_def
  by (subst split_keys) (auto simp: felt_plain reads_back those_map simp del: map_map)

definition row_ok :: "felt \<Rightarrow> felt \<Rightarrow> entity_row \<Rightarrow> bool" where
  "row_ok w e r \<longleftrightarrow> er_entity_id r = felt_hex (tx_felt X) e \<and> er_world_address r = felt_hex (tx_felt X) w \<and>
     (case er_keys r of None \<Rightarrow> True | Some k \<Rightarrow> felts_of (tx_felt X) k \<noteq> None)"

definition row_holds :: "string \<Rightarrow> ty \<Rightarrow> 'c model_rows \<Rightarrow> string \<Rightarrow> ty option \<Rightarrow> bool" where
  "row_holds n t rows i x \<longleftrightarrow>
     (case x of
        None \<Rightarrow> map_of rows i = None
      | Some v \<Rightarrow> conforms t v \<and> (\<exists>cells. map_of rows i = Some cells \<and> holds_value D X (ee_store E n) cells v))"

text \<open>Rows are kept under the identifier of the entity after a prefix: none for entities, \<open>event:\<close> for event messages.\<close>

definition rows_hold :: "string \<Rightarrow> (string \<times> 'c model_rows) list \<Rightarrow> entity_map \<Rightarrow> bool" where
  "rows_hold p rs m \<longleftrightarrow> (\<forall>w s t. map_of models (sc w s) = Some t \<longrightarrow>
     (\<exists>rows. map_of rs (dt_name D t) = Some rows \<and> (\<forall>e. row_holds (dt_name D t) t rows (p @ sc w e) (m (w, e, s)))))"

definition entities_hold :: "(string \<times> entity_row) list \<Rightarrow> entity_map \<Rightarrow> bool" where
  "entities_hold es m \<longleftrightarrow> dom (map_of es) = (\<lambda>(w, e, s). sc w e) ` dom m \<and>
     (\<forall>w e r. map_of es (sc w e) = Some r \<longrightarrow> row_ok w e r)"

definition relation :: "entity_map \<Rightarrow> (string \<times> string) set" where
  "relation m = (\<lambda>(w, e, s). (sc w e, sc w s)) ` dom m"

definition store_inv :: "'c entity_tables \<Rightarrow> entity_map \<Rightarrow> entity_map \<Rightarrow> bool" where
  "store_inv T m g \<longleftrightarrow> et_models T = models \<and> rows_hold [] (et_rows T) m \<and> entities_hold (et_entities T) m \<and>
     fst ` set (et_entity_model T) = relation m \<and> readable_table (tx_u256 X) (et_aggregations T) \<and> (\<forall>w e s. m (w, e, s) \<noteq> None \<longrightarrow> map_of models (sc w s) \<noteq> None) \<and>
     rows_hold ''event:'' (et_rows T) g"

text \<open>An identifier has one colon, so rows of entities and of event messages are apart.\<close>

lemma event_row_apart [simp]: "''event:'' @ sc w e \<noteq> sc w' e'"
proof
  assume a: "''event:'' @ sc w e = sc w' e'"
  have "split_once (CHR '':'') (''event:'' @ sc w e) = Some (''event'', sc w e)"
    using split_once_found[of "CHR '':''" "''event''" "sc w e"] by simp
  then have "sc w e = felt_hex (tx_felt X) e'" unfolding a by (simp add: sc_split)
  then show False using no_colon[of e'] by (metis format_world_scoped_id_def in_set_conv_decomp append_Cons)
qed

lemma other_rows:
  assumes "rows_hold p rs m" "map_of rs n = Some rows" "\<And>w e. map_of rows' (p @ sc w e) = map_of rows (p @ sc w e)"
  shows "rows_hold p (al_insert n rows' rs) m"
  unfolding rows_hold_def
proof (intro allI impI)
  fix w s t
  assume "map_of models (sc w s) = Some t"
  then obtain rs' where r: "map_of rs (dt_name D t) = Some rs'" "\<And>e. row_holds (dt_name D t) t rs' (p @ sc w e) (m (w, e, s))"
    using assms(1) unfolding rows_hold_def by blast
  show "\<exists>rows. map_of (al_insert n rows' rs) (dt_name D t) = Some rows \<and> (\<forall>e. row_holds (dt_name D t) t rows (p @ sc w e) (m (w, e, s)))"
  proof (cases "dt_name D t = n")
    case True
    then have "row_holds (dt_name D t) t rows' (p @ sc w e) (m (w, e, s))" for e
      using r(2)[of e] r(1) assms(2) assms(3)[of w e] by (cases "m (w, e, s)") (simp_all add: row_holds_def)
    then show ?thesis using True by auto
  qed (use r in auto)
qed

lemma upsert_elsewhere: "snd (hd cs) \<noteq> i \<Longrightarrow> map_of (upsert_entity st cs rows) i = map_of rows i"
  by (simp add: upsert_entity_def split: option.split)

lemma model_reads:
  assumes "et_models T = models" "rows_hold p (et_rows T) m" "map_of models (sc w s) = Some t"
  shows "entity_model E (sc w s) (p @ sc w e) T = (Inr (m (w, e, s)), T)"
proof -
  obtain rows where rows: "map_of (et_rows T) (dt_name D t) = Some rows" "row_holds (dt_name D t) t rows (p @ sc w e) (m (w, e, s))"
    using assms(2,3) unfolding rows_hold_def by blast
  obtain n ms te where t: "t = Struct n ms" "named (Struct n ms)" "distinct (internal_columns @ collect_columns [] (Struct n ms))"
    "te_dojo te = D" "ee_store E n = table_store te (Struct n ms) aff" using model_ok[OF assms(3)] by auto
  show ?thesis
  proof (cases "m (w, e, s)")
    case None
    then show ?thesis using rows assms(1,3) by (simp add: entity_model_def parts row_holds_def)
  next
    case (Some v)
    then obtain cells where c: "map_of rows (p @ sc w e) = Some cells" "conforms (Struct n ms) v" "holds_value D X (table_store te (Struct n ms) aff) cells v"
      using rows(2) t(1,5) by (auto simp: row_holds_def ty_name)
    have "map_row_to_ty D X R (whole_row R (Struct n ms) cells) [] [] (Struct n ms) = Inr v"
      by (rule holds_reads(1)[OF t(4,2) c(2) t(3) c(3)])
    then show ?thesis using rows(1) assms(1,3) c(1) Some by (simp add: entity_model_def parts t(1) del: map_row_to_ty.simps)
  qed
qed

lemma update_made:
  assumes "row_ok w e r"
  shows "\<exists>u. to_entity_update (tx_felt X) r (Struct n ms) x d = Some u \<and> view u = (w, e, [(n, ms)], x, er_event_id r, d)"
proof -
  have "felts_of (tx_felt X) [] = Some []" by (simp add: felts_of_def)
  then obtain ks where "felts_of (tx_felt X) (case er_keys r of None \<Rightarrow> [] | Some k \<Rightarrow> k) = Some ks"
    using assms by (cases "er_keys r") (auto simp: row_ok_def)
  then show ?thesis using assms by (simp add: to_entity_update_def row_ok_def reads_back view_def)
qed

text \<open>Storing: the three queries of \<open>set_entity\<close>.\<close>

lemma upserted_row:
  assumes "entities_hold es m"
    and "r = \<lparr>er_entity_id = felt_hex (tx_felt X) e, er_world_address = felt_hex (tx_felt X) w,
      er_keys = (case map_option (felts_to_sql_string (tx_felt X)) keys of Some k \<Rightarrow> Some k | None \<Rightarrow> Option.bind (map_of es (sc w e)) er_keys),
      er_event_id = ev, er_executed_at = at\<rparr>"
  shows "row_ok w e r" and "entities_hold (al_insert (sc w e) r es) (m((w, e, s) \<mapsto> v))"
proof -
  show ok: "row_ok w e r"
    using assms(1) unfolding assms(2)
    by (cases keys; cases "map_of es (sc w e)") (auto simp: row_ok_def entities_hold_def keys_read split: option.splits)
  show "entities_hold (al_insert (sc w e) r es) (m((w, e, s) \<mapsto> v))" using assms(1) ok by (auto simp: entities_hold_def)
qed

lemma relation_set: "relation (m((w, e, s) \<mapsto> v)) = insert (sc w e, sc w s) (relation m)"
  by (simp add: relation_def)

lemma relation_delete: "relation (m((w, e, s) := None)) = relation m - {(sc w e, sc w s)}"
proof -
  have "inj (\<lambda>(w, e, s). (sc w e, sc w s))" by (auto simp: inj_def)
  then show ?thesis by (simp add: relation_def image_set_diff)
qed

lemma history_stored:
  assumes "conforms t v" "eq_entity_id q = sc w e" "eq_ty q = v"
  shows "\<exists>h. store_historical E q T = (Inr (), T\<lparr>et_historical := h\<rparr>)"
  using json_values[OF assms(1)] by (auto simp: store_historical_def assms(2,3) sc_split parts)

lemma set_query_runs:
  assumes "store_inv T m g" "map_of models (sc w s) = Some t" "conforms t v"
    and q: "eq_entity_id q = sc w e" "eq_model_id q = sc w s" "eq_hashed_keys q = felt_hex (tx_felt X) e" "eq_world_address q = felt_hex (tx_felt X) w"
      "eq_keys_str q = map_option (felts_to_sql_string (tx_felt X)) keys" "eq_ty q = v"
  shows "\<exists>us r k T'. set_entity_query E q T = (Inr us, T') \<and> readable_table (tx_u256 X) (et_aggregations T') \<and> et_entities T' = al_insert (sc w e) r (et_entities T) \<and>
    et_entity_model T' = al_insert (sc w e, sc w s) k (et_entity_model T) \<and> et_rows T' = et_rows T \<and> et_models T' = et_models T \<and>
    entity_views us = [(w, e, struct_parts v, m (w, e, s), eq_event_id q, False)] \<and>
    entities_hold (al_insert (sc w e) r (et_entities T)) (m((w, e, s) \<mapsto> v))"
proof -
  have inv: "et_models T = models" "rows_hold [] (et_rows T) m" "entities_hold (et_entities T) m" "readable_table (tx_u256 X) (et_aggregations T)"
    using assms(1) by (auto simp: store_inv_def)
  define r where "r = \<lparr>er_entity_id = felt_hex (tx_felt X) e, er_world_address = felt_hex (tx_felt X) w,
      er_keys = (case map_option (felts_to_sql_string (tx_felt X)) keys of Some k \<Rightarrow> Some k | None \<Rightarrow> Option.bind (map_of (et_entities T) (sc w e)) er_keys),
      er_event_id = eq_event_id q, er_executed_at = eq_block_timestamp q\<rparr>"
  note row = upserted_row[OF inv(3) r_def]
  let ?T1 = "T\<lparr>et_entities := al_insert (sc w e) r (et_entities T)\<rparr>"
  have up: "upsert_entities q T = (Inr r, ?T1)" by (simp add: upsert_entities_def q r_def Let_def)
  have read: "entity_model E (sc w s) (sc w e) ?T1 = (Inr (m (w, e, s)), ?T1)" using model_reads[of ?T1 "[]" m w s t e] inv assms(2) by simp
  obtain n ms where v: "v = Struct n ms" using model_ok[OF assms(2)] assms(3) by (auto split: ty.splits)
  obtain u where u: "to_entity_update (tx_felt X) r v (m (w, e, s)) False = Some u" "view u = (w, e, struct_parts v, m (w, e, s), eq_event_id q, False)"
    using update_made[OF row(1), of n ms "m (w, e, s)" False] by (auto simp: v r_def)
  obtain h where h: "store_historical E q ?T1 = (Inr (), ?T1\<lparr>et_historical := h\<rparr>)"
    using history_stored[OF assms(3) q(1,6), of ?T1] by blast
  obtain es A where ag: "update_aggregations D (tx_json X) (tx_u256 X) (get_aggregator_for_model (ee_aggregators E) (dt_name D v)) v (sc w s) (et_aggregations T) = (Some es, A)"
    "readable_table (tx_u256 X) A" using aggregations_run[OF assms(2,3) inv(4)] by blast
  have "\<exists>k T'. set_entity_query E q T = (Inr (map AggregationUpdated es @ [EntityUpdated u]), T') \<and> et_aggregations T' = A \<and> et_entities T' = al_insert (sc w e) r (et_entities T) \<and>
      et_entity_model T' = al_insert (sc w e, sc w s) k (et_entity_model T) \<and> et_rows T' = et_rows T \<and> et_models T' = et_models T"
    unfolding set_entity_query_def and_then_def up
    by (cases "eq_is_historical q") (use h read u(1) ag(1) in \<open>auto simp: q ret_def panic_unless_def parts run_aggregations_def\<close>)
  then obtain k T' where "set_entity_query E q T = (Inr (map AggregationUpdated es @ [EntityUpdated u]), T')" "et_aggregations T' = A"
    "et_entities T' = al_insert (sc w e) r (et_entities T)" "et_entity_model T' = al_insert (sc w e, sc w s) k (et_entity_model T)" "et_rows T' = et_rows T"
    "et_models T' = et_models T" by blast
  then show ?thesis using u(2) row(2) ag(2)
    by (intro exI[of _ "map AggregationUpdated es @ [EntityUpdated u]"] exI[of _ r] exI[of _ k] exI[of _ T']) simp
qed

lemma stored_rows:
  assumes "rows_hold p rs m" "map_of models (sc w s) = Some t" "conforms t v" "map_of rs (dt_name D t) = Some rows"
    and "\<And>old. holds_value D X (ee_store E (dt_name D t)) (set_cells (ee_store E (dt_name D t)) cs old) v" "snd (hd cs) = p @ sc w e"
  shows "rows_hold p (al_insert (dt_name D t) (upsert_entity (ee_store E (dt_name D t)) cs rows) rs) (m((w, e, s) \<mapsto> v))"
  unfolding rows_hold_def
proof (intro allI impI)
  fix w' s' t'
  assume t': "map_of models (sc w' s') = Some t'"
  then obtain rows' where r': "map_of rs (dt_name D t') = Some rows'" "\<And>e'. row_holds (dt_name D t') t' rows' (p @ sc w' e') (m (w', e', s'))"
    using assms(1) unfolding rows_hold_def by blast
  show "\<exists>rows'. map_of (al_insert (dt_name D t) (upsert_entity (ee_store E (dt_name D t)) cs rows) rs) (dt_name D t') = Some rows' \<and>
      (\<forall>e'. row_holds (dt_name D t') t' rows' (p @ sc w' e') ((m((w, e, s) \<mapsto> v)) (w', e', s')))"
  proof (cases "dt_name D t' = dt_name D t")
    case True
    have ws: "w' = w" "s' = s" using own_table[OF t' assms(2) True] by simp_all
    have tt: "t' = t" using t' assms(2) unfolding ws by simp
    then have same: "w' = w" "s' = s" "t' = t" "rows' = rows" using ws r'(1) assms(4) by simp_all
    have "row_holds (dt_name D t) t (upsert_entity (ee_store E (dt_name D t)) cs rows) (p @ sc w e') ((m((w, e, s) \<mapsto> v)) (w, e', s))" for e'
    proof (cases "e' = e")
      case True
      then have "\<exists>cells. map_of (upsert_entity (ee_store E (dt_name D t)) cs rows) (p @ sc w e') = Some cells \<and> holds_value D X (ee_store E (dt_name D t)) cells v"
        using assms(5) by (simp add: upsert_entity_def assms(6) split: option.split)
      then show ?thesis using True assms(3) by (simp add: row_holds_def)
    next
      case False
      then show ?thesis using r'(2)[of e'] assms(6) unfolding same by (simp add: upsert_entity_def row_holds_def split: option.splits)
    qed
    then show ?thesis unfolding same by simp
  next
    case False
    then have "(w', s') \<noteq> (w, s)" using t' assms(2) by auto
    then show ?thesis using r' False by auto
  qed
qed

lemma set_step:
  assumes inv: "store_inv T m g" and ok: "op_ok X D models (SetOp w e s v ev ts keys)"
  shows "\<exists>us T'. run_entity_statements E (op_statements E (SetOp w e s v ev ts keys)) T = ((us, True), T') \<and>
    entity_views us = spec_update D (SetOp w e s v ev ts keys) m \<and> store_inv T' (m((w, e, s) \<mapsto> v)) g"
proof -
  obtain t where t: "map_of models (sc w s) = Some t" "conforms t v" using ok by (auto simp: op_ok_def split: option.splits)
  obtain n ms where n: "t = Struct n ms" "distinct (internal_columns @ collect_columns [] (Struct n ms))" using model_ok[OF t(1)] by auto
  have vn: "dt_name D v = dt_name D t" "dt_name D t = n" using t(2) n(1) by (auto simp: ty_name split: ty.splits)
  obtain cs where cs: "entity_columns D (tx_json X) (ee_time E ts) (ee_now E) ev (sc w e) v = Inr cs" "snd (hd cs) = sc w e"
    "\<And>old. holds_value D X (ee_store E n) (set_cells (ee_store E n) cs old) v"
    using upsert_holds[of n ms v] t(2) n by metis
  have parts_inv: "et_models T = models" "rows_hold [] (et_rows T) m" "fst ` set (et_entity_model T) = relation m"
    "\<And>w e s. m (w, e, s) \<noteq> None \<Longrightarrow> map_of models (sc w s) \<noteq> None" "rows_hold ''event:'' (et_rows T) g" using inv by (auto simp: store_inv_def)
  obtain rows where rows: "map_of (et_rows T) (dt_name D t) = Some rows" using parts_inv(2) t(1) unfolding rows_hold_def by blast
  let ?q = "\<lparr>eq_world_address = felt_hex (tx_felt X) w, eq_hashed_keys = felt_hex (tx_felt X) e, eq_event_id = ev, eq_block_timestamp = ee_time E ts,
     eq_entity_id = sc w e, eq_model_id = sc w s, eq_keys_str = map_option (felts_to_sql_string (tx_felt X)) keys, eq_ty = v,
     eq_is_historical = (s \<in> set (ee_historical E))\<rparr>"
  obtain us r k T' where q: "set_entity_query E ?q T = (Inr us, T')" "et_entities T' = al_insert (sc w e) r (et_entities T)"
    "et_entity_model T' = al_insert (sc w e, sc w s) k (et_entity_model T)" "et_rows T' = et_rows T" "et_models T' = et_models T"
    "readable_table (tx_u256 X) (et_aggregations T')" "entity_views us = [(w, e, struct_parts v, m (w, e, s), ev, False)]" "entities_hold (al_insert (sc w e) r (et_entities T)) (m((w, e, s) \<mapsto> v))"
    using set_query_runs[OF inv t, of ?q e keys] by auto
  have st: "op_statements E (SetOp w e s v ev ts keys) = [SetEntity ?q, LinkModel (sc w e) (sc w s), StoreModel (dt_name D v) cs]"
    by (simp add: set_entity_def parts cs(1) Let_def hook_statements_def)
  have rh: "rows_hold [] (al_insert (dt_name D t) (upsert_entity (ee_store E (dt_name D t)) cs rows) (et_rows T)) (m((w, e, s) \<mapsto> v))"
    by (rule stored_rows[OF parts_inv(2) t rows]) (simp_all add: vn cs(2,3))
  have eh: "rows_hold ''event:'' (al_insert (dt_name D t) (upsert_entity (ee_store E (dt_name D t)) cs rows) (et_rows T)) g"
    by (rule other_rows[OF parts_inv(5) rows upsert_elsewhere]) (use event_row_apart in \<open>auto simp: cs(2) dest: sym\<close>)
  show ?thesis unfolding st
    using q rh eh rows parts_inv(1,3,4) t(1)
    by (auto simp: run_entity_statement_def and_then_def ret_def link_model_def store_model_def vn store_inv_def relation_set)
qed

text \<open>Deleting: the handler of the executor.\<close>

lemma removed_rows:
  assumes "rows_hold [] rs m" "map_of models (sc w s) = Some t" "map_of rs (dt_name D t) = Some rows"
  shows "rows_hold [] (al_insert (dt_name D t) (al_remove (sc w e) rows) rs) (m((w, e, s) := None))"
  unfolding rows_hold_def append_Nil
proof (intro allI impI)
  fix w' s' t'
  assume t': "map_of models (sc w' s') = Some t'"
  then obtain rows' where r': "map_of rs (dt_name D t') = Some rows'" "\<And>e'. row_holds (dt_name D t') t' rows' (sc w' e') (m (w', e', s'))"
    using assms(1) unfolding rows_hold_def append_Nil by blast
  show "\<exists>rows'. map_of (al_insert (dt_name D t) (al_remove (sc w e) rows) rs) (dt_name D t') = Some rows' \<and>
      (\<forall>e'. row_holds (dt_name D t') t' rows' (sc w' e') ((m((w, e, s) := None)) (w', e', s')))"
  proof (cases "dt_name D t' = dt_name D t")
    case True
    have ws: "w' = w" "s' = s" using own_table[OF t' assms(2) True] by simp_all
    have tt: "t' = t" using t' assms(2) unfolding ws by simp
    then have same: "w' = w" "s' = s" "t' = t" "rows' = rows" using ws r'(1) assms(3) by simp_all
    have "row_holds (dt_name D t) t (al_remove (sc w e) rows) (sc w e') ((m((w, e, s) := None)) (w, e', s))" for e'
      using r'(2)[of e'] unfolding same by (simp add: row_holds_def split: option.splits)
    then show ?thesis unfolding same by simp
  next
    case False
    then have "(w', s') \<noteq> (w, s)" using t' assms(2) by auto
    then show ?thesis using r' False by auto
  qed
qed

lemma entities_touched:
  assumes "entities_hold es m" "map_of es (sc w e) = Some r" "row_ok w e r'" "m (w, e, s') \<noteq> None" "s' \<noteq> s"
  shows "entities_hold (al_insert (sc w e) r' es) (m((w, e, s) := None))"
proof -
  have "(\<lambda>(w, e, s). sc w e) ` (dom m - {(w, e, s)}) = (\<lambda>(w, e, s). sc w e) ` dom m"
  proof
    have "sc w e \<in> (\<lambda>(w, e, s). sc w e) ` (dom m - {(w, e, s)})" using assms(4,5) by (auto intro!: image_eqI[of _ _ "(w, e, s')"])
    moreover have "(\<lambda>(w, e, s). sc w e) ` dom m \<subseteq> insert (sc w e) ((\<lambda>(w, e, s). sc w e) ` (dom m - {(w, e, s)}))" by force
    ultimately show "(\<lambda>(w, e, s). sc w e) ` dom m \<subseteq> (\<lambda>(w, e, s). sc w e) ` (dom m - {(w, e, s)})" by (simp add: insert_absorb)
  qed (rule image_mono, rule Diff_subset)
  moreover have "insert (sc w e) (dom (map_of es)) = dom (map_of es)" using assms(2) by (simp add: insert_absorb domI)
  ultimately show ?thesis using assms(1,3) by (simp add: entities_hold_def)
qed

lemma entities_gone:
  assumes "entities_hold es m" "\<forall>s'. s' \<noteq> s \<longrightarrow> m (w, e, s') = None"
  shows "entities_hold (al_remove (sc w e) (al_insert (sc w e) r' es)) (m((w, e, s) := None))"
proof -
  have "(\<lambda>(w, e, s). sc w e) ` (dom m - {(w, e, s)}) = (\<lambda>(w, e, s). sc w e) ` dom m - {sc w e}" using assms(2) by force
  then show ?thesis using assms(1) by (auto simp: entities_hold_def)
qed

lemma related: "(\<exists>p\<in>relation m. fst p = sc w e) \<longleftrightarrow> (\<exists>s. m (w, e, s) \<noteq> None)"
proof
  assume "\<exists>s. m (w, e, s) \<noteq> None"
  then obtain s where "(w, e, s) \<in> dom m" by auto
  then show "\<exists>p\<in>relation m. fst p = sc w e" unfolding relation_def by (intro bexI[OF _ imageI]) auto
next
  assume "\<exists>p\<in>relation m. fst p = sc w e"
  then obtain x where x: "x \<in> dom m" "fst (case x of (w, e, s) \<Rightarrow> (sc w e, sc w s)) = sc w e" unfolding relation_def by blast
  obtain w' e' s where "x = (w', e', s)" by (cases x)
  with x have "m (w, e, s) \<noteq> None" by (simp add: domIff)
  then show "\<exists>s. m (w, e, s) \<noteq> None" by (rule exI)
qed

lemma last_model:
  "fst ` set ps = relation (m((w, e, s) := None)) \<Longrightarrow> list_ex (\<lambda>((e', i), k). e' = sc w e) ps \<longleftrightarrow> \<not> (\<forall>s'. s' \<noteq> s \<longrightarrow> m (w, e, s') = None)"
proof -
  assume ps: "fst ` set ps = relation (m((w, e, s) := None))"
  have "list_ex (\<lambda>((e', i), k). e' = sc w e) ps \<longleftrightarrow> (\<exists>p\<in>fst ` set ps. fst p = sc w e)" by (induction ps) auto
  also have "\<dots> \<longleftrightarrow> (\<exists>s'. (m((w, e, s) := None)) (w, e, s') \<noteq> None)" unfolding ps by (rule related)
  also have "\<dots> \<longleftrightarrow> (\<exists>s'. \<not> (s' \<noteq> s \<longrightarrow> m (w, e, s') = None))" by (rule ex_cong1) simp
  finally show ?thesis unfolding not_all .
qed

lemma delete_runs:
  assumes inv: "store_inv T m g" and t: "map_of models (sc w s) = Some t" and v: "m (w, e, s) = Some v"
    and q: "dq_entity_id q = sc w e" "dq_model_id q = sc w s" "dt_name D (dq_ty q) = dt_name D t"
  shows "\<exists>u T'. delete_entity_handler E q T = (Inr [EntityUpdated u], T') \<and>
    view u = (w, e, [(dt_name D t, [])], Some v, dq_event_id q, \<forall>s'. s' \<noteq> s \<longrightarrow> m (w, e, s') = None) \<and> store_inv T' (m((w, e, s) := None)) g"
proof -
  have pi: "et_models T = models" "rows_hold [] (et_rows T) m" "entities_hold (et_entities T) m" "fst ` set (et_entity_model T) = relation m"
    "readable_table (tx_u256 X) (et_aggregations T)"
    "\<And>w e s. m (w, e, s) \<noteq> None \<Longrightarrow> map_of models (sc w s) \<noteq> None" "rows_hold ''event:'' (et_rows T) g" using inv by (auto simp: store_inv_def)
  note read = model_reads[OF pi(1,2) t, of e, unfolded v append_Nil]
  obtain rows where rows: "map_of (et_rows T) (dt_name D t) = Some rows" "row_holds (dt_name D t) t rows (sc w e) (Some v)"
    using pi(2) t v unfolding rows_hold_def append_Nil by metis
  define T1 where "T1 = T\<lparr>et_rows := al_insert (dt_name D t) (al_remove (sc w e) rows) (et_rows T)\<rparr>"
  have del: "delete_model_row E q T = (Inr True, T1)" using rows by (auto simp: delete_model_row_def parts q row_holds_def T1_def)
  have "sc w e \<in> dom (map_of (et_entities T))" using pi(3) v by (force simp: entities_hold_def)
  then obtain r where r1: "map_of (et_entities T) (sc w e) = Some r" by blast
  then have r: "map_of (et_entities T) (sc w e) = Some r" "row_ok w e r" using pi(3) unfolding entities_hold_def by blast+
  define r' where "r' = r\<lparr>er_executed_at := dq_block_timestamp q, er_event_id := dq_event_id q\<rparr>"
  have r': "row_ok w e r'" "er_event_id r' = dq_event_id q" using r(2) by (auto simp: r'_def row_ok_def)
  define T2 where "T2 = T1\<lparr>et_entity_model := al_remove (sc w e, sc w s) (et_entity_model T), et_entities := al_insert (sc w e) r' (et_entities T)\<rparr>"
  have un: "unlink_model q T1 = (Inr r', T2)" using r(1) by (simp add: unlink_model_def q T1_def T2_def r'_def Let_def)
  let ?last = "\<forall>s'. s' \<noteq> s \<longrightarrow> m (w, e, s') = None"
  have rel: "fst ` set (et_entity_model T2) = relation (m((w, e, s) := None))" by (simp add: T2_def relation_delete pi(4))
  obtain T3 where dl: "delete_if_last (sc w e) T2 = (Inr ?last, T3)" "et_rows T3 = et_rows T1" "et_models T3 = models" "et_aggregations T3 = et_aggregations T"
    "et_entity_model T3 = et_entity_model T2" "entities_hold (et_entities T3) (m((w, e, s) := None))"
  proof (cases ?last)
    case True
    show thesis by (rule that[of "T2\<lparr>et_entities := al_remove (sc w e) (et_entities T2)\<rparr>"])
      (use True last_model[OF rel] entities_gone[OF pi(3) True] pi(1) in \<open>auto simp: delete_if_last_def T2_def T1_def\<close>)
  next
    case False
    then obtain s' where s': "m (w, e, s') \<noteq> None" "s' \<noteq> s" by blast
    show thesis by (rule that[of T2])
      (use False last_model[OF rel] entities_touched[OF pi(3) r(1) r'(1) s'] pi(1) in \<open>auto simp: delete_if_last_def T2_def T1_def\<close>)
  qed
  obtain u where u: "to_entity_update (tx_felt X) r' (Struct (dt_name D t) []) (Some v) ?last = Some u"
    "view u = (w, e, [(dt_name D t, [])], Some v, dq_event_id q, ?last)"
    using update_made[OF r'(1), of "dt_name D t" "[]" "Some v" ?last, unfolded r'(2)] by blast
  have run: "delete_entity_handler E q T = (Inr [EntityUpdated u], T3)"
    unfolding delete_entity_handler_def and_then_def q(1,2) read by (simp add: del un dl(1) u(1) panic_unless_def ret_def parts q)
  have "rows_hold [] (et_rows T3) (m((w, e, s) := None))" unfolding dl(2) T1_def using removed_rows[OF pi(2) t rows(1)] by simp
  moreover have "rows_hold ''event:'' (et_rows T3) g" unfolding dl(2) T1_def using other_rows[OF pi(7) rows(1), of "al_remove (sc w e) rows"] event_row_apart by simp
  ultimately have "store_inv T3 (m((w, e, s) := None)) g" using dl(3-6) rel pi(5,6) by (auto simp: store_inv_def)
  then show ?thesis using run u(2) by blast
qed

lemma delete_step:
  assumes inv: "store_inv T m g" and ok: "op_ok X D models (DeleteOp w e s t ev ts)"
  shows "\<exists>us T'. run_entity_statements E (op_statements E (DeleteOp w e s t ev ts)) T = ((us, True), T') \<and>
    entity_views us = spec_update D (DeleteOp w e s t ev ts) m \<and> store_inv T' (m((w, e, s) := None)) g"
proof -
  obtain t' where t': "map_of models (sc w s) = Some t'" "dt_name D t = dt_name D t'" using ok by (auto simp: op_ok_def split: option.splits)
  let ?q = "\<lparr>dq_model_id = sc w s, dq_entity_id = sc w e, dq_event_id = ev, dq_block_timestamp = ee_time E ts, dq_ty = t\<rparr>"
  have st: "op_statements E (DeleteOp w e s t ev ts) = [DeleteEntity ?q]" by (simp add: delete_entity_def parts hook_statements_def Let_def)
  show ?thesis
  proof (cases "m (w, e, s)")
    case None
    have "entity_model E (sc w s) (sc w e) T = (Inr None, T)" using model_reads[of T "[]" m w s t' e] inv t'(1) None by (simp add: store_inv_def)
    then have "run_entity_statements E [DeleteEntity ?q] T = (([], True), T)"
      by (simp add: run_entity_statement_def delete_entity_handler_def and_then_def fail_def)
    moreover have "m((w, e, s) := None) = m" using None by auto
    ultimately show ?thesis unfolding st using inv None by simp
  next
    case (Some v)
    obtain u T' where "delete_entity_handler E ?q T = (Inr [EntityUpdated u], T')"
      "view u = (w, e, [(dt_name D t', [])], Some v, ev, \<forall>s'. s' \<noteq> s \<longrightarrow> m (w, e, s') = None)" "store_inv T' (m((w, e, s) := None)) g"
      using delete_runs[OF inv t'(1) Some, of ?q] t'(2) by auto
    then show ?thesis unfolding st using Some t'(2) by (simp add: run_entity_statement_def)
  qed
qed

lemma op_step:
  assumes "store_inv T m g" "op_ok X D models op"
  shows "\<exists>us T'. run_entity_statements E (op_statements E op) T = ((us, True), T') \<and> entity_views us = spec_update D op m \<and> store_inv T' (spec_step op m) g"
  using assms set_step delete_step by (cases op) (simp_all del: op_statements.simps spec_update.simps)

lemma ops_run:
  "store_inv T m g \<Longrightarrow> list_all (op_ok X D models) ops \<Longrightarrow>
   \<exists>us T'. run_entity_statements E (concat (map (op_statements E) ops)) T = ((us, True), T') \<and> entity_views us = fst (spec_run D ops m) \<and>
     store_inv T' (snd (spec_run D ops m)) g"
proof (induction ops arbitrary: T m)
  case (Cons op ops)
  obtain us T1 where s: "run_entity_statements E (op_statements E op) T = ((us, True), T1)" "entity_views us = spec_update D op m" "store_inv T1 (spec_step op m) g"
    using op_step[OF Cons.prems(1), of op] Cons.prems(2) by (simp del: op_statements.simps) blast
  obtain us' T2 where "run_entity_statements E (concat (map (op_statements E) ops)) T1 = ((us', True), T2)"
    "entity_views us' = fst (spec_run D ops (spec_step op m))" "store_inv T2 (snd (spec_run D ops (spec_step op m))) g"
    using Cons.IH[OF s(3)] Cons.prems(2) by auto
  then show ?case using s by (simp add: run_append case_prod_unfold)
qed simp

lemma table_of_model: "map_of models i = Some t \<Longrightarrow> map_of (map (\<lambda>(i, t). (dt_name D t, [])) models) (dt_name D t) = Some []"
proof -
  have "(i, t) \<in> set xs \<Longrightarrow> map_of (map (\<lambda>(i, t). (dt_name D t, [])) xs) (dt_name D t) = Some []" for xs :: "(string \<times> ty) list" by (induction xs) auto
  then show "map_of models i = Some t \<Longrightarrow> map_of (map (\<lambda>(i, t). (dt_name D t, [])) models) (dt_name D t) = Some []" using map_of_SomeD by metis
qed

lemma empty_inv: "store_inv (empty_tables D models) Map.empty Map.empty"
  by (auto simp: store_inv_def empty_tables_def rows_hold_def entities_hold_def relation_def row_holds_def table_of_model readable_table_def)

end

section \<open>A concrete store\<close>

definition sample_count :: aggregator_config where
  "sample_count = \<lparr>agc_id = ''units'', agc_model_tag = ''ns-Unit'', agc_group_by = [''name''], agc_aggregation = Count\<rparr>"

definition sample_entity_env :: "string entity_env" where
  "sample_entity_env = \<lparr>ee_dojo = plain_dojo, ee_formats = plain_formats, ee_reader = text_reader, ee_store = (\<lambda>_. table_store sample_table_env sample_schema (\<lambda>_ s. s)),
     ee_now = ''now'', ee_time = (\<lambda>n. dec_digits (unat n)), ee_historical = [5], ee_hooks = [], ee_aggregators = [sample_count], ee_sql = (\<lambda>_ _. ret ())\<rparr>"

definition sample_models :: "(string \<times> ty) list" where
  "sample_models = [(format_world_scoped_id hex_text 2 5, sample_schema)]"

lemma hex_text_plain: "CHR ''/'' \<notin> set (felt_hex hex_text f)" "felt_hex hex_text f \<noteq> []"
proof -
  have "\<forall>d \<in> set [0..<16]. hex_digit d \<noteq> CHR ''/''" by code_simp
  then have h: "d < 16 \<Longrightarrow> CHR ''/'' \<noteq> hex_digit d" for d by fastforce
  have "CHR ''/'' \<notin> set (hex_digits f)"
  proof (induction f rule: hex_digits.induct)
    case (1 f)
    then show ?case using h[of f] h[of "f mod 16"] by (subst hex_digits.simps) (simp add: Let_def)
  qed
  then show "CHR ''/'' \<notin> set (felt_hex hex_text f)" "felt_hex hex_text f \<noteq> []" by (simp_all add: hex_text_def)
qed

lemma formats_parts: "tx_felt plain_formats = hex_text"
  by (simp add: plain_formats_def)

interpretation sample_store: entity_store plain_dojo plain_formats text_reader "\<lambda>_ s. s" sample_entity_env sample_models
proof unfold_locales
  fix x
  show "felt_from_str (tx_felt plain_formats) (felt_hex (tx_felt plain_formats) x) = Some x"
    "CHR '':'' \<notin> set (felt_hex (tx_felt plain_formats) x)" by (simp_all add: formats_parts hex_felts.reads_back hex_felts.no_colon)
next
  fix i t
  assume "map_of sample_models i = Some t"
  then have t: "t = sample_schema" by (auto simp: sample_models_def split: if_splits)
  have "distinct (internal_columns @ collect_columns [] sample_schema)" by (simp add: sample_facts internal_columns_def)
  then show "\<exists>n ms te. t = Struct n ms \<and> named t \<and> distinct (internal_columns @ collect_columns [] t) \<and> te_dojo te = plain_dojo \<and>
      ee_store sample_entity_env n = table_store te t (\<lambda>_ s. s)"
    using sample_facts(1,3) unfolding t by (auto simp: sample_entity_env_def sample_schema_def)
next
  fix i t v A
  show "\<exists>es A'. update_aggregations plain_dojo (tx_json plain_formats) (tx_u256 plain_formats)
      (get_aggregator_for_model (ee_aggregators sample_entity_env) (dt_name plain_dojo v)) v i A = (Some es, A') \<and> readable_table (tx_u256 plain_formats) A'"
    if "readable_table (tx_u256 plain_formats) A"
    by (rule counting_total[OF plain_store.u256_reads _ that])
      (simp add: get_aggregator_for_model_def sample_entity_env_def sample_count_def counting_def)
qed (auto simp: sample_entity_env_def formats_parts hex_text_plain plain_dojo_def sample_models_def split: if_splits)

section \<open>Properties\<close>

text \<open>
  C7. Storing refines a map: after any sequence of entities that are stored and deleted, each of a registered model with a table of its own and each value of its schema, the
  executor is alive, reading any model of any entity returns the value last stored if it has not been deleted since, an entity has a row exactly if it has a model, and
  \<open>entity_model\<close> relates exactly the stored pairs. Subscribers get one update for every stored value and for every deletion of a stored one, with the value of before, and
  an entity is marked deleted exactly with its last model; deleting what is not stored changes nothing.
\<close>

theorem entity_store_refines:
  assumes "entity_store D X R aff E models" and "list_all (op_ok X D models) ops"
  shows "\<exists>us T. run_entity_statements E (concat (map (op_statements E) ops)) (empty_tables D models) = ((us, True), T) \<and>
    entity_views us = fst (spec_run D ops Map.empty) \<and>
    (\<forall>w e s. map_of models (format_world_scoped_id (tx_felt X) w s) \<noteq> None \<longrightarrow>
       entity_model E (format_world_scoped_id (tx_felt X) w s) (format_world_scoped_id (tx_felt X) w e) T = (Inr (snd (spec_run D ops Map.empty) (w, e, s)), T)) \<and>
    dom (map_of (et_entities T)) = (\<lambda>(w, e, s). format_world_scoped_id (tx_felt X) w e) ` dom (snd (spec_run D ops Map.empty)) \<and>
    fst ` set (et_entity_model T) = (\<lambda>(w, e, s). (format_world_scoped_id (tx_felt X) w e, format_world_scoped_id (tx_felt X) w s)) ` dom (snd (spec_run D ops Map.empty))"
proof -
  obtain us T where r: "run_entity_statements E (concat (map (op_statements E) ops)) (empty_tables D models) = ((us, True), T)"
    "entity_views us = fst (spec_run D ops Map.empty)" "entity_store.store_inv D X E models T (snd (spec_run D ops Map.empty)) Map.empty"
    using entity_store.ops_run[OF assms(1) entity_store.empty_inv[OF assms(1)] assms(2)] by blast
  let ?m = "snd (spec_run D ops Map.empty)"
  note inv = r(3)[unfolded entity_store.store_inv_def[OF assms(1)] entity_store.entities_hold_def[OF assms(1)] entity_store.relation_def[OF assms(1)]]
  have "entity_model E (format_world_scoped_id (tx_felt X) w s) (format_world_scoped_id (tx_felt X) w e) T = (Inr (?m (w, e, s)), T)"
    if "map_of models (format_world_scoped_id (tx_felt X) w s) \<noteq> None" for w e s
    using that entity_store.model_reads[OF assms(1) conjunct1[OF inv] conjunct1[OF conjunct2[OF inv]], of w s, unfolded append_Nil] by auto
  then show ?thesis using r(1,2) inv by (intro exI[of _ us] exI[of _ T]) simp
qed

theorem entity_store_refines_witness:
  "\<exists>us T. run_entity_statements sample_entity_env (concat (map (op_statements sample_entity_env)
       [SetOp 2 9 5 sample_unit ''e1'' 0 (Some [7]), SetOp 2 8 5 sample_unit ''e2'' 1 None, DeleteOp 2 9 5 sample_schema ''e3'' 2])) (empty_tables plain_dojo sample_models) =
       ((us, True), T) \<and>
     entity_views us = [(2, 9, struct_parts sample_unit, None, ''e1'', False), (2, 8, struct_parts sample_unit, None, ''e2'', False),
       (2, 9, [(''ns-Unit'', [])], Some sample_unit, ''e3'', True)] \<and>
     entity_model sample_entity_env (format_world_scoped_id hex_text 2 5) (format_world_scoped_id hex_text 2 8) T = (Inr (Some sample_unit), T) \<and>
     dom (map_of (et_entities T)) = {format_world_scoped_id hex_text 2 8}"
proof -
  let ?ops = "[SetOp 2 9 5 sample_unit ''e1'' 0 (Some [7]), SetOp 2 8 5 sample_unit ''e2'' 1 None, DeleteOp 2 9 5 sample_schema ''e3'' 2]"
  have models: "map_of sample_models (format_world_scoped_id hex_text 2 5) = Some sample_schema" by (simp add: sample_models_def)
  have ok: "list_all (op_ok plain_formats plain_dojo sample_models) ?ops" by (simp add: op_ok_def formats_parts models sample_facts(2))
  have m: "snd (spec_run plain_dojo ?ops Map.empty) = [(2, 8, 5) \<mapsto> sample_unit]" by (auto simp: fun_eq_iff)
  have u: "fst (spec_run plain_dojo ?ops Map.empty) = [(2, 9, struct_parts sample_unit, None, ''e1'', False), (2, 8, struct_parts sample_unit, None, ''e2'', False),
       (2, 9, [(''ns-Unit'', [])], Some sample_unit, ''e3'', True)]" by (simp add: sample_facts(4))
  show ?thesis using entity_store_refines[OF sample_store.entity_store_axioms ok] models unfolding m u formats_parts by fastforce
qed

end
