(* ===== verification/Achievements.thy ===== *)
theory Achievements
  imports Aggregator
begin

text \<open>
  Achievements (\<open>crates/sqlite/sqlite/src/executor/achievement.rs\<close>): an achievement has tasks with a target count; a player's progress on a task is counted, and the
  completion of tasks and achievements and the points of players are derived from it.

  Rows keep the columns that the module reads; times are texts, read as seconds by the parameter \<open>ae_seconds\<close>. Percentages are computed in floating point: the parameter \<open>ae_rate\<close> stands for the result of
  \<open>(a / b) * 100\<close>, and a progress between 0 and 1 is kept as its two numbers.
\<close>

section \<open>Tables\<close>

record task_definition =
  td_id :: string
  td_description :: string
  td_total :: "32 word"

record achievement_row =
  an_world_address :: string
  an_namespace :: string
  an_entity_id :: string
  an_hidden :: int
  an_index_num :: int
  an_points :: int
  an_start :: string
  an_end :: string
  an_group_name :: string
  an_icon :: string
  an_title :: string
  an_description :: string
  an_tasks :: string
  an_data :: "string option"
  an_completions :: "int \<times> string"

record task_row =
  tr_achievement_id :: string
  tr_task_id :: string
  tr_world_address :: string
  tr_namespace :: string
  tr_description :: string
  tr_total :: int
  tr_completions :: "int \<times> string"

record progression_row =
  pr_task_id :: string
  pr_world_address :: string
  pr_namespace :: string
  pr_player_id :: string
  pr_count :: int
  pr_completed :: bool
  pr_completed_at :: "string option"

record player_row =
  pl_world_address :: string
  pl_namespace :: string
  pl_player_id :: string
  pl_total_points :: int
  pl_completed_achievements :: int
  pl_total_achievements :: int
  pl_completion_percentage :: string
  pl_last_achievement_at :: "string option"

record achievement_tables =
  at_achievements :: "(string \<times> achievement_row) list"
  at_tasks :: "(string \<times> task_row) list"
  at_progressions :: "(string \<times> progression_row) list"
  at_players :: "(string \<times> player_row) list"

record achievement_env =
  ae_dojo :: dojo_types
  ae_json :: json_text
  ae_from_hex :: "string \<Rightarrow> felt option"
  ae_now :: string
  ae_seconds :: "string \<Rightarrow> int"
  ae_rate :: "int \<Rightarrow> int \<Rightarrow> string"

datatype achievement_error = FieldExtraction string | PrimitiveFailed string | ConstraintFailed string | FromHexFailed

section \<open>Fields\<close>

definition ty_to_string :: "achievement_env \<Rightarrow> ty \<Rightarrow> achievement_error + string option" where
  "ty_to_string E t =
     (case t of
        Primitive p \<Rightarrow> Inr (Some (dt_sql_value (ae_dojo E) p))
      | Enum n sel opts \<Rightarrow> Inr (Some (dt_enum_sql_value (ae_dojo E) sel opts))
      | ByteArray b \<Rightarrow> Inr (Some b)
      | _ \<Rightarrow>
          (case dt_to_json (ae_dojo E) t of
             Inl e \<Rightarrow> Inl (PrimitiveFailed e)
           | Inr j \<Rightarrow> Inr (Some (json_to_string (ae_json E) j))))"

definition extract_field :: "achievement_env \<Rightarrow> ty \<Rightarrow> string \<Rightarrow> achievement_error + string option" where
  "extract_field E t field_name =
     (case t of
        Struct n ms \<Rightarrow> (case List.find (\<lambda>m. mb_name m = field_name) ms of None \<Rightarrow> Inr None | Some m \<Rightarrow> ty_to_string E (mb_ty m))
      | Primitive p \<Rightarrow> Inr (Some (dt_sql_value (ae_dojo E) p))
      | Enum n sel opts \<Rightarrow> Inr (Some (dt_enum_sql_value (ae_dojo E) sel opts))
      | ByteArray b \<Rightarrow> Inr (Some b)
      | _ \<Rightarrow> Inr None)"

definition bind_ok :: "'e + 'a \<Rightarrow> ('a \<Rightarrow> 'e + 'b) \<Rightarrow> 'e + 'b" where
  "bind_ok r f = (case r of Inl e \<Rightarrow> Inl e | Inr a \<Rightarrow> f a)"

definition number_or :: "int \<Rightarrow> string option \<Rightarrow> int" where
  "number_or d v = (case Option.bind v parse_i32 of None \<Rightarrow> d | Some n \<Rightarrow> n)"

definition text_or :: "string \<Rightarrow> string option \<Rightarrow> string" where
  "text_or d v = (case v of None \<Rightarrow> d | Some s \<Rightarrow> s)"

definition required :: "string \<Rightarrow> string option \<Rightarrow> achievement_error + string" where
  "required what v = (case v of None \<Rightarrow> Inl (FieldExtraction what) | Some s \<Rightarrow> Inr s)"

section \<open>Registration\<close>

definition task_of_json :: "json \<Rightarrow> task_definition option" where
  "task_of_json j =
     (case (case j of
              JArray [i, d, n] \<Rightarrow> (Some i, Some d, Some n)
            | JObject m \<Rightarrow> (map_of m ''id'', map_of m ''description'', map_of m ''total'')
            | _ \<Rightarrow> (None, None, None)) of
        (Some (JString i), Some (JString d), Some (JU64 n)) \<Rightarrow>
          if unat n < 2 ^ 32 then Some \<lparr>td_id = i, td_description = d, td_total = ucast n\<rparr> else None
      | _ \<Rightarrow> None)"

definition tasks_of_text :: "json_text \<Rightarrow> string \<Rightarrow> task_definition list" where
  "tasks_of_text J s =
     (case json_from_str J s of
        Inr (JArray js) \<Rightarrow> (case those (map task_of_json js) of None \<Rightarrow> [] | Some ts \<Rightarrow> ts)
      | _ \<Rightarrow> [])"

definition colons :: "string list \<Rightarrow> string" where
  "colons = join_with '':''"

definition insert_task :: "string \<Rightarrow> string \<Rightarrow> string \<Rightarrow> task_definition \<Rightarrow> (string \<times> task_row) list \<Rightarrow> (string \<times> task_row) list" where
  "insert_task world_address namespace achievement_id task ts =
     al_upsert (colons [world_address, namespace, achievement_id, td_id task])
       (\<lambda>r. r\<lparr>tr_description := td_description task, tr_total := sint (td_total task)\<rparr>)
       \<lparr>tr_achievement_id = achievement_id, tr_task_id = td_id task, tr_world_address = world_address, tr_namespace = namespace,
        tr_description = td_description task, tr_total = sint (td_total task), tr_completions = (0, [])\<rparr> ts"

definition upsert_achievement :: "string \<Rightarrow> achievement_row \<Rightarrow> (string \<times> achievement_row) list \<Rightarrow> (string \<times> achievement_row) list" where
  "upsert_achievement i r = al_upsert i (\<lambda>old. r\<lparr>an_world_address := an_world_address old, an_namespace := an_namespace old,
     an_entity_id := an_entity_id old, an_completions := an_completions old\<rparr>) r"

text \<open>
  Missing fields have defaults; only a missing \<open>group\<close>, or one that cannot be read, is bound as \<open>NULL\<close>, which the column does not allow.
\<close>

definition register_achievement :: "achievement_env \<Rightarrow> string \<Rightarrow> string \<Rightarrow> ty \<Rightarrow> achievement_tables \<Rightarrow> (achievement_error + string) \<times> achievement_tables" where
  "register_achievement E world_address namespace entity T =
     (let f = extract_field E entity;
          row =
            bind_ok (bind_ok (f ''id'') (required ''id'')) (\<lambda>entity_id.
            bind_ok (f ''hidden'') (\<lambda>hidden. bind_ok (f ''index'') (\<lambda>index_num. bind_ok (f ''points'') (\<lambda>points.
            bind_ok (f ''start'') (\<lambda>start. bind_ok (f ''end'') (\<lambda>end'.
            bind_ok (f ''icon'') (\<lambda>icon. bind_ok (f ''title'') (\<lambda>title. bind_ok (f ''description'') (\<lambda>description.
            bind_ok (f ''tasks'') (\<lambda>tasks. bind_ok (f ''data'') (\<lambda>data.
            bind_ok (case f ''group'' of Inr (Some g) \<Rightarrow> Inr g | _ \<Rightarrow> Inl (ConstraintFailed ''achievements.group_name'')) (\<lambda>group_name.
            Inr \<lparr>an_world_address = world_address, an_namespace = namespace, an_entity_id = entity_id, an_hidden = number_or 0 hidden,
                 an_index_num = number_or 0 index_num, an_points = number_or 0 points, an_start = text_or [] start, an_end = text_or [] end',
                 an_group_name = group_name, an_icon = text_or [] icon, an_title = text_or [] title,
                 an_description = text_or [] description, an_tasks = text_or ''[]'' tasks, an_data = data, an_completions = (0, [])\<rparr>)))))))))))) in
      case row of
        Inl e \<Rightarrow> (Inl e, T)
      | Inr r \<Rightarrow>
          (let achievement_id = colons [world_address, namespace, an_entity_id r] in
           (Inr achievement_id,
            T\<lparr>at_achievements := upsert_achievement achievement_id r (at_achievements T),
              at_tasks := fold (insert_task world_address namespace achievement_id) (tasks_of_text (ae_json E) (an_tasks r)) (at_tasks T)\<rparr>)))"

section \<open>Status\<close>

record achievement_status =
  as_completed :: bool
  as_progress :: "nat \<times> nat"
  as_points :: int

definition completed_tasks :: "string \<Rightarrow> string \<Rightarrow> achievement_tables \<Rightarrow> nat" where
  "completed_tasks achievement_id player_id T =
     length (filter (\<lambda>(p, t). tr_task_id t = pr_task_id p \<and> tr_world_address t = pr_world_address p \<and> tr_namespace t = pr_namespace p \<and>
                              tr_achievement_id t = achievement_id \<and> pr_player_id p = player_id \<and> pr_completed p)
       (List.product (map snd (at_progressions T)) (map snd (at_tasks T))))"

definition calculate_achievement_status :: "achievement_env \<Rightarrow> string \<Rightarrow> string \<Rightarrow> achievement_tables \<Rightarrow> achievement_status" where
  "calculate_achievement_status E achievement_id player_id T =
     (let (tasks_json, points) = (case map_of (at_achievements T) achievement_id of None \<Rightarrow> (''[]'', 0) | Some r \<Rightarrow> (an_tasks r, an_points r));
          total_tasks = length (tasks_of_text (ae_json E) tasks_json) in
      if total_tasks = 0 then \<lparr>as_completed = False, as_progress = (0, 1), as_points = 0\<rparr>
      else
        (let n = completed_tasks achievement_id player_id T; completed = (n = total_tasks) in
         \<lparr>as_completed = completed, as_progress = (n, total_tasks), as_points = (if completed then points else 0)\<rparr>))"

definition get_player_achievements :: "achievement_env \<Rightarrow> string \<Rightarrow> string \<Rightarrow> string \<Rightarrow> achievement_tables \<Rightarrow> (string \<times> achievement_status) list" where
  "get_player_achievements E world_address namespace player_id T =
     map (\<lambda>(i, r). (i, calculate_achievement_status E i player_id T))
       (sort_key (\<lambda>(i, r). an_index_num r) (filter (\<lambda>(i, r). an_world_address r = world_address \<and> an_namespace r = namespace) (at_achievements T)))"

definition wrap_i32 :: "int \<Rightarrow> int" where
  "wrap_i32 x = (x + 2 ^ 31) mod 2 ^ 32 - 2 ^ 31"

definition sum_i32 :: "int list \<Rightarrow> int" where
  "sum_i32 xs = fold (\<lambda>x acc. wrap_i32 (acc + x)) xs 0"

definition get_player_total_points :: "achievement_env \<Rightarrow> string \<Rightarrow> string \<Rightarrow> string \<Rightarrow> achievement_tables \<Rightarrow> int" where
  "get_player_total_points E world_address namespace player_id T = sum_i32 (map (as_points \<circ> snd) (get_player_achievements E world_address namespace player_id T))"

fun max_text :: "string option list \<Rightarrow> string option" where
  "max_text [] = None"
| "max_text (x # xs) =
     (case (x, max_text xs) of
        (None, m) \<Rightarrow> m
      | (Some s, None) \<Rightarrow> Some s
      | (Some s, Some t) \<Rightarrow> Some (if string_less s t then t else s))"

definition update_player_achievement_stats :: "achievement_env \<Rightarrow> string \<Rightarrow> string \<Rightarrow> string \<Rightarrow> achievement_tables \<Rightarrow> achievement_tables" where
  "update_player_achievement_stats E world_address namespace player_id T =
     (let total_achievements = int (length (filter (\<lambda>(i, r). an_world_address r = world_address \<and> an_namespace r = namespace) (at_achievements T)));
          player_achievements = get_player_achievements E world_address namespace player_id T;
          completed_achievements = int (length (filter (as_completed \<circ> snd) player_achievements));
          last_achievement_at = max_text (map (pr_completed_at \<circ> snd) (filter (\<lambda>(i, p). pr_world_address p = world_address \<and> pr_namespace p = namespace \<and>
            pr_player_id p = player_id \<and> pr_completed p) (at_progressions T))) in
      T\<lparr>at_players := al_insert (colons [world_address, namespace, player_id])
          \<lparr>pl_world_address = world_address, pl_namespace = namespace, pl_player_id = player_id,
           pl_total_points = get_player_total_points E world_address namespace player_id T, pl_completed_achievements = completed_achievements,
           pl_total_achievements = total_achievements,
           pl_completion_percentage = (if total_achievements > 0 then ae_rate E completed_achievements total_achievements else ''0''),
           pl_last_achievement_at = last_achievement_at\<rparr> (at_players T)\<rparr>)"

section \<open>Statistics of tasks and achievements\<close>

definition in_namespace :: "string \<Rightarrow> string \<Rightarrow> progression_row \<Rightarrow> bool" where
  "in_namespace world_address namespace p = (pr_world_address p = world_address \<and> pr_namespace p = namespace)"

definition players_where :: "(progression_row \<Rightarrow> bool) \<Rightarrow> achievement_tables \<Rightarrow> string list" where
  "players_where P T = remdups (map pr_player_id (filter P (map snd (at_progressions T))))"

definition rate_of :: "achievement_env \<Rightarrow> nat \<Rightarrow> nat \<Rightarrow> int \<times> string" where
  "rate_of E total_completions total_players =
     (int total_completions, if total_players > 0 then ae_rate E (int total_completions) (int total_players) else ''0'')"

definition update_task_completion_stats :: "achievement_env \<Rightarrow> string \<Rightarrow> string \<Rightarrow> string \<Rightarrow> achievement_tables \<Rightarrow> achievement_tables" where
  "update_task_completion_stats E world_address namespace task_id T =
     (let total_completions = length (players_where (\<lambda>p. in_namespace world_address namespace p \<and> pr_task_id p = task_id \<and> pr_completed p) T);
          total_players = length (players_where (in_namespace world_address namespace) T) in
      T\<lparr>at_tasks := map (\<lambda>(i, t). (i, if tr_world_address t = world_address \<and> tr_namespace t = namespace \<and> tr_task_id t = task_id
                                       then t\<lparr>tr_completions := rate_of E total_completions total_players\<rparr> else t)) (at_tasks T)\<rparr>)"

definition update_achievement_completion_stats :: "achievement_env \<Rightarrow> string \<Rightarrow> achievement_tables \<Rightarrow> achievement_tables" where
  "update_achievement_completion_stats E achievement_id T =
     (let parts = split_on (CHR '':'') achievement_id;
          task_ids = map tr_task_id (filter (\<lambda>t. tr_achievement_id t = achievement_id) (map snd (at_tasks T))) in
      if length parts < 3 \<or> task_ids = [] then T
      else
        (let done_by = (\<lambda>player. remdups (map pr_task_id (filter (\<lambda>p. in_namespace (parts ! 0) (parts ! 1) p \<and> pr_task_id p \<in> set task_ids \<and> pr_completed p \<and>
               pr_player_id p = player) (map snd (at_progressions T)))));
             candidates = players_where (\<lambda>p. in_namespace (parts ! 0) (parts ! 1) p \<and> pr_task_id p \<in> set task_ids \<and> pr_completed p) T;
             total_completions = length (filter (\<lambda>player. length (done_by player) = length task_ids) candidates);
             total_players = length (players_where (in_namespace (parts ! 0) (parts ! 1)) T) in
         T\<lparr>at_achievements := al_modify achievement_id (\<lambda>r. r\<lparr>an_completions := rate_of E total_completions total_players\<rparr>) (at_achievements T)\<rparr>))"

section \<open>Progress\<close>

definition upsert_progression :: "achievement_env \<Rightarrow> string \<Rightarrow> string \<Rightarrow> string \<Rightarrow> string \<Rightarrow> int \<Rightarrow> int \<Rightarrow> achievement_tables \<Rightarrow> achievement_tables" where
  "upsert_progression E world_address namespace task_id player_id n task_target T =
     T\<lparr>at_progressions := al_upsert (colons [world_address, namespace, task_id, player_id])
         (\<lambda>p. p\<lparr>pr_count := pr_count p + n, pr_completed := (pr_count p + n \<ge> task_target),
                pr_completed_at := (if pr_count p + n \<ge> task_target \<and> \<not> pr_completed p then Some (ae_now E) else pr_completed_at p)\<rparr>)
         \<lparr>pr_task_id = task_id, pr_world_address = world_address, pr_namespace = namespace, pr_player_id = player_id, pr_count = n,
          pr_completed = (n \<ge> task_target), pr_completed_at = (if n \<ge> task_target then Some (ae_now E) else None)\<rparr>
         (at_progressions T)\<rparr>"

definition find_task :: "string \<Rightarrow> string \<Rightarrow> string \<Rightarrow> achievement_tables \<Rightarrow> task_row option" where
  "find_task world_address namespace task_id T =
     List.find (\<lambda>t. tr_world_address t = world_address \<and> tr_namespace t = namespace \<and> tr_task_id t = task_id) (map snd (at_tasks T))"

text \<open>What follows a change of the progress of a player on a task.\<close>

definition refresh_statistics :: "achievement_env \<Rightarrow> string \<Rightarrow> string \<Rightarrow> string \<Rightarrow> string \<Rightarrow> string \<Rightarrow> bool \<Rightarrow> achievement_tables \<Rightarrow> achievement_tables" where
  "refresh_statistics E world_address namespace task_id achievement_id player_id completed T =
     (let overall_status = calculate_achievement_status E achievement_id player_id T;
          T1 = (if completed then update_task_completion_stats E world_address namespace task_id T else T);
          T2 = (if as_completed overall_status then update_achievement_completion_stats E achievement_id T1 else T1) in
      update_player_achievement_stats E world_address namespace player_id T2)"

definition progression_fields :: "achievement_env \<Rightarrow> ty \<Rightarrow> achievement_error + string \<times> string \<times> int" where
  "progression_fields E entity =
     bind_ok (bind_ok (extract_field E entity ''player_id'') (required ''player_id'')) (\<lambda>player_id.
     bind_ok (bind_ok (extract_field E entity ''task_id'') (required ''task_id'')) (\<lambda>task_id.
     bind_ok (extract_field E entity ''count'') (\<lambda>cnt. Inr (player_id, task_id, number_or 1 cnt))))"

definition update_achievement_progression ::
  "achievement_env \<Rightarrow> string \<Rightarrow> string \<Rightarrow> ty \<Rightarrow> achievement_tables \<Rightarrow> (achievement_error + achievement_progression option) \<times> achievement_tables" where
  "update_achievement_progression E world_address namespace entity T =
     (case progression_fields E entity of
        Inl e \<Rightarrow> (Inl e, T)
      | Inr (player_id, task_id, n) \<Rightarrow>
          (case find_task world_address namespace task_id T of
             None \<Rightarrow> (Inr None, T)
           | Some t \<Rightarrow>
               (let progression_id = colons [world_address, namespace, task_id, player_id];
                    T1 = upsert_progression E world_address namespace task_id player_id n (tr_total t) T in
                case map_of (at_progressions T1) progression_id of
                  None \<Rightarrow> (Inr None, T1)
                | Some p \<Rightarrow>
                    (let T2 = refresh_statistics E world_address namespace task_id (tr_achievement_id t) player_id (pr_completed p) T1 in
                     case (ae_from_hex E world_address, ae_from_hex E player_id) of
                       (Some w, Some pl) \<Rightarrow>
                         (Inr (Some \<lparr>ap_id = progression_id, ap_achievement_id = tr_achievement_id t, ap_task_id = task_id, ap_world_address = w, ap_namespace = namespace,
                            ap_player_id = pl, ap_count = word_of_int (pr_count p), ap_completed = pr_completed p, ap_completed_at = map_option (ae_seconds E) (pr_completed_at p)\<rparr>), T2)
                     | _ \<Rightarrow> (Inl FromHexFailed, T2)))))"

end
