(* ===== verification/AchievementSpec.thy ===== *)
theory AchievementSpec
  imports Achievements AggregatorSpec
begin

text \<open>
  What achievements promise: the progress of a player on a task is the sum of the counts, a task is completed when the target is reached, and an achievement when all
  of its tasks are.
\<close>

section \<open>Progress\<close>

text \<open>A report of progress: world, namespace, entity and the time.\<close>

type_synonym report = "string \<times> string \<times> ty \<times> string"

fun run_reports :: "achievement_env \<Rightarrow> report list \<Rightarrow> achievement_tables \<Rightarrow> achievement_tables" where
  "run_reports E [] T = T"
| "run_reports E ((w, ns, entity, now) # rs) T = run_reports E rs (snd (update_achievement_progression (E\<lparr>ae_now := now\<rparr>) w ns entity T))"

lemma run_reports_snoc:
  "run_reports E (rs @ [(w, ns, entity, now)]) T = snd (update_achievement_progression (E\<lparr>ae_now := now\<rparr>) w ns entity (run_reports E rs T))"
  by (induction E rs T rule: run_reports.induct) simp_all

definition report_of :: "achievement_env \<Rightarrow> string \<Rightarrow> string \<Rightarrow> string \<Rightarrow> string \<Rightarrow> report \<Rightarrow> int option" where
  "report_of E world_address namespace task_id player_id r =
     (case r of (w, ns, entity, now) \<Rightarrow>
        (case progression_fields E entity of
           Inl _ \<Rightarrow> None
         | Inr (p, t, n) \<Rightarrow> if (w, ns, t, p) = (world_address, namespace, task_id, player_id) then Some n else None))"

definition counts_of :: "achievement_env \<Rightarrow> string \<Rightarrow> string \<Rightarrow> string \<Rightarrow> string \<Rightarrow> report list \<Rightarrow> int list" where
  "counts_of E world_address namespace task_id player_id rs = List.map_filter (report_of E world_address namespace task_id player_id) rs"

definition plain_report :: "achievement_env \<Rightarrow> report \<Rightarrow> bool" where
  "plain_report E r =
     (case r of (w, ns, entity, now) \<Rightarrow>
        (case progression_fields E entity of Inl _ \<Rightarrow> True | Inr (p, t, n) \<Rightarrow> list_all (\<lambda>s. CHR '':'' \<notin> set s) [w, ns, t, p]))"

lemma string_now [simp]: "ty_to_string (E\<lparr>ae_now := now\<rparr>) t = ty_to_string E t"
  by (simp add: ty_to_string_def split: ty.split sum.split)

lemma field_now [simp]: "extract_field (E\<lparr>ae_now := now\<rparr>) t f = extract_field E t f"
  by (simp add: extract_field_def split: ty.split option.split)

lemma fields_now [simp]: "progression_fields (E\<lparr>ae_now := now\<rparr>) entity = progression_fields E entity"
  by (simp add: progression_fields_def)

lemma colons_inj: "\<forall>s\<in>set xs. CHR '':'' \<notin> set s \<Longrightarrow> \<forall>s\<in>set ys. CHR '':'' \<notin> set s \<Longrightarrow> xs \<noteq> [] \<Longrightarrow> ys \<noteq> [] \<Longrightarrow> colons xs = colons ys \<longleftrightarrow> xs = ys"
  unfolding colons_def using split_join[of xs "CHR '':''"] split_join[of ys "CHR '':''"] by metis

lemma player_stats_keep [simp]:
  "at_progressions (update_player_achievement_stats E w ns p T) = at_progressions T" "at_tasks (update_player_achievement_stats E w ns p T) = at_tasks T"
  "at_achievements (update_player_achievement_stats E w ns p T) = at_achievements T"
  by (simp_all add: update_player_achievement_stats_def Let_def)

lemma achievement_stats_keep [simp]:
  "at_progressions (update_achievement_completion_stats E a T) = at_progressions T" "at_tasks (update_achievement_completion_stats E a T) = at_tasks T"
  by (simp_all add: update_achievement_completion_stats_def Let_def)

lemma find_task_stats:
  "map_option tr_total (find_task w' ns' t' (update_task_completion_stats E w ns t T)) = map_option tr_total (find_task w' ns' t' T)"
proof -
  have "map_option tr_total (List.find P (map (snd \<circ> (\<lambda>(i, x). (i, if Q x then x\<lparr>tr_completions := v\<rparr> else x))) ts)) = map_option tr_total (List.find P (map snd ts))"
    if P: "\<And>x. P (x\<lparr>tr_completions := v\<rparr>) = P x" for P Q v and ts :: "(string \<times> task_row) list"
  proof (induction ts)
    case (Cons y ts)
    then show ?case by (cases y) (simp add: P)
  qed simp
  then show ?thesis unfolding find_task_def update_task_completion_stats_def Let_def by simp
qed

lemma task_stats_keep [simp]: "at_progressions (update_task_completion_stats E w ns t T) = at_progressions T"
  by (simp add: update_task_completion_stats_def Let_def)

lemma statistics_keep [simp]:
  "at_progressions (refresh_statistics E w ns t a p c T) = at_progressions T"
  "map_option tr_total (find_task w' ns' t' (refresh_statistics E w ns t a p c T)) = map_option tr_total (find_task w' ns' t' T)"
proof -
  show "at_progressions (refresh_statistics E w ns t a p c T) = at_progressions T" by (simp add: refresh_statistics_def Let_def)
  have "find_task w' ns' t' (update_player_achievement_stats E w ns p S) = find_task w' ns' t' S"
    "find_task w' ns' t' (update_achievement_completion_stats E a S) = find_task w' ns' t' S" for S by (simp_all add: find_task_def)
  then show "map_option tr_total (find_task w' ns' t' (refresh_statistics E w ns t a p c T)) = map_option tr_total (find_task w' ns' t' T)"
    by (simp add: refresh_statistics_def Let_def find_task_stats)
qed

lemma progression_effect:
  assumes "progression_fields E entity = Inr (p, t, n)"
  shows "at_progressions (snd (update_achievement_progression (E\<lparr>ae_now := now\<rparr>) w ns entity T)) =
      (case find_task w ns t T of None \<Rightarrow> at_progressions T | Some k \<Rightarrow> at_progressions (upsert_progression (E\<lparr>ae_now := now\<rparr>) w ns t p n (tr_total k) T))"
    and "map_option tr_total (find_task w' ns' t' (snd (update_achievement_progression (E\<lparr>ae_now := now\<rparr>) w ns entity T))) = map_option tr_total (find_task w' ns' t' T)"
proof -
  have same: "find_task w' ns' t' (upsert_progression E' w ns t p n k T) = find_task w' ns' t' T" for E' k by (simp add: find_task_def upsert_progression_def)
  have found: "\<exists>r. map_of (at_progressions (upsert_progression (E\<lparr>ae_now := now\<rparr>) w ns t p n k T)) (colons [w, ns, t, p]) = Some r" for k
    by (simp add: upsert_progression_def)
  have "\<exists>a c. snd (update_achievement_progression (E\<lparr>ae_now := now\<rparr>) w ns entity T) =
      refresh_statistics (E\<lparr>ae_now := now\<rparr>) w ns t a p c (upsert_progression (E\<lparr>ae_now := now\<rparr>) w ns t p n (tr_total k) T)"
    if k: "find_task w ns t T = Some k" for k
  proof -
    obtain r where "map_of (at_progressions (upsert_progression (E\<lparr>ae_now := now\<rparr>) w ns t p n (tr_total k) T)) (colons [w, ns, t, p]) = Some r" using found by blast
    then show ?thesis using assms k by (auto simp: update_achievement_progression_def Let_def split: option.split)
  qed
  moreover have "snd (update_achievement_progression (E\<lparr>ae_now := now\<rparr>) w ns entity T) = T" if "find_task w ns t T = None"
    using assms that by (simp add: update_achievement_progression_def)
  ultimately show "at_progressions (snd (update_achievement_progression (E\<lparr>ae_now := now\<rparr>) w ns entity T)) =
      (case find_task w ns t T of None \<Rightarrow> at_progressions T | Some k \<Rightarrow> at_progressions (upsert_progression (E\<lparr>ae_now := now\<rparr>) w ns t p n (tr_total k) T))"
    "map_option tr_total (find_task w' ns' t' (snd (update_achievement_progression (E\<lparr>ae_now := now\<rparr>) w ns entity T))) = map_option tr_total (find_task w' ns' t' T)"
    by (cases "find_task w ns t T"; metis statistics_keep same option.simps(4,5))+
qed

lemma progression_failed: "progression_fields E entity = Inl e \<Longrightarrow> snd (update_achievement_progression (E\<lparr>ae_now := now\<rparr>) w ns entity T) = T"
  by (simp add: update_achievement_progression_def)

definition progress_ok :: "string \<times> string \<times> string \<times> string \<Rightarrow> int \<Rightarrow> int list \<Rightarrow> progression_row option \<Rightarrow> bool" where
  "progress_ok f target cs x \<longleftrightarrow> (case x of None \<Rightarrow> cs = [] | Some p \<Rightarrow> cs \<noteq> [] \<and>
     (pr_world_address p, pr_namespace p, pr_task_id p, pr_player_id p) = f \<and> pr_count p = sum_list cs \<and> (pr_completed p \<longleftrightarrow> sum_list cs \<ge> target))"

lemma reports_counted:
  assumes "map_of (at_progressions T) (colons [w, ns, t, p]) = None" and "map_option tr_total (find_task w ns t T) = Some target"
    and "list_all (plain_report E) rs" and "list_all (\<lambda>s. CHR '':'' \<notin> set s) [w, ns, t, p]"
  shows "progress_ok (w, ns, t, p) target (counts_of E w ns t p rs) (map_of (at_progressions (run_reports E rs T)) (colons [w, ns, t, p])) \<and>
    map_option tr_total (find_task w ns t (run_reports E rs T)) = Some target"
  using assms(3)
proof (induction rs rule: rev_induct)
  case Nil
  then show ?case using assms(1,2) by (simp add: progress_ok_def counts_of_def map_filter_simps)
next
  case (snoc r rs)
  obtain w' ns' entity now where r: "r = (w', ns', entity, now)" by (cases r)
  let ?T = "run_reports E rs T"
  have IH: "progress_ok (w, ns, t, p) target (counts_of E w ns t p rs) (map_of (at_progressions ?T) (colons [w, ns, t, p]))" "map_option tr_total (find_task w ns t ?T) = Some target"
    using snoc by simp_all
  have counts: "counts_of E w ns t p (rs @ [r]) = counts_of E w ns t p rs @ (case report_of E w ns t p r of None \<Rightarrow> [] | Some n \<Rightarrow> [n])"
    by (simp add: counts_of_def map_filter_def split: option.split)
  show ?case
  proof (cases "progression_fields E entity")
    case (Inl e)
    then show ?thesis using IH counts by (simp add: r run_reports_snoc progression_failed report_of_def)
  next
    case (Inr f)
    obtain p' t' n where f: "f = (p', t', n)" by (cases f)
    have plain: "list_all (\<lambda>s. CHR '':'' \<notin> set s) [w', ns', t', p']" using snoc.prems Inr f by (simp add: plain_report_def r)
    have key: "colons [w', ns', t', p'] = colons [w, ns, t, p] \<longleftrightarrow> (w', ns', t', p') = (w, ns, t, p)"
      using colons_inj[of "[w', ns', t', p']" "[w, ns, t, p]"] plain assms(4) by simp
    show ?thesis
    proof (cases "(w', ns', t', p') = (w, ns, t, p)")
      case True
      obtain k where k: "find_task w ns t ?T = Some k" "tr_total k = target" using IH(2) by auto
      have "report_of E w ns t p r = Some n" using True Inr f by (simp add: report_of_def r)
      then show ?thesis using IH counts k True
        by (auto simp: r run_reports_snoc progression_effect[OF Inr[unfolded f]] upsert_progression_def progress_ok_def simp del: map_option_eq_Some split: option.splits)
    next
      case False
      have "report_of E w ns t p r = None" using False Inr f by (auto simp: report_of_def r)
      then show ?thesis using IH counts False key
        by (auto simp: r run_reports_snoc progression_effect[OF Inr[unfolded f]] upsert_progression_def simp del: map_option_eq_Some split: option.split)
    qed
  qed
qed

section \<open>Achievements\<close>

lemma upsert_fresh: "map_of m k = None \<Longrightarrow> al_upsert k f d m = m @ [(k, d)]"
  by (induction m) (auto split: if_splits)

definition new_task :: "string \<Rightarrow> string \<Rightarrow> string \<Rightarrow> task_definition \<Rightarrow> string \<times> task_row" where
  "new_task w ns a td = (colons [w, ns, a, td_id td],
     \<lparr>tr_achievement_id = a, tr_task_id = td_id td, tr_world_address = w, tr_namespace = ns, tr_description = td_description td,
      tr_total = sint (td_total td), tr_completions = (0, [])\<rparr>)"

lemma insert_tasks:
  "distinct (map td_id tds) \<Longrightarrow> \<forall>td\<in>set tds. map_of ts (colons [w, ns, a, td_id td]) = None \<Longrightarrow>
   fold (insert_task w ns a) tds ts = ts @ map (new_task w ns a) tds"
proof (induction tds arbitrary: ts)
  case (Cons td tds)
  have key: "colons [w, ns, a, x] = colons [w, ns, a, y] \<longleftrightarrow> x = y" for x y by (simp add: colons_def)
  have one: "insert_task w ns a td ts = ts @ [new_task w ns a td]" using Cons.prems by (simp add: insert_task_def upsert_fresh new_task_def)
  have "map_of (ts @ [new_task w ns a td]) (colons [w, ns, a, td_id x]) = None" if "x \<in> set tds" for x
  proof -
    have "td_id x \<noteq> td_id td" using Cons.prems(1) imageI[OF that, of td_id] by auto
    then show ?thesis using Cons.prems(2) that by (simp add: new_task_def key map_add_def)
  qed
  then show ?case using Cons by (simp add: one)
qed simp

definition strip :: "task_row \<Rightarrow> task_row" where
  "strip t = t\<lparr>tr_completions := (0, [])\<rparr>"

lemma strip_simps [simp]:
  "tr_achievement_id (strip t) = tr_achievement_id t" "tr_task_id (strip t) = tr_task_id t" "tr_world_address (strip t) = tr_world_address t"
  "tr_namespace (strip t) = tr_namespace t" "strip (t\<lparr>tr_completions := c\<rparr>) = strip t"
  by (simp_all add: strip_def)

lemma task_stats_strip [simp]: "map (strip \<circ> snd) (at_tasks (update_task_completion_stats E w ns t T)) = map (strip \<circ> snd) (at_tasks T)"
  by (simp add: update_task_completion_stats_def Let_def case_prod_unfold)

lemma refresh_keeps [simp]:
  "map (strip \<circ> snd) (at_tasks (refresh_statistics E w ns t a p c T)) = map (strip \<circ> snd) (at_tasks T)"
  "map_option an_tasks (map_of (at_achievements (refresh_statistics E w ns t a p c T)) i) = map_option an_tasks (map_of (at_achievements T) i)"
proof -
  have "map_option an_tasks (map_of (at_achievements (update_achievement_completion_stats E a S)) i) = map_option an_tasks (map_of (at_achievements S) i)" for S
    by (auto simp: update_achievement_completion_stats_def Let_def option.map_comp comp_def)
  moreover have "at_achievements (update_task_completion_stats E w ns t S) = at_achievements S" for S by (simp add: update_task_completion_stats_def Let_def)
  ultimately show "map (strip \<circ> snd) (at_tasks (refresh_statistics E w ns t a p c T)) = map (strip \<circ> snd) (at_tasks T)"
    "map_option an_tasks (map_of (at_achievements (refresh_statistics E w ns t a p c T)) i) = map_option an_tasks (map_of (at_achievements T) i)"
    by (simp_all add: refresh_statistics_def Let_def)
qed

definition keyed :: "(string \<times> progression_row) list \<Rightarrow> bool" where
  "keyed ps \<longleftrightarrow> al_ok ps \<and> (\<forall>(i, p)\<in>set ps. i = colons [pr_world_address p, pr_namespace p, pr_task_id p, pr_player_id p])"

lemma in_set_upsert: "(i, p) \<in> set (al_upsert k f d m) \<Longrightarrow> (i, p) \<in> set m \<or> (i = k \<and> (p = d \<or> (\<exists>q. (k, q) \<in> set m \<and> p = f q)))"
  by (induction m) (auto split: if_splits)

lemma keyed_upsert: "keyed (at_progressions T) \<Longrightarrow> keyed (at_progressions (upsert_progression E w ns t p n k T))"
  unfolding keyed_def upsert_progression_def by (auto dest!: in_set_upsert)

definition reports_keep :: "string \<Rightarrow> achievement_tables \<Rightarrow> achievement_tables \<Rightarrow> bool" where
  "reports_keep a T T' \<longleftrightarrow> map (strip \<circ> snd) (at_tasks T') = map (strip \<circ> snd) (at_tasks T) \<and>
     map_option an_tasks (map_of (at_achievements T') a) = map_option an_tasks (map_of (at_achievements T) a) \<and>
     (keyed (at_progressions T) \<longrightarrow> keyed (at_progressions T'))"

lemma report_keeps: "reports_keep a T (snd (update_achievement_progression E w ns entity T))"
proof -
  have "reports_keep a T (upsert_progression E w ns t p n k T)" for t p n k
    using keyed_upsert[of T E w ns t p n k] by (simp add: reports_keep_def) (simp add: upsert_progression_def)
  then have "reports_keep a T (refresh_statistics E w ns t b p c (upsert_progression E w ns t p n k T))" for t p n k b c
    by (simp add: reports_keep_def)
  moreover have "reports_keep a T T" by (simp add: reports_keep_def)
  ultimately show ?thesis
    using \<open>\<And>t p n k. reports_keep a T (upsert_progression E w ns t p n k T)\<close>
    by (auto simp: update_achievement_progression_def Let_def split: sum.split option.split)
qed

lemma reports_kept: "reports_keep a T (run_reports E rs T)"
proof (induction E rs T rule: run_reports.induct)
  case (2 E w ns entity now rs T)
  then show ?case using report_keeps[of a T "E\<lparr>ae_now := now\<rparr>" w ns entity] by (simp add: reports_keep_def)
qed (simp add: reports_keep_def)

text \<open>The join counts the tasks with a completed progression.\<close>

lemma length_filter_product: "length (filter P (List.product xs ys)) = sum_list (map (\<lambda>y. length (filter (\<lambda>x. P (x, y)) xs)) ys)"
proof (induction xs)
  case (Cons x xs)
  have "length (filter P (map (Pair x) ys)) = sum_list (map (\<lambda>y. if P (x, y) then 1 else 0) ys)" by (induction ys) simp_all
  moreover have "sum_list (map (\<lambda>y. length (filter (\<lambda>z. P (z, y)) (x # xs))) ys) =
      sum_list (map (\<lambda>y. (if P (x, y) then 1 else 0) + length (filter (\<lambda>z. P (z, y)) xs)) ys)"
    by (rule arg_cong[of _ _ sum_list], rule map_cong) simp_all
  ultimately show ?case using Cons by (simp only: sum_list_addf List.product.simps filter_append length_append)
qed simp

definition has_done :: "string \<Rightarrow> string \<Rightarrow> string \<Rightarrow> string \<Rightarrow> achievement_tables \<Rightarrow> bool" where
  "has_done w ns t p T \<longleftrightarrow>
     (\<exists>r\<in>snd ` set (at_progressions T). pr_world_address r = w \<and> pr_namespace r = ns \<and> pr_task_id r = t \<and> pr_player_id r = p \<and> pr_completed r)"

lemma at_most_one:
  assumes "keyed ps"
  shows "length (filter (\<lambda>r. t = pr_task_id r \<and> w = pr_world_address r \<and> ns = pr_namespace r \<and> pr_player_id r = p \<and> pr_completed r) (map snd ps)) =
    of_bool (\<exists>r\<in>snd ` set ps. pr_world_address r = w \<and> pr_namespace r = ns \<and> pr_task_id r = t \<and> pr_player_id r = p \<and> pr_completed r)"
  using assms
proof (induction ps)
  case (Cons x ps)
  obtain i r where x: "x = (i, r)" by (cases x)
  have k: "keyed ps" "i \<notin> fst ` set ps" using Cons.prems by (auto simp: keyed_def al_ok_def x)
  let ?P = "\<lambda>r. t = pr_task_id r \<and> w = pr_world_address r \<and> ns = pr_namespace r \<and> pr_player_id r = p \<and> pr_completed r"
  let ?Q = "\<lambda>r. pr_world_address r = w \<and> pr_namespace r = ns \<and> pr_task_id r = t \<and> pr_player_id r = p \<and> pr_completed r"
  have PQ: "?P q \<longleftrightarrow> ?Q q" for q by auto
  show ?case
  proof (cases "?Q r")
    case True
    have "\<not> ?Q q" if "q \<in> snd ` set ps" for q using that True k Cons.prems by (force simp: keyed_def x)
    then have "filter ?P (map snd ps) = []" by (auto simp: filter_empty_conv)
    then show ?thesis using True by (simp add: x)
  next
    case False
    then show ?thesis using Cons.IH[OF k(1)] PQ[of r] by (auto simp: x)
  qed
qed simp

lemma all_filtered: "length (filter P xs) = length xs \<longleftrightarrow> (\<forall>x\<in>set xs. P x)"
proof -
  have "length (filter P xs) = length xs \<longleftrightarrow> length (filter (\<lambda>x. \<not> P x) xs) = 0" using sum_length_filter_compl[of P xs] by linarith
  then show ?thesis by (simp add: filter_empty_conv)
qed

lemma has_done_iff:
  assumes "keyed (at_progressions T)"
  shows "has_done w ns t p T \<longleftrightarrow> (\<exists>x. map_of (at_progressions T) (colons [w, ns, t, p]) = Some x \<and>
    (pr_world_address x, pr_namespace x, pr_task_id x, pr_player_id x) = (w, ns, t, p) \<and> pr_completed x)"
proof
  assume "has_done w ns t p T"
  then obtain i x where x: "(i, x) \<in> set (at_progressions T)" "(pr_world_address x, pr_namespace x, pr_task_id x, pr_player_id x) = (w, ns, t, p)" "pr_completed x"
    unfolding has_done_def by auto
  then have "i = colons [w, ns, t, p]" using assms by (auto simp: keyed_def)
  then have "map_of (at_progressions T) (colons [w, ns, t, p]) = Some x" using x(1) al_ok_in_set[of "at_progressions T" i x] assms by (simp add: keyed_def)
  then show "\<exists>x. map_of (at_progressions T) (colons [w, ns, t, p]) = Some x \<and>
    (pr_world_address x, pr_namespace x, pr_task_id x, pr_player_id x) = (w, ns, t, p) \<and> pr_completed x" using x(2,3) by blast
next
  assume "\<exists>x. map_of (at_progressions T) (colons [w, ns, t, p]) = Some x \<and>
    (pr_world_address x, pr_namespace x, pr_task_id x, pr_player_id x) = (w, ns, t, p) \<and> pr_completed x"
  then obtain x where "map_of (at_progressions T) (colons [w, ns, t, p]) = Some x" "(pr_world_address x, pr_namespace x, pr_task_id x, pr_player_id x) = (w, ns, t, p)"
    "pr_completed x" by blast
  moreover from this have "x \<in> snd ` set (at_progressions T)" using imageI[OF map_of_SomeD, of "at_progressions T" _ x snd] by simp
  ultimately show "has_done w ns t p T" unfolding has_done_def by blast
qed

lemma completed_iff_all:
  assumes "keyed (at_progressions T)" and own: "filter (\<lambda>t. tr_achievement_id t = a) (map (strip \<circ> snd) (at_tasks T)) = map (snd \<circ> new_task w ns a) tds"
  shows "completed_tasks a p T = length tds \<longleftrightarrow> (\<forall>td\<in>set tds. has_done w ns (td_id td) p T)"
proof -
  let ?d = "\<lambda>t. of_bool (tr_achievement_id t = a \<and> has_done (tr_world_address t) (tr_namespace t) (tr_task_id t) p T) :: nat"
  have one: "length (filter (\<lambda>r. tr_task_id t = pr_task_id r \<and> tr_world_address t = pr_world_address r \<and> tr_namespace t = pr_namespace r \<and>
      tr_achievement_id t = a \<and> pr_player_id r = p \<and> pr_completed r) (map snd (at_progressions T))) = ?d t" for t
    using at_most_one[OF assms(1), of "tr_task_id t" "tr_world_address t" "tr_namespace t" p]
    by (cases "tr_achievement_id t = a") (simp_all add: has_done_def)
  have "completed_tasks a p T = sum_list (map ?d (map snd (at_tasks T)))"
    unfolding completed_tasks_def length_filter_product case_prod_conv one ..
  also have "map ?d (map snd (at_tasks T)) = map ?d (map (strip \<circ> snd) (at_tasks T))" by simp
  also have "sum_list (map ?d ts) = sum_list (map ?d (filter (\<lambda>t. tr_achievement_id t = a) ts))" for ts by (induction ts) simp_all
  finally have "completed_tasks a p T = sum_list (map (\<lambda>td. of_bool (has_done w ns (td_id td) p T)) tds)" unfolding own by (simp add: comp_def new_task_def)
  also have "\<dots> = length (filter (\<lambda>td. has_done w ns (td_id td) p T) tds)" by (induction tds) simp_all
  finally show ?thesis by (simp only: all_filtered)
qed

lemma registered_tables:
  assumes "register_achievement E w ns entity T = (Inr a, T1)" and "map_of (at_achievements T) a = None"
  obtains r where "map_of (at_achievements T1) a = Some r" "at_progressions T1 = at_progressions T"
    "at_tasks T1 = fold (insert_task w ns a) (tasks_of_text (ae_json E) (an_tasks r)) (at_tasks T)"
  using assms by (auto simp: register_achievement_def upsert_achievement_def Let_def split: sum.splits)

text \<open>Numbers of 64 bits and more are hexadecimal texts, which are not read as counts: each such report counts as 1.\<close>

lemma wide_count_is_one: "number_or 1 (Some (hex64 n)) = 1"
proof -
  have "decs_value 0 (CHR ''0'' # CHR ''x'' # s) = None" for s by (simp add: dec_value_def)
  then show ?thesis by (simp add: number_or_def parse_i32_def parse_int_def signed_value_def parse_digits_def hex64_def Let_def)
qed

section \<open>A concrete achievement\<close>

definition sample_tasks :: json where
  "sample_tasks = JArray [JObject [(''id'', JString ''win''), (''description'', JString ''Win a game''), (''total'', JU64 3)]]"

definition sample_achievement :: ty where
  "sample_achievement = Struct ''ns-TrophyCreation'' [Member ''id'' (ByteArray ''first'') True, Member ''group'' (ByteArray ''games'') False,
     Member ''tasks'' (ByteArray (json_to_string numbered_json sample_tasks)) False]"

definition sample_report :: "32 word \<Rightarrow> ty" where
  "sample_report n = Struct ''ns-TrophyProgression'' [Member ''player_id'' (ByteArray ''0x7'') True, Member ''task_id'' (ByteArray ''win'') True,
     Member ''count'' (Primitive (U32 (Some n))) False]"

definition sample_achievement_env :: achievement_env where
  "sample_achievement_env = \<lparr>ae_dojo = plain_dojo, ae_json = numbered_json, ae_from_hex = felt_from_str hex_text, ae_now = [], ae_seconds = (\<lambda>_. 0), ae_rate = (\<lambda>_ _. [])\<rparr>"

definition no_achievements :: achievement_tables where
  "no_achievements = \<lparr>at_achievements = [], at_tasks = [], at_progressions = [], at_players = []\<rparr>"

lemma sample_fields: "n = 1 \<or> n = 2 \<Longrightarrow> progression_fields sample_achievement_env (sample_report n) = Inr (''0x7'', ''win'', uint n)"
  by (auto simp: progression_fields_def sample_report_def extract_field_def ty_to_string_def sample_achievement_env_def bind_ok_def required_def
      plain_dojo_def primitive_text_def number_or_def parse_i32_def parse_int_text)

section \<open>Properties\<close>

text \<open>
  C12. An achievement is completed by adding up: after an achievement with new tasks is registered, and after any reports of progress of any players, a player has
  completed it exactly if it has tasks and for each of them the counts the player reported add up to its target.
\<close>

theorem achievement_follows_reports:
  assumes reg: "register_achievement E w ns entity T = (Inr a, T1)" "map_of (at_achievements T1) a = Some r" "tds = tasks_of_text (ae_json E) (an_tasks r)"
    and new: "map_of (at_achievements T) a = None" "list_all (\<lambda>t. tr_achievement_id t \<noteq> a \<and>
        (tr_world_address t = w \<and> tr_namespace t = ns \<longrightarrow> tr_task_id t \<notin> td_id ` set tds)) (map snd (at_tasks T))"
      "list_all (\<lambda>td. map_of (at_tasks T) (colons [w, ns, a, td_id td]) = None \<and> map_of (at_progressions T) (colons [w, ns, td_id td, p]) = None) tds"
    and ids: "distinct (map td_id tds)" "list_all (\<lambda>s. CHR '':'' \<notin> set s) ([w, ns, p] @ map td_id tds)"
    and "keyed (at_progressions T)" and "list_all (plain_report E) rs"
  shows "as_completed (calculate_achievement_status E a p (run_reports E rs T1)) \<longleftrightarrow>
    tds \<noteq> [] \<and> (\<forall>td\<in>set tds. counts_of E w ns (td_id td) p rs \<noteq> [] \<and> sint (td_total td) \<le> sum_list (counts_of E w ns (td_id td) p rs))"
proof -
  obtain r' where r': "map_of (at_achievements T1) a = Some r'" "at_progressions T1 = at_progressions T"
    "at_tasks T1 = fold (insert_task w ns a) (tasks_of_text (ae_json E) (an_tasks r')) (at_tasks T)" by (rule registered_tables[OF reg(1) new(1)])
  have tasks: "at_tasks T1 = at_tasks T @ map (new_task w ns a) tds"
    using r'(1,3) reg(2,3) insert_tasks[OF ids(1)] new(3) by (simp add: list_all_iff)
  let ?T = "run_reports E rs T1"
  have keep: "map (strip \<circ> snd) (at_tasks ?T) = map (strip \<circ> snd) (at_tasks T1)" "map_option an_tasks (map_of (at_achievements ?T) a) = Some (an_tasks r)"
    "keyed (at_progressions ?T)" using reports_kept[of a T1 E rs] reg(2) assms(9) r'(2) by (simp_all add: reports_keep_def)
  have "filter (\<lambda>t. tr_achievement_id t = a) (map (strip \<circ> snd) (at_tasks T)) = []" using new(2) by (auto simp: filter_empty_conv list_all_iff)
  moreover have "map (strip \<circ> (snd \<circ> new_task w ns a)) tds = map (snd \<circ> new_task w ns a) tds" by (simp add: new_task_def strip_def)
  ultimately have own: "filter (\<lambda>t. tr_achievement_id t = a) (map (strip \<circ> snd) (at_tasks ?T)) = map (snd \<circ> new_task w ns a) tds"
    unfolding keep(1) tasks by (simp add: comp_assoc) (simp add: new_task_def strip_def comp_def)
  have "has_done w ns (td_id td) p ?T \<longleftrightarrow> counts_of E w ns (td_id td) p rs \<noteq> [] \<and> sint (td_total td) \<le> sum_list (counts_of E w ns (td_id td) p rs)"
    if td: "td \<in> set tds" for td
  proof -
    have "List.find (\<lambda>t. tr_world_address t = w \<and> tr_namespace t = ns \<and> tr_task_id t = td_id td) (map snd (at_tasks T)) = None"
      using new(2) td by (auto simp: find_None_iff list_all_iff)
    moreover have "List.find (\<lambda>t. tr_world_address t = w \<and> tr_namespace t = ns \<and> tr_task_id t = td_id td) (map (snd \<circ> new_task w ns a) xs) = Some (snd (new_task w ns a td))"
      if "td \<in> set xs" "distinct (map td_id xs)" for xs using that by (induction xs) (auto simp: new_task_def)
    moreover have "List.find P xs = None \<Longrightarrow> List.find P (xs @ ys) = List.find P ys" for P and xs ys :: "task_row list" by (induction xs) (auto split: if_splits)
    ultimately have "find_task w ns (td_id td) T1 = Some (snd (new_task w ns a td))" using td ids(1) by (simp add: find_task_def tasks)
    then have target: "map_option tr_total (find_task w ns (td_id td) T1) = Some (sint (td_total td))" by (simp add: new_task_def)
    have "progress_ok (w, ns, td_id td, p) (sint (td_total td)) (counts_of E w ns (td_id td) p rs) (map_of (at_progressions ?T) (colons [w, ns, td_id td, p]))"
      using reports_counted[OF _ target assms(10), of p] new(3) ids(2) td r'(2) by (simp add: list_all_iff)
    then show ?thesis unfolding has_done_iff[OF keep(3)] by (auto simp: progress_ok_def split: option.splits)
  qed
  then show ?thesis using completed_iff_all[OF keep(3) own, of p] keep(2) reg(3)
    by (auto simp: calculate_achievement_status_def Let_def split: option.splits)
qed

theorem achievement_follows_reports_witness:
  "as_completed (calculate_achievement_status sample_achievement_env ''0x1:ns:first'' ''0x7''
     (run_reports sample_achievement_env [(''0x1'', ''ns'', sample_report 1, ''a''), (''0x1'', ''ns'', sample_report 2, ''b'')]
       (snd (register_achievement sample_achievement_env ''0x1'' ''ns'' sample_achievement no_achievements))))"
proof -
  let ?E = sample_achievement_env and ?a = "''0x1:ns:first''"
  let ?rs = "[(''0x1'', ''ns'', sample_report 1, ''a''), (''0x1'', ''ns'', sample_report 2, ''b'')]"
  obtain T1 r where reg: "register_achievement ?E ''0x1'' ''ns'' sample_achievement no_achievements = (Inr ?a, T1)" "map_of (at_achievements T1) ?a = Some r"
    "an_tasks r = json_to_string numbered_json sample_tasks"
    by (simp add: register_achievement_def sample_achievement_def extract_field_def ty_to_string_def bind_ok_def required_def text_or_def
        sample_achievement_env_def colons_def upsert_achievement_def no_achievements_def Let_def)
  have tds: "tasks_of_text (ae_json ?E) (an_tasks r) = [\<lparr>td_id = ''win'', td_description = ''Win a game'', td_total = 3\<rparr>]"
    using plain_store.json_reads(1)[of sample_tasks] unfolding reg(3) tasks_of_text_def
    by (simp add: sample_achievement_env_def plain_formats_def sample_tasks_def task_of_json_def)
  have counts: "counts_of ?E ''0x1'' ''ns'' ''win'' ''0x7'' ?rs = [1, 2]" "list_all (plain_report ?E) ?rs"
    by (simp_all add: counts_of_def map_filter_simps report_of_def plain_report_def sample_fields)
  show ?thesis
    using achievement_follows_reports[OF reg(1,2) tds[symmetric], of "''0x7''" ?rs] counts reg(1)
    by (simp add: no_achievements_def keyed_def)
qed

end
