(* ===== verification/EventMessages.thy ===== *)
theory EventMessages
  imports EntityStoreSpec AchievementSpec
begin

text \<open>
  Event messages: \<open>set_event_message\<close> of \<open>crates/sqlite/sqlite/src/storage.rs\<close> and the branch of \<open>Executor::handle_query_message\<close> that stores one. An event message is
  kept like an entity, in tables of its own, under the identifier of its keys; its model goes to the table of the model under the prefix \<open>event:\<close>. The message also
  updates the aggregations of its model and, if the model is configured for it, registers an achievement or reports progress.

  The Poseidon hash and the selector of a model name are parameters.
\<close>

section \<open>State and queries\<close>

record 'c event_tables =
  vt_store :: "'c entity_tables"
  vt_event_messages :: "(string \<times> entity_row) list"
  vt_event_model :: "((string \<times> string) \<times> int) list"
  vt_historical :: "historical_row list"
  vt_achievements :: achievement_tables

record 'c event_env =
  ve_store :: "'c entity_env"
  ve_achievements :: achievement_env
  ve_hash_many :: "felt list \<Rightarrow> felt"
  ve_selector :: "string \<Rightarrow> string \<Rightarrow> felt"
  ve_registration_model :: string
  ve_progression_model :: string

record event_query =
  vq_world_address :: string
  vq_hashed_keys :: string
  vq_entity_id :: string
  vq_model_id :: string
  vq_keys_str :: string
  vq_event_id :: string
  vq_block_timestamp :: string
  vq_is_historical :: bool
  vq_ty :: ty

datatype event_statement =
  EventMessage event_query
| EventModel string "(string \<times> string) list"
| EventHook string string

datatype event_output =
  ProgressionUpdated achievement_progression
| EventAggregation aggregation_entry
| EventMessageUpdated entity_update

type_synonym ('c, 'a) event_run = "('c event_tables, failure, 'a) stateful"

section \<open>The executor's side\<close>

definition upsert_event_message :: "event_query \<Rightarrow> ('c, entity_row) event_run" where
  "upsert_event_message q T =
     (let row = (case map_of (vt_event_messages T) (vq_entity_id q) of
                   None \<Rightarrow> \<lparr>er_entity_id = vq_hashed_keys q, er_world_address = vq_world_address q, er_keys = Some (vq_keys_str q),
                           er_event_id = vq_event_id q, er_executed_at = vq_block_timestamp q\<rparr>
                 | Some r \<Rightarrow> r\<lparr>er_event_id := vq_event_id q, er_executed_at := vq_block_timestamp q\<rparr>) in
      (Inr row, T\<lparr>vt_event_messages := al_insert (vq_entity_id q) row (vt_event_messages T)\<rparr>))"

definition event_counter :: "event_query \<Rightarrow> 'c event_tables \<Rightarrow> int" where
  "event_counter q T = (case map_of (vt_event_model T) (vq_entity_id q, vq_model_id q) of None \<Rightarrow> 0 | Some n \<Rightarrow> n)"

definition store_event_history :: "'c event_env \<Rightarrow> event_query \<Rightarrow> ('c, unit) event_run" where
  "store_event_history V q T =
     (case split_once (CHR '':'') (vq_entity_id q) of
        None \<Rightarrow> (Inl QPanic, T)
      | Some (world_address, entity_id) \<Rightarrow>
          (case dt_to_json (ee_dojo (ve_store V)) (vq_ty q) of
             Inl e \<Rightarrow> (Inl (QErr (QPrimitive e)), T)
           | Inr j \<Rightarrow>
               (Inr (), T\<lparr>vt_historical := vt_historical T @
                  [\<lparr>hr_id = vq_entity_id q, hr_keys = Some (vq_keys_str q), hr_event_id = vq_event_id q,
                    hr_data = json_to_string (tx_json (ee_formats (ve_store V))) j, hr_model_id = vq_model_id q, hr_executed_at = vq_block_timestamp q,
                    hr_world_address = world_address, hr_entity_id = entity_id\<rparr>]\<rparr>)))"

definition event_aggregations :: "'c event_env \<Rightarrow> event_query \<Rightarrow> ('c, aggregation_entry list) event_run" where
  "event_aggregations V q T =
     (let E = ve_store V; S = vt_store T in
      case update_aggregations (ee_dojo E) (tx_json (ee_formats E)) (tx_u256 (ee_formats E))
             (get_aggregator_for_model (ee_aggregators E) (dt_name (ee_dojo E) (vq_ty q))) (vq_ty q) (vq_model_id q) (et_aggregations S) of
        (None, A) \<Rightarrow> (Inl QPanic, T\<lparr>vt_store := S\<lparr>et_aggregations := A\<rparr>\<rparr>)
      | (Some es, A) \<Rightarrow> (Inr es, T\<lparr>vt_store := S\<lparr>et_aggregations := A\<rparr>\<rparr>))"

text \<open>Errors of achievements are logged.\<close>

definition event_achievements :: "'c event_env \<Rightarrow> string \<Rightarrow> string \<Rightarrow> event_query \<Rightarrow> achievement_tables \<Rightarrow> achievement_progression list \<times> achievement_tables" where
  "event_achievements V namespace name q A =
     (let A1 = (if name = ve_registration_model V then snd (register_achievement (ve_achievements V) (vq_world_address q) namespace (vq_ty q) A) else A) in
      if name = ve_progression_model V then
        (case update_achievement_progression (ve_achievements V) (vq_world_address q) namespace (vq_ty q) A1 of
           (Inr (Some p), A2) \<Rightarrow> ([p], A2)
         | (_, A2) \<Rightarrow> ([], A2))
      else ([], A1))"

definition event_message_query :: "'c event_env \<Rightarrow> event_query \<Rightarrow> ('c, event_output list) event_run" where
  "event_message_query V q =
     and_then (upsert_event_message q) (\<lambda>row.
     and_then (\<lambda>T. (Inr (event_counter q T), T)) (\<lambda>counter.
     and_then (if vq_is_historical q then store_event_history V q else ret ()) (\<lambda>_.
     and_then (\<lambda>T. (Inr (), T\<lparr>vt_event_model := al_insert (vq_entity_id q, vq_model_id q)
                                  (if vq_is_historical q then counter + 1 else counter) (vt_event_model T)\<rparr>)) (\<lambda>_.
     case split_once (CHR ''-'') (dt_name (ee_dojo (ve_store V)) (vq_ty q)) of
       None \<Rightarrow> fail QPanic
     | Some (namespace, name) \<Rightarrow>
         and_then (event_aggregations V q) (\<lambda>es.
         and_then (\<lambda>T. case event_achievements V namespace name q (vt_achievements T) of (ps, A) \<Rightarrow> (Inr ps, T\<lparr>vt_achievements := A\<rparr>)) (\<lambda>ps T.
           case to_entity_update (tx_felt (ee_formats (ve_store V))) row (vq_ty q) None False of
             None \<Rightarrow> (Inl QPanic, T)
           | Some u \<Rightarrow> (Inr (map ProgressionUpdated ps @ map EventAggregation es @ [EventMessageUpdated u]), T)))))))"

definition on_store :: "('c, 'a) entity_run \<Rightarrow> ('c, 'a) event_run" where
  "on_store f T = (case f (vt_store T) of (r, S) \<Rightarrow> (r, T\<lparr>vt_store := S\<rparr>))"

definition run_event_statement :: "'c event_env \<Rightarrow> event_statement \<Rightarrow> ('c, event_output list) event_run" where
  "run_event_statement V s =
     (case s of
        EventMessage q \<Rightarrow> event_message_query V q
      | EventModel table cs \<Rightarrow> and_then (on_store (store_model (ve_store V) table cs)) (\<lambda>_. ret [])
      | EventHook sql a \<Rightarrow> and_then (on_store (ee_sql (ve_store V) sql a)) (\<lambda>_. ret []))"

fun run_event_statements :: "'c event_env \<Rightarrow> event_statement list \<Rightarrow> 'c event_tables \<Rightarrow> (event_output list \<times> bool) \<times> 'c event_tables" where
  "run_event_statements V [] T = (([], True), T)"
| "run_event_statements V (s # ss) T =
     (case run_event_statement V s T of
        (Inl e, T') \<Rightarrow> if e = QPanic then (([], False), T') else run_event_statements V ss T'
      | (Inr us, T') \<Rightarrow> (case run_event_statements V ss T' of ((us', ok), T'') \<Rightarrow> ((us @ us', ok), T'')))"

section \<open>The storage's side\<close>

text \<open>The queries that are sent; a model name without a namespace panics before.\<close>

definition set_event_message ::
  "'c event_env \<Rightarrow> felt \<Rightarrow> ty \<Rightarrow> string \<Rightarrow> u64 \<Rightarrow> felt list \<Rightarrow> event_statement list \<times> (table_error + unit)" where
  "set_event_message V world_address entity event_id block_timestamp keys =
     (let E = ve_store V; F = tx_felt (ee_formats E);
          namespaced_name = dt_name (ee_dojo E) entity in
      case split_once (CHR ''-'') namespaced_name of
        None \<Rightarrow> ([], Inl TablePanic)
      | Some (model_namespace, model_name) \<Rightarrow>
          (let entity_id = ve_hash_many V keys;
               scoped_entity_id = format_world_scoped_id F world_address entity_id;
               model_selector = ve_selector V model_namespace model_name;
               sent = [EventMessage \<lparr>vq_world_address = felt_hex F world_address, vq_hashed_keys = felt_hex F entity_id, vq_entity_id = scoped_entity_id,
                         vq_model_id = format_world_scoped_id F world_address model_selector, vq_keys_str = felts_to_sql_string F keys, vq_event_id = event_id,
                         vq_block_timestamp = ee_time E block_timestamp, vq_is_historical = (model_selector \<in> set (ee_historical E)), vq_ty = entity\<rparr>] in
           case entity_columns (ee_dojo E) (tx_json (ee_formats E)) (ee_time E block_timestamp) (ee_now E) event_id (''event:'' @ scoped_entity_id) entity of
             Inl e \<Rightarrow> (sent, Inl e)
           | Inr cs \<Rightarrow>
               (sent @ EventModel namespaced_name cs #
                map (\<lambda>h. EventHook (hk_statement h) scoped_entity_id) (filter (\<lambda>h. hk_event h = ModelUpdated namespaced_name) (ee_hooks E)), Inr ())))"

end
