(* ===== verification/Messaging.thy ===== *)
theory Messaging
  imports EventMessages
begin

text \<open>
  Signed off-chain messages (\<open>crates/messaging/src\<close>): a message is parsed by the schema of its model, its time and its signature are checked against the entity that is
  stored under its keys, and the entity is replaced.

  Values and typed data are types of \<open>starknet_core\<close>; its hash of a message, and the methods of \<open>dojo_types\<close> and of the provider that are called, are parameters. The
  storage is a trait object, so its methods are fields of a record; \<open>sql_storage\<close> fills them with the methods of the SQLite storage.
\<close>

section \<open>Messages and errors\<close>

datatype "value" =
  VObject "(string \<times> value) list"
| VArray "value list"
| VUnsigned "128 word"
| VSigned "128 word"
| VBoolean bool
| VString string

record typed_data =
  td_primary_type :: string
  td_message :: "value"

datatype messaging_error =
  InvalidType
| ParseIntError
| FieldNotFound string
| InvalidTupleLength
| ParseFeltError
| InvalidModelTag string
| MessageModelNotFound string
| MessageNotStruct
| SerializeModelKeyError string
| EnumError string
| MessageStorageError string
| MessageProviderError string
| TypedDataError string
| InvalidSignature
| TimestampTooFuture
| TimestampTooOld
| TimestampNotFound
| InvalidTimestamp
| MessagePanic

record messaging_config =
  mf_max_age :: u64
  mf_future_tolerance :: u64
  mf_require_timestamp :: bool

record 's storage_ops =
  so_model :: "felt \<Rightarrow> felt \<Rightarrow> 's \<Rightarrow> string + ty"
  so_entity_model :: "felt \<Rightarrow> felt \<Rightarrow> felt \<Rightarrow> 's \<Rightarrow> string + ty option"
  so_set_entity :: "felt \<Rightarrow> ty \<Rightarrow> string \<Rightarrow> u64 \<Rightarrow> felt \<Rightarrow> felt \<Rightarrow> felt list option \<Rightarrow> 's \<Rightarrow> (string + unit) \<times> 's"
  so_execute :: "'s \<Rightarrow> (string + unit) \<times> 's"

record message_types =
  mt_dojo :: dojo_types
  mt_felt :: felt_text
  mt_as_u64 :: "primitive \<Rightarrow> u64 option"
  mt_as_u128 :: "primitive \<Rightarrow> 128 word option"
  mt_as_contract_address :: "primitive \<Rightarrow> felt option"
  mt_get :: "member list \<Rightarrow> string \<Rightarrow> ty option"
  mt_keys :: "member list \<Rightarrow> member list"
  mt_serialize :: "member \<Rightarrow> string + felt list"
  mt_selector_from_tag :: "string \<Rightarrow> felt option"
  mt_hash_many :: "felt list \<Rightarrow> felt"
  mt_message_hash :: "typed_data \<Rightarrow> felt \<Rightarrow> string + felt"
  mt_is_valid_signature :: felt

record 's messaging_env =
  me_config :: messaging_config
  me_storage :: "'s storage_ops"
  me_types :: message_types

text \<open>What a request meets: the provider's answers to calls at that time, and the clock in milliseconds and in seconds.\<close>

record surroundings =
  su_call :: "felt \<Rightarrow> felt \<Rightarrow> felt list \<Rightarrow> string + felt list"
  su_now_millis :: u64
  su_now_secs :: u64

section \<open>Parsing\<close>

text \<open>\<open>from_str_radix\<close> and \<open>from_str\<close> of an integer type, given by its bounds.\<close>

definition parse_hex :: "int \<Rightarrow> int \<Rightarrow> string \<Rightarrow> int option" where
  "parse_hex lo hi s =
     (let (neg, ds) = (case s of
            [] \<Rightarrow> (False, [])
          | c # cs \<Rightarrow> if c = CHR ''-'' \<and> lo < 0 then (True, cs) else if c = CHR ''+'' then (False, cs) else (False, s)) in
      if ds = [] then None
      else case digits_value 0 ds of
             None \<Rightarrow> None
           | Some n \<Rightarrow> (let i = (if neg then - int n else int n) in if lo \<le> i \<and> i < hi then Some i else None))"

definition from_str :: "int \<Rightarrow> int \<Rightarrow> string \<Rightarrow> messaging_error + int" where
  "from_str lo hi s =
     (case (if take 2 s = ''0x'' \<or> take 2 s = ''0X'' then parse_hex lo hi (drop 2 s) else parse_int lo hi s) of
        None \<Rightarrow> Inl ParseIntError
      | Some i \<Rightarrow> Inr i)"

definition parse_felt :: "message_types \<Rightarrow> string \<Rightarrow> messaging_error + felt" where
  "parse_felt M s = (case felt_from_str (mt_felt M) s of None \<Rightarrow> Inl ParseFeltError | Some f \<Rightarrow> Inr f)"

definition parse_string :: "message_types \<Rightarrow> string \<Rightarrow> ty \<Rightarrow> messaging_error + ty" where
  "parse_string M s t =
     (case t of
        Primitive (I64 _) \<Rightarrow> map_sum id (\<lambda>i. Primitive (I64 (Some (word_of_int i)))) (from_str (- (2 ^ 63)) (2 ^ 63) s)
      | Primitive (I128 _) \<Rightarrow> map_sum id (\<lambda>i. Primitive (I128 (Some (word_of_int i)))) (from_str (- (2 ^ 127)) (2 ^ 127) s)
      | Primitive (U64 _) \<Rightarrow> map_sum id (\<lambda>i. Primitive (U64 (Some (word_of_int i)))) (from_str 0 (2 ^ 64) s)
      | Primitive (U128 _) \<Rightarrow> map_sum id (\<lambda>i. Primitive (U128 (Some (word_of_int i)))) (from_str 0 (2 ^ 128) s)
      | Primitive (Felt252 _) \<Rightarrow> map_sum id (\<lambda>f. Primitive (Felt252 (Some f))) (parse_felt M s)
      | Primitive (ClassHash _) \<Rightarrow> map_sum id (\<lambda>f. Primitive (ClassHash (Some f))) (parse_felt M s)
      | Primitive (ContractAddress _) \<Rightarrow> map_sum id (\<lambda>f. Primitive (ContractAddress (Some f))) (parse_felt M s)
      | Primitive (EthAddress _) \<Rightarrow> map_sum id (\<lambda>f. Primitive (EthAddress (Some f))) (parse_felt M s)
      | ByteArray _ \<Rightarrow> Inr (ByteArray s)
      | _ \<Rightarrow> Inl InvalidType)"

text \<open>Numbers are cut to the width of the member; a boolean replaces the member, whatever its type.\<close>

definition parse_leaf :: "message_types \<Rightarrow> value \<Rightarrow> ty \<Rightarrow> messaging_error + ty" where
  "parse_leaf M v t =
     (case v of
        VUnsigned n \<Rightarrow>
          (case t of
             Primitive (U8 _) \<Rightarrow> Inr (Primitive (U8 (Some (ucast n))))
           | Primitive (U16 _) \<Rightarrow> Inr (Primitive (U16 (Some (ucast n))))
           | Primitive (U32 _) \<Rightarrow> Inr (Primitive (U32 (Some (ucast n))))
           | Primitive (U64 _) \<Rightarrow> Inr (Primitive (U64 (Some (ucast n))))
           | Primitive (U128 _) \<Rightarrow> Inr (Primitive (U128 (Some n)))
           | _ \<Rightarrow> Inl InvalidType)
      | VSigned n \<Rightarrow>
          (case t of
             Primitive (I8 _) \<Rightarrow> Inr (Primitive (I8 (Some (ucast n))))
           | Primitive (I16 _) \<Rightarrow> Inr (Primitive (I16 (Some (ucast n))))
           | Primitive (I32 _) \<Rightarrow> Inr (Primitive (I32 (Some (ucast n))))
           | Primitive (I64 _) \<Rightarrow> Inr (Primitive (I64 (Some (ucast n))))
           | Primitive (I128 _) \<Rightarrow> Inr (Primitive (I128 (Some n)))
           | _ \<Rightarrow> Inl InvalidType)
      | VBoolean b \<Rightarrow> Inr (Primitive (Bool (Some b)))
      | VString s \<Rightarrow> parse_string M s t
      | _ \<Rightarrow> Inl InvalidType)"

text \<open>The halves of a 256-bit number; indexing a missing one panics, and so does \<open>unwrap\<close> on a half that became a boolean.\<close>

definition parse_half :: "message_types \<Rightarrow> (string \<times> value) list \<Rightarrow> string \<Rightarrow> messaging_error + ty" where
  "parse_half M fs name = (case map_of fs name of None \<Rightarrow> Inl MessagePanic | Some v \<Rightarrow> parse_leaf M v (Primitive (U128 None)))"

definition half_value :: "message_types \<Rightarrow> ty \<Rightarrow> 128 word option" where
  "half_value M t = (case t of Primitive p \<Rightarrow> mt_as_u128 M p | _ \<Rightarrow> None)"

definition parse_u256 :: "message_types \<Rightarrow> (string \<times> value) list \<Rightarrow> messaging_error + ty" where
  "parse_u256 M fs =
     bind_ok (parse_half M fs ''low'') (\<lambda>low.
     bind_ok (parse_half M fs ''high'') (\<lambda>high.
     case (half_value M low, half_value M high) of
       (Some l, Some h) \<Rightarrow> Inr (Primitive (U256 (Some (word_cat h l))))
     | _ \<Rightarrow> Inl MessagePanic))"

fun set_member :: "string \<Rightarrow> ty \<Rightarrow> member list \<Rightarrow> member list" where
  "set_member name t [] = []"
| "set_member name t (m # ms) = (if mb_name m = name then Member (mb_name m) t (mb_key m) # ms else m # set_member name t ms)"

fun collect_ok :: "('e + 'a) list \<Rightarrow> 'e + 'a list" where
  "collect_ok [] = Inr []"
| "collect_ok (r # rs) = bind_ok r (\<lambda>a. bind_ok (collect_ok rs) (\<lambda>as. Inr (a # as)))"

text \<open>The parts of a value come with their parsers.\<close>

type_synonym parser = "ty \<Rightarrow> messaging_error + ty"

fun parse_fields :: "(string \<times> parser) list \<Rightarrow> member list \<Rightarrow> messaging_error + member list" where
  "parse_fields [] ms = Inr ms"
| "parse_fields ((name, parse) # fs) ms =
     (case List.find (\<lambda>m. mb_name m = name) ms of
        None \<Rightarrow> Inl (FieldNotFound name)
      | Some m \<Rightarrow> bind_ok (parse (mb_ty m)) (\<lambda>t. parse_fields fs (set_member name t ms)))"

definition parse_variant :: "message_types \<Rightarrow> string \<Rightarrow> enum_option list \<Rightarrow> (string \<times> parser) list \<Rightarrow> messaging_error + ty" where
  "parse_variant M n opts fs =
     (case fs of
        [] \<Rightarrow> Inl (FieldNotFound ''enum variant not found'')
      | (option_name, parse) # _ \<Rightarrow>
          bind_ok (collect_ok (map (\<lambda>opt. if eo_name opt = option_name then map_sum id (EnumOption (eo_name opt)) (parse (eo_ty opt)) else Inr opt) opts)) (\<lambda>opts'.
          case dt_set_option (mt_dojo M) option_name opts' of Inl e \<Rightarrow> Inl (EnumError e) | Inr i \<Rightarrow> Inr (Enum n (Some i) opts')))"

definition parse_object :: "message_types \<Rightarrow> (string \<times> value) list \<Rightarrow> (string \<times> parser) list \<Rightarrow> parser" where
  "parse_object M fs parsers t =
     (case t of
        Struct n ms \<Rightarrow> map_sum id (Struct n) (parse_fields parsers ms)
      | Primitive (U256 _) \<Rightarrow> parse_u256 M fs
      | Enum n sel opts \<Rightarrow> parse_variant M n opts parsers
      | _ \<Rightarrow> Inl InvalidType)"

definition parse_array :: "parser list \<Rightarrow> parser" where
  "parse_array parsers t =
     (case t of
        Array ts \<Rightarrow> (case ts of [] \<Rightarrow> Inl MessagePanic | inner_type # _ \<Rightarrow> map_sum id Array (collect_ok (map (\<lambda>parse. parse inner_type) parsers)))
      | Tuple ts \<Rightarrow>
          if length ts \<noteq> length parsers then Inl InvalidTupleLength else map_sum id Tuple (collect_ok (map2 (\<lambda>parse t. parse t) parsers ts))
      | _ \<Rightarrow> Inl InvalidType)"

lemma field_size: "x \<in> set fs \<Longrightarrow> size (snd x) < Suc (size_list (size_prod (\<lambda>_. 0) size) fs)"
proof -
  assume "x \<in> set fs"
  then have "size_prod (\<lambda>_. 0) size x \<le> size_list (size_prod (\<lambda>_. 0) size) fs" by (rule size_list_estimation') simp
  moreover have "size (snd x) < Suc (size_prod (\<lambda>_. 0) size x)" by (cases x) simp
  ultimately show ?thesis by simp
qed

function parse_value_to_ty :: "message_types \<Rightarrow> value \<Rightarrow> parser" where
  "parse_value_to_ty M (VObject fs) = parse_object M fs (map (\<lambda>x. (fst x, parse_value_to_ty M (snd x))) fs)"
| "parse_value_to_ty M (VArray vs) = parse_array (map (parse_value_to_ty M) vs)"
| "parse_value_to_ty M (VUnsigned n) = parse_leaf M (VUnsigned n)"
| "parse_value_to_ty M (VSigned n) = parse_leaf M (VSigned n)"
| "parse_value_to_ty M (VBoolean b) = parse_leaf M (VBoolean b)"
| "parse_value_to_ty M (VString s) = parse_leaf M (VString s)"
  by pat_completeness auto
termination
  by (relation "measure (size \<circ> snd)") (auto dest: field_size intro: le_imp_less_Suc size_list_estimation')

section \<open>Keys, identity and time\<close>

definition ty_keys :: "message_types \<Rightarrow> ty \<Rightarrow> messaging_error + felt list" where
  "ty_keys M t =
     (case t of
        Struct n ms \<Rightarrow>
          map_sum id concat (collect_ok (map (\<lambda>m. case mt_serialize M m of Inl e \<Rightarrow> Inl (SerializeModelKeyError e) | Inr fs \<Rightarrow> Inr fs) (mt_keys M ms)))
      | _ \<Rightarrow> Inl InvalidType)"

definition ty_model_id :: "message_types \<Rightarrow> ty \<Rightarrow> messaging_error + felt" where
  "ty_model_id M t =
     (let namespaced_name = dt_name (mt_dojo M) t in
      case mt_selector_from_tag M namespaced_name of None \<Rightarrow> Inl (InvalidModelTag namespaced_name) | Some s \<Rightarrow> Inr s)"

definition get_identity_from_ty :: "message_types \<Rightarrow> ty \<Rightarrow> messaging_error + felt" where
  "get_identity_from_ty M t =
     (case t of
        Struct n ms \<Rightarrow>
          (case mt_get M ms ''identity'' of
             None \<Rightarrow> Inl (FieldNotFound ''identity'')
           | Some (Primitive p) \<Rightarrow> (case mt_as_contract_address M p of None \<Rightarrow> Inl InvalidType | Some f \<Rightarrow> Inr f)
           | Some _ \<Rightarrow> Inl InvalidType)
      | _ \<Rightarrow> Inl MessageNotStruct)"

definition get_timestamp_from_ty :: "message_types \<Rightarrow> ty \<Rightarrow> u64 option" where
  "get_timestamp_from_ty M t =
     (case t of
        Struct n ms \<Rightarrow> (case mt_get M ms ''timestamp'' of Some (Primitive p) \<Rightarrow> mt_as_u64 M p | _ \<Rightarrow> None)
      | _ \<Rightarrow> None)"

definition set_message_entity :: "'s storage_ops \<Rightarrow> felt \<Rightarrow> ty \<Rightarrow> u64 \<Rightarrow> felt \<Rightarrow> felt \<Rightarrow> felt list \<Rightarrow> 's \<Rightarrow> (messaging_error + unit) \<times> 's" where
  "set_message_entity S world_address t block_timestamp entity_id model_id keys s =
     (case so_set_entity S world_address t (hex_padded 64 block_timestamp) block_timestamp entity_id model_id (Some keys) s of
        (Inl e, s') \<Rightarrow> (Inl (MessageStorageError e), s')
      | (Inr _, s') \<Rightarrow> (case so_execute S s' of (Inl e, s'') \<Rightarrow> (Inl (MessageStorageError e), s'') | (Inr _, s'') \<Rightarrow> (Inr (), s'')))"

section \<open>Validation\<close>

definition validate_signature :: "message_types \<Rightarrow> surroundings \<Rightarrow> felt \<Rightarrow> typed_data \<Rightarrow> felt list \<Rightarrow> messaging_error + bool" where
  "validate_signature M U entity_identity message signature =
     (case mt_message_hash M message entity_identity of
        Inl e \<Rightarrow> Inl (TypedDataError e)
      | Inr message_hash \<Rightarrow>
          (case su_call U entity_identity (mt_is_valid_signature M) (message_hash # length signature # signature) of
             Inl e \<Rightarrow> Inl (MessageProviderError e)
           | Inr [] \<Rightarrow> Inl MessagePanic
           | Inr (r # _) \<Rightarrow> Inr (r \<noteq> 0)))"

definition validate_message :: "'s messaging_env \<Rightarrow> felt \<Rightarrow> typed_data \<Rightarrow> 's \<Rightarrow> messaging_error + ty" where
  "validate_message G world_address message s =
     (let M = me_types G; tag = td_primary_type message in
      case mt_selector_from_tag M tag of
        None \<Rightarrow> Inl (InvalidModelTag tag)
      | Some selector \<Rightarrow>
          (case so_model (me_storage G) world_address selector s of
             Inl e \<Rightarrow> Inl (MessageModelNotFound e)
           | Inr schema \<Rightarrow> parse_value_to_ty M (td_message message) schema))"

definition check_message_time :: "messaging_config \<Rightarrow> surroundings \<Rightarrow> u64 option \<Rightarrow> messaging_error + unit" where
  "check_message_time C U message_timestamp =
     (case message_timestamp of
        Some timestamp \<Rightarrow>
          if timestamp > su_now_millis U + mf_future_tolerance C then Inl TimestampTooFuture
          else if (if timestamp \<le> su_now_millis U then su_now_millis U - timestamp else 0) > mf_max_age C then Inl TimestampTooOld
          else Inr ()
      | None \<Rightarrow> if mf_require_timestamp C then Inl TimestampNotFound else Inr ())"

definition check_entity_time :: "u64 option \<Rightarrow> u64 option \<Rightarrow> messaging_error + unit" where
  "check_entity_time entity_timestamp message_timestamp =
     (case entity_timestamp of
        None \<Rightarrow> Inr ()
      | Some timestamp \<Rightarrow>
          (case message_timestamp of
             None \<Rightarrow> Inl TimestampNotFound
           | Some t \<Rightarrow> if t \<le> timestamp then Inl InvalidTimestamp else Inr ()))"

definition model_id_of :: "message_types \<Rightarrow> ty \<Rightarrow> messaging_error + felt" where
  "model_id_of M t = (case ty_model_id M t of Inl e \<Rightarrow> Inl MessagePanic | Inr i \<Rightarrow> Inr i)"

definition keys_of :: "message_types \<Rightarrow> ty \<Rightarrow> messaging_error + felt list" where
  "keys_of M t = (case ty_keys M t of Inl e \<Rightarrow> Inl (MessageModelNotFound ''keys'') | Inr ks \<Rightarrow> Inr ks)"

definition checked :: "messaging_error + bool \<Rightarrow> messaging_error + unit" where
  "checked r = (case r of Inl e \<Rightarrow> Inl e | Inr b \<Rightarrow> if b then Inr () else Inl InvalidSignature)"

text \<open>Everything before the entity is written: the parsed entity with its keys, identifiers and time.\<close>

definition validate :: "'s messaging_env \<Rightarrow> surroundings \<Rightarrow> felt \<Rightarrow> typed_data \<Rightarrow> felt list \<Rightarrow> 's \<Rightarrow> messaging_error + ty \<times> felt list \<times> felt \<times> felt" where
  "validate G U world_address message signature s =
     (let M = me_types G in
      bind_ok (validate_message G world_address message s) (\<lambda>t.
      bind_ok (keys_of M t) (\<lambda>keys.
      bind_ok (model_id_of M t) (\<lambda>model_id.
      bind_ok (check_message_time (me_config G) U (get_timestamp_from_ty M t)) (\<lambda>_.
      bind_ok (map_sum MessageStorageError id (so_entity_model (me_storage G) world_address (mt_hash_many M keys) model_id s)) (\<lambda>entity_model.
      bind_ok (get_identity_from_ty M (case entity_model of None \<Rightarrow> t | Some m \<Rightarrow> m)) (\<lambda>entity_identity.
      bind_ok (check_entity_time (Option.bind entity_model (get_timestamp_from_ty M)) (get_timestamp_from_ty M t)) (\<lambda>_.
      bind_ok (checked (validate_signature M U entity_identity message signature)) (\<lambda>_.
      Inr (t, keys, mt_hash_many M keys, model_id))))))))))"

definition validate_and_set_entity ::
  "'s messaging_env \<Rightarrow> surroundings \<Rightarrow> felt \<Rightarrow> typed_data \<Rightarrow> felt list \<Rightarrow> 's \<Rightarrow> (messaging_error + string) \<times> 's" where
  "validate_and_set_entity G U world_address message signature s =
     (case validate G U world_address message signature s of
        Inl e \<Rightarrow> (Inl e, s)
      | Inr (t, keys, entity_id, model_id) \<Rightarrow>
          (case set_message_entity (me_storage G) world_address t
                  (case get_timestamp_from_ty (me_types G) t of Some ts \<Rightarrow> ts | None \<Rightarrow> su_now_secs U) entity_id model_id keys s of
             (Inl e, s') \<Rightarrow> (Inl e, s')
           | (Inr _, s') \<Rightarrow> (Inr (format_world_scoped_id (mt_felt (me_types G)) world_address entity_id), s')))"

section \<open>The SQLite storage\<close>

text \<open>The queries that \<open>set_entity\<close> sends have been run when \<open>execute\<close> answers. A dead executor answers nothing, which is an error.\<close>

definition storage_model :: "'c entity_env \<Rightarrow> felt \<Rightarrow> felt \<Rightarrow> 'c entity_tables \<times> bool \<Rightarrow> string + ty" where
  "storage_model E world_address selector s =
     (case map_of (et_models (fst s)) (format_world_scoped_id (tx_felt (ee_formats E)) world_address selector) of None \<Rightarrow> Inl ''ModelNotFound'' | Some t \<Rightarrow> Inr t)"

definition storage_entity_model :: "'c entity_env \<Rightarrow> felt \<Rightarrow> felt \<Rightarrow> felt \<Rightarrow> 'c entity_tables \<times> bool \<Rightarrow> string + ty option" where
  "storage_entity_model E world_address entity_id model_selector s =
     (case fst (entity_model E (format_world_scoped_id (tx_felt (ee_formats E)) world_address model_selector)
                  (format_world_scoped_id (tx_felt (ee_formats E)) world_address entity_id) (fst s)) of
        Inl e \<Rightarrow> Inl ''StorageError''
      | Inr m \<Rightarrow> Inr m)"

definition storage_set_entity ::
  "'c entity_env \<Rightarrow> felt \<Rightarrow> ty \<Rightarrow> string \<Rightarrow> u64 \<Rightarrow> felt \<Rightarrow> felt \<Rightarrow> felt list option \<Rightarrow> 'c entity_tables \<times> bool \<Rightarrow> (string + unit) \<times> 'c entity_tables \<times> bool" where
  "storage_set_entity E world_address t event_id block_timestamp entity_id model_id keys s =
     (if \<not> snd s then (Inl ''SendError'', s)
      else case set_entity E world_address t event_id block_timestamp entity_id model_id keys of
             (sent, r) \<Rightarrow>
               (case run_entity_statements E sent (fst s) of ((us, alive), T) \<Rightarrow> (map_sum (\<lambda>_. ''StorageError'') id r, (T, alive))))"

definition storage_execute :: "'c entity_tables \<times> bool \<Rightarrow> (string + unit) \<times> 'c entity_tables \<times> bool" where
  "storage_execute s = (if snd s then Inr () else Inl ''RecvError'', s)"

definition sql_storage :: "'c entity_env \<Rightarrow> ('c entity_tables \<times> bool) storage_ops" where
  "sql_storage E = \<lparr>so_model = storage_model E, so_entity_model = storage_entity_model E, so_set_entity = storage_set_entity E, so_execute = storage_execute\<rparr>"

end
