(* ===== verification/EventMessageSpec.thy ===== *)
theory EventMessageSpec
  imports EventMessages
begin

text \<open>
  What a sequence of event messages leaves behind: the latest value of every message, the log of the historical ones with its counters, the achievements, and every entity as
  it was.
\<close>

section \<open>Messages\<close>

record event_message =
  em_world :: felt
  em_value :: ty
  em_event :: string
  em_time :: u64
  em_keys :: "felt list"

definition message_statements :: "'c event_env \<Rightarrow> event_message \<Rightarrow> event_statement list" where
  "message_statements V x = fst (set_event_message V (em_world x) (em_value x) (em_event x) (em_time x) (em_keys x))"

definition tag_parts :: "'c event_env \<Rightarrow> event_message \<Rightarrow> string \<times> string" where
  "tag_parts V x = the (split_once (CHR ''-'') (dt_name (ee_dojo (ve_store V)) (em_value x)))"

definition message_selector :: "'c event_env \<Rightarrow> event_message \<Rightarrow> felt" where
  "message_selector V x = (case tag_parts V x of (namespace, name) \<Rightarrow> ve_selector V namespace name)"

definition message_entity :: "'c event_env \<Rightarrow> event_message \<Rightarrow> felt \<times> felt" where
  "message_entity V x = (em_world x, ve_hash_many V (em_keys x))"

definition message_key :: "'c event_env \<Rightarrow> event_message \<Rightarrow> felt \<times> felt \<times> felt" where
  "message_key V x = (em_world x, ve_hash_many V (em_keys x), message_selector V x)"

definition historical :: "'c event_env \<Rightarrow> event_message \<Rightarrow> bool" where
  "historical V x \<longleftrightarrow> message_selector V x \<in> set (ee_historical (ve_store V))"

definition message_query :: "'c event_env \<Rightarrow> event_message \<Rightarrow> event_query" where
  "message_query V x =
     (let E = ve_store V; F = tx_felt (ee_formats E); entity_id = ve_hash_many V (em_keys x) in
      \<lparr>vq_world_address = felt_hex F (em_world x), vq_hashed_keys = felt_hex F entity_id, vq_entity_id = format_world_scoped_id F (em_world x) entity_id,
       vq_model_id = format_world_scoped_id F (em_world x) (message_selector V x), vq_keys_str = felts_to_sql_string F (em_keys x), vq_event_id = em_event x,
       vq_block_timestamp = ee_time E (em_time x), vq_is_historical = historical V x, vq_ty = em_value x\<rparr>)"

section \<open>Specification\<close>

text \<open>The latest message of a key, and how many of its messages are historical.\<close>

definition latest :: "('x \<Rightarrow> 'k) \<Rightarrow> ('x \<Rightarrow> 'a) \<Rightarrow> 'x list \<Rightarrow> 'k \<rightharpoonup> 'a" where
  "latest key f xs k = map_option f (List.find (\<lambda>x. key x = k) (rev xs))"

definition history_count :: "'c event_env \<Rightarrow> event_message list \<Rightarrow> felt \<times> felt \<times> felt \<rightharpoonup> int" where
  "history_count V xs k = (if k \<in> message_key V ` set xs then Some (int (length (filter (\<lambda>x. message_key V x = k \<and> historical V x) xs))) else None)"

definition history_row :: "'c event_env \<Rightarrow> event_message \<Rightarrow> historical_row" where
  "history_row V x =
     (let E = ve_store V; F = tx_felt (ee_formats E); q = message_query V x in
      \<lparr>hr_id = vq_entity_id q, hr_keys = Some (vq_keys_str q), hr_event_id = em_event x,
       hr_data = json_to_string (tx_json (ee_formats E)) (projr (dt_to_json (ee_dojo E) (em_value x))), hr_model_id = vq_model_id q,
       hr_executed_at = ee_time E (em_time x), hr_world_address = felt_hex F (em_world x), hr_entity_id = felt_hex F (ve_hash_many V (em_keys x))\<rparr>)"

definition achievements_after :: "'c event_env \<Rightarrow> event_message \<Rightarrow> achievement_tables \<Rightarrow> achievement_tables" where
  "achievements_after V x A = (case tag_parts V x of (namespace, name) \<Rightarrow> snd (event_achievements V namespace name (message_query V x) A))"

definition message_view :: "'c event_env \<Rightarrow> event_message \<Rightarrow> update_view" where
  "message_view V x = (em_world x, ve_hash_many V (em_keys x), struct_parts (em_value x), None, em_event x, False)"

fun message_views :: "event_output list \<Rightarrow> update_view list" where
  "message_views [] = []"
| "message_views (EventMessageUpdated u # os) = view u # message_views os"
| "message_views (ProgressionUpdated p # os) = message_views os"
| "message_views (EventAggregation a # os) = message_views os"

definition no_messages :: "'c entity_tables \<Rightarrow> achievement_tables \<Rightarrow> 'c event_tables" where
  "no_messages S A = \<lparr>vt_store = S, vt_event_messages = [], vt_event_model = [], vt_historical = [], vt_achievements = A\<rparr>"

definition message_ok :: "text_formats \<Rightarrow> (string \<times> ty) list \<Rightarrow> 'c event_env \<Rightarrow> event_message \<Rightarrow> bool" where
  "message_ok X models V x =
     (case map_of models (format_world_scoped_id (tx_felt X) (em_world x) (message_selector V x)) of None \<Rightarrow> False | Some t \<Rightarrow> conforms t (em_value x))"

text \<open>Entities and event messages share one queue.\<close>

datatype store_step = EntityStep entity_op | MessageStep event_message

fun entity_steps :: "store_step list \<Rightarrow> entity_op list" where
  "entity_steps [] = []"
| "entity_steps (EntityStep op # ys) = op # entity_steps ys"
| "entity_steps (MessageStep x # ys) = entity_steps ys"

fun message_steps :: "store_step list \<Rightarrow> event_message list" where
  "message_steps [] = []"
| "message_steps (EntityStep op # ys) = message_steps ys"
| "message_steps (MessageStep x # ys) = x # message_steps ys"

fun step_ok :: "text_formats \<Rightarrow> dojo_types \<Rightarrow> (string \<times> ty) list \<Rightarrow> 'c event_env \<Rightarrow> store_step \<Rightarrow> bool" where
  "step_ok X D models V (EntityStep op) = op_ok X D models op"
| "step_ok X D models V (MessageStep x) = message_ok X models V x"

fun run_steps :: "'c event_env \<Rightarrow> store_step list \<Rightarrow> 'c event_tables \<Rightarrow> (entity_message list \<times> event_output list \<times> bool) \<times> 'c event_tables" where
  "run_steps V [] T = (([], [], True), T)"
| "run_steps V (EntityStep op # ys) T =
     (case run_entity_statements (ve_store V) (op_statements (ve_store V) op) (vt_store T) of
        ((us, ok), S) \<Rightarrow>
          if ok then (case run_steps V ys (T\<lparr>vt_store := S\<rparr>) of ((us', os, ok'), T') \<Rightarrow> ((us @ us', os, ok'), T')) else ((us, [], False), T\<lparr>vt_store := S\<rparr>))"
| "run_steps V (MessageStep x # ys) T =
     (case run_event_statements V (message_statements V x) T of
        ((os, ok), T1) \<Rightarrow> if ok then (case run_steps V ys T1 of ((us, os', ok'), T') \<Rightarrow> ((us, os @ os', ok'), T')) else (([], os, False), T1))"

lemma latest_Nil [simp]: "latest key f [] = Map.empty"
  by (simp add: latest_def fun_eq_iff)

lemma latest_snoc [simp]: "latest key f (xs @ [x]) = (latest key f xs)(key x \<mapsto> f x)"
  by (auto simp: latest_def fun_eq_iff)

lemma history_count_snoc:
  "history_count V (xs @ [x]) =
     (history_count V xs)(message_key V x \<mapsto> (case history_count V xs (message_key V x) of None \<Rightarrow> 0 | Some n \<Rightarrow> n) + (if historical V x then 1 else 0))"
proof (rule ext)
  fix k
  have "message_key V x \<notin> message_key V ` set xs \<Longrightarrow> filter (\<lambda>y. message_key V y = message_key V x \<and> historical V y) xs = []"
    by (metis (mono_tags, lifting) filter_False image_eqI)
  then show "history_count V (xs @ [x]) k = ((history_count V xs)(message_key V x \<mapsto>
      (case history_count V xs (message_key V x) of None \<Rightarrow> 0 | Some n \<Rightarrow> n) + (if historical V x then 1 else 0))) k"
    by (cases "k = message_key V x") (auto simp: history_count_def)
qed

lemma message_views_append [simp]: "message_views (xs @ ys) = message_views xs @ message_views ys"
  by (induction xs rule: message_views.induct) simp_all

lemma message_views_other [simp]: "message_views (map ProgressionUpdated ps) = []" "message_views (map EventAggregation es) = []"
  by (induction ps, simp_all) (induction es, simp_all)

section \<open>Steps\<close>

locale event_store = entity_store D X R aff E models
  for D :: dojo_types and X :: text_formats and R :: "'c row_reader" and aff :: "string \<Rightarrow> string \<Rightarrow> 'c" and E :: "'c entity_env" and models :: "(string \<times> ty) list" +
  fixes V :: "'c event_env"
  assumes store_of: "ve_store V = E"
    and namespaced: "map_of models i = Some t \<Longrightarrow> split_once (CHR ''-'') (dt_name D t) \<noteq> None"
begin

definition messages_hold :: "(string \<times> entity_row) list \<Rightarrow> event_message list \<Rightarrow> bool" where
  "messages_hold es xs \<longleftrightarrow> (\<forall>w e. case map_of es (sc w e) of
       None \<Rightarrow> latest (message_entity V) (\<lambda>x. (em_event x, ee_time E (em_time x))) xs (w, e) = None
     | Some r \<Rightarrow> row_ok w e r \<and> latest (message_entity V) (\<lambda>x. (em_event x, ee_time E (em_time x))) xs (w, e) = Some (er_event_id r, er_executed_at r))"

definition events_inv :: "'c event_tables \<Rightarrow> entity_map \<Rightarrow> event_message list \<Rightarrow> bool" where
  "events_inv T m xs \<longleftrightarrow> store_inv (vt_store T) m (latest (message_key V) em_value xs) \<and>
     messages_hold (vt_event_messages T) xs \<and> (\<forall>w e s. map_of (vt_event_model T) (sc w e, sc w s) = history_count V xs (w, e, s)) \<and>
     vt_historical T = map (history_row V) (filter (historical V) xs)"

lemma message_model:
  assumes "message_ok X models V x"
  obtains n ms ns nm where "map_of models (sc (em_world x) (message_selector V x)) = Some (Struct n ms)" "conforms (Struct n ms) (em_value x)"
    "distinct (internal_columns @ collect_columns [] (Struct n ms))" "dt_name D (em_value x) = n" "split_once (CHR ''-'') n = Some (ns, nm)" "tag_parts V x = (ns, nm)"
proof -
  obtain t where t: "map_of models (sc (em_world x) (message_selector V x)) = Some t" "conforms t (em_value x)"
    using assms by (auto simp: message_ok_def split: option.splits)
  obtain n ms where n: "t = Struct n ms" "distinct (internal_columns @ collect_columns [] (Struct n ms))" using model_ok[OF t(1)] by auto
  have v: "dt_name D (em_value x) = n" using t(2) n(1) by (auto simp: ty_name split: ty.splits)
  obtain ns nm where s: "split_once (CHR ''-'') n = Some (ns, nm)" using namespaced[OF t(1)] by (auto simp: n(1) ty_name)
  then have "tag_parts V x = (ns, nm)" by (simp add: tag_parts_def store_of parts v)
  then show thesis using that t n v s by blast
qed

lemma messages_upserted:
  assumes "messages_hold (vt_event_messages T) xs"
  shows "\<exists>r. upsert_event_message (message_query V x) T = (Inr r, T\<lparr>vt_event_messages := al_insert (sc (em_world x) (ve_hash_many V (em_keys x))) r (vt_event_messages T)\<rparr>) \<and>
    row_ok (em_world x) (ve_hash_many V (em_keys x)) r \<and> er_event_id r = em_event x \<and>
    messages_hold (al_insert (sc (em_world x) (ve_hash_many V (em_keys x))) r (vt_event_messages T)) (xs @ [x])"
proof -
  let ?w = "em_world x" and ?e = "ve_hash_many V (em_keys x)"
  define r where "r = (case map_of (vt_event_messages T) (sc ?w ?e) of
      None \<Rightarrow> \<lparr>er_entity_id = felt_hex (tx_felt X) ?e, er_world_address = felt_hex (tx_felt X) ?w, er_keys = Some (felts_to_sql_string (tx_felt X) (em_keys x)),
              er_event_id = em_event x, er_executed_at = ee_time E (em_time x)\<rparr>
    | Some r \<Rightarrow> r\<lparr>er_event_id := em_event x, er_executed_at := ee_time E (em_time x)\<rparr>)"
  have ok: "row_ok ?w ?e r" "er_event_id r = em_event x" "er_executed_at r = ee_time E (em_time x)"
    using assms spec[OF spec[OF assms[unfolded messages_hold_def], of ?w], of ?e]
    by (auto simp: r_def row_ok_def keys_read split: option.splits)
  have "messages_hold (al_insert (sc ?w ?e) r (vt_event_messages T)) (xs @ [x])"
    unfolding messages_hold_def
  proof (intro allI)
    fix w e
    show "case map_of (al_insert (sc ?w ?e) r (vt_event_messages T)) (sc w e) of
        None \<Rightarrow> latest (message_entity V) (\<lambda>x. (em_event x, ee_time E (em_time x))) (xs @ [x]) (w, e) = None
      | Some r \<Rightarrow> row_ok w e r \<and> latest (message_entity V) (\<lambda>x. (em_event x, ee_time E (em_time x))) (xs @ [x]) (w, e) = Some (er_event_id r, er_executed_at r)"
      using spec[OF spec[OF assms[unfolded messages_hold_def], of w], of e] ok
      by (cases "w = ?w \<and> e = ?e") (auto simp: message_entity_def split: option.splits)
  qed
  then show ?thesis using ok(1,2) by (intro exI[of _ r], cases "map_of (vt_event_messages T) (sc ?w ?e)") (simp_all add: upsert_event_message_def message_query_def r_def store_of parts Let_def)
qed

lemma message_runs:
  assumes inv: "events_inv T m xs" and ok: "message_ok X models V x"
  shows "\<exists>os T'. event_message_query V (message_query V x) T = (Inr os, T') \<and> message_views os = [message_view V x] \<and>
    et_rows (vt_store T') = et_rows (vt_store T) \<and> store_inv (vt_store T') m (latest (message_key V) em_value xs) \<and> messages_hold (vt_event_messages T') (xs @ [x]) \<and>
    (\<forall>w e s. map_of (vt_event_model T') (sc w e, sc w s) = history_count V (xs @ [x]) (w, e, s)) \<and>
    vt_historical T' = map (history_row V) (filter (historical V) (xs @ [x])) \<and> vt_achievements T' = achievements_after V x (vt_achievements T)"
proof -
  let ?w = "em_world x" and ?e = "ve_hash_many V (em_keys x)" and ?s = "message_selector V x" and ?q = "message_query V x"
  obtain n ms ns nm where t: "map_of models (sc ?w ?s) = Some (Struct n ms)" "conforms (Struct n ms) (em_value x)" "dt_name D (em_value x) = n"
    "split_once (CHR ''-'') n = Some (ns, nm)" "tag_parts V x = (ns, nm)" using message_model[OF ok] by metis
  obtain ms' where v: "em_value x = Struct n ms'" using t(2) by (auto split: ty.splits)
  have q: "vq_entity_id ?q = sc ?w ?e" "vq_model_id ?q = sc ?w ?s" "vq_is_historical ?q = historical V x" "vq_ty ?q = em_value x"
    by (simp_all add: message_query_def store_of parts Let_def)
  have ra: "readable_table (tx_u256 X) (et_aggregations (vt_store T))" and mh: "messages_hold (vt_event_messages T) xs"
    using inv by (simp_all add: events_inv_def store_inv_def)
  note inv' = inv[unfolded events_inv_def store_inv_def]
  obtain r where r: "upsert_event_message ?q T = (Inr r, T\<lparr>vt_event_messages := al_insert (sc ?w ?e) r (vt_event_messages T)\<rparr>)" "row_ok ?w ?e r"
    "er_event_id r = em_event x" "messages_hold (al_insert (sc ?w ?e) r (vt_event_messages T)) (xs @ [x])" using messages_upserted[OF mh, of x] by blast
  have c: "event_counter ?q (T\<lparr>vt_event_messages := es\<rparr>) = (case history_count V xs (message_key V x) of None \<Rightarrow> 0 | Some k \<Rightarrow> k)" for es
    using inv' by (simp add: event_counter_def q message_key_def)
  have h: "store_event_history V ?q T' = (Inr (), T'\<lparr>vt_historical := vt_historical T' @ [history_row V x]\<rparr>)" for T'
    using json_values[OF t(2)] by (auto simp: store_event_history_def history_row_def message_query_def sc_split store_of parts Let_def)
  obtain es A where ag: "update_aggregations D (tx_json X) (tx_u256 X) (get_aggregator_for_model (ee_aggregators E) (dt_name D (em_value x))) (em_value x) (sc ?w ?s)
      (et_aggregations (vt_store T)) = (Some es, A)" "readable_table (tx_u256 X) A" using aggregations_run[OF t(1,2) ra] by blast
  obtain ps B where ac: "event_achievements V ns nm ?q (vt_achievements T) = (ps, B)" by (cases "event_achievements V ns nm ?q (vt_achievements T)")
  obtain u where u: "to_entity_update (tx_felt X) r (em_value x) None False = Some u" "view u = message_view V x"
    using update_made[OF r(2), of n ms' None False] by (auto simp: v r(3) message_view_def)
  define k where "k = (case history_count V xs (message_key V x) of None \<Rightarrow> 0 | Some k \<Rightarrow> k) + (if historical V x then 1 else 0)"
  define T' where "T' = T\<lparr>vt_event_messages := al_insert (sc ?w ?e) r (vt_event_messages T),
     vt_historical := vt_historical T @ (if historical V x then [history_row V x] else []), vt_event_model := al_insert (sc ?w ?e, sc ?w ?s) k (vt_event_model T),
     vt_store := (vt_store T)\<lparr>et_aggregations := A\<rparr>, vt_achievements := B\<rparr>"
  have "event_message_query V ?q T = (Inr (map ProgressionUpdated ps @ map EventAggregation es @ [EventMessageUpdated u]), T')"
    unfolding event_message_query_def and_then_def r(1)
    by (cases "historical V x") (simp_all add: q c h ret_def store_of parts t(3,4) event_aggregations_def ag(1)[unfolded t(3)] ac u(1) k_def T'_def Let_def)
  moreover have "store_inv (vt_store T') m (latest (message_key V) em_value xs)" using inv' ag(2) by (simp add: store_inv_def T'_def)
  moreover have "map_of (vt_event_model T') (sc w e, sc w s) = history_count V (xs @ [x]) (w, e, s)" for w e s
    using inv' by (auto simp: T'_def history_count_snoc k_def message_key_def)
  moreover have "vt_achievements T' = achievements_after V x (vt_achievements T)" by (simp add: T'_def achievements_after_def t(5) ac)
  ultimately show ?thesis using inv' u(2) r(4) by (simp add: T'_def)
qed

lemma message_step:
  assumes inv: "events_inv T m xs" and ok: "message_ok X models V x"
  shows "\<exists>os T'. run_event_statements V (message_statements V x) T = ((os, True), T') \<and> message_views os = [message_view V x] \<and>
    events_inv T' m (xs @ [x]) \<and> vt_achievements T' = achievements_after V x (vt_achievements T)"
proof -
  let ?w = "em_world x" and ?e = "ve_hash_many V (em_keys x)" and ?s = "message_selector V x"
  obtain n ms ns nm where t: "map_of models (sc ?w ?s) = Some (Struct n ms)" "conforms (Struct n ms) (em_value x)"
    "distinct (internal_columns @ collect_columns [] (Struct n ms))" "dt_name D (em_value x) = n" "split_once (CHR ''-'') n = Some (ns, nm)" "tag_parts V x = (ns, nm)"
    using message_model[OF ok] by metis
  obtain cs where cs: "entity_columns D (tx_json X) (ee_time E (em_time x)) (ee_now E) (em_event x) (''event:'' @ sc ?w ?e) (em_value x) = Inr cs"
    "snd (hd cs) = ''event:'' @ sc ?w ?e" "\<And>old. holds_value D X (ee_store E n) (set_cells (ee_store E n) cs old) (em_value x)"
    using upsert_holds[of n ms "em_value x"] model_ok[OF t(1)] t(2,3) by (metis ty.inject(2))
  have st: "message_statements V x = [EventMessage (message_query V x), EventModel n cs]"
    using cs(1) t(4-6) by (simp add: message_statements_def set_event_message_def message_query_def message_selector_def historical_def store_of parts Let_def)
  obtain os T' where q: "event_message_query V (message_query V x) T = (Inr os, T')" "message_views os = [message_view V x]"
    "et_rows (vt_store T') = et_rows (vt_store T)" "store_inv (vt_store T') m (latest (message_key V) em_value xs)" "messages_hold (vt_event_messages T') (xs @ [x])"
    "\<And>w e s. map_of (vt_event_model T') (sc w e, sc w s) = history_count V (xs @ [x]) (w, e, s)"
    "vt_historical T' = map (history_row V) (filter (historical V) (xs @ [x]))" "vt_achievements T' = achievements_after V x (vt_achievements T)"
    using message_runs[OF assms] by blast
  let ?rs = "et_rows (vt_store T')"
  have rh: "rows_hold ''event:'' ?rs (latest (message_key V) em_value xs)" "rows_hold [] ?rs m" using q(4) by (simp_all add: store_inv_def)
  obtain rows where rows: "map_of ?rs (dt_name D (Struct n ms)) = Some rows" using rh(1) t(1) unfolding rows_hold_def by blast
  have e: "rows_hold ''event:'' (al_insert n (upsert_entity (ee_store E n) cs rows) ?rs) (latest (message_key V) em_value (xs @ [x]))"
    using stored_rows[OF rh(1) t(1,2) rows, of cs ?e] by (simp add: ty_name cs(2,3) message_key_def)
  have o: "rows_hold [] (al_insert n (upsert_entity (ee_store E n) cs rows) ?rs) m"
    using other_rows[OF rh(2) rows upsert_elsewhere[of cs]] event_row_apart by (simp add: ty_name cs(2))
  have "run_event_statements V (message_statements V x) T =
      ((os, True), T'\<lparr>vt_store := (vt_store T')\<lparr>et_rows := al_insert n (upsert_entity (ee_store E n) cs rows) ?rs\<rparr>\<rparr>)"
    unfolding st using q(1) rows by (simp add: run_event_statement_def and_then_def on_store_def store_model_def ret_def ty_name store_of)
  then show ?thesis using q(2,4-8) o e by (auto simp: events_inv_def store_inv_def)
qed

text \<open>Entities and event messages in any order.\<close>

lemma entity_step:
  assumes "events_inv T m xs" and "op_ok X D models op"
  shows "\<exists>us S. run_entity_statements E (op_statements E op) (vt_store T) = ((us, True), S) \<and> entity_views us = spec_update D op m \<and>
    events_inv (T\<lparr>vt_store := S\<rparr>) (spec_step op m) xs"
proof -
  obtain us S where "run_entity_statements E (op_statements E op) (vt_store T) = ((us, True), S)" "entity_views us = spec_update D op m"
    "store_inv S (spec_step op m) (latest (message_key V) em_value xs)" using op_step[OF _ assms(2)] assms(1) unfolding events_inv_def by blast
  then show ?thesis using assms(1) by (intro exI[of _ us] exI[of _ S]) (simp add: events_inv_def)
qed

lemma steps_run:
  "events_inv T m xs \<Longrightarrow> list_all (step_ok X D models V) ys \<Longrightarrow>
   \<exists>us os T'. run_steps V ys T = ((us, os, True), T') \<and> entity_views us = fst (spec_run D (entity_steps ys) m) \<and>
     message_views os = map (message_view V) (message_steps ys) \<and> events_inv T' (snd (spec_run D (entity_steps ys) m)) (xs @ message_steps ys) \<and>
     vt_achievements T' = fold (achievements_after V) (message_steps ys) (vt_achievements T)"
proof (induction ys arbitrary: T m xs rule: entity_steps.induct)
  case (2 op ys)
  obtain us S where s: "run_entity_statements E (op_statements E op) (vt_store T) = ((us, True), S)" "entity_views us = spec_update D op m"
    "events_inv (T\<lparr>vt_store := S\<rparr>) (spec_step op m) xs" using entity_step[OF 2(2), of op] 2(3) by auto
  obtain us' os T' where "run_steps V ys (T\<lparr>vt_store := S\<rparr>) = ((us', os, True), T')" "entity_views us' = fst (spec_run D (entity_steps ys) (spec_step op m))"
    "message_views os = map (message_view V) (message_steps ys)" "events_inv T' (snd (spec_run D (entity_steps ys) (spec_step op m))) (xs @ message_steps ys)"
    "vt_achievements T' = fold (achievements_after V) (message_steps ys) (vt_achievements T)" using 2(1)[OF s(3)] 2(3) by auto
  then show ?case using s(1,2) by (simp add: store_of case_prod_unfold)
next
  case (3 x ys)
  obtain os T1 where s: "run_event_statements V (message_statements V x) T = ((os, True), T1)" "message_views os = [message_view V x]"
    "events_inv T1 m (xs @ [x])" "vt_achievements T1 = achievements_after V x (vt_achievements T)" using message_step[OF 3(2), of x] 3(3) by auto
  obtain us os' T' where "run_steps V ys T1 = ((us, os', True), T')" "entity_views us = fst (spec_run D (entity_steps ys) m)"
    "message_views os' = map (message_view V) (message_steps ys)" "events_inv T' (snd (spec_run D (entity_steps ys) m)) ((xs @ [x]) @ message_steps ys)"
    "vt_achievements T' = fold (achievements_after V) (message_steps ys) (vt_achievements T1)" using 3(1)[OF s(3)] 3(3) by auto
  then show ?case using s by simp
qed simp

lemma nothing_stored: "events_inv (no_messages (empty_tables D models) A) Map.empty []"
  using empty_inv by (simp add: events_inv_def no_messages_def messages_hold_def history_count_def)

end

section \<open>A concrete store\<close>

definition sample_event_env :: "string event_env" where
  "sample_event_env = \<lparr>ve_store = sample_entity_env, ve_achievements = sample_achievement_env, ve_hash_many = sum_list, ve_selector = (\<lambda>_ _. 5),
     ve_registration_model = ''TrophyCreation'', ve_progression_model = ''TrophyProgression''\<rparr>"

interpretation sample_events: event_store plain_dojo plain_formats text_reader "\<lambda>_ s. s" sample_entity_env sample_models sample_event_env
  by unfold_locales (auto simp: sample_event_env_def sample_models_def sample_facts(4) split: if_splits)

section \<open>Properties\<close>

text \<open>
  C8. Entities and event messages do not disturb each other: after any sequence of entities that are stored and deleted and of event messages, in any order, the executor is
  alive. Entities are read, and were published, as if there had been no messages. For every message there is one update without a previous value; the table of its
  model holds, under \<open>event:\<close> and its identifier, the value of the latest message with these keys; its row in \<open>event_messages\<close> has the latest event; the messages of historical models are
  appended to \<open>event_messages_historical\<close> in order, and counted for every message and model; and the achievements are those that the messages register and report.
\<close>

theorem messages_and_entities_apart:
  assumes "event_store D X R aff E models V" and "list_all (step_ok X D models V) ys"
  shows "\<exists>us os T. run_steps V ys (no_messages (empty_tables D models) A) = ((us, os, True), T) \<and>
    entity_views us = fst (spec_run D (entity_steps ys) Map.empty) \<and> message_views os = map (message_view V) (message_steps ys) \<and>
    (\<forall>w e s. map_of models (format_world_scoped_id (tx_felt X) w s) \<noteq> None \<longrightarrow>
       entity_model E (format_world_scoped_id (tx_felt X) w s) (format_world_scoped_id (tx_felt X) w e) (vt_store T) =
         (Inr (snd (spec_run D (entity_steps ys) Map.empty) (w, e, s)), vt_store T) \<and>
       entity_model E (format_world_scoped_id (tx_felt X) w s) (''event:'' @ format_world_scoped_id (tx_felt X) w e) (vt_store T) =
         (Inr (latest (message_key V) em_value (message_steps ys) (w, e, s)), vt_store T)) \<and>
    (\<forall>w e. map_option er_event_id (map_of (vt_event_messages T) (format_world_scoped_id (tx_felt X) w e)) = latest (message_entity V) em_event (message_steps ys) (w, e)) \<and>
    (\<forall>w e s. map_of (vt_event_model T) (format_world_scoped_id (tx_felt X) w e, format_world_scoped_id (tx_felt X) w s) = history_count V (message_steps ys) (w, e, s)) \<and>
    vt_historical T = map (history_row V) (filter (historical V) (message_steps ys)) \<and>
    vt_achievements T = fold (achievements_after V) (message_steps ys) A"
proof -
  have s: "entity_store D X R aff E models" using assms(1) by (rule event_store.axioms(1))
  obtain us os T where r: "run_steps V ys (no_messages (empty_tables D models) A) = ((us, os, True), T)" "entity_views us = fst (spec_run D (entity_steps ys) Map.empty)"
    "message_views os = map (message_view V) (message_steps ys)" "vt_achievements T = fold (achievements_after V) (message_steps ys) A"
    "event_store.events_inv D X E models V T (snd (spec_run D (entity_steps ys) Map.empty)) (message_steps ys)"
    using event_store.steps_run[OF assms(1) event_store.nothing_stored[OF assms(1), of A] assms(2)] by (auto simp: no_messages_def)
  note inv = r(5)[unfolded event_store.events_inv_def[OF assms(1)]]
  note st = conjunct1[OF inv, unfolded entity_store.store_inv_def[OF s]]
  have reads: "entity_model E (format_world_scoped_id (tx_felt X) w s') (p @ format_world_scoped_id (tx_felt X) w e) (vt_store T) = (Inr (m (w, e, s')), vt_store T)"
    if "map_of models (format_world_scoped_id (tx_felt X) w s') \<noteq> None" "entity_store.rows_hold D X E models p (et_rows (vt_store T)) m" for p m w e s'
    using that entity_store.model_reads[OF s conjunct1[OF st] that(2)] by blast
  have mess: "map_option er_event_id (map_of (vt_event_messages T) (format_world_scoped_id (tx_felt X) w e)) = latest (message_entity V) em_event (message_steps ys) (w, e)" for w e
    using conjunct1[OF conjunct2[OF inv], unfolded event_store.messages_hold_def[OF assms(1)], rule_format, of w e]
    by (auto simp: latest_def split: option.splits)
  show ?thesis using r(1-4) st inv mess reads[of _ _ "[]"] reads[of _ _ "''event:''"] by (intro exI[of _ us] exI[of _ os] exI[of _ T]) simp
qed

definition sample_message :: "string \<Rightarrow> event_message" where
  "sample_message event = \<lparr>em_world = 2, em_value = sample_unit, em_event = event, em_time = 1, em_keys = [4, 5]\<rparr>"

lemma sample_message_facts:
  "message_selector sample_event_env (sample_message ev) = 5" "message_key sample_event_env (sample_message ev) = (2, 9, 5)"
  "message_entity sample_event_env (sample_message ev) = (2, 9)" "historical sample_event_env (sample_message ev)"
  "message_ok plain_formats sample_models sample_event_env (sample_message ev)"
  using sample_facts(2)
  by (simp_all add: message_selector_def message_key_def message_entity_def historical_def message_ok_def sample_message_def sample_event_env_def
      sample_entity_env_def sample_models_def formats_parts split: prod.split)

theorem messages_and_entities_apart_witness:
  "\<exists>us os T. run_steps sample_event_env [MessageStep (sample_message ''e1''), EntityStep (SetOp 2 9 5 sample_unit ''e2'' 0 None), MessageStep (sample_message ''e3''),
        EntityStep (DeleteOp 2 9 5 sample_schema ''e4'' 2)] (no_messages (empty_tables plain_dojo sample_models) no_achievements) = ((us, os, True), T) \<and>
     length (entity_views us) = 2 \<and> length (message_views os) = 2 \<and>
     entity_model sample_entity_env (format_world_scoped_id hex_text 2 5) (format_world_scoped_id hex_text 2 9) (vt_store T) = (Inr None, vt_store T) \<and>
     entity_model sample_entity_env (format_world_scoped_id hex_text 2 5) (''event:'' @ format_world_scoped_id hex_text 2 9) (vt_store T) = (Inr (Some sample_unit), vt_store T) \<and>
     map_option er_event_id (map_of (vt_event_messages T) (format_world_scoped_id hex_text 2 9)) = Some ''e3'' \<and>
     map_of (vt_event_model T) (format_world_scoped_id hex_text 2 9, format_world_scoped_id hex_text 2 5) = Some 2 \<and>
     map hr_event_id (vt_historical T) = [''e1'', ''e3'']"
proof -
  let ?ys = "[MessageStep (sample_message ''e1''), EntityStep (SetOp 2 9 5 sample_unit ''e2'' 0 None), MessageStep (sample_message ''e3''),
      EntityStep (DeleteOp 2 9 5 sample_schema ''e4'' 2)]"
  have models: "map_of sample_models (format_world_scoped_id hex_text 2 5) = Some sample_schema" by (simp add: sample_models_def)
  have ok: "list_all (step_ok plain_formats plain_dojo sample_models sample_event_env) ?ys"
    by (simp add: op_ok_def formats_parts models sample_facts(2) sample_message_facts)
  have l: "latest (message_key sample_event_env) em_value (message_steps ?ys) (2, 9, 5) = Some sample_unit"
    "latest (message_entity sample_event_env) em_event (message_steps ?ys) (2, 9) = Some ''e3''" "history_count sample_event_env (message_steps ?ys) (2, 9, 5) = Some 2"
    "map hr_event_id (map (history_row sample_event_env) (filter (historical sample_event_env) (message_steps ?ys))) = [''e1'', ''e3'']"
    by (simp_all add: latest_def history_count_def history_row_def sample_message_facts) (simp_all add: sample_message_def Let_def)
  have m: "snd (spec_run plain_dojo (entity_steps ?ys) Map.empty) (2, 9, 5) = None" "length (fst (spec_run plain_dojo (entity_steps ?ys) Map.empty)) = 2"
    by (simp_all split: option.split)
  obtain us os T where run: "run_steps sample_event_env ?ys (no_messages (empty_tables plain_dojo sample_models) no_achievements) = ((us, os, True), T)"
    and r: "entity_views us = fst (spec_run plain_dojo (entity_steps ?ys) Map.empty)" "message_views os = map (message_view sample_event_env) (message_steps ?ys)"
      "\<And>w e s. map_of sample_models (format_world_scoped_id hex_text w s) \<noteq> None \<Longrightarrow>
         entity_model sample_entity_env (format_world_scoped_id hex_text w s) (format_world_scoped_id hex_text w e) (vt_store T) =
           (Inr (snd (spec_run plain_dojo (entity_steps ?ys) Map.empty) (w, e, s)), vt_store T) \<and>
         entity_model sample_entity_env (format_world_scoped_id hex_text w s) (''event:'' @ format_world_scoped_id hex_text w e) (vt_store T) =
           (Inr (latest (message_key sample_event_env) em_value (message_steps ?ys) (w, e, s)), vt_store T)"
      "\<And>w e. map_option er_event_id (map_of (vt_event_messages T) (format_world_scoped_id hex_text w e)) =
         latest (message_entity sample_event_env) em_event (message_steps ?ys) (w, e)"
      "\<And>w e s. map_of (vt_event_model T) (format_world_scoped_id hex_text w e, format_world_scoped_id hex_text w s) =
         history_count sample_event_env (message_steps ?ys) (w, e, s)"
      "vt_historical T = map (history_row sample_event_env) (filter (historical sample_event_env) (message_steps ?ys))"
    using messages_and_entities_apart[OF sample_events.event_store_axioms ok, of no_achievements] unfolding formats_parts by blast
  have "map hr_event_id (vt_historical T) = [''e1'', ''e3'']" using l(4) unfolding r(6) .
  then show ?thesis using run r(3)[of 2 5 9] r(4)[of 2 9] r(5)[of 2 9 5] models unfolding l m
    by (intro exI[of _ us] exI[of _ os] exI[of _ T]) (simp add: r(1,2) m)
qed

end
