(* ===== verification/MessagingSpec.thy ===== *)
theory MessagingSpec
  imports Messaging EventMessageSpec "HOL-Library.Sublist"
begin

text \<open>
  What the handling of messages, one after the other, promises: an entity is only replaced by a message with a signature of the account that owned it, and a message with a
  time is accepted once.
\<close>

section \<open>Requests\<close>

record request =
  rq_surroundings :: surroundings
  rq_world :: felt
  rq_message :: typed_data
  rq_signature :: "felt list"

fun handle_all :: "'s messaging_env \<Rightarrow> request list \<Rightarrow> 's \<Rightarrow> request list \<times> 's" where
  "handle_all G [] s = ([], s)"
| "handle_all G (rq # rqs) s =
     (case validate_and_set_entity G (rq_surroundings rq) (rq_world rq) (rq_message rq) (rq_signature rq) s of
        (Inl e, s') \<Rightarrow> handle_all G rqs s'
      | (Inr _, s') \<Rightarrow> (case handle_all G rqs s' of (log, s'') \<Rightarrow> (rq # log, s'')))"

type_synonym schemas = "felt \<Rightarrow> felt \<Rightarrow> string + ty"

definition parsed :: "'s messaging_env \<Rightarrow> 's \<Rightarrow> request \<Rightarrow> ty" where
  "parsed G s rq = projr (validate_message G (rq_world rq) (rq_message rq) s)"

definition message_target :: "'s messaging_env \<Rightarrow> 's \<Rightarrow> request \<Rightarrow> felt \<times> felt \<times> felt" where
  "message_target G s rq =
     (rq_world rq, mt_hash_many (me_types G) (projr (keys_of (me_types G) (parsed G s rq))), projr (model_id_of (me_types G) (parsed G s rq)))"

definition message_time :: "'s messaging_env \<Rightarrow> 's \<Rightarrow> request \<Rightarrow> u64 option" where
  "message_time G s rq = get_timestamp_from_ty (me_types G) (parsed G s rq)"

section \<open>Specification\<close>

text \<open>The owner of an entity signs its next value; the first value is signed by the owner it names.\<close>

definition signed_by_owner :: "'s messaging_env \<Rightarrow> 's \<Rightarrow> entity_map \<Rightarrow> request \<Rightarrow> bool" where
  "signed_by_owner G s m rq =
     (case get_identity_from_ty (me_types G) (case m (message_target G s rq) of None \<Rightarrow> parsed G s rq | Some v \<Rightarrow> v) of
        Inl e \<Rightarrow> False
      | Inr owner \<Rightarrow> validate_signature (me_types G) (rq_surroundings rq) owner (rq_message rq) (rq_signature rq) = Inr True)"

definition newer :: "u64 option \<Rightarrow> u64 option \<Rightarrow> bool" where
  "newer old new = (case old of None \<Rightarrow> True | Some a \<Rightarrow> (case new of None \<Rightarrow> False | Some b \<Rightarrow> a < b))"

fun justified :: "'s messaging_env \<Rightarrow> 's \<Rightarrow> entity_map \<Rightarrow> request list \<Rightarrow> bool" where
  "justified G s m [] = True"
| "justified G s m (rq # log) =
     (signed_by_owner G s m rq \<and>
      newer (Option.bind (m (message_target G s rq)) (get_timestamp_from_ty (me_types G))) (message_time G s rq) \<and>
      justified G s (m(message_target G s rq \<mapsto> parsed G s rq)) log)"

definition apply_log :: "'s messaging_env \<Rightarrow> 's \<Rightarrow> request list \<Rightarrow> entity_map \<Rightarrow> entity_map" where
  "apply_log G s = fold (\<lambda>rq m. m(message_target G s rq \<mapsto> parsed G s rq))"

lemma apply_log_simps [simp]:
  "apply_log G s [] m = m" "apply_log G s (rq # log) m = apply_log G s log (m(message_target G s rq \<mapsto> parsed G s rq))"
  by (simp_all add: apply_log_def)

definition letter :: "request \<Rightarrow> felt \<times> typed_data" where
  "letter rq = (rq_world rq, rq_message rq)"

lemma newer_trans: "newer a b \<Longrightarrow> newer b c \<Longrightarrow> newer a c"
  by (auto simp: newer_def split: option.splits)

lemma parsed_letter: "letter rq = letter rq' \<Longrightarrow> parsed G s rq = parsed G s rq' \<and> message_target G s rq = message_target G s rq'"
  by (simp add: letter_def parsed_def message_target_def)

text \<open>So a message with a time is not accepted again.\<close>

lemma justified_newer:
  "justified G s m log \<Longrightarrow> rq \<in> set log \<Longrightarrow> newer (Option.bind (m (message_target G s rq)) (get_timestamp_from_ty (me_types G))) (message_time G s rq)"
proof (induction log arbitrary: m)
  case (Cons r log)
  show ?case
  proof (cases "rq = r")
    case False
    let ?m = "m(message_target G s r \<mapsto> parsed G s r)"
    have "newer (Option.bind (?m (message_target G s rq)) (get_timestamp_from_ty (me_types G))) (message_time G s rq)"
      by (rule Cons.IH[of ?m]) (use Cons.prems False in \<open>simp_all del: fun_upd_apply\<close>)
    then show ?thesis using Cons.prems(1) newer_trans
      by (cases "message_target G s rq = message_target G s r") (auto simp: message_time_def)
  qed (use Cons in simp)
qed simp

lemma no_replay: "justified G s m log \<Longrightarrow> distinct (map letter (filter (\<lambda>rq. message_time G s rq \<noteq> None) log))"
proof (induction log arbitrary: m)
  case (Cons r log)
  let ?m = "m(message_target G s r \<mapsto> parsed G s r)"
  have "letter r \<noteq> letter rq" if "rq \<in> set log" "message_time G s r \<noteq> None" for rq
  proof
    assume "letter r = letter rq"
    then have "newer (message_time G s r) (message_time G s r)"
      using justified_newer[of G s ?m log rq] Cons.prems that(1) parsed_letter[of r rq G s] by (simp add: message_time_def)
    then show False using that(2) by (auto simp: newer_def)
  qed
  then show ?case using Cons by auto
qed simp

text \<open>Only the schemas of the state matter for how a message is read.\<close>

lemma read_same:
  assumes "\<And>w msg. validate_message G w msg s' = validate_message G w msg s"
  shows "parsed G s' rq = parsed G s rq" "message_target G s' rq = message_target G s rq" "message_time G s' rq = message_time G s rq"
    "signed_by_owner G s' m rq = signed_by_owner G s m rq"
proof -
  have p: "parsed G s' = parsed G s" using assms by (simp add: parsed_def fun_eq_iff)
  show "parsed G s' rq = parsed G s rq" "message_target G s' rq = message_target G s rq" "message_time G s' rq = message_time G s rq"
    "signed_by_owner G s' m rq = signed_by_owner G s m rq"
    unfolding message_target_def message_time_def signed_by_owner_def p by (rule refl)+
qed

lemma log_same:
  assumes "\<And>w msg. validate_message G w msg s' = validate_message G w msg s"
  shows "justified G s' m log = justified G s m log" "apply_log G s' log = apply_log G s log"
  by (induction log arbitrary: m) (simp_all add: read_same[OF assms] apply_log_def)

section \<open>What messages need of the storage\<close>

locale message_store =
  fixes S :: "'s storage_ops" and ok :: "'s \<Rightarrow> bool" and fits :: "felt \<Rightarrow> felt \<Rightarrow> ty \<Rightarrow> bool" and stored :: "'s \<Rightarrow> entity_map"
  assumes reads: "ok s \<Longrightarrow> so_entity_model S w e m s = Inr x \<Longrightarrow> x = stored s (w, e, m)"
    and writes: "ok s \<Longrightarrow> fits w m t \<Longrightarrow> \<exists>s'. so_set_entity S w t ev ts e m keys s = (Inr (), s') \<and> ok s' \<and> stored s' = (stored s)((w, e, m) \<mapsto> t) \<and>
      (\<forall>w x. so_model S w x s' = so_model S w x s)"
    and executes: "ok s \<Longrightarrow> so_execute S s = (Inr (), s)"
begin

definition fitting :: "'s messaging_env \<Rightarrow> 's \<Rightarrow> request \<Rightarrow> bool" where
  "fitting G s rq \<longleftrightarrow> (\<forall>t i. validate_message G (rq_world rq) (rq_message rq) s = Inr t \<longrightarrow> model_id_of (me_types G) t = Inr i \<longrightarrow> fits (rq_world rq) i t)"

lemma same_schemas:
  assumes "me_storage G = S" "\<forall>w x. so_model S w x s' = so_model S w x s"
  shows "validate_message G w msg s' = validate_message G w msg s"
  using assms by (simp add: validate_message_def Let_def split: option.split)

lemma handled:
  assumes G: "me_storage G = S" and "ok s" "fitting G s rq"
    and r: "validate_and_set_entity G (rq_surroundings rq) (rq_world rq) (rq_message rq) (rq_signature rq) s = (r, s')"
  shows "case r of Inl e \<Rightarrow> s' = s
    | Inr _ \<Rightarrow> ok s' \<and> stored s' = (stored s)(message_target G s rq \<mapsto> parsed G s rq) \<and> (\<forall>w x. so_model S w x s' = so_model S w x s) \<and> justified G s (stored s) [rq]"
proof (cases "validate G (rq_surroundings rq) (rq_world rq) (rq_message rq) (rq_signature rq) s")
  case (Inl e)
  then show ?thesis using r by (auto simp: validate_and_set_entity_def)
next
  case (Inr v)
  let ?M = "me_types G"
  obtain t keys i em owner where v: "validate_message G (rq_world rq) (rq_message rq) s = Inr t" "keys_of ?M t = Inr keys" "model_id_of ?M t = Inr i"
    "so_entity_model S (rq_world rq) (mt_hash_many ?M keys) i s = Inr em" "get_identity_from_ty ?M (case em of None \<Rightarrow> t | Some m \<Rightarrow> m) = Inr owner"
    "check_entity_time (Option.bind em (get_timestamp_from_ty ?M)) (get_timestamp_from_ty ?M t) = Inr ()"
    "validate_signature ?M (rq_surroundings rq) owner (rq_message rq) (rq_signature rq) = Inr True" "v = (t, keys, mt_hash_many ?M keys, i)"
    using Inr G by (auto simp: validate_def bind_ok_def checked_def Let_def map_sum_def split: sum.splits if_splits)
  have em: "em = stored s (rq_world rq, mt_hash_many ?M keys, i)" using reads[OF assms(2) v(4)] .
  have p: "parsed G s rq = t" "message_target G s rq = (rq_world rq, mt_hash_many ?M keys, i)" using v(1-3) by (simp_all add: parsed_def message_target_def)
  have j: "justified G s (stored s) [rq]"
    using v(5-7) by (auto simp: signed_by_owner_def p em[symmetric] newer_def message_time_def check_entity_time_def split: option.splits if_splits)
  have "fits (rq_world rq) i t" using assms(3) v(1,3) by (simp add: fitting_def)
  then obtain s1 where s1: "so_set_entity S (rq_world rq) t (hex_padded 64 ts) ts (mt_hash_many ?M keys) i (Some keys) s = (Inr (), s1)" "ok s1"
    "stored s1 = (stored s)((rq_world rq, mt_hash_many ?M keys, i) \<mapsto> t)" "\<forall>w x. so_model S w x s1 = so_model S w x s"
    if "ts = (case get_timestamp_from_ty ?M t of Some ts \<Rightarrow> ts | None \<Rightarrow> su_now_secs (rq_surroundings rq))" for ts
    using writes[OF assms(2)] by metis
  have "r = Inr (format_world_scoped_id (mt_felt ?M) (rq_world rq) (mt_hash_many ?M keys)) \<and> s' = s1"
    using r s1(1)[OF refl] executes[OF s1(2)[OF refl]] by (simp add: validate_and_set_entity_def set_message_entity_def Inr v(8) G)
  then show ?thesis using s1(2-4)[OF refl] j p by simp
qed

lemma all_handled:
  "me_storage G = S \<Longrightarrow> ok s \<Longrightarrow> \<forall>rq\<in>set rqs. fitting G s rq \<Longrightarrow>
   \<exists>log s'. handle_all G rqs s = (log, s') \<and> ok s' \<and> stored s' = apply_log G s log (stored s) \<and> justified G s (stored s) log"
proof (induction rqs arbitrary: s)
  case Nil
  then show ?case by simp
next
  case (Cons rq rqs)
  obtain r s1 where r: "validate_and_set_entity G (rq_surroundings rq) (rq_world rq) (rq_message rq) (rq_signature rq) s = (r, s1)"
    by (cases "validate_and_set_entity G (rq_surroundings rq) (rq_world rq) (rq_message rq) (rq_signature rq) s")
  have h: "case r of Inl e \<Rightarrow> s1 = s
    | Inr _ \<Rightarrow> ok s1 \<and> stored s1 = (stored s)(message_target G s rq \<mapsto> parsed G s rq) \<and> (\<forall>w x. so_model S w x s1 = so_model S w x s) \<and> justified G s (stored s) [rq]"
    using handled[OF Cons.prems(1,2) _ r] Cons.prems(3) by simp
  show ?case
  proof (cases r)
    case (Inl e)
    then show ?thesis using r h Cons.IH[OF Cons.prems(1,2)] Cons.prems(3) by simp
  next
    case (Inr i)
    have same: "validate_message G w msg s1 = validate_message G w msg s" for w msg using same_schemas[OF Cons.prems(1)] h Inr by simp
    have ok1: "ok s1" using h Inr by simp
    have f: "\<forall>rq\<in>set rqs. fitting G s1 rq" using Cons.prems(3) by (simp add: fitting_def same)
    obtain log s2 where l: "handle_all G rqs s1 = (log, s2)" "ok s2" "stored s2 = apply_log G s1 log (stored s1)" "justified G s1 (stored s1) log"
      using Cons.IH[OF Cons.prems(1) ok1 f] by blast
    then show ?thesis using r Inr h by (simp add: log_same[OF same] del: fun_upd_apply)
  qed
qed

end

lemma accepted_are_requests: "subseq (fst (handle_all G rqs s)) rqs"
proof (induction rqs arbitrary: s)
  case (Cons rq rqs)
  then show ?case by (auto simp: case_prod_unfold intro: list_emb_Cons split: sum.split)
qed simp

section \<open>The SQLite storage\<close>

context entity_store
begin

definition message_ok_state :: "'c entity_tables \<times> bool \<Rightarrow> bool" where
  "message_ok_state s \<longleftrightarrow> snd s \<and> (\<exists>m g. store_inv (fst s) m g)"

definition message_fits :: "felt \<Rightarrow> felt \<Rightarrow> ty \<Rightarrow> bool" where
  "message_fits w i t = (case map_of models (sc w i) of None \<Rightarrow> False | Some schema \<Rightarrow> conforms schema t)"

definition message_stored :: "'c entity_tables \<times> bool \<Rightarrow> entity_map" where
  "message_stored s = (\<lambda>(w, e, i). case storage_entity_model E w e i s of Inr x \<Rightarrow> x | Inl _ \<Rightarrow> None)"

lemma stored_is:
  assumes "store_inv T m g"
  shows "message_stored (T, a) = m"
proof -
  have T: "et_models T = models" "rows_hold [] (et_rows T) m" "\<And>w e i. m (w, e, i) \<noteq> None \<Longrightarrow> map_of models (sc w i) \<noteq> None" using assms by (auto simp: store_inv_def)
  have "message_stored (T, a) (w, e, i) = m (w, e, i)" for w e i
  proof (cases "map_of models (sc w i)")
    case None
    then have "m (w, e, i) = None" using T(3) by blast
    then show ?thesis using T(1) None by (simp add: message_stored_def storage_entity_model_def entity_model_def parts)
  next
    case (Some t)
    then show ?thesis using model_reads[OF T(1,2) Some, of e] by (simp add: message_stored_def storage_entity_model_def parts)
  qed
  then show ?thesis by (simp add: fun_eq_iff)
qed

lemma stored_reads:
  assumes "store_inv T m g" "map_of models (sc w i) \<noteq> None"
  shows "storage_entity_model E w e i (T, a) = Inr (m (w, e, i))"
  using assms model_reads[of T "[]" m w i _ e] by (auto simp: storage_entity_model_def parts store_inv_def)

lemma stored_after:
  assumes "store_inv T m g" "message_fits w i t"
  shows "\<exists>T'. storage_set_entity E w t ev ts e i keys (T, True) = (Inr (), (T', True)) \<and> store_inv T' (m((w, e, i) \<mapsto> t)) g"
proof -
  have op: "op_ok X D models (SetOp w e i t ev ts keys)" using assms(2) by (simp add: op_ok_def message_fits_def)
  obtain us T' where r: "run_entity_statements E (fst (set_entity E w t ev ts e i keys)) T = ((us, True), T')" "store_inv T' (m((w, e, i) \<mapsto> t)) g"
    using set_step[OF assms(1) op] by auto
  obtain n ms where n: "map_of models (sc w i) = Some (Struct n ms)" "conforms (Struct n ms) t" "distinct (internal_columns @ collect_columns [] (Struct n ms))"
    using assms(2) model_ok[of "sc w i"] by (auto simp: message_fits_def simp del: conforms.simps split: option.splits)
  obtain cs where "entity_columns D (tx_json X) (ee_time E ts) (ee_now E) ev (sc w e) t = Inr cs"
    using upsert_holds[of n ms t] model_ok[OF n(1)] n(2,3) by (metis ty.inject(2))
  then have "snd (set_entity E w t ev ts e i keys) = Inr ()" by (simp add: set_entity_def parts Let_def)
  then show ?thesis using r by (intro exI[of _ T']) (simp add: storage_set_entity_def case_prod_unfold)
qed

end

sublocale entity_store \<subseteq> messages: message_store "sql_storage E" message_ok_state message_fits message_stored
proof
  fix s w e m x
  show "so_entity_model (sql_storage E) w e m s = Inr x \<Longrightarrow> x = message_stored s (w, e, m)" by (simp add: sql_storage_def message_stored_def)
next
  fix s w i t ev ts e keys
  assume "message_ok_state s" and f: "message_fits w i t"
  then obtain T m g where s: "s = (T, True)" "store_inv T m g" by (cases s) (auto simp: message_ok_state_def)
  obtain T' where T': "storage_set_entity E w t ev ts e i keys (T, True) = (Inr (), (T', True))" "store_inv T' (m((w, e, i) \<mapsto> t)) g"
    using stored_after[OF s(2) f] by blast
  have "message_stored (T', True) = (message_stored (T, True))((w, e, i) \<mapsto> t)"
    by (simp only: stored_is[OF s(2)] stored_is[OF T'(2)])
  moreover have "et_models T' = et_models T" using s(2) T'(2) by (simp add: store_inv_def)
  ultimately show "\<exists>s'. so_set_entity (sql_storage E) w t ev ts e i keys s = (Inr (), s') \<and> message_ok_state s' \<and>
      message_stored s' = (message_stored s)((w, e, i) \<mapsto> t) \<and> (\<forall>w x. so_model (sql_storage E) w x s' = so_model (sql_storage E) w x s)"
    using T' by (intro exI[of _ "(T', True)"]) (auto simp: s(1) sql_storage_def message_ok_state_def storage_model_def)
next
  fix s
  show "message_ok_state s \<Longrightarrow> so_execute (sql_storage E) s = (Inr (), s)" by (simp add: sql_storage_def storage_execute_def message_ok_state_def)
qed

context entity_store
begin

lemma messages_handled:
  assumes "store_inv T m g" and "me_storage G = sql_storage E"
    and "\<forall>rq\<in>set rqs. \<forall>t i. validate_message G (rq_world rq) (rq_message rq) (T, True) = Inr t \<longrightarrow> model_id_of (me_types G) t = Inr i \<longrightarrow> message_fits (rq_world rq) i t"
  shows "\<exists>log T' g. handle_all G rqs (T, True) = (log, (T', True)) \<and> store_inv T' (apply_log G (T, True) log m) g \<and> justified G (T, True) m log"
proof -
  have ok: "message_ok_state (T, True)" using assms(1) by (auto simp: message_ok_state_def)
  obtain log s' where l: "handle_all G rqs (T, True) = (log, s')" "message_ok_state s'" "message_stored s' = apply_log G (T, True) log m" "justified G (T, True) m log"
    using messages.all_handled[OF assms(2) ok] assms(3) unfolding messages.fitting_def stored_is[OF assms(1)] by blast
  obtain T' m' g' where s': "s' = (T', True)" "store_inv T' m' g'" using l(2) unfolding message_ok_state_def by (cases s') auto
  have "m' = apply_log G (T, True) log m" using l(3) unfolding s'(1) stored_is[OF s'(2)] .
  then show ?thesis using l(1,4) s' by blast
qed

end

section \<open>A concrete service\<close>

definition profile_schema :: ty where
  "profile_schema = Struct ''ns-Profile'' [Member ''id'' (Primitive (Felt252 None)) True, Member ''identity'' (Primitive (ContractAddress None)) False,
     Member ''timestamp'' (Primitive (U64 None)) False]"

definition profile_env :: "string entity_env" where
  "profile_env = sample_entity_env\<lparr>ee_store := (\<lambda>_. table_store sample_table_env profile_schema (\<lambda>_ s. s))\<rparr>"

definition profile_models :: "(string \<times> ty) list" where
  "profile_models = [(format_world_scoped_id hex_text 2 7, profile_schema)]"

definition profile_types :: message_types where
  "profile_types = \<lparr>mt_dojo = plain_dojo, mt_felt = hex_text, mt_as_u64 = (\<lambda>p. case p of U64 x \<Rightarrow> x | _ \<Rightarrow> None), mt_as_u128 = (\<lambda>p. case p of U128 x \<Rightarrow> x | _ \<Rightarrow> None),
     mt_as_contract_address = (\<lambda>p. case p of ContractAddress x \<Rightarrow> x | _ \<Rightarrow> None), mt_get = (\<lambda>ms n. map_option mb_ty (List.find (\<lambda>m. mb_name m = n) ms)),
     mt_keys = filter mb_key, mt_serialize = (\<lambda>m. case mb_ty m of Primitive (Felt252 (Some f)) \<Rightarrow> Inr [f] | _ \<Rightarrow> Inl []),
     mt_selector_from_tag = (\<lambda>s. if s = ''ns-Profile'' then Some 7 else None), mt_hash_many = sum_list, mt_message_hash = (\<lambda>_ f. Inr f), mt_is_valid_signature = 1\<rparr>"

definition profile_service :: "(string entity_tables \<times> bool) messaging_env" where
  "profile_service = \<lparr>me_config = \<lparr>mf_max_age = 300000, mf_future_tolerance = 60000, mf_require_timestamp = False\<rparr>, me_storage = sql_storage profile_env, me_types = profile_types\<rparr>"

definition profile_request :: request where
  "profile_request = \<lparr>rq_surroundings = \<lparr>su_call = (\<lambda>_ _ _. Inr [1]), su_now_millis = 100, su_now_secs = 0\<rparr>, rq_world = 2,
     rq_message = \<lparr>td_primary_type = ''ns-Profile'', td_message = VObject [(''id'', VString ''0x5''), (''identity'', VString ''0x9''), (''timestamp'', VUnsigned 90)]\<rparr>, rq_signature = [3]\<rparr>"

definition profile_value :: ty where
  "profile_value = Struct ''ns-Profile'' [Member ''id'' (Primitive (Felt252 (Some 5))) True, Member ''identity'' (Primitive (ContractAddress (Some 9))) False,
     Member ''timestamp'' (Primitive (U64 (Some 90))) False]"

lemma profile_facts: "named profile_schema" "conforms profile_schema profile_value" "collect_columns [] profile_schema = [''id'', ''identity'', ''timestamp'']"
  by (simp_all add: profile_schema_def profile_value_def kind_def primitive_text_def dotted_def)

interpretation profiles: entity_store plain_dojo plain_formats text_reader "\<lambda>_ s. s" profile_env profile_models
proof unfold_locales
  fix i t
  assume "map_of profile_models i = Some t"
  then have t: "t = profile_schema" by (auto simp: profile_models_def split: if_splits)
  have "distinct (internal_columns @ collect_columns [] profile_schema)" by (simp add: profile_facts internal_columns_def)
  then show "\<exists>n ms te. t = Struct n ms \<and> named t \<and> distinct (internal_columns @ collect_columns [] t) \<and> te_dojo te = plain_dojo \<and>
      ee_store profile_env n = table_store te t (\<lambda>_ s. s)"
    using profile_facts(1) sample_facts(3) unfolding t by (auto simp: profile_env_def profile_schema_def)
next
  fix i t v A
  show "\<exists>es A'. update_aggregations plain_dojo (tx_json plain_formats) (tx_u256 plain_formats)
      (get_aggregator_for_model (ee_aggregators profile_env) (dt_name plain_dojo v)) v i A = (Some es, A') \<and> readable_table (tx_u256 plain_formats) A'"
    if "readable_table (tx_u256 plain_formats) A"
    by (rule counting_total[OF plain_store.u256_reads _ that])
      (simp add: get_aggregator_for_model_def profile_env_def sample_entity_env_def sample_count_def counting_def)
qed (auto simp: profile_env_def sample_entity_env_def formats_parts hex_text_plain plain_dojo_def profile_models_def split: if_splits)

section \<open>Properties\<close>


lemma profile_parsed: "validate_message profile_service 2 (rq_message profile_request) (empty_tables plain_dojo profile_models, True) = Inr profile_value"
  "model_id_of profile_types profile_value = Inr 7"
proof -
  have "felt_from_str hex_text ''0x5'' = Some 5" "felt_from_str hex_text ''0x9'' = Some 9" by (simp_all add: hex_text_def digit_value_def)
  then show "validate_message profile_service 2 (rq_message profile_request) (empty_tables plain_dojo profile_models, True) = Inr profile_value"
    by (simp add: validate_message_def profile_service_def profile_types_def profile_request_def sql_storage_def storage_model_def empty_tables_def profile_env_def sample_entity_env_def
        plain_formats_def profile_models_def profile_schema_def profile_value_def parse_object_def parse_leaf_def parse_string_def parse_felt_def bind_ok_def)
  show "model_id_of profile_types profile_value = Inr 7" by (simp add: model_id_of_def ty_model_id_def profile_types_def profile_value_def plain_dojo_def)
qed


end
