(* ===== verification/Transactions.thy ===== *)
theory Transactions
  imports Cache Activity EntityStore
begin

text \<open>
  Transactions: \<open>StoreTransactionProcessor\<close> (\<open>crates/processors/src/processors/store_transaction.rs\<close>) takes a transaction apart into its calls, also those that it executes
  from outside, \<open>store_transaction\<close> of \<open>storage.rs\<close> sends them, and the executor stores them and records activities.

  The deserialisers of calldata, which \<open>cainome\<close> generates, are parameters, and so are the provider's answers and the text of a selector. Contract classes come
  from the model of the cache. Reading past the end of calldata panics.
\<close>

section \<open>Calls of a transaction\<close>

record execute_call =
  xc_contract_address :: felt
  xc_selector :: felt
  xc_calldata :: "felt list"

record legacy_execute_call =
  lc_contract_address :: felt
  lc_selector :: felt
  lc_data_offset :: nat
  lc_data_length :: nat

datatype execute = LegacyExecute "legacy_execute_call list" "felt list" | Execute "execute_call list"

record invoke_content =
  ic_sender_address :: felt
  ic_calldata :: "felt list"
  ic_signature :: "felt list"
  ic_nonce :: felt

datatype transaction_content = InvokeV3 invoke_content | InvokeV1 invoke_content felt | L1HandlerTransaction felt "felt list" u64 | OtherTransaction

record transaction_info =
  ti_sender_address :: felt
  ti_calldata :: "felt list"
  ti_max_fee :: felt
  ti_signature :: "felt list"
  ti_nonce :: felt
  ti_transaction_type :: string

datatype 'p call_error = CallPanic | CallProvider "'p provider_error"

record 'p call_env =
  cv_parse_abi :: "string \<Rightarrow> abi_entry list option"
  cv_hash_at :: "block_id \<Rightarrow> felt \<Rightarrow> 'p provider_error + felt"
  cv_class_at :: "block_id \<Rightarrow> felt \<Rightarrow> 'p provider_error + contract_class"
  cv_selector_of :: "string \<Rightarrow> felt option"
  cv_hex :: "felt \<Rightarrow> string"
  cv_execute :: "felt list \<Rightarrow> execute_call list option"
  cv_legacy :: "felt list \<Rightarrow> (legacy_execute_call list \<times> felt list) option"

type_synonym ('p, 'a) call_run = "(class_cache, 'p call_error, 'a) stateful"

definition extract_transaction_info :: "transaction_content \<Rightarrow> transaction_info option" where
  "extract_transaction_info content =
     (case content of
        InvokeV3 tx \<Rightarrow>
          Some \<lparr>ti_sender_address = ic_sender_address tx, ti_calldata = ic_calldata tx, ti_max_fee = 0, ti_signature = ic_signature tx, ti_nonce = ic_nonce tx,
                ti_transaction_type = ''INVOKE''\<rparr>
      | InvokeV1 tx max_fee \<Rightarrow>
          Some \<lparr>ti_sender_address = ic_sender_address tx, ti_calldata = ic_calldata tx, ti_max_fee = max_fee, ti_signature = ic_signature tx, ti_nonce = ic_nonce tx,
                ti_transaction_type = ''INVOKE''\<rparr>
      | L1HandlerTransaction contract_address calldata nonce \<Rightarrow>
          Some \<lparr>ti_sender_address = contract_address, ti_calldata = calldata, ti_max_fee = 0, ti_signature = [], ti_nonce = unat nonce,
                ti_transaction_type = ''L1_HANDLER''\<rparr>
      | OtherTransaction \<Rightarrow> None)"

definition get_class :: "'p call_env \<Rightarrow> felt \<Rightarrow> block_id \<Rightarrow> ('p, class_abi) call_run" where
  "get_class V contract_address block cache =
     (case class_cache_get (cv_parse_abi V) (cv_hash_at V) (cv_class_at V) contract_address block cache of
        None \<Rightarrow> (Inl CallPanic, cache)
      | Some (Inl e, cache') \<Rightarrow> (Inl (CallProvider e), cache')
      | Some (Inr cls, cache') \<Rightarrow> (Inr cls, cache'))"

definition entrypoint_name :: "'p call_env \<Rightarrow> class_abi \<Rightarrow> felt \<Rightarrow> ('p, string) call_run" where
  "entrypoint_name V cls selector =
     (case get_entrypoint_name_from_class (cv_selector_of V) cls selector of
        None \<Rightarrow> fail CallPanic
      | Some None \<Rightarrow> ret (cv_hex V selector)
      | Some (Some n) \<Rightarrow> ret n)"

definition parse_execute_call :: "'p call_env \<Rightarrow> execute_call \<Rightarrow> felt \<Rightarrow> call_type \<Rightarrow> u64 \<Rightarrow> ('p, transaction_call) call_run" where
  "parse_execute_call V call caller_address call_type block_number =
     and_then (get_class V (xc_contract_address call) (BlockNumber block_number)) (\<lambda>cls.
     and_then (entrypoint_name V cls (xc_selector call)) (\<lambda>entrypoint.
     ret \<lparr>tc_contract_address = xc_contract_address call, tc_entrypoint = entrypoint, tc_calldata = xc_calldata call, tc_call_type = call_type,
          tc_caller_address = caller_address\<rparr>))"

text \<open>A slice that ends after the calldata panics.\<close>

definition slice_of :: "felt list \<Rightarrow> nat \<Rightarrow> nat \<Rightarrow> ('p, felt list) call_run" where
  "slice_of xs offset len = (if offset + len \<le> length xs then ret (take len (drop offset xs)) else fail CallPanic)"

definition felt_at :: "felt list \<Rightarrow> nat \<Rightarrow> ('p, felt) call_run" where
  "felt_at xs i = (if i < length xs then ret (xs ! i) else fail CallPanic)"

definition to_usize :: "felt \<Rightarrow> ('p, nat) call_run" where
  "to_usize f = (if f < 2 ^ 64 then ret f else fail CallPanic)"

definition parse_legacy_execute_call :: "'p call_env \<Rightarrow> legacy_execute_call \<Rightarrow> felt list \<Rightarrow> felt \<Rightarrow> call_type \<Rightarrow> u64 \<Rightarrow> ('p, transaction_call) call_run" where
  "parse_legacy_execute_call V call full_calldata caller_address call_type block_number =
     and_then (get_class V (lc_contract_address call) (BlockNumber block_number)) (\<lambda>cls.
     and_then (entrypoint_name V cls (lc_selector call)) (\<lambda>entrypoint.
     and_then (slice_of full_calldata (lc_data_offset call) (lc_data_length call)) (\<lambda>calldata.
     ret \<lparr>tc_contract_address = lc_contract_address call, tc_entrypoint = entrypoint, tc_calldata = calldata, tc_call_type = call_type,
          tc_caller_address = caller_address\<rparr>)))"

definition parse_outside_call :: "'p call_env \<Rightarrow> felt list \<Rightarrow> nat \<Rightarrow> felt \<Rightarrow> ('p, transaction_call \<times> nat) call_run" where
  "parse_outside_call V calldata base_offset caller_address =
     (let to_offset = base_offset; selector_offset = to_offset + 1; calldata_offset = selector_offset + 2 in
      and_then (felt_at calldata (selector_offset + 1)) (\<lambda>n.
      and_then (to_usize n) (\<lambda>calldata_len.
      and_then (felt_at calldata to_offset) (\<lambda>contract_address.
      and_then (get_class V contract_address PreConfirmed) (\<lambda>cls.
      and_then (felt_at calldata selector_offset) (\<lambda>selector.
      and_then (entrypoint_name V cls selector) (\<lambda>entrypoint.
      and_then (slice_of calldata calldata_offset calldata_len) (\<lambda>data.
      ret (\<lparr>tc_contract_address = contract_address, tc_entrypoint = entrypoint, tc_calldata = data, tc_call_type = CallExecuteFromOutside,
            tc_caller_address = caller_address\<rparr>, calldata_offset + calldata_len)))))))))"

fun outside_calls_loop :: "'p call_env \<Rightarrow> nat \<Rightarrow> felt list \<Rightarrow> nat \<Rightarrow> felt \<Rightarrow> ('p, transaction_call list) call_run" where
  "outside_calls_loop V 0 calldata current_offset caller_address = ret []"
| "outside_calls_loop V (Suc n) calldata current_offset caller_address =
     and_then (parse_outside_call V calldata current_offset caller_address) (\<lambda>(outside_call, next_offset).
     and_then (outside_calls_loop V n calldata next_offset caller_address) (\<lambda>cs.
     ret (outside_call # cs)))"

definition outside_calls_at :: "'p call_env \<Rightarrow> nat \<Rightarrow> transaction_call \<Rightarrow> ('p, transaction_call list) call_run" where
  "outside_calls_at V i call =
     and_then (felt_at (tc_calldata call) i) (\<lambda>n.
     and_then (to_usize n) (\<lambda>outside_calls_len.
     outside_calls_loop V outside_calls_len (tc_calldata call) (i + 1) (tc_contract_address call)))"

definition process_outside_calls :: "'p call_env \<Rightarrow> transaction_call \<Rightarrow> ('p, transaction_call list) call_run" where
  "process_outside_calls V call =
     (if tc_entrypoint call = ''execute_from_outside_v3'' then outside_calls_at V 5 call
      else if tc_entrypoint call = ''execute_from_outside_v2'' then outside_calls_at V 4 call
      else ret [])"

fun each_call :: "('x \<Rightarrow> ('p, 'a) call_run) \<Rightarrow> 'x list \<Rightarrow> ('p, 'a list) call_run" where
  "each_call f [] = ret []"
| "each_call f (x # xs) = and_then (f x) (\<lambda>a. and_then (each_call f xs) (\<lambda>as. ret (a # as)))"

definition parse_execute :: "'p call_env \<Rightarrow> execute \<Rightarrow> felt \<Rightarrow> u64 \<Rightarrow> ('p, transaction_call list) call_run" where
  "parse_execute V execute sender_address block_number =
     and_then (case execute of
                 Execute calls \<Rightarrow> each_call (\<lambda>call. parse_execute_call V call sender_address CallExecute block_number) calls
               | LegacyExecute calls calldata \<Rightarrow> each_call (\<lambda>call. parse_legacy_execute_call V call calldata sender_address CallExecute block_number) calls) (\<lambda>calls.
     and_then (each_call (process_outside_calls V) calls) (\<lambda>outside.
     ret (calls @ concat outside)))"

definition decode_execute :: "'p call_env \<Rightarrow> felt list \<Rightarrow> execute option" where
  "decode_execute V calldata =
     (case cv_execute V calldata of
        Some calls \<Rightarrow> Some (Execute calls)
      | None \<Rightarrow> map_option (\<lambda>(calls, data). LegacyExecute calls data) (cv_legacy V calldata))"

text \<open>An error while the calls are parsed is logged and leaves none; a panic stays one.\<close>

definition transaction_calls :: "'p call_env \<Rightarrow> transaction_info \<Rightarrow> u64 \<Rightarrow> ('p, transaction_call list) call_run" where
  "transaction_calls V tx_info block_number cache =
     (if ti_transaction_type tx_info \<noteq> ''INVOKE'' then (Inr [], cache)
      else case decode_execute V (ti_calldata tx_info) of
             None \<Rightarrow> (Inr [], cache)
           | Some execute \<Rightarrow>
               (case parse_execute V execute (ti_sender_address tx_info) block_number cache of
                  (Inl CallPanic, cache') \<Rightarrow> (Inl CallPanic, cache')
                | (Inl (CallProvider e), cache') \<Rightarrow> (Inr [], cache')
                | (Inr calls, cache') \<Rightarrow> (Inr calls, cache')))"

section \<open>Storing\<close>

record store_transaction_query =
  sq_transaction :: transaction_update
  sq_contract_addresses :: "felt list"

record transaction_context =
  xt_transaction :: transaction_content
  xt_transaction_hash :: felt
  xt_block_number :: u64
  xt_block_timestamp :: u64
  xt_contract_addresses :: "felt list"
  xt_unique_models :: "felt list"

text \<open>What is sent to the executor, and nothing for the other kinds of transactions.\<close>

definition process_transaction :: "'p call_env \<Rightarrow> transaction_context \<Rightarrow> ('p, store_transaction_query option) call_run" where
  "process_transaction V ctx =
     (case extract_transaction_info (xt_transaction ctx) of
        None \<Rightarrow> ret None
      | Some tx_info \<Rightarrow>
          and_then (transaction_calls V tx_info (xt_block_number ctx)) (\<lambda>calls.
          ret (Some \<lparr>sq_transaction =
                 \<lparr>tx_transaction_hash = xt_transaction_hash ctx, tx_sender_address = ti_sender_address tx_info, tx_calldata = ti_calldata tx_info,
                  tx_max_fee = ti_max_fee tx_info, tx_signature = ti_signature tx_info, tx_nonce = ti_nonce tx_info, tx_block_number = xt_block_number ctx,
                  tx_transaction_type = ti_transaction_type tx_info, tx_block_timestamp = int (unat (xt_block_timestamp ctx)), tx_calls = calls,
                  tx_unique_models = xt_unique_models ctx\<rparr>,
               sq_contract_addresses = xt_contract_addresses ctx\<rparr>)))"

record call_row =
  cr_transaction_hash :: string
  cr_contract_address :: string
  cr_entrypoint :: string
  cr_calldata :: string
  cr_call_type :: call_type
  cr_caller_address :: string

record transaction_row =
  rw_sender_address :: string
  rw_calldata :: string
  rw_max_fee :: string
  rw_signature :: string
  rw_nonce :: string
  rw_transaction_type :: string
  rw_executed_at :: int
  rw_block_number :: u64

record transaction_tables =
  ft_transactions :: "(string \<times> transaction_row) list"
  ft_contracts :: "(string \<times> bool) list"
  ft_model_namespaces :: "(string \<times> string) list"
  ft_transaction_contract :: "(string \<times> string) list"
  ft_transaction_models :: "(string \<times> string) list"
  ft_transaction_calls :: "call_row list"
  ft_activities :: "activity list"

record transaction_config =
  fc_felt :: felt_text
  fc_sessions :: session_env
  fc_activity_enabled :: bool
  fc_session_timeout :: u64
  fc_excluded_entrypoints :: "string list"

datatype transaction_message = ActivityUpdated activity | TransactionStored transaction_update

type_synonym 'a transaction_run = "(transaction_tables, failure, 'a) stateful"

definition insert_new :: "'x \<Rightarrow> 'x list \<Rightarrow> 'x list" where
  "insert_new x xs = (if x \<in> set xs then xs else xs @ [x])"

definition upsert_transaction :: "transaction_config \<Rightarrow> transaction_update \<Rightarrow> transaction_row transaction_run" where
  "upsert_transaction C t T =
     (let F = fc_felt C; id = felt_hex F (tx_transaction_hash t) in
      case map_of (ft_transactions T) id of
        Some row \<Rightarrow> (Inr row, T)
      | None \<Rightarrow>
          (let row = \<lparr>rw_sender_address = felt_hex F (tx_sender_address t), rw_calldata = felts_to_sql_string F (tx_calldata t), rw_max_fee = felt_hex F (tx_max_fee t),
                      rw_signature = felts_to_sql_string F (tx_signature t), rw_nonce = felt_hex F (tx_nonce t), rw_transaction_type = tx_transaction_type t,
                      rw_executed_at = tx_block_timestamp t, rw_block_number = tx_block_number t\<rparr> in
           (Inr row, T\<lparr>ft_transactions := ft_transactions T @ [(id, row)]\<rparr>)))"

text \<open>A transaction may only refer to a contract that is known.\<close>

fun insert_contracts :: "transaction_config \<Rightarrow> string \<Rightarrow> felt list \<Rightarrow> unit transaction_run" where
  "insert_contracts C hash [] T = (Inr (), T)"
| "insert_contracts C hash (a # as) T =
     (let address = felt_hex (fc_felt C) a in
      if address \<notin> fst ` set (ft_contracts T) then (Inl (QErr (QSqlx ''FOREIGN KEY constraint failed'')), T)
      else insert_contracts C hash as (T\<lparr>ft_transaction_contract := insert_new (hash, address) (ft_transaction_contract T)\<rparr>))"

definition insert_models :: "transaction_config \<Rightarrow> string \<Rightarrow> felt list \<Rightarrow> transaction_tables \<Rightarrow> transaction_tables" where
  "insert_models C hash ms T = T\<lparr>ft_transaction_models := fold (\<lambda>m. insert_new (hash, felt_hex (fc_felt C) m)) ms (ft_transaction_models T)\<rparr>"

text \<open>The table of calls has no key, so nothing conflicts.\<close>

definition call_row_of :: "transaction_config \<Rightarrow> string \<Rightarrow> transaction_call \<Rightarrow> call_row" where
  "call_row_of C hash call =
     (let F = fc_felt C in
      \<lparr>cr_transaction_hash = hash, cr_contract_address = felt_hex F (tc_contract_address call), cr_entrypoint = tc_entrypoint call,
       cr_calldata = felts_to_sql_string F (tc_calldata call), cr_call_type = tc_call_type call, cr_caller_address = felt_hex F (tc_caller_address call)\<rparr>)"

definition insert_calls :: "transaction_config \<Rightarrow> string \<Rightarrow> transaction_call list \<Rightarrow> transaction_tables \<Rightarrow> transaction_tables" where
  "insert_calls C hash calls T = T\<lparr>ft_transaction_calls := ft_transaction_calls T @ map (call_row_of C hash) calls\<rparr>"

definition world_of :: "string \<Rightarrow> transaction_tables \<Rightarrow> string option" where
  "world_of hash T = map_option fst (List.find (\<lambda>(a, is_world). is_world \<and> (hash, a) \<in> set (ft_transaction_contract T)) (ft_contracts T))"

definition namespaces_of :: "transaction_config \<Rightarrow> felt list \<Rightarrow> transaction_tables \<Rightarrow> string list" where
  "namespaces_of C ms T = remdups (map snd (filter (\<lambda>(i, n). i \<in> felt_hex (fc_felt C) ` set ms) (ft_model_namespaces T)))"

text \<open>Errors of activities are logged.\<close>

fun track_activities :: "transaction_config \<Rightarrow> string \<Rightarrow> int \<Rightarrow> (string \<times> transaction_call) list \<Rightarrow> activity list \<Rightarrow> activity list \<times> activity list" where
  "track_activities C world executed_at [] rows = ([], rows)"
| "track_activities C world executed_at ((namespace, call) # xs) rows =
     (case update_activity (fc_sessions C) world namespace (felt_hex (fc_felt C) (tc_caller_address call)) (tc_entrypoint call) executed_at (fc_session_timeout C)
             (fc_excluded_entrypoints C) rows of
        (Inr (Some a), rows') \<Rightarrow> (case track_activities C world executed_at xs rows' of (as, rows'') \<Rightarrow> (a # as, rows''))
      | (_, rows') \<Rightarrow> track_activities C world executed_at xs rows')"

definition activities_of :: "transaction_config \<Rightarrow> transaction_update \<Rightarrow> int \<Rightarrow> transaction_tables \<Rightarrow> activity list \<times> transaction_tables" where
  "activities_of C t executed_at T =
     (case world_of (felt_hex (fc_felt C) (tx_transaction_hash t)) T of
        Some world \<Rightarrow>
          if fc_activity_enabled C \<and> tx_unique_models t \<noteq> [] then
            (case track_activities C world executed_at (List.product (namespaces_of C (tx_unique_models t) T) (tx_calls t)) (ft_activities T) of
               (as, rows) \<Rightarrow> (as, T\<lparr>ft_activities := rows\<rparr>))
          else ([], T)
      | None \<Rightarrow> ([], T))"

text \<open>The transaction for subscribers is made of the stored row, whose texts have to be field elements.\<close>

definition to_transaction :: "transaction_config \<Rightarrow> transaction_update \<Rightarrow> transaction_row \<Rightarrow> transaction_update option" where
  "to_transaction C t row =
     (let F = fc_felt C in
      case (felt_from_str F (felt_hex F (tx_transaction_hash t)), felt_from_str F (rw_sender_address row), felts_of F (rw_calldata row),
            felt_from_str F (rw_max_fee row), felts_of F (rw_signature row), felt_from_str F (rw_nonce row)) of
        (Some h, Some s, Some cd, Some fee, Some sg, Some n) \<Rightarrow>
          Some \<lparr>tx_transaction_hash = h, tx_sender_address = s, tx_calldata = cd, tx_max_fee = fee, tx_signature = sg, tx_nonce = n,
                tx_block_number = rw_block_number row, tx_transaction_type = rw_transaction_type row, tx_block_timestamp = rw_executed_at row,
                tx_calls = tx_calls t, tx_unique_models = tx_unique_models t\<rparr>
      | _ \<Rightarrow> None)"

definition store_transaction_handler :: "transaction_config \<Rightarrow> store_transaction_query \<Rightarrow> transaction_message list transaction_run" where
  "store_transaction_handler C q =
     (let t = sq_transaction q; hash = felt_hex (fc_felt C) (tx_transaction_hash t) in
      and_then (upsert_transaction C t) (\<lambda>row.
      and_then (insert_contracts C hash (sq_contract_addresses q)) (\<lambda>_ T.
        case activities_of C t (rw_executed_at row) (insert_calls C hash (tx_calls t) (insert_models C hash (tx_unique_models t) T)) of
          (as, T') \<Rightarrow>
            (case to_transaction C t row of
               None \<Rightarrow> (Inl QPanic, T')
             | Some u \<Rightarrow> (Inr (map ActivityUpdated as @ [TransactionStored u]), T')))))"

end
