(* ===== verification/TransactionSpec.thy ===== *)
theory TransactionSpec
  imports Transactions EntityStoreSpec
begin

text \<open>
  Every call of a transaction is recorded, also those executed from outside: calldata that encodes calls is taken apart into them, and what is stored and published of a
  transaction is what the chain says. Calldata that is too short panics.
\<close>

section \<open>Encoding\<close>

definition encode_call :: "execute_call \<Rightarrow> felt list" where
  "encode_call call = [xc_contract_address call, xc_selector call, length (xc_calldata call)] @ xc_calldata call"

text \<open>A call together with the calls it makes from outside.\<close>

record planned =
  pl_call :: execute_call
  pl_nested :: "execute_call list"

definition outside_header :: "string \<Rightarrow> nat option" where
  "outside_header entrypoint =
     (if entrypoint = ''execute_from_outside_v3'' then Some 5 else if entrypoint = ''execute_from_outside_v2'' then Some 4 else None)"

definition call_of :: "(felt \<Rightarrow> felt \<Rightarrow> string) \<Rightarrow> call_type \<Rightarrow> felt \<Rightarrow> execute_call \<Rightarrow> transaction_call" where
  "call_of name ty caller call =
     \<lparr>tc_contract_address = xc_contract_address call, tc_entrypoint = name (xc_contract_address call) (xc_selector call), tc_calldata = xc_calldata call,
      tc_call_type = ty, tc_caller_address = caller\<rparr>"

definition encodes_nested :: "nat \<Rightarrow> felt list \<Rightarrow> execute_call list \<Rightarrow> bool" where
  "encodes_nested k calldata os \<longleftrightarrow> length os < 2 ^ 64 \<and> k < length calldata \<and> calldata ! k = length os \<and>
     (\<exists>post. drop (k + 1) calldata = concat (map encode_call os) @ post)"

definition well_planned :: "(felt \<Rightarrow> felt \<Rightarrow> string) \<Rightarrow> felt set \<Rightarrow> planned \<Rightarrow> bool" where
  "well_planned name deployed p \<longleftrightarrow> xc_contract_address (pl_call p) \<in> deployed \<and>
     (\<forall>o' \<in> set (pl_nested p). xc_contract_address o' \<in> deployed \<and> length (xc_calldata o') < 2 ^ 64) \<and>
     (case outside_header (name (xc_contract_address (pl_call p)) (xc_selector (pl_call p))) of
        None \<Rightarrow> pl_nested p = []
      | Some k \<Rightarrow> encodes_nested k (xc_calldata (pl_call p)) (pl_nested p))"

definition all_calls :: "(felt \<Rightarrow> felt \<Rightarrow> string) \<Rightarrow> felt \<Rightarrow> planned list \<Rightarrow> transaction_call list" where
  "all_calls name sender ps =
     map (\<lambda>p. call_of name CallExecute sender (pl_call p)) ps @
     concat (map (\<lambda>p. map (call_of name CallExecuteFromOutside (xc_contract_address (pl_call p))) (pl_nested p)) ps)"

section \<open>Known classes\<close>

locale known_classes =
  fixes V :: "'p call_env" and deployed :: "felt set" and classes :: "felt \<Rightarrow> class_abi" and name :: "felt \<Rightarrow> felt \<Rightarrow> string"
  assumes provided: "a \<in> deployed \<Longrightarrow> \<exists>h k. cv_hash_at V b a = Inr h \<and> cv_class_at V b a = Inr k \<and> class_of (cv_parse_abi V) k = Some (classes a)"
    and names: "a \<in> deployed \<Longrightarrow> \<exists>n. get_entrypoint_name_from_class (cv_selector_of V) (classes a) s = Some n \<and>
      name a s = (case n of None \<Rightarrow> cv_hex V s | Some x \<Rightarrow> x)"
begin

definition cache_ok :: "class_cache \<Rightarrow> bool" where
  "cache_ok c \<longleftrightarrow> (\<forall>a h cls. a \<in> deployed \<longrightarrow> map_of c a = Some (h, cls) \<longrightarrow> cls = classes a)"

definition gives :: "('p, 'a) call_run \<Rightarrow> 'a \<Rightarrow> bool" where
  "gives m a \<longleftrightarrow> (\<forall>c. cache_ok c \<longrightarrow> (\<exists>c'. m c = (Inr a, c') \<and> cache_ok c'))"

definition panics :: "('p, 'a) call_run \<Rightarrow> bool" where
  "panics m \<longleftrightarrow> (\<forall>c. cache_ok c \<longrightarrow> (\<exists>c'. m c = (Inl CallPanic, c')))"

lemma gives_ret [intro]: "gives (ret a) a"
  by (simp add: gives_def ret_def)

lemma gives_then: "gives m a \<Longrightarrow> gives (f a) b \<Longrightarrow> gives (and_then m f) b"
  unfolding gives_def and_then_def by fastforce

lemma panics_fail [intro]: "panics (fail CallPanic)"
  by (simp add: panics_def fail_def)

lemma panics_first: "panics m \<Longrightarrow> panics (and_then m f)"
  unfolding panics_def and_then_def by fastforce

lemma panics_then: "gives m a \<Longrightarrow> panics (f a) \<Longrightarrow> panics (and_then m f)"
  unfolding gives_def panics_def and_then_def by fastforce

lemma gives_class: "a \<in> deployed \<Longrightarrow> gives (get_class V a b) (classes a)"
  unfolding gives_def
proof (intro allI impI)
  fix c
  assume a: "a \<in> deployed" and ok: "cache_ok c"
  obtain h k where p: "cv_hash_at V b a = Inr h" "cv_class_at V b a = Inr k" "class_of (cv_parse_abi V) k = Some (classes a)" using provided[OF a] by blast
  show "\<exists>c'. get_class V a b c = (Inr (classes a), c') \<and> cache_ok c'"
  proof (cases "map_of c a")
    case None
    have "cache_ok (al_insert a (h, classes a) c)" using ok by (auto simp: cache_ok_def)
    then show ?thesis using None p by (simp add: get_class_def class_cache_get_def)
  next
    case (Some x)
    then show ?thesis using ok a by (cases x) (auto simp: get_class_def class_cache_get_def cache_ok_def)
  qed
qed

lemma gives_name: "a \<in> deployed \<Longrightarrow> gives (entrypoint_name V (classes a) s) (name a s)"
proof -
  assume "a \<in> deployed"
  then obtain n where "get_entrypoint_name_from_class (cv_selector_of V) (classes a) s = Some n" "name a s = (case n of None \<Rightarrow> cv_hex V s | Some x \<Rightarrow> x)"
    using names by blast
  then show ?thesis using gives_ret by (cases n) (simp_all add: entrypoint_name_def)
qed

lemma gives_call: "xc_contract_address call \<in> deployed \<Longrightarrow> gives (parse_execute_call V call caller ty bn) (call_of name ty caller call)"
  unfolding parse_execute_call_def call_of_def by (rule gives_then, erule gives_class, rule gives_then, erule gives_name, rule gives_ret)

lemma gives_outside:
  assumes "xc_contract_address call \<in> deployed" "length (xc_calldata call) < 2 ^ 64" "drop i calldata = encode_call call @ post"
  shows "gives (parse_outside_call V calldata i caller) (call_of name CallExecuteFromOutside caller call, i + length (encode_call call))"
proof -
  have len: "i + 3 + length (xc_calldata call) \<le> length calldata"
    using arg_cong[OF assms(3), of length] by (simp add: encode_call_def)
  have at: "calldata ! (i + j) = (encode_call call @ post) ! j" if "i + j < length calldata" for j using that nth_drop[of i calldata j] assms(3) by simp
  have at3: "calldata ! i = xc_contract_address call" "calldata ! (i + 1) = xc_selector call" "calldata ! (i + 2) = length (xc_calldata call)"
    using at[of 0] at[of 1] at[of 2] len by (simp_all add: encode_call_def numeral_2_eq_2)
  have "drop (i + 3) calldata = xc_calldata call @ post"
    using arg_cong[OF assms(3), of "drop 3"] by (simp add: encode_call_def add.commute numeral_3_eq_3)
  then have data: "take (length (xc_calldata call)) (drop (i + 3) calldata) = xc_calldata call" by simp
  have f: "gives (felt_at calldata j) (calldata ! j)" if "j < i + 3" for j using that len by (auto simp: felt_at_def)
  have u: "gives (to_usize (length (xc_calldata call))) (length (xc_calldata call))" using assms(2) by (auto simp: to_usize_def)
  have s: "gives (slice_of calldata (i + 1 + 2) (length (xc_calldata call))) (xc_calldata call)"
    using gives_ret[of "xc_calldata call"] len data by (simp add: slice_of_def numeral_3_eq_3)
  have g: "gives (felt_at calldata (i + 1 + 1)) (length (xc_calldata call))" "gives (felt_at calldata i) (xc_contract_address call)"
    "gives (felt_at calldata (i + 1)) (xc_selector call)" using f[of "i + 2"] f[of i] f[of "i + 1"] at3 by simp_all
  have "gives (parse_outside_call V calldata i caller) (call_of name CallExecuteFromOutside caller call, i + 1 + 2 + length (xc_calldata call))"
    unfolding parse_outside_call_def Let_def call_of_def
    by (rule gives_then, rule g(1), rule gives_then, rule u, rule gives_then, rule g(2), rule gives_then, rule gives_class[OF assms(1)], rule gives_then, rule g(3),
        rule gives_then, rule gives_name[OF assms(1)], rule gives_then, rule s, rule gives_ret)
  then show ?thesis by (simp add: encode_call_def add.commute)
qed

lemma gives_loop:
  "\<forall>o' \<in> set os. xc_contract_address o' \<in> deployed \<and> length (xc_calldata o') < 2 ^ 64 \<Longrightarrow> drop i calldata = concat (map encode_call os) @ post \<Longrightarrow>
   gives (outside_calls_loop V (length os) calldata i caller) (map (call_of name CallExecuteFromOutside caller) os)"
proof (induction os arbitrary: i)
  case (Cons call os)
  have d: "drop i calldata = encode_call call @ concat (map encode_call os) @ post" using Cons.prems(2) by simp
  have "drop (i + length (encode_call call)) calldata = concat (map encode_call os) @ post"
    using arg_cong[OF d, of "drop (length (encode_call call))"] by (simp add: add.commute)
  then have "gives (outside_calls_loop V (length os) calldata (i + length (encode_call call)) caller) (map (call_of name CallExecuteFromOutside caller) os)"
    using Cons by simp
  then show ?case using gives_outside[OF _ _ d, of caller] Cons.prems(1) by (auto intro!: gives_then)
qed auto

lemma gives_each: "list_all2 (\<lambda>x a. gives (f x) a) xs as \<Longrightarrow> gives (each_call f xs) as"
  by (induction rule: list_all2_induct) (auto intro!: gives_then)

lemma panics_each: "list_all2 (\<lambda>x a. gives (f x) a) xs as \<Longrightarrow> panics (f y) \<Longrightarrow> panics (each_call f (xs @ y # ys))"
  by (induction rule: list_all2_induct) (auto intro: panics_first panics_then)

lemma gives_nested:
  assumes "well_planned name deployed p"
  shows "gives (process_outside_calls V (call_of name CallExecute sender (pl_call p)))
    (map (call_of name CallExecuteFromOutside (xc_contract_address (pl_call p))) (pl_nested p))"
proof -
  have at: "gives (outside_calls_at V k (call_of name CallExecute sender (pl_call p)))
      (map (call_of name CallExecuteFromOutside (xc_contract_address (pl_call p))) (pl_nested p))"
    if nested: "encodes_nested k (xc_calldata (pl_call p)) (pl_nested p)" for k
  proof -
    obtain post where e: "length (pl_nested p) < 2 ^ 64" "k < length (xc_calldata (pl_call p))" "xc_calldata (pl_call p) ! k = length (pl_nested p)"
      "drop (k + 1) (xc_calldata (pl_call p)) = concat (map encode_call (pl_nested p)) @ post" using nested unfolding encodes_nested_def by blast
    have l: "gives (outside_calls_loop V (length (pl_nested p)) (xc_calldata (pl_call p)) (k + 1) (xc_contract_address (pl_call p)))
        (map (call_of name CallExecuteFromOutside (xc_contract_address (pl_call p))) (pl_nested p))"
      using gives_loop[OF _ e(4)] assms by (simp add: well_planned_def)
    have "gives (felt_at (xc_calldata (pl_call p)) k) (length (pl_nested p))" "gives (to_usize (length (pl_nested p))) (length (pl_nested p))"
      using gives_ret[of "length (pl_nested p)"] e by (simp_all add: felt_at_def to_usize_def)
    then show ?thesis unfolding outside_calls_at_def using l by (auto simp: call_of_def intro!: gives_then)
  qed
  show ?thesis
    using assms at unfolding process_outside_calls_def well_planned_def
    by (auto simp: outside_header_def call_of_def split: if_splits)
qed

lemma gives_plans:
  assumes "\<forall>p \<in> set ps. well_planned name deployed p"
  shows "list_all2 (\<lambda>call a. gives (parse_execute_call V call s CallExecute bn) a) (map pl_call ps) (map (\<lambda>p. call_of name CallExecute s (pl_call p)) ps)"
    and "list_all2 (\<lambda>c a. gives (process_outside_calls V c) a) (map (\<lambda>p. call_of name CallExecute s (pl_call p)) ps)
      (map (\<lambda>p. map (call_of name CallExecuteFromOutside (xc_contract_address (pl_call p))) (pl_nested p)) ps)"
  using assms gives_call gives_nested by (induction ps) (simp_all add: well_planned_def)

lemma gives_execute:
  assumes "\<forall>p \<in> set ps. well_planned name deployed p"
  shows "gives (parse_execute V (Execute (map pl_call ps)) s bn) (all_calls name s ps)"
  unfolding parse_execute_def all_calls_def execute.case
  by (rule gives_then, rule gives_each, rule gives_plans(1)[OF assms], rule gives_then, rule gives_each, rule gives_plans(2)[OF assms], rule gives_ret)

lemma short_panics:
  assumes "outside_header (tc_entrypoint call) = Some k" "length (tc_calldata call) \<le> k"
  shows "panics (process_outside_calls V call)"
proof -
  have "panics (outside_calls_at V k call)" using assms(2) unfolding outside_calls_at_def by (intro panics_first) (auto simp: felt_at_def)
  then show ?thesis using assms(1) by (auto simp: process_outside_calls_def outside_header_def split: if_splits)
qed

lemma execute_panics:
  assumes "\<forall>p \<in> set ps. well_planned name deployed p" "\<forall>x \<in> set (call # rest). xc_contract_address x \<in> deployed"
    and "outside_header (name (xc_contract_address call) (xc_selector call)) = Some k" "length (xc_calldata call) \<le> k"
  shows "panics (parse_execute V (Execute (map pl_call ps @ call # rest)) s bn)"
proof -
  have r: "list_all2 (\<lambda>call a. gives (parse_execute_call V call s CallExecute bn) a) xs (map (call_of name CallExecute s) xs)"
    if "\<forall>x \<in> set xs. xc_contract_address x \<in> deployed" for xs using that gives_call by (induction xs) simp_all
  have "list_all2 (\<lambda>call a. gives (parse_execute_call V call s CallExecute bn) a) (map pl_call ps @ call # rest)
      (map (\<lambda>p. call_of name CallExecute s (pl_call p)) ps @ map (call_of name CallExecute s) (call # rest))"
    using list_all2_appendI[OF gives_plans(1)[OF assms(1)] r[OF assms(2)]] .
  then have g: "gives (each_call (\<lambda>call. parse_execute_call V call s CallExecute bn) (map pl_call ps @ call # rest))
      (map (\<lambda>p. call_of name CallExecute s (pl_call p)) ps @ call_of name CallExecute s call # map (call_of name CallExecute s) rest)"
    using gives_each by fastforce
  have "panics (process_outside_calls V (call_of name CallExecute s call))" using assms(3,4) by (intro short_panics) (simp_all add: call_of_def)
  then show ?thesis unfolding parse_execute_def execute.case
    by (intro panics_then[OF g] panics_first panics_each[OF gives_plans(2)[OF assms(1)]])
qed

end

section \<open>Storing\<close>

text \<open>The texts of a transaction are read back.\<close>

lemma felts_read_back:
  assumes "felt_format F" and "\<And>f. CHR ''/'' \<notin> set (felt_hex F f) \<and> felt_hex F f \<noteq> []"
  shows "felts_of F (felts_to_sql_string F fs) = Some fs"
  unfolding felts_of_def felts_to_sql_string_def
  by (subst split_keys) (auto simp: assms(2) felt_format.reads_back[OF assms(1)] those_map simp del: map_map)

lemma contracts_inserted:
  "\<forall>a \<in> set as. felt_hex (fc_felt C) a \<in> fst ` set (ft_contracts T) \<Longrightarrow>
   \<exists>xs. insert_contracts C hash as T = (Inr (), T\<lparr>ft_transaction_contract := xs\<rparr>)"
proof (induction as arbitrary: T)
  case Nil
  then show ?case by (intro exI[of _ "ft_transaction_contract T"]) simp
next
  case (Cons a as)
  have "\<exists>xs. insert_contracts C hash as (T\<lparr>ft_transaction_contract := ys\<rparr>) = (Inr (), T\<lparr>ft_transaction_contract := xs\<rparr>)" for ys
    using Cons.IH[of "T\<lparr>ft_transaction_contract := ys\<rparr>"] Cons.prems by simp
  then show ?case using Cons.prems by (simp add: Let_def)
qed

lemma activities_keep: "ft_transaction_calls (snd (activities_of C t at T)) = ft_transaction_calls T" "ft_transactions (snd (activities_of C t at T)) = ft_transactions T"
  by (simp_all add: activities_of_def split: option.split prod.split)

lemma stored_transaction:
  assumes "felt_format (fc_felt C)" and "\<And>f. CHR ''/'' \<notin> set (felt_hex (fc_felt C) f) \<and> felt_hex (fc_felt C) f \<noteq> []"
    and "map_of (ft_transactions T) (felt_hex (fc_felt C) (tx_transaction_hash (sq_transaction q))) = None"
    and "\<forall>a \<in> set (sq_contract_addresses q). felt_hex (fc_felt C) a \<in> fst ` set (ft_contracts T)"
  shows "\<exists>as T'. store_transaction_handler C q T = (Inr (map ActivityUpdated as @ [TransactionStored (sq_transaction q)]), T') \<and>
    ft_transaction_calls T' = ft_transaction_calls T @ map (call_row_of C (felt_hex (fc_felt C) (tx_transaction_hash (sq_transaction q)))) (tx_calls (sq_transaction q))"
proof -
  let ?t = "sq_transaction q" and ?F = "fc_felt C"
  let ?h = "felt_hex ?F (tx_transaction_hash ?t)"
  obtain row T1 where r: "upsert_transaction C ?t T = (Inr row, T1)" "to_transaction C ?t row = Some ?t" "ft_contracts T1 = ft_contracts T"
    "ft_transaction_calls T1 = ft_transaction_calls T"
    using assms(3) felt_format.reads_back[OF assms(1)] felts_read_back[OF assms(1,2)] by (simp add: upsert_transaction_def to_transaction_def Let_def)
  obtain xs where c: "insert_contracts C ?h (sq_contract_addresses q) T1 = (Inr (), T1\<lparr>ft_transaction_contract := xs\<rparr>)" using contracts_inserted[of _ C T1] assms(4) r(3) by metis
  let ?T = "insert_calls C ?h (tx_calls ?t) (insert_models C ?h (tx_unique_models ?t) (T1\<lparr>ft_transaction_contract := xs\<rparr>))"
  obtain as T' where a: "activities_of C ?t (rw_executed_at row) ?T = (as, T')" by (cases "activities_of C ?t (rw_executed_at row) ?T")
  have "ft_transaction_calls T' = ft_transaction_calls T @ map (call_row_of C ?h) (tx_calls ?t)"
    using activities_keep(1)[of C ?t "rw_executed_at row" ?T] a r(4) by (simp add: insert_calls_def insert_models_def)
  then show ?thesis using r(1,2) c a by (intro exI[of _ as] exI[of _ T']) (simp add: store_transaction_handler_def and_then_def Let_def)
qed

text \<open>Storing a transaction again adds its calls again: the table has no key that could conflict.\<close>

lemma calls_stored_again:
  assumes "\<forall>a \<in> set (sq_contract_addresses q). felt_hex (fc_felt C) a \<in> fst ` set (ft_contracts T)"
    and "map_of (ft_transactions T) (felt_hex (fc_felt C) (tx_transaction_hash (sq_transaction q))) = Some row" "to_transaction C (sq_transaction q) row \<noteq> None"
  shows "ft_transaction_calls (snd (store_transaction_handler C q T)) =
    ft_transaction_calls T @ map (call_row_of C (felt_hex (fc_felt C) (tx_transaction_hash (sq_transaction q)))) (tx_calls (sq_transaction q))"
proof -
  let ?t = "sq_transaction q"
  let ?h = "felt_hex (fc_felt C) (tx_transaction_hash ?t)"
  obtain xs where c: "insert_contracts C ?h (sq_contract_addresses q) T = (Inr (), T\<lparr>ft_transaction_contract := xs\<rparr>)" using contracts_inserted[of _ C T] assms(1) by metis
  let ?T = "insert_calls C ?h (tx_calls ?t) (insert_models C ?h (tx_unique_models ?t) (T\<lparr>ft_transaction_contract := xs\<rparr>))"
  have "ft_transaction_calls (snd (activities_of C ?t (rw_executed_at row) ?T)) = ft_transaction_calls T @ map (call_row_of C ?h) (tx_calls ?t)"
    using activities_keep(1)[of C ?t "rw_executed_at row" ?T] by (simp add: insert_calls_def insert_models_def)
  then show ?thesis using c assms(2,3)
    by (cases "activities_of C ?t (rw_executed_at row) ?T") (auto simp: store_transaction_handler_def and_then_def upsert_transaction_def Let_def)
qed

section \<open>A concrete chain\<close>

definition sample_call_env :: "unit call_env" where
  "sample_call_env = \<lparr>cv_parse_abi = (\<lambda>_. None), cv_hash_at = (\<lambda>_ _. Inr 1), cv_class_at = (\<lambda>_ _. Inr (LegacyClass (Some [LFunction ''execute_from_outside_v2'']))),
     cv_selector_of = (\<lambda>_. Some 7), cv_hex = felt_hex hex_text, cv_execute = (\<lambda>xs. if xs = [1] then Some [\<lparr>xc_contract_address = 4, xc_selector = 7,
       xc_calldata = [0, 0, 0, 0, 1] @ [5, 8, 2, 20, 30] @ [6]\<rparr>] else if xs = [2] then Some [\<lparr>xc_contract_address = 4, xc_selector = 7, xc_calldata = [0]\<rparr>] else None),
     cv_legacy = (\<lambda>_. None)\<rparr>"

definition sample_name :: "felt \<Rightarrow> felt \<Rightarrow> string" where
  "sample_name a s = (if s = 7 then ''execute_from_outside_v2'' else felt_hex hex_text s)"

interpretation sample_classes: known_classes sample_call_env UNIV "\<lambda>_. Legacy [LFunction ''execute_from_outside_v2'']" sample_name
proof
  fix b a
  show "\<exists>h k. cv_hash_at sample_call_env b a = Inr h \<and> cv_class_at sample_call_env b a = Inr k \<and>
      class_of (cv_parse_abi sample_call_env) k = Some (Legacy [LFunction ''execute_from_outside_v2''])" by (simp add: sample_call_env_def class_of_def)
next
  fix a s
  show "\<exists>n. get_entrypoint_name_from_class (cv_selector_of sample_call_env) (Legacy [LFunction ''execute_from_outside_v2'']) s = Some n \<and>
      sample_name a s = (case n of None \<Rightarrow> cv_hex sample_call_env s | Some x \<Rightarrow> x)"
    by (simp add: sample_call_env_def sample_name_def get_entrypoint_name_from_class_def)
qed

definition sample_context :: "felt list \<Rightarrow> transaction_context" where
  "sample_context calldata = \<lparr>xt_transaction = InvokeV3 \<lparr>ic_sender_address = 3, ic_calldata = calldata, ic_signature = [9], ic_nonce = 0\<rparr>, xt_transaction_hash = 11,
     xt_block_number = 5, xt_block_timestamp = 6, xt_contract_addresses = [4], xt_unique_models = []\<rparr>"

definition sample_plan :: planned where
  "sample_plan = \<lparr>pl_call = \<lparr>xc_contract_address = 4, xc_selector = 7, xc_calldata = [0, 0, 0, 0, 1] @ [5, 8, 2, 20, 30] @ [6]\<rparr>,
     pl_nested = [\<lparr>xc_contract_address = 5, xc_selector = 8, xc_calldata = [20, 30]\<rparr>]\<rparr>"

definition sample_transaction_config :: transaction_config where
  "sample_transaction_config = \<lparr>fc_felt = hex_text, fc_sessions = \<lparr>se_json = numbered_json, se_newest = (\<lambda>_. None)\<rparr>, fc_activity_enabled = False, fc_session_timeout = 0,
     fc_excluded_entrypoints = []\<rparr>"

definition sample_transaction_tables :: transaction_tables where
  "sample_transaction_tables = \<lparr>ft_transactions = [], ft_contracts = [(felt_hex hex_text 4, False)], ft_model_namespaces = [], ft_transaction_contract = [],
     ft_transaction_models = [], ft_transaction_calls = [], ft_activities = []\<rparr>"

lemma sample_planned: "well_planned sample_name UNIV sample_plan"
  by (simp add: well_planned_def sample_plan_def sample_name_def outside_header_def encodes_nested_def encode_call_def)

section \<open>Properties\<close>

text \<open>
  C29. Every call of an invoke transaction is recorded: if its calldata decodes to calls of deployed contracts, and each call of \<open>execute_from_outside_v2\<close> or \<open>v3\<close> has calldata
  that encodes calls of deployed contracts after its header, the processor sends the transaction with exactly these calls, those of the transaction first and then those made from
  outside, with their callers, entrypoint names and calldata. Stored for the first time, the transaction that subscribers get is the one that was
  sent, read back from its texts, and the calls are the new rows of \<open>transaction_calls\<close>, in order.
\<close>

theorem transaction_calls_recorded:
  assumes "known_classes V deployed classes name" and "known_classes.cache_ok deployed classes cache"
    and "extract_transaction_info (xt_transaction ctx) = Some info" and "ti_transaction_type info = ''INVOKE''"
    and "cv_execute V (ti_calldata info) = Some (map pl_call ps)" and "\<forall>p \<in> set ps. well_planned name deployed p"
    and "felt_format (fc_felt C)" and "\<And>f. CHR ''/'' \<notin> set (felt_hex (fc_felt C) f) \<and> felt_hex (fc_felt C) f \<noteq> []"
    and "map_of (ft_transactions T) (felt_hex (fc_felt C) (xt_transaction_hash ctx)) = None"
    and "\<forall>a \<in> set (xt_contract_addresses ctx). felt_hex (fc_felt C) a \<in> fst ` set (ft_contracts T)"
  shows "\<exists>q cache'. process_transaction V ctx cache = (Inr (Some q), cache') \<and> tx_calls (sq_transaction q) = all_calls name (ti_sender_address info) ps \<and>
    (\<exists>as T'. store_transaction_handler C q T = (Inr (map ActivityUpdated as @ [TransactionStored (sq_transaction q)]), T') \<and>
      ft_transaction_calls T' = ft_transaction_calls T @ map (call_row_of C (felt_hex (fc_felt C) (xt_transaction_hash ctx))) (all_calls name (ti_sender_address info) ps))"
proof -
  obtain cache' where e: "parse_execute V (Execute (map pl_call ps)) (ti_sender_address info) (xt_block_number ctx) cache = (Inr (all_calls name (ti_sender_address info) ps), cache')"
    using known_classes.gives_execute[OF assms(1,6)] assms(2) unfolding known_classes.gives_def[OF assms(1)] by blast
  obtain q where q: "process_transaction V ctx cache = (Inr (Some q), cache')" "tx_calls (sq_transaction q) = all_calls name (ti_sender_address info) ps"
    "tx_transaction_hash (sq_transaction q) = xt_transaction_hash ctx" "sq_contract_addresses q = xt_contract_addresses ctx"
    using e assms(3-5) by (simp add: process_transaction_def and_then_def transaction_calls_def decode_execute_def ret_def)
  then show ?thesis using stored_transaction[OF assms(7,8), of T q] assms(9,10) by auto
qed

theorem transaction_calls_recorded_witness:
  "\<exists>q cache'. process_transaction sample_call_env (sample_context [1]) [] = (Inr (Some q), cache') \<and>
     map tc_contract_address (tx_calls (sq_transaction q)) = [4, 5] \<and> map tc_calldata (tx_calls (sq_transaction q)) = [[0, 0, 0, 0, 1, 5, 8, 2, 20, 30, 6], [20, 30]] \<and>
     (\<exists>as T'. store_transaction_handler sample_transaction_config q sample_transaction_tables = (Inr (map ActivityUpdated as @ [TransactionStored (sq_transaction q)]), T') \<and>
       map cr_entrypoint (ft_transaction_calls T') = [''execute_from_outside_v2'', felt_hex hex_text 8])"
proof -
  have info: "extract_transaction_info (xt_transaction (sample_context [1])) = Some \<lparr>ti_sender_address = 3, ti_calldata = [1], ti_max_fee = 0, ti_signature = [9], ti_nonce = 0,
      ti_transaction_type = ''INVOKE''\<rparr>" by (simp add: extract_transaction_info_def sample_context_def)
  have ok: "known_classes.cache_ok UNIV (\<lambda>_. Legacy [LFunction ''execute_from_outside_v2'']) []" by (simp add: sample_classes.cache_ok_def)
  have dec: "cv_execute sample_call_env [1] = Some (map pl_call [sample_plan])" by (simp add: sample_call_env_def sample_plan_def)
  have calls: "map tc_contract_address (all_calls sample_name 3 [sample_plan]) = [4, 5]" "map tc_calldata (all_calls sample_name 3 [sample_plan]) = [[0, 0, 0, 0, 1, 5, 8, 2, 20, 30, 6], [20, 30]]"
    "map (cr_entrypoint \<circ> call_row_of C h) (all_calls sample_name 3 [sample_plan]) = [''execute_from_outside_v2'', felt_hex hex_text 8]" for C h
    by (simp_all add: all_calls_def sample_plan_def call_of_def sample_name_def call_row_of_def Let_def)
  have F: "fc_felt sample_transaction_config = hex_text" by (simp add: sample_transaction_config_def)
  show ?thesis
    using transaction_calls_recorded[OF sample_classes.known_classes_axioms ok info, of "[sample_plan]" sample_transaction_config sample_transaction_tables]
      dec sample_planned hex_felts.felt_format_axioms hex_text_plain calls
    by (fastforce simp: F sample_transaction_tables_def sample_context_def comp_def)
qed

text \<open>
  C37. A call with the name of an outside execution and calldata that ends before the number of calls panics, whatever the other calls are, so the task that processes the
  transaction dies with it; anybody can send such a transaction.
\<close>

theorem short_outside_call_panics:
  assumes "known_classes V deployed classes name" and "known_classes.cache_ok deployed classes cache"
    and "extract_transaction_info (xt_transaction ctx) = Some info" and "ti_transaction_type info = ''INVOKE''"
    and "cv_execute V (ti_calldata info) = Some (map pl_call ps @ call # rest)" and "\<forall>p \<in> set ps. well_planned name deployed p"
    and "\<forall>x \<in> set (call # rest). xc_contract_address x \<in> deployed"
    and "outside_header (name (xc_contract_address call) (xc_selector call)) = Some k" and "length (xc_calldata call) \<le> k"
  shows "fst (process_transaction V ctx cache) = Inl CallPanic"
proof -
  obtain cache' where "parse_execute V (Execute (map pl_call ps @ call # rest)) (ti_sender_address info) (xt_block_number ctx) cache = (Inl CallPanic, cache')"
    using known_classes.execute_panics[OF assms(1,6-9)] assms(2) unfolding known_classes.panics_def[OF assms(1)] by blast
  then show ?thesis using assms(3-5) by (simp add: process_transaction_def and_then_def transaction_calls_def decode_execute_def)
qed

theorem short_outside_call_panics_witness: "fst (process_transaction sample_call_env (sample_context [2]) []) = Inl CallPanic"
proof -
  have info: "extract_transaction_info (xt_transaction (sample_context [2])) = Some \<lparr>ti_sender_address = 3, ti_calldata = [2], ti_max_fee = 0, ti_signature = [9], ti_nonce = 0,
      ti_transaction_type = ''INVOKE''\<rparr>" by (simp add: extract_transaction_info_def sample_context_def)
  have ok: "known_classes.cache_ok UNIV (\<lambda>_. Legacy [LFunction ''execute_from_outside_v2'']) []" by (simp add: sample_classes.cache_ok_def)
  show ?thesis
    using short_outside_call_panics[OF sample_classes.known_classes_axioms ok info, of "[]" "\<lparr>xc_contract_address = 4, xc_selector = 7, xc_calldata = [0]\<rparr>" "[]" 4]
    by (simp add: sample_call_env_def sample_name_def outside_header_def)
qed

end
