(* ===== verification/Spec2Isabelle.thy ===== *)
theory Spec2Isabelle
  imports Cache BatchOrder MetadataFetch TokenRegistration WorldProcessors FetcherBlocks FetcherPending SqlEngine PaginationSpec CompositeSpec SubscriptionSpec Activity MessagingSpec TransactionSpec
begin

text \<open>
  Torii indexes the events of Starknet contracts into SQLite. The program under \<open>src/crates\<close> has these parts, from the chain to the database:

  \<^item> the fetcher (\<open>indexer/fetcher\<close>) asks a JSON-RPC node for the events after the cursor of every contract, finished blocks page by page and
    the block in progress as a whole, and returns them with the moved cursors;
  \<^item> the engine (\<open>indexer/engine\<close>) loops: fetch, process, commit; after an error roll back, sleep and try again;
  \<^item> the processors (\<open>processors\<close>) turn an event into storage operations; the task manager runs them as tasks of the task network
    (\<open>task-network\<close>) over an acyclic digraph (\<open>adigraphmap\<close>), so that independent events run concurrently;
  \<^item> the cache (\<open>cache\<close>) holds models, classes, the tokens known so far and the balance and supply differences of the batch, in signed 256-bit
    arithmetic (\<open>math\<close>);
  \<^item> the storage (\<open>sqlite\<close>) sends queries to one executor task, which has one open transaction and publishes updates through a broker (\<open>broker\<close>);
  \<^item> the servers (\<open>grpc\<close>, \<open>graphql\<close>) answer queries by building SQL from clauses, page by page, and pass the updates on to the subscribers whose filter they match.

  \<^bold>\<open>Theories.\<close> Each is one component with its state, operations, invariant and lemmas; a \<open>...Spec\<close> theory states and proves what
  its component promises.

  \<^item> \<open>Prelude\<close>: results with state, association lists for hash maps, hash iteration orders, and the lemmas on them. \<open>Proto\<close>: the identifiers and
    records of \<open>proto/src/lib.rs\<close> the other parts use. \<open>I256\<close>: \<open>math/src/lib.rs\<close>.
  \<^item> \<open>ErcCache\<close>, \<open>Cache\<close>: \<open>cache/src/lib.rs\<close>. The balance differences of any sequence of transfers are the signed sums of what they move and
    conserve the supply; a reset brings back what storage holds; only one task registers a token.
  \<^item> \<open>Digraph\<close>, \<open>DigraphSpec\<close>: \<open>adigraphmap\<close>. An edge is refused exactly if it closes a cycle; levels and the topological order respect the edges.
  \<^item> \<open>TaskNetwork\<close>, \<open>TaskRun\<close>, \<open>TaskManager\<close>, \<open>BatchOrder\<close>, \<open>LatestOnly\<close>: \<open>task-network\<close> and \<open>processors/src/task_manager.rs\<close>. The tasks of a level
    are interleaved by a step relation with as many permits as the semaphore has. Under every schedule a task starts after its prerequisites, each
    once; the run ends; the events of a batch reach their tasks in chain order, and leaving out superseded latest-only events changes nothing.
  \<^item> \<open>JsonSanitize\<close>, \<open>MetadataFetch\<close>, \<open>TokenRegistration\<close>: \<open>processors/src/erc.rs\<close>. Retries end; failures of a token's metadata are contained; under every
    interleaving a token is written once and registration does not deadlock.
  \<^item> \<open>ErcProcessors\<close>, \<open>WorldProcessors\<close>: the processors of \<open>processors/src/processors\<close>, each a function from an event to storage
    operations and results.
  \<^item> \<open>Fetcher\<close>, \<open>FetcherSpec\<close>, \<open>FetcherBlocks\<close>, \<open>FetcherPending\<close>: \<open>indexer/fetcher/src/json_rpc.rs\<close>. Every event after a cursor is delivered exactly once,
    in finished blocks and in the block in progress, against any node that behaves as documented (the locales \<open>event_source\<close> and \<open>block_source\<close>).
  \<^item> \<open>EventId\<close>: \<open>storage/src/utils.rs\<close>. Identifiers parse back to what they were made of.
  \<^item> \<open>Engine\<close>, \<open>EngineSpec\<close>: \<open>indexer/engine/src/engine.rs\<close>, the loop as a step relation over any services. The locale \<open>transactional\<close> states what the
    engine needs of its storage, and the locale \<open>transactional_engine\<close> shows that the engine then refines an indexer that only commits
    whole batches.
  \<^item> \<open>TokenTraits\<close>, \<open>Database\<close>, \<open>TokenLedger\<close>, \<open>LedgerSpec\<close>, \<open>Executor\<close>, \<open>ExecutorSpec\<close>: \<open>sqlite/sqlite/src/executor\<close> and the methods of \<open>storage.rs\<close> that
    send it queries. The stored balances and supplies follow the transfers; a batch is committed or rolled back as a whole; cursors read back.
  \<^item> \<open>NumberText\<close>, \<open>Pagination\<close>, \<open>PaginationSpec\<close>: \<open>cursor.rs\<close> and \<open>query.rs\<close> of \<open>sqlite/sqlite/src\<close>. Paging forward by the default order returns every
    row once; paging backward and by other columns loses rows. The locales \<open>sqlite_select\<close> and \<open>paged\<close> state what is relied on of SQLite.
  \<^item> \<open>Schema\<close>, \<open>CompositeQuery\<close>, \<open>CompositeSpec\<close>: clauses, and the conditions of \<open>model.rs\<close> with their SQL text. Every placeholder has its value; a clause without
    \<open>Or\<close> below \<open>And\<close> selects what it says, and other clauses do not.
  \<^item> \<open>Subscriptions\<close>, \<open>Updates\<close>, \<open>Dispatch\<close>, \<open>SubscriptionSpec\<close>: \<open>grpc/server/src/subscriptions\<close> and \<open>broker\<close>. An update reaches exactly the subscribers
    whose filter it passes; three kinds of filters do not do what they are for.
  \<^item> \<open>Activity\<close>: \<open>executor/activity.rs\<close>. The stored sessions are the groups of calls that follow each other within the timeout.
  \<^item> \<open>ModelTable\<close>, \<open>ModelTableSpec\<close>: the tables of models (\<open>build_model_query\<close> of \<open>sqlite/sqlite/src/lib.rs\<close>), the statement that stores a value, and \<open>map_row_to_ty\<close> and the
    columns of \<open>model.rs\<close>. What is stored is read back, apart from fixed-size arrays; the locale \<open>model_store\<close> states what is relied on of the
    texts of primitive types and of SQLite's columns.
  \<^item> \<open>Aggregator\<close>, \<open>AggregatorSpec\<close>: \<open>executor/aggregator.rs\<close>. Counts, sums, averages and extremes follow the stored values, as far as the code's arithmetic goes.
  \<^item> \<open>EntityStore\<close>, \<open>EntityStoreSpec\<close>: \<open>set_entity\<close> and \<open>delete_entity\<close> of \<open>storage.rs\<close> with the executor's side of them. They refine a map from world, entity and
    model to a value (the locale \<open>entity_store\<close>).
  \<^item> \<open>Achievements\<close>, \<open>AchievementSpec\<close>: \<open>executor/achievement.rs\<close>. Progress is the sum of the reports and a task is complete once it reaches its target.
  \<^item> \<open>EventMessages\<close>, \<open>EventMessageSpec\<close>: \<open>set_event_message\<close> and the executor's side of it, with aggregations and achievements. Entities and event messages do not
    disturb each other (the locale \<open>event_store\<close>, which extends \<open>entity_store\<close>).
  \<^item> \<open>Messaging\<close>, \<open>MessagingSpec\<close>: \<open>messaging/src\<close>. An entity is replaced only by a message its owner signed, and a message with a time is accepted once, on any storage of the
    locale \<open>message_store\<close>; the SQLite storage is one (a sublocale of \<open>entity_store\<close>).
  \<^item> \<open>Transactions\<close>, \<open>TransactionSpec\<close>: \<open>processors/src/processors/store_transaction.rs\<close>, \<open>store_transaction\<close> of \<open>storage.rs\<close> and the executor's side of it. Calls, also those made from outside, are
    recorded as they are encoded, given contract classes as the locale \<open>known_classes\<close> says; calldata that is too short panics.
  \<^item> \<open>SqlEngine\<close>: the engine over the SQLite storage and the cache. It interprets the engine's locales on the model's own storage, which composes
    the engine's theorem with the executor's.

  \<^bold>\<open>How code is modelled.\<close> An operation with \<open>&mut self\<close> takes its state and returns a sum with the new state; a panic is an error value of its own,
  since it ends the task it occurs in. Concurrent code is an inductive step relation, and its theorems hold for every run. Machine integers are words; hash maps and
  sets are association lists, and where the code iterates over one the order is a parameter. Loops that depend on a provider's answers
  carry fuel, and the theorems about them show that they end with some amount of it; nothing is claimed only for runs that happen to end.

  \<^bold>\<open>Parameters.\<close> Code outside the repository is an argument: petgraph's algorithms, the JSON-RPC provider, HTTP and IPFS, JSON text,
  the text of 256-bit numbers, SQLite's answers to commit, rollback and begin. What is relied on is a named hypothesis or locale, each shown to
  hold of a concrete instance.

  \<^bold>\<open>Not modelled.\<close> The servers (gRPC requests, GraphQL, HTTP, libp2p, MCP), the command line and the runner are I/O and glue over libraries. In \<open>Executor\<close> the queries on
  entities, event messages, transactions and models are the parameter \<open>xe_statement\<close>; those on entities, event messages and transactions are modelled on tables of their own in
  \<open>EntityStore\<close>, \<open>EventMessages\<close> and \<open>Transactions\<close>. Messages are handled one after the other, not concurrently. The hashing of typed data, the refresh of token metadata on events and the
  recognition of controllers are left out. Logs, metrics and timing are left out everywhere.
\<close>

end
